(* ===== verification/Prelude.thy ===== *)
theory Prelude
  imports Main "HOL-Library.Sublist" "HOL-Library.AList" "HOL-Library.Signed_Division"
    "HOL-Library.Multiset"
begin

section \<open>Shared vocabulary\<close>

text \<open>
  What every component uses: results that are an error or a value, loops that may throw, the
  JavaScript numbers and strings the services handle, stable sorting by a comparator, and rows
  looked up and updated by key in a list of rows. The lemmas about results are collected in
  \<open>result_simps\<close>, those about rows in \<open>row_simps\<close>.
\<close>

named_theorems result_simps
named_theorems row_simps

subsection \<open>Results\<close>

text \<open>A computation that throws is a sum: \<open>Inl\<close> the error, \<open>Inr\<close> the value returned.\<close>

definition andThen :: "'e + 'a \<Rightarrow> ('a \<Rightarrow> 'e + 'b) \<Rightarrow> 'e + 'b" where
  "andThen m k = (case m of Inl e \<Rightarrow> Inl e | Inr x \<Rightarrow> k x)"

lemma andThen_simps [simp]:
  "andThen (Inl e) k = Inl e"
  "andThen (Inr x) k = k x"
  by (simp_all add: andThen_def)

lemma andThen_Inr_iff [result_simps]:
  "andThen m k = Inr y \<longleftrightarrow> (\<exists>x. m = Inr x \<and> k x = Inr y)"
  by (cases m) auto

lemma andThen_Inl_iff [result_simps]:
  "andThen m k = Inl e \<longleftrightarrow> m = Inl e \<or> (\<exists>x. m = Inr x \<and> k x = Inl e)"
  by (cases m) auto

text \<open>Whether a result is a value (the call returned), and the guard form \<open>if (c) throw e\<close>.\<close>

definition returns :: "'e + 'a \<Rightarrow> bool" where
  "returns m = (case m of Inl _ \<Rightarrow> False | Inr _ \<Rightarrow> True)"

lemma returns_simps [simp]: "returns (Inr x)" "\<not> returns (Inl e)"
  by (simp_all add: returns_def)

lemma returns_iff: "returns m \<longleftrightarrow> (\<exists>x. m = Inr x)"
  by (cases m) auto

definition throwIf :: "bool \<Rightarrow> 'e \<Rightarrow> 'e + unit" where
  "throwIf c e = (if c then Inl e else Inr ())"

lemma throwIf_Inr [result_simps]: "throwIf c e = Inr u \<longleftrightarrow> \<not> c"
  by (simp add: throwIf_def)

lemma throwIf_Inl [result_simps]: "throwIf c e = Inl e' \<longleftrightarrow> c \<and> e' = e"
  by (auto simp: throwIf_def)

lemma throwIf_simps [simp]: "throwIf True e = Inl e" "throwIf False e = Inr ()"
  by (simp_all add: throwIf_def)

text \<open>A lookup that throws when the row is missing, and an early throw, in front of a result.\<close>

lemma branch_Inr:
  "(case m of None \<Rightarrow> Inl e | Some x \<Rightarrow> f x) = Inr y \<longleftrightarrow> (\<exists>x. m = Some x \<and> f x = Inr y)"
  "(if b then Inl e else k) = Inr y \<longleftrightarrow> \<not> b \<and> k = Inr y"
  by (auto split: option.splits)

text \<open>A \<open>for ... of\<close> loop whose body updates a state and may throw.\<close>

fun forEach :: "('a \<Rightarrow> 's \<Rightarrow> 'e + 's) \<Rightarrow> 'a list \<Rightarrow> 's \<Rightarrow> 'e + 's" where
  "forEach f [] s = Inr s"
| "forEach f (x # xs) s = andThen (f x s) (forEach f xs)"

lemma forEach_append: "forEach f (xs @ ys) s = andThen (forEach f xs s) (forEach f ys)"
proof (induction xs arbitrary: s)
  case Nil
  show ?case by simp
next
  case (Cons x xs)
  show ?case by (cases "f x s") (simp_all add: Cons.IH)
qed

text \<open>A property every iteration keeps holds after the loop.\<close>

lemma forEach_invariant:
  assumes "forEach f xs s = Inr s'" and "P s"
    and "\<And>x s s'. x \<in> set xs \<Longrightarrow> P s \<Longrightarrow> f x s = Inr s' \<Longrightarrow> P s'"
  shows "P s'"
  using assms
proof (induction xs arbitrary: s)
  case Nil
  then show ?case by simp
next
  case (Cons x xs)
  from Cons.prems(1) obtain t where t: "f x s = Inr t" "forEach f xs t = Inr s'"
    by (auto simp: result_simps)
  have "P t" using Cons.prems(2,3) t(1) by (meson list.set_intros(1))
  with t(2) Cons.prems(3) show ?case using Cons.IH by (meson list.set_intros(2))
qed

text \<open>A measure every iteration leaves unchanged is unchanged by the loop.\<close>

lemma forEach_constant:
  assumes "forEach f xs s = Inr s'" and "P s"
    and "\<And>x s s'. x \<in> set xs \<Longrightarrow> P s \<Longrightarrow> f x s = Inr s' \<Longrightarrow> P s' \<and> m s' = m s"
  shows "m s' = m s"
proof -
  have "P s' \<and> m s' = m s"
    by (rule forEach_invariant [OF assms(1), where P = "\<lambda>t. P t \<and> m t = m s"])
      (use assms(2,3) in auto)
  then show ?thesis by simp
qed

text \<open>A loop whose body never throws returns.\<close>

lemma forEach_returns:
  assumes "P s" and "\<And>x s. x \<in> set xs \<Longrightarrow> P s \<Longrightarrow> \<exists>s'. f x s = Inr s' \<and> P s'"
  shows "\<exists>s'. forEach f xs s = Inr s' \<and> P s'"
  using assms
proof (induction xs arbitrary: s)
  case Nil
  then show ?case by simp
next
  case (Cons x xs)
  from Cons.prems obtain t where "f x s = Inr t" "P t" by (meson list.set_intros(1))
  with Cons.IH [of t] Cons.prems(2) show ?case by simp
qed

subsection \<open>JavaScript numbers, bigints and strings\<close>

text \<open>
  A \<open>number\<close> argument that the code first tests with \<open>Number.isInteger\<close> is an integer or some
  value that is not one (a fraction, NaN or an infinity, which the code never distinguishes
  because it throws). Columns of the database and bigints are \<open>int\<close>.
\<close>

datatype jsnum = IntN int | NonInt

fun isInteger :: "jsnum \<Rightarrow> bool" where
  "isInteger (IntN _) = True"
| "isInteger NonInt = False"

fun num :: "jsnum \<Rightarrow> int" where
  "num (IntN i) = i"
| "num NonInt = 0"

lemma isInteger_iff: "isInteger n \<longleftrightarrow> (\<exists>i. n = IntN i)"
  by (cases n) auto

text \<open>bigint division on non-negative operands.\<close>

lemma sdiv_nonneg: "0 \<le> x \<Longrightarrow> 0 < m \<Longrightarrow> x sdiv m = x div (m :: int)"
  by (cases "x = 0") (simp_all add: signed_divide_int_def sgn_1_pos)

text \<open>The operator \<open>??\<close>.\<close>

definition orDefault :: "'a option \<Rightarrow> 'a \<Rightarrow> 'a" where
  "orDefault m x = (case m of None \<Rightarrow> x | Some y \<Rightarrow> y)"

text \<open>Decimal notation of an integer, as a template literal prints it.\<close>

definition digitChar :: "nat \<Rightarrow> char" where
  "digitChar n = char_of (48 + n)"

fun showNat :: "nat \<Rightarrow> string" where
  "showNat n = (if n < 10 then [digitChar n] else showNat (n div 10) @ [digitChar (n mod 10)])"

declare showNat.simps [simp del]

definition showInt :: "int \<Rightarrow> string" where
  "showInt i = (if i < 0 then ''-'' @ showNat (nat (- i)) else showNat (nat i))"

text \<open>\<open>trim()\<close>: the white space of the 8-bit characters; \<open>includes\<close>: a contiguous substring.\<close>

definition isSpace :: "char \<Rightarrow> bool" where
  "isSpace c = (of_char c \<in> {9, 10, 11, 12, 13, 32, 160 :: nat})"

definition trim :: "string \<Rightarrow> string" where
  "trim s = rev (dropWhile isSpace (rev (dropWhile isSpace s)))"

definition strIncludes :: "string \<Rightarrow> string \<Rightarrow> bool" where
  "strIncludes s t = sublist t s"

definition upperChar :: "char \<Rightarrow> char" where
  "upperChar c = (let n = (of_char c :: nat) in if 97 \<le> n \<and> n \<le> 122 then char_of (n - 32) else c)"

definition toUpperCase :: "string \<Rightarrow> string" where
  "toUpperCase s = map upperChar s"

text \<open>\<open>[...new Set(xs)]\<close>: the first occurrence of each element, in order.\<close>

definition nubFirst :: "'a list \<Rightarrow> 'a list" where
  "nubFirst xs = rev (remdups (rev xs))"

lemma set_nubFirst [simp]: "set (nubFirst xs) = set xs"
  by (simp add: nubFirst_def)

lemma distinct_nubFirst [simp]: "distinct (nubFirst xs)"
  by (simp add: nubFirst_def)

subsection \<open>Stable sorting by a comparator\<close>

text \<open>
  \<open>Array.prototype.sort\<close> and \<open>ORDER BY\<close>: a stable sort by a comparator whose result is
  negative, zero or positive. For a consistent comparator the stably sorted list is unique, so
  the algorithm does not matter; rows that compare equal stay in table order.
\<close>

fun insertBy :: "('a \<Rightarrow> 'a \<Rightarrow> int) \<Rightarrow> 'a \<Rightarrow> 'a list \<Rightarrow> 'a list" where
  "insertBy cmp x [] = [x]"
| "insertBy cmp x (y # ys) = (if cmp x y \<le> 0 then x # y # ys else y # insertBy cmp x ys)"

definition sortBy :: "('a \<Rightarrow> 'a \<Rightarrow> int) \<Rightarrow> 'a list \<Rightarrow> 'a list" where
  "sortBy cmp xs = foldr (insertBy cmp) xs []"

lemma sortBy_simps [simp]:
  "sortBy cmp [] = []"
  "sortBy cmp (x # xs) = insertBy cmp x (sortBy cmp xs)"
  by (simp_all add: sortBy_def)

lemma mset_insertBy [simp]: "mset (insertBy cmp x xs) = add_mset x (mset xs)"
  by (induction xs) auto

lemma mset_sortBy [simp]: "mset (sortBy cmp xs) = mset xs"
  by (induction xs) auto

lemma set_sortBy [simp]: "set (sortBy cmp xs) = set xs"
  by (metis mset_sortBy set_mset_mset)

lemma length_sortBy [simp]: "length (sortBy cmp xs) = length xs"
  by (metis mset_sortBy size_mset)

lemma distinct_sortBy [simp]: "distinct (sortBy cmp xs) = distinct xs"
  by (metis mset_sortBy mset_eq_imp_distinct_iff)

lemma mset_map_sortBy [simp]: "mset (map f (sortBy cmp xs)) = mset (map f xs)"
  by simp

lemma distinct_map_sortBy [simp]: "distinct (map f (sortBy cmp xs)) = distinct (map f xs)"
  by (metis mset_map_sortBy mset_eq_imp_distinct_iff)

text \<open>
  When the comparator's first criterion is an integer key, the sorted list is ordered by that
  key, whatever the comparator does between equal keys.
\<close>

lemma insertBy_sorted_key:
  fixes key :: "'a \<Rightarrow> int"
  assumes "\<And>x y. cmp x y \<le> 0 \<Longrightarrow> key x \<le> key y" and "\<And>x y. 0 < cmp x y \<Longrightarrow> key y \<le> key x"
  shows "sorted (map key ys) \<Longrightarrow> sorted (map key (insertBy cmp x ys))"
proof (induction ys)
  case Nil
  show ?case by simp
next
  case (Cons y ys)
  show ?case
  proof (cases "cmp x y \<le> 0")
    case True
    then show ?thesis using assms(1) [OF True] Cons.prems by auto
  next
    case False
    then have "key y \<le> key x" using assms(2) by simp
    moreover have "set (insertBy cmp x ys) = insert x (set ys)"
      by (metis mset_insertBy set_mset_mset set_mset_add_mset_insert)
    ultimately show ?thesis using False Cons by auto
  qed
qed

lemma sortBy_sorted_key:
  fixes key :: "'a \<Rightarrow> int"
  assumes "\<And>x y. cmp x y \<le> 0 \<Longrightarrow> key x \<le> key y" and "\<And>x y. 0 < cmp x y \<Longrightarrow> key y \<le> key x"
  shows "sorted (map key (sortBy cmp xs))"
proof (induction xs)
  case (Cons x xs)
  then show ?case using insertBy_sorted_key [of cmp key, OF assms] by simp
qed simp

text \<open>What a consistent comparator promises, and what sorting then delivers.\<close>

locale comparator =
  fixes cmp :: "'a \<Rightarrow> 'a \<Rightarrow> int"
  assumes cmp_total: "0 < cmp x y \<Longrightarrow> cmp y x \<le> 0"
    and cmp_trans: "cmp x y \<le> 0 \<Longrightarrow> cmp y z \<le> 0 \<Longrightarrow> cmp x z \<le> 0"
begin

lemma sorted_insertBy:
  assumes "sorted_wrt (\<lambda>a b. cmp a b \<le> 0) ys"
  shows "sorted_wrt (\<lambda>a b. cmp a b \<le> 0) (insertBy cmp x ys)"
  using assms
proof (induction ys)
  case Nil
  show ?case by simp
next
  case (Cons y ys)
  show ?case
  proof (cases "cmp x y \<le> 0")
    case True
    with Cons.prems show ?thesis by (auto intro: cmp_trans)
  next
    case False
    then have "cmp y x \<le> 0" by (simp add: cmp_total)
    moreover have "set (insertBy cmp x ys) = insert x (set ys)"
      by (metis mset_insertBy set_mset_mset set_mset_add_mset_insert)
    ultimately show ?thesis using False Cons by auto
  qed
qed

lemma sorted_sortBy: "sorted_wrt (\<lambda>a b. cmp a b \<le> 0) (sortBy cmp xs)"
  by (induction xs) (simp_all add: sorted_insertBy)

end

text \<open>Comparing by an integer column, then by another comparator.\<close>

definition cmpKey :: "('a \<Rightarrow> int) \<Rightarrow> 'a \<Rightarrow> 'a \<Rightarrow> int" where
  "cmpKey key x y = key x - key y"

definition cmpThen :: "('a \<Rightarrow> 'a \<Rightarrow> int) \<Rightarrow> ('a \<Rightarrow> 'a \<Rightarrow> int) \<Rightarrow> 'a \<Rightarrow> 'a \<Rightarrow> int" where
  "cmpThen c1 c2 x y = (if c1 x y \<noteq> 0 then c1 x y else c2 x y)"

lemma comparator_cmpKey: "comparator (cmpKey key)"
  by (rule comparator.intro) (simp_all add: cmpKey_def)

lemma comparator_cmpThen: "comparator (cmpThen (cmpKey k1) (cmpKey k2))"
  by (rule comparator.intro) (auto simp: cmpThen_def cmpKey_def split: if_splits)

interpretation by_column: comparator "cmpKey key" for key :: "'a \<Rightarrow> int"
  by (rule comparator_cmpKey)

interpretation by_columns: comparator "cmpThen (cmpKey k1) (cmpKey k2)"
  for k1 k2 :: "'a \<Rightarrow> int"
  by (rule comparator_cmpThen)

subsection \<open>Rows by key\<close>

text \<open>
  A table is a list of rows. \<open>rowFind\<close> is the first row with a key (the only one when keys are
  unique), \<open>rowSet\<close> rewrites the rows with a key.
\<close>

definition rowFind :: "('r \<Rightarrow> 'k) \<Rightarrow> 'k \<Rightarrow> 'r list \<Rightarrow> 'r option" where
  "rowFind key k rs = List.find (\<lambda>r. key r = k) rs"

definition rowSet :: "('r \<Rightarrow> 'k) \<Rightarrow> 'k \<Rightarrow> ('r \<Rightarrow> 'r) \<Rightarrow> 'r list \<Rightarrow> 'r list" where
  "rowSet key k f rs = map (\<lambda>r. if key r = k then f r else r) rs"

lemma rowFind_simps [simp]:
  "rowFind key k [] = None"
  "rowFind key k (r # rs) = (if key r = k then Some r else rowFind key k rs)"
  by (simp_all add: rowFind_def)

lemma rowSet_simps [simp]:
  "rowSet key k f [] = []"
  "rowSet key k f (r # rs) = (if key r = k then f r else r) # rowSet key k f rs"
  by (simp_all add: rowSet_def)

lemma rowFind_Some: "rowFind key k rs = Some r \<Longrightarrow> r \<in> set rs \<and> key r = k"
  by (induction rs) (auto split: if_splits)

lemma rowFind_key: "rowFind key k rs = Some r \<Longrightarrow> key r = k"
  by (drule rowFind_Some) simp

lemma rowFind_in: "rowFind key k rs = Some r \<Longrightarrow> r \<in> set rs"
  by (drule rowFind_Some) simp

lemma rowFind_None: "rowFind key k rs = None \<longleftrightarrow> k \<notin> key ` set rs"
  by (induction rs) auto

lemma rowFind_unique:
  "distinct (map key rs) \<Longrightarrow> r \<in> set rs \<Longrightarrow> rowFind key (key r) rs = Some r"
  by (induction rs) force+

lemma rowFind_append:
  "rowFind key k (rs @ ts) =
     (case rowFind key k rs of None \<Rightarrow> rowFind key k ts | Some r \<Rightarrow> Some r)"
  by (induction rs) auto

lemma length_rowSet [simp]: "length (rowSet key k f rs) = length rs"
  by (simp add: rowSet_def)

lemma rowSet_append [simp]: "rowSet key k f (rs @ ts) = rowSet key k f rs @ rowSet key k f ts"
  by (simp add: rowSet_def)

text \<open>An update that does not change a column leaves that column of the table unchanged.\<close>

lemma map_rowSet_same [row_simps]:
  "(\<And>r. g (f r) = g r) \<Longrightarrow> map g (rowSet key k f rs) = map g rs"
  by (simp add: rowSet_def)

lemma rowFind_rowSet:
  assumes "\<And>r. key (f r) = key r"
  shows "rowFind key k (rowSet key j f rs) =
    (if k = j then map_option f (rowFind key k rs) else rowFind key k rs)"
  using assms by (induction rs) auto

lemma rowSet_id: "(\<And>r. key r = k \<Longrightarrow> f r = r) \<Longrightarrow> rowSet key k f rs = rs"
  by (induction rs) auto

lemma rowSet_rowSet:
  "(\<And>r. key (f r) = key r) \<Longrightarrow> rowSet key k g (rowSet key k f rs) = rowSet key k (\<lambda>r. g (f r)) rs"
  by (simp add: rowSet_def)

text \<open>A property of rows survives an update of the row found, when keys are unique.\<close>

lemma rowSet_all:
  assumes "distinct (map key rs)" and "rowFind key k rs = Some r"
    and "\<And>x. x \<in> set rs \<Longrightarrow> P x" and "P (f r)"
    and "x \<in> set (rowSet key k f rs)"
  shows "P x"
proof -
  from assms(5) obtain y where y: "y \<in> set rs" and x: "x = (if key y = k then f y else y)"
    by (auto simp: rowSet_def)
  show ?thesis
  proof (cases "key y = k")
    case True
    with assms(1,2) y have "y = r" using rowFind_unique by fastforce
    with True x assms(4) show ?thesis by simp
  next
    case False
    with x y assms(3) show ?thesis by simp
  qed
qed

text \<open>A column's total changes by what the update does to the row found.\<close>

lemma rowSet_absent: "k \<notin> key ` set rs \<Longrightarrow> rowSet key k f rs = rs"
  by (induction rs) auto

lemma rowSet_found_id:
  assumes "distinct (map key rs)" and "rowFind key k rs = Some r" and "f r = r"
  shows "rowSet key k f rs = rs"
  using assms
proof (induction rs)
  case (Cons x rs)
  then show ?case by (cases "key x = k") (auto simp: rowSet_absent)
qed simp

lemma sum_rowSet:
  fixes g :: "'r \<Rightarrow> int"
  assumes "distinct (map key rs)" and "rowFind key k rs = Some r"
  shows "(\<Sum>x\<leftarrow>rowSet key k f rs. g x) = (\<Sum>x\<leftarrow>rs. g x) + (g (f r) - g r)"
  using assms
proof (induction rs)
  case Nil
  then show ?case by simp
next
  case (Cons x rs)
  show ?case
  proof (cases "key x = k")
    case True
    with Cons.prems have "k \<notin> key ` set rs" "r = x" by auto
    with True show ?thesis by (simp add: rowSet_absent)
  next
    case False
    with Cons show ?thesis by simp
  qed
qed

text \<open>A filtered total, for instance the stock of one item.\<close>

lemma sum_list_filter_if:
  "(\<Sum>x\<leftarrow>filter P xs. g x) = (\<Sum>x\<leftarrow>xs. if P x then g x else (0::int))"
  by (induction xs) auto

lemma list_all2_right: "list_all2 P xs ys \<Longrightarrow> y \<in> set ys \<Longrightarrow> \<exists>x\<in>set xs. P x y"
  by (induction rule: list_all2_induct) auto

lemma sum_list_nonneg_int: "(\<And>x. x \<in> set xs \<Longrightarrow> 0 \<le> g x) \<Longrightarrow> 0 \<le> (\<Sum>x\<leftarrow>xs. g x :: int)"
  by (induction xs) auto

lemma sum_list_mono_int:
  "(\<And>x. x \<in> set xs \<Longrightarrow> f x \<le> g x) \<Longrightarrow> (\<Sum>x\<leftarrow>xs. f x :: int) \<le> (\<Sum>x\<leftarrow>xs. g x)"
  by (induction xs) (auto intro: add_mono)

lemma sum_list_member_le:
  "x \<in> set xs \<Longrightarrow> (\<And>y. y \<in> set xs \<Longrightarrow> 0 \<le> g y) \<Longrightarrow> g x \<le> (\<Sum>y\<leftarrow>xs. g y :: int)"
proof (induction xs)
  case (Cons y ys)
  then have "0 \<le> (\<Sum>y\<leftarrow>ys. g y)" by (auto intro: sum_list_nonneg_int)
  with Cons show ?case by fastforce
qed simp

text \<open>Totals by group add up to the total.\<close>

lemma sum_list_pick:
  "distinct ks \<Longrightarrow> k \<in> set ks \<Longrightarrow> (\<Sum>j\<leftarrow>ks. if k = j then (v::int) else 0) = v"
proof (induction ks)
  case (Cons j js)
  have "(\<Sum>i\<leftarrow>js. if k = i then v else 0) = 0" if "k \<notin> set js"
    using that by (induction js) auto
  with Cons show ?case by auto
qed simp

lemma sum_groups:
  fixes g :: "'a \<Rightarrow> int"
  assumes "distinct ks" and "key ` set xs \<subseteq> set ks"
  shows "(\<Sum>k\<leftarrow>ks. \<Sum>x\<leftarrow>filter (\<lambda>x. key x = k) xs. g x) = (\<Sum>x\<leftarrow>xs. g x)"
  using assms(2)
proof (induction xs)
  case (Cons x xs)
  have "(\<Sum>k\<leftarrow>ks. \<Sum>y\<leftarrow>filter (\<lambda>y. key y = k) (x # xs). g y) =
      (\<Sum>k\<leftarrow>ks. (if key x = k then g x else 0) + (\<Sum>y\<leftarrow>filter (\<lambda>y. key y = k) xs. g y))"
    by (rule arg_cong [where f = sum_list], rule map_cong) auto
  also have "\<dots> = g x + (\<Sum>y\<leftarrow>xs. g y)"
    using Cons sum_list_pick [OF assms(1), of "key x" "g x"] by (simp add: sum_list_addf)
  finally show ?case by simp
qed (simp add: sum_list_triv)

end
