(* ===== verification/DomainErrors.thy ===== *)
theory DomainErrors
  imports Prelude
begin

section \<open>Domain errors\<close>

text \<open>
  The error classes of \<open>packages/sim/src/domain/errors.ts\<close>, each with its message. The last
  two constructors are what the database client raises itself, with its error code and the target
  of the violated constraint (a name, a list of fields, or nothing), and the plain \<open>Error\<close> of the
  language, which the worker throws.
\<close>

datatype prismaTarget = NoTarget | TargetName string | TargetFields "string list"

datatype error =
    DomainInvariantError string
  | NotFoundError string
  | ForbiddenError string
  | OptimisticLockConflictError string
  | InsufficientFundsError string
  | InsufficientInventoryError string
  | PrismaKnownRequestError string prismaTarget
  | PlainError string

type_synonym 'a result = "error + 'a"

text \<open>Every class of the module extends \<open>DomainInvariantError\<close>.\<close>

fun isDomainInvariantError :: "error \<Rightarrow> bool" where
  "isDomainInvariantError (PrismaKnownRequestError _ _) = False"
| "isDomainInvariantError (PlainError _) = False"
| "isDomainInvariantError _ = True"

fun errorMessage :: "error \<Rightarrow> string" where
  "errorMessage (DomainInvariantError m) = m"
| "errorMessage (NotFoundError m) = m"
| "errorMessage (ForbiddenError m) = m"
| "errorMessage (OptimisticLockConflictError m) = m"
| "errorMessage (InsufficientFundsError m) = m"
| "errorMessage (InsufficientInventoryError m) = m"
| "errorMessage (PrismaKnownRequestError code _) = code"
| "errorMessage (PlainError m) = m"

text \<open>Updating a row that does not exist (P2025), inserting a row whose key exists (P2002).\<close>

definition recordNotFound :: error where
  "recordNotFound = PrismaKnownRequestError ''P2025'' NoTarget"

end
