(* ===== verification/Reservations.thy ===== *)
theory Reservations
  imports DomainErrors
begin

section \<open>Reservations of cash and inventory\<close>

text \<open>
  \<open>packages/sim/src/domain/reservations.ts\<close>: the two-phase reservation of cash for buy orders
  and of stock for sell orders. \<open>CashState\<close> and \<open>InventoryState\<close> are the records of the module;
  each exported function is a definition of the same name. The locale \<open>reservation\<close> states what a
  reservable account promises (a total, a reserved part, and a reserve operation that takes from
  the part still free); it is interpreted on both kinds of account.
\<close>

record CashState =
  cashCents :: int
  reservedCashCents :: int

record InventoryState =
  quantity :: jsnum
  reservedQuantity :: jsnum

definition assertInteger :: "jsnum \<Rightarrow> string \<Rightarrow> unit result" where
  "assertInteger value name =
     throwIf (\<not> isInteger value) (DomainInvariantError (name @ '' must be an integer''))"

definition assertCashInvariant :: "CashState \<Rightarrow> unit result" where
  "assertCashInvariant state =
     (if cashCents state < 0 then Inl (DomainInvariantError ''cash cannot be negative'')
      else if reservedCashCents state < 0
        then Inl (DomainInvariantError ''reserved cash cannot be negative'')
      else if reservedCashCents state > cashCents state
        then Inl (DomainInvariantError ''reserved cash cannot exceed cash balance'')
      else Inr ())"

definition assertInventoryInvariant :: "InventoryState \<Rightarrow> unit result" where
  "assertInventoryInvariant state =
     andThen (assertInteger (quantity state) ''quantity'') (\<lambda>_.
     andThen (assertInteger (reservedQuantity state) ''reservedQuantity'') (\<lambda>_.
       if num (quantity state) < 0
         then Inl (DomainInvariantError ''inventory quantity cannot be negative'')
       else if num (reservedQuantity state) < 0
         then Inl (DomainInvariantError ''reserved quantity cannot be negative'')
       else if num (reservedQuantity state) > num (quantity state)
         then Inl (DomainInvariantError ''reserved quantity cannot exceed inventory quantity'')
       else Inr ()))"

definition availableCash :: "CashState \<Rightarrow> int result" where
  "availableCash state =
     andThen (assertCashInvariant state) (\<lambda>_. Inr (cashCents state - reservedCashCents state))"

definition availableInventory :: "InventoryState \<Rightarrow> int result" where
  "availableInventory state =
     andThen (assertInventoryInvariant state)
       (\<lambda>_. Inr (num (quantity state) - num (reservedQuantity state)))"

definition reserveCashForBuyOrder :: "CashState \<Rightarrow> jsnum \<Rightarrow> int \<Rightarrow> CashState result" where
  "reserveCashForBuyOrder state qty unitPriceCents =
     andThen (assertInteger qty ''quantity'') (\<lambda>_.
     if num qty \<le> 0 then Inl (DomainInvariantError ''quantity must be greater than zero'')
     else if unitPriceCents \<le> 0
       then Inl (DomainInvariantError ''unitPriceCents must be greater than zero'')
     else
       (let reserveAmount = num qty * unitPriceCents in
        andThen (availableCash state) (\<lambda>available.
        if available < reserveAmount
          then Inl (InsufficientFundsError ''insufficient available cash for buy order reserve'')
        else
          (let nextState = state\<lparr>reservedCashCents := reservedCashCents state + reserveAmount\<rparr> in
           andThen (assertCashInvariant nextState) (\<lambda>_. Inr nextState)))))"

definition reserveInventoryForSellOrder :: "InventoryState \<Rightarrow> jsnum \<Rightarrow> InventoryState result" where
  "reserveInventoryForSellOrder state qty =
     andThen (assertInteger qty ''quantity'') (\<lambda>_.
     if num qty \<le> 0 then Inl (DomainInvariantError ''quantity must be greater than zero'')
     else
       andThen (availableInventory state) (\<lambda>available.
       if available < num qty
         then Inl (InsufficientInventoryError
                ''insufficient available inventory for sell order reserve'')
       else
         (let nextState =
                state\<lparr>reservedQuantity := IntN (num (reservedQuantity state) + num qty)\<rparr> in
          andThen (assertInventoryInvariant nextState) (\<lambda>_. Inr nextState))))"

subsection \<open>Characterisations\<close>

text \<open>The stored form of the two invariants, and when the assertions pass.\<close>

definition reservationOk :: "int \<Rightarrow> int \<Rightarrow> bool" where
  "reservationOk held reserved \<longleftrightarrow> 0 \<le> reserved \<and> reserved \<le> held"

lemma reservationOkI [intro]: "0 \<le> r \<Longrightarrow> r \<le> t \<Longrightarrow> reservationOk t r"
  by (simp add: reservationOk_def)

lemma assertInteger_iff [result_simps]: "assertInteger v n = Inr u \<longleftrightarrow> isInteger v"
  by (simp add: assertInteger_def result_simps)

lemma assertCashInvariant_iff [result_simps]:
  "assertCashInvariant s = Inr u \<longleftrightarrow> reservationOk (cashCents s) (reservedCashCents s)"
  by (auto simp: assertCashInvariant_def reservationOk_def)

lemma assertInventoryInvariant_iff [result_simps]:
  "assertInventoryInvariant s = Inr u \<longleftrightarrow>
     isInteger (quantity s) \<and> isInteger (reservedQuantity s) \<and>
     reservationOk (num (quantity s)) (num (reservedQuantity s))"
  by (auto simp: assertInventoryInvariant_def reservationOk_def result_simps split: if_splits)

lemma availableCash_iff [result_simps]:
  "availableCash s = Inr a \<longleftrightarrow>
     reservationOk (cashCents s) (reservedCashCents s) \<and>
     a = cashCents s - reservedCashCents s"
  by (auto simp: availableCash_def result_simps)

lemma availableInventory_iff [result_simps]:
  "availableInventory s = Inr a \<longleftrightarrow>
     isInteger (quantity s) \<and> isInteger (reservedQuantity s) \<and>
     reservationOk (num (quantity s)) (num (reservedQuantity s)) \<and>
     a = num (quantity s) - num (reservedQuantity s)"
  by (auto simp: availableInventory_def result_simps)

lemma reserveCash_iff:
  "reserveCashForBuyOrder s q p = Inr s' \<longleftrightarrow>
     isInteger q \<and> 0 < num q \<and> 0 < p \<and>
     reservationOk (cashCents s) (reservedCashCents s) \<and>
     num q * p \<le> cashCents s - reservedCashCents s \<and>
     s' = s\<lparr>reservedCashCents := reservedCashCents s + num q * p\<rparr>"
  by (auto simp: reserveCashForBuyOrder_def result_simps Let_def reservationOk_def split: if_splits)

lemma reserveInventory_iff:
  "reserveInventoryForSellOrder s q = Inr s' \<longleftrightarrow>
     isInteger q \<and> 0 < num q \<and>
     isInteger (quantity s) \<and> isInteger (reservedQuantity s) \<and>
     reservationOk (num (quantity s)) (num (reservedQuantity s)) \<and>
     num q \<le> num (quantity s) - num (reservedQuantity s) \<and>
     s' = s\<lparr>reservedQuantity := IntN (num (reservedQuantity s) + num q)\<rparr>"
  by (auto simp: reserveInventoryForSellOrder_def result_simps Let_def reservationOk_def
      split: if_splits)

subsection \<open>The interface of a reservable account\<close>

locale reservation =
  fixes held :: "'s \<Rightarrow> int" and reserved :: "'s \<Rightarrow> int"
    and reserve :: "'s \<Rightarrow> int \<Rightarrow> 's result"
  assumes reserve_iff_room:
      "(\<exists>s'. reserve s a = Inr s') \<Longrightarrow> a \<le> held s - reserved s \<and> 0 < a"
    and reserve_held: "reserve s a = Inr s' \<Longrightarrow> held s' = held s"
    and reserve_reserved: "reserve s a = Inr s' \<Longrightarrow> reserved s' = reserved s + a"
    and reserve_ok: "reserve s a = Inr s' \<Longrightarrow> reservationOk (held s) (reserved s)"
begin

text \<open>A reservation keeps the account within its bounds.\<close>

lemma reserve_preserves: "reserve s a = Inr s' \<Longrightarrow> reservationOk (held s') (reserved s')"
  using reserve_iff_room [of s a] reserve_held [of s a s'] reserve_reserved [of s a s']
    reserve_ok [of s a s']
  by (auto simp: reservationOk_def)

text \<open>A run of reservations never books more than the account held free at the start.\<close>

lemma reserve_sequence:
  assumes "forEach (\<lambda>a s. reserve s a) as s = Inr s'"
  shows "held s' = held s \<and> reserved s' = reserved s + sum_list as"
  using assms
proof (induction as arbitrary: s)
  case Nil
  then show ?case by simp
next
  case (Cons a as)
  then obtain t where t: "reserve s a = Inr t" "forEach (\<lambda>a s. reserve s a) as t = Inr s'"
    by (auto simp: result_simps)
  from Cons.IH [OF t(2)] reserve_held [OF t(1)] reserve_reserved [OF t(1)]
  show ?case by simp
qed

lemma no_double_booking:
  assumes "forEach (\<lambda>a s. reserve s a) as s = Inr s'" and "as \<noteq> []"
  shows "sum_list as \<le> held s - reserved s"
proof -
  obtain bs b where as: "as = bs @ [b]" using assms(2) by (metis rev_exhaust)
  with assms(1) obtain t where t: "forEach (\<lambda>a s. reserve s a) bs s = Inr t" "reserve t b = Inr s'"
    by (auto simp: forEach_append result_simps)
  from reserve_sequence [OF t(1)] reserve_iff_room [of t b] t(2)
  show ?thesis by (auto simp: as)
qed

end

text \<open>
  Cash: one unit at price \<open>a\<close> reserves \<open>a\<close> cents. Stock: the quantities are integers in
  every stored state, the counts of an inventory row.
\<close>

interpretation cash: reservation cashCents reservedCashCents
  "\<lambda>s a. reserveCashForBuyOrder s (IntN 1) a"
  by unfold_locales (auto simp: reserveCash_iff)

interpretation stock: reservation "\<lambda>s. num (quantity s)" "\<lambda>s. num (reservedQuantity s)"
  "\<lambda>s a. reserveInventoryForSellOrder s (IntN a)"
  by unfold_locales (auto simp: reserveInventory_iff)

subsection \<open>Properties\<close>

text \<open>
  A buy reservation succeeds exactly when the quantity is a positive integer, the price is
  positive, the account is within its bounds and the free cash covers quantity times price; it
  then adds exactly that amount to the reserved part and leaves the balance alone.
\<close>

theorem reserveCash_spec:
  "reserveCashForBuyOrder s q p = Inr s' \<longleftrightarrow>
     isInteger q \<and> 0 < num q \<and> 0 < p \<and> 0 \<le> reservedCashCents s \<and>
     reservedCashCents s + num q * p \<le> cashCents s \<and>
     s' = s\<lparr>reservedCashCents := reservedCashCents s + num q * p\<rparr>"
proof -
  have "reservedCashCents s \<le> cashCents s"
    if "0 < num q" "0 < p" "reservedCashCents s + num q * p \<le> cashCents s"
    using mult_pos_pos [OF that(1,2)] that(3) by linarith
  then show ?thesis by (auto simp: reserveCash_iff reservationOk_def)
qed

text \<open>
  No double booking of stock: when a run of sell reservations is accepted, what they book
  together fits in what was free before the first, and the row still satisfies
  0 <= reserved <= quantity.
\<close>

theorem stock_no_double_booking:
  assumes "forEach (\<lambda>a s. reserveInventoryForSellOrder s (IntN a)) (as @ [a]) s = Inr s'"
  shows "sum_list (as @ [a]) \<le> num (quantity s) - num (reservedQuantity s) \<and>
    reservationOk (num (quantity s')) (num (reservedQuantity s'))"
proof -
  from assms obtain t where "reserveInventoryForSellOrder t (IntN a) = Inr s'"
    by (auto simp: forEach_append result_simps)
  then have "reservationOk (num (quantity s')) (num (reservedQuantity s'))"
    by (rule stock.reserve_preserves)
  with stock.no_double_booking [OF assms] show ?thesis by simp
qed

theorem stock_no_double_booking_witness:
  "sum_list ([2] @ [3]) \<le> (7 - 1 :: int) \<and> reservationOk 7 6"
  using stock_no_double_booking
    [of "[2]" 3 "\<lparr>quantity = IntN 7, reservedQuantity = IntN 1\<rparr>"
        "\<lparr>quantity = IntN 7, reservedQuantity = IntN 6\<rparr>"]
  by (simp add: reserveInventoryForSellOrder_def availableInventory_def
      assertInventoryInvariant_def assertInteger_def)

end
