(* ===== verification/IconCatalog.thy ===== *)
theory IconCatalog
  imports Prelude
begin

section \<open>The icon item catalogue\<close>

text \<open>
  \<open>packages/shared/src/icon-pack-catalog.ts\<close>: thirty packs of icon items, the code of each item
  (pack prefix and two-digit index), the parser of such codes, the tier and the price of an item,
  and the catalogue built from the packs with its lookup by code. A JavaScript \<open>Map\<close> built from a
  constant table is the association list of the table, read with \<open>map_of\<close>.

  \<open>resolvePriceForPackIndex\<close> rounds \<open>basePriceCents * 0.55 * (tier - 1)\<close>, a double. The model
  rounds the exact product half up; for the base prices of the table and tiers 1 to 4 the two
  agree (the double product is within one unit in the last place of the exact one and every
  exact product is a multiple of one half).
\<close>

record iconPackDefinition =
  packSeries :: int
  packCount :: int
  codePrefix :: string
  namePrefix :: string
  packBasePriceCents :: int

definition iconPack :: "int \<Rightarrow> int \<Rightarrow> string \<Rightarrow> string \<Rightarrow> int \<Rightarrow> iconPackDefinition" where
  "iconPack s c cp np b = \<lparr>packSeries = s, packCount = c, codePrefix = cp, namePrefix = np,
     packBasePriceCents = b\<rparr>"

record iconCatalogItem =
  iconKey :: string
  iconCode :: string
  iconFileName :: string
  iconName :: string
  iconSeries :: int
  iconIndex :: int
  iconTier :: int
  isFinalTier :: bool
  iconBasePriceCents :: int

definition ICON_PACK_DEFINITIONS :: "iconPackDefinition list" where
  "ICON_PACK_DEFINITIONS =
  [iconPack 1 40 ''CP_BALLISTIC_PAYLOAD'' ''Ballistic Payload'' 950,
   iconPack 2 40 ''CP_MEDICAL_COMPOUND'' ''Medical Compound'' 700,
   iconPack 3 40 ''CP_STREET_MEAL'' ''Street Meal'' 420,
   iconPack 4 40 ''CP_UTILITY_GADGET'' ''Utility Gadget'' 1400,
   iconPack 5 40 ''CP_SNACK_CARTRIDGE'' ''Snack Cartridge'' 380,
   iconPack 6 40 ''CP_RESOURCE_CANISTER'' ''Resource Canister'' 520,
   iconPack 8 40 ''CP_POCKET_DEVICE'' ''Pocket Device'' 860,
   iconPack 9 40 ''CP_NEURAL_IMPLANT'' ''Neural Implant'' 2600,
   iconPack 10 40 ''CP_PROTECTIVE_SUIT'' ''Protective Suit'' 1800,
   iconPack 11 40 ''CP_GENOME_ASSET'' ''Genome Asset'' 2300,
   iconPack 12 40 ''CP_DRONE_MODULE'' ''Drone Module'' 2100,
   iconPack 13 40 ''CP_MACHINE_COMPONENT'' ''Machine Component'' 1300,
   iconPack 14 40 ''CP_RESOURCE_BLOCK'' ''Resource Block'' 560,
   iconPack 15 40 ''CP_FIREARM_ASSEMBLY'' ''Firearm Assembly'' 2200,
   iconPack 17 40 ''CP_CYBER_GARMENT'' ''Cyber Garment'' 780,
   iconPack 18 40 ''CP_FIELD_TOOL'' ''Field Tool'' 900,
   iconPack 19 40 ''CP_AUGMENT_JEWELRY'' ''Augment Jewelry'' 1650,
   iconPack 20 40 ''CP_HOUSEHOLD_UTILITY'' ''Household Utility'' 640,
   iconPack 21 40 ''CP_NUTRIENT_MEAL'' ''Nutrient Meal'' 500,
   iconPack 22 20 ''CP_ARTIFACT_RELIC'' ''Artifact Relic'' 2100,
   iconPack 23 40 ''CP_FASHION_GARMENT'' ''Fashion Garment'' 820,
   iconPack 29 40 ''CP_WEAPON_PLATFORM'' ''Weapon Platform'' 2050,
   iconPack 30 40 ''CP_STREET_APPAREL'' ''Street Apparel'' 760,
   iconPack 31 40 ''CP_MINING_PAYLOAD'' ''Mining Payload'' 980,
   iconPack 32 40 ''CP_IMPLANT_CHASSIS'' ''Implant Chassis'' 2450,
   iconPack 33 20 ''CP_ARTIFACT_CORE'' ''Artifact Core'' 2300,
   iconPack 34 40 ''CP_BIO_VEGETATION'' ''Bio Vegetation'' 470,
   iconPack 35 40 ''CP_AGRI_PRODUCE'' ''Agri Produce'' 450,
   iconPack 37 40 ''CP_LUXURY_JEWEL'' ''Luxury Jewel'' 1750,
   iconPack 38 40 ''CP_URBAN_CLOTHING'' ''Urban Clothing'' 790]"

definition PACK_BY_SERIES :: "int \<Rightarrow> iconPackDefinition option" where
  "PACK_BY_SERIES = map_of (map (\<lambda>p. (packSeries p, p)) ICON_PACK_DEFINITIONS)"

definition PACK_BY_CODE_PREFIX :: "string \<Rightarrow> iconPackDefinition option" where
  "PACK_BY_CODE_PREFIX = map_of (map (\<lambda>p. (codePrefix p, p)) ICON_PACK_DEFINITIONS)"

definition ICON_NAME_LEXICON_BY_SERIES :: "int \<Rightarrow> (string list \<times> string list) option" where
  "ICON_NAME_LEXICON_BY_SERIES = map_of
  [(1,
    ([''Armor-Piercing'', ''High-Impact'', ''Tracer'', ''Hollow-Point'', ''Tungsten'',
     ''Incendiary'', ''Shock'', ''Dense''],
     [''Round'', ''Slug'', ''Shell'', ''Canister'', ''Magazine'', ''Warhead'', ''Dart'',
      ''Charge''])),
   (2,
    ([''Sterile'', ''Rapid'', ''Stabilizing'', ''Regen'', ''Neuro'', ''Cardio'', ''Immune'',
     ''Trauma''],
     [''Serum'', ''Medgel'', ''Injector'', ''Patch'', ''Ampoule'', ''Stim'', ''Nanodose'',
      ''Antidote''])),
   (3,
    ([''Grilled'', ''Spiced'', ''Smoked'', ''Crispy'', ''Braised'', ''Savory'', ''Tangy'',
     ''Herbed''],
     [''Wrap'', ''Skewer'', ''Bun'', ''Noodle Cup'', ''Rice Bowl'', ''Stew'', ''Taco'',
      ''Sandwich''])),
   (4,
    ([''Compact'', ''Foldable'', ''Tactical'', ''Rugged'', ''Portable'', ''Precision'', ''Auto'',
     ''Adaptive''],
     [''Multitool'', ''Scanner'', ''Driver'', ''Torch'', ''Beacon'', ''Grappler'', ''Welder'',
      ''Analyzer''])),
   (5,
    ([''Salted'', ''Sweet'', ''Spicy'', ''Savory'', ''Roasted'', ''Smoked'', ''Honeyed'',
     ''Crunchy''],
     [''Bites'', ''Cluster'', ''Wafer'', ''Bar'', ''Cracker'', ''Stick'', ''Ration'', ''Nugget''])),
   (6,
    ([''Refined'', ''Pressurized'', ''Dense'', ''Stable'', ''Reactive'', ''Filtered'', ''Cryo'',
     ''Catalyzed''],
     [''Canister'', ''Cell'', ''Capsule'', ''Reservoir'', ''Phial'', ''Tank'', ''Vial'',
      ''Cylinder''])),
   (8,
    ([''Pocket'', ''Mini'', ''Secure'', ''Signal'', ''Pulse'', ''Smart'', ''Encrypted'',
     ''Urban''],
     [''Console'', ''Pad'', ''Link'', ''Beacon'', ''Tracker'', ''Transceiver'', ''Projector'',
      ''Reader''])),
   (9,
    ([''Synaptic'', ''Ocular'', ''Auditory'', ''Motor'', ''Reflex'', ''Memory'', ''Cortical'',
     ''Tactile''],
     [''Implant'', ''Node'', ''Coil'', ''Bridge'', ''Array'', ''Interface'', ''Lattice'',
      ''Socket''])),
   (10,
    ([''Reinforced'', ''Insulated'', ''Hazmat'', ''Shockproof'', ''Combat'', ''Stealth'',
     ''Thermal'', ''Weathered''],
     [''Suit'', ''Vest'', ''Mask'', ''Gloves'', ''Boots'', ''Cloak'', ''Helmet'', ''Harness''])),
   (11,
    ([''Engineered'', ''Edited'', ''Adaptive'', ''Resilient'', ''Hybrid'', ''Pristine'',
     ''Recombinant'', ''Cultured''],
     [''Genome'', ''Sample'', ''Sequence'', ''Culture'', ''Splice'', ''Template'', ''Matrix'',
      ''Archive''])),
   (12,
    ([''Recon'', ''Survey'', ''Guard'', ''Repair'', ''Courier'', ''Scout'', ''Response'',
     ''Utility''],
     [''Drone'', ''Rotor'', ''Frame'', ''Core'', ''Module'', ''Pod'', ''Unit'', ''Rig''])),
   (13,
    ([''Machined'', ''Forged'', ''Cast'', ''CNC'', ''Tempered'', ''Precision'', ''Balanced'',
     ''Industrial''],
     [''Bracket'', ''Actuator'', ''Bearing'', ''Coupler'', ''Gearbox'', ''Joint'', ''Spindle'',
      ''Assembly''])),
   (14,
    ([''Raw'', ''Processed'', ''Compressed'', ''Polished'', ''Alloyed'', ''Sintered'',
     ''Purified'', ''Milled''],
     [''Ingot'', ''Brick'', ''Plate'', ''Billet'', ''Slab'', ''Prism'', ''Core'', ''Block''])),
   (15,
    ([''Compact'', ''Suppressed'', ''Longshot'', ''Burst'', ''Heavy'', ''Precision'',
     ''Tactical'', ''Modular''],
     [''Rifle'', ''Carbine'', ''Pistol'', ''SMG'', ''Shotgun'', ''Launcher'', ''Chassis'',
      ''Receiver''])),
   (17,
    ([''Urban'', ''Reinforced'', ''Neon'', ''Reactive'', ''Adaptive'', ''Thermal'', ''Stealth'',
     ''Patterned''],
     [''Jacket'', ''Coat'', ''Hoodie'', ''Pants'', ''Vest'', ''Poncho'', ''Suit'', ''Shell''])),
   (18,
    ([''Maintenance'', ''Field'', ''Precision'', ''Heavy'', ''Portable'', ''Emergency'',
     ''Workshop'', ''Repair''],
     [''Wrench'', ''Driver'', ''Cutter'', ''Spanner'', ''Clamp'', ''Crimper'', ''Prybar'',
      ''Toolkit''])),
   (19,
    ([''Chromed'', ''Neon'', ''Etched'', ''Augmented'', ''Luminous'', ''Reactive'', ''Polished'',
     ''Forged''],
     [''Ring'', ''Pendant'', ''Bracelet'', ''Brooch'', ''Charm'', ''Band'', ''Earring'',
      ''Amulet''])),
   (20,
    ([''Smart'', ''Compact'', ''Efficient'', ''Modular'', ''Auto'', ''Programmable'',
     ''Portable'', ''Household''],
     [''Kettle'', ''Vacuum'', ''Cooker'', ''Cleaner'', ''Filter'', ''Lamp'', ''Purifier'',
      ''Charger''])),
   (21,
    ([''Protein'', ''Fiber'', ''Balanced'', ''Fortified'', ''Hearty'', ''Lean'', ''Savory'',
     ''Fresh''],
     [''Meal'', ''Bowl'', ''Tray'', ''Pack'', ''Ration'', ''Stew'', ''Plate'', ''Portion''])),
   (22,
    ([''Ancient'', ''Forgotten'', ''Runed'', ''Primal'', ''Arcane'', ''Mythic'', ''Echoing'',
     ''Lost''],
     [''Relic'', ''Totem'', ''Idol'', ''Tablet'', ''Sigil'', ''Shard'', ''Effigy'', ''Artifact''])),
   (23,
    ([''Tailored'', ''Patterned'', ''Minimal'', ''Retro'', ''Street'', ''Bold'', ''Layered'',
     ''Designer''],
     [''Shirt'', ''Top'', ''Skirt'', ''Dress'', ''Jacket'', ''Pants'', ''Blazer'', ''Outfit''])),
   (29,
    ([''Siege'', ''Tactical'', ''Heavy'', ''Modular'', ''Precision'', ''Rail'', ''Pulse'',
     ''Assault''],
     [''Platform'', ''Turret'', ''Chassis'', ''Battery'', ''Mount'', ''Launcher'', ''Array'',
      ''Frame''])),
   (30,
    ([''Street'', ''Casual'', ''Layered'', ''Urban'', ''Sport'', ''Techwear'', ''Relaxed'',
     ''Classic''],
     [''Hoodie'', ''Jacket'', ''Pants'', ''Cap'', ''Sneakers'', ''Shirt'', ''Vest'', ''Set''])),
   (31,
    ([''Deep-Core'', ''Prospector'', ''Heavy'', ''Reinforced'', ''Auto'', ''Hydraulic'',
     ''Rockbreaker'', ''Industrial''],
     [''Drill'', ''Charge'', ''Rig'', ''Extractor'', ''Bit'', ''Harvester'', ''Payload'',
      ''Borehead''])),
   (32,
    ([''Servo'', ''Neural'', ''Bio'', ''Reflex'', ''Stability'', ''Titan'', ''Phantom'',
     ''Synapse''],
     [''Chassis'', ''Frame'', ''Socket'', ''Housing'', ''Core'', ''Cradle'', ''Assembly'',
      ''Backbone''])),
   (33,
    ([''Ancient'', ''Luminous'', ''Runed'', ''Prismatic'', ''Harmonic'', ''Celestial'',
     ''Quantum'', ''Eternal''],
     [''Core'', ''Nexus'', ''Heart'', ''Seed'', ''Matrix'', ''Kernel'', ''Catalyst'', ''Anchor''])),
   (34,
    ([''Bioluminescent'', ''Spined'', ''Rooted'', ''Blooming'', ''Spiral'', ''Velvet'',
     ''Verdant'', ''Mossy''],
     [''Fern'', ''Vine'', ''Moss'', ''Pod'', ''Bloom'', ''Spore'', ''Sprout'', ''Frond''])),
   (37,
    ([''Royal'', ''Imperial'', ''Radiant'', ''Gilded'', ''Prismatic'', ''Regal'', ''Brilliant'',
     ''Ornate''],
     [''Gem'', ''Necklace'', ''Ring'', ''Crown'', ''Bracelet'', ''Pendant'', ''Brooch'',
      ''Tiara''])),
   (38,
    ([''Metro'', ''Slim'', ''Tailored'', ''Lightweight'', ''Classic'', ''Contoured'', ''Modern'',
     ''Refined''],
     [''Blazer'', ''Coat'', ''Trousers'', ''Shirt'', ''Dress'', ''Jacket'', ''Uniform'',
      ''Outfit'']))]"

definition ICON_NAME_OVERRIDES_BY_SERIES :: "int \<Rightarrow> string list option" where
  "ICON_NAME_OVERRIDES_BY_SERIES = map_of
   [(35, [''Potato'', ''Tomato'', ''Carrot'', ''Onion'', ''Cabbage'', ''Lettuce'', ''Spinach'',
         ''Broccoli'', ''Cauliflower'', ''Cucumber'', ''Eggplant'', ''Bell Pepper'',
         ''Chili Pepper'', ''Pumpkin'', ''Zucchini'', ''Corn'', ''Peas'', ''Green Beans'',
         ''Beetroot'', ''Radish'', ''Turnip'', ''Sweet Potato'', ''Yam'', ''Garlic'',
         ''Ginger'', ''Mushroom'', ''Celery'', ''Leek'', ''Kale'', ''Bok Choy'', ''Avocado'',
         ''Okra'', ''Artichoke'', ''Asparagus'', ''Brussels Sprouts'', ''Parsnip'', ''Shallot'',
         ''Scallion'', ''Fennel'', ''Chard''])]"

definition FALLBACK_NAME_WORDS :: "string list" where
  "FALLBACK_NAME_WORDS =
  [''Alpha'', ''Bravo'', ''Charlie'', ''Delta'', ''Echo'', ''Foxtrot'', ''Gamma'', ''Helix'',
   ''Ion'', ''Jade'', ''Kilo'', ''Lambda'', ''Metro'', ''Nova'', ''Onyx'', ''Pulse'',
   ''Quartz'', ''Rogue'', ''Sigma'', ''Titan'']"

subsection \<open>Names and codes\<close>

definition pad2 :: "int \<Rightarrow> string" where
  "pad2 v = (let s = showInt v in replicate (2 - length s) (CHR ''0'') @ s)"

text \<open>\<open>names[i]\<close>: out of range is \<open>undefined\<close>.\<close>

definition nthOpt :: "'a list \<Rightarrow> int \<Rightarrow> 'a option" where
  "nthOpt xs i = (if 0 \<le> i \<and> i < int (length xs) then Some (xs ! nat i) else None)"

definition resolveIconItemName :: "iconPackDefinition \<Rightarrow> int \<Rightarrow> string" where
  "resolveIconItemName pack index =
     (let overrideName =
        Option.bind (ICON_NAME_OVERRIDES_BY_SERIES (packSeries pack)) (\<lambda>ns. nthOpt ns (index - 1))
      in case overrideName of
        Some n \<Rightarrow> n
      | None \<Rightarrow>
        (case ICON_NAME_LEXICON_BY_SERIES (packSeries pack) of
          Some (adjectives, nouns) \<Rightarrow>
            if adjectives \<noteq> [] \<and> nouns \<noteq> []
            then adjectives ! nat ((index - 1) mod int (length adjectives)) @ '' '' @
                 nouns ! nat (((index - 1) div int (length adjectives)) mod int (length nouns))
            else namePrefix pack @ '' '' @
                 FALLBACK_NAME_WORDS ! nat ((index - 1) mod int (length FALLBACK_NAME_WORDS))
        | None \<Rightarrow> namePrefix pack @ '' '' @
            FALLBACK_NAME_WORDS ! nat ((index - 1) mod int (length FALLBACK_NAME_WORDS))))"

definition resolveIconItemCode :: "int \<Rightarrow> int \<Rightarrow> string" where
  "resolveIconItemCode series index =
     (case PACK_BY_SERIES series of
       None \<Rightarrow> ''CP_SERIES_'' @ pad2 series @ ''_'' @ pad2 index
     | Some pack \<Rightarrow> codePrefix pack @ ''_'' @ pad2 index)"

definition resolveIconItemKey :: "int \<Rightarrow> int \<Rightarrow> string" where
  "resolveIconItemKey series index = ''icon_'' @ pad2 series @ ''_'' @ pad2 index"

definition isDigitChar :: "char \<Rightarrow> bool" where
  "isDigitChar c = (let n = (of_char c :: nat) in 48 \<le> n \<and> n \<le> 57)"

definition isCodeChar :: "char \<Rightarrow> bool" where
  "isCodeChar c = (let n = (of_char c :: nat) in (65 \<le> n \<and> n \<le> 90) \<or> isDigitChar c \<or> n = 95)"

definition digitVal :: "char \<Rightarrow> int" where
  "digitVal c = int (of_char c) - 48"

text \<open>The regular expression \<open>^([A-Z0-9_]+)_(\d{2})$\<close>, read from the end of the code.\<close>

definition matchIconCode :: "string \<Rightarrow> (string \<times> int) option" where
  "matchIconCode code =
     (case rev code of
       d2 # d1 # u # pfxRev \<Rightarrow>
         if isDigitChar d1 \<and> isDigitChar d2 \<and> u = CHR ''_'' \<and> pfxRev \<noteq> [] \<and>
            list_all isCodeChar pfxRev
         then Some (rev pfxRev, 10 * digitVal d1 + digitVal d2) else None
     | _ \<Rightarrow> None)"

definition parseIconItemCode :: "string \<Rightarrow> (int \<times> int) option" where
  "parseIconItemCode code =
     (case matchIconCode code of
       None \<Rightarrow> None
     | Some (pfx, index) \<Rightarrow>
       (case PACK_BY_CODE_PREFIX pfx of
         None \<Rightarrow> None
       | Some pack \<Rightarrow> Some (packSeries pack, index)))"

subsection \<open>Tiers, prices and the catalogue\<close>

definition resolveTier :: "int \<Rightarrow> int \<Rightarrow> int" where
  "resolveTier index iconCount =
     (let tierSize = (iconCount + 3) div 4;
          tier = (index - 1) div tierSize + 1
      in min 4 (max 1 tier))"

definition resolvePriceForPackIndex :: "iconPackDefinition \<Rightarrow> int \<Rightarrow> int" where
  "resolvePriceForPackIndex pack index =
     (let tier = resolveTier index (packCount pack);
          tierMarkup = (2 * packBasePriceCents pack * 55 * (tier - 1) + 100) div 200;
          variantMarkup = index * 7
      in packBasePriceCents pack + tierMarkup + variantMarkup)"

definition resolveIconItemFallbackPriceCents :: "string \<Rightarrow> int option" where
  "resolveIconItemFallbackPriceCents code =
     (case parseIconItemCode code of
       None \<Rightarrow> None
     | Some (series, index) \<Rightarrow>
       (case PACK_BY_SERIES series of
         None \<Rightarrow> None
       | Some pack \<Rightarrow>
         if index < 1 \<or> index > packCount pack then None
         else Some (resolvePriceForPackIndex pack index)))"

definition resolveIconItemAssetFileName :: "int \<Rightarrow> int \<Rightarrow> string" where
  "resolveIconItemAssetFileName series index =
     ''icon_'' @ pad2 series @ ''_'' @ pad2 index @ ''.png''"

definition resolveIconItemAssetSrcByCode :: "string \<Rightarrow> string option" where
  "resolveIconItemAssetSrcByCode code =
     (case parseIconItemCode code of
       None \<Rightarrow> None
     | Some (series, index) \<Rightarrow>
       (case PACK_BY_SERIES series of
         None \<Rightarrow> None
       | Some pack \<Rightarrow>
         if index < 1 \<or> index > packCount pack then None
         else Some (''/assets/items/'' @ resolveIconItemAssetFileName series index)))"

definition iconItem :: "iconPackDefinition \<Rightarrow> int \<Rightarrow> iconCatalogItem" where
  "iconItem pack index =
     (let tier = resolveTier index (packCount pack) in
      \<lparr>iconKey = resolveIconItemKey (packSeries pack) index,
       iconCode = resolveIconItemCode (packSeries pack) index,
       iconFileName = resolveIconItemAssetFileName (packSeries pack) index,
       iconName = resolveIconItemName pack index,
       iconSeries = packSeries pack,
       iconIndex = index,
       iconTier = tier,
       isFinalTier = (tier = 4),
       iconBasePriceCents = resolvePriceForPackIndex pack index\<rparr>)"

definition ICON_CATALOG_ITEMS :: "iconCatalogItem list" where
  "ICON_CATALOG_ITEMS =
     concat (map (\<lambda>pack. map (iconItem pack) [1..packCount pack]) ICON_PACK_DEFINITIONS)"

definition getIconCatalogItemByCode :: "string \<Rightarrow> iconCatalogItem option" where
  "getIconCatalogItemByCode = map_of (map (\<lambda>item. (iconCode item, item)) ICON_CATALOG_ITEMS)"

subsection \<open>Facts about the table of packs\<close>

lemma pack_tables_distinct:
  "distinct (map packSeries ICON_PACK_DEFINITIONS)"
  "distinct (map codePrefix ICON_PACK_DEFINITIONS)"
  by (code_simp, code_simp)

lemma pack_facts_all:
  "list_all (\<lambda>p. codePrefix p \<noteq> [] \<and> list_all isCodeChar (codePrefix p) \<and>
     (packCount p = 20 \<or> packCount p = 40) \<and> 380 \<le> packBasePriceCents p) ICON_PACK_DEFINITIONS"
  by code_simp

lemma pack_facts:
  assumes "p \<in> set ICON_PACK_DEFINITIONS"
  shows "codePrefix p \<noteq> []" "list_all isCodeChar (codePrefix p)"
    "packCount p = 20 \<or> packCount p = 40" "380 \<le> packBasePriceCents p"
  using pack_facts_all assms by (auto simp: list_all_iff)

lemma map_of_self:
  assumes "distinct (map key xs)"
  shows "map_of (map (\<lambda>x. (key x, x)) xs) k = Some x \<longleftrightarrow> x \<in> set xs \<and> key x = k"
proof -
  have "distinct (map fst (map (\<lambda>x. (key x, x)) xs))" using assms by (simp add: comp_def)
  then show ?thesis by (auto simp: map_of_eq_Some_iff)
qed

lemma PACK_BY_SERIES_iff:
  "PACK_BY_SERIES s = Some p \<longleftrightarrow> p \<in> set ICON_PACK_DEFINITIONS \<and> packSeries p = s"
  unfolding PACK_BY_SERIES_def by (rule map_of_self [OF pack_tables_distinct(1)])

lemma PACK_BY_CODE_PREFIX_iff:
  "PACK_BY_CODE_PREFIX c = Some p \<longleftrightarrow> p \<in> set ICON_PACK_DEFINITIONS \<and> codePrefix p = c"
  unfolding PACK_BY_CODE_PREFIX_def by (rule map_of_self [OF pack_tables_distinct(2)])

lemma pack_unique:
  assumes "p \<in> set ICON_PACK_DEFINITIONS" "q \<in> set ICON_PACK_DEFINITIONS"
    and "packSeries p = packSeries q"
  shows "p = q"
  using PACK_BY_SERIES_iff [of "packSeries p" p] PACK_BY_SERIES_iff [of "packSeries p" q] assms
  by simp

subsection \<open>Printing and parsing item codes\<close>

lemma of_char_digitChar: "d < 10 \<Longrightarrow> of_char (digitChar d) = 48 + d"
  by (simp add: digitChar_def)

lemma digitChar_facts:
  assumes "d < 10"
  shows "isDigitChar (digitChar d)" "digitVal (digitChar d) = int d"
  using of_char_digitChar [OF assms] assms by (simp_all add: isDigitChar_def digitVal_def)

lemma digitChar_0: "digitChar 0 = CHR ''0''"
  by code_simp

lemma pad2_two_digits:
  assumes "0 \<le> i" "i < 100"
  shows "pad2 i = [digitChar (nat i div 10), digitChar (nat i mod 10)]"
proof (cases "nat i < 10")
  case True
  then have "nat i div 10 = 0" by simp
  with True assms show ?thesis
    by (simp add: pad2_def showInt_def showNat.simps [of "nat i"] digitChar_0 Let_def)
next
  case False
  then have "nat i div 10 < 10" using assms by linarith
  with False assms show ?thesis
    by (simp add: pad2_def showInt_def showNat.simps [of "nat i"] showNat.simps [of "nat i div 10"]
        Let_def)
qed

lemma digit_pair: "isDigitChar c \<Longrightarrow> \<exists>d<10. c = digitChar d"
proof -
  assume "isDigitChar c"
  then have "48 \<le> (of_char c :: nat)" "of_char c \<le> (57 :: nat)"
    by (simp_all add: isDigitChar_def Let_def)
  then have "c = digitChar (of_char c - 48)" "of_char c - 48 < (10 :: nat)"
    by (simp_all add: digitChar_def)
  then show ?thesis by blast
qed

lemma matchIconCode_iff:
  "matchIconCode code = Some (pfx, i) \<longleftrightarrow>
     pfx \<noteq> [] \<and> list_all isCodeChar pfx \<and> 0 \<le> i \<and> i < 100 \<and> code = pfx @ ''_'' @ pad2 i"
    (is "?L \<longleftrightarrow> ?R")
proof
  assume ?L
  then obtain d2 d1 pr where rev: "rev code = d2 # d1 # CHR ''_'' # pr"
    and d: "isDigitChar d1" "isDigitChar d2" and pr: "pr \<noteq> []" "list_all isCodeChar pr"
    and out: "pfx = rev pr" "i = 10 * digitVal d1 + digitVal d2"
    by (auto simp: matchIconCode_def split: list.splits if_splits)
  obtain a b where ab: "a < 10" "b < 10" "d1 = digitChar a" "d2 = digitChar b"
    using digit_pair d by blast
  have i: "i = int (10 * a + b)" using out(2) ab by (simp add: digitChar_facts)
  have "nat i = 10 * a + b" using i by linarith
  then have "pad2 i = [d1, d2]" using ab i by (subst pad2_two_digits) auto
  moreover have "code = rev (d2 # d1 # CHR ''_'' # pr)" using rev by (metis rev_rev_ident)
  ultimately show ?R using pr out(1) i ab by (auto simp: list_all_iff)
next
  assume R: ?R
  let ?a = "nat i div 10" and ?b = "nat i mod 10"
  have ab: "?a < 10" "?b < 10" using R by auto
  have "nat i = 10 * ?a + ?b" by simp
  then have "i = 10 * int ?a + int ?b" using R by linarith
  with R ab show ?L
    by (simp add: matchIconCode_def pad2_two_digits digitChar_facts list_all_iff)
qed

lemma parse_resolve:
  assumes "p \<in> set ICON_PACK_DEFINITIONS" "0 \<le> i" "i < 100"
  shows "parseIconItemCode (resolveIconItemCode (packSeries p) i) = Some (packSeries p, i)"
proof -
  have "PACK_BY_SERIES (packSeries p) = Some p" using assms(1) by (simp add: PACK_BY_SERIES_iff)
  then have code: "resolveIconItemCode (packSeries p) i = codePrefix p @ ''_'' @ pad2 i"
    by (simp add: resolveIconItemCode_def)
  have "matchIconCode (codePrefix p @ ''_'' @ pad2 i) = Some (codePrefix p, i)"
    by (subst matchIconCode_iff) (use pack_facts [OF assms(1)] assms(2,3) in simp)
  moreover have "PACK_BY_CODE_PREFIX (codePrefix p) = Some p"
    using assms(1) by (simp add: PACK_BY_CODE_PREFIX_iff)
  ultimately show ?thesis by (simp add: parseIconItemCode_def code)
qed

lemma parse_Some:
  assumes "parseIconItemCode code = Some (s, i)"
  obtains p where "p \<in> set ICON_PACK_DEFINITIONS" "packSeries p = s" "0 \<le> i" "i < 100"
    "code = resolveIconItemCode s i"
proof -
  from assms obtain pre p where m: "matchIconCode code = Some (pre, i)"
    and p: "PACK_BY_CODE_PREFIX pre = Some p" "s = packSeries p"
    by (auto simp: parseIconItemCode_def split: option.splits)
  from p have p': "p \<in> set ICON_PACK_DEFINITIONS" "codePrefix p = pre"
    by (simp_all add: PACK_BY_CODE_PREFIX_iff)
  then have "PACK_BY_SERIES (packSeries p) = Some p" by (simp add: PACK_BY_SERIES_iff)
  with m p p' that show thesis
    by (auto simp: matchIconCode_iff resolveIconItemCode_def)
qed

subsection \<open>The catalogue's lookup\<close>

lemma catalog_items:
  "x \<in> set ICON_CATALOG_ITEMS \<longleftrightarrow>
     (\<exists>p i. p \<in> set ICON_PACK_DEFINITIONS \<and> 1 \<le> i \<and> i \<le> packCount p \<and> x = iconItem p i)"
proof
  assume "x \<in> set ICON_CATALOG_ITEMS"
  then show "\<exists>p i. p \<in> set ICON_PACK_DEFINITIONS \<and> 1 \<le> i \<and> i \<le> packCount p \<and> x = iconItem p i"
    unfolding ICON_CATALOG_ITEMS_def by auto blast
next
  assume "\<exists>p i. p \<in> set ICON_PACK_DEFINITIONS \<and> 1 \<le> i \<and> i \<le> packCount p \<and> x = iconItem p i"
  then obtain p i where p: "p \<in> set ICON_PACK_DEFINITIONS" and "1 \<le> i" "i \<le> packCount p"
    "x = iconItem p i" by blast
  then have "x \<in> set (map (iconItem p) [1..packCount p])" by simp
  moreover have "map (iconItem p) [1..packCount p] \<in>
      set (map (\<lambda>pack. map (iconItem pack) [1..packCount pack]) ICON_PACK_DEFINITIONS)"
    unfolding set_map by (rule imageI [OF p])
  ultimately show "x \<in> set ICON_CATALOG_ITEMS"
    unfolding ICON_CATALOG_ITEMS_def set_concat by (rule UN_I [rotated])
qed

lemma catalog_code_inj:
  assumes "p \<in> set ICON_PACK_DEFINITIONS" "1 \<le> i" "i \<le> packCount p"
    and "q \<in> set ICON_PACK_DEFINITIONS" "1 \<le> j" "j \<le> packCount q"
    and "iconCode (iconItem p i) = iconCode (iconItem q j)"
  shows "p = q \<and> i = j"
proof -
  have "i < 100" "j < 100" using assms pack_facts(3) by fastforce+
  then have "parseIconItemCode (iconCode (iconItem p i)) = Some (packSeries p, i)"
    "parseIconItemCode (iconCode (iconItem q j)) = Some (packSeries q, j)"
    using assms(1-6) by (simp_all add: iconItem_def Let_def parse_resolve)
  with assms(7) have "packSeries p = packSeries q" "i = j" by (metis option.inject prod.inject)+
  with pack_unique [OF assms(1,4)] show ?thesis by simp
qed

lemma inj_on_iconCode: "inj_on iconCode (set ICON_CATALOG_ITEMS)"
proof (rule inj_onI)
  fix x y
  assume "x \<in> set ICON_CATALOG_ITEMS" "y \<in> set ICON_CATALOG_ITEMS" and code: "iconCode x = iconCode y"
  then obtain p i q j where *: "p \<in> set ICON_PACK_DEFINITIONS" "1 \<le> i" "i \<le> packCount p"
    "x = iconItem p i" "q \<in> set ICON_PACK_DEFINITIONS" "1 \<le> j" "j \<le> packCount q"
    "y = iconItem q j"
    unfolding catalog_items by blast
  from catalog_code_inj [OF *(1-3,5-7)] code *(4,8) show "x = y" by simp
qed

lemma map_of_inj_key:
  assumes "inj_on key (set xs)"
  shows "map_of (map (\<lambda>x. (key x, x)) xs) k = Some x \<longleftrightarrow> x \<in> set xs \<and> key x = k"
  using assms
proof (induction xs)
  case (Cons y ys)
  then show ?case by (auto simp: inj_on_def split: if_splits)
qed simp

lemma getIconCatalogItemByCode_iff:
  "getIconCatalogItemByCode code = Some x \<longleftrightarrow> x \<in> set ICON_CATALOG_ITEMS \<and> iconCode x = code"
  unfolding getIconCatalogItemByCode_def by (rule map_of_inj_key [OF inj_on_iconCode])

lemma catalog_lookup:
  "getIconCatalogItemByCode code =
     (case parseIconItemCode code of
       None \<Rightarrow> None
     | Some (s, i) \<Rightarrow>
       (case PACK_BY_SERIES s of
         None \<Rightarrow> None
       | Some p \<Rightarrow> if i < 1 \<or> i > packCount p then None else Some (iconItem p i)))"
    (is "_ = ?R")
proof (cases "getIconCatalogItemByCode code")
  case (Some x)
  then obtain p i where x: "x = iconItem p i" "p \<in> set ICON_PACK_DEFINITIONS" "1 \<le> i"
    "i \<le> packCount p" "iconCode x = code"
    by (auto simp: getIconCatalogItemByCode_iff catalog_items)
  then have "i < 100" using pack_facts(3) by fastforce
  then have "parseIconItemCode code = Some (packSeries p, i)"
    using parse_resolve x by (force simp: iconItem_def Let_def)
  moreover have "PACK_BY_SERIES (packSeries p) = Some p" using x by (simp add: PACK_BY_SERIES_iff)
  ultimately show ?thesis using Some x by simp
next
  case None
  have "?R = None"
  proof (rule ccontr)
    assume "?R \<noteq> None"
    then obtain s i p where p: "parseIconItemCode code = Some (s, i)" "PACK_BY_SERIES s = Some p"
      "1 \<le> i" "i \<le> packCount p"
      by (auto split: option.splits if_splits)
    then have "code = resolveIconItemCode s i" by (auto elim: parse_Some)
    with p have "iconCode (iconItem p i) = code"
      by (auto simp: iconItem_def Let_def PACK_BY_SERIES_iff)
    then have "getIconCatalogItemByCode code = Some (iconItem p i)"
      using p by (auto simp: getIconCatalogItemByCode_iff catalog_items PACK_BY_SERIES_iff)
    with None show False by simp
  qed
  with None show ?thesis by simp
qed

subsection \<open>Properties\<close>

text \<open>
  Printing and parsing item codes are inverse on the catalogue: the code printed for a pack
  of the table and a two-digit index parses back to that series and index, and any code that
  parses is the printed code of what it parses to.
\<close>

theorem icon_code_roundtrip:
  assumes "p \<in> set ICON_PACK_DEFINITIONS" "0 \<le> i" "i < 100"
  shows "parseIconItemCode (resolveIconItemCode (packSeries p) i) = Some (packSeries p, i) \<and>
    (parseIconItemCode code = Some (packSeries p, i) \<longleftrightarrow>
       code = resolveIconItemCode (packSeries p) i)"
  using parse_resolve [OF assms] by (auto elim: parse_Some)

theorem icon_code_roundtrip_witness:
  "parseIconItemCode ''CP_STREET_MEAL_07'' = Some (3, 7)"
proof -
  let ?p = "iconPack 3 40 ''CP_STREET_MEAL'' ''Street Meal'' 420"
  have "?p \<in> set ICON_PACK_DEFINITIONS" by (simp add: ICON_PACK_DEFINITIONS_def)
  moreover have "resolveIconItemCode 3 7 = ''CP_STREET_MEAL_07''" by code_simp
  ultimately show ?thesis
    using icon_code_roundtrip [of ?p 7 "''''"] by (simp add: iconPack_def)
qed

text \<open>
  The fallback price computed from a code alone is the price of the catalogue item with that
  code, for every code, and is undefined exactly when the catalogue has no such item.
\<close>

theorem fallback_price_agrees_with_catalog:
  "resolveIconItemFallbackPriceCents code =
     map_option iconBasePriceCents (getIconCatalogItemByCode code)"
  by (auto simp: catalog_lookup resolveIconItemFallbackPriceCents_def iconItem_def Let_def
      split: option.splits)

end
