(* ===== verification/Specialization.thy ===== *)
theory Specialization
  imports IconCatalog
begin

section \<open>Company specializations\<close>

text \<open>
  \<open>packages/shared/src/company-specialization.ts\<close>: the specializations a company can choose, the
  item categories each unlocks, the category of an item code (a table for the named items, the
  pack series for catalogue items), and the lock test the services apply. Codes that are enum
  values in the source are datatypes; the text columns of the definitions (labels, descriptions,
  sample codes) are kept where the code returns them.
\<close>

datatype companySpecialization = UNASSIGNED | INDUSTRIAL | BIOTECH | CONSUMER | DEFENSE

datatype itemCategory =
  FOUNDATIONAL | INDUSTRIAL_GOODS | BIOTECH_SYSTEMS | CONSUMER_GOODS | DEFENSE_SYSTEMS

definition COMPANY_SPECIALIZATION_CODES :: "(string \<times> companySpecialization) list" where
  "COMPANY_SPECIALIZATION_CODES =
     [(''UNASSIGNED'', UNASSIGNED), (''INDUSTRIAL'', INDUSTRIAL), (''BIOTECH'', BIOTECH),
      (''CONSUMER'', CONSUMER), (''DEFENSE'', DEFENSE)]"

subsection \<open>The change cooldown\<close>

definition DEFAULT_COMPANY_SPECIALIZATION_CHANGE_COOLDOWN_HOURS :: int where
  "DEFAULT_COMPANY_SPECIALIZATION_CHANGE_COOLDOWN_HOURS = 4"

text \<open>\<open>Number.parseInt(s, 10)\<close> of a trimmed text; \<open>None\<close> is NaN.\<close>

definition digitsValue :: "string \<Rightarrow> int" where
  "digitsValue ds = foldl (\<lambda>n c. 10 * n + digitVal c) 0 ds"

definition parseDigits :: "string \<Rightarrow> int option" where
  "parseDigits s = (let ds = takeWhile isDigitChar s in if ds = [] then None else Some (digitsValue ds))"

definition parseInt :: "string \<Rightarrow> int option" where
  "parseInt s =
     (case s of
       c # cs \<Rightarrow> if c = CHR ''-'' then map_option uminus (parseDigits cs)
                else if c = CHR ''+'' then parseDigits cs else parseDigits s
     | [] \<Rightarrow> None)"

definition resolveCompanySpecializationCooldownHours :: "string option \<Rightarrow> int" where
  "resolveCompanySpecializationCooldownHours raw =
     (case raw of
       None \<Rightarrow> DEFAULT_COMPANY_SPECIALIZATION_CHANGE_COOLDOWN_HOURS
     | Some text \<Rightarrow>
       if text = [] then DEFAULT_COMPANY_SPECIALIZATION_CHANGE_COOLDOWN_HOURS
       else
         (case parseInt (trim text) of
           None \<Rightarrow> DEFAULT_COMPANY_SPECIALIZATION_CHANGE_COOLDOWN_HOURS
         | Some parsed \<Rightarrow>
           if parsed < 1 then DEFAULT_COMPANY_SPECIALIZATION_CHANGE_COOLDOWN_HOURS else parsed))"

subsection \<open>Definition tables\<close>

record itemCategoryDefinition =
  catCode :: itemCategory
  catLabel :: string
  catDescription :: string

definition ITEM_CATEGORY_DEFINITIONS :: "itemCategoryDefinition list" where
  "ITEM_CATEGORY_DEFINITIONS =
     [\<lparr>catCode = FOUNDATIONAL, catLabel = ''Foundational Materials'',
       catDescription = ''Core supplies every company can use.''\<rparr>,
      \<lparr>catCode = INDUSTRIAL_GOODS, catLabel = ''Industrial Goods'',
       catDescription = ''Heavy components and factory equipment.''\<rparr>,
      \<lparr>catCode = BIOTECH_SYSTEMS, catLabel = ''Biotech Systems'',
       catDescription = ''Advanced implants and biotech assemblies.''\<rparr>,
      \<lparr>catCode = CONSUMER_GOODS, catLabel = ''Consumer Goods'',
       catDescription = ''Everyday products for households and retail.''\<rparr>,
      \<lparr>catCode = DEFENSE_SYSTEMS, catLabel = ''Defense Systems'',
       catDescription = ''Military and security-focused products.''\<rparr>]"

record specializationDefinition =
  specCode :: companySpecialization
  specLabel :: string
  specDescription :: string
  unlockedCategories :: "itemCategory list"
  sampleItemCodes :: "string list"

definition COMPANY_SPECIALIZATION_DEFINITIONS :: "specializationDefinition list" where
  "COMPANY_SPECIALIZATION_DEFINITIONS =
     [\<lparr>specCode = UNASSIGNED, specLabel = ''No Focus'',
       specDescription =
         ''No specialty selected yet. You can only handle foundational materials.'',
       unlockedCategories = [FOUNDATIONAL],
       sampleItemCodes = [''IRON_ORE'', ''COAL'', ''COPPER_ORE'', ''IRON_INGOT'']\<rparr>,
      \<lparr>specCode = INDUSTRIAL, specLabel = ''Industrial Manufacturing'',
       specDescription =
         ''Focus on factory hardware, mechanical parts, and production equipment.'',
       unlockedCategories = [FOUNDATIONAL, INDUSTRIAL_GOODS],
       sampleItemCodes =
         [''STEEL_INGOT'', ''MACHINE_PARTS'', ''POWER_UNIT'', ''CONVEYOR_MODULE'']\<rparr>,
      \<lparr>specCode = BIOTECH, specLabel = ''Biotech and Implants'',
       specDescription =
         ''Focus on biotech modules, neural components, and cybernetic products.'',
       unlockedCategories = [FOUNDATIONAL, BIOTECH_SYSTEMS],
       sampleItemCodes =
         [''BIOCELL_CANISTER'', ''NEURAL_INTERFACE'', ''OCULAR_IMPLANT'', ''CYBER_ARMATURE'']\<rparr>,
      \<lparr>specCode = CONSUMER, specLabel = ''Consumer Products'',
       specDescription = ''Focus on food, apparel, and everyday household products.'',
       unlockedCategories = [FOUNDATIONAL, CONSUMER_GOODS],
       sampleItemCodes =
         [''CP_STREET_MEAL_01'', ''CP_FASHION_GARMENT_01'', ''CP_HOUSEHOLD_UTILITY_01'']\<rparr>,
      \<lparr>specCode = DEFENSE, specLabel = ''Defense and Security'',
       specDescription = ''Focus on weapon systems, tactical gear, and security payloads.'',
       unlockedCategories = [FOUNDATIONAL, DEFENSE_SYSTEMS],
       sampleItemCodes =
         [''CP_BALLISTIC_PAYLOAD_01'', ''CP_FIREARM_ASSEMBLY_01'', ''CP_WEAPON_PLATFORM_01'']\<rparr>]"

definition ITEM_CATEGORY_BY_CODE :: "string \<Rightarrow> itemCategory option" where
  "ITEM_CATEGORY_BY_CODE = map_of
     [(''IRON_ORE'', FOUNDATIONAL), (''COAL'', FOUNDATIONAL), (''COPPER_ORE'', FOUNDATIONAL),
      (''IRON_INGOT'', FOUNDATIONAL), (''COPPER_INGOT'', FOUNDATIONAL),
      (''HAND_TOOLS'', FOUNDATIONAL), (''STEEL_INGOT'', INDUSTRIAL_GOODS),
      (''STEEL_BEAM'', INDUSTRIAL_GOODS), (''FASTENERS'', INDUSTRIAL_GOODS),
      (''MACHINE_PARTS'', INDUSTRIAL_GOODS), (''TOOL_KIT'', INDUSTRIAL_GOODS),
      (''POWER_UNIT'', INDUSTRIAL_GOODS), (''CONVEYOR_MODULE'', INDUSTRIAL_GOODS),
      (''INDUSTRIAL_PRESS'', INDUSTRIAL_GOODS), (''SYNTHETIC_CONDUIT'', BIOTECH_SYSTEMS),
      (''BIOCELL_CANISTER'', BIOTECH_SYSTEMS), (''SERVO_DRIVE'', BIOTECH_SYSTEMS),
      (''OPTIC_MODULE'', BIOTECH_SYSTEMS), (''NEURAL_INTERFACE'', BIOTECH_SYSTEMS),
      (''OCULAR_IMPLANT'', BIOTECH_SYSTEMS), (''CYBER_ARMATURE'', BIOTECH_SYSTEMS),
      (''SPINAL_LINK'', BIOTECH_SYSTEMS), (''CYBERNETIC_SUITE'', BIOTECH_SYSTEMS)]"

definition ICON_SERIES_CATEGORY :: "int \<Rightarrow> itemCategory option" where
  "ICON_SERIES_CATEGORY = map_of
     [(1, DEFENSE_SYSTEMS), (2, BIOTECH_SYSTEMS), (3, CONSUMER_GOODS), (4, INDUSTRIAL_GOODS),
      (5, CONSUMER_GOODS), (6, INDUSTRIAL_GOODS), (8, INDUSTRIAL_GOODS), (9, BIOTECH_SYSTEMS),
      (10, DEFENSE_SYSTEMS), (11, BIOTECH_SYSTEMS), (12, INDUSTRIAL_GOODS),
      (13, INDUSTRIAL_GOODS), (14, INDUSTRIAL_GOODS), (15, DEFENSE_SYSTEMS),
      (17, CONSUMER_GOODS), (18, INDUSTRIAL_GOODS), (19, CONSUMER_GOODS), (20, CONSUMER_GOODS),
      (21, CONSUMER_GOODS), (22, DEFENSE_SYSTEMS), (23, CONSUMER_GOODS), (29, DEFENSE_SYSTEMS),
      (30, CONSUMER_GOODS), (31, INDUSTRIAL_GOODS), (32, BIOTECH_SYSTEMS),
      (33, BIOTECH_SYSTEMS), (34, CONSUMER_GOODS), (35, CONSUMER_GOODS), (37, CONSUMER_GOODS),
      (38, CONSUMER_GOODS)]"

subsection \<open>Lookups and the lock test\<close>

definition normalizeCompanySpecialization :: "string option \<Rightarrow> companySpecialization" where
  "normalizeCompanySpecialization value =
     (case value of
       None \<Rightarrow> UNASSIGNED
     | Some text \<Rightarrow>
       (case map_of COMPANY_SPECIALIZATION_CODES text of None \<Rightarrow> UNASSIGNED | Some s \<Rightarrow> s))"

definition getCompanySpecializationDefinition ::
    "companySpecialization \<Rightarrow> specializationDefinition" where
  "getCompanySpecializationDefinition code =
     (case rowFind specCode code COMPANY_SPECIALIZATION_DEFINITIONS of
       None \<Rightarrow> hd COMPANY_SPECIALIZATION_DEFINITIONS | Some d \<Rightarrow> d)"

definition getItemCategoryDefinition :: "itemCategory \<Rightarrow> itemCategoryDefinition" where
  "getItemCategoryDefinition code =
     (case rowFind catCode code ITEM_CATEGORY_DEFINITIONS of
       None \<Rightarrow> hd ITEM_CATEGORY_DEFINITIONS | Some d \<Rightarrow> d)"

definition resolveItemCategoryByCode :: "string \<Rightarrow> itemCategory option" where
  "resolveItemCategoryByCode itemCode =
     (case ITEM_CATEGORY_BY_CODE itemCode of
       Some staticCategory \<Rightarrow> Some staticCategory
     | None \<Rightarrow>
       (case parseIconItemCode itemCode of
         None \<Rightarrow> None
       | Some (series, _) \<Rightarrow> ICON_SERIES_CATEGORY series))"

definition isItemCategoryUnlockedForSpecialization ::
    "itemCategory \<Rightarrow> companySpecialization \<Rightarrow> bool" where
  "isItemCategoryUnlockedForSpecialization category specialization =
     (if category = FOUNDATIONAL then True
      else category \<in> set (unlockedCategories (getCompanySpecializationDefinition specialization)))"

definition isItemCodeLockedBySpecialization :: "string \<Rightarrow> companySpecialization \<Rightarrow> bool" where
  "isItemCodeLockedBySpecialization itemCode specialization =
     (case resolveItemCategoryByCode itemCode of
       None \<Rightarrow> False
     | Some category \<Rightarrow> \<not> isItemCategoryUnlockedForSpecialization category specialization)"

subsection \<open>Properties\<close>

definition specializationOf :: "itemCategory \<Rightarrow> companySpecialization" where
  "specializationOf c =
     (case c of FOUNDATIONAL \<Rightarrow> UNASSIGNED | INDUSTRIAL_GOODS \<Rightarrow> INDUSTRIAL
      | BIOTECH_SYSTEMS \<Rightarrow> BIOTECH | CONSUMER_GOODS \<Rightarrow> CONSUMER | DEFENSE_SYSTEMS \<Rightarrow> DEFENSE)"

lemma unlocked_iff:
  "isItemCategoryUnlockedForSpecialization c s \<longleftrightarrow> c = FOUNDATIONAL \<or> s = specializationOf c"
  by (cases c; cases s)
    (simp_all add: isItemCategoryUnlockedForSpecialization_def specializationOf_def
      getCompanySpecializationDefinition_def COMPANY_SPECIALIZATION_DEFINITIONS_def)

text \<open>
  A category other than the foundational one is unlocked by exactly one specialization, and
  an item code is locked for a company exactly when its category is one of these and belongs to
  another specialization; in particular a company without a specialization can handle every
  foundational and every uncategorised item and nothing else.
\<close>

theorem specialization_lock_exact:
  "isItemCodeLockedBySpecialization code s \<longleftrightarrow>
     (\<exists>c. resolveItemCategoryByCode code = Some c \<and> c \<noteq> FOUNDATIONAL \<and>
        (\<exists>!t. isItemCategoryUnlockedForSpecialization c t) \<and>
        \<not> isItemCategoryUnlockedForSpecialization c s)"
  by (auto simp: isItemCodeLockedBySpecialization_def unlocked_iff split: option.splits)

end
