(* ===== verification/TierLocker.thy ===== *)
theory TierLocker
  imports Specialization
begin

section \<open>Item tiers unlocked by research\<close>

text \<open>
  \<open>packages/sim/src/services/item-tier-locker.ts\<close>: the catalogue's items have tiers 1 to 4; the
  research codes a player's companies completed unlock the higher ones, and a recipe is locked
  when one of its items is.
\<close>

definition MIN_ICON_TIER :: int where "MIN_ICON_TIER = 1"
definition MAX_ICON_TIER :: int where "MAX_ICON_TIER = 4"

definition ICON_TIER_UNLOCK_MILESTONES :: "(string \<times> int) list" where
  "ICON_TIER_UNLOCK_MILESTONES =
     [(''POWER_SYSTEMS'', 2), (''AUTOMATION_LINES'', 3), (''HEAVY_INDUSTRY'', 4)]"

text \<open>What the two tests read of a recipe: its output item's code and its inputs' codes.\<close>

record recipeForItemTierLock =
  outputItemCode :: string
  inputItemCodes :: "string list"

definition clampIconTier :: "jsnum \<Rightarrow> int" where
  "clampIconTier tier =
     (if \<not> isInteger tier then MIN_ICON_TIER else min MAX_ICON_TIER (max MIN_ICON_TIER (num tier)))"

definition resolvePlayerUnlockedIconTierFromResearchCodes :: "string list \<Rightarrow> int" where
  "resolvePlayerUnlockedIconTierFromResearchCodes completed =
     clampIconTier (IntN
       (fold (\<lambda>(researchCode, tier) unlockedTier.
           if researchCode \<in> set completed then max unlockedTier tier else unlockedTier)
         ICON_TIER_UNLOCK_MILESTONES MIN_ICON_TIER))"

definition isItemCodeLockedByIconTier :: "string \<Rightarrow> int \<Rightarrow> bool" where
  "isItemCodeLockedByIconTier itemCode unlockedIconTier =
     (case getIconCatalogItemByCode itemCode of
       None \<Rightarrow> False
     | Some catalogItem \<Rightarrow> iconTier catalogItem > clampIconTier (IntN unlockedIconTier))"

definition isRecipeLockedByIconTier :: "recipeForItemTierLock \<Rightarrow> int \<Rightarrow> bool" where
  "isRecipeLockedByIconTier recipe unlockedIconTier =
     (if isItemCodeLockedByIconTier (outputItemCode recipe) unlockedIconTier then True
      else list_ex (\<lambda>code. isItemCodeLockedByIconTier code unlockedIconTier)
             (inputItemCodes recipe))"

definition isRecipeLockedBySpecialization ::
    "recipeForItemTierLock \<Rightarrow> companySpecialization \<Rightarrow> bool" where
  "isRecipeLockedBySpecialization recipe specialization =
     isItemCodeLockedBySpecialization (outputItemCode recipe) specialization"

subsection \<open>Properties\<close>

lemma unlocked_tier:
  "resolvePlayerUnlockedIconTierFromResearchCodes cs =
     (if ''HEAVY_INDUSTRY'' \<in> set cs then 4 else if ''AUTOMATION_LINES'' \<in> set cs then 3
      else if ''POWER_SYSTEMS'' \<in> set cs then 2 else 1)"
  by (simp add: resolvePlayerUnlockedIconTierFromResearchCodes_def ICON_TIER_UNLOCK_MILESTONES_def
      clampIconTier_def MIN_ICON_TIER_def MAX_ICON_TIER_def)

lemma catalog_tier:
  assumes "getIconCatalogItemByCode code = Some x"
  shows "1 \<le> iconTier x \<and> iconTier x \<le> 4"
proof -
  from assms obtain p i where "x = iconItem p i"
    by (auto simp: getIconCatalogItemByCode_iff catalog_items)
  then show ?thesis by (simp add: iconItem_def Let_def resolveTier_def)
qed

lemma item_lock_mono:
  "t \<le> u \<Longrightarrow> isItemCodeLockedByIconTier code u \<Longrightarrow> isItemCodeLockedByIconTier code t"
  by (auto simp: isItemCodeLockedByIconTier_def clampIconTier_def MIN_ICON_TIER_def
      MAX_ICON_TIER_def split: option.splits)

text \<open>
  Research only ever unlocks: when a recipe is locked for a player who completed the
  research \<open>ds\<close>, it is locked for a player who completed part of it; and a player who completed
  HEAVY_INDUSTRY has every recipe unlocked.
\<close>

theorem research_unlocks_monotonically:
  assumes "set cs \<subseteq> set ds"
    and "isRecipeLockedByIconTier r (resolvePlayerUnlockedIconTierFromResearchCodes ds)"
  shows "isRecipeLockedByIconTier r (resolvePlayerUnlockedIconTierFromResearchCodes cs) \<and>
    ''HEAVY_INDUSTRY'' \<notin> set ds"
proof
  have "resolvePlayerUnlockedIconTierFromResearchCodes cs
      \<le> resolvePlayerUnlockedIconTierFromResearchCodes ds"
    using assms(1) by (auto simp: unlocked_tier)
  with assms(2) show
    "isRecipeLockedByIconTier r (resolvePlayerUnlockedIconTierFromResearchCodes cs)"
    by (auto simp: isRecipeLockedByIconTier_def list_ex_iff split: if_splits
        intro: item_lock_mono)
  have "\<not> isItemCodeLockedByIconTier code 4" for code
    using catalog_tier
    by (fastforce simp: isItemCodeLockedByIconTier_def clampIconTier_def MIN_ICON_TIER_def
        MAX_ICON_TIER_def split: option.splits)
  with assms(2) show "''HEAVY_INDUSTRY'' \<notin> set ds"
    by (auto simp: isRecipeLockedByIconTier_def unlocked_tier list_ex_iff split: if_splits)
qed

lemma street_meal_40_locked:
  "isItemCodeLockedByIconTier ''CP_STREET_MEAL_40'' 2"
proof -
  have "getIconCatalogItemByCode ''CP_STREET_MEAL_40'' \<noteq> None \<and>
      (case getIconCatalogItemByCode ''CP_STREET_MEAL_40'' of None \<Rightarrow> False
       | Some x \<Rightarrow> iconTier x = 4)"
    unfolding catalog_lookup by code_simp
  then show ?thesis
    by (auto simp: isItemCodeLockedByIconTier_def clampIconTier_def MIN_ICON_TIER_def
        MAX_ICON_TIER_def split: option.splits)
qed

theorem research_unlocks_monotonically_witness:
  "isRecipeLockedByIconTier \<lparr>outputItemCode = ''IRON_INGOT'', inputItemCodes = [''CP_STREET_MEAL_40'']\<rparr>
     (resolvePlayerUnlockedIconTierFromResearchCodes []) \<and>
   ''HEAVY_INDUSTRY'' \<notin> set [''POWER_SYSTEMS'']"
  by (rule research_unlocks_monotonically)
    (simp_all add: unlocked_tier isRecipeLockedByIconTier_def street_meal_40_locked)

end
