(* ===== verification/Schema.thy ===== *)
theory Schema
  imports Specialization
begin

section \<open>The database schema\<close>

text \<open>
  The tables of \<open>packages/db/prisma/schema.prisma\<close> the simulation reads and writes: each enum a
  datatype (constructors carry the enum's name where two enums share a value), each model a
  record with its columns. Integer and bigint columns are \<open>int\<close>, DateTime columns are \<open>int\<close>,
  optional columns are options. The column \<open>updatedAt\<close>, which the database client maintains
  and no logic reads, and the tables of the authentication library are left out.
\<close>

datatype orderSide =
    BUY | SELL

datatype orderStatus =
    OrderOPEN | OrderFILLED | OrderCANCELLED

datatype productionJobStatus =
    JobQUEUED | JobIN_PROGRESS | JobCOMPLETED | JobCANCELLED

datatype companyResearchStatus =
    NodeLOCKED | NodeAVAILABLE | NodeRESEARCHING | NodeCOMPLETED

datatype researchJobStatus =
    ResearchRUNNING | ResearchCOMPLETED | ResearchCANCELLED

datatype contractStatus =
    ContractOPEN | ContractACCEPTED | ContractPARTIALLY_FULFILLED | ContractFULFILLED
    | ContractEXPIRED | ContractCANCELLED

datatype shipmentStatus =
    ShipmentIN_TRANSIT | ShipmentDELIVERED | ShipmentCANCELLED

datatype ledgerEntryType =
    ORDER_RESERVE | TRADE_SETTLEMENT | CONTRACT_SETTLEMENT | SHIPMENT_FEE | RESEARCH_PAYMENT
    | PRODUCTION_COMPLETION | PRODUCTION_COST | WORKFORCE_SALARY_EXPENSE
    | WORKFORCE_RECRUITMENT_EXPENSE | BUILDING_OPERATING_COST | BUILDING_ACQUISITION
    | MANUAL_ADJUSTMENT

datatype buildingType =
    WORKSHOP | MINE | FARM | FACTORY | MEGA_FACTORY | WAREHOUSE | HEADQUARTERS | RND_CENTER

datatype buildingStatus =
    BuildingACTIVE | BuildingINACTIVE | BuildingCONSTRUCTION

record company =
  co_id :: string
  co_code :: string
  co_name :: string
  co_isPlayer :: bool
  co_specialization :: companySpecialization
  co_specializationChangedAt :: "int option"
  co_ownerPlayerId :: "string option"
  co_regionId :: string
  co_cashCents :: int
  co_reservedCashCents :: int
  co_workforceCapacity :: int
  co_workforceAllocationOpsPct :: int
  co_workforceAllocationRngPct :: int
  co_workforceAllocationLogPct :: int
  co_workforceAllocationCorpPct :: int
  co_orgEfficiencyBps :: int
  co_createdAt :: int

record player =
  pl_id :: string
  pl_handle :: string
  pl_tutorialCompletedAt :: "int option"
  pl_createdAt :: int

record item =
  it_id :: string
  it_code :: string
  it_name :: string

record region =
  rg_id :: string
  rg_code :: string
  rg_name :: string

record inventory =
  inv_companyId :: string
  inv_itemId :: string
  inv_regionId :: string
  inv_quantity :: int
  inv_reservedQuantity :: int

record shipment =
  sh_id :: string
  sh_companyId :: string
  sh_fromRegionId :: string
  sh_toRegionId :: string
  sh_itemId :: string
  sh_quantity :: int
  sh_status :: shipmentStatus
  sh_tickCreated :: int
  sh_tickArrives :: int
  sh_tickClosed :: "int option"
  sh_createdAt :: int

record marketOrder =
  ord_id :: string
  ord_companyId :: string
  ord_itemId :: string
  ord_regionId :: string
  ord_side :: orderSide
  ord_status :: orderStatus
  ord_quantity :: int
  ord_remainingQuantity :: int
  ord_unitPriceCents :: int
  ord_reservedCashCents :: int
  ord_reservedQuantity :: int
  ord_tickPlaced :: int
  ord_tickClosed :: "int option"
  ord_createdAt :: int
  ord_closedAt :: "int option"

record trade =
  tr_id :: string
  tr_buyOrderId :: string
  tr_sellOrderId :: string
  tr_buyerCompanyId :: string
  tr_sellerCompanyId :: string
  tr_itemId :: string
  tr_regionId :: string
  tr_quantity :: int
  tr_unitPriceCents :: int
  tr_totalPriceCents :: int
  tr_tick :: int
  tr_createdAt :: int

record recipe =
  rc_id :: string
  rc_code :: string
  rc_name :: string
  rc_durationTicks :: int
  rc_outputItemId :: string
  rc_outputQuantity :: int

record recipeInput =
  ri_recipeId :: string
  ri_itemId :: string
  ri_quantity :: int

record productionJob =
  pj_id :: string
  pj_companyId :: string
  pj_recipeId :: string
  pj_buildingId :: "string option"
  pj_status :: productionJobStatus
  pj_runs :: int
  pj_startedTick :: int
  pj_dueTick :: int
  pj_completedTick :: "int option"
  pj_createdAt :: int

record building =
  bd_id :: string
  bd_companyId :: string
  bd_regionId :: string
  bd_buildingType :: buildingType
  bd_status :: buildingStatus
  bd_name :: "string option"
  bd_acquisitionCostCents :: int
  bd_weeklyOperatingCostCents :: int
  bd_capacitySlots :: int
  bd_tickAcquired :: int
  bd_tickConstructionCompletes :: "int option"
  bd_lastOperatingCostTick :: "int option"
  bd_createdAt :: int

record companyRecipe =
  cr_companyId :: string
  cr_recipeId :: string
  cr_isUnlocked :: bool

record researchNode =
  rn_id :: string
  rn_code :: string
  rn_name :: string
  rn_description :: string
  rn_costCashCents :: int
  rn_durationTicks :: int

record nodeUnlockRecipe =
  nu_nodeId :: string
  nu_recipeId :: string

record researchPrerequisite =
  rp_nodeId :: string
  rp_prerequisiteNodeId :: string

record companyResearch =
  cx_id :: string
  cx_companyId :: string
  cx_nodeId :: string
  cx_status :: companyResearchStatus
  cx_tickStarted :: "int option"
  cx_tickCompletes :: "int option"

record researchJob =
  rj_id :: string
  rj_companyId :: string
  rj_nodeId :: string
  rj_status :: researchJobStatus
  rj_costCashCents :: int
  rj_tickStarted :: int
  rj_tickCompletes :: int
  rj_tickClosed :: "int option"
  rj_createdAt :: int

record contract =
  ct_id :: string
  ct_buyerCompanyId :: string
  ct_sellerCompanyId :: "string option"
  ct_itemId :: string
  ct_quantity :: int
  ct_remainingQuantity :: int
  ct_priceCents :: int
  ct_status :: contractStatus
  ct_tickCreated :: int
  ct_tickExpires :: int
  ct_tickAccepted :: "int option"
  ct_tickClosed :: "int option"
  ct_createdAt :: int

record contractFulfillment =
  cf_id :: string
  cf_contractId :: string
  cf_sellerCompanyId :: string
  cf_itemId :: string
  cf_quantity :: int
  cf_priceCents :: int
  cf_tick :: int
  cf_createdAt :: int

record ledgerEntry =
  le_id :: string
  le_companyId :: string
  le_tick :: int
  le_entryType :: ledgerEntryType
  le_deltaCashCents :: int
  le_deltaReservedCashCents :: int
  le_balanceAfterCents :: int
  le_referenceType :: string
  le_referenceId :: string
  le_createdAt :: int

record itemTickCandle =
  cd_itemId :: string
  cd_regionId :: string
  cd_tick :: int
  cd_openCents :: int
  cd_highCents :: int
  cd_lowCents :: int
  cd_closeCents :: int
  cd_volumeQty :: int
  cd_tradeCount :: int
  cd_vwapCents :: "int option"

record workforceCapacityDelta =
  wd_id :: string
  wd_companyId :: string
  wd_deltaCapacity :: int
  wd_tickArrives :: int
  wd_tickApplied :: "int option"
  wd_createdAt :: int

record simulationLease =
  sl_name :: string
  sl_ownerId :: string
  sl_expiresAt :: int

record simulationTickExecution =
  te_executionKey :: string
  te_tickBefore :: int
  te_tickAfter :: int

record worldTickState =
  ws_currentTick :: int
  ws_lockVersion :: int
  ws_lastAdvancedAt :: "int option"

record simulationControlState =
  sc_botsPaused :: bool
  sc_processingStopped :: bool
  sc_lastInvariantViolationTick :: "int option"
  sc_lastInvariantViolationAt :: "int option"

text \<open>
  The database: one list of rows per table (in insertion order), the two singleton rows (absent
  before initialisation), and the number of rows created so far, which selects the generated id
  and creation time of the next row.
\<close>

record db =
  companies :: "company list"
  players :: "player list"
  items :: "item list"
  regions :: "region list"
  inventories :: "inventory list"
  shipments :: "shipment list"
  marketOrders :: "marketOrder list"
  trades :: "trade list"
  recipes :: "recipe list"
  recipeInputs :: "recipeInput list"
  productionJobs :: "productionJob list"
  buildings :: "building list"
  companyRecipes :: "companyRecipe list"
  researchNodes :: "researchNode list"
  nodeUnlockRecipes :: "nodeUnlockRecipe list"
  researchPrerequisites :: "researchPrerequisite list"
  companyResearches :: "companyResearch list"
  researchJobs :: "researchJob list"
  contracts :: "contract list"
  contractFulfillments :: "contractFulfillment list"
  ledgerEntries :: "ledgerEntry list"
  itemTickCandles :: "itemTickCandle list"
  workforceCapacityDeltas :: "workforceCapacityDelta list"
  simulationLeases :: "simulationLease list"
  simulationTickExecutions :: "simulationTickExecution list"
  worldTickRow :: "worldTickState option"
  controlRow :: "simulationControlState option"
  db_seq :: nat

definition emptyDb :: db where
  "emptyDb = \<lparr>companies = [], players = [], items = [], regions = [], inventories =
     [], shipments = [], marketOrders = [], trades = [], recipes = [], recipeInputs = [],
     productionJobs = [], buildings = [], companyRecipes = [], researchNodes = [],
     nodeUnlockRecipes = [], researchPrerequisites = [], companyResearches = [], researchJobs =
     [], contracts = [], contractFulfillments = [], ledgerEntries = [], itemTickCandles = [],
     workforceCapacityDeltas = [], simulationLeases = [], simulationTickExecutions = [],
     worldTickRow = None,
     controlRow = None, db_seq = 0\<rparr>"

end
