(* ===== verification/Store.thy ===== *)
theory Store
  imports Schema Reservations
begin

section \<open>Queries and updates of the database\<close>

text \<open>
  The calls of the database client the services make, over the state \<open>db\<close>: \<open>findUnique\<close> is
  \<open>rowFind\<close> on a table, \<open>findMany\<close> a filter, \<open>update\<close>, \<open>updateMany\<close>, \<open>create\<close> and \<open>upsert\<close>
  the definitions below, \<open>$transaction\<close> the wrapper that keeps the old state when the body
  throws. The locale \<open>table\<close> states what a table promises and is interpreted on the tables whose
  contents the properties are about.
\<close>

text \<open>
  What the environment supplies: the id and the time given to the n-th row created, the order of
  text in the database's collation, and \<open>localeCompare\<close>.
\<close>

record env =
  env_cuid :: "nat \<Rightarrow> string"
  env_now :: "nat \<Rightarrow> int"
  env_textCompare :: "string \<Rightarrow> string \<Rightarrow> int"
  env_localeCompare :: "string \<Rightarrow> string \<Rightarrow> int"

definition newId :: "env \<Rightarrow> db \<Rightarrow> string" where
  "newId E d = env_cuid E (db_seq d)"

definition currentTime :: "env \<Rightarrow> db \<Rightarrow> int" where
  "currentTime E d = env_now E (db_seq d)"

subsection \<open>The operations of a table\<close>

definition uniqueViolation :: error where
  "uniqueViolation = PrismaKnownRequestError ''P2002'' NoTarget"

definition updateRow ::
    "('r \<Rightarrow> 'k) \<Rightarrow> (db \<Rightarrow> 'r list) \<Rightarrow> (('r list \<Rightarrow> 'r list) \<Rightarrow> db \<Rightarrow> db) \<Rightarrow> 'k \<Rightarrow> ('r \<Rightarrow> 'r) \<Rightarrow> db \<Rightarrow>
     ('r \<times> db) result" where
  "updateRow key tbl upd k f d =
     (case rowFind key k (tbl d) of
       None \<Rightarrow> Inl recordNotFound
     | Some r \<Rightarrow> Inr (f r, upd (rowSet key k f) d))"

definition createRow ::
    "('r \<Rightarrow> 'k) \<Rightarrow> (db \<Rightarrow> 'r list) \<Rightarrow> (('r list \<Rightarrow> 'r list) \<Rightarrow> db \<Rightarrow> db) \<Rightarrow> 'r \<Rightarrow> db \<Rightarrow>
     ('r \<times> db) result" where
  "createRow key tbl upd r d =
     (case rowFind key (key r) (tbl d) of
       Some _ \<Rightarrow> Inl uniqueViolation
     | None \<Rightarrow> Inr (r, (upd (\<lambda>rs. rs @ [r]) d)\<lparr>db_seq := Suc (db_seq d)\<rparr>))"

text \<open>\<open>upsert\<close>: update the row with the key, or create the row given.\<close>

definition upsertRow ::
    "('r \<Rightarrow> 'k) \<Rightarrow> (db \<Rightarrow> 'r list) \<Rightarrow> (('r list \<Rightarrow> 'r list) \<Rightarrow> db \<Rightarrow> db) \<Rightarrow> ('r \<Rightarrow> 'r) \<Rightarrow> 'r \<Rightarrow> db \<Rightarrow>
     ('r \<times> db) result" where
  "upsertRow key tbl upd f new d =
     (case rowFind key (key new) (tbl d) of
       Some _ \<Rightarrow> updateRow key tbl upd (key new) f d
     | None \<Rightarrow> createRow key tbl upd new d)"

text \<open>Referring to a row that does not exist (P2003).\<close>

definition foreignKeyViolation :: error where
  "foreignKeyViolation = PrismaKnownRequestError ''P2003'' NoTarget"

definition mapWhere :: "('r \<Rightarrow> bool) \<Rightarrow> ('r \<Rightarrow> 'r) \<Rightarrow> 'r list \<Rightarrow> 'r list" where
  "mapWhere P f rs = map (\<lambda>r. if P r then f r else r) rs"

definition countWhere :: "('r \<Rightarrow> bool) \<Rightarrow> 'r list \<Rightarrow> int" where
  "countWhere P rs = int (length (filter P rs))"

text \<open>\<open>updateMany\<close> guarded by a version column: any other count than 1 is a conflict.\<close>

definition updateExactlyOne ::
    "(db \<Rightarrow> 'r list) \<Rightarrow> (('r list \<Rightarrow> 'r list) \<Rightarrow> db \<Rightarrow> db) \<Rightarrow> ('r \<Rightarrow> bool) \<Rightarrow> ('r \<Rightarrow> 'r) \<Rightarrow> string \<Rightarrow>
     db \<Rightarrow> db result" where
  "updateExactlyOne tbl upd P f message d =
     (if countWhere P (tbl d) \<noteq> 1 then Inl (OptimisticLockConflictError message)
      else Inr (upd (mapWhere P f) d))"

text \<open>\<open>$transaction\<close>: the state after the body, or the state before it when the body throws.\<close>

definition transaction :: "(db \<Rightarrow> ('a \<times> db) result) \<Rightarrow> db \<Rightarrow> 'a result \<times> db" where
  "transaction body d =
     (case body d of Inl e \<Rightarrow> (Inl e, d) | Inr (x, d') \<Rightarrow> (Inr x, d'))"

lemma transaction_error: "fst (transaction body d) = Inl e \<Longrightarrow> snd (transaction body d) = d"
  by (auto simp: transaction_def split: sum.splits)

lemma transaction_invariant:
  assumes "\<And>x d'. body d = Inr (x, d') \<Longrightarrow> P d'" and "P d"
  shows "P (snd (transaction body d))"
  using assms by (auto simp: transaction_def split: sum.splits)

subsection \<open>Facts about rows\<close>

definition rowsOk :: "('r \<Rightarrow> 'k) \<Rightarrow> ('r \<Rightarrow> bool) \<Rightarrow> 'r list \<Rightarrow> bool" where
  "rowsOk key P rs \<longleftrightarrow> distinct (map key rs) \<and> (\<forall>r\<in>set rs. P r)"

lemma rowsOk_find: "rowsOk key P rs \<Longrightarrow> rowFind key k rs = Some r \<Longrightarrow> P r"
  by (auto simp: rowsOk_def dest: rowFind_in)

lemma rowsOk_distinct: "rowsOk key P rs \<Longrightarrow> distinct (map key rs)"
  by (simp add: rowsOk_def)

lemma rowsOk_rowSet:
  assumes "rowsOk key P rs" "rowFind key k rs = Some r" "P (f r)" "\<And>r. key (f r) = key r"
  shows "rowsOk key P (rowSet key k f rs)"
  using rowSet_all [of key rs k r P f] assms by (auto simp: rowsOk_def row_simps)

lemma rowsOk_append:
  "rowsOk key P rs \<Longrightarrow> P r \<Longrightarrow> rowFind key (key r) rs = None \<Longrightarrow> rowsOk key P (rs @ [r])"
  by (auto simp: rowsOk_def rowFind_None)

text \<open>A guarded update of one key is an update of that row, or a conflict.\<close>

lemma mapWhere_absent: "(\<And>r. r \<in> set rs \<Longrightarrow> \<not> P r) \<Longrightarrow> mapWhere P f rs = rs"
  by (induction rs) (auto simp: mapWhere_def)

lemma mapWhere_rowSet:
  assumes "distinct (map key rs)" and "\<And>r. P r \<Longrightarrow> key r = k" and "countWhere P rs = 1"
  obtains r where "rowFind key k rs = Some r" "P r" "mapWhere P f rs = rowSet key k f rs"
proof -
  have "filter P rs \<noteq> []" using assms(3) by (auto simp: countWhere_def)
  then obtain r where r: "r \<in> set rs" "P r" by (auto simp: filter_empty_conv)
  with assms(1,2) have find: "rowFind key k rs = Some r" using rowFind_unique by fastforce
  have "mapWhere P f rs = rowSet key k f rs"
    unfolding mapWhere_def rowSet_def
  proof (rule map_cong [OF refl])
    fix x assume x: "x \<in> set rs"
    show "(if P x then f x else x) = (if key x = k then f x else x)"
    proof (cases "key x = k")
      case True
      with x assms(1) have "rowFind key k rs = Some x" using rowFind_unique by fastforce
      with find r True show ?thesis by simp
    next
      case False
      then show ?thesis using assms(2) by auto
    qed
  qed
  with that find r show thesis by blast
qed

text \<open>A guard that is not by key but matches one row is still an update of that row.\<close>

lemma mapWhere_single:
  assumes "distinct (map key rs)" and "r \<in> set rs" and "P r" and "countWhere P rs = 1"
  shows "mapWhere P f rs = rowSet key (key r) f rs"
proof -
  from assms(4) obtain y where y: "filter P rs = [y]"
    by (cases "filter P rs") (auto simp: countWhere_def)
  have only: "x = r" if "x \<in> set rs" "P x" for x
  proof -
    have "x \<in> set (filter P rs)" "r \<in> set (filter P rs)" using that assms(2,3) by simp_all
    then show ?thesis unfolding y by simp
  qed
  show ?thesis
    unfolding mapWhere_def rowSet_def
  proof (rule map_cong [OF refl])
    fix x assume x: "x \<in> set rs"
    have "key x = key r \<Longrightarrow> x = r"
      using rowFind_unique [OF assms(1) x] rowFind_unique [OF assms(1,2)] by (metis option.inject)
    with only [OF x] assms(3) show "(if P x then f x else x) = (if key x = key r then f x else x)"
      by auto
  qed
qed

lemma countWhere_found:
  assumes "distinct (map key rs)" and "\<And>r. P r \<Longrightarrow> key r = k" and "rowFind key k rs = Some r"
  shows "countWhere P rs = (if P r then 1 else 0)"
  using assms(1,3)
proof (induction rs)
  case Nil
  then show ?case by simp
next
  case (Cons x rs)
  show ?case
  proof (cases "key x = k")
    case True
    with Cons.prems have "r = x" "k \<notin> key ` set rs" by auto
    moreover from this(2) have "filter P rs = []" using assms(2) by (force simp: filter_empty_conv)
    ultimately show ?thesis by (simp add: countWhere_def)
  next
    case False
    with Cons.prems assms(2) have "\<not> P x" "rowFind key k rs = Some r" by auto
    with Cons show ?thesis by (simp add: countWhere_def)
  qed
qed

subsection \<open>The interface of a table\<close>

locale dbTable =
  fixes key :: "'r \<Rightarrow> 'k" and tbl :: "db \<Rightarrow> 'r list"
    and upd :: "('r list \<Rightarrow> 'r list) \<Rightarrow> db \<Rightarrow> db"
  assumes tbl_upd: "tbl (upd g d) = g (tbl d)"
    and tbl_seq: "tbl (d\<lparr>db_seq := n\<rparr>) = tbl d"
    and upd_cong: "g (tbl d) = h (tbl d) \<Longrightarrow> upd g d = upd h d"
begin

lemma update_rows: "updateRow key tbl upd k f d = Inr (r', d') \<Longrightarrow>
    \<exists>r. rowFind key k (tbl d) = Some r \<and> r' = f r \<and> tbl d' = rowSet key k f (tbl d)"
  by (auto simp: updateRow_def tbl_upd split: option.splits)

lemma create_rows: "createRow key tbl upd r d = Inr (r', d') \<Longrightarrow>
    rowFind key (key r) (tbl d) = None \<and> r' = r \<and> tbl d' = tbl d @ [r]"
  by (auto simp: createRow_def tbl_upd tbl_seq split: option.splits)

text \<open>Both keep the keys unique and a property of the rows the new row has.\<close>

lemma update_ok:
  assumes "updateRow key tbl upd k f d = Inr (r', d')" and "rowsOk key P (tbl d)"
    and "\<And>r. key (f r) = key r" and "P r'"
  shows "rowsOk key P (tbl d')"
  using update_rows [OF assms(1)] rowsOk_rowSet [OF assms(2), of k _ f] assms(3,4) by auto

lemma create_ok:
  assumes "createRow key tbl upd r d = Inr (r', d')" and "rowsOk key P (tbl d)" and "P r"
  shows "rowsOk key P (tbl d')"
  using create_rows [OF assms(1)] assms(2,3) by (auto intro: rowsOk_append)

lemma exactlyOne_rows:
  assumes "updateExactlyOne tbl upd P f m d = Inr d'" and "rowsOk key Q (tbl d)"
    and "\<And>r. P r \<Longrightarrow> key r = k"
  shows "\<exists>r. rowFind key k (tbl d) = Some r \<and> P r \<and> tbl d' = rowSet key k f (tbl d)"
proof -
  from assms(1) have *: "countWhere P (tbl d) = 1" "d' = upd (mapWhere P f) d"
    by (auto simp: updateExactlyOne_def split: if_splits)
  obtain r where "rowFind key k (tbl d) = Some r" "P r"
    "mapWhere P f (tbl d) = rowSet key k f (tbl d)"
    using mapWhere_rowSet [OF rowsOk_distinct [OF assms(2)] assms(3) *(1)] by metis
  with *(2) show ?thesis by (simp add: tbl_upd)
qed

text \<open>A guarded update that went through is the update of the one row with the key.\<close>

lemma exactlyOne_update:
  assumes "updateExactlyOne tbl upd P f m d = Inr d'" and "distinct (map key (tbl d))"
    and "\<And>r. P r \<Longrightarrow> key r = k"
  obtains r where "rowFind key k (tbl d) = Some r" "P r" "updateRow key tbl upd k f d = Inr (f r, d')"
proof -
  from assms(1) have *: "countWhere P (tbl d) = 1" "d' = upd (mapWhere P f) d"
    by (auto simp: updateExactlyOne_def split: if_splits)
  obtain r where r: "rowFind key k (tbl d) = Some r" "P r"
    "mapWhere P f (tbl d) = rowSet key k f (tbl d)"
    using mapWhere_rowSet [OF assms(2,3) *(1)] by metis
  have "d' = upd (rowSet key k f) d" using *(2) upd_cong [of "mapWhere P f" d "rowSet key k f"] r(3) by simp
  then have "updateRow key tbl upd k f d = Inr (f r, d')" using r(1) by (simp add: updateRow_def)
  with r(1,2) show thesis by (rule that)
qed

lemma exactlyOne_ok:
  assumes "updateExactlyOne tbl upd P f m d = Inr d'" and "rowsOk key Q (tbl d)"
    and "\<And>r. P r \<Longrightarrow> key r = k" and "\<And>r. key (f r) = key r"
    and "\<And>r. rowFind key k (tbl d) = Some r \<Longrightarrow> P r \<Longrightarrow> Q (f r)"
  shows "rowsOk key Q (tbl d')"
  using exactlyOne_rows [OF assms(1,2,3)] rowsOk_rowSet [OF assms(2), of k _ f] assms(4,5)
  by auto

text \<open>An upsert always returns; afterwards the key holds the updated or the new row.\<close>

lemma upsert_returns: "\<exists>r d'. upsertRow key tbl upd f new d = Inr (r, d')"
  by (auto simp: upsertRow_def updateRow_def createRow_def split: option.splits)

lemma upsert_rows:
  assumes "upsertRow key tbl upd f new d = Inr (r', d')" and "\<And>r. key (f r) = key r"
  shows "r' = (case rowFind key (key new) (tbl d) of None \<Rightarrow> new | Some r \<Rightarrow> f r)"
    and "rowFind key k (tbl d') = (if k = key new then Some r' else rowFind key k (tbl d))"
    and "distinct (map key (tbl d)) \<Longrightarrow> distinct (map key (tbl d'))"
proof -
  have "r' = (case rowFind key (key new) (tbl d) of None \<Rightarrow> new | Some r \<Rightarrow> f r) \<and>
      rowFind key k (tbl d') = (if k = key new then Some r' else rowFind key k (tbl d)) \<and>
      (distinct (map key (tbl d)) \<longrightarrow> distinct (map key (tbl d')))"
  proof (cases "rowFind key (key new) (tbl d)")
    case None
    then have "createRow key tbl upd new d = Inr (r', d')" using assms(1) by (simp add: upsertRow_def)
    then have rows: "r' = new" "tbl d' = tbl d @ [new]" using create_rows by blast+
    have "distinct (map key (tbl d)) \<longrightarrow> distinct (map key (tbl d'))"
      using None by (simp add: rows rowFind_None)
    with None show ?thesis by (simp add: rows rowFind_append split: option.split)
  next
    case (Some r)
    then have "updateRow key tbl upd (key new) f d = Inr (r', d')"
      using assms(1) by (simp add: upsertRow_def)
    with update_rows [OF this] Some show ?thesis
      using assms(2) by (auto simp: rowFind_rowSet map_rowSet_same [of key f])
  qed
  then show "r' = (case rowFind key (key new) (tbl d) of None \<Rightarrow> new | Some r \<Rightarrow> f r)"
    "rowFind key k (tbl d') = (if k = key new then Some r' else rowFind key k (tbl d))"
    "distinct (map key (tbl d)) \<Longrightarrow> distinct (map key (tbl d'))" by blast+
qed

text \<open>A column's total changes by the difference at the updated row.\<close>

lemma update_sum:
  fixes g :: "'r \<Rightarrow> int"
  assumes "updateRow key tbl upd k f d = Inr (r', d')" and "rowsOk key P (tbl d)"
    and "rowFind key k (tbl d) = Some r"
  shows "(\<Sum>x\<leftarrow>tbl d'. g x) = (\<Sum>x\<leftarrow>tbl d. g x) + (g r' - g r)"
  using update_rows [OF assms(1)] assms(2,3) by (auto simp: sum_rowSet rowsOk_distinct)

lemma create_sum:
  fixes g :: "'r \<Rightarrow> int"
  assumes "createRow key tbl upd r d = Inr (r', d')"
  shows "(\<Sum>x\<leftarrow>tbl d'. g x) = (\<Sum>x\<leftarrow>tbl d. g x) + g r"
  using create_rows [OF assms] by simp

lemma exactlyOne_sum:
  fixes g :: "'r \<Rightarrow> int"
  assumes "updateExactlyOne tbl upd P f m d = Inr d'" and "rowsOk key Q (tbl d)"
    and "\<And>r. P r \<Longrightarrow> key r = k"
  shows "\<exists>r. rowFind key k (tbl d) = Some r \<and> P r \<and>
    (\<Sum>x\<leftarrow>tbl d'. g x) = (\<Sum>x\<leftarrow>tbl d. g x) + (g (f r) - g r)"
  using exactlyOne_rows [OF assms] assms(2) by (auto simp: sum_rowSet rowsOk_distinct)

end

text \<open>The key of an inventory row, and the tables of the model.\<close>

definition invKey :: "inventory \<Rightarrow> string \<times> string \<times> string" where
  "invKey r = (inv_companyId r, inv_itemId r, inv_regionId r)"

definition cxKey :: "companyResearch \<Rightarrow> string \<times> string" where
  "cxKey r = (cx_companyId r, cx_nodeId r)"

definition crKey :: "companyRecipe \<Rightarrow> string \<times> string" where
  "crKey r = (cr_companyId r, cr_recipeId r)"

interpretation company: dbTable co_id companies companies_update
  by unfold_locales simp_all

interpretation inventory: dbTable invKey inventories inventories_update
  by unfold_locales simp_all

interpretation marketOrder: dbTable ord_id marketOrders marketOrders_update
  by unfold_locales simp_all

interpretation productionJob: dbTable pj_id productionJobs productionJobs_update
  by unfold_locales simp_all

interpretation contractFulfillment: dbTable cf_id contractFulfillments contractFulfillments_update
  by unfold_locales simp_all

interpretation shipment: dbTable sh_id shipments shipments_update
  by unfold_locales simp_all

interpretation contract: dbTable ct_id contracts contracts_update
  by unfold_locales simp_all

interpretation building: dbTable bd_id buildings buildings_update
  by unfold_locales simp_all

interpretation researchJob: dbTable rj_id researchJobs researchJobs_update
  by unfold_locales simp_all

interpretation companyResearch: dbTable cxKey companyResearches companyResearches_update
  by unfold_locales simp_all

interpretation companyRecipe: dbTable crKey companyRecipes companyRecipes_update
  by unfold_locales simp_all

interpretation ledgerEntry: dbTable le_id ledgerEntries ledgerEntries_update
  by unfold_locales simp_all

subsection \<open>The calls of the services\<close>

abbreviation "findCompany cid d \<equiv> rowFind co_id cid (companies d)"
abbreviation "findItem iid d \<equiv> rowFind it_id iid (items d)"
abbreviation "findInventory cid iid rid d \<equiv> rowFind invKey (cid, iid, rid) (inventories d)"
abbreviation "updateCompany \<equiv> updateRow co_id companies companies_update"
abbreviation "updateInventory \<equiv> updateRow invKey inventories inventories_update"
abbreviation "updateMarketOrder \<equiv> updateRow ord_id marketOrders marketOrders_update"
abbreviation "createMarketOrder \<equiv> createRow ord_id marketOrders marketOrders_update"
abbreviation "createInventory \<equiv> createRow invKey inventories inventories_update"

definition createLedgerEntry ::
    "env \<Rightarrow> string \<Rightarrow> int \<Rightarrow> ledgerEntryType \<Rightarrow> int \<Rightarrow> int \<Rightarrow> int \<Rightarrow> string \<Rightarrow> string \<Rightarrow> db \<Rightarrow>
     db result" where
  "createLedgerEntry E companyId tick entryType deltaCash deltaReserved balanceAfter
       referenceType referenceId d =
     andThen (createRow le_id ledgerEntries ledgerEntries_update
       \<lparr>le_id = newId E d, le_companyId = companyId, le_tick = tick, le_entryType = entryType,
        le_deltaCashCents = deltaCash, le_deltaReservedCashCents = deltaReserved,
        le_balanceAfterCents = balanceAfter, le_referenceType = referenceType,
        le_referenceId = referenceId, le_createdAt = currentTime E d\<rparr> d)
       (\<lambda>(_, d'). Inr d')"

definition worldTick :: "db \<Rightarrow> int" where
  "worldTick d = (case worldTickRow d of None \<Rightarrow> 0 | Some w \<Rightarrow> ws_currentTick w)"

text \<open>\<open>inventory.upsert\<close>: update the row with the key, or create it.\<close>

definition upsertInventory ::
    "string \<Rightarrow> string \<Rightarrow> string \<Rightarrow> (inventory \<Rightarrow> inventory) \<Rightarrow> int \<Rightarrow> int \<Rightarrow> db \<Rightarrow>
     (inventory \<times> db) result" where
  "upsertInventory cid iid rid f createQuantity createReserved d =
     (case findInventory cid iid rid d of
       Some _ \<Rightarrow> updateInventory (cid, iid, rid) f d
     | None \<Rightarrow> createInventory
         \<lparr>inv_companyId = cid, inv_itemId = iid, inv_regionId = rid,
          inv_quantity = createQuantity, inv_reservedQuantity = createReserved\<rparr> d)"

lemma updateRow_Inr [result_simps]:
  "updateRow key tbl upd k f d = Inr (r', d') \<longleftrightarrow>
     (\<exists>r. rowFind key k (tbl d) = Some r \<and> r' = f r \<and> d' = upd (rowSet key k f) d)"
  by (auto simp: updateRow_def split: option.splits)

lemma createRow_Inr [result_simps]:
  "createRow key tbl upd r d = Inr (r', d') \<longleftrightarrow>
     rowFind key (key r) (tbl d) = None \<and> r' = r \<and>
     d' = (upd (\<lambda>rs. rs @ [r]) d)\<lparr>db_seq := Suc (db_seq d)\<rparr>"
  by (auto simp: createRow_def split: option.splits)

lemma createLedgerEntry_Inr [result_simps]:
  "createLedgerEntry E cid tick ty dc dr bal rt rid d = Inr d' \<longleftrightarrow>
     rowFind le_id (newId E d) (ledgerEntries d) = None \<and>
     d' = d\<lparr>ledgerEntries := ledgerEntries d @
       [\<lparr>le_id = newId E d, le_companyId = cid, le_tick = tick, le_entryType = ty,
         le_deltaCashCents = dc, le_deltaReservedCashCents = dr, le_balanceAfterCents = bal,
         le_referenceType = rt, le_referenceId = rid, le_createdAt = currentTime E d\<rparr>],
       db_seq := Suc (db_seq d)\<rparr>"
  by (auto simp: createLedgerEntry_def result_simps)

end
