(* ===== verification/Economy.thy ===== *)
theory Economy
  imports Store
begin

section \<open>Invariants of the economy\<close>

text \<open>
  What every handler has to keep: balances within bounds, the order book in order, reserved cash
  backed by orders. The rules at the end say when a single write of the database keeps them, so
  that a handler's proof is one rule per write.
\<close>

subsection \<open>The economy's invariant\<close>

text \<open>
  Every company holds at least the cash it has reserved and every inventory row at least the
  stock it has reserved; keys are unique. \<open>cashBacked\<close>: the reserved cash of a company is what
  its market orders reserve.
\<close>

definition companyOk :: "company \<Rightarrow> bool" where
  "companyOk c \<longleftrightarrow> reservationOk (co_cashCents c) (co_reservedCashCents c)"

definition inventoryOk :: "inventory \<Rightarrow> bool" where
  "inventoryOk r \<longleftrightarrow> reservationOk (inv_quantity r) (inv_reservedQuantity r)"

definition economyOk :: "db \<Rightarrow> bool" where
  "economyOk d \<longleftrightarrow> rowsOk co_id companyOk (companies d) \<and> rowsOk invKey inventoryOk (inventories d)"

definition totalCash :: "db \<Rightarrow> int" where
  "totalCash d = (\<Sum>c\<leftarrow>companies d. co_cashCents c)"

definition itemStock :: "string \<Rightarrow> db \<Rightarrow> int" where
  "itemStock iid d = (\<Sum>r\<leftarrow>inventories d. if inv_itemId r = iid then inv_quantity r else 0)"

lemma companyOk_iff:
  "companyOk c \<longleftrightarrow> 0 \<le> co_reservedCashCents c \<and> co_reservedCashCents c \<le> co_cashCents c"
  by (simp add: companyOk_def reservationOk_def)

lemma inventoryOk_iff:
  "inventoryOk r \<longleftrightarrow> 0 \<le> inv_reservedQuantity r \<and> inv_reservedQuantity r \<le> inv_quantity r"
  by (simp add: inventoryOk_def reservationOk_def)

lemma economyOk_companies [dest]: "economyOk d \<Longrightarrow> rowsOk co_id companyOk (companies d)"
  and economyOk_inventories [dest]: "economyOk d \<Longrightarrow> rowsOk invKey inventoryOk (inventories d)"
  by (simp_all add: economyOk_def)

lemma economyOk_same:
  "economyOk d \<Longrightarrow> companies d' = companies d \<Longrightarrow> inventories d' = inventories d \<Longrightarrow> economyOk d'"
  by (simp add: economyOk_def)

lemma economyOk_updateCompany:
  assumes "updateCompany cid f d = Inr (c', d')" and "economyOk d"
    and "\<And>c. co_id (f c) = co_id c" and "companyOk c'"
  shows "economyOk d'"
  using company.update_ok [OF assms(1) economyOk_companies [OF assms(2)] assms(3,4)] assms(1,2)
  by (auto simp: economyOk_def result_simps)

lemma economyOk_updateInventory:
  assumes "updateInventory k f d = Inr (r', d')" and "economyOk d"
    and "\<And>r. invKey (f r) = invKey r" and "inventoryOk r'"
  shows "economyOk d'"
  using inventory.update_ok [OF assms(1) economyOk_inventories [OF assms(2)] assms(3,4)] assms(1,2)
  by (auto simp: economyOk_def result_simps)

lemma economyOk_createInventory:
  assumes "createInventory r d = Inr (r', d')" and "economyOk d" and "inventoryOk r"
  shows "economyOk d'"
  using inventory.create_ok [OF assms(1) economyOk_inventories [OF assms(2)] assms(3)] assms(1,2)
  by (auto simp: economyOk_def result_simps)

lemma economyOk_upsertInventory:
  assumes "upsertInventory cid iid rid f q res d = Inr (r', d')" and "economyOk d"
    and "\<And>r. invKey (f r) = invKey r" and "inventoryOk r'"
  shows "economyOk d'"
proof (cases "findInventory cid iid rid d")
  case None
  with assms(1) have "createInventory
      \<lparr>inv_companyId = cid, inv_itemId = iid, inv_regionId = rid, inv_quantity = q,
       inv_reservedQuantity = res\<rparr> d = Inr (r', d')"
    by (simp add: upsertInventory_def)
  with assms(2,4) show ?thesis
    by (metis economyOk_createInventory inventory.create_rows)
next
  case (Some r)
  with assms(1) have "updateInventory (cid, iid, rid) f d = Inr (r', d')"
    by (simp add: upsertInventory_def)
  then show ?thesis using assms(2-4) by (rule economyOk_updateInventory)
qed

subsection \<open>The order book's invariant\<close>

text \<open>
  An open buy order reserves the price of what remains, an open sell order what remains, a closed
  order nothing; the cash a company has reserved is what its orders reserve.
\<close>

definition orderOk :: "marketOrder \<Rightarrow> bool" where
  "orderOk x \<longleftrightarrow>
     0 < ord_unitPriceCents x \<and> 0 \<le> ord_remainingQuantity x \<and>
     ord_remainingQuantity x \<le> ord_quantity x \<and>
     (if ord_status x = OrderOPEN
      then 0 < ord_remainingQuantity x \<and>
        (case ord_side x of
          BUY \<Rightarrow> ord_reservedCashCents x = ord_remainingQuantity x * ord_unitPriceCents x \<and>
                 ord_reservedQuantity x = 0
        | SELL \<Rightarrow> ord_reservedCashCents x = 0 \<and>
                 ord_reservedQuantity x = ord_remainingQuantity x)
      else ord_reservedCashCents x = 0 \<and> ord_reservedQuantity x = 0)"

definition orderReserve :: "string \<Rightarrow> db \<Rightarrow> int" where
  "orderReserve cid d =
     (\<Sum>x\<leftarrow>marketOrders d. if ord_companyId x = cid then ord_reservedCashCents x else 0)"

definition cashBacked :: "db \<Rightarrow> bool" where
  "cashBacked d \<longleftrightarrow> (\<forall>c\<in>set (companies d). co_reservedCashCents c = orderReserve (co_id c) d)"

definition marketOk :: "db \<Rightarrow> bool" where
  "marketOk d \<longleftrightarrow> economyOk d \<and> rowsOk ord_id orderOk (marketOrders d) \<and> cashBacked d"

lemma marketOkD:
  assumes "marketOk d"
  shows "economyOk d" "rowsOk ord_id orderOk (marketOrders d)" "cashBacked d"
  using assms by (simp_all add: marketOk_def)

lemma marketOk_same:
  "marketOk d \<Longrightarrow> companies d' = companies d \<Longrightarrow> inventories d' = inventories d \<Longrightarrow>
     marketOrders d' = marketOrders d \<Longrightarrow> marketOk d'"
  by (simp add: marketOk_def economyOk_def cashBacked_def orderReserve_def)

text \<open>Moving one company's reserve together with its orders' reserve keeps cash backed.\<close>

lemma cashBacked_shift:
  assumes "cashBacked d" and "distinct (map co_id (companies d))"
    and "findCompany cid d = Some c" and "companies d' = rowSet co_id cid f (companies d)"
    and "\<And>c. co_id (f c) = co_id c"
    and "co_reservedCashCents (f c) = co_reservedCashCents c + \<delta>"
    and "\<And>k. orderReserve k d' = orderReserve k d + (if k = cid then \<delta> else 0)"
  shows "cashBacked d'"
  unfolding cashBacked_def
proof
  fix x assume "x \<in> set (companies d')"
  then obtain y where y: "y \<in> set (companies d)" and x: "x = (if co_id y = cid then f y else y)"
    using assms(4) by (auto simp: rowSet_def)
  have reserve: "co_reservedCashCents y = orderReserve (co_id y) d"
    using assms(1) y by (simp add: cashBacked_def)
  show "co_reservedCashCents x = orderReserve (co_id x) d'"
  proof (cases "co_id y = cid")
    case True
    with assms(2,3) y have "y = c" using rowFind_unique by fastforce
    with True x reserve assms(5-7) show ?thesis by simp
  next
    case False
    with x reserve assms(7) show ?thesis by simp
  qed
qed

text \<open>How one order's creation or update changes the orders' reserve.\<close>

lemma orderReserve_append:
  "marketOrders d' = marketOrders d @ [x] \<Longrightarrow>
     orderReserve k d' = orderReserve k d + (if k = ord_companyId x then ord_reservedCashCents x else 0)"
  by (simp add: orderReserve_def)

lemma orderReserve_rowSet:
  assumes "marketOrders d' = rowSet ord_id oid f (marketOrders d)"
    and "distinct (map ord_id (marketOrders d))" and "rowFind ord_id oid (marketOrders d) = Some x"
    and "\<And>x. ord_companyId (f x) = ord_companyId x"
  shows "orderReserve k d' = orderReserve k d +
    (if k = ord_companyId x then ord_reservedCashCents (f x) - ord_reservedCashCents x else 0)"
  using sum_rowSet [OF assms(2,3),
      of "\<lambda>x. if ord_companyId x = k then ord_reservedCashCents x else 0" f] assms(1,4)
  by (auto simp: orderReserve_def)

subsection \<open>Writes that keep the market's invariant\<close>

lemma marketOk_updateCompany:
  assumes "updateCompany cid f d = Inr (c', d')" and "marketOk d"
    and "\<And>c. co_id (f c) = co_id c" and "companyOk c'"
    and "\<And>c. findCompany cid d = Some c \<Longrightarrow> co_reservedCashCents (f c) = co_reservedCashCents c"
  shows "marketOk d'"
proof -
  note ok = marketOkD [OF assms(2)]
  from assms(1) obtain c where c: "findCompany cid d = Some c"
    "d' = d\<lparr>companies := rowSet co_id cid f (companies d)\<rparr>"
    by (auto simp: result_simps)
  have "cashBacked d'"
    by (rule cashBacked_shift [OF ok(3) rowsOk_distinct [OF economyOk_companies [OF ok(1)]] c(1),
          where f = f and \<delta> = 0])
      (use c assms(3,5) in \<open>simp_all add: orderReserve_def\<close>)
  with economyOk_updateCompany [OF assms(1) ok(1) assms(3,4)] ok(2) c(2) show ?thesis
    by (simp add: marketOk_def)
qed

lemma marketOk_updateInventory:
  assumes "updateInventory k f d = Inr (r', d')" and "marketOk d"
    and "\<And>r. invKey (f r) = invKey r" and "inventoryOk r'"
  shows "marketOk d'"
  using economyOk_updateInventory [OF assms(1) marketOkD(1) [OF assms(2)] assms(3,4)] assms(1,2)
  by (auto simp: marketOk_def cashBacked_def orderReserve_def result_simps)

lemma marketOk_upsertInventory:
  assumes "upsertInventory cid iid rid f q res d = Inr (r', d')" and "marketOk d"
    and "\<And>r. invKey (f r) = invKey r" and "inventoryOk r'"
  shows "marketOk d'"
  using economyOk_upsertInventory [OF assms(1) marketOkD(1) [OF assms(2)] assms(3,4)] assms(1,2)
  by (auto simp: marketOk_def cashBacked_def orderReserve_def result_simps upsertInventory_def
      split: option.splits)

lemma marketOk_company:
  "marketOk d \<Longrightarrow> findCompany cid d = Some c \<Longrightarrow>
     co_id c = cid \<and> 0 \<le> co_reservedCashCents c \<and> co_reservedCashCents c \<le> co_cashCents c"
  using rowsOk_find [OF economyOk_companies [OF marketOkD(1)], of d cid c]
  by (auto simp: companyOk_iff dest: rowFind_key)

lemma marketOk_inventory:
  "marketOk d \<Longrightarrow> rowFind invKey k (inventories d) = Some r \<Longrightarrow>
     invKey r = k \<and> 0 \<le> inv_reservedQuantity r \<and> inv_reservedQuantity r \<le> inv_quantity r"
  using rowsOk_find [OF economyOk_inventories [OF marketOkD(1)], of d k r]
  by (auto simp: inventoryOk_iff dest: rowFind_key)

lemma marketOk_ledger:
  "createLedgerEntry E cid tick ty dc dr bal rt rid d = Inr d' \<Longrightarrow> marketOk d \<Longrightarrow> marketOk d'"
  by (auto simp: result_simps intro: marketOk_same)

text \<open>The totals such writes change.\<close>

lemma totalCash_updateCompany:
  assumes "updateCompany cid f d = Inr (c', d')" and "marketOk d" and "findCompany cid d = Some c"
  shows "totalCash d' = totalCash d + (co_cashCents (f c) - co_cashCents c)"
  using company.update_sum [OF assms(1) economyOk_companies [OF marketOkD(1) [OF assms(2)]] assms(3),
      of co_cashCents] assms(1,3)
  by (auto simp: totalCash_def result_simps)

lemma totalCash_economy:
  assumes "updateCompany cid f d = Inr (c', d')" and "economyOk d" and "findCompany cid d = Some c"
  shows "totalCash d' = totalCash d + (co_cashCents (f c) - co_cashCents c)"
  using company.update_sum [OF assms(1) economyOk_companies [OF assms(2)] assms(3),
      of co_cashCents] assms(1,3)
  by (auto simp: totalCash_def result_simps)

lemma itemStock_updateInventory:
  assumes "updateInventory k f d = Inr (r', d')" and "economyOk d"
    and "rowFind invKey k (inventories d) = Some r" and "\<And>r. invKey (f r) = invKey r"
  shows "itemStock iid d' = itemStock iid d +
    (if fst (snd k) = iid then inv_quantity (f r) - inv_quantity r else 0)"
proof -
  have "inv_itemId (f r) = inv_itemId r" using assms(4) [of r] by (simp add: invKey_def)
  then show ?thesis
    using inventory.update_sum [OF assms(1) economyOk_inventories [OF assms(2)] assms(3),
        of "\<lambda>x. if inv_itemId x = iid then inv_quantity x else 0"] assms(1,3) rowFind_key [OF assms(3)]
    by (auto simp: itemStock_def result_simps invKey_def)
qed

lemma itemStock_upsertInventory:
  assumes "upsertInventory cid iid rid f q res d = Inr (r', d')" and "economyOk d"
    and "\<And>r. invKey (f r) = invKey r"
    and "\<And>r. inv_quantity (f r) = inv_quantity r + \<delta>" and "q = \<delta>"
  shows "itemStock k d' = itemStock k d + (if iid = k then \<delta> else 0)"
proof (cases "findInventory cid iid rid d")
  case None
  then show ?thesis using assms(1,5) by (auto simp: upsertInventory_def result_simps itemStock_def)
next
  case (Some r)
  then have "updateInventory (cid, iid, rid) f d = Inr (r', d')"
    using assms(1) by (simp add: upsertInventory_def)
  from itemStock_updateInventory [OF this assms(2) Some assms(3)] assms(4) show ?thesis by simp
qed

subsection \<open>Stock selected by key\<close>

text \<open>The stock of the inventory rows whose key satisfies a predicate: of an item, of a region.\<close>

definition stockWhere :: "(string \<times> string \<times> string \<Rightarrow> bool) \<Rightarrow> db \<Rightarrow> int" where
  "stockWhere P d = (\<Sum>r\<leftarrow>inventories d. if P (invKey r) then inv_quantity r else 0)"

lemma itemStock_stockWhere: "itemStock iid d = stockWhere (\<lambda>k. fst (snd k) = iid) d"
  by (simp add: itemStock_def stockWhere_def invKey_def)

lemma stockWhere_same: "inventories d' = inventories d \<Longrightarrow> stockWhere P d' = stockWhere P d"
  by (simp add: stockWhere_def)

lemma stockWhere_rowSet:
  assumes "inventories d' = rowSet invKey k f (inventories d)" and "economyOk d"
    and "rowFind invKey k (inventories d) = Some r" and "invKey (f r) = invKey r"
  shows "stockWhere P d' = stockWhere P d + (if P k then inv_quantity (f r) - inv_quantity r else 0)"
  using sum_rowSet [OF rowsOk_distinct [OF economyOk_inventories [OF assms(2)]] assms(3),
      of "\<lambda>x. if P (invKey x) then inv_quantity x else 0" f] assms(1,4) rowFind_key [OF assms(3)]
  by (auto simp: stockWhere_def)

lemma stockWhere_upsertInventory:
  assumes "upsertInventory cid iid rid f q res d = Inr (r', d')" and "economyOk d"
    and "\<And>r. invKey (f r) = invKey r" and "\<And>r. inv_quantity (f r) = inv_quantity r + q"
  shows "stockWhere P d' = stockWhere P d + (if P (cid, iid, rid) then q else 0)"
proof (cases "findInventory cid iid rid d")
  case None
  then show ?thesis
    using assms(1) by (auto simp: upsertInventory_def result_simps stockWhere_def invKey_def)
next
  case (Some r)
  then have "inventories d' = rowSet invKey (cid, iid, rid) f (inventories d)"
    using assms(1) by (auto simp: upsertInventory_def result_simps)
  from stockWhere_rowSet [OF this assms(2) Some assms(3), of P] assms(4) show ?thesis by simp
qed

text \<open>Adding a non-negative amount to a row, or creating it, keeps the market's invariant.\<close>

lemma marketOk_addStock:
  assumes "upsertInventory cid iid rid (\<lambda>r. r\<lparr>inv_quantity := inv_quantity r + q\<rparr>) q 0 d = Inr (r', d')"
    and "marketOk d" and "0 \<le> q"
  shows "marketOk d'"
proof -
  have "inventoryOk r'"
    using assms(1,3) marketOk_inventory [OF assms(2)]
    by (fastforce simp: upsertInventory_def result_simps inventoryOk_iff split: option.splits)
  then show ?thesis by (intro marketOk_upsertInventory [OF assms(1,2)]) (simp add: invKey_def)
qed

lemma upsertInventory_returns: "\<exists>r d'. upsertInventory cid iid rid f q res d = Inr (r, d')"
  by (auto simp: upsertInventory_def updateRow_def createRow_def invKey_def split: option.splits)

lemma upsertInventory_frame:
  assumes "upsertInventory cid iid rid f q res d = Inr (r', d')"
  obtains g n where "d' = (inventories_update g d)\<lparr>db_seq := n\<rparr>"
  | g where "d' = inventories_update g d"
  using assms by (auto simp: upsertInventory_def result_simps split: option.splits)

text \<open>Only the account columns of a company matter to the invariant.\<close>

definition account :: "company \<Rightarrow> string \<times> int \<times> int" where
  "account c = (co_id c, co_cashCents c, co_reservedCashCents c)"

lemma rowsOk_companies:
  "rowsOk co_id companyOk cs \<longleftrightarrow>
     distinct (map fst (map account cs)) \<and>
     (\<forall>(i, cash, reserved)\<in>set (map account cs). reservationOk cash reserved)"
  by (auto simp: rowsOk_def account_def companyOk_def comp_def)

lemma cashBacked_accounts:
  "cashBacked d \<longleftrightarrow> (\<forall>(i, cash, reserved)\<in>set (map account (companies d)). reserved = orderReserve i d)"
  by (auto simp: cashBacked_def account_def)

lemma marketOk_accounts:
  assumes "marketOk d" and "map account (companies d') = map account (companies d)"
    and "inventories d' = inventories d" and "marketOrders d' = marketOrders d"
  shows "marketOk d'"
  using assms
  by (simp add: marketOk_def economyOk_def rowsOk_companies cashBacked_accounts orderReserve_def
      del: set_map)

text \<open>
  Rows rewritten one after another, each by its own key: the table afterwards is the table before
  with every visited row rewritten once.
\<close>

lemma forEach_rows:
  assumes "forEach f xs d = Inr d'" and "distinct (map key xs)"
    and "\<And>x d d'. x \<in> set xs \<Longrightarrow> f x d = Inr d' \<Longrightarrow> tbl d' = rowSet key (key x) (g x) (tbl d)"
    and "\<And>x r. key (g x r) = key r"
  shows "tbl d' = map (\<lambda>r. case rowFind key (key r) xs of None \<Rightarrow> r | Some x \<Rightarrow> g x r) (tbl d)"
  using assms(1-3)
proof (induction xs arbitrary: d)
  case Nil
  then show ?case by simp
next
  case (Cons x xs)
  then obtain e where e: "f x d = Inr e" "forEach f xs e = Inr d'" by (auto simp: andThen_Inr_iff)
  have absent: "rowFind key (key x) xs = None" using Cons.prems(2) by (simp add: rowFind_None)
  have "tbl d' = map (\<lambda>r. case rowFind key (key r) xs of None \<Rightarrow> r | Some x \<Rightarrow> g x r) (tbl e)"
    using Cons.IH [OF e(2)] Cons.prems(2,3) by simp
  also have "tbl e = rowSet key (key x) (g x) (tbl d)" using Cons.prems(3) e(1) by simp
  finally show ?case
    using absent assms(4) by (auto simp: rowSet_def comp_def intro!: map_cong)
qed

lemma forEach_member:
  "forEach f xs s = Inr s' \<Longrightarrow> x \<in> set xs \<Longrightarrow> \<exists>t t'. f x t = Inr t'"
  by (induction xs arbitrary: s) (auto simp: andThen_Inr_iff)

text \<open>Companies that only spend free cash keep the invariant.\<close>

lemma marketOk_paid:
  assumes "marketOk d"
    and "list_all2 (\<lambda>c c'. co_id c' = co_id c \<and> co_reservedCashCents c' = co_reservedCashCents c \<and>
       (\<exists>due\<ge>0. co_cashCents c' =
          co_cashCents c - min due (co_cashCents c - co_reservedCashCents c)))
      (companies d) (companies d')"
    and "inventories d' = inventories d" and "marketOrders d' = marketOrders d"
  shows "marketOk d'"
proof -
  note ok = marketOkD [OF assms(1)]
  have ids: "map co_id (companies d') = map co_id (companies d)"
    using assms(2) by (auto simp: list_all2_conv_all_nth list_eq_iff_nth_eq)
  have row: "companyOk c' \<and> co_reservedCashCents c' = orderReserve (co_id c') d'"
    if "c' \<in> set (companies d')" for c'
  proof -
    from list_all2_right [OF assms(2) that] obtain c due where c: "c \<in> set (companies d)"
      "co_id c' = co_id c" "co_reservedCashCents c' = co_reservedCashCents c" "0 \<le> due"
      "co_cashCents c' = co_cashCents c - min due (co_cashCents c - co_reservedCashCents c)" by blast
    have "companyOk c" "co_reservedCashCents c = orderReserve (co_id c) d"
      using ok c(1) by (auto simp: economyOk_def rowsOk_def cashBacked_def)
    with c show ?thesis using assms(4) by (auto simp: companyOk_iff orderReserve_def)
  qed
  have "distinct (map co_id (companies d'))"
    unfolding ids by (rule rowsOk_distinct [OF economyOk_companies [OF ok(1)]])
  with row ok assms(3,4) show ?thesis
    by (simp add: marketOk_def economyOk_def rowsOk_def cashBacked_def)
qed

subsection \<open>A stage of a tick\<close>

text \<open>No recipe names an input twice, and none has a negative output.\<close>

definition recipesOk :: "db \<Rightarrow> bool" where
  "recipesOk d \<longleftrightarrow> distinct (map (\<lambda>i. (ri_recipeId i, ri_itemId i)) (recipeInputs d))"

definition outputsOk :: "db \<Rightarrow> bool" where
  "outputsOk d \<longleftrightarrow> (\<forall>r\<in>set (recipes d). 0 \<le> rc_outputQuantity r)"

text \<open>What no stage writes: the recipes, the running cost of every building, the
  world's clock, the execution records, the control row and the leases.\<close>

definition masters ::
    "db \<Rightarrow> recipe list \<times> recipeInput list \<times> int list \<times> worldTickState option \<times>
     simulationTickExecution list \<times> simulationControlState option \<times> simulationLease list" where
  "masters d = (recipes d, recipeInputs d, map bd_weeklyOperatingCostCents (buildings d),
     worldTickRow d, simulationTickExecutions d, controlRow d, simulationLeases d)"

definition tickOk :: "db \<Rightarrow> bool" where
  "tickOk d \<longleftrightarrow> marketOk d \<and> recipesOk d \<and> outputsOk d \<and>
     (\<forall>b\<in>set (buildings d). 0 \<le> bd_weeklyOperatingCostCents b)"

lemma tickOk_masters: "tickOk d \<Longrightarrow> marketOk d' \<Longrightarrow> masters d' = masters d \<Longrightarrow> tickOk d'"
proof -
  assume a: "tickOk d" "marketOk d'" "masters d' = masters d"
  have "set (map bd_weeklyOperatingCostCents (buildings d')) = set (map bd_weeklyOperatingCostCents (buildings d))"
    using a(3) by (simp add: masters_def del: set_map)
  moreover have "\<forall>c\<in>set (map bd_weeklyOperatingCostCents (buildings d)). 0 \<le> c"
    using a(1) by (simp add: tickOk_def)
  ultimately have "\<forall>c\<in>set (map bd_weeklyOperatingCostCents (buildings d')). 0 \<le> c" by (simp del: set_map)
  then have "\<forall>b\<in>set (buildings d'). 0 \<le> bd_weeklyOperatingCostCents b" by simp
  with a show "tickOk d'" by (simp add: masters_def tickOk_def recipesOk_def outputsOk_def)
qed

text \<open>
  The contract every stage of the tick pipeline has: it keeps the market's invariant, leaves the
  master tables alone and mints no money. Stages compose.
\<close>

locale tick_stage =
  fixes stage :: "db \<Rightarrow> db result"
  assumes law: "stage d = Inr d' \<Longrightarrow> tickOk d \<Longrightarrow>
    marketOk d' \<and> masters d' = masters d \<and> totalCash d' \<le> totalCash d"
begin

lemma keeps: "stage d = Inr d' \<Longrightarrow> tickOk d \<Longrightarrow> tickOk d'"
  using law tickOk_masters by blast

lemma clock: "stage d = Inr d' \<Longrightarrow> tickOk d \<Longrightarrow>
    worldTickRow d' = worldTickRow d \<and> simulationTickExecutions d' = simulationTickExecutions d"
  using law by (auto simp: masters_def)

lemma settings: "stage d = Inr d' \<Longrightarrow> tickOk d \<Longrightarrow>
    controlRow d' = controlRow d \<and> simulationLeases d' = simulationLeases d"
  using law by (auto simp: masters_def)

end

text \<open>A stage that does not write companies at all.\<close>

locale quiet_stage = tick_stage +
  assumes companies_same: "stage d = Inr d' \<Longrightarrow> tickOk d \<Longrightarrow> companies d' = companies d"

lemma tick_stage_seq:
  assumes "tick_stage f" and "tick_stage g"
  shows "tick_stage (\<lambda>d. andThen (f d) g)"
proof (rule tick_stage.intro)
  fix d d' assume run: "andThen (f d) g = Inr d'" and ok: "tickOk d"
  from run obtain e where e: "f d = Inr e" "g e = Inr d'" by (auto simp: andThen_Inr_iff)
  have "tickOk e" by (rule tick_stage.keeps [OF assms(1) e(1) ok])
  with tick_stage.law [OF assms(1) e(1) ok] tick_stage.law [OF assms(2) e(2)]
  show "marketOk d' \<and> masters d' = masters d \<and> totalCash d' \<le> totalCash d" by simp
qed

lemma tick_stage_skip: "tick_stage Inr"
  by (rule tick_stage.intro) (simp add: tickOk_def)

text \<open>Running a handler for its effect.\<close>

definition effectOf :: "('a \<times> db) result \<Rightarrow> db result" where
  "effectOf m = andThen m (\<lambda>(_, d). Inr d)"

lemma effectOf_Inr: "effectOf m = Inr d' \<longleftrightarrow> (\<exists>x. m = Inr (x, d'))"
  by (auto simp: effectOf_def andThen_Inr_iff)

end
