(* ===== verification/Fixture.thy ===== *)
theory Fixture
  imports Economy
begin

section \<open>A small concrete world\<close>

text \<open>
  Two companies, two regions, three items, a recipe, a building, a research tree of two nodes and
  an environment: the concrete input at which properties with hypotheses are instantiated.
\<close>

fun textOrder :: "string \<Rightarrow> string \<Rightarrow> int" where
  "textOrder [] [] = 0"
| "textOrder [] (_ # _) = - 1"
| "textOrder (_ # _) [] = 1"
| "textOrder (c # cs) (e # es) =
     (if c = e then textOrder cs es else int (of_char c) - int (of_char e))"

definition fixtureEnv :: env where
  "fixtureEnv = \<lparr>env_cuid = (\<lambda>n. ''id'' @ showNat n), env_now = int,
     env_textCompare = textOrder, env_localeCompare = textOrder\<rparr>"

definition mkCompany :: "string \<Rightarrow> bool \<Rightarrow> string \<Rightarrow> int \<Rightarrow> int \<Rightarrow> company" where
  "mkCompany cid isPlayer regionId cash reserved =
     \<lparr>co_id = cid, co_code = ''CODE_'' @ cid, co_name = cid, co_isPlayer = isPlayer,
      co_specialization = INDUSTRIAL, co_specializationChangedAt = None,
      co_ownerPlayerId = (if isPlayer then Some ''p1'' else None), co_regionId = regionId,
      co_cashCents = cash, co_reservedCashCents = reserved, co_workforceCapacity = 40,
      co_workforceAllocationOpsPct = 40, co_workforceAllocationRngPct = 20,
      co_workforceAllocationLogPct = 20, co_workforceAllocationCorpPct = 20,
      co_orgEfficiencyBps = 7000, co_createdAt = 0\<rparr>"

definition mkInventory :: "string \<Rightarrow> string \<Rightarrow> string \<Rightarrow> int \<Rightarrow> int \<Rightarrow> inventory" where
  "mkInventory cid iid rid qty reserved =
     \<lparr>inv_companyId = cid, inv_itemId = iid, inv_regionId = rid, inv_quantity = qty,
      inv_reservedQuantity = reserved\<rparr>"

definition mkOrder ::
    "string \<Rightarrow> string \<Rightarrow> string \<Rightarrow> orderSide \<Rightarrow> int \<Rightarrow> int \<Rightarrow> int \<Rightarrow> marketOrder" where
  "mkOrder oid cid iid side qty price placed =
     \<lparr>ord_id = oid, ord_companyId = cid, ord_itemId = iid, ord_regionId = ''r1'', ord_side = side,
      ord_status = OrderOPEN, ord_quantity = qty, ord_remainingQuantity = qty,
      ord_unitPriceCents = price,
      ord_reservedCashCents = (if side = BUY then qty * price else 0),
      ord_reservedQuantity = (if side = SELL then qty else 0), ord_tickPlaced = placed,
      ord_tickClosed = None, ord_createdAt = placed, ord_closedAt = None\<rparr>"

definition mkBuilding :: "string \<Rightarrow> string \<Rightarrow> string \<Rightarrow> buildingType \<Rightarrow> int \<Rightarrow> building" where
  "mkBuilding bid cid rid ty slots =
     \<lparr>bd_id = bid, bd_companyId = cid, bd_regionId = rid, bd_buildingType = ty,
      bd_status = BuildingACTIVE, bd_name = None, bd_acquisitionCostCents = 10000,
      bd_weeklyOperatingCostCents = 500, bd_capacitySlots = slots, bd_tickAcquired = 0,
      bd_tickConstructionCompletes = None, bd_lastOperatingCostTick = Some 0, bd_createdAt = 0\<rparr>"

definition fixtureDb :: db where
  "fixtureDb = emptyDb\<lparr>
     companies := [mkCompany ''a'' True ''r1'' 100000 600, mkCompany ''b'' False ''r1'' 50000 0],
     players := [\<lparr>pl_id = ''p1'', pl_handle = ''PLAYER'', pl_tutorialCompletedAt = None,
       pl_createdAt = 0\<rparr>],
     items := [\<lparr>it_id = ''ore'', it_code = ''IRON_ORE'', it_name = ''Iron Ore''\<rparr>,
       \<lparr>it_id = ''coal'', it_code = ''COAL'', it_name = ''Coal''\<rparr>,
       \<lparr>it_id = ''ingot'', it_code = ''IRON_INGOT'', it_name = ''Iron Ingot''\<rparr>],
     regions := [\<lparr>rg_id = ''r1'', rg_code = ''CORE'', rg_name = ''Core''\<rparr>,
       \<lparr>rg_id = ''r2'', rg_code = ''INDUSTRIAL'', rg_name = ''Industrial''\<rparr>],
     inventories := [mkInventory ''a'' ''ore'' ''r1'' 50 0, mkInventory ''b'' ''ore'' ''r1'' 20 4,
       mkInventory ''a'' ''coal'' ''r1'' 30 0, mkInventory ''a'' ''ingot'' ''r1'' 5 0],
     marketOrders := [mkOrder ''o1'' ''a'' ''ore'' BUY 6 100 1, mkOrder ''o2'' ''b'' ''ore'' SELL 4 90 2],
     recipes := [\<lparr>rc_id = ''smelt'', rc_code = ''SMELT_IRON'', rc_name = ''Smelt Iron'',
       rc_durationTicks = 3, rc_outputItemId = ''ingot'', rc_outputQuantity = 1\<rparr>],
     recipeInputs := [\<lparr>ri_recipeId = ''smelt'', ri_itemId = ''ore'', ri_quantity = 2\<rparr>,
       \<lparr>ri_recipeId = ''smelt'', ri_itemId = ''coal'', ri_quantity = 1\<rparr>],
     buildings := [mkBuilding ''f1'' ''a'' ''r1'' FACTORY 2],
     companyRecipes := [\<lparr>cr_companyId = ''a'', cr_recipeId = ''smelt'', cr_isUnlocked = True\<rparr>],
     researchNodes := [\<lparr>rn_id = ''n1'', rn_code = ''BASICS'', rn_name = ''Basics'',
       rn_description = '''', rn_costCashCents = 1000, rn_durationTicks = 5\<rparr>,
       \<lparr>rn_id = ''n2'', rn_code = ''POWER_SYSTEMS'', rn_name = ''Power'', rn_description = '''',
        rn_costCashCents = 2000, rn_durationTicks = 5\<rparr>],
     nodeUnlockRecipes := [\<lparr>nu_nodeId = ''n1'', nu_recipeId = ''smelt''\<rparr>],
     researchPrerequisites := [\<lparr>rp_nodeId = ''n2'', rp_prerequisiteNodeId = ''n1''\<rparr>],
     worldTickRow := Some \<lparr>ws_currentTick = 7, ws_lockVersion = 3, ws_lastAdvancedAt = None\<rparr>\<rparr>"

lemma fixture_marketOk: "marketOk fixtureDb"
  by code_simp

end
