(* ===== verification/MarketOrders.thy ===== *)
theory MarketOrders
  imports Fixture TierLocker
begin

section \<open>Placing and cancelling market orders\<close>

text \<open>
  \<open>packages/sim/src/services/market-orders.ts\<close>: a buy order reserves cash, a sell order reserves
  stock; cancelling an open order releases what it reserved. The inputs are records, each
  handler is a definition of the same name, in the source's order of checks and writes; the two
  branches of placement and the two releases of cancellation are definitions of their own.
\<close>

record placeMarketOrderInput =
  po_companyId :: string
  po_itemId :: string
  po_regionId :: "string option"
  po_side :: orderSide
  po_quantity :: jsnum
  po_unitPriceCents :: int
  po_tick :: "jsnum option"

record cancelMarketOrderInput =
  xo_orderId :: string
  xo_tick :: "jsnum option"

definition badTick :: "jsnum option \<Rightarrow> bool" where
  "badTick tick = (case tick of None \<Rightarrow> False | Some t \<Rightarrow> \<not> isInteger t \<or> num t < 0)"

definition validateOrderInput :: "placeMarketOrderInput \<Rightarrow> unit result" where
  "validateOrderInput input =
     (if po_companyId input = [] then Inl (DomainInvariantError ''companyId is required'')
      else if po_itemId input = [] then Inl (DomainInvariantError ''itemId is required'')
      else if po_regionId input = Some []
        then Inl (DomainInvariantError ''regionId must not be empty'')
      else if \<not> isInteger (po_quantity input) \<or> num (po_quantity input) \<le> 0
        then Inl (DomainInvariantError ''quantity must be a positive integer'')
      else if po_unitPriceCents input \<le> 0
        then Inl (DomainInvariantError ''unitPriceCents must be greater than zero'')
      else if badTick (po_tick input)
        then Inl (DomainInvariantError ''tick must be a non-negative integer'')
      else Inr ())"

definition validateCancelInput :: "cancelMarketOrderInput \<Rightarrow> unit result" where
  "validateCancelInput input =
     (if xo_orderId input = [] then Inl (DomainInvariantError ''orderId is required'')
      else if badTick (xo_tick input)
        then Inl (DomainInvariantError ''tick must be a non-negative integer'')
      else Inr ())"

definition resolveTick :: "jsnum option \<Rightarrow> db \<Rightarrow> int" where
  "resolveTick explicitTick d =
     (case explicitTick of Some t \<Rightarrow> num t | None \<Rightarrow> worldTick d)"

text \<open>The codes of the research nodes a company completed.\<close>

definition completedResearchCodes :: "string \<Rightarrow> db \<Rightarrow> string list" where
  "completedResearchCodes companyId d =
     List.map_filter (\<lambda>row. map_option rn_code (rowFind rn_id (cx_nodeId row) (researchNodes d)))
       (filter (\<lambda>row. cx_companyId row = companyId \<and> cx_status row = NodeCOMPLETED)
         (companyResearches d))"

subsection \<open>Placement\<close>

definition checkItemAccess :: "placeMarketOrderInput \<Rightarrow> company \<Rightarrow> item \<Rightarrow> db \<Rightarrow> unit result" where
  "checkItemAccess input company item d =
     (if \<not> co_isPlayer company then Inr ()
      else
        (let unlockedIconTier = resolvePlayerUnlockedIconTierFromResearchCodes
               (completedResearchCodes (po_companyId input) d) in
         if isItemCodeLockedByIconTier (it_code item) unlockedIconTier
           then Inl (DomainInvariantError (''item '' @ po_itemId input @
                  '' is not unlocked for company '' @ po_companyId input))
         else if po_side input = SELL \<and>
              isItemCodeLockedBySpecialization (it_code item) (co_specialization company)
           then Inl (DomainInvariantError (''item '' @ po_itemId input @
                  '' is not available for company specialization''))
         else Inr ()))"

definition newOrder ::
    "env \<Rightarrow> placeMarketOrderInput \<Rightarrow> string \<Rightarrow> int \<Rightarrow> int \<Rightarrow> int \<Rightarrow> db \<Rightarrow> marketOrder" where
  "newOrder E input orderRegionId reservedCash reservedQty tick d =
     \<lparr>ord_id = newId E d, ord_companyId = po_companyId input, ord_itemId = po_itemId input,
      ord_regionId = orderRegionId, ord_side = po_side input, ord_status = OrderOPEN,
      ord_quantity = num (po_quantity input), ord_remainingQuantity = num (po_quantity input),
      ord_unitPriceCents = po_unitPriceCents input, ord_reservedCashCents = reservedCash,
      ord_reservedQuantity = reservedQty, ord_tickPlaced = tick, ord_tickClosed = None,
      ord_createdAt = currentTime E d, ord_closedAt = None\<rparr>"

definition placeBuyOrder ::
    "env \<Rightarrow> placeMarketOrderInput \<Rightarrow> company \<Rightarrow> string \<Rightarrow> int \<Rightarrow> db \<Rightarrow> (marketOrder \<times> db) result" where
  "placeBuyOrder E input company orderRegionId tick d =
     andThen (reserveCashForBuyOrder
       \<lparr>cashCents = co_cashCents company, reservedCashCents = co_reservedCashCents company\<rparr>
       (po_quantity input) (po_unitPriceCents input)) (\<lambda>cashState.
     (let reservedCash = reservedCashCents cashState - co_reservedCashCents company in
      andThen (updateCompany (co_id company)
        (\<lambda>c. c\<lparr>co_reservedCashCents := reservedCashCents cashState\<rparr>) d) (\<lambda>(_, d).
      andThen (createMarketOrder
        (newOrder E input orderRegionId reservedCash 0 tick d) d) (\<lambda>(order, d).
      andThen (createLedgerEntry E (co_id company) tick ORDER_RESERVE 0 reservedCash
        (co_cashCents company) ''MARKET_ORDER_BUY_RESERVE'' (ord_id order) d) (\<lambda>d.
      Inr (order, d))))))"

definition placeSellOrder ::
    "env \<Rightarrow> placeMarketOrderInput \<Rightarrow> string \<Rightarrow> int \<Rightarrow> db \<Rightarrow> (marketOrder \<times> db) result" where
  "placeSellOrder E input orderRegionId tick d =
     (case findInventory (po_companyId input) (po_itemId input) orderRegionId d of
       None \<Rightarrow> Inl (DomainInvariantError (''company '' @ po_companyId input @
                 '' has no inventory row for item '' @ po_itemId input))
     | Some inventory \<Rightarrow>
       andThen (reserveInventoryForSellOrder
         \<lparr>quantity = IntN (inv_quantity inventory),
          reservedQuantity = IntN (inv_reservedQuantity inventory)\<rparr>
         (po_quantity input)) (\<lambda>inventoryState.
       andThen (updateInventory (invKey inventory)
         (\<lambda>r. r\<lparr>inv_reservedQuantity := num (reservedQuantity inventoryState)\<rparr>) d) (\<lambda>(_, d).
       createMarketOrder
         (newOrder E input orderRegionId 0 (num (po_quantity input)) tick d) d)))"

definition placeMarketOrderWithTx ::
    "env \<Rightarrow> placeMarketOrderInput \<Rightarrow> db \<Rightarrow> (marketOrder \<times> db) result" where
  "placeMarketOrderWithTx E input d =
     andThen (validateOrderInput input) (\<lambda>_.
     (let tick = resolveTick (po_tick input) d in
      case findCompany (po_companyId input) d of
        None \<Rightarrow> Inl (NotFoundError (''company '' @ po_companyId input @ '' not found''))
      | Some company \<Rightarrow>
      (case findItem (po_itemId input) d of
        None \<Rightarrow> Inl (NotFoundError (''item '' @ po_itemId input @ '' not found''))
      | Some item \<Rightarrow>
        andThen (checkItemAccess input company item d) (\<lambda>_.
        (let orderRegionId =
               (case po_regionId input of None \<Rightarrow> co_regionId company | Some r \<Rightarrow> r) in
         if orderRegionId \<noteq> co_regionId company
           then Inl (ForbiddenError ''company can place market orders only in its own region'')
         else if po_side input = BUY then placeBuyOrder E input company orderRegionId tick d
         else placeSellOrder E input orderRegionId tick d)))))"

definition placeMarketOrder ::
    "env \<Rightarrow> placeMarketOrderInput \<Rightarrow> db \<Rightarrow> marketOrder result \<times> db" where
  "placeMarketOrder E input d =
     (case validateOrderInput input of
       Inl e \<Rightarrow> (Inl e, d)
     | Inr _ \<Rightarrow> transaction (placeMarketOrderWithTx E input) d)"

subsection \<open>Cancellation\<close>

definition releaseBuyReserve :: "env \<Rightarrow> marketOrder \<Rightarrow> int \<Rightarrow> db \<Rightarrow> db result" where
  "releaseBuyReserve E order tick d =
     (if \<not> (ord_side order = BUY \<and> ord_reservedCashCents order > 0) then Inr d
      else
        (case findCompany (ord_companyId order) d of
          None \<Rightarrow> Inl (NotFoundError (''company '' @ ord_companyId order @ '' not found''))
        | Some company \<Rightarrow>
          (let nextReservedCash = co_reservedCashCents company - ord_reservedCashCents order in
           if nextReservedCash < 0
             then Inl (DomainInvariantError ''company reserved cash cannot become negative'')
           else
             andThen (updateCompany (co_id company)
               (\<lambda>c. c\<lparr>co_reservedCashCents := nextReservedCash\<rparr>) d) (\<lambda>(_, d).
             createLedgerEntry E (co_id company) tick ORDER_RESERVE 0
               (- ord_reservedCashCents order) (co_cashCents company)
               ''MARKET_ORDER_BUY_RELEASE'' (ord_id order) d))))"

definition releaseSellReserve :: "marketOrder \<Rightarrow> db \<Rightarrow> db result" where
  "releaseSellReserve order d =
     (if \<not> (ord_side order = SELL \<and> ord_reservedQuantity order > 0) then Inr d
      else
        (case findInventory (ord_companyId order) (ord_itemId order) (ord_regionId order) d of
          None \<Rightarrow> Inl (DomainInvariantError (''company '' @ ord_companyId order @
                    '' has no inventory row for item '' @ ord_itemId order))
        | Some inventory \<Rightarrow>
          (let nextReservedQuantity =
                 inv_reservedQuantity inventory - ord_reservedQuantity order in
           if nextReservedQuantity < 0
             then Inl (DomainInvariantError ''inventory reserved quantity cannot become negative'')
           else
             andThen (updateInventory (invKey inventory)
               (\<lambda>r. r\<lparr>inv_reservedQuantity := nextReservedQuantity\<rparr>) d) (\<lambda>(_, d). Inr d))))"

definition cancelMarketOrderWithTx ::
    "env \<Rightarrow> cancelMarketOrderInput \<Rightarrow> db \<Rightarrow> (marketOrder \<times> db) result" where
  "cancelMarketOrderWithTx E input d =
     andThen (validateCancelInput input) (\<lambda>_.
     (let tick = resolveTick (xo_tick input) d in
      case rowFind ord_id (xo_orderId input) (marketOrders d) of
        None \<Rightarrow> Inl (NotFoundError (''market order '' @ xo_orderId input @ '' not found''))
      | Some existingOrder \<Rightarrow>
        if ord_status existingOrder \<noteq> OrderOPEN then Inr (existingOrder, d)
        else
          andThen (releaseBuyReserve E existingOrder tick d) (\<lambda>d.
          andThen (releaseSellReserve existingOrder d) (\<lambda>d.
          updateMarketOrder (ord_id existingOrder)
            (\<lambda>row. row\<lparr>ord_status := OrderCANCELLED, ord_tickClosed := Some tick,
              ord_closedAt := Some (currentTime E d), ord_reservedCashCents := 0,
              ord_reservedQuantity := 0\<rparr>) d))))"

definition cancelMarketOrder ::
    "env \<Rightarrow> cancelMarketOrderInput \<Rightarrow> db \<Rightarrow> marketOrder result \<times> db" where
  "cancelMarketOrder E input d =
     (case validateCancelInput input of
       Inl e \<Rightarrow> (Inl e, d)
     | Inr _ \<Rightarrow> transaction (cancelMarketOrderWithTx E input) d)"

subsection \<open>What the handlers do\<close>

lemma validateOrderInput_iff [result_simps]:
  "validateOrderInput input = Inr u \<longleftrightarrow>
     po_companyId input \<noteq> [] \<and> po_itemId input \<noteq> [] \<and> po_regionId input \<noteq> Some [] \<and>
     isInteger (po_quantity input) \<and> 0 < num (po_quantity input) \<and> 0 < po_unitPriceCents input \<and>
     \<not> badTick (po_tick input)"
  by (auto simp: validateOrderInput_def)

lemma checkItemAccess_iff [result_simps]:
  "checkItemAccess input company item d = Inr u \<longleftrightarrow>
     (co_isPlayer company \<longrightarrow>
       \<not> isItemCodeLockedByIconTier (it_code item)
           (resolvePlayerUnlockedIconTierFromResearchCodes
             (completedResearchCodes (po_companyId input) d)) \<and>
       \<not> (po_side input = SELL \<and>
           isItemCodeLockedBySpecialization (it_code item) (co_specialization company)))"
  by (auto simp: checkItemAccess_def Let_def)

lemma placeBuyOrder_iff:
  assumes "findCompany (co_id c) d = Some c"
  shows "placeBuyOrder E input c rid tick d = Inr (x, d') \<Longrightarrow>
     isInteger (po_quantity input) \<and> 0 < num (po_quantity input) \<and> 0 < po_unitPriceCents input \<and>
     companyOk c \<and>
     num (po_quantity input) * po_unitPriceCents input
       \<le> co_cashCents c - co_reservedCashCents c \<and>
     x = newOrder E input rid (num (po_quantity input) * po_unitPriceCents input) 0 tick d \<and>
     rowFind ord_id (newId E d) (marketOrders d) = None \<and>
     companies d' = rowSet co_id (co_id c)
       (\<lambda>c'. c'\<lparr>co_reservedCashCents := co_reservedCashCents c +
          num (po_quantity input) * po_unitPriceCents input\<rparr>) (companies d) \<and>
     marketOrders d' = marketOrders d @ [x] \<and> inventories d' = inventories d \<and>
     db_seq d' = db_seq d + 2"
  using assms
  by (auto simp: placeBuyOrder_def result_simps Let_def reserveCash_iff newOrder_def newId_def
      currentTime_def companyOk_def)

lemma placeSellOrder_iff:
  "placeSellOrder E input rid tick d = Inr (x, d') \<Longrightarrow>
     \<exists>r. findInventory (po_companyId input) (po_itemId input) rid d = Some r \<and>
     isInteger (po_quantity input) \<and> 0 < num (po_quantity input) \<and> inventoryOk r \<and>
     num (po_quantity input) \<le> inv_quantity r - inv_reservedQuantity r \<and>
     x = newOrder E input rid 0 (num (po_quantity input)) tick d \<and>
     rowFind ord_id (newId E d) (marketOrders d) = None \<and>
     companies d' = companies d \<and> marketOrders d' = marketOrders d @ [x] \<and>
     inventories d' = rowSet invKey (invKey r)
       (\<lambda>r'. r'\<lparr>inv_reservedQuantity := inv_reservedQuantity r + num (po_quantity input)\<rparr>)
       (inventories d)"
  by (auto simp: placeSellOrder_def result_simps Let_def reserveInventory_iff newOrder_def newId_def
      currentTime_def inventoryOk_def split: option.splits)

text \<open>An accepted placement took one of the two branches with the input's company.\<close>

lemma placeMarketOrder_cases:
  assumes "placeMarketOrderWithTx E input d = Inr (x, d')"
  obtains c tick where "findCompany (po_companyId input) d = Some c" "po_side input = BUY"
      "0 < po_unitPriceCents input"
      "placeBuyOrder E input c (co_regionId c) tick d = Inr (x, d')"
  | c tick where "findCompany (po_companyId input) d = Some c" "po_side input = SELL"
      "0 < po_unitPriceCents input"
      "placeSellOrder E input (co_regionId c) tick d = Inr (x, d')"
  using assms
  by (cases "po_side input")
    (auto simp: placeMarketOrderWithTx_def result_simps Let_def split: option.splits if_splits)

lemma marketOk_place:
  assumes "placeMarketOrderWithTx E input d = Inr (x, d')" and "marketOk d"
  shows "marketOk d'"
  using assms(1)
proof (cases rule: placeMarketOrder_cases)
  case (1 c tick)
  let ?r = "num (po_quantity input) * po_unitPriceCents input"
  let ?f = "\<lambda>c'. c'\<lparr>co_reservedCashCents := co_reservedCashCents c + ?r\<rparr>"
  note ok = marketOkD [OF assms(2)]
  have c: "findCompany (co_id c) d = Some c" using 1(1) rowFind_key by fastforce
  note p = placeBuyOrder_iff [OF c 1(4)]
  from p have pos: "0 < ?r" using 1(3) by simp
  have "rowsOk co_id companyOk (companies d')"
    using p rowsOk_rowSet [OF economyOk_companies [OF ok(1)] c, of ?f] pos
    by (simp add: companyOk_iff)
  moreover have "rowsOk ord_id orderOk (marketOrders d')"
    using p rowsOk_append [OF ok(2), of x] 1(2,3) by (simp add: newOrder_def orderOk_def)
  moreover have "cashBacked d'"
  proof (rule cashBacked_shift [OF ok(3) _ c, where f = ?f and \<delta> = ?r])
    show "distinct (map co_id (companies d))" using ok(1) by (auto simp: economyOk_def rowsOk_def)
    show "orderReserve k d' = orderReserve k d + (if k = co_id c then ?r else 0)" for k
      using p orderReserve_append [of d' d x] rowFind_key [OF 1(1)] by (simp add: newOrder_def)
  qed (use p in simp_all)
  ultimately show ?thesis using p ok(1) by (simp add: marketOk_def economyOk_def)
next
  case (2 c tick)
  note ok = marketOkD [OF assms(2)]
  from placeSellOrder_iff [OF 2(4)] obtain r where
    r: "findInventory (po_companyId input) (po_itemId input) (co_regionId c) d = Some r"
    and p: "0 < num (po_quantity input)" "inventoryOk r"
      "num (po_quantity input) \<le> inv_quantity r - inv_reservedQuantity r"
      "x = newOrder E input (co_regionId c) 0 (num (po_quantity input)) tick d"
      "rowFind ord_id (newId E d) (marketOrders d) = None"
      "companies d' = companies d" "marketOrders d' = marketOrders d @ [x]"
      "inventories d' = rowSet invKey (invKey r)
         (\<lambda>r'. r'\<lparr>inv_reservedQuantity := inv_reservedQuantity r + num (po_quantity input)\<rparr>)
         (inventories d)"
    by blast
  let ?f = "\<lambda>r'. r'\<lparr>inv_reservedQuantity := inv_reservedQuantity r + num (po_quantity input)\<rparr>"
  have k: "rowFind invKey (invKey r) (inventories d) = Some r" using r rowFind_key by fastforce
  have "rowsOk invKey inventoryOk (inventories d')"
    using rowsOk_rowSet [OF economyOk_inventories [OF ok(1)] k, of ?f] p
    by (simp add: inventoryOk_iff invKey_def)
  moreover have "rowsOk ord_id orderOk (marketOrders d')"
    using p rowsOk_append [OF ok(2), of x] 2(2,3) by (simp add: newOrder_def orderOk_def)
  moreover have "cashBacked d'"
    using ok(3) p orderReserve_append [of d' d x] by (simp add: cashBacked_def newOrder_def)
  ultimately show ?thesis using p ok(1) by (simp add: marketOk_def economyOk_def)
qed

text \<open>Cancellation: the two releases and the closing of the order.\<close>

lemma cancelMarketOrder_cases:
  assumes "cancelMarketOrderWithTx E input d = Inr (x, d')"
  obtains
    "rowFind ord_id (xo_orderId input) (marketOrders d) = Some x" "ord_status x \<noteq> OrderOPEN" "d' = d"
  | y d1 d2 tick where "rowFind ord_id (xo_orderId input) (marketOrders d) = Some y"
      "ord_status y = OrderOPEN" "releaseBuyReserve E y tick d = Inr d1"
      "releaseSellReserve y d1 = Inr d2"
      "updateMarketOrder (ord_id y)
            (\<lambda>row. row\<lparr>ord_status := OrderCANCELLED, ord_tickClosed := Some tick,
              ord_closedAt := Some (currentTime E d2), ord_reservedCashCents := 0,
              ord_reservedQuantity := 0\<rparr>) d2 = Inr (x, d')"
  using assms
  by (auto simp: cancelMarketOrderWithTx_def result_simps Let_def split: option.splits if_splits)

lemma releaseBuyReserve_Inr:
  assumes "releaseBuyReserve E y tick d = Inr d1" and "ord_side y = BUY" "0 < ord_reservedCashCents y"
  shows "\<exists>c. findCompany (ord_companyId y) d = Some c \<and> co_id c = ord_companyId y \<and>
    ord_reservedCashCents y \<le> co_reservedCashCents c \<and>
    companies d1 = rowSet co_id (ord_companyId y)
      (\<lambda>c'. c'\<lparr>co_reservedCashCents := co_reservedCashCents c - ord_reservedCashCents y\<rparr>)
      (companies d) \<and>
    inventories d1 = inventories d \<and> marketOrders d1 = marketOrders d"
  using assms
  by (auto simp: releaseBuyReserve_def result_simps Let_def split: option.splits if_splits
      dest: rowFind_key)

lemma releaseBuyReserve_skip:
  "\<not> (ord_side y = BUY \<and> 0 < ord_reservedCashCents y) \<Longrightarrow> releaseBuyReserve E y tick d = Inr d1 \<Longrightarrow> d1 = d"
  by (auto simp: releaseBuyReserve_def)

lemma releaseSellReserve_Inr:
  assumes "releaseSellReserve y d = Inr d1" and "ord_side y = SELL" "0 < ord_reservedQuantity y"
  shows "\<exists>r. findInventory (ord_companyId y) (ord_itemId y) (ord_regionId y) d = Some r \<and>
    ord_reservedQuantity y \<le> inv_reservedQuantity r \<and>
    inventories d1 = rowSet invKey (ord_companyId y, ord_itemId y, ord_regionId y)
      (\<lambda>r'. r'\<lparr>inv_reservedQuantity := inv_reservedQuantity r - ord_reservedQuantity y\<rparr>)
      (inventories d) \<and>
    companies d1 = companies d \<and> marketOrders d1 = marketOrders d"
  using assms
  by (auto simp: releaseSellReserve_def result_simps Let_def split: option.splits if_splits
      dest: rowFind_key)

lemma releaseSellReserve_skip:
  "\<not> (ord_side y = SELL \<and> 0 < ord_reservedQuantity y) \<Longrightarrow> releaseSellReserve y d = Inr d1 \<Longrightarrow> d1 = d"
  by (auto simp: releaseSellReserve_def)

definition closedOrder :: "int \<Rightarrow> int \<Rightarrow> marketOrder \<Rightarrow> marketOrder" where
  "closedOrder tick time x =
     x\<lparr>ord_status := OrderCANCELLED, ord_tickClosed := Some tick, ord_closedAt := Some time,
       ord_reservedCashCents := 0, ord_reservedQuantity := 0\<rparr>"

lemma closedOrder_simps [simp]:
  "ord_id (closedOrder t n x) = ord_id x" "ord_companyId (closedOrder t n x) = ord_companyId x"
  "ord_status (closedOrder t n x) = OrderCANCELLED"
  "ord_reservedCashCents (closedOrder t n x) = 0"
  by (simp_all add: closedOrder_def)

lemma orderOk_closed: "orderOk x \<Longrightarrow> orderOk (closedOrder t n x)"
  by (simp add: orderOk_def closedOrder_def)

lemma cancel_open_effect:
  assumes "cancelMarketOrderWithTx E input d = Inr (x, d')" and "marketOk d"
    and "rowFind ord_id (xo_orderId input) (marketOrders d) = Some y" "ord_status y = OrderOPEN"
  shows "\<exists>t n. x = closedOrder t n y \<and>
    marketOrders d' = rowSet ord_id (xo_orderId input) (closedOrder t n) (marketOrders d) \<and>
    (if ord_side y = BUY
     then \<exists>c. findCompany (ord_companyId y) d = Some c \<and>
        ord_reservedCashCents y \<le> co_reservedCashCents c \<and>
        companies d' = rowSet co_id (ord_companyId y)
          (\<lambda>c'. c'\<lparr>co_reservedCashCents := co_reservedCashCents c - ord_reservedCashCents y\<rparr>)
          (companies d) \<and>
        inventories d' = inventories d
     else \<exists>r. findInventory (ord_companyId y) (ord_itemId y) (ord_regionId y) d = Some r \<and>
        ord_reservedQuantity y \<le> inv_reservedQuantity r \<and>
        inventories d' = rowSet invKey (ord_companyId y, ord_itemId y, ord_regionId y)
          (\<lambda>r'. r'\<lparr>inv_reservedQuantity := inv_reservedQuantity r - ord_reservedQuantity y\<rparr>)
          (inventories d) \<and>
        companies d' = companies d)"
  using assms(1)
proof (cases rule: cancelMarketOrder_cases)
  case 1
  then show ?thesis using assms(3,4) by simp
next
  case (2 z d1 d2 tick)
  then have z: "z = y" using assms(3) by simp
  have ok: "orderOk y" using marketOkD(2) [OF assms(2)] assms(3) by (rule rowsOk_find)
  have id: "ord_id y = xo_orderId input" using assms(3) by (rule rowFind_key)
  let ?cl = "closedOrder tick (currentTime E d2)"
  have f: "(\<lambda>row. row\<lparr>ord_status := OrderCANCELLED, ord_tickClosed := Some tick,
      ord_closedAt := Some (currentTime E d2), ord_reservedCashCents := 0,
      ord_reservedQuantity := 0\<rparr>) = ?cl"
    by (rule ext) (simp add: closedOrder_def)
  have up: "\<exists>w. rowFind ord_id (xo_orderId input) (marketOrders d2) = Some w \<and> x = ?cl w \<and>
      marketOrders d' = rowSet ord_id (xo_orderId input) ?cl (marketOrders d2) \<and>
      companies d' = companies d2 \<and> inventories d' = inventories d2"
    using 2(5) unfolding f by (auto simp: z id result_simps)
  show ?thesis
  proof (cases "ord_side y")
    case BUY
    with ok assms(4) have "0 < ord_reservedCashCents y" by (simp add: orderOk_def)
    from releaseBuyReserve_Inr [OF 2(3)] z BUY this
    obtain c where c: "findCompany (ord_companyId y) d = Some c"
      "ord_reservedCashCents y \<le> co_reservedCashCents c"
      "companies d1 = rowSet co_id (ord_companyId y)
         (\<lambda>c'. c'\<lparr>co_reservedCashCents := co_reservedCashCents c - ord_reservedCashCents y\<rparr>)
         (companies d)"
      "inventories d1 = inventories d" "marketOrders d1 = marketOrders d"
      by blast
    have "d2 = d1" using releaseSellReserve_skip [OF _ 2(4)] z BUY by simp
    with up c assms(3) have "x = ?cl y \<and>
      marketOrders d' = rowSet ord_id (xo_orderId input) ?cl (marketOrders d)" by simp
    moreover have "ord_side y = BUY" by (rule BUY)
    ultimately show ?thesis using up c \<open>d2 = d1\<close>
      by - (rule exI [of _ tick], rule exI [of _ "currentTime E d2"], auto)
  next
    case SELL
    with ok assms(4) have "0 < ord_reservedQuantity y" by (simp add: orderOk_def)
    have d1: "d1 = d" using releaseBuyReserve_skip [OF _ 2(3)] z SELL by simp
    from releaseSellReserve_Inr [OF 2(4)] z SELL \<open>0 < ord_reservedQuantity y\<close> d1
    obtain r where r: "findInventory (ord_companyId y) (ord_itemId y) (ord_regionId y) d = Some r"
      "ord_reservedQuantity y \<le> inv_reservedQuantity r"
      "inventories d2 = rowSet invKey (ord_companyId y, ord_itemId y, ord_regionId y)
         (\<lambda>r'. r'\<lparr>inv_reservedQuantity := inv_reservedQuantity r - ord_reservedQuantity y\<rparr>)
         (inventories d)"
      "companies d2 = companies d" "marketOrders d2 = marketOrders d"
      by blast
    with up assms(3) have "x = ?cl y \<and>
      marketOrders d' = rowSet ord_id (xo_orderId input) ?cl (marketOrders d)" by simp
    then show ?thesis using up r SELL
      by - (rule exI [of _ tick], rule exI [of _ "currentTime E d2"], auto)
  qed
qed

lemma marketOk_cancel:
  assumes "cancelMarketOrderWithTx E input d = Inr (x, d')" and "marketOk d"
  shows "marketOk d'"
  using assms(1)
proof (cases rule: cancelMarketOrder_cases)
  case 1
  then show ?thesis using assms(2) by simp
next
  case (2 y d1 d2 tick)
  note ok = marketOkD [OF assms(2)]
  have oky: "orderOk y" using ok(2) 2(1) by (rule rowsOk_find)
  from cancel_open_effect [OF assms 2(1,2)] obtain t n where
    mo: "marketOrders d' = rowSet ord_id (xo_orderId input) (closedOrder t n) (marketOrders d)"
    by blast
  have orders: "rowsOk ord_id orderOk (marketOrders d')"
    using rowsOk_rowSet [OF ok(2) 2(1), of "closedOrder t n"] orderOk_closed [OF oky] mo by simp
  have res: "orderReserve k d' = orderReserve k d +
      (if k = ord_companyId y then - ord_reservedCashCents y else 0)" for k
    using orderReserve_rowSet [OF mo rowsOk_distinct [OF ok(2)] 2(1)] by simp
  show ?thesis
  proof (cases "ord_side y")
    case BUY
    from cancel_open_effect [OF assms 2(1,2)] BUY obtain c where
      c: "findCompany (ord_companyId y) d = Some c"
        "ord_reservedCashCents y \<le> co_reservedCashCents c"
      and p: "companies d' = rowSet co_id (ord_companyId y)
          (\<lambda>c'. c'\<lparr>co_reservedCashCents := co_reservedCashCents c - ord_reservedCashCents y\<rparr>)
          (companies d)" "inventories d' = inventories d"
      by auto
    let ?f = "\<lambda>c'. c'\<lparr>co_reservedCashCents := co_reservedCashCents c - ord_reservedCashCents y\<rparr>"
    have pos: "0 \<le> ord_reservedCashCents y" using oky 2(2) BUY by (simp add: orderOk_def)
    have "companyOk c" using rowsOk_find [OF economyOk_companies [OF ok(1)] c(1)] .
    then have "rowsOk co_id companyOk (companies d')"
      using p(1) rowsOk_rowSet [OF economyOk_companies [OF ok(1)] c(1), of ?f] c(2) pos
      by (simp add: companyOk_iff)
    moreover have "cashBacked d'"
      by (rule cashBacked_shift [OF ok(3) _ c(1), where f = ?f and \<delta> = "- ord_reservedCashCents y"])
        (use p res ok(1) in \<open>auto simp: economyOk_def rowsOk_def\<close>)
    ultimately show ?thesis using p(2) orders ok(1) by (simp add: marketOk_def economyOk_def)
  next
    case SELL
    from cancel_open_effect [OF assms 2(1,2)] SELL obtain r where
      r: "findInventory (ord_companyId y) (ord_itemId y) (ord_regionId y) d = Some r"
        "ord_reservedQuantity y \<le> inv_reservedQuantity r"
      and p: "inventories d' = rowSet invKey (ord_companyId y, ord_itemId y, ord_regionId y)
          (\<lambda>r'. r'\<lparr>inv_reservedQuantity := inv_reservedQuantity r - ord_reservedQuantity y\<rparr>)
          (inventories d)" "companies d' = companies d"
      by auto
    let ?f = "\<lambda>r'. r'\<lparr>inv_reservedQuantity := inv_reservedQuantity r - ord_reservedQuantity y\<rparr>"
    have pos: "0 \<le> ord_reservedQuantity y" "ord_reservedCashCents y = 0"
      using oky 2(2) SELL by (simp_all add: orderOk_def)
    have "inventoryOk r" using rowsOk_find [OF economyOk_inventories [OF ok(1)] r(1)] .
    then have "rowsOk invKey inventoryOk (inventories d')"
      using p(1) rowsOk_rowSet [OF economyOk_inventories [OF ok(1)] r(1), of ?f] r(2) pos
      by (simp add: inventoryOk_iff invKey_def)
    moreover have "cashBacked d'"
      using ok(3) p(2) res pos by (simp add: cashBacked_def)
    ultimately show ?thesis using p(2) orders ok(1) by (simp add: marketOk_def economyOk_def)
  qed
qed

subsection \<open>Properties\<close>

definition fixtureBuy :: placeMarketOrderInput where
  "fixtureBuy = \<lparr>po_companyId = ''b'', po_itemId = ''coal'', po_regionId = None, po_side = BUY,
     po_quantity = IntN 10, po_unitPriceCents = 250, po_tick = None\<rparr>"

text \<open>
  An accepted buy order was affordable from the company's free cash; the order is appended
  open with its full quantity and reserves quantity times price, the company's reserved cash
  grows by exactly that, no cash moves and no inventory changes.
\<close>

theorem buy_order_effect:
  assumes "placeMarketOrderWithTx E input d = Inr (x, d')" and "po_side input = BUY"
  shows "\<exists>c. findCompany (po_companyId input) d = Some c \<and>
    (let r = num (po_quantity input) * po_unitPriceCents input in
     0 < r \<and> r \<le> co_cashCents c - co_reservedCashCents c \<and>
     ord_status x = OrderOPEN \<and> ord_remainingQuantity x = num (po_quantity input) \<and>
     ord_reservedCashCents x = r \<and> marketOrders d' = marketOrders d @ [x] \<and>
     companies d' = rowSet co_id (po_companyId input)
       (\<lambda>c'. c'\<lparr>co_reservedCashCents := co_reservedCashCents c + r\<rparr>) (companies d) \<and>
     inventories d' = inventories d)"
  using assms(1)
proof (cases rule: placeMarketOrder_cases)
  case (1 c tick)
  have id: "co_id c = po_companyId input" using 1(1) by (rule rowFind_key)
  with 1(1) have "findCompany (co_id c) d = Some c" by simp
  from placeBuyOrder_iff [OF this 1(4)] 1(1,3) id show ?thesis by (simp add: newOrder_def Let_def)
next
  case (2 c tick)
  then show ?thesis using assms(2) by simp
qed

theorem buy_order_effect_witness:
  "\<exists>x d' c. placeMarketOrderWithTx fixtureEnv fixtureBuy fixtureDb = Inr (x, d') \<and>
     findCompany ''b'' fixtureDb = Some c \<and> 2500 \<le> co_cashCents c - co_reservedCashCents c \<and>
     ord_reservedCashCents x = 2500"
proof -
  have "returns (placeMarketOrderWithTx fixtureEnv fixtureBuy fixtureDb)" by code_simp
  then obtain x d' where p: "placeMarketOrderWithTx fixtureEnv fixtureBuy fixtureDb = Inr (x, d')"
    by (auto simp: returns_iff)
  have input: "po_side fixtureBuy = BUY" "num (po_quantity fixtureBuy) * po_unitPriceCents fixtureBuy = 2500"
    "po_companyId fixtureBuy = ''b''" by (simp_all add: fixtureBuy_def)
  from buy_order_effect [OF p input(1)] show ?thesis unfolding input Let_def using p by blast
qed

text \<open>
  C29. Cancelling undoes placing: after an accepted placement, the cancellation of the new order
  returns it closed and leaves every company and every inventory row as before the placement.
\<close>

theorem cancel_undoes_place:
  assumes "marketOk d" and "placeMarketOrderWithTx E input d = Inr (x, d1)"
    and "cancelMarketOrderWithTx E \<lparr>xo_orderId = ord_id x, xo_tick = t\<rparr> d1 = Inr (y, d2)"
  shows "companies d2 = companies d \<and> inventories d2 = inventories d \<and>
    marketOrders d2 = marketOrders d @ [y] \<and> ord_id y = ord_id x \<and>
    ord_status y = OrderCANCELLED \<and> ord_reservedCashCents y = 0 \<and> ord_reservedQuantity y = 0"
proof -
  have ok1: "marketOk d1" using assms(1,2) by (rule marketOk_place [rotated])
  note dist = rowsOk_distinct [OF economyOk_companies [OF marketOkD(1) [OF assms(1)]]]
    rowsOk_distinct [OF economyOk_inventories [OF marketOkD(1) [OF assms(1)]]]
  have fresh: "rowFind ord_id (ord_id x) (marketOrders d) = None \<and> ord_status x = OrderOPEN \<and>
      marketOrders d1 = marketOrders d @ [x]"
    using assms(2)
  proof (cases rule: placeMarketOrder_cases)
    case (1 c tick)
    have "findCompany (co_id c) d = Some c" using 1(1) rowFind_key [OF 1(1)] by simp
    from placeBuyOrder_iff [OF this 1(4)] show ?thesis by (simp add: newOrder_def)
  next
    case (2 c tick)
    from placeSellOrder_iff [OF 2(4)] show ?thesis by (auto simp: newOrder_def)
  qed
  then have find: "rowFind ord_id (xo_orderId \<lparr>xo_orderId = ord_id x, xo_tick = t\<rparr>)
      (marketOrders d1) = Some x" "ord_status x = OrderOPEN"
    by (simp_all add: rowFind_append)
  from cancel_open_effect [OF assms(3) ok1 find] obtain tk n where y: "y = closedOrder tk n x"
    and mo: "marketOrders d2 = rowSet ord_id (ord_id x) (closedOrder tk n) (marketOrders d1)"
    by auto
  have "marketOrders d2 = marketOrders d @ [y]"
    using mo fresh y by (simp add: rowSet_absent rowFind_None [symmetric])
  moreover have "companies d2 = companies d \<and> inventories d2 = inventories d"
    using assms(2)
  proof (cases rule: placeMarketOrder_cases)
    case (1 c tick)
    have c: "findCompany (co_id c) d = Some c" using 1(1) rowFind_key [OF 1(1)] by simp
    note p = placeBuyOrder_iff [OF this 1(4)]
    from cancel_open_effect [OF assms(3) ok1 find] p 1(2) rowFind_key [OF 1(1)]
    obtain c1 where "companies d2 = rowSet co_id (co_id c)
        (\<lambda>c'. c'\<lparr>co_reservedCashCents := co_reservedCashCents c1 -
           num (po_quantity input) * po_unitPriceCents input\<rparr>) (companies d1)"
      "findCompany (co_id c) d1 = Some c1" "inventories d2 = inventories d1"
      by (auto simp: newOrder_def)
    with p c dist(1) show ?thesis
      by (auto simp: rowFind_rowSet rowSet_rowSet intro!: rowSet_found_id)
  next
    case (2 c tick)
    from placeSellOrder_iff [OF 2(4)] obtain r where
      r: "findInventory (po_companyId input) (po_itemId input) (co_regionId c) d = Some r"
      and p: "x = newOrder E input (co_regionId c) 0 (num (po_quantity input)) tick d"
        "companies d1 = companies d"
        "inventories d1 = rowSet invKey (invKey r)
         (\<lambda>r'. r'\<lparr>inv_reservedQuantity := inv_reservedQuantity r + num (po_quantity input)\<rparr>)
         (inventories d)"
      by blast
    from r have k: "rowFind invKey (invKey r) (inventories d) = Some r"
      "invKey r = (po_companyId input, po_itemId input, co_regionId c)"
      using rowFind_key [OF r] by simp_all
    from cancel_open_effect [OF assms(3) ok1 find] p 2(2) k
    obtain r1 where "inventories d2 = rowSet invKey (invKey r)
        (\<lambda>r'. r'\<lparr>inv_reservedQuantity := inv_reservedQuantity r1 - num (po_quantity input)\<rparr>)
        (inventories d1)"
      "rowFind invKey (invKey r) (inventories d1) = Some r1" "companies d2 = companies d1"
      by (auto simp: newOrder_def)
    with p k dist(2) show ?thesis
      by (auto simp: rowFind_rowSet rowSet_rowSet invKey_def intro!: rowSet_found_id)
  qed
  ultimately show ?thesis using y by (simp add: closedOrder_def)
qed

theorem cancel_undoes_place_witness:
  "\<exists>x d1 y d2. placeMarketOrderWithTx fixtureEnv fixtureBuy fixtureDb = Inr (x, d1) \<and>
     cancelMarketOrderWithTx fixtureEnv \<lparr>xo_orderId = ord_id x, xo_tick = None\<rparr> d1 = Inr (y, d2) \<and>
     companies d2 = companies fixtureDb"
proof -
  have "returns (andThen (placeMarketOrderWithTx fixtureEnv fixtureBuy fixtureDb) (\<lambda>(x, d1).
      cancelMarketOrderWithTx fixtureEnv \<lparr>xo_orderId = ord_id x, xo_tick = None\<rparr> d1))"
    by code_simp
  then obtain x d1 y d2 where
    p: "placeMarketOrderWithTx fixtureEnv fixtureBuy fixtureDb = Inr (x, d1)"
    and c: "cancelMarketOrderWithTx fixtureEnv \<lparr>xo_orderId = ord_id x, xo_tick = None\<rparr> d1 = Inr (y, d2)"
    by (auto simp: returns_iff andThen_Inr_iff)
  from cancel_undoes_place [OF fixture_marketOk p c] p c show ?thesis by blast
qed

text \<open>
  Cancelling is idempotent: when a cancellation returned, repeating it (at any later time)
  returns the same order and changes nothing.
\<close>

theorem cancel_idempotent:
  assumes "distinct (map ord_id (marketOrders d))"
    and "cancelMarketOrderWithTx E input d = Inr (x, d1)"
  shows "cancelMarketOrderWithTx E' input d1 = Inr (x, d1)"
  using assms(2)
proof (cases rule: cancelMarketOrder_cases)
  case 1
  then show ?thesis using assms(2) by (auto simp: cancelMarketOrderWithTx_def result_simps)
next
  case (2 y e1 e2 tick)
  have "rowFind ord_id (xo_orderId input) (marketOrders d1) = Some x \<and>
      ord_status x = OrderCANCELLED"
    using 2(5) rowFind_key [OF 2(1)] by (auto simp: result_simps rowFind_rowSet)
  then show ?thesis using assms(2) by (auto simp: cancelMarketOrderWithTx_def result_simps)
qed

theorem cancel_idempotent_witness:
  "\<exists>x d1. cancelMarketOrderWithTx fixtureEnv \<lparr>xo_orderId = ''o1'', xo_tick = None\<rparr> fixtureDb = Inr (x, d1) \<and>
     cancelMarketOrderWithTx fixtureEnv \<lparr>xo_orderId = ''o1'', xo_tick = None\<rparr> d1 = Inr (x, d1)"
proof -
  have "returns (cancelMarketOrderWithTx fixtureEnv \<lparr>xo_orderId = ''o1'', xo_tick = None\<rparr> fixtureDb)"
    by code_simp
  then obtain x d1 where
    c: "cancelMarketOrderWithTx fixtureEnv \<lparr>xo_orderId = ''o1'', xo_tick = None\<rparr> fixtureDb = Inr (x, d1)"
    by (auto simp: returns_iff)
  have "distinct (map ord_id (marketOrders fixtureDb))" by code_simp
  from cancel_idempotent [OF this c] c show ?thesis by blast
qed

text \<open>
  C19. Whatever the input, and whether the request is accepted or refused, placing and
  cancelling keep the market's invariant: reserves within balances, every open order's reserve
  equal to what it can still spend or sell, each company's reserved cash equal to the sum its
  orders reserve.
\<close>

theorem order_handlers_keep_market:
  assumes "marketOk d"
  shows "marketOk (snd (placeMarketOrder E placeInput d)) \<and>
    marketOk (snd (cancelMarketOrder E cancelInput d))"
proof
  have "marketOk (snd (transaction (placeMarketOrderWithTx E placeInput) d))"
    by (rule transaction_invariant [of _ _ marketOk, OF _ assms]) (rule marketOk_place [OF _ assms])
  then show "marketOk (snd (placeMarketOrder E placeInput d))"
    using assms by (simp add: placeMarketOrder_def split: sum.splits)
  have "marketOk (snd (transaction (cancelMarketOrderWithTx E cancelInput) d))"
    by (rule transaction_invariant [of _ _ marketOk, OF _ assms]) (rule marketOk_cancel [OF _ assms])
  then show "marketOk (snd (cancelMarketOrder E cancelInput d))"
    using assms by (simp add: cancelMarketOrder_def split: sum.splits)
qed

theorem order_handlers_keep_market_witness:
  "marketOk (snd (placeMarketOrder fixtureEnv fixtureBuy fixtureDb)) \<and>
   marketOk (snd (cancelMarketOrder fixtureEnv \<lparr>xo_orderId = ''o1'', xo_tick = None\<rparr> fixtureDb))"
  by (rule order_handlers_keep_market [OF fixture_marketOk])

end
