(* ===== verification/Buildings.thy ===== *)
theory Buildings
  imports Fixture
begin

section \<open>Buildings: acquisition, operating costs, storage\<close>

text \<open>
  \<open>packages/sim/src/services/buildings.ts\<close>: acquiring a building, charging the weekly operating
  costs of every active building (or deactivating it when the company's free cash does not
  suffice), reactivation, and the regional storage capacity the other components check before
  they add stock.
\<close>

definition PRODUCTION_BUILDING_TYPES :: "buildingType list" where
  "PRODUCTION_BUILDING_TYPES = [WORKSHOP, MINE, FARM, FACTORY, MEGA_FACTORY]"

definition BUILDING_OPERATING_COST_INTERVAL_TICKS :: int where
  "BUILDING_OPERATING_COST_INTERVAL_TICKS = 7"
definition BASE_STORAGE_CAPACITY_PER_REGION :: int where "BASE_STORAGE_CAPACITY_PER_REGION = 1000"
definition WAREHOUSE_CAPACITY_PER_SLOT :: int where "WAREHOUSE_CAPACITY_PER_SLOT = 500"

abbreviation "updateBuilding \<equiv> updateRow bd_id buildings buildings_update"
abbreviation "createBuilding \<equiv> createRow bd_id buildings buildings_update"

subsection \<open>Acquisition\<close>

record acquireBuildingInput =
  ab_companyId :: string
  ab_regionId :: string
  ab_buildingType :: buildingType
  ab_acquisitionCostCents :: int
  ab_weeklyOperatingCostCents :: int
  ab_capacitySlots :: "int option"
  ab_tick :: int
  ab_name :: "string option"

definition validateAcquireBuildingInput :: "acquireBuildingInput \<Rightarrow> unit result" where
  "validateAcquireBuildingInput input =
     (if ab_companyId input = [] then Inl (DomainInvariantError ''companyId is required'')
      else if ab_regionId input = [] then Inl (DomainInvariantError ''regionId is required'')
      else if ab_acquisitionCostCents input < 0
        then Inl (DomainInvariantError ''acquisitionCostCents cannot be negative'')
      else if ab_weeklyOperatingCostCents input < 0
        then Inl (DomainInvariantError ''weeklyOperatingCostCents cannot be negative'')
      else if (case ab_capacitySlots input of None \<Rightarrow> False | Some n \<Rightarrow> n < 1)
        then Inl (DomainInvariantError ''capacitySlots must be at least 1'')
      else if ab_tick input < 0 then Inl (DomainInvariantError ''tick must be non-negative'')
      else Inr ())"

definition cashState :: "company \<Rightarrow> CashState" where
  "cashState c = \<lparr>cashCents = co_cashCents c, reservedCashCents = co_reservedCashCents c\<rparr>"

definition newBuilding :: "env \<Rightarrow> acquireBuildingInput \<Rightarrow> db \<Rightarrow> building" where
  "newBuilding E input d =
     \<lparr>bd_id = newId E d, bd_companyId = ab_companyId input, bd_regionId = ab_regionId input,
      bd_buildingType = ab_buildingType input, bd_status = BuildingACTIVE,
      bd_name = ab_name input, bd_acquisitionCostCents = ab_acquisitionCostCents input,
      bd_weeklyOperatingCostCents = ab_weeklyOperatingCostCents input,
      bd_capacitySlots = (case ab_capacitySlots input of None \<Rightarrow> 1 | Some n \<Rightarrow> n),
      bd_tickAcquired = ab_tick input, bd_tickConstructionCompletes = None,
      bd_lastOperatingCostTick = Some (ab_tick input), bd_createdAt = currentTime E d\<rparr>"

definition acquireBuildingWithTx ::
    "env \<Rightarrow> acquireBuildingInput \<Rightarrow> db \<Rightarrow> (building \<times> db) result" where
  "acquireBuildingWithTx E input d =
     andThen (validateAcquireBuildingInput input) (\<lambda>_.
     (case findCompany (ab_companyId input) d of
       None \<Rightarrow> Inl (NotFoundError (''company '' @ ab_companyId input @ '' not found''))
     | Some company \<Rightarrow>
     (case rowFind rg_id (ab_regionId input) (regions d) of
       None \<Rightarrow> Inl (NotFoundError (''region '' @ ab_regionId input @ '' not found''))
     | Some _ \<Rightarrow>
       andThen (availableCash (cashState company)) (\<lambda>available.
       if available < ab_acquisitionCostCents input
         then Inl (InsufficientFundsError (''insufficient cash to acquire building: need '' @
                showInt (ab_acquisitionCostCents input) @ '', have '' @ showInt available))
       else
         (let newCashCents = co_cashCents company - ab_acquisitionCostCents input in
          andThen (updateCompany (ab_companyId input)
            (\<lambda>c. c\<lparr>co_cashCents := newCashCents\<rparr>) d) (\<lambda>(_, d).
          andThen (createBuilding (newBuilding E input d) d) (\<lambda>(building, d).
          andThen (createLedgerEntry E (ab_companyId input) (ab_tick input) BUILDING_ACQUISITION
            (- ab_acquisitionCostCents input) 0 newCashCents ''BUILDING'' (bd_id building) d) (\<lambda>d.
          Inr (building, d)))))))))"

subsection \<open>Operating costs\<close>

record applyBuildingOperatingCostsResult =
  processedCount :: int
  deactivatedCount :: int
  totalCostCents :: int

definition operatingCostDue :: "int \<Rightarrow> building \<Rightarrow> bool" where
  "operatingCostDue tick b =
     (bd_status b = BuildingACTIVE \<and>
      (case bd_lastOperatingCostTick b of
        None \<Rightarrow> True
      | Some lastTick \<Rightarrow> lastTick \<le> tick - BUILDING_OPERATING_COST_INTERVAL_TICKS))"

definition dueBuildings :: "env \<Rightarrow> int \<Rightarrow> db \<Rightarrow> building list" where
  "dueBuildings E tick d =
     sortBy (\<lambda>x y. env_textCompare E (bd_id x) (bd_id y))
       (filter (operatingCostDue tick) (buildings d))"

text \<open>One iteration of the loop: the state is the database and the three counters.\<close>

definition applyOperatingCost ::
    "env \<Rightarrow> int \<Rightarrow> building \<Rightarrow> db \<times> applyBuildingOperatingCostsResult \<Rightarrow>
     (db \<times> applyBuildingOperatingCostsResult) result" where
  "applyOperatingCost E tick b = (\<lambda>(d, res).
     (let operatingCost = bd_weeklyOperatingCostCents b in
      case findCompany (bd_companyId b) d of
        None \<Rightarrow> Inl recordNotFound
      | Some company \<Rightarrow>
        andThen (availableCash (cashState company)) (\<lambda>available.
        if available \<ge> operatingCost then
          (let newCashCents = co_cashCents company - operatingCost in
           andThen (updateCompany (bd_companyId b)
             (\<lambda>c. c\<lparr>co_cashCents := newCashCents\<rparr>) d) (\<lambda>(_, d).
           andThen (updateBuilding (bd_id b)
             (\<lambda>x. x\<lparr>bd_lastOperatingCostTick := Some tick\<rparr>) d) (\<lambda>(_, d).
           andThen (createLedgerEntry E (bd_companyId b) tick BUILDING_OPERATING_COST
             (- operatingCost) 0 newCashCents ''BUILDING'' (bd_id b) d) (\<lambda>d.
           Inr (d, res\<lparr>totalCostCents := totalCostCents res + operatingCost,
                       processedCount := processedCount res + 1\<rparr>)))))
        else
          andThen (updateBuilding (bd_id b)
            (\<lambda>x. x\<lparr>bd_status := BuildingINACTIVE, bd_lastOperatingCostTick := Some tick\<rparr>) d)
            (\<lambda>(_, d). Inr (d, res\<lparr>deactivatedCount := deactivatedCount res + 1\<rparr>)))))"

definition applyBuildingOperatingCostsWithTx ::
    "env \<Rightarrow> int \<Rightarrow> db \<Rightarrow> (db \<times> applyBuildingOperatingCostsResult) result" where
  "applyBuildingOperatingCostsWithTx E tick d =
     (if tick < 0 then Inl (DomainInvariantError ''tick must be non-negative'')
      else forEach (applyOperatingCost E tick) (dueBuildings E tick d)
             (d, \<lparr>processedCount = 0, deactivatedCount = 0, totalCostCents = 0\<rparr>))"

fun showBuildingStatus :: "buildingStatus \<Rightarrow> string" where
  "showBuildingStatus BuildingACTIVE = ''ACTIVE''"
| "showBuildingStatus BuildingINACTIVE = ''INACTIVE''"
| "showBuildingStatus BuildingCONSTRUCTION = ''CONSTRUCTION''"

definition reactivateBuildingWithTx :: "string \<Rightarrow> int \<Rightarrow> db \<Rightarrow> (building \<times> db) result" where
  "reactivateBuildingWithTx buildingId tick d =
     (if buildingId = [] then Inl (DomainInvariantError ''buildingId is required'')
      else if tick < 0 then Inl (DomainInvariantError ''tick must be non-negative'')
      else
        (case rowFind bd_id buildingId (buildings d) of
          None \<Rightarrow> Inl (NotFoundError (''building '' @ buildingId @ '' not found''))
        | Some b \<Rightarrow>
          if bd_status b \<noteq> BuildingINACTIVE
            then Inl (DomainInvariantError (''building '' @ buildingId @
                   '' is not inactive (current status: '' @ showBuildingStatus (bd_status b) @
                   '')''))
          else updateBuilding buildingId
            (\<lambda>x. x\<lparr>bd_status := BuildingACTIVE, bd_lastOperatingCostTick := Some tick\<rparr>) d))"

subsection \<open>Queries\<close>

definition getBuildingsForCompany :: "env \<Rightarrow> string \<Rightarrow> db \<Rightarrow> building list" where
  "getBuildingsForCompany E companyId d =
     sortBy (cmpThen (cmpKey bd_createdAt) (\<lambda>x y. env_textCompare E (bd_id x) (bd_id y)))
       (filter (\<lambda>b. bd_companyId b = companyId) (buildings d))"

definition hasActiveBuildingOfType :: "string \<Rightarrow> buildingType \<Rightarrow> db \<Rightarrow> bool" where
  "hasActiveBuildingOfType companyId ty d =
     (countWhere (\<lambda>b. bd_companyId b = companyId \<and> bd_buildingType b = ty \<and>
        bd_status b = BuildingACTIVE) (buildings d) > 0)"

definition isActiveProductionBuilding :: "string \<Rightarrow> building \<Rightarrow> bool" where
  "isActiveProductionBuilding companyId b =
     (bd_companyId b = companyId \<and> bd_buildingType b \<in> set PRODUCTION_BUILDING_TYPES \<and>
      bd_status b = BuildingACTIVE)"

definition getProductionCapacityForCompany :: "string \<Rightarrow> db \<Rightarrow> int \<times> int" where
  "getProductionCapacityForCompany companyId d =
     (let totalCapacity =
            (\<Sum>b\<leftarrow>filter (isActiveProductionBuilding companyId) (buildings d). bd_capacitySlots b);
          usedCapacity = countWhere (\<lambda>j. pj_companyId j = companyId \<and> pj_status j = JobIN_PROGRESS)
            (productionJobs d)
      in (totalCapacity, usedCapacity))"

definition validateProductionBuildingAvailable :: "string \<Rightarrow> db \<Rightarrow> unit result" where
  "validateProductionBuildingAvailable companyId d =
     (if companyId = [] then Inl (DomainInvariantError ''companyId is required'')
      else if countWhere (isActiveProductionBuilding companyId) (buildings d) = 0
        then Inl (DomainInvariantError (''company '' @ companyId @
               '' has no active production buildings''))
      else Inr ())"

subsection \<open>Storage\<close>

definition calculateRegionalStorageCapacity :: "jsnum \<Rightarrow> jsnum \<Rightarrow> jsnum \<Rightarrow> int result" where
  "calculateRegionalStorageCapacity warehouseCount capacityPerWarehouse baseCapacity =
     (if \<not> isInteger warehouseCount \<or> num warehouseCount < 0
        then Inl (DomainInvariantError ''warehouseCount must be a non-negative integer'')
      else if \<not> isInteger capacityPerWarehouse \<or> num capacityPerWarehouse < 0
        then Inl (DomainInvariantError ''capacityPerWarehouse must be a non-negative integer'')
      else if \<not> isInteger baseCapacity \<or> num baseCapacity < 0
        then Inl (DomainInvariantError ''baseCapacity must be a non-negative integer'')
      else Inr (num baseCapacity + num warehouseCount * num capacityPerWarehouse))"

definition regionStock :: "string \<Rightarrow> string \<Rightarrow> db \<Rightarrow> int" where
  "regionStock companyId regionId d =
     (\<Sum>r\<leftarrow>filter (\<lambda>r. inv_companyId r = companyId \<and> inv_regionId r = regionId) (inventories d).
        inv_quantity r)"

definition warehouses :: "string \<Rightarrow> string \<Rightarrow> db \<Rightarrow> int" where
  "warehouses companyId regionId d =
     countWhere (\<lambda>b. bd_companyId b = companyId \<and> bd_regionId b = regionId \<and>
        bd_buildingType b = WAREHOUSE \<and> bd_status b = BuildingACTIVE) (buildings d)"

definition validateStorageCapacity :: "string \<Rightarrow> string \<Rightarrow> jsnum \<Rightarrow> db \<Rightarrow> unit result" where
  "validateStorageCapacity companyId regionId quantityToAdd d =
     (if companyId = [] then Inl (DomainInvariantError ''companyId is required'')
      else if regionId = [] then Inl (DomainInvariantError ''regionId is required'')
      else if \<not> isInteger quantityToAdd \<or> num quantityToAdd < 0
        then Inl (DomainInvariantError ''quantityToAdd must be a non-negative integer'')
      else
        (let warehouseCount = warehouses companyId regionId d in
         andThen (calculateRegionalStorageCapacity (IntN warehouseCount)
           (IntN WAREHOUSE_CAPACITY_PER_SLOT) (IntN BASE_STORAGE_CAPACITY_PER_REGION))
           (\<lambda>capacity.
         (let currentTotal = regionStock companyId regionId d in
          if currentTotal + num quantityToAdd > capacity
            then Inl (DomainInvariantError (''storage capacity exceeded: current='' @
                   showInt currentTotal @ '', adding='' @ showInt (num quantityToAdd) @
                   '', capacity='' @ showInt capacity))
          else Inr ()))))"

subsection \<open>What the operations do\<close>

lemma validateStorageCapacity_iff [result_simps]:
  "validateStorageCapacity cid rid q d = Inr u \<longleftrightarrow>
     cid \<noteq> [] \<and> rid \<noteq> [] \<and> isInteger q \<and> 0 \<le> num q \<and>
     regionStock cid rid d + num q \<le> 1000 + 500 * warehouses cid rid d"
  by (auto simp: validateStorageCapacity_def calculateRegionalStorageCapacity_def Let_def
      result_simps warehouses_def countWhere_def WAREHOUSE_CAPACITY_PER_SLOT_def
      BASE_STORAGE_CAPACITY_PER_REGION_def)

lemma applyOperatingCost_cases:
  assumes "applyOperatingCost E tick b (d, res) = Inr (d', res')"
  obtains c d1 d2 c' b' where "findCompany (bd_companyId b) d = Some c"
      "bd_weeklyOperatingCostCents b \<le> co_cashCents c - co_reservedCashCents c"
      "updateCompany (bd_companyId b)
         (\<lambda>x. x\<lparr>co_cashCents := co_cashCents c - bd_weeklyOperatingCostCents b\<rparr>) d = Inr (c', d1)"
      "updateBuilding (bd_id b) (\<lambda>x. x\<lparr>bd_lastOperatingCostTick := Some tick\<rparr>) d1 = Inr (b', d2)"
      "createLedgerEntry E (bd_companyId b) tick BUILDING_OPERATING_COST
         (- bd_weeklyOperatingCostCents b) 0 (co_cashCents c - bd_weeklyOperatingCostCents b)
         ''BUILDING'' (bd_id b) d2 = Inr d'"
      "totalCostCents res' = totalCostCents res + bd_weeklyOperatingCostCents b"
  | c b' where "findCompany (bd_companyId b) d = Some c"
      "co_cashCents c - co_reservedCashCents c < bd_weeklyOperatingCostCents b"
      "updateBuilding (bd_id b)
         (\<lambda>x. x\<lparr>bd_status := BuildingINACTIVE, bd_lastOperatingCostTick := Some tick\<rparr>) d = Inr (b', d')"
      "totalCostCents res' = totalCostCents res"
  using assms
  by (auto simp: applyOperatingCost_def cashState_def result_simps Let_def not_le
      simp del: updateRow_Inr createLedgerEntry_Inr split: option.splits if_splits)

text \<open>One iteration keeps the market's invariant and books what it charges.\<close>

lemma applyOperatingCost_keeps:
  assumes "applyOperatingCost E tick b (d, res) = Inr (d', res')" and "marketOk d"
    and "0 \<le> bd_weeklyOperatingCostCents b"
  shows "marketOk d' \<and> totalCash d' + totalCostCents res' = totalCash d + totalCostCents res"
  using assms(1)
proof (cases rule: applyOperatingCost_cases)
  case (1 c d1 d2 c' b')
  have "marketOk d1 \<and> totalCash d1 = totalCash d - bd_weeklyOperatingCostCents b"
    using marketOk_updateCompany [OF 1(3) assms(2)] totalCash_updateCompany [OF 1(3) assms(2) 1(1)]
      marketOk_company [OF assms(2) 1(1)] 1(1-3) assms(3)
    by (auto simp: result_simps companyOk_iff)
  moreover from 1(4,5) have "companies d' = companies d1" "inventories d' = inventories d1"
    "marketOrders d' = marketOrders d1"
    by (auto simp: result_simps)
  ultimately show ?thesis using 1(6) marketOk_same [of d1 d'] by (simp add: totalCash_def)
next
  case (2 c b')
  then show ?thesis using assms(2) marketOk_same [of d d']
    by (auto simp: result_simps totalCash_def)
qed

definition buildingOk :: "building \<Rightarrow> bool" where
  "buildingOk b \<longleftrightarrow> 0 \<le> bd_weeklyOperatingCostCents b"

lemma operatingCosts_keep:
  assumes "applyBuildingOperatingCostsWithTx E tick d = Inr (d', res)" and "marketOk d"
    and "\<forall>b\<in>set (buildings d). buildingOk b"
  shows "marketOk d' \<and> totalCash d' + totalCostCents res = totalCash d"
proof -
  let ?P = "\<lambda>(e, r). marketOk e \<and> totalCash e + totalCostCents r = totalCash d"
  from assms(1) have loop: "forEach (applyOperatingCost E tick) (dueBuildings E tick d)
      (d, \<lparr>processedCount = 0, deactivatedCount = 0, totalCostCents = 0\<rparr>) = Inr (d', res)"
    by (auto simp: applyBuildingOperatingCostsWithTx_def split: if_splits)
  have "?P (d', res)"
  proof (rule forEach_invariant [OF loop, where P = ?P])
    show "?P (d, \<lparr>processedCount = 0, deactivatedCount = 0, totalCostCents = 0\<rparr>)"
      using assms(2) by simp
  next
    fix b s s'
    assume b: "b \<in> set (dueBuildings E tick d)" and s: "?P s" and step: "applyOperatingCost E tick b s = Inr s'"
    obtain e r e' r' where [simp]: "s = (e, r)" "s' = (e', r')" by (metis surj_pair)
    have "0 \<le> bd_weeklyOperatingCostCents b"
      using b assms(3) by (auto simp: dueBuildings_def buildingOk_def)
    from applyOperatingCost_keeps [OF step [simplified] _ this] s show "?P s'" by simp
  qed
  then show ?thesis by simp
qed

text \<open>
  Frame: the loop only stamps buildings. After it, every building that was due carries the
  current tick, and no other building changed.
\<close>

definition stamped :: "int \<Rightarrow> building list \<Rightarrow> building list \<Rightarrow> bool" where
  "stamped tick bs bs' \<longleftrightarrow>
     list_all2 (\<lambda>b b'. b' = b \<or> b' = b\<lparr>bd_lastOperatingCostTick := Some tick\<rparr> \<or>
        b' = b\<lparr>bd_status := BuildingINACTIVE, bd_lastOperatingCostTick := Some tick\<rparr>) bs bs'"

lemma stamped_refl: "stamped tick bs bs"
  by (simp add: stamped_def list_all2_refl)

lemma stamped_rowSet:
  assumes "stamped tick bs cs"
    and "f = (\<lambda>x. x\<lparr>bd_lastOperatingCostTick := Some tick\<rparr>) \<or>
      f = (\<lambda>x. x\<lparr>bd_status := BuildingINACTIVE, bd_lastOperatingCostTick := Some tick\<rparr>)"
  shows "stamped tick bs (rowSet bd_id k f cs)"
  using assms unfolding stamped_def rowSet_def list_all2_map2
  by (elim list_all2_mono) auto

lemma operatingCosts_stamp:
  assumes "applyBuildingOperatingCostsWithTx E tick d = Inr (d', res)"
  shows "stamped tick (buildings d) (buildings d') \<and>
    (\<forall>b\<in>set (buildings d'). \<not> operatingCostDue tick b)"
proof -
  let ?due = "dueBuildings E tick d"
  let ?res0 = "\<lparr>processedCount = 0, deactivatedCount = 0, totalCostCents = 0\<rparr>"
  have step: "\<exists>k f. k = bd_id b \<and> buildings (fst s') = rowSet bd_id k f (buildings (fst s)) \<and>
      (f = (\<lambda>x. x\<lparr>bd_lastOperatingCostTick := Some tick\<rparr>) \<or>
       f = (\<lambda>x. x\<lparr>bd_status := BuildingINACTIVE, bd_lastOperatingCostTick := Some tick\<rparr>))"
    if "applyOperatingCost E tick b s = Inr s'" for b s s'
  proof -
    obtain e r e' r' where [simp]: "s = (e, r)" "s' = (e', r')" by (metis surj_pair)
    from that have "applyOperatingCost E tick b (e, r) = Inr (e', r')" by simp
    then show ?thesis
      by (cases rule: applyOperatingCost_cases) (auto simp: result_simps)
  qed
  have loop: "stamped tick (buildings d) (buildings (fst s')) \<and>
      (\<forall>b\<in>set (buildings (fst s')). operatingCostDue tick b \<longrightarrow> bd_id b \<notin> bd_id ` set bs)"
    if "forEach (applyOperatingCost E tick) bs (d, ?res0) = Inr s'" for bs s'
    using that
  proof (induction bs arbitrary: s' rule: rev_induct)
    case Nil
    then show ?case by (auto simp: stamped_refl)
  next
    case (snoc b bs)
    then obtain t where t: "forEach (applyOperatingCost E tick) bs (d, ?res0) = Inr t"
      "applyOperatingCost E tick b t = Inr s'"
      by (auto simp: forEach_append result_simps)
    from step [OF t(2)] obtain f where f: "buildings (fst s') = rowSet bd_id (bd_id b) f (buildings (fst t))"
      "f = (\<lambda>x. x\<lparr>bd_lastOperatingCostTick := Some tick\<rparr>) \<or>
       f = (\<lambda>x. x\<lparr>bd_status := BuildingINACTIVE, bd_lastOperatingCostTick := Some tick\<rparr>)"
      by blast
    from snoc.IH [OF t(1)] stamped_rowSet [OF _ f(2)] f show ?case
      by (auto simp: rowSet_def operatingCostDue_def BUILDING_OPERATING_COST_INTERVAL_TICKS_def)
  qed
  from assms have "forEach (applyOperatingCost E tick) ?due (d, ?res0) = Inr (d', res)"
    by (auto simp: applyBuildingOperatingCostsWithTx_def split: if_splits)
  from loop [OF this] have st: "stamped tick (buildings d) (buildings d')"
    and nd: "\<And>b. b \<in> set (buildings d') \<Longrightarrow> operatingCostDue tick b \<Longrightarrow> bd_id b \<notin> bd_id ` set ?due"
    by auto
  have "\<not> operatingCostDue tick b" if b: "b \<in> set (buildings d')" for b
  proof
    assume due: "operatingCostDue tick b"
    from st b obtain a where a: "a \<in> set (buildings d)" "b = a \<or>
        b = a\<lparr>bd_lastOperatingCostTick := Some tick\<rparr> \<or>
        b = a\<lparr>bd_status := BuildingINACTIVE, bd_lastOperatingCostTick := Some tick\<rparr>"
      unfolding stamped_def by (blast dest: list_all2_right)
    with due have "a = b"
      by (auto simp: operatingCostDue_def BUILDING_OPERATING_COST_INTERVAL_TICKS_def)
    with a due nd [OF b due] show False by (auto simp: dueBuildings_def)
  qed
  with st show ?thesis by blast
qed

subsection \<open>Properties\<close>

text \<open>
  Adding stock to a region passes the storage check exactly when the company and the region
  are named, the quantity is a non-negative integer, and the company's stock of all items there
  plus the addition fits in 1000 units and 500 per active warehouse.
\<close>

theorem storage_check_exact:
  "validateStorageCapacity cid rid q d = Inr () \<longleftrightarrow>
     cid \<noteq> [] \<and> rid \<noteq> [] \<and> isInteger q \<and> 0 \<le> num q \<and>
     (\<Sum>r\<leftarrow>filter (\<lambda>r. inv_companyId r = cid \<and> inv_regionId r = rid) (inventories d).
        inv_quantity r) + num q
       \<le> 1000 + 500 * int (length (filter (\<lambda>b. bd_companyId b = cid \<and> bd_regionId b = rid \<and>
           bd_buildingType b = WAREHOUSE \<and> bd_status b = BuildingACTIVE) (buildings d)))"
  by (simp add: validateStorageCapacity_iff regionStock_def warehouses_def countWhere_def)

text \<open>
  C32. Charging the operating costs accounts for every cent (the total reported is exactly what
  the companies paid), keeps every company's reserves covered, and leaves no building due: a
  second run in the same tick finds nothing to charge and changes nothing.
\<close>

theorem operating_costs_once:
  assumes "applyBuildingOperatingCostsWithTx E tick d = Inr (d', res)" and "marketOk d"
    and "\<forall>b\<in>set (buildings d). 0 \<le> bd_weeklyOperatingCostCents b"
  shows "marketOk d' \<and> totalCash d' = totalCash d - totalCostCents res \<and>
    applyBuildingOperatingCostsWithTx E tick d' =
      Inr (d', \<lparr>processedCount = 0, deactivatedCount = 0, totalCostCents = 0\<rparr>)"
proof -
  have "0 \<le> tick" using assms(1) by (auto simp: applyBuildingOperatingCostsWithTx_def split: if_splits)
  have "filter (operatingCostDue tick) (buildings d') = []"
    using operatingCosts_stamp [OF assms(1)] by (simp add: filter_empty_conv)
  then have "dueBuildings E tick d' = []" by (simp add: dueBuildings_def)
  with operatingCosts_keep [OF assms(1,2)] assms(3) \<open>0 \<le> tick\<close> show ?thesis
    by (auto simp: applyBuildingOperatingCostsWithTx_def buildingOk_def)
qed

theorem operating_costs_once_witness:
  "\<exists>d' res. applyBuildingOperatingCostsWithTx fixtureEnv 7 fixtureDb = Inr (d', res) \<and>
     totalCash d' = totalCash fixtureDb - 500 \<and> totalCostCents res = 500"
proof -
  have "case applyBuildingOperatingCostsWithTx fixtureEnv 7 fixtureDb of
      Inl _ \<Rightarrow> False | Inr (d', res) \<Rightarrow> totalCostCents res = 500" by code_simp
  then obtain d' res where *: "applyBuildingOperatingCostsWithTx fixtureEnv 7 fixtureDb = Inr (d', res)"
    "totalCostCents res = 500"
    by (auto split: sum.splits)
  have "\<forall>b\<in>set (buildings fixtureDb). 0 \<le> bd_weeklyOperatingCostCents b" by code_simp
  from operating_costs_once [OF *(1) fixture_marketOk this] * show ?thesis by auto
qed

text \<open>
  An acquired building was paid from free cash: the company's balance falls by exactly the
  acquisition cost, its reserves stay covered, and the new building is active with its operating
  cost paid up to the current tick.
\<close>

theorem acquire_building_paid:
  assumes "acquireBuildingWithTx E input d = Inr (b, d')" and "marketOk d"
  shows "marketOk d' \<and> totalCash d' = totalCash d - ab_acquisitionCostCents input \<and>
    buildings d' = buildings d @ [b] \<and> bd_status b = BuildingACTIVE \<and>
    \<not> operatingCostDue (ab_tick input) b \<and>
    (\<exists>c. findCompany (ab_companyId input) d = Some c \<and>
       ab_acquisitionCostCents input \<le> co_cashCents c - co_reservedCashCents c)"
proof -
  from assms(1) obtain c c' d1 d2 where
    c: "findCompany (ab_companyId input) d = Some c"
      "ab_acquisitionCostCents input \<le> co_cashCents c - co_reservedCashCents c"
      "0 \<le> ab_acquisitionCostCents input"
    and s1: "updateCompany (ab_companyId input)
       (\<lambda>x. x\<lparr>co_cashCents := co_cashCents c - ab_acquisitionCostCents input\<rparr>) d = Inr (c', d1)"
    and s2: "createBuilding (newBuilding E input d1) d1 = Inr (b, d2)"
    and s3: "createLedgerEntry E (ab_companyId input) (ab_tick input) BUILDING_ACQUISITION
            (- ab_acquisitionCostCents input) 0 (co_cashCents c - ab_acquisitionCostCents input)
            ''BUILDING'' (bd_id b) d2 = Inr d'"
    by (auto simp: acquireBuildingWithTx_def validateAcquireBuildingInput_def cashState_def
        result_simps Let_def not_less
        simp del: updateRow_Inr createRow_Inr createLedgerEntry_Inr split: option.splits if_splits)
  have "marketOk d1 \<and> totalCash d1 = totalCash d - ab_acquisitionCostCents input"
    using marketOk_updateCompany [OF s1 assms(2)] totalCash_updateCompany [OF s1 assms(2) c(1)]
      marketOk_company [OF assms(2) c(1)] c s1
    by (auto simp: result_simps companyOk_iff)
  moreover from s1 s2 s3 have "companies d' = companies d1" "inventories d' = inventories d1"
    "marketOrders d' = marketOrders d1" "buildings d' = buildings d @ [b]"
    "b = newBuilding E input d1"
    by (auto simp: result_simps)
  ultimately show ?thesis using c marketOk_same [of d1 d']
    by (auto simp: totalCash_def newBuilding_def operatingCostDue_def
        BUILDING_OPERATING_COST_INTERVAL_TICKS_def)
qed

definition fixtureAcquire :: acquireBuildingInput where
  "fixtureAcquire = \<lparr>ab_companyId = ''b'', ab_regionId = ''r2'', ab_buildingType = WAREHOUSE,
     ab_acquisitionCostCents = 20000, ab_weeklyOperatingCostCents = 300, ab_capacitySlots = None,
     ab_tick = 7, ab_name = None\<rparr>"

theorem acquire_building_paid_witness:
  "\<exists>b d'. acquireBuildingWithTx fixtureEnv fixtureAcquire fixtureDb = Inr (b, d') \<and>
     totalCash d' = totalCash fixtureDb - 20000 \<and> \<not> operatingCostDue 7 b"
proof -
  have "returns (acquireBuildingWithTx fixtureEnv fixtureAcquire fixtureDb)" by code_simp
  then obtain b d' where *: "acquireBuildingWithTx fixtureEnv fixtureAcquire fixtureDb = Inr (b, d')"
    by (auto simp: returns_iff)
  have "ab_acquisitionCostCents fixtureAcquire = 20000" "ab_tick fixtureAcquire = 7"
    by (simp_all add: fixtureAcquire_def)
  with acquire_building_paid [OF * fixture_marketOk] * show ?thesis by metis
qed

subsection \<open>The stage's contract\<close>

lemma applyOperatingCost_frame:
  assumes "applyOperatingCost E tick b (d, res) = Inr (d', res')" and "0 \<le> bd_weeklyOperatingCostCents b"
  shows "masters d' = masters d \<and> totalCostCents res \<le> totalCostCents res'"
  using assms
  by (auto simp: applyOperatingCost_def Let_def andThen_Inr_iff branch_Inr updateRow_Inr
        createLedgerEntry_Inr masters_def map_rowSet_same split: if_splits)

interpretation operatingCostsStage:
  tick_stage "\<lambda>d. andThen (applyBuildingOperatingCostsWithTx E tick d) (\<lambda>(d, _). Inr d)" for E tick
proof
  fix d d'
  assume "andThen (applyBuildingOperatingCostsWithTx E tick d) (\<lambda>(d, _). Inr d) = Inr d'" and ok: "tickOk d"
  then obtain res where run: "applyBuildingOperatingCostsWithTx E tick d = Inr (d', res)"
    by (auto simp: andThen_Inr_iff)
  have costs: "\<forall>b\<in>set (buildings d). buildingOk b" using ok by (simp add: tickOk_def buildingOk_def)
  from run have loop: "forEach (applyOperatingCost E tick) (dueBuildings E tick d)
      (d, \<lparr>processedCount = 0, deactivatedCount = 0, totalCostCents = 0\<rparr>) = Inr (d', res)"
    by (auto simp: applyBuildingOperatingCostsWithTx_def split: if_splits)
  have "masters (fst (d', res)) = masters d \<and> 0 \<le> totalCostCents (snd (d', res))"
  proof (rule forEach_invariant [OF loop, where P = "\<lambda>s. masters (fst s) = masters d \<and> 0 \<le> totalCostCents (snd s)"])
    fix b s s'
    assume "b \<in> set (dueBuildings E tick d)" "masters (fst s) = masters d \<and> 0 \<le> totalCostCents (snd s)"
      "applyOperatingCost E tick b s = Inr s'"
    with costs applyOperatingCost_frame [of E tick b "fst s" "snd s" "fst s'" "snd s'"]
    show "masters (fst s') = masters d \<and> 0 \<le> totalCostCents (snd s')"
      by (auto simp: dueBuildings_def buildingOk_def)
  qed simp
  moreover have "marketOk d' \<and> totalCash d' + totalCostCents res = totalCash d"
    by (rule operatingCosts_keep [OF run _ costs]) (use ok in \<open>simp add: tickOk_def\<close>)
  ultimately show "marketOk d' \<and> masters d' = masters d \<and> totalCash d' \<le> totalCash d" by simp
qed

end
