(* ===== verification/MarketMatching.thy ===== *)
theory MarketMatching
  imports Buildings MarketOrders
begin

section \<open>Matching and settling market orders\<close>

text \<open>
  \<open>packages/sim/src/services/market-matching.ts\<close>: the planner sorts the two sides of an item's
  book by price and time and walks them; each planned match is settled against the database
  (cash, stock, both orders, the trade and its two ledger entries). A matchable order is the
  order's row. \<open>settleMatch\<close> is split into its checks, its four groups of writes and the record
  of the trade.
\<close>

record matchPlan =
  mp_itemId :: string
  mp_regionId :: string
  mp_buyOrderId :: string
  mp_sellOrderId :: string
  mp_quantity :: int
  mp_unitPriceCents :: int

subsection \<open>Priorities and the planner\<close>

definition compareByTimeThenId :: "env \<Rightarrow> marketOrder \<Rightarrow> marketOrder \<Rightarrow> int" where
  "compareByTimeThenId E left right =
     (if ord_tickPlaced left \<noteq> ord_tickPlaced right then ord_tickPlaced left - ord_tickPlaced right
      else
        (let timeDelta = ord_createdAt left - ord_createdAt right in
         if timeDelta \<noteq> 0 then timeDelta
         else env_localeCompare E (ord_id left) (ord_id right)))"

definition compareBuyPriority :: "env \<Rightarrow> marketOrder \<Rightarrow> marketOrder \<Rightarrow> int" where
  "compareBuyPriority E left right =
     (if ord_unitPriceCents left \<noteq> ord_unitPriceCents right
      then if ord_unitPriceCents left > ord_unitPriceCents right then - 1 else 1
      else compareByTimeThenId E left right)"

definition compareSellPriority :: "env \<Rightarrow> marketOrder \<Rightarrow> marketOrder \<Rightarrow> int" where
  "compareSellPriority E left right =
     (if ord_unitPriceCents left \<noteq> ord_unitPriceCents right
      then if ord_unitPriceCents left < ord_unitPriceCents right then - 1 else 1
      else compareByTimeThenId E left right)"

definition resolveExecutionPrice :: "env \<Rightarrow> marketOrder \<Rightarrow> marketOrder \<Rightarrow> int" where
  "resolveExecutionPrice E buy sell =
     (if compareByTimeThenId E buy sell \<le> 0 then ord_unitPriceCents buy else ord_unitPriceCents sell)"

text \<open>Taking a quantity from the head of a side; the loop advances when nothing remains.\<close>

definition takeHead :: "int \<Rightarrow> marketOrder \<Rightarrow> marketOrder list \<Rightarrow> marketOrder list" where
  "takeHead qty x xs =
     (let remaining = ord_remainingQuantity x - qty in
      if remaining = 0 then xs else x\<lparr>ord_remainingQuantity := remaining\<rparr> # xs)"

definition newMatch :: "env \<Rightarrow> marketOrder \<Rightarrow> marketOrder \<Rightarrow> matchPlan" where
  "newMatch E buy sell =
     \<lparr>mp_itemId = ord_itemId buy, mp_regionId = ord_regionId buy, mp_buyOrderId = ord_id buy,
      mp_sellOrderId = ord_id sell,
      mp_quantity = min (ord_remainingQuantity buy) (ord_remainingQuantity sell),
      mp_unitPriceCents = resolveExecutionPrice E buy sell\<rparr>"

function matchOrders :: "env \<Rightarrow> marketOrder list \<Rightarrow> marketOrder list \<Rightarrow> matchPlan list" where
  "matchOrders E [] sells = []"
| "matchOrders E (buy # buys) [] = []"
| "matchOrders E (buy # buys) (sell # sells) =
     (if ord_unitPriceCents buy < ord_unitPriceCents sell then []
      else
        (let qty = min (ord_remainingQuantity buy) (ord_remainingQuantity sell) in
         newMatch E buy sell # matchOrders E (takeHead qty buy buys) (takeHead qty sell sells)))"
  by pat_completeness auto

termination
  by (relation "measure (\<lambda>(_, buys, sells). length buys + length sells)")
    (auto simp: takeHead_def Let_def)

definition regionMismatch :: "marketOrder list \<Rightarrow> bool" where
  "regionMismatch orders =
     (case orders of
       [] \<Rightarrow> False
     | x # _ \<Rightarrow> ord_regionId x \<noteq> [] \<and> list_ex (\<lambda>y. ord_regionId y \<noteq> ord_regionId x) orders)"

definition differentRegions :: "marketOrder list \<Rightarrow> marketOrder list \<Rightarrow> bool" where
  "differentRegions buys sells =
     (case (buys, sells) of
       (x # _, y # _) \<Rightarrow> ord_regionId x \<noteq> [] \<and> ord_regionId y \<noteq> [] \<and> ord_regionId x \<noteq> ord_regionId y
     | _ \<Rightarrow> False)"

definition orderedBuys :: "env \<Rightarrow> marketOrder list \<Rightarrow> marketOrder list" where
  "orderedBuys E buys = sortBy (compareBuyPriority E)
     (filter (\<lambda>x. ord_side x = BUY \<and> ord_remainingQuantity x > 0) buys)"

definition orderedSells :: "env \<Rightarrow> marketOrder list \<Rightarrow> marketOrder list" where
  "orderedSells E sells = sortBy (compareSellPriority E)
     (filter (\<lambda>x. ord_side x = SELL \<and> ord_remainingQuantity x > 0) sells)"

definition planOrderMatchesForItem ::
    "env \<Rightarrow> marketOrder list \<Rightarrow> marketOrder list \<Rightarrow> matchPlan list result" where
  "planOrderMatchesForItem E buys sells =
     (if regionMismatch buys
        then Inl (DomainInvariantError ''buy orders must share the same region'')
      else if regionMismatch sells
        then Inl (DomainInvariantError ''sell orders must share the same region'')
      else if differentRegions buys sells then Inr []
      else Inr (matchOrders E (orderedBuys E buys) (orderedSells E sells)))"

subsection \<open>Settlement\<close>

definition checkMatchedOrders :: "matchPlan \<Rightarrow> marketOrder \<Rightarrow> marketOrder \<Rightarrow> unit result" where
  "checkMatchedOrders m buyOrder sellOrder =
     (if ord_side buyOrder \<noteq> BUY \<or> ord_side sellOrder \<noteq> SELL
        then Inl (DomainInvariantError ''invalid order side for matched pair'')
      else if ord_itemId buyOrder \<noteq> ord_itemId sellOrder \<or> ord_itemId buyOrder \<noteq> mp_itemId m
        then Inl (DomainInvariantError ''matched orders must share same item'')
      else if ord_regionId buyOrder \<noteq> ord_regionId sellOrder \<or> ord_regionId buyOrder \<noteq> mp_regionId m
        then Inl (DomainInvariantError ''matched orders must share same region'')
      else if ord_remainingQuantity buyOrder < mp_quantity m \<or>
              ord_remainingQuantity sellOrder < mp_quantity m
        then Inl (DomainInvariantError ''matched quantity exceeds order remaining quantity'')
      else if ord_reservedCashCents buyOrder < mp_quantity m * ord_unitPriceCents buyOrder
        then Inl (DomainInvariantError ''buy order reserved cash cannot become negative'')
      else if ord_reservedQuantity sellOrder < mp_quantity m
        then Inl (DomainInvariantError ''sell order reserved quantity cannot become negative'')
      else Inr ())"

definition checkMatchedAccounts ::
    "matchPlan \<Rightarrow> int \<Rightarrow> int \<Rightarrow> company \<Rightarrow> inventory \<Rightarrow> unit result" where
  "checkMatchedAccounts m reserveReduction tradeNotional buyerCompany sellerInventory =
     (let buyerNextCash = co_cashCents buyerCompany - tradeNotional;
          buyerNextReservedCash = co_reservedCashCents buyerCompany - reserveReduction in
      if inv_quantity sellerInventory < mp_quantity m \<or>
         inv_reservedQuantity sellerInventory < mp_quantity m
        then Inl (DomainInvariantError ''seller inventory cannot satisfy matched quantity'')
      else if co_reservedCashCents buyerCompany < reserveReduction \<or>
              co_cashCents buyerCompany < tradeNotional
        then Inl (DomainInvariantError ''buyer company cannot satisfy matched cash transfer'')
      else if buyerNextReservedCash < 0 \<or> buyerNextCash < 0 \<or>
              buyerNextReservedCash > buyerNextCash
        then Inl (DomainInvariantError ''buyer cash invariants violated during settlement'')
      else Inr ())"

text \<open>The buyer pays from its reserve, the seller receives; one write when they are the same.\<close>

definition settleCash :: "company \<Rightarrow> company \<Rightarrow> int \<Rightarrow> int \<Rightarrow> db \<Rightarrow> db result" where
  "settleCash buyerCompany sellerCompany reserveReduction tradeNotional d =
     (let buyerNextCash = co_cashCents buyerCompany - tradeNotional;
          buyerNextReservedCash = co_reservedCashCents buyerCompany - reserveReduction;
          sellerNextCash = co_cashCents sellerCompany + tradeNotional in
      if co_id buyerCompany = co_id sellerCompany then
        andThen (updateCompany (co_id buyerCompany)
          (\<lambda>c. c\<lparr>co_cashCents := co_cashCents buyerCompany - tradeNotional + tradeNotional,
                co_reservedCashCents := buyerNextReservedCash\<rparr>) d) (\<lambda>(_, d). Inr d)
      else
        andThen (updateCompany (co_id buyerCompany)
          (\<lambda>c. c\<lparr>co_cashCents := buyerNextCash, co_reservedCashCents := buyerNextReservedCash\<rparr>) d)
          (\<lambda>(_, d).
        andThen (updateCompany (co_id sellerCompany)
          (\<lambda>c. c\<lparr>co_cashCents := sellerNextCash\<rparr>) d) (\<lambda>(_, d). Inr d)))"

definition settleStock :: "matchPlan \<Rightarrow> marketOrder \<Rightarrow> inventory \<Rightarrow> db \<Rightarrow> db result" where
  "settleStock m buyOrder sellerInventory d =
     andThen (updateInventory (invKey sellerInventory)
       (\<lambda>r. r\<lparr>inv_quantity := inv_quantity sellerInventory - mp_quantity m,
             inv_reservedQuantity := inv_reservedQuantity sellerInventory - mp_quantity m\<rparr>) d)
       (\<lambda>(_, d).
     andThen (upsertInventory (ord_companyId buyOrder) (ord_itemId buyOrder) (ord_regionId buyOrder)
       (\<lambda>r. r\<lparr>inv_quantity := inv_quantity r + mp_quantity m\<rparr>) (mp_quantity m) 0 d)
       (\<lambda>(_, d). Inr d))"

text \<open>What remains of an order after a fill; an order with nothing left is filled and closed.\<close>

definition fillOrder :: "int \<Rightarrow> int \<Rightarrow> int \<Rightarrow> marketOrder \<Rightarrow> marketOrder" where
  "fillOrder remaining tick time x =
     x\<lparr>ord_remainingQuantity := remaining,
       ord_status := (if remaining = 0 then OrderFILLED else OrderOPEN),
       ord_tickClosed := (if remaining = 0 then Some tick else None),
       ord_closedAt := (if remaining = 0 then Some time else None)\<rparr>"

definition settleOrders ::
    "matchPlan \<Rightarrow> marketOrder \<Rightarrow> marketOrder \<Rightarrow> int \<Rightarrow> int \<Rightarrow> int \<Rightarrow> db \<Rightarrow> db result" where
  "settleOrders m buyOrder sellOrder reserveReduction tick time d =
     (let buyRemaining = ord_remainingQuantity buyOrder - mp_quantity m;
          sellRemaining = ord_remainingQuantity sellOrder - mp_quantity m;
          buyReservedCash = ord_reservedCashCents buyOrder - reserveReduction;
          sellReservedQuantity = ord_reservedQuantity sellOrder - mp_quantity m in
      andThen (updateMarketOrder (ord_id buyOrder)
        (\<lambda>x. (fillOrder buyRemaining tick time x)\<lparr>ord_reservedCashCents := buyReservedCash\<rparr>) d)
        (\<lambda>(_, d).
      andThen (updateMarketOrder (ord_id sellOrder)
        (\<lambda>x. (fillOrder sellRemaining tick time x)\<lparr>ord_reservedQuantity := sellReservedQuantity\<rparr>) d)
        (\<lambda>(_, d). Inr d)))"

definition recordTrade ::
    "env \<Rightarrow> matchPlan \<Rightarrow> marketOrder \<Rightarrow> marketOrder \<Rightarrow> company \<Rightarrow> company \<Rightarrow> int \<Rightarrow> int \<Rightarrow> int \<Rightarrow> db \<Rightarrow>
     db result" where
  "recordTrade E m buyOrder sellOrder buyerCompany sellerCompany reserveReduction tradeNotional
       tick d =
     andThen (createRow tr_id trades trades_update
       \<lparr>tr_id = newId E d, tr_buyOrderId = ord_id buyOrder, tr_sellOrderId = ord_id sellOrder,
        tr_buyerCompanyId = ord_companyId buyOrder, tr_sellerCompanyId = ord_companyId sellOrder,
        tr_itemId = ord_itemId buyOrder, tr_regionId = ord_regionId buyOrder,
        tr_quantity = mp_quantity m, tr_unitPriceCents = mp_unitPriceCents m,
        tr_totalPriceCents = tradeNotional, tr_tick = tick, tr_createdAt = currentTime E d\<rparr> d)
       (\<lambda>(trade, d).
     andThen (createLedgerEntry E (ord_companyId buyOrder) tick TRADE_SETTLEMENT (- tradeNotional)
       (- reserveReduction) (co_cashCents buyerCompany - tradeNotional) ''MARKET_TRADE_BUY''
       (tr_id trade) d) (\<lambda>d.
     createLedgerEntry E (ord_companyId sellOrder) tick TRADE_SETTLEMENT tradeNotional 0
       (if co_id buyerCompany = co_id sellerCompany then co_cashCents buyerCompany
        else co_cashCents sellerCompany + tradeNotional) ''MARKET_TRADE_SELL''
       (tr_id trade) d))"

definition checkBuyerStorage :: "matchPlan \<Rightarrow> marketOrder \<Rightarrow> marketOrder \<Rightarrow> db \<Rightarrow> unit result" where
  "checkBuyerStorage m buyOrder sellOrder d =
     (let isSelfTradeInSameRegionAndItem =
            ord_companyId buyOrder = ord_companyId sellOrder \<and>
            ord_regionId buyOrder = ord_regionId sellOrder \<and>
            ord_itemId buyOrder = ord_itemId sellOrder in
      if isSelfTradeInSameRegionAndItem then Inr ()
      else validateStorageCapacity (ord_companyId buyOrder) (ord_regionId buyOrder)
             (IntN (mp_quantity m)) d)"

definition settleMatch :: "env \<Rightarrow> matchPlan \<Rightarrow> int \<Rightarrow> db \<Rightarrow> db result" where
  "settleMatch E m tick d =
     (case (rowFind ord_id (mp_buyOrderId m) (marketOrders d),
            rowFind ord_id (mp_sellOrderId m) (marketOrders d)) of
       (Some buyOrder, Some sellOrder) \<Rightarrow>
         if ord_status buyOrder \<noteq> OrderOPEN \<or> ord_status sellOrder \<noteq> OrderOPEN then Inr d
         else
           andThen (checkMatchedOrders m buyOrder sellOrder) (\<lambda>_.
           (let reserveReduction = mp_quantity m * ord_unitPriceCents buyOrder;
                tradeNotional = mp_quantity m * mp_unitPriceCents m in
            case (findCompany (ord_companyId buyOrder) d, findCompany (ord_companyId sellOrder) d) of
              (Some buyerCompany, Some sellerCompany) \<Rightarrow>
                (case findInventory (ord_companyId sellOrder) (ord_itemId sellOrder)
                        (ord_regionId sellOrder) d of
                  None \<Rightarrow> Inl (DomainInvariantError ''seller inventory row not found'')
                | Some sellerInventory \<Rightarrow>
                  andThen (checkMatchedAccounts m reserveReduction tradeNotional buyerCompany
                    sellerInventory) (\<lambda>_.
                  andThen (checkBuyerStorage m buyOrder sellOrder d) (\<lambda>_.
                  andThen (settleCash buyerCompany sellerCompany reserveReduction tradeNotional d)
                    (\<lambda>d.
                  andThen (settleStock m buyOrder sellerInventory d) (\<lambda>d.
                  andThen (settleOrders m buyOrder sellOrder reserveReduction tick
                    (currentTime E d) d) (\<lambda>d.
                  recordTrade E m buyOrder sellOrder buyerCompany sellerCompany reserveReduction
                    tradeNotional tick d))))))
            | _ \<Rightarrow> Inl (NotFoundError ''matched company no longer exists'')))
     | _ \<Rightarrow> Inl (NotFoundError ''matched order no longer exists''))"

subsection \<open>The matching pass of a tick\<close>

definition groupKeyOf :: "marketOrder \<Rightarrow> string" where
  "groupKeyOf x = ord_regionId x @ '':'' @ ord_itemId x"

definition openOrders :: "db \<Rightarrow> marketOrder list" where
  "openOrders d = filter (\<lambda>x. ord_status x = OrderOPEN) (marketOrders d)"

definition sortedGroupKeys :: "env \<Rightarrow> marketOrder list \<Rightarrow> string list" where
  "sortedGroupKeys E orders = sortBy (env_localeCompare E) (nubFirst (map groupKeyOf orders))"

definition matchGroup :: "env \<Rightarrow> int \<Rightarrow> marketOrder list \<Rightarrow> string \<Rightarrow> db \<Rightarrow> db result" where
  "matchGroup E tick orders groupKey d =
     (let group = filter (\<lambda>x. groupKeyOf x = groupKey) orders in
      andThen (planOrderMatchesForItem E (filter (\<lambda>x. ord_side x = BUY) group)
        (filter (\<lambda>x. ord_side x \<noteq> BUY) group)) (\<lambda>plans.
      forEach (\<lambda>plan. settleMatch E plan tick) plans d))"

definition runMarketMatchingForTick :: "env \<Rightarrow> int \<Rightarrow> db \<Rightarrow> db result" where
  "runMarketMatchingForTick E tick d =
     (let orders = openOrders d in
      forEach (matchGroup E tick orders) (sortedGroupKeys E orders) d)"

definition runMarketMatchingForCurrentTick :: "env \<Rightarrow> db \<Rightarrow> unit result \<times> db" where
  "runMarketMatchingForCurrentTick E d =
     transaction (\<lambda>d. andThen (runMarketMatchingForTick E (worldTick d) d) (\<lambda>d. Inr ((), d))) d"

subsection \<open>The planner\<close>

text \<open>
  A side of the book in priority order: distinct orders with something left, best price first
  (\<open>key\<close> is the negated price for buys, the price for sells).
\<close>

definition bookSide :: "(marketOrder \<Rightarrow> int) \<Rightarrow> marketOrder list \<Rightarrow> bool" where
  "bookSide key xs \<longleftrightarrow> distinct (map ord_id xs) \<and> (\<forall>x\<in>set xs. 0 < ord_remainingQuantity x) \<and>
     sorted (map key xs)"

definition planned :: "(matchPlan \<Rightarrow> string) \<Rightarrow> string \<Rightarrow> matchPlan list \<Rightarrow> int" where
  "planned side oid ps = (\<Sum>p\<leftarrow>ps. if side p = oid then mp_quantity p else 0)"

lemma planned_simps [simp]:
  "planned side oid [] = 0"
  "planned side oid (p # ps) = (if side p = oid then mp_quantity p else 0) + planned side oid ps"
  by (simp_all add: planned_def)

lemma planned_absent: "oid \<notin> side ` set ps \<Longrightarrow> planned side oid ps = 0"
  by (induction ps) auto

lemma bookSide_takeHead:
  assumes "bookSide key (x # xs)" and "qty \<le> ord_remainingQuantity x"
    and "\<And>x n. key (x\<lparr>ord_remainingQuantity := n\<rparr>) = key x"
  shows "bookSide key (takeHead qty x xs)"
  using assms by (auto simp: bookSide_def takeHead_def Let_def)

lemma bookSide_id:
  "bookSide key (x # xs) \<Longrightarrow> y \<in> set (x # xs) \<Longrightarrow> ord_id y = ord_id x \<longleftrightarrow> y = x"
  by (auto simp: bookSide_def image_iff)

lemma takeHead_origin:
  assumes "y \<in> set (takeHead qty x xs)"
  shows "\<exists>z\<in>set (x # xs). ord_id y = ord_id z \<and> ord_unitPriceCents y = ord_unitPriceCents z"
  using assms by (auto simp: takeHead_def Let_def split: if_splits)

text \<open>An order's remainder after the head was taken from.\<close>

lemma takeHead_remaining:
  assumes "bookSide key (x # xs)" and "y \<in> set (x # xs)"
  shows "(\<exists>z\<in>set (takeHead qty x xs). ord_id z = ord_id y \<and>
        ord_unitPriceCents z = ord_unitPriceCents y \<and>
        ord_remainingQuantity z = ord_remainingQuantity y - (if y = x then qty else 0)) \<or>
    (y = x \<and> ord_remainingQuantity x = qty \<and> ord_id x \<notin> ord_id ` set (takeHead qty x xs))"
  using assms by (auto simp: takeHead_def Let_def bookSide_def)

lemma executionPrice_between:
  "ord_unitPriceCents s \<le> ord_unitPriceCents b \<Longrightarrow>
     ord_unitPriceCents s \<le> resolveExecutionPrice E b s \<and>
     resolveExecutionPrice E b s \<le> ord_unitPriceCents b"
  by (simp add: resolveExecutionPrice_def)

lemma matchOrders_plans:
  assumes "bookSide (\<lambda>x. - ord_unitPriceCents x) bs" and "bookSide ord_unitPriceCents ss"
  shows "p \<in> set (matchOrders E bs ss) \<Longrightarrow>
    0 < mp_quantity p \<and>
    (\<exists>b\<in>set bs. \<exists>s\<in>set ss. mp_buyOrderId p = ord_id b \<and> mp_sellOrderId p = ord_id s \<and>
       ord_unitPriceCents s \<le> mp_unitPriceCents p \<and> mp_unitPriceCents p \<le> ord_unitPriceCents b)"
  using assms
proof (induction E bs ss rule: matchOrders.induct)
  case (3 E b bs s ss)
  let ?q = "min (ord_remainingQuantity b) (ord_remainingQuantity s)"
  show ?case
  proof (cases "ord_unitPriceCents b < ord_unitPriceCents s")
    case True
    then show ?thesis using 3 by simp
  next
    case False
    have side: "bookSide (\<lambda>x. - ord_unitPriceCents x) (takeHead ?q b bs)"
      "bookSide ord_unitPriceCents (takeHead ?q s ss)"
      using bookSide_takeHead [OF 3(3), of ?q] bookSide_takeHead [OF 3(4), of ?q] by auto
    from 3(2) False consider "p = newMatch E b s"
      | "p \<in> set (matchOrders E (takeHead ?q b bs) (takeHead ?q s ss))"
      by (auto simp: Let_def)
    then show ?thesis
    proof cases
      case 1
      have "0 < ?q" using 3(3,4) by (simp add: bookSide_def)
      with 1 False executionPrice_between [of s b E] show ?thesis by (auto simp: newMatch_def)
    next
      case 2
      from 3(1) [OF False refl 2 side] obtain b' s' where
        "0 < mp_quantity p" "b' \<in> set (takeHead ?q b bs)" "s' \<in> set (takeHead ?q s ss)"
        and p: "mp_buyOrderId p = ord_id b'" "mp_sellOrderId p = ord_id s'"
          "ord_unitPriceCents s' \<le> mp_unitPriceCents p" "mp_unitPriceCents p \<le> ord_unitPriceCents b'"
        by blast
      moreover from takeHead_origin [OF this(2)] takeHead_origin [OF this(3)] obtain b'' s'' where
        "b'' \<in> set (b # bs)" "s'' \<in> set (s # ss)" "ord_id b' = ord_id b''"
        "ord_unitPriceCents b' = ord_unitPriceCents b''" "ord_id s' = ord_id s''"
        "ord_unitPriceCents s' = ord_unitPriceCents s''" by blast
      ultimately show ?thesis by (metis p)
    qed
  qed
qed simp_all

lemma matchOrders_absent:
  assumes "bookSide (\<lambda>x. - ord_unitPriceCents x) bs" and "bookSide ord_unitPriceCents ss"
  shows "oid \<notin> ord_id ` set bs \<Longrightarrow> planned mp_buyOrderId oid (matchOrders E bs ss) = 0"
    and "oid \<notin> ord_id ` set ss \<Longrightarrow> planned mp_sellOrderId oid (matchOrders E bs ss) = 0"
  by (rule planned_absent, use matchOrders_plans [OF assms] in fastforce)+

text \<open>No order is filled beyond its remainder, and afterwards the book is not crossed.\<close>

lemma matchOrders_fills:
  assumes "bookSide (\<lambda>x. - ord_unitPriceCents x) bs" and "bookSide ord_unitPriceCents ss"
  shows "(\<forall>b\<in>set bs. planned mp_buyOrderId (ord_id b) (matchOrders E bs ss) \<le> ord_remainingQuantity b) \<and>
    (\<forall>s\<in>set ss. planned mp_sellOrderId (ord_id s) (matchOrders E bs ss) \<le> ord_remainingQuantity s) \<and>
    (\<forall>b\<in>set bs. \<forall>s\<in>set ss.
       planned mp_buyOrderId (ord_id b) (matchOrders E bs ss) < ord_remainingQuantity b \<and>
       planned mp_sellOrderId (ord_id s) (matchOrders E bs ss) < ord_remainingQuantity s \<longrightarrow>
       ord_unitPriceCents b < ord_unitPriceCents s)"
  using assms
proof (induction E bs ss rule: matchOrders.induct)
  case (1 E ss)
  then show ?case by (auto simp: bookSide_def dest!: bspec)
next
  case (2 E b bs)
  then show ?case by (auto simp: bookSide_def)
next
  case (3 E b bs s ss)
  let ?q = "min (ord_remainingQuantity b) (ord_remainingQuantity s)"
  let ?bs = "takeHead ?q b bs" and ?ss = "takeHead ?q s ss"
  show ?case
  proof (cases "ord_unitPriceCents b < ord_unitPriceCents s")
    case True
    have "ord_unitPriceCents b' < ord_unitPriceCents s'"
      if "b' \<in> set (b # bs)" "s' \<in> set (s # ss)" for b' s'
    proof -
      have "ord_unitPriceCents b' \<le> ord_unitPriceCents b" "ord_unitPriceCents s \<le> ord_unitPriceCents s'"
        using that 3(2,3) by (auto simp: bookSide_def)
      with True show ?thesis by linarith
    qed
    with True 3(2,3) show ?thesis by (auto simp: bookSide_def less_imp_le)
  next
    case False
    let ?ps = "matchOrders E ?bs ?ss"
    have side: "bookSide (\<lambda>x. - ord_unitPriceCents x) ?bs" "bookSide ord_unitPriceCents ?ss"
      using bookSide_takeHead [OF 3(2), of ?q] bookSide_takeHead [OF 3(3), of ?q] by auto
    have step: "matchOrders E (b # bs) (s # ss) = newMatch E b s # ?ps"
      using False by (simp add: Let_def)
    note IH = 3(1) [OF False refl side]
    have idb: "ord_id b' = ord_id b \<longleftrightarrow> b' = b" if "b' \<in> set (b # bs)" for b'
      using bookSide_id [OF 3(2) that] .
    have ids: "ord_id s' = ord_id s \<longleftrightarrow> s' = s" if "s' \<in> set (s # ss)" for s'
      using bookSide_id [OF 3(3) that] .
    have pb: "planned mp_buyOrderId (ord_id b') (matchOrders E (b # bs) (s # ss)) =
        (if b' = b then ?q else 0) + planned mp_buyOrderId (ord_id b') ?ps"
      if "b' \<in> set (b # bs)" for b'
      using idb [OF that] unfolding step by (auto simp: newMatch_def)
    have ps: "planned mp_sellOrderId (ord_id s') (matchOrders E (b # bs) (s # ss)) =
        (if s' = s then ?q else 0) + planned mp_sellOrderId (ord_id s') ?ps"
      if "s' \<in> set (s # ss)" for s'
      using ids [OF that] unfolding step by (auto simp: newMatch_def)
    have B: "(\<exists>z\<in>set ?bs. ord_id z = ord_id b' \<and> ord_unitPriceCents z = ord_unitPriceCents b' \<and>
          ord_remainingQuantity z = ord_remainingQuantity b' - (if b' = b then ?q else 0)) \<or>
        planned mp_buyOrderId (ord_id b') (matchOrders E (b # bs) (s # ss)) = ord_remainingQuantity b'"
      if "b' \<in> set (b # bs)" for b'
      using takeHead_remaining [OF 3(2) that, of ?q] pb [OF that] matchOrders_absent(1) [OF side]
      by fastforce
    have S: "(\<exists>z\<in>set ?ss. ord_id z = ord_id s' \<and> ord_unitPriceCents z = ord_unitPriceCents s' \<and>
          ord_remainingQuantity z = ord_remainingQuantity s' - (if s' = s then ?q else 0)) \<or>
        planned mp_sellOrderId (ord_id s') (matchOrders E (b # bs) (s # ss)) = ord_remainingQuantity s'"
      if "s' \<in> set (s # ss)" for s'
      using takeHead_remaining [OF 3(3) that, of ?q] ps [OF that] matchOrders_absent(2) [OF side]
      by fastforce
    show ?thesis
    proof (intro conjI ballI impI)
      fix b' assume b': "b' \<in> set (b # bs)"
      from B [OF b'] IH pb [OF b']
      show "planned mp_buyOrderId (ord_id b') (matchOrders E (b # bs) (s # ss)) \<le> ord_remainingQuantity b'"
        by force
    next
      fix s' assume s': "s' \<in> set (s # ss)"
      from S [OF s'] IH ps [OF s']
      show "planned mp_sellOrderId (ord_id s') (matchOrders E (b # bs) (s # ss)) \<le> ord_remainingQuantity s'"
        by force
    next
      fix b' s' assume b': "b' \<in> set (b # bs)" and s': "s' \<in> set (s # ss)"
        and open': "planned mp_buyOrderId (ord_id b') (matchOrders E (b # bs) (s # ss)) < ord_remainingQuantity b' \<and>
          planned mp_sellOrderId (ord_id s') (matchOrders E (b # bs) (s # ss)) < ord_remainingQuantity s'"
      from B [OF b'] open' obtain zb where zb: "zb \<in> set ?bs" "ord_id zb = ord_id b'"
        "ord_unitPriceCents zb = ord_unitPriceCents b'"
        "ord_remainingQuantity zb = ord_remainingQuantity b' - (if b' = b then ?q else 0)" by auto
      from S [OF s'] open' obtain zs where zs: "zs \<in> set ?ss" "ord_id zs = ord_id s'"
        "ord_unitPriceCents zs = ord_unitPriceCents s'"
        "ord_remainingQuantity zs = ord_remainingQuantity s' - (if s' = s then ?q else 0)" by auto
      from IH zb(1) zs(1) have "planned mp_buyOrderId (ord_id zb) ?ps < ord_remainingQuantity zb \<and>
          planned mp_sellOrderId (ord_id zs) ?ps < ord_remainingQuantity zs \<longrightarrow>
          ord_unitPriceCents zb < ord_unitPriceCents zs" by blast
      with open' pb [OF b'] ps [OF s'] zb(2-4) zs(2-4)
      show "ord_unitPriceCents b' < ord_unitPriceCents s'" by simp
    qed
  qed
qed

lemma bookSide_ordered:
  assumes "distinct (map ord_id xs)"
  shows "bookSide (\<lambda>x. - ord_unitPriceCents x) (orderedBuys E xs)"
    and "bookSide ord_unitPriceCents (orderedSells E xs)"
proof -
  have "sorted (map (\<lambda>x. - ord_unitPriceCents x) (orderedBuys E xs))"
    unfolding orderedBuys_def
    by (rule sortBy_sorted_key) (auto simp: compareBuyPriority_def split: if_splits)
  moreover have "sorted (map ord_unitPriceCents (orderedSells E xs))"
    unfolding orderedSells_def
    by (rule sortBy_sorted_key) (auto simp: compareSellPriority_def split: if_splits)
  ultimately show "bookSide (\<lambda>x. - ord_unitPriceCents x) (orderedBuys E xs)"
    "bookSide ord_unitPriceCents (orderedSells E xs)"
    using assms by (auto simp: bookSide_def orderedBuys_def orderedSells_def distinct_map_filter)
qed

lemma set_ordered [simp]:
  "set (orderedBuys E xs) = {x \<in> set xs. ord_side x = BUY \<and> 0 < ord_remainingQuantity x}"
  "set (orderedSells E xs) = {x \<in> set xs. ord_side x = SELL \<and> 0 < ord_remainingQuantity x}"
  by (auto simp: orderedBuys_def orderedSells_def)

lemma plan_same_region:
  assumes "\<forall>x\<in>set (buys @ sells). ord_regionId x = rid"
  shows "planOrderMatchesForItem E buys sells =
    Inr (matchOrders E (orderedBuys E buys) (orderedSells E sells))"
proof -
  have "\<not> regionMismatch xs" if "set xs \<subseteq> set (buys @ sells)" for xs
    using that assms by (auto simp: regionMismatch_def list_ex_iff subset_iff split: list.splits)
  then have "\<not> regionMismatch buys" "\<not> regionMismatch sells" by auto
  moreover have "\<not> differentRegions buys sells"
    using assms by (auto simp: differentRegions_def split: list.splits)
  ultimately show ?thesis by (simp add: planOrderMatchesForItem_def)
qed

text \<open>
  C3. Planning the matches of a region's orders of an item always succeeds, and the plan is
  right: every match takes a positive quantity at a price between the seller's and the buyer's
  limit; no order is matched beyond its remaining quantity; and no crossing pair is left, that is,
  a buy and a sell order that both keep an unmatched remainder have the buyer's limit below the
  seller's.
\<close>

theorem plan_matches_correct:
  assumes "\<forall>x\<in>set (buys @ sells). ord_regionId x = rid"
    and "distinct (map ord_id buys)" and "distinct (map ord_id sells)"
  shows "\<exists>ps. planOrderMatchesForItem E buys sells = Inr ps \<and>
    (\<forall>p\<in>set ps. 0 < mp_quantity p \<and>
      (\<exists>b\<in>set buys. \<exists>s\<in>set sells. ord_side b = BUY \<and> ord_side s = SELL \<and>
         mp_buyOrderId p = ord_id b \<and> mp_sellOrderId p = ord_id s \<and>
         ord_unitPriceCents s \<le> mp_unitPriceCents p \<and> mp_unitPriceCents p \<le> ord_unitPriceCents b)) \<and>
    (\<forall>b\<in>set buys. ord_side b = BUY \<and> 0 < ord_remainingQuantity b \<longrightarrow>
       planned mp_buyOrderId (ord_id b) ps \<le> ord_remainingQuantity b) \<and>
    (\<forall>s\<in>set sells. ord_side s = SELL \<and> 0 < ord_remainingQuantity s \<longrightarrow>
       planned mp_sellOrderId (ord_id s) ps \<le> ord_remainingQuantity s) \<and>
    (\<forall>b\<in>set buys. \<forall>s\<in>set sells. ord_side b = BUY \<and> ord_side s = SELL \<and>
       planned mp_buyOrderId (ord_id b) ps < ord_remainingQuantity b \<and>
       planned mp_sellOrderId (ord_id s) ps < ord_remainingQuantity s \<longrightarrow>
       ord_unitPriceCents b < ord_unitPriceCents s)"
proof -
  let ?ps = "matchOrders E (orderedBuys E buys) (orderedSells E sells)"
  note side = bookSide_ordered(1) [OF assms(2), of E] bookSide_ordered(2) [OF assms(3), of E]
  note fills = matchOrders_fills [OF side]
  have pos: "0 \<le> planned sel k ?ps" for sel k
    unfolding planned_def
    by (rule sum_list_nonneg_int) (use matchOrders_plans [OF side] in \<open>auto simp: less_imp_le\<close>)
  have "ord_unitPriceCents b < ord_unitPriceCents s"
    if "b \<in> set buys" "s \<in> set sells" "ord_side b = BUY" "ord_side s = SELL"
      "planned mp_buyOrderId (ord_id b) ?ps < ord_remainingQuantity b"
      "planned mp_sellOrderId (ord_id s) ?ps < ord_remainingQuantity s" for b s
  proof -
    have "b \<in> set (orderedBuys E buys)" "s \<in> set (orderedSells E sells)"
      using that pos [of mp_buyOrderId "ord_id b"] pos [of mp_sellOrderId "ord_id s"] by auto
    with fills that(5,6) show ?thesis by blast
  qed
  moreover have "\<forall>p\<in>set ?ps. 0 < mp_quantity p \<and>
      (\<exists>b\<in>set buys. \<exists>s\<in>set sells. ord_side b = BUY \<and> ord_side s = SELL \<and>
         mp_buyOrderId p = ord_id b \<and> mp_sellOrderId p = ord_id s \<and>
         ord_unitPriceCents s \<le> mp_unitPriceCents p \<and> mp_unitPriceCents p \<le> ord_unitPriceCents b)"
    using matchOrders_plans [OF side] by fastforce
  ultimately show ?thesis using plan_same_region [OF assms(1), of E] fills by auto
qed

theorem plan_matches_correct_witness:
  "\<exists>ps. planOrderMatchesForItem fixtureEnv [mkOrder ''o1'' ''a'' ''ore'' BUY 6 100 1]
      [mkOrder ''o2'' ''b'' ''ore'' SELL 4 90 2] = Inr ps \<and>
    planned mp_buyOrderId ''o1'' ps \<le> 6"
proof -
  let ?b = "mkOrder ''o1'' ''a'' ''ore'' BUY 6 100 1" and ?s = "mkOrder ''o2'' ''b'' ''ore'' SELL 4 90 2"
  have "\<forall>x\<in>set ([?b] @ [?s]). ord_regionId x = ''r1''" "distinct (map ord_id [?b])"
    "distinct (map ord_id [?s])" by (simp_all add: mkOrder_def)
  from plan_matches_correct [OF this, of fixtureEnv] show ?thesis by (auto simp: mkOrder_def)
qed

subsection \<open>Settlement conserves cash and stock\<close>

lemma settleMatch_cases:
  assumes "settleMatch E m tick d = Inr d'"
  obtains "d' = d"
  | b s bc sc si d1 d2 d3 t where
      "rowFind ord_id (mp_buyOrderId m) (marketOrders d) = Some b"
      "rowFind ord_id (mp_sellOrderId m) (marketOrders d) = Some s"
      "ord_status b = OrderOPEN" "ord_status s = OrderOPEN"
      "checkMatchedOrders m b s = Inr ()"
      "findCompany (ord_companyId b) d = Some bc" "findCompany (ord_companyId s) d = Some sc"
      "findInventory (ord_companyId s) (ord_itemId s) (ord_regionId s) d = Some si"
      "checkMatchedAccounts m (mp_quantity m * ord_unitPriceCents b)
         (mp_quantity m * mp_unitPriceCents m) bc si = Inr ()"
      "checkBuyerStorage m b s d = Inr ()"
      "settleCash bc sc (mp_quantity m * ord_unitPriceCents b)
         (mp_quantity m * mp_unitPriceCents m) d = Inr d1"
      "settleStock m b si d1 = Inr d2"
      "settleOrders m b s (mp_quantity m * ord_unitPriceCents b) tick t d2 = Inr d3"
      "recordTrade E m b s bc sc (mp_quantity m * ord_unitPriceCents b)
         (mp_quantity m * mp_unitPriceCents m) tick d3 = Inr d'"
  using assms
  by (auto simp: settleMatch_def Let_def andThen_Inr_iff split: option.splits if_splits)

lemma settleCash_economy:
  assumes "settleCash bc sc r n d = Inr d1" and "economyOk d"
    and "findCompany bcid d = Some bc" "findCompany scid d = Some sc"
    and "0 \<le> n" and "r \<le> co_reservedCashCents bc"
    and "co_reservedCashCents bc - r \<le> co_cashCents bc - n"
  shows "economyOk d1 \<and> totalCash d1 = totalCash d"
proof -
  have id: "co_id bc = bcid" "co_id sc = scid"
    using rowFind_key [OF assms(3)] rowFind_key [OF assms(4)] by simp_all
  have ok: "companyOk bc" "companyOk sc"
    using rowsOk_find [OF economyOk_companies [OF assms(2)]] assms(3,4) by blast+
  show ?thesis
  proof (cases "co_id bc = co_id sc")
    case True
    let ?f = "\<lambda>c. c\<lparr>co_cashCents := co_cashCents bc - n + n, co_reservedCashCents := co_reservedCashCents bc - r\<rparr>"
    from assms(1) True obtain c' where u: "updateCompany bcid ?f d = Inr (c', d1)"
      by (auto simp: settleCash_def Let_def andThen_Inr_iff id)
    have "c' = ?f bc" using u assms(3) by (auto simp: result_simps)
    with economyOk_updateCompany [OF u assms(2)] totalCash_economy [OF u assms(2,3)] ok(1) assms(5-7)
    show ?thesis by (simp add: companyOk_iff)
  next
    case False
    let ?f = "\<lambda>c. c\<lparr>co_cashCents := co_cashCents bc - n, co_reservedCashCents := co_reservedCashCents bc - r\<rparr>"
    let ?g = "\<lambda>c. c\<lparr>co_cashCents := co_cashCents sc + n\<rparr>"
    from assms(1) False obtain c1 e c2 where u1: "updateCompany bcid ?f d = Inr (c1, e)"
      and u2: "updateCompany scid ?g e = Inr (c2, d1)"
      by (auto simp: settleCash_def Let_def andThen_Inr_iff id)
    have 1: "c1 = ?f bc" using u1 assms(3) by (auto simp: result_simps)
    have e: "economyOk e \<and> totalCash e = totalCash d - n"
      using economyOk_updateCompany [OF u1 assms(2)] totalCash_economy [OF u1 assms(2,3)] 1 ok(1)
        assms(5-7) by (simp add: companyOk_iff)
    have sc: "findCompany scid e = Some sc"
      using u1 assms(4) False id by (auto simp: result_simps rowFind_rowSet)
    have "c2 = ?g sc" using u2 sc by (auto simp: result_simps)
    with economyOk_updateCompany [OF u2] totalCash_economy [OF u2 _ sc] e ok(2) assms(5)
    show ?thesis by (simp add: companyOk_iff)
  qed
qed

lemma settleStock_economy:
  assumes "settleStock m b si d = Inr d1" and "economyOk d"
    and "rowFind invKey k (inventories d) = Some si" and "fst (snd k) = ord_itemId b"
    and "0 \<le> mp_quantity m" "mp_quantity m \<le> inv_reservedQuantity si"
  shows "economyOk d1 \<and> (\<forall>iid. itemStock iid d1 = itemStock iid d) \<and>
    companies d1 = companies d \<and> marketOrders d1 = marketOrders d"
proof -
  have key: "invKey si = k" using assms(3) by (rule rowFind_key)
  have ok: "inventoryOk si" using rowsOk_find [OF economyOk_inventories [OF assms(2)] assms(3)] .
  let ?f = "\<lambda>r. r\<lparr>inv_quantity := inv_quantity si - mp_quantity m,
             inv_reservedQuantity := inv_reservedQuantity si - mp_quantity m\<rparr>"
  let ?g = "\<lambda>r. r\<lparr>inv_quantity := inv_quantity r + mp_quantity m\<rparr>"
  from assms(1) obtain r1 e r2 where u1: "updateInventory k ?f d = Inr (r1, e)"
    and u2: "upsertInventory (ord_companyId b) (ord_itemId b) (ord_regionId b) ?g (mp_quantity m) 0 e
      = Inr (r2, d1)"
    by (auto simp: settleStock_def andThen_Inr_iff key)
  have "r1 = ?f si" using u1 assms(3) by (auto simp: result_simps)
  then have e: "economyOk e"
    using economyOk_updateInventory [OF u1 assms(2)] ok assms(5,6)
    by (simp add: inventoryOk_iff invKey_def)
  have st: "itemStock iid e = itemStock iid d - (if ord_itemId b = iid then mp_quantity m else 0)" for iid
    using itemStock_updateInventory [OF u1 assms(2,3)] assms(4) by (simp add: invKey_def)
  have "inventoryOk r2"
    using u2 e assms(5) rowsOk_find [OF economyOk_inventories [OF e]]
    by (fastforce simp: upsertInventory_def result_simps inventoryOk_iff split: option.splits)
  then have "economyOk d1"
    using economyOk_upsertInventory [OF u2 e] by (simp add: invKey_def)
  moreover have "itemStock iid d1 = itemStock iid d" for iid
    using itemStock_upsertInventory [OF u2 e, where \<delta> = "mp_quantity m"] st by (simp add: invKey_def)
  moreover have "companies d1 = companies d \<and> marketOrders d1 = marketOrders d"
    using u1 u2 by (auto simp: result_simps upsertInventory_def split: option.splits)
  ultimately show ?thesis by blast
qed

text \<open>Both fills keep the orders well-formed and release the buyer's reserve.\<close>

lemma settleOrders_book:
  assumes "settleOrders m b s r tick t d = Inr d1"
    and "rowsOk ord_id orderOk (marketOrders d)"
    and "rowFind ord_id bid (marketOrders d) = Some b" "rowFind ord_id sid (marketOrders d) = Some s"
    and "ord_status b = OrderOPEN" "ord_status s = OrderOPEN" "ord_side b = BUY" "ord_side s = SELL"
    and "0 < mp_quantity m" "mp_quantity m \<le> ord_remainingQuantity b"
    and "mp_quantity m \<le> ord_remainingQuantity s"
    and "r = mp_quantity m * ord_unitPriceCents b"
  shows "rowsOk ord_id orderOk (marketOrders d1) \<and> companies d1 = companies d \<and>
    inventories d1 = inventories d \<and>
    (\<forall>k. orderReserve k d1 = orderReserve k d - (if k = ord_companyId b then r else 0))"
proof -
  have id: "ord_id b = bid" "ord_id s = sid"
    using rowFind_key [OF assms(3)] rowFind_key [OF assms(4)] by simp_all
  have ne: "bid \<noteq> sid"
  proof
    assume "bid = sid"
    then have "b = s" using assms(3,4) by simp
    then show False using assms(7,8) by simp
  qed
  have ok: "orderOk b" "orderOk s" using rowsOk_find [OF assms(2)] assms(3,4) by blast+
  let ?f = "\<lambda>x. (fillOrder (ord_remainingQuantity b - mp_quantity m) tick t x)
      \<lparr>ord_reservedCashCents := ord_reservedCashCents b - r\<rparr>"
  let ?g = "\<lambda>x. (fillOrder (ord_remainingQuantity s - mp_quantity m) tick t x)
      \<lparr>ord_reservedQuantity := ord_reservedQuantity s - mp_quantity m\<rparr>"
  from assms(1) obtain x e y where u1: "updateMarketOrder bid ?f d = Inr (x, e)"
    and u2: "updateMarketOrder sid ?g e = Inr (y, d1)"
    by (auto simp: settleOrders_def Let_def andThen_Inr_iff id)
  have s: "rowFind ord_id sid (marketOrders e) = Some s"
    using u1 assms(4) ne by (auto simp: result_simps rowFind_rowSet fillOrder_def)
  have x: "x = ?f b" "y = ?g s" using u1 u2 assms(3) s by (auto simp: result_simps)
  have "ord_remainingQuantity b * ord_unitPriceCents b - r =
      (ord_remainingQuantity b - mp_quantity m) * ord_unitPriceCents b"
    using assms(12) by (simp add: left_diff_distrib)
  then have okx: "orderOk x"
    using ok(1) assms(5,7,9,10) unfolding x(1) by (auto simp: orderOk_def fillOrder_def)
  have oky: "orderOk y"
    using ok(2) assms(6,8,9,11) unfolding x(2) by (auto simp: orderOk_def fillOrder_def)
  have e: "rowsOk ord_id orderOk (marketOrders e)"
    using marketOrder.update_ok [OF u1 assms(2) _ okx] by (simp add: fillOrder_def)
  have "rowsOk ord_id orderOk (marketOrders d1)"
    using marketOrder.update_ok [OF u2 e _ oky] by (simp add: fillOrder_def)
  moreover have "orderReserve k e = orderReserve k d - (if k = ord_companyId b then r else 0)" for k
    using orderReserve_rowSet [of e bid ?f d b k] rowsOk_distinct [OF assms(2)] assms(3) u1
    by (auto simp: result_simps fillOrder_def)
  moreover have "orderReserve k d1 = orderReserve k e" for k
    using orderReserve_rowSet [of d1 sid ?g e s k] rowsOk_distinct [OF e] s u2
    by (auto simp: result_simps fillOrder_def)
  moreover have "companies d1 = companies d \<and> inventories d1 = inventories d"
    using u1 u2 by (auto simp: result_simps)
  ultimately show ?thesis by simp
qed

lemma recordTrade_frame:
  "recordTrade E m b s bc sc r n tick d = Inr d' \<Longrightarrow>
     companies d' = companies d \<and> inventories d' = inventories d \<and> marketOrders d' = marketOrders d"
  by (auto simp: recordTrade_def result_simps)

text \<open>Cash stays backed: the buyer's reserve shrinks with its order's.\<close>

lemma settleCash_backed:
  assumes "settleCash bc sc r n d = Inr d1" and "cashBacked d"
    and "distinct (map co_id (companies d))"
    and "findCompany bcid d = Some bc" "findCompany scid d = Some sc"
    and "companies d' = companies d1"
    and "\<And>k. orderReserve k d' = orderReserve k d - (if k = bcid then r else 0)"
  shows "cashBacked d'"
proof -
  have id: "co_id bc = bcid" "co_id sc = scid"
    using rowFind_key [OF assms(4)] rowFind_key [OF assms(5)] by simp_all
  show ?thesis
  proof (cases "bcid = scid")
    case True
    let ?f = "\<lambda>c. c\<lparr>co_cashCents := co_cashCents bc - n + n, co_reservedCashCents := co_reservedCashCents bc - r\<rparr>"
    from assms(1) True have c: "companies d1 = rowSet co_id bcid ?f (companies d)"
      by (auto simp: settleCash_def Let_def result_simps id)
    show ?thesis
      by (rule cashBacked_shift [OF assms(2,3,4), where f = ?f and \<delta> = "- r"])
        (use assms(6,7) c in auto)
  next
    case False
    let ?f = "\<lambda>c. c\<lparr>co_cashCents := co_cashCents bc - n, co_reservedCashCents := co_reservedCashCents bc - r\<rparr>"
    let ?g = "\<lambda>c. c\<lparr>co_cashCents := co_cashCents sc + n\<rparr>"
    from assms(1) False have c: "companies d1 = rowSet co_id scid ?g (rowSet co_id bcid ?f (companies d))"
      by (auto simp: settleCash_def Let_def result_simps id)
    let ?e = "d'\<lparr>companies := rowSet co_id bcid ?f (companies d)\<rparr>"
    have e: "orderReserve k ?e = orderReserve k d'" for k by (simp add: orderReserve_def)
    have "cashBacked ?e"
      by (rule cashBacked_shift [OF assms(2,3,4), where f = ?f and \<delta> = "- r"])
        (use assms(7) e in auto)
    then show ?thesis
      by (rule cashBacked_shift [where cid = scid and c = sc and f = ?g and \<delta> = 0])
        (use assms(3,5,6) c e False in \<open>auto simp: row_simps rowFind_rowSet\<close>)
  qed
qed

lemma settleMatch_keeps:
  assumes "settleMatch E m tick d = Inr d'" and "marketOk d"
    and "0 < mp_quantity m" "0 \<le> mp_unitPriceCents m"
  shows "marketOk d' \<and> totalCash d' = totalCash d \<and> (\<forall>iid. itemStock iid d' = itemStock iid d)"
  using assms(1)
proof (cases rule: settleMatch_cases)
  case 1
  then show ?thesis using assms(2) by simp
next
  case (2 b s bc sc si d1 d2 d3 t)
  note ok = marketOkD [OF assms(2)]
  let ?r = "mp_quantity m * ord_unitPriceCents b" and ?n = "mp_quantity m * mp_unitPriceCents m"
  have o: "ord_side b = BUY" "ord_side s = SELL" "ord_itemId b = ord_itemId s"
    "mp_quantity m \<le> ord_remainingQuantity b" "mp_quantity m \<le> ord_remainingQuantity s"
    using 2(5) by (auto simp: checkMatchedOrders_def split: if_splits)
  have a: "mp_quantity m \<le> inv_reservedQuantity si" "?r \<le> co_reservedCashCents bc"
    "co_reservedCashCents bc - ?r \<le> co_cashCents bc - ?n"
    using 2(9) by (auto simp: checkMatchedAccounts_def Let_def split: if_splits)
  have n: "0 \<le> ?n" using assms(3,4) by simp
  have s1: "economyOk d1 \<and> totalCash d1 = totalCash d"
    by (rule settleCash_economy [OF 2(11) ok(1) 2(6,7) n a(2,3)])
  have frame1: "inventories d1 = inventories d \<and> marketOrders d1 = marketOrders d"
    using 2(11) by (auto simp: settleCash_def Let_def result_simps split: if_splits)
  have s2: "economyOk d2 \<and> (\<forall>iid. itemStock iid d2 = itemStock iid d1) \<and>
      companies d2 = companies d1 \<and> marketOrders d2 = marketOrders d1"
    by (rule settleStock_economy [OF 2(12)]) (use s1 frame1 2(8) o(3) a(1) assms(3) in auto)
  have s3: "rowsOk ord_id orderOk (marketOrders d3) \<and> companies d3 = companies d2 \<and>
      inventories d3 = inventories d2 \<and>
      (\<forall>k. orderReserve k d3 = orderReserve k d2 - (if k = ord_companyId b then ?r else 0))"
    by (rule settleOrders_book [OF 2(13)]) (use s2 frame1 2(1-4) ok(2) o assms(3) in auto)
  note s4 = recordTrade_frame [OF 2(14)]
  have res: "orderReserve k d' = orderReserve k d - (if k = ord_companyId b then ?r else 0)" for k
    using s2 s3 s4 frame1 by (simp add: orderReserve_def)
  have "cashBacked d'"
    by (rule settleCash_backed [OF 2(11) ok(3) _ 2(6,7)])
      (use s2 s3 s4 res rowsOk_distinct [OF economyOk_companies [OF ok(1)]] in auto)
  with s1 s2 s3 s4 frame1 show ?thesis
    by (auto simp: marketOk_def economyOk_def totalCash_def itemStock_def)
qed

lemma plans_positive:
  assumes "planOrderMatchesForItem E buys sells = Inr ps" and "p \<in> set ps"
    and "distinct (map ord_id buys)" "distinct (map ord_id sells)"
    and "\<forall>x\<in>set sells. 0 < ord_unitPriceCents x"
  shows "0 < mp_quantity p \<and> 0 \<le> mp_unitPriceCents p"
proof -
  note side = bookSide_ordered(1) [OF assms(3), of E] bookSide_ordered(2) [OF assms(4), of E]
  from assms(1,2) have "p \<in> set (matchOrders E (orderedBuys E buys) (orderedSells E sells))"
    by (auto simp: planOrderMatchesForItem_def split: if_splits)
  from matchOrders_plans [OF side this] assms(5) show ?thesis by fastforce
qed

definition samePosition :: "db \<Rightarrow> db \<Rightarrow> bool" where
  "samePosition d d' \<longleftrightarrow> totalCash d' = totalCash d \<and> (\<forall>iid. itemStock iid d' = itemStock iid d)"

lemma matchGroup_keeps:
  assumes "matchGroup E tick orders g d = Inr d'" and "marketOk d"
    and "distinct (map ord_id orders)" and "\<forall>x\<in>set orders. 0 < ord_unitPriceCents x"
  shows "marketOk d' \<and> samePosition d d'"
proof -
  let ?grp = "filter (\<lambda>x. groupKeyOf x = g) orders"
  let ?buys = "filter (\<lambda>x. ord_side x = BUY) ?grp" and ?sells = "filter (\<lambda>x. ord_side x \<noteq> BUY) ?grp"
  from assms(1) obtain ps where ps: "planOrderMatchesForItem E ?buys ?sells = Inr ps"
    and loop: "forEach (\<lambda>plan. settleMatch E plan tick) ps d = Inr d'"
    by (auto simp: matchGroup_def Let_def andThen_Inr_iff)
  have dist: "distinct (map ord_id ?buys)" "distinct (map ord_id ?sells)"
    using assms(3) by (simp_all add: distinct_map_filter)
  have pos: "\<forall>x\<in>set ?sells. 0 < ord_unitPriceCents x" using assms(4) by simp
  show ?thesis
  proof (rule forEach_invariant [OF loop, where P = "\<lambda>e. marketOk e \<and> samePosition d e"])
    show "marketOk d \<and> samePosition d d" using assms(2) by (simp add: samePosition_def)
  next
    fix p e e'
    assume p: "p \<in> set ps" and e: "marketOk e \<and> samePosition d e" and s: "settleMatch E p tick e = Inr e'"
    from plans_positive [OF ps p dist pos] settleMatch_keeps [OF s] e
    show "marketOk e' \<and> samePosition d e'" by (simp add: samePosition_def)
  qed
qed

lemma matching_keeps:
  assumes "runMarketMatchingForTick E tick d = Inr d'" and "marketOk d"
  shows "marketOk d' \<and> samePosition d d'"
proof -
  let ?os = "openOrders d"
  have rows: "rowsOk ord_id orderOk (marketOrders d)" by (rule marketOkD [OF assms(2)])
  then have dist: "distinct (map ord_id ?os)"
    by (auto simp: openOrders_def rowsOk_def distinct_map_filter)
  have pos: "\<forall>x\<in>set ?os. 0 < ord_unitPriceCents x"
    using rows by (auto simp: openOrders_def rowsOk_def orderOk_def)
  from assms(1) have loop: "forEach (matchGroup E tick ?os) (sortedGroupKeys E ?os) d = Inr d'"
    by (simp add: runMarketMatchingForTick_def Let_def)
  show ?thesis
  proof (rule forEach_invariant [OF loop, where P = "\<lambda>e. marketOk e \<and> samePosition d e"])
    show "marketOk d \<and> samePosition d d" using assms(2) by (simp add: samePosition_def)
  next
    fix g e e'
    assume e: "marketOk e \<and> samePosition d e" and s: "matchGroup E tick ?os g e = Inr e'"
    from matchGroup_keeps [OF s _ dist pos] e show "marketOk e' \<and> samePosition d e'"
      by (simp add: samePosition_def)
  qed
qed

subsection \<open>Properties of settlement\<close>

text \<open>
  C4. Settling a planned match creates and destroys nothing: the total cash of all companies and
  the stock of every item are unchanged, and the market's invariant holds afterwards (the buyer's
  reserve shrinks exactly with its order, balances still cover reserves), also when a company
  trades with itself.
\<close>

theorem settlement_conserves:
  assumes "settleMatch E m tick d = Inr d'" and "marketOk d"
    and "0 < mp_quantity m" "0 \<le> mp_unitPriceCents m"
  shows "marketOk d' \<and> totalCash d' = totalCash d \<and> (\<forall>iid. itemStock iid d' = itemStock iid d)"
  by (rule settleMatch_keeps [OF assms])

definition fixtureMatch :: matchPlan where
  "fixtureMatch = \<lparr>mp_itemId = ''ore'', mp_regionId = ''r1'', mp_buyOrderId = ''o1'',
     mp_sellOrderId = ''o2'', mp_quantity = 4, mp_unitPriceCents = 100\<rparr>"

theorem settlement_conserves_witness:
  "\<exists>d'. settleMatch fixtureEnv fixtureMatch 7 fixtureDb = Inr d' \<and>
     totalCash d' = totalCash fixtureDb \<and> itemStock ''ore'' d' = itemStock ''ore'' fixtureDb \<and>
     trades d' \<noteq> []"
proof -
  have "case settleMatch fixtureEnv fixtureMatch 7 fixtureDb of Inl _ \<Rightarrow> False | Inr d' \<Rightarrow> trades d' \<noteq> []"
    by code_simp
  then obtain d' where *: "settleMatch fixtureEnv fixtureMatch 7 fixtureDb = Inr d'" "trades d' \<noteq> []"
    by (auto split: sum.splits)
  have "0 < mp_quantity fixtureMatch" "0 \<le> mp_unitPriceCents fixtureMatch"
    by (simp_all add: fixtureMatch_def)
  from settlement_conserves [OF *(1) fixture_marketOk this] * show ?thesis by blast
qed

text \<open>
  C2. The matching pass of a tick, over all items and regions, conserves the total cash and the
  stock of every item and keeps the market's invariant.
\<close>

theorem matching_pass_conserves:
  assumes "runMarketMatchingForTick E tick d = Inr d'" and "marketOk d"
  shows "marketOk d' \<and> totalCash d' = totalCash d \<and> (\<forall>iid. itemStock iid d' = itemStock iid d)"
  using matching_keeps [OF assms] by (simp add: samePosition_def)

theorem matching_pass_conserves_witness:
  "\<exists>d'. runMarketMatchingForTick fixtureEnv 7 fixtureDb = Inr d' \<and>
     totalCash d' = totalCash fixtureDb \<and> marketOk d' \<and> trades d' \<noteq> []"
proof -
  have "case runMarketMatchingForTick fixtureEnv 7 fixtureDb of Inl _ \<Rightarrow> False | Inr d' \<Rightarrow> trades d' \<noteq> []"
    by code_simp
  then obtain d' where *: "runMarketMatchingForTick fixtureEnv 7 fixtureDb = Inr d'" "trades d' \<noteq> []"
    by (auto split: sum.splits)
  from matching_pass_conserves [OF *(1) fixture_marketOk] * show ?thesis by blast
qed

subsection \<open>The stage's contract\<close>

lemma settleMatch_masters:
  assumes "settleMatch E m tick d = Inr d'"
  shows "masters d' = masters d"
proof -
  have cash: "settleCash b s x y e = Inr e' \<Longrightarrow> masters e' = masters e" for b s x y e e'
    by (auto simp: settleCash_def Let_def andThen_Inr_iff branch_Inr updateRow_Inr masters_def split: if_splits)
  have stock: "settleStock m x y e = Inr e' \<Longrightarrow> masters e' = masters e" for x y e e'
    by (auto simp: settleStock_def andThen_Inr_iff updateRow_Inr createRow_Inr upsertInventory_def
        masters_def split: option.splits)
  have orders: "settleOrders m x y r t u e = Inr e' \<Longrightarrow> masters e' = masters e" for x y r t u e e'
    by (auto simp: settleOrders_def Let_def andThen_Inr_iff updateRow_Inr masters_def)
  have trade: "recordTrade E m x y b s r n t e = Inr e' \<Longrightarrow> masters e' = masters e" for x y b s r n t e e'
    by (auto simp: recordTrade_def andThen_Inr_iff createRow_Inr createLedgerEntry_Inr masters_def)
  show ?thesis
    using assms
    by (auto simp: settleMatch_def andThen_Inr_iff branch_Inr Let_def split: option.splits if_splits
        dest!: cash stock orders trade)
qed

lemma matching_masters:
  assumes "runMarketMatchingForTick E tick d = Inr d'"
  shows "masters d' = masters d"
proof -
  have group: "masters e' = masters e" if run: "matchGroup E tick os g e = Inr e'" for os g e e'
  proof -
    from run obtain ps where loop: "forEach (\<lambda>plan. settleMatch E plan tick) ps e = Inr e'"
      by (auto simp: matchGroup_def Let_def andThen_Inr_iff)
    show ?thesis
      by (rule forEach_invariant [OF loop, where P = "\<lambda>x. masters x = masters e"])
        (simp_all add: settleMatch_masters)
  qed
  from assms have loop: "forEach (matchGroup E tick (openOrders d)) (sortedGroupKeys E (openOrders d)) d = Inr d'"
    by (simp add: runMarketMatchingForTick_def Let_def)
  show ?thesis
    by (rule forEach_invariant [OF loop, where P = "\<lambda>x. masters x = masters d"]) (simp_all add: group)
qed

interpretation matchingStage: tick_stage "runMarketMatchingForTick E tick" for E tick
proof
  fix d d'
  assume run: "runMarketMatchingForTick E tick d = Inr d'" and "tickOk d"
  with matching_keeps [OF run] matching_masters [OF run]
  show "marketOk d' \<and> masters d' = masters d \<and> totalCash d' \<le> totalCash d"
    by (simp add: tickOk_def samePosition_def)
qed

end
