(* ===== verification/MarketCandles.thy ===== *)
theory MarketCandles
  imports MarketMatching
begin

section \<open>Market candles\<close>

text \<open>
  \<open>packages/sim/src/services/market-candles.ts\<close>: the trades of a tick are grouped by region and
  item, each group becomes a candle (open, high, low, close, volume, volume-weighted average
  price), and the candles are upserted.
\<close>

definition compareTradesByTime :: "env \<Rightarrow> trade \<Rightarrow> trade \<Rightarrow> int" where
  "compareTradesByTime E left right =
     (let delta = tr_createdAt left - tr_createdAt right in
      if delta \<noteq> 0 then delta else env_localeCompare E (tr_id left) (tr_id right))"

definition validateTick :: "jsnum \<Rightarrow> unit result" where
  "validateTick tick =
     throwIf (\<not> isInteger tick \<or> num tick < 0)
       (DomainInvariantError ''tick must be a non-negative integer'')"

definition validateTradeRow :: "trade \<Rightarrow> unit result" where
  "validateTradeRow t =
     (if tr_itemId t = [] then Inl (DomainInvariantError ''trade itemId is required'')
      else if tr_regionId t = [] then Inl (DomainInvariantError ''trade regionId is required'')
      else if tr_unitPriceCents t \<le> 0
        then Inl (DomainInvariantError ''trade unitPriceCents must be positive'')
      else if tr_quantity t \<le> 0
        then Inl (DomainInvariantError ''trade quantity must be a positive integer'')
      else Inr ())"

definition tradeGroupKey :: "trade \<Rightarrow> string" where
  "tradeGroupKey t = tr_regionId t @ '':'' @ tr_itemId t"

text \<open>The accumulators of the loop over a group: high, low, volume, notional.\<close>

definition candleStep :: "trade \<Rightarrow> int \<times> int \<times> int \<times> int \<Rightarrow> int \<times> int \<times> int \<times> int" where
  "candleStep t = (\<lambda>(high, low, volume, notional).
     (if tr_unitPriceCents t > high then tr_unitPriceCents t else high,
      if tr_unitPriceCents t < low then tr_unitPriceCents t else low,
      volume + tr_quantity t,
      notional + tr_unitPriceCents t * tr_quantity t))"

definition computeCandle :: "int \<Rightarrow> trade list \<Rightarrow> itemTickCandle result" where
  "computeCandle tick itemTrades =
     (let firstTrade = hd itemTrades; lastTrade = last itemTrades;
          (high, low, volume, notional) =
            fold candleStep itemTrades
              (tr_unitPriceCents firstTrade, tr_unitPriceCents firstTrade, 0, 0) in
      if volume \<le> 0
        then Inl (DomainInvariantError ''candle volume must be a positive integer'')
      else
        (let vwap = (notional + volume div 2) sdiv volume in
         Inr \<lparr>cd_itemId = tr_itemId firstTrade, cd_regionId = tr_regionId firstTrade,
              cd_tick = tick, cd_openCents = tr_unitPriceCents firstTrade, cd_highCents = high,
              cd_lowCents = low, cd_closeCents = tr_unitPriceCents lastTrade,
              cd_volumeQty = volume, cd_tradeCount = int (length itemTrades),
              cd_vwapCents = Some vwap\<rparr>))"

definition groupTrades :: "env \<Rightarrow> trade list \<Rightarrow> string \<Rightarrow> trade list" where
  "groupTrades E ts key =
     sortBy (compareTradesByTime E) (filter (\<lambda>t. tradeGroupKey t = key) ts)"

definition computeTickCandlesFromTrades ::
    "env \<Rightarrow> jsnum \<Rightarrow> trade list \<Rightarrow> itemTickCandle list result" where
  "computeTickCandlesFromTrades E tick ts =
     andThen (validateTick tick) (\<lambda>_.
     if ts = [] then Inr []
     else
       andThen (forEach (\<lambda>t _. validateTradeRow t) ts ()) (\<lambda>_.
       (let sortedKeys = sortBy (env_localeCompare E) (nubFirst (map tradeGroupKey ts)) in
        forEach (\<lambda>key candles.
          (let itemTrades = groupTrades E ts key in
           if itemTrades = [] then Inr candles
           else andThen (computeCandle (num tick) itemTrades) (\<lambda>c. Inr (candles @ [c]))))
          sortedKeys [])))"

definition candleKey :: "itemTickCandle \<Rightarrow> string \<times> string \<times> int" where
  "candleKey c = (cd_itemId c, cd_regionId c, cd_tick c)"

text \<open>\<open>upsert\<close> by the key: the update branch writes every other column.\<close>

definition upsertCandle :: "itemTickCandle \<Rightarrow> itemTickCandle list \<Rightarrow> itemTickCandle list" where
  "upsertCandle c rows =
     (case rowFind candleKey (candleKey c) rows of
       None \<Rightarrow> rows @ [c]
     | Some _ \<Rightarrow> rowSet candleKey (candleKey c)
         (\<lambda>r. r\<lparr>cd_openCents := cd_openCents c, cd_highCents := cd_highCents c,
           cd_lowCents := cd_lowCents c, cd_closeCents := cd_closeCents c,
           cd_volumeQty := cd_volumeQty c, cd_tradeCount := cd_tradeCount c,
           cd_vwapCents := cd_vwapCents c\<rparr>) rows)"

definition upsertMarketCandlesForTick :: "env \<Rightarrow> jsnum \<Rightarrow> db \<Rightarrow> db result" where
  "upsertMarketCandlesForTick E tick d =
     andThen (validateTick tick) (\<lambda>_.
     andThen (computeTickCandlesFromTrades E tick (filter (\<lambda>t. tr_tick t = num tick) (trades d)))
       (\<lambda>candles. Inr (d\<lparr>itemTickCandles := fold upsertCandle candles (itemTickCandles d)\<rparr>)))"

subsection \<open>One candle\<close>

lemma fold_candleStep:
  assumes "\<forall>t\<in>set ts. lo \<le> tr_unitPriceCents t \<and> tr_unitPriceCents t \<le> hi \<and> 0 < tr_quantity t"
    and "fold candleStep ts (h, l, v, n) = (high, low, volume, notional)"
  shows "h \<le> high \<and> low \<le> l \<and>
    (\<forall>t\<in>set ts. low \<le> tr_unitPriceCents t \<and> tr_unitPriceCents t \<le> high) \<and>
    volume = v + (\<Sum>t\<leftarrow>ts. tr_quantity t) \<and>
    notional = n + (\<Sum>t\<leftarrow>ts. tr_unitPriceCents t * tr_quantity t)"
  using assms
proof (induction ts arbitrary: h l v n)
  case (Cons t ts)
  obtain h' l' v' n' where st: "candleStep t (h, l, v, n) = (h', l', v', n')" by (metis surj_pair)
  from Cons.prems have "fold candleStep ts (h', l', v', n') = (high, low, volume, notional)"
    by (simp add: st)
  from Cons.IH [OF _ this] Cons.prems(1) st show ?case
    by (auto simp: candleStep_def split: if_splits)
qed simp

lemma weighted_bounds:
  assumes "\<forall>t\<in>set ts. lo \<le> tr_unitPriceCents t \<and> tr_unitPriceCents t \<le> hi \<and> 0 < tr_quantity t"
  shows "lo * (\<Sum>t\<leftarrow>ts. tr_quantity t) \<le> (\<Sum>t\<leftarrow>ts. tr_unitPriceCents t * tr_quantity t)"
    and "(\<Sum>t\<leftarrow>ts. tr_unitPriceCents t * tr_quantity t) \<le> hi * (\<Sum>t\<leftarrow>ts. tr_quantity t)"
proof -
  have "(\<Sum>t\<leftarrow>ts. lo * tr_quantity t) \<le> (\<Sum>t\<leftarrow>ts. tr_unitPriceCents t * tr_quantity t)"
    by (rule sum_list_mono_int) (use assms in \<open>auto intro: mult_right_mono\<close>)
  then show "lo * (\<Sum>t\<leftarrow>ts. tr_quantity t) \<le> (\<Sum>t\<leftarrow>ts. tr_unitPriceCents t * tr_quantity t)"
    by (simp add: sum_list_const_mult)
  have "(\<Sum>t\<leftarrow>ts. tr_unitPriceCents t * tr_quantity t) \<le> (\<Sum>t\<leftarrow>ts. hi * tr_quantity t)"
    by (rule sum_list_mono_int) (use assms in \<open>auto intro: mult_right_mono\<close>)
  then show "(\<Sum>t\<leftarrow>ts. tr_unitPriceCents t * tr_quantity t) \<le> hi * (\<Sum>t\<leftarrow>ts. tr_quantity t)"
    by (simp add: sum_list_const_mult)
qed

lemma rounded_mean_bounds:
  fixes v :: int
  assumes "0 < v" "lo * v \<le> n" "n \<le> hi * v" "0 < lo"
  shows "lo \<le> (n + v div 2) sdiv v \<and> (n + v div 2) sdiv v \<le> hi"
proof -
  have pos: "0 \<le> n" using assms by (meson less_imp_le mult_nonneg_nonneg order_trans)
  then have eq: "(n + v div 2) sdiv v = (n + v div 2) div v"
    using assms(1) by (simp add: signed_divide_int_def sgn_if)
  have "lo * v div v \<le> (n + v div 2) div v"
    by (rule zdiv_mono1) (use assms in simp_all)
  moreover have "(n + v div 2) div v \<le> (v div 2 + hi * v) div v"
    by (rule zdiv_mono1) (use assms in simp_all)
  moreover have "(v div 2) div v = 0" using assms(1) by (intro div_pos_pos_trivial) auto
  ultimately show ?thesis using assms(1) by (simp add: eq)
qed

lemma fold_low_price:
  "fold candleStep ts (h, l, v, n) = (high, low, volume, notional) \<Longrightarrow>
     low = l \<or> low \<in> tr_unitPriceCents ` set ts"
proof (induction ts arbitrary: h l v n)
  case (Cons t ts)
  obtain h' l' v' n' where st: "candleStep t (h, l, v, n) = (h', l', v', n')" by (metis surj_pair)
  with Cons.prems Cons.IH [of h' l' v' n'] show ?case
    by (auto simp: candleStep_def split: if_splits)
qed simp

definition candleOf :: "trade list \<Rightarrow> itemTickCandle \<Rightarrow> bool" where
  "candleOf ts c \<longleftrightarrow>
     cd_volumeQty c = (\<Sum>t\<leftarrow>ts. tr_quantity t) \<and> cd_tradeCount c = int (length ts) \<and>
     (\<forall>t\<in>set ts. cd_lowCents c \<le> tr_unitPriceCents t \<and> tr_unitPriceCents t \<le> cd_highCents c) \<and>
     cd_lowCents c \<le> cd_openCents c \<and> cd_openCents c \<le> cd_highCents c \<and>
     cd_lowCents c \<le> cd_closeCents c \<and> cd_closeCents c \<le> cd_highCents c \<and>
     (\<exists>v. cd_vwapCents c = Some v \<and> cd_lowCents c \<le> v \<and> v \<le> cd_highCents c)"

lemma computeCandle_ok:
  assumes "computeCandle tick ts = Inr c" and "ts \<noteq> []"
    and "\<forall>t\<in>set ts. 0 < tr_unitPriceCents t \<and> 0 < tr_quantity t"
  shows "candleOf ts c"
proof -
  let ?p = "tr_unitPriceCents (hd ts)"
  obtain high low volume notional where f: "fold candleStep ts (?p, ?p, 0, 0) = (high, low, volume, notional)"
    by (metis surj_pair)
  from assms(1) f have v: "0 < volume" and c: "cd_volumeQty c = volume" "cd_lowCents c = low"
      "cd_highCents c = high" "cd_openCents c = ?p" "cd_closeCents c = tr_unitPriceCents (last ts)"
      "cd_tradeCount c = int (length ts)" "cd_vwapCents c = Some ((notional + volume div 2) sdiv volume)"
    by (auto simp: computeCandle_def Let_def split: if_splits)
  have "\<exists>lo hi. \<forall>t\<in>set ts. lo \<le> tr_unitPriceCents t \<and> tr_unitPriceCents t \<le> hi"
    by (rule exI [of _ "Min (tr_unitPriceCents ` set ts)"], rule exI [of _ "Max (tr_unitPriceCents ` set ts)"])
      simp
  then obtain lo hi where b: "\<forall>t\<in>set ts. lo \<le> tr_unitPriceCents t \<and> tr_unitPriceCents t \<le> hi \<and> 0 < tr_quantity t"
    using assms(3) by blast
  note r = fold_candleStep [OF b f]
  have b2: "\<forall>t\<in>set ts. low \<le> tr_unitPriceCents t \<and> tr_unitPriceCents t \<le> high \<and> 0 < tr_quantity t"
    using r assms(3) by blast
  have "low \<in> tr_unitPriceCents ` set ts"
    using fold_low_price [OF f] assms(2) by auto
  then have "0 < low" using assms(3) by auto
  with rounded_mean_bounds [OF v] weighted_bounds [OF b2] r
  have "low \<le> (notional + volume div 2) sdiv volume \<and> (notional + volume div 2) sdiv volume \<le> high" by simp
  moreover have "hd ts \<in> set ts" "last ts \<in> set ts" using assms(2) by auto
  ultimately show ?thesis using r c by (auto simp: candleOf_def)
qed

subsection \<open>All candles of a tick\<close>

lemma validateTradeRow_iff [result_simps]:
  "validateTradeRow t = Inr u \<longleftrightarrow>
     tr_itemId t \<noteq> [] \<and> tr_regionId t \<noteq> [] \<and> 0 < tr_unitPriceCents t \<and> 0 < tr_quantity t"
  by (auto simp: validateTradeRow_def)

lemma validated_trades:
  "forEach (\<lambda>t _. validateTradeRow t) ts () = Inr () \<Longrightarrow>
     \<forall>t\<in>set ts. 0 < tr_unitPriceCents t \<and> 0 < tr_quantity t"
  by (induction ts) (auto simp: result_simps)

lemma collect_candles:
  assumes "forEach (\<lambda>key candles.
          (let itemTrades = groupTrades E ts key in
           if itemTrades = [] then Inr candles
           else andThen (computeCandle tick itemTrades) (\<lambda>c. Inr (candles @ [c])))) ks acc = Inr cs"
    and "\<forall>k\<in>set ks. groupTrades E ts k \<noteq> []"
  shows "\<exists>new. cs = acc @ new \<and> list_all2 (\<lambda>k c. computeCandle tick (groupTrades E ts k) = Inr c) ks new"
  using assms
proof (induction ks arbitrary: acc)
  case (Cons k ks)
  from Cons.prems obtain c where c: "computeCandle tick (groupTrades E ts k) = Inr c"
    and rest: "forEach (\<lambda>key candles.
          (let itemTrades = groupTrades E ts key in
           if itemTrades = [] then Inr candles
           else andThen (computeCandle tick itemTrades) (\<lambda>c. Inr (candles @ [c])))) ks (acc @ [c]) = Inr cs"
    by (auto simp: andThen_Inr_iff Let_def)
  from Cons.IH [OF rest] Cons.prems(2) obtain new where "cs = (acc @ [c]) @ new"
    "list_all2 (\<lambda>k c. computeCandle tick (groupTrades E ts k) = Inr c) ks new" by auto
  with c show ?case by (intro exI [of _ "c # new"]) simp
qed simp

lemma groupTrades_nonempty:
  "k \<in> set (nubFirst (map tradeGroupKey ts)) \<Longrightarrow> groupTrades E ts k \<noteq> []"
proof -
  assume "k \<in> set (nubFirst (map tradeGroupKey ts))"
  then obtain t where "t \<in> set (groupTrades E ts k)" by (auto simp: groupTrades_def)
  then show ?thesis by auto
qed

lemma computeTickCandles_groups:
  assumes "computeTickCandlesFromTrades E tick ts = Inr cs"
  shows "\<exists>ks. distinct ks \<and> set ks = tradeGroupKey ` set ts \<and>
    list_all2 (\<lambda>k c. computeCandle (num tick) (groupTrades E ts k) = Inr c) ks cs \<and>
    (\<forall>t\<in>set ts. 0 < tr_unitPriceCents t \<and> 0 < tr_quantity t)"
proof (cases "ts = []")
  case True
  with assms show ?thesis by (auto simp: computeTickCandlesFromTrades_def andThen_Inr_iff)
next
  case False
  let ?ks = "sortBy (env_localeCompare E) (nubFirst (map tradeGroupKey ts))"
  from assms False have v: "forEach (\<lambda>t _. validateTradeRow t) ts () = Inr ()"
    and loop: "forEach (\<lambda>key candles.
          (let itemTrades = groupTrades E ts key in
           if itemTrades = [] then Inr candles
           else andThen (computeCandle (num tick) itemTrades) (\<lambda>c. Inr (candles @ [c])))) ?ks [] = Inr cs"
    by (auto simp: computeTickCandlesFromTrades_def andThen_Inr_iff Let_def)
  have "\<forall>k\<in>set ?ks. groupTrades E ts k \<noteq> []" using groupTrades_nonempty by simp
  from collect_candles [OF loop this] have
    "list_all2 (\<lambda>k c. computeCandle (num tick) (groupTrades E ts k) = Inr c) ?ks cs" by simp
  with validated_trades [OF v] show ?thesis by (intro exI [of _ ?ks]) simp
qed

lemma set_groupTrades [simp]: "set (groupTrades E ts k) = {t \<in> set ts. tradeGroupKey t = k}"
  by (auto simp: groupTrades_def)

lemma sum_groupTrades:
  fixes g :: "trade \<Rightarrow> int"
  shows "(\<Sum>t\<leftarrow>groupTrades E ts k. g t) = (\<Sum>t\<leftarrow>filter (\<lambda>t. tradeGroupKey t = k) ts. g t)"
  unfolding groupTrades_def by (metis mset_map_sortBy sum_mset_sum_list)

lemma candles_sum:
  fixes g :: "trade \<Rightarrow> int"
  assumes "list_all2 (\<lambda>k c. h c = (\<Sum>t\<leftarrow>groupTrades E ts k. g t)) ks cs"
    and "distinct ks" "set ks = tradeGroupKey ` set ts"
  shows "(\<Sum>c\<leftarrow>cs. h c) = (\<Sum>t\<leftarrow>ts. g t)"
proof -
  have "(\<Sum>c\<leftarrow>cs. h c) = (\<Sum>k\<leftarrow>ks. \<Sum>t\<leftarrow>filter (\<lambda>t. tradeGroupKey t = k) ts. g t)"
    using assms(1) by (induction rule: list_all2_induct) (simp_all add: sum_groupTrades)
  with sum_groups [OF assms(2), of tradeGroupKey ts g] assms(3) show ?thesis by simp
qed

subsection \<open>Upserting\<close>

lemma upsertCandle_rows:
  "set (upsertCandle c rows) = insert c {r \<in> set rows. candleKey r \<noteq> candleKey c}"
proof (cases "rowFind candleKey (candleKey c) rows")
  case None
  then have "upsertCandle c rows = rows @ [c]" by (simp add: upsertCandle_def)
  moreover have "candleKey r \<noteq> candleKey c" if "r \<in> set rows" for r
    using None that by (metis rowFind_None image_eqI)
  ultimately show ?thesis by auto
next
  case (Some x)
  then have x: "x \<in> set rows" "candleKey x = candleKey c" by (auto dest: rowFind_Some)
  let ?f = "\<lambda>r. r\<lparr>cd_openCents := cd_openCents c, cd_highCents := cd_highCents c,
           cd_lowCents := cd_lowCents c, cd_closeCents := cd_closeCents c,
           cd_volumeQty := cd_volumeQty c, cd_tradeCount := cd_tradeCount c,
           cd_vwapCents := cd_vwapCents c\<rparr>"
  have f: "?f r = c" if "candleKey r = candleKey c" for r
    using that by (simp add: candleKey_def)
  have "upsertCandle c rows = map (\<lambda>r. if candleKey r = candleKey c then c else r) rows"
    unfolding upsertCandle_def Some rowSet_def option.case using f by (intro map_cong) auto
  then show ?thesis using x by force
qed

lemma upsertCandle_noop:
  assumes "c \<in> set rows" and "\<And>r. r \<in> set rows \<Longrightarrow> candleKey r = candleKey c \<Longrightarrow> r = c"
  shows "upsertCandle c rows = rows"
proof -
  have "rowFind candleKey (candleKey c) rows \<noteq> None" using assms(1) by (simp add: rowFind_None)
  moreover have "r\<lparr>cd_openCents := cd_openCents c, cd_highCents := cd_highCents c,
           cd_lowCents := cd_lowCents c, cd_closeCents := cd_closeCents c,
           cd_volumeQty := cd_volumeQty c, cd_tradeCount := cd_tradeCount c,
           cd_vwapCents := cd_vwapCents c\<rparr> = r" if "r \<in> set rows" "candleKey r = candleKey c" for r
    using assms(2) [OF that] by simp
  ultimately show ?thesis
    by (auto simp: upsertCandle_def rowSet_def simp del: not_None_eq split: option.split
        intro!: map_idI)
qed

lemma fold_upsert_rows:
  "distinct (map candleKey cs) \<Longrightarrow>
   (\<forall>c\<in>set cs. c \<in> set (fold upsertCandle cs rows) \<and>
      (\<forall>r\<in>set (fold upsertCandle cs rows). candleKey r = candleKey c \<longrightarrow> r = c))"
proof (induction cs rule: rev_induct)
  case (snoc c cs)
  have IH: "\<forall>x\<in>set cs. x \<in> set (fold upsertCandle cs rows) \<and>
      (\<forall>r\<in>set (fold upsertCandle cs rows). candleKey r = candleKey x \<longrightarrow> r = x)"
    using snoc by simp
  have ne: "candleKey x \<noteq> candleKey c" if "x \<in> set cs" for x
    using snoc.prems that by (auto simp: image_iff)
  show ?case using IH ne by (simp add: upsertCandle_rows) metis
qed simp

lemma fold_upsert_noop:
  assumes "\<And>c. c \<in> set cs \<Longrightarrow> c \<in> set rows \<and> (\<forall>r\<in>set rows. candleKey r = candleKey c \<longrightarrow> r = c)"
  shows "fold upsertCandle cs rows = rows"
  using assms
proof (induction cs)
  case (Cons c cs)
  then have "upsertCandle c rows = rows" by (intro upsertCandle_noop) auto
  with Cons show ?case by simp
qed simp

lemma computeCandle_key:
  "computeCandle tick ts = Inr c \<Longrightarrow>
     candleKey c = (tr_itemId (hd ts), tr_regionId (hd ts), tick)"
  by (auto simp: computeCandle_def Let_def candleKey_def split: prod.splits if_splits)

lemma computeTickCandles_distinct:
  assumes "computeTickCandlesFromTrades E tick ts = Inr cs"
  shows "distinct (map candleKey cs)"
proof -
  from computeTickCandles_groups [OF assms] obtain ks where ks: "distinct ks"
    "set ks = tradeGroupKey ` set ts"
    "list_all2 (\<lambda>k c. computeCandle (num tick) (groupTrades E ts k) = Inr c) ks cs" by blast
  have key: "k = snd' (candleKey c)"
    if "k \<in> set ks" "computeCandle (num tick) (groupTrades E ts k) = Inr c"
      "snd' = (\<lambda>(i, r, t). r @ '':'' @ i)" for k c and snd' :: "string \<times> string \<times> int \<Rightarrow> string"
  proof -
    have "groupTrades E ts k \<noteq> []" using that(1) ks(2) groupTrades_nonempty by simp
    then have "hd (groupTrades E ts k) \<in> set (groupTrades E ts k)" by (rule hd_in_set)
    then have "tradeGroupKey (hd (groupTrades E ts k)) = k" by simp
    then show ?thesis using computeCandle_key [OF that(2)] that(3) by (simp add: tradeGroupKey_def)
  qed
  have "list_all2 (\<lambda>k c. k = (\<lambda>(i, r, t). r @ '':'' @ i) (candleKey c)) ks cs"
    using ks(3) key by (auto simp: list_all2_conv_all_nth)
  then have "ks = map ((\<lambda>(i, r, t). r @ '':'' @ i) \<circ> candleKey) cs"
    by (simp add: list_all2_conv_all_nth list_eq_iff_nth_eq)
  then have "distinct (map (\<lambda>(i, r, t). r @ '':'' @ i) (map candleKey cs))" using ks(1) by simp
  then show ?thesis by (simp only: distinct_map)
qed

subsection \<open>Properties\<close>

text \<open>
  C37. The candles of a tick summarise its trades: each candle is that of one region and item
  (low at most and high at least every price of the group, the open, the close and the rounded
  volume-weighted average), and together they account for all the traded quantity and every
  trade.
\<close>

theorem candles_summarise_trades:
  assumes "computeTickCandlesFromTrades E tick ts = Inr cs"
  shows "(\<forall>c\<in>set cs. \<exists>k. candleOf (groupTrades E ts k) c) \<and>
    (\<Sum>c\<leftarrow>cs. cd_volumeQty c) = (\<Sum>t\<leftarrow>ts. tr_quantity t) \<and>
    (\<Sum>c\<leftarrow>cs. cd_tradeCount c) = int (length ts)"
proof -
  from computeTickCandles_groups [OF assms] obtain ks where ks: "distinct ks"
    "set ks = tradeGroupKey ` set ts"
    and cs: "list_all2 (\<lambda>k c. computeCandle (num tick) (groupTrades E ts k) = Inr c) ks cs"
    and pos: "\<forall>t\<in>set ts. 0 < tr_unitPriceCents t \<and> 0 < tr_quantity t" by blast
  have one: "candleOf (groupTrades E ts k) c"
    if "k \<in> set ks" "computeCandle (num tick) (groupTrades E ts k) = Inr c" for k c
    by (rule computeCandle_ok [OF that(2)]) (use that(1) ks(2) groupTrades_nonempty pos in auto)
  have all: "list_all2 (\<lambda>k c. candleOf (groupTrades E ts k) c) ks cs"
    using cs one by (auto simp: list_all2_conv_all_nth)
  have "(\<Sum>c\<leftarrow>cs. cd_volumeQty c) = (\<Sum>t\<leftarrow>ts. tr_quantity t)"
    by (rule candles_sum [OF _ ks]) (use all in \<open>auto simp: candleOf_def elim: list_all2_mono\<close>)
  moreover have "(\<Sum>c\<leftarrow>cs. cd_tradeCount c) = (\<Sum>t\<leftarrow>ts. 1)"
    by (rule candles_sum [OF _ ks])
      (use all in \<open>auto simp: candleOf_def sum_list_triv elim: list_all2_mono\<close>)
  moreover have "\<forall>c\<in>set cs. \<exists>k. candleOf (groupTrades E ts k) c"
    using list_all2_right [OF all] by blast
  ultimately show ?thesis by (simp add: sum_list_triv)
qed

text \<open>
  Writing the candles of a tick is idempotent: when the pass succeeded, running it again in
  the same tick changes nothing (no duplicate rows, the same values).
\<close>

theorem candle_upsert_idempotent:
  assumes "upsertMarketCandlesForTick E tick d = Inr d1"
  shows "upsertMarketCandlesForTick E tick d1 = Inr d1"
proof -
  from assms obtain cs where v: "validateTick tick = Inr ()"
    and cs: "computeTickCandlesFromTrades E tick (filter (\<lambda>t. tr_tick t = num tick) (trades d)) = Inr cs"
    and d1: "d1 = d\<lparr>itemTickCandles := fold upsertCandle cs (itemTickCandles d)\<rparr>"
    by (auto simp: upsertMarketCandlesForTick_def andThen_Inr_iff)
  have "fold upsertCandle cs (itemTickCandles d1) = itemTickCandles d1"
    unfolding d1 using fold_upsert_rows [OF computeTickCandles_distinct [OF cs]]
    by (intro fold_upsert_noop) simp
  then show ?thesis using v cs d1 by (simp add: upsertMarketCandlesForTick_def)
qed

definition fixtureTrade :: "string \<Rightarrow> int \<Rightarrow> int \<Rightarrow> trade" where
  "fixtureTrade tid qty price =
     \<lparr>tr_id = tid, tr_buyOrderId = ''o1'', tr_sellOrderId = ''o2'', tr_buyerCompanyId = ''a'',
      tr_sellerCompanyId = ''b'', tr_itemId = ''ore'', tr_regionId = ''r1'', tr_quantity = qty,
      tr_unitPriceCents = price, tr_totalPriceCents = qty * price, tr_tick = 7, tr_createdAt = 1\<rparr>"

theorem candles_summarise_trades_witness:
  "\<exists>cs. computeTickCandlesFromTrades fixtureEnv (IntN 7) [fixtureTrade ''t1'' 3 100, fixtureTrade ''t2'' 2 110]
      = Inr cs \<and> (\<Sum>c\<leftarrow>cs. cd_volumeQty c) = 5"
proof -
  let ?ts = "[fixtureTrade ''t1'' 3 100, fixtureTrade ''t2'' 2 110]"
  have "returns (computeTickCandlesFromTrades fixtureEnv (IntN 7) ?ts)" by code_simp
  then obtain cs where c: "computeTickCandlesFromTrades fixtureEnv (IntN 7) ?ts = Inr cs"
    by (auto simp: returns_iff)
  have "(\<Sum>t\<leftarrow>?ts. tr_quantity t) = 5" by (simp add: fixtureTrade_def)
  with candles_summarise_trades [OF c] c show ?thesis by metis
qed

theorem candle_upsert_idempotent_witness:
  "\<exists>d1. upsertMarketCandlesForTick fixtureEnv (IntN 7)
      (fixtureDb\<lparr>trades := [fixtureTrade ''t1'' 3 100]\<rparr>) = Inr d1 \<and>
     upsertMarketCandlesForTick fixtureEnv (IntN 7) d1 = Inr d1"
proof -
  have "returns (upsertMarketCandlesForTick fixtureEnv (IntN 7)
      (fixtureDb\<lparr>trades := [fixtureTrade ''t1'' 3 100]\<rparr>))" by code_simp
  then obtain d1 where u: "upsertMarketCandlesForTick fixtureEnv (IntN 7)
      (fixtureDb\<lparr>trades := [fixtureTrade ''t1'' 3 100]\<rparr>) = Inr d1"
    by (auto simp: returns_iff)
  from candle_upsert_idempotent [OF u] u show ?thesis by blast
qed

subsection \<open>The stage's contract\<close>

lemma candleStage_law:
  assumes "upsertMarketCandlesForTick E tick d = Inr d'" and ok: "tickOk d"
  shows "marketOk d' \<and> masters d' = masters d \<and> totalCash d' \<le> totalCash d \<and> companies d' = companies d"
proof -
  have "companies d' = companies d" "inventories d' = inventories d" "marketOrders d' = marketOrders d"
    "masters d' = masters d"
    using assms(1) by (auto simp: upsertMarketCandlesForTick_def andThen_Inr_iff masters_def)
  with ok marketOk_same [of d d'] show ?thesis by (simp add: tickOk_def totalCash_def)
qed

interpretation candleStage: quiet_stage "upsertMarketCandlesForTick E tick" for E tick
  by unfold_locales (simp_all add: candleStage_law)

end
