(* ===== verification/Workforce.thy ===== *)
theory Workforce
  imports Fixture
begin

section \<open>Workforce\<close>

text \<open>
  \<open>packages/sim/src/services/workforce.ts\<close>: the runtime configuration and its validation, the
  speed bonuses a company's allocation gives, salaries by region, capacity changes (layoffs at
  once, hirings after a delay), and the workforce stage of a tick. The overrides of the
  configuration are the update of the defaults that the object spread performs; number fields
  are \<open>jsnum\<close> until the validation has passed.
\<close>

definition MAX_BPS :: int where "MAX_BPS = 10000"
definition MAX_PERCENT :: int where "MAX_PERCENT = 100"

record workforceRuntimeConfig =
  hiringDelayTicks :: jsnum
  baseSalaryPerCapacityCents :: int
  recruitmentCostPerCapacityCents :: int
  maxAbsoluteCapacityDeltaPerRequest :: jsnum
  maxRelativeCapacityDeltaPctPerRequest :: jsnum
  layoffEfficiencyPenaltyBps :: jsnum
  hiringShockDurationTicks :: jsnum
  hiringShockPerCapacityBps :: jsnum
  lowCorporateAllocationThresholdPct :: jsnum
  lowCorporatePenaltyBps :: jsnum
  salaryShortfallPenaltyBps :: jsnum
  corporateRecoveryPerTickAt100PctBps :: jsnum
  productionMaxSpeedBonusBps :: jsnum
  researchMaxSpeedBonusBps :: jsnum
  logisticsMaxTravelReductionBps :: jsnum
  regionSalaryModifierBpsByCode :: "(string \<times> jsnum) list"

definition DEFAULT_WORKFORCE_RUNTIME_CONFIG :: workforceRuntimeConfig where
  "DEFAULT_WORKFORCE_RUNTIME_CONFIG =
     \<lparr>hiringDelayTicks = IntN 2, baseSalaryPerCapacityCents = 2200,
      recruitmentCostPerCapacityCents = 8500, maxAbsoluteCapacityDeltaPerRequest = IntN 250,
      maxRelativeCapacityDeltaPctPerRequest = IntN 50, layoffEfficiencyPenaltyBps = IntN 500,
      hiringShockDurationTicks = IntN 2, hiringShockPerCapacityBps = IntN 12,
      lowCorporateAllocationThresholdPct = IntN 10, lowCorporatePenaltyBps = IntN 70,
      salaryShortfallPenaltyBps = IntN 140, corporateRecoveryPerTickAt100PctBps = IntN 120,
      productionMaxSpeedBonusBps = IntN 1200, researchMaxSpeedBonusBps = IntN 1500,
      logisticsMaxTravelReductionBps = IntN 1100,
      regionSalaryModifierBpsByCode =
        [(''CORE'', IntN 10000), (''INDUSTRIAL'', IntN 11000), (''FRONTIER'', IntN 9500)]\<rparr>"

type_synonym workforceOverrides = "workforceRuntimeConfig \<Rightarrow> workforceRuntimeConfig"

record workforceCompanyState =
  ws_capacity :: int
  ws_opsPct :: int
  ws_rngPct :: int
  ws_logPct :: int
  ws_corpPct :: int
  ws_efficiencyBps :: int

record workforceRuntimeModifiers =
  productionSpeedBonusBps :: int
  productionDurationMultiplierBps :: int
  researchSpeedBonusBps :: int
  researchDurationMultiplierBps :: int
  logisticsTravelReductionBps :: int
  logisticsTravelMultiplierBps :: int

subsection \<open>Validation\<close>

definition normalizeRegionCode :: "string option \<Rightarrow> string" where
  "normalizeRegionCode regionCode =
     toUpperCase (trim (case regionCode of None \<Rightarrow> '''' | Some c \<Rightarrow> c))"

definition ensureIntegerInRange :: "jsnum \<Rightarrow> string \<Rightarrow> int \<Rightarrow> int \<Rightarrow> unit result" where
  "ensureIntegerInRange value fieldName lo hi =
     (if \<not> isInteger value \<or> num value < lo \<or> num value > hi
      then Inl (DomainInvariantError (fieldName @ '' must be an integer between '' @ showInt lo @
          '' and '' @ showInt hi))
      else Inr ())"

definition ensurePositiveInteger :: "jsnum \<Rightarrow> string \<Rightarrow> unit result" where
  "ensurePositiveInteger value fieldName =
     (if \<not> isInteger value \<or> num value \<le> 0
      then Inl (DomainInvariantError (fieldName @ '' must be a positive integer''))
      else Inr ())"

definition ensureNonNegativeInteger :: "jsnum \<Rightarrow> string \<Rightarrow> unit result" where
  "ensureNonNegativeInteger value fieldName =
     (if \<not> isInteger value \<or> num value < 0
      then Inl (DomainInvariantError (fieldName @ '' must be a non-negative integer''))
      else Inr ())"

definition ensurePositiveBigInt :: "int \<Rightarrow> string \<Rightarrow> unit result" where
  "ensurePositiveBigInt value fieldName =
     (if value \<le> 0
      then Inl (DomainInvariantError (fieldName @ '' must be greater than zero''))
      else Inr ())"

definition ensureNonNegativeBigInt :: "int \<Rightarrow> string \<Rightarrow> unit result" where
  "ensureNonNegativeBigInt value fieldName =
     (if value < 0
      then Inl (DomainInvariantError (fieldName @ '' must be non-negative''))
      else Inr ())"

definition clamp :: "int \<Rightarrow> int \<Rightarrow> int \<Rightarrow> int" where
  "clamp value lo hi = max lo (min hi value)"

definition clampEfficiencyBps :: "int \<Rightarrow> int" where
  "clampEfficiencyBps value = clamp value 0 MAX_BPS"

record workforceAllocation =
  operationsPct :: jsnum
  researchPct :: jsnum
  logisticsPct :: jsnum
  corporatePct :: jsnum

definition assertValidWorkforceAllocation :: "workforceAllocation \<Rightarrow> unit result" where
  "assertValidWorkforceAllocation input =
     andThen (ensureIntegerInRange (operationsPct input) ''operationsPct'' 0 MAX_PERCENT) (\<lambda>_.
     andThen (ensureIntegerInRange (researchPct input) ''researchPct'' 0 MAX_PERCENT) (\<lambda>_.
     andThen (ensureIntegerInRange (logisticsPct input) ''logisticsPct'' 0 MAX_PERCENT) (\<lambda>_.
     andThen (ensureIntegerInRange (corporatePct input) ''corporatePct'' 0 MAX_PERCENT) (\<lambda>_.
     (let total = num (operationsPct input) + num (researchPct input) +
                  num (logisticsPct input) + num (corporatePct input) in
      if total \<noteq> 100
        then Inl (DomainInvariantError ''workforce allocation percentages must sum to 100'')
      else Inr ())))))"

definition assertValidWorkforceState :: "workforceCompanyState \<Rightarrow> unit result" where
  "assertValidWorkforceState state =
     andThen (ensureNonNegativeInteger (IntN (ws_capacity state)) ''workforceCapacity'') (\<lambda>_.
     andThen (ensureIntegerInRange (IntN (ws_efficiencyBps state)) ''orgEfficiencyBps'' 0 MAX_BPS) (\<lambda>_.
     assertValidWorkforceAllocation
       \<lparr>operationsPct = IntN (ws_opsPct state), researchPct = IntN (ws_rngPct state),
        logisticsPct = IntN (ws_logPct state), corporatePct = IntN (ws_corpPct state)\<rparr>))"

definition resolveWorkforceRuntimeConfig ::
    "workforceOverrides \<Rightarrow> workforceRuntimeConfig result" where
  "resolveWorkforceRuntimeConfig overrides =
     (let c = overrides DEFAULT_WORKFORCE_RUNTIME_CONFIG in
      andThen (ensurePositiveInteger (hiringDelayTicks c) ''hiringDelayTicks'') (\<lambda>_.
      andThen (ensurePositiveBigInt (baseSalaryPerCapacityCents c) ''baseSalaryPerCapacityCents'') (\<lambda>_.
      andThen (ensurePositiveBigInt (recruitmentCostPerCapacityCents c)
        ''recruitmentCostPerCapacityCents'') (\<lambda>_.
      andThen (ensurePositiveInteger (maxAbsoluteCapacityDeltaPerRequest c)
        ''maxAbsoluteCapacityDeltaPerRequest'') (\<lambda>_.
      andThen (ensureIntegerInRange (maxRelativeCapacityDeltaPctPerRequest c)
        ''maxRelativeCapacityDeltaPctPerRequest'' 1 MAX_PERCENT) (\<lambda>_.
      andThen (ensureNonNegativeInteger (layoffEfficiencyPenaltyBps c) ''layoffEfficiencyPenaltyBps'') (\<lambda>_.
      andThen (ensurePositiveInteger (hiringShockDurationTicks c) ''hiringShockDurationTicks'') (\<lambda>_.
      andThen (ensureNonNegativeInteger (hiringShockPerCapacityBps c) ''hiringShockPerCapacityBps'') (\<lambda>_.
      andThen (ensureIntegerInRange (lowCorporateAllocationThresholdPct c)
        ''lowCorporateAllocationThresholdPct'' 0 MAX_PERCENT) (\<lambda>_.
      andThen (ensureNonNegativeInteger (lowCorporatePenaltyBps c) ''lowCorporatePenaltyBps'') (\<lambda>_.
      andThen (ensureNonNegativeInteger (salaryShortfallPenaltyBps c) ''salaryShortfallPenaltyBps'') (\<lambda>_.
      andThen (ensureNonNegativeInteger (corporateRecoveryPerTickAt100PctBps c)
        ''corporateRecoveryPerTickAt100PctBps'') (\<lambda>_.
      andThen (ensureIntegerInRange (productionMaxSpeedBonusBps c) ''productionMaxSpeedBonusBps'' 0 MAX_BPS) (\<lambda>_.
      andThen (ensureIntegerInRange (researchMaxSpeedBonusBps c) ''researchMaxSpeedBonusBps'' 0 MAX_BPS) (\<lambda>_.
      andThen (ensureIntegerInRange (logisticsMaxTravelReductionBps c)
        ''logisticsMaxTravelReductionBps'' 0 MAX_BPS) (\<lambda>_.
      andThen (forEach (\<lambda>(regionCode, modifierBps) _.
          ensurePositiveInteger modifierBps (''regionSalaryModifierBpsByCode.'' @ regionCode))
        (regionSalaryModifierBpsByCode c) ()) (\<lambda>_.
      Inr c)))))))))))))))))"

subsection \<open>Modifiers and salaries\<close>

definition resolveFunctionBonusBps :: "int \<Rightarrow> int \<Rightarrow> int \<Rightarrow> int \<Rightarrow> int" where
  "resolveFunctionBonusBps allocationPct orgEfficiencyBps maxBonusBps capacity =
     (if capacity \<le> 0 \<or> maxBonusBps \<le> 0 then 0
      else
        (let scaled = (allocationPct * orgEfficiencyBps * maxBonusBps) div (MAX_PERCENT * MAX_BPS) in
         clamp scaled 0 maxBonusBps))"

definition resolveWorkforceRuntimeModifiers ::
    "workforceCompanyState \<Rightarrow> workforceOverrides \<Rightarrow> workforceRuntimeModifiers result" where
  "resolveWorkforceRuntimeModifiers state overrides =
     andThen (resolveWorkforceRuntimeConfig overrides) (\<lambda>config.
     andThen (assertValidWorkforceState state) (\<lambda>_.
     (let productionBonus = resolveFunctionBonusBps (ws_opsPct state) (ws_efficiencyBps state)
            (num (productionMaxSpeedBonusBps config)) (ws_capacity state);
          researchBonus = resolveFunctionBonusBps (ws_rngPct state) (ws_efficiencyBps state)
            (num (researchMaxSpeedBonusBps config)) (ws_capacity state);
          logisticsReduction = resolveFunctionBonusBps (ws_logPct state) (ws_efficiencyBps state)
            (num (logisticsMaxTravelReductionBps config)) (ws_capacity state) in
      Inr \<lparr>productionSpeedBonusBps = productionBonus,
           productionDurationMultiplierBps = MAX_BPS - productionBonus,
           researchSpeedBonusBps = researchBonus,
           researchDurationMultiplierBps = MAX_BPS - researchBonus,
           logisticsTravelReductionBps = logisticsReduction,
           logisticsTravelMultiplierBps = MAX_BPS - logisticsReduction\<rparr>)))"

definition applyDurationMultiplierTicks :: "jsnum \<Rightarrow> jsnum \<Rightarrow> int result" where
  "applyDurationMultiplierTicks durationTicks durationMultiplierBps =
     andThen (ensureNonNegativeInteger durationTicks ''durationTicks'') (\<lambda>_.
     andThen (ensureIntegerInRange durationMultiplierBps ''durationMultiplierBps'' 1 MAX_BPS) (\<lambda>_.
     if num durationTicks = 0 then Inr 0
     else Inr (max 1
       ((num durationTicks * num durationMultiplierBps + (MAX_BPS - 1)) div MAX_BPS))))"

definition resolveRegionSalaryModifierBps :: "string option \<Rightarrow> workforceRuntimeConfig \<Rightarrow> int" where
  "resolveRegionSalaryModifierBps regionCode config =
     (let normalizedRegionCode = normalizeRegionCode regionCode in
      if normalizedRegionCode = [] then MAX_BPS
      else
        (case map_of (regionSalaryModifierBpsByCode config) normalizedRegionCode of
          None \<Rightarrow> MAX_BPS | Some bps \<Rightarrow> num bps))"

definition resolveWeeklyWorkforceSalaryBurnCents ::
    "jsnum \<Rightarrow> string option \<Rightarrow> workforceOverrides \<Rightarrow> int result" where
  "resolveWeeklyWorkforceSalaryBurnCents capacity regionCode overrides =
     andThen (ensureNonNegativeInteger capacity ''workforceCapacity'') (\<lambda>_.
     andThen (resolveWorkforceRuntimeConfig overrides) (\<lambda>config.
     (let regionSalaryModifierBps = resolveRegionSalaryModifierBps regionCode config;
          gross = num capacity * baseSalaryPerCapacityCents config in
      Inr ((gross * regionSalaryModifierBps) sdiv MAX_BPS))))"

definition workforceState :: "company \<Rightarrow> workforceCompanyState" where
  "workforceState c =
     \<lparr>ws_capacity = co_workforceCapacity c, ws_opsPct = co_workforceAllocationOpsPct c,
      ws_rngPct = co_workforceAllocationRngPct c, ws_logPct = co_workforceAllocationLogPct c,
      ws_corpPct = co_workforceAllocationCorpPct c, ws_efficiencyBps = co_orgEfficiencyBps c\<rparr>"

definition regionCodeOf :: "company \<Rightarrow> db \<Rightarrow> string option" where
  "regionCodeOf c d = map_option rg_code (rowFind rg_id (co_regionId c) (regions d))"

subsection \<open>The company's snapshot and allocation\<close>

record companyWorkforceSnapshot = workforceCompanyState +
  snap_companyId :: string
  snap_weeklySalaryBurnCents :: int
  snap_projectedModifiers :: workforceRuntimeModifiers
  snap_pendingHiringArrivals :: "workforceCapacityDelta list"

definition getCompanyWorkforce :: "string \<Rightarrow> db \<Rightarrow> companyWorkforceSnapshot result" where
  "getCompanyWorkforce companyId d =
     (if companyId = [] then Inl (DomainInvariantError ''companyId is required'')
      else
        (let pending = sortBy (cmpThen (cmpKey wd_tickArrives) (cmpKey wd_createdAt))
               (filter (\<lambda>x. wd_companyId x = companyId \<and> wd_tickApplied x = None \<and>
                  wd_deltaCapacity x > 0) (workforceCapacityDeltas d)) in
         case findCompany companyId d of
           None \<Rightarrow> Inl (NotFoundError (''company '' @ companyId @ '' not found''))
         | Some c \<Rightarrow>
           andThen (assertValidWorkforceState (workforceState c)) (\<lambda>_.
           andThen (resolveWeeklyWorkforceSalaryBurnCents (IntN (co_workforceCapacity c))
             (regionCodeOf c d) id) (\<lambda>burn.
           andThen (resolveWorkforceRuntimeModifiers (workforceState c) id) (\<lambda>modifiers.
           Inr \<lparr>ws_capacity = co_workforceCapacity c, ws_opsPct = co_workforceAllocationOpsPct c,
                ws_rngPct = co_workforceAllocationRngPct c,
                ws_logPct = co_workforceAllocationLogPct c,
                ws_corpPct = co_workforceAllocationCorpPct c,
                ws_efficiencyBps = co_orgEfficiencyBps c, snap_companyId = co_id c,
                snap_weeklySalaryBurnCents = burn, snap_projectedModifiers = modifiers,
                snap_pendingHiringArrivals = pending\<rparr>)))))"

definition setCompanyWorkforceAllocation ::
    "string \<Rightarrow> workforceAllocation \<Rightarrow> db \<Rightarrow> companyWorkforceSnapshot result \<times> db" where
  "setCompanyWorkforceAllocation companyId input d =
     (if companyId = [] then (Inl (DomainInvariantError ''companyId is required''), d)
      else
        (case assertValidWorkforceAllocation input of
          Inl e \<Rightarrow> (Inl e, d)
        | Inr _ \<Rightarrow>
          transaction (\<lambda>d.
            (case findCompany companyId d of
              None \<Rightarrow> Inl (NotFoundError (''company '' @ companyId @ '' not found''))
            | Some _ \<Rightarrow>
              andThen (updateCompany companyId
                (\<lambda>c. c\<lparr>co_workforceAllocationOpsPct := num (operationsPct input),
                      co_workforceAllocationRngPct := num (researchPct input),
                      co_workforceAllocationLogPct := num (logisticsPct input),
                      co_workforceAllocationCorpPct := num (corporatePct input)\<rparr>) d) (\<lambda>(_, d).
              andThen (getCompanyWorkforce companyId d) (\<lambda>snapshot. Inr (snapshot, d))))) d))"

subsection \<open>Capacity changes\<close>

record capacityChangeResult =
  cc_companyId :: string
  cc_deltaCapacity :: int
  cc_appliedImmediately :: bool
  cc_tickRequested :: int
  cc_tickArrives :: "int option"
  cc_recruitmentCostCents :: int
  cc_workforceCapacity :: int
  cc_orgEfficiencyBps :: int

definition checkCapacityChange ::
    "workforceRuntimeConfig \<Rightarrow> company \<Rightarrow> int \<Rightarrow> unit result" where
  "checkCapacityChange config c deltaAbs =
     andThen (assertValidWorkforceState (workforceState c)) (\<lambda>_.
     if deltaAbs > num (maxAbsoluteCapacityDeltaPerRequest config)
       then Inl (DomainInvariantError (''deltaCapacity exceeds absolute max '' @
              showInt (num (maxAbsoluteCapacityDeltaPerRequest config))))
     else if co_workforceCapacity c > 0 \<and>
        deltaAbs > max 1 ((co_workforceCapacity c *
          num (maxRelativeCapacityDeltaPctPerRequest config)) div MAX_PERCENT)
       then Inl (DomainInvariantError (''deltaCapacity exceeds relative max of '' @
              showInt (num (maxRelativeCapacityDeltaPctPerRequest config)) @ ''%''))
     else Inr ())"

definition reduceCapacity ::
    "workforceRuntimeConfig \<Rightarrow> company \<Rightarrow> int \<Rightarrow> int \<Rightarrow> db \<Rightarrow> (capacityChangeResult \<times> db) result" where
  "reduceCapacity config c delta tickRequested d =
     (let deltaAbs = \<bar>delta\<bar> in
      if deltaAbs > co_workforceCapacity c
        then Inl (DomainInvariantError ''cannot reduce workforce below zero'')
      else
        (let nextCapacity = co_workforceCapacity c - deltaAbs;
             nextEfficiency = clampEfficiencyBps
               (co_orgEfficiencyBps c - num (layoffEfficiencyPenaltyBps config)) in
         andThen (updateCompany (co_id c)
           (\<lambda>x. x\<lparr>co_workforceCapacity := nextCapacity, co_orgEfficiencyBps := nextEfficiency\<rparr>) d)
           (\<lambda>(_, d).
         Inr (\<lparr>cc_companyId = co_id c, cc_deltaCapacity = delta, cc_appliedImmediately = True,
               cc_tickRequested = tickRequested, cc_tickArrives = None,
               cc_recruitmentCostCents = 0, cc_workforceCapacity = nextCapacity,
               cc_orgEfficiencyBps = nextEfficiency\<rparr>, d))))"

definition hireCapacity ::
    "env \<Rightarrow> workforceRuntimeConfig \<Rightarrow> company \<Rightarrow> int \<Rightarrow> int \<Rightarrow> db \<Rightarrow>
     (capacityChangeResult \<times> db) result" where
  "hireCapacity E config c delta tickRequested d =
     (let recruitmentCostCents = delta * recruitmentCostPerCapacityCents config in
      andThen (ensureNonNegativeBigInt recruitmentCostCents ''recruitmentCostCents'') (\<lambda>_.
      (let available = co_cashCents c - co_reservedCashCents c in
       if available < recruitmentCostCents
         then Inl (DomainInvariantError ''insufficient available cash for recruitment expense'')
       else
         (let nextCashCents = co_cashCents c - recruitmentCostCents;
              tickArrives = tickRequested + num (hiringDelayTicks config) in
          andThen (createRow wd_id workforceCapacityDeltas workforceCapacityDeltas_update
            \<lparr>wd_id = newId E d, wd_companyId = co_id c, wd_deltaCapacity = delta,
             wd_tickArrives = tickArrives, wd_tickApplied = None, wd_createdAt = currentTime E d\<rparr> d)
            (\<lambda>(created, d).
          andThen (updateCompany (co_id c) (\<lambda>x. x\<lparr>co_cashCents := nextCashCents\<rparr>) d) (\<lambda>(_, d).
          andThen (createLedgerEntry E (co_id c) tickRequested WORKFORCE_RECRUITMENT_EXPENSE
            (- recruitmentCostCents) 0 nextCashCents ''WORKFORCE_CAPACITY_CHANGE''
            (wd_id created) d) (\<lambda>d.
          Inr (\<lparr>cc_companyId = co_id c, cc_deltaCapacity = delta, cc_appliedImmediately = False,
                cc_tickRequested = tickRequested, cc_tickArrives = Some tickArrives,
                cc_recruitmentCostCents = recruitmentCostCents,
                cc_workforceCapacity = co_workforceCapacity c,
                cc_orgEfficiencyBps = co_orgEfficiencyBps c\<rparr>, d))))))))"

definition changeCapacityWithTx ::
    "env \<Rightarrow> workforceRuntimeConfig \<Rightarrow> string \<Rightarrow> int \<Rightarrow> db \<Rightarrow> (capacityChangeResult \<times> db) result" where
  "changeCapacityWithTx E config companyId delta d =
     (case findCompany companyId d of
       None \<Rightarrow> Inl (NotFoundError (''company '' @ companyId @ '' not found''))
     | Some c \<Rightarrow>
       andThen (checkCapacityChange config c \<bar>delta\<bar>) (\<lambda>_.
       (let tickRequested = worldTick d in
        if delta < 0 then reduceCapacity config c delta tickRequested d
        else hireCapacity E config c delta tickRequested d)))"

definition requestCompanyWorkforceCapacityChange ::
    "env \<Rightarrow> string \<Rightarrow> jsnum \<Rightarrow> workforceOverrides \<Rightarrow> db \<Rightarrow> capacityChangeResult result \<times> db" where
  "requestCompanyWorkforceCapacityChange E companyId deltaCapacity overrides d =
     (if companyId = [] then (Inl (DomainInvariantError ''companyId is required''), d)
      else if \<not> isInteger deltaCapacity \<or> num deltaCapacity = 0
        then (Inl (DomainInvariantError ''deltaCapacity must be a non-zero integer''), d)
      else
        (case resolveWorkforceRuntimeConfig overrides of
          Inl e \<Rightarrow> (Inl e, d)
        | Inr config \<Rightarrow>
          transaction (changeCapacityWithTx E config companyId (num deltaCapacity)) d))"

subsection \<open>The workforce stage of a tick\<close>

definition dueDeltas :: "int \<Rightarrow> db \<Rightarrow> workforceCapacityDelta list" where
  "dueDeltas tick d =
     sortBy (cmpThen (cmpKey wd_tickArrives) (cmpKey wd_createdAt))
       (filter (\<lambda>x. wd_tickApplied x = None \<and> wd_tickArrives x \<le> tick) (workforceCapacityDeltas d))"

definition applyDelta :: "int \<Rightarrow> workforceCapacityDelta \<Rightarrow> db \<Rightarrow> db result" where
  "applyDelta tick delta d =
     (if wd_deltaCapacity delta \<le> 0
        then Inl (DomainInvariantError (''workforce capacity delta '' @ wd_id delta @
               '' must be positive when pending''))
      else
        (let claim = (\<lambda>x. wd_id x = wd_id delta \<and> wd_tickApplied x = None);
             claimed = countWhere claim (workforceCapacityDeltas d);
             d = d\<lparr>workforceCapacityDeltas := mapWhere claim
                   (\<lambda>x. x\<lparr>wd_tickApplied := Some tick\<rparr>) (workforceCapacityDeltas d)\<rparr> in
         if claimed \<noteq> 1 then Inr d
         else andThen (updateCompany (wd_companyId delta)
           (\<lambda>c. c\<lparr>co_workforceCapacity := co_workforceCapacity c + wd_deltaCapacity delta\<rparr>) d)
           (\<lambda>(_, d). Inr d)))"

definition applyDueWorkforceCapacityDeltas :: "int \<Rightarrow> db \<Rightarrow> db result" where
  "applyDueWorkforceCapacityDeltas tick d = forEach (applyDelta tick) (dueDeltas tick d) d"

definition recentHiringCapacity :: "int \<Rightarrow> int \<Rightarrow> string \<Rightarrow> db \<Rightarrow> int" where
  "recentHiringCapacity startTick tick companyId d =
     (\<Sum>x\<leftarrow>filter (\<lambda>x. wd_companyId x = companyId \<and> wd_deltaCapacity x > 0 \<and>
         (case wd_tickApplied x of None \<Rightarrow> False | Some t \<Rightarrow> startTick \<le> t \<and> t \<le> tick))
       (workforceCapacityDeltas d). wd_deltaCapacity x)"

definition nextEfficiencyBps :: "workforceRuntimeConfig \<Rightarrow> company \<Rightarrow> int \<Rightarrow> bool \<Rightarrow> int" where
  "nextEfficiencyBps config c recentHiring shortfall =
     (let hiringShock = recentHiring * num (hiringShockPerCapacityBps config);
          lowCorporate =
            (if co_workforceAllocationCorpPct c < num (lowCorporateAllocationThresholdPct config)
             then num (lowCorporatePenaltyBps config) else 0);
          salaryShortfall = (if shortfall then num (salaryShortfallPenaltyBps config) else 0);
          recovery = (co_workforceAllocationCorpPct c *
            num (corporateRecoveryPerTickAt100PctBps config)) div MAX_PERCENT in
      clampEfficiencyBps
        (co_orgEfficiencyBps c - hiringShock - lowCorporate - salaryShortfall + recovery))"

text \<open>One company: pay what the free cash allows, then the next efficiency.\<close>

definition payWorkforce ::
    "env \<Rightarrow> workforceRuntimeConfig \<Rightarrow> int \<Rightarrow> db \<Rightarrow> company \<Rightarrow> db \<Rightarrow> db result" where
  "payWorkforce E config tick snapshot c d =
     andThen (assertValidWorkforceState (workforceState c)) (\<lambda>_.
     andThen (resolveWeeklyWorkforceSalaryBurnCents (IntN (co_workforceCapacity c))
       (regionCodeOf c snapshot) (\<lambda>_. config)) (\<lambda>salaryDueCents.
     (let available = co_cashCents c - co_reservedCashCents c;
          spendableCash = (if available > 0 then available else 0);
          salaryPaidCents = (if salaryDueCents \<le> spendableCash then salaryDueCents else spendableCash);
          cashAfterCents = co_cashCents c - salaryPaidCents;
          startTick = max 0 (tick - num (hiringShockDurationTicks config) + 1);
          recentHiring = recentHiringCapacity startTick tick (co_id c) snapshot;
          efficiency = nextEfficiencyBps config c recentHiring (salaryPaidCents < salaryDueCents) in
      andThen (updateCompany (co_id c)
        (\<lambda>x. x\<lparr>co_cashCents := cashAfterCents, co_orgEfficiencyBps := efficiency\<rparr>) d) (\<lambda>(_, d).
      createLedgerEntry E (co_id c) tick WORKFORCE_SALARY_EXPENSE (- salaryPaidCents) 0
        cashAfterCents ''WORKFORCE_SALARY'' (co_id c @ '':'' @ showInt tick) d))))"

definition runWorkforceForTick :: "env \<Rightarrow> jsnum \<Rightarrow> workforceOverrides \<Rightarrow> db \<Rightarrow> db result" where
  "runWorkforceForTick E tick overrides d =
     andThen (ensureNonNegativeInteger tick ''tick'') (\<lambda>_.
     andThen (resolveWorkforceRuntimeConfig overrides) (\<lambda>config.
     andThen (applyDueWorkforceCapacityDeltas (num tick) d) (\<lambda>d.
     forEach (payWorkforce E config (num tick) d)
       (sortBy (\<lambda>x y. env_textCompare E (co_id x) (co_id y)) (companies d)) d)))"

subsection \<open>Validated configurations and states\<close>

lemma ensure_iffs [result_simps]:
  "ensureIntegerInRange v f lo hi = Inr u \<longleftrightarrow> isInteger v \<and> lo \<le> num v \<and> num v \<le> hi"
  "ensurePositiveInteger v f = Inr u \<longleftrightarrow> isInteger v \<and> 0 < num v"
  "ensureNonNegativeInteger v f = Inr u \<longleftrightarrow> isInteger v \<and> 0 \<le> num v"
  "ensurePositiveBigInt b f = Inr u \<longleftrightarrow> 0 < b"
  "ensureNonNegativeBigInt b f = Inr u \<longleftrightarrow> 0 \<le> b"
  by (auto simp: ensureIntegerInRange_def ensurePositiveInteger_def ensureNonNegativeInteger_def
      ensurePositiveBigInt_def ensureNonNegativeBigInt_def result_simps)

definition workforceStateOk :: "workforceCompanyState \<Rightarrow> bool" where
  "workforceStateOk s \<longleftrightarrow>
     0 \<le> ws_capacity s \<and> 0 \<le> ws_efficiencyBps s \<and> ws_efficiencyBps s \<le> 10000 \<and>
     0 \<le> ws_opsPct s \<and> 0 \<le> ws_rngPct s \<and> 0 \<le> ws_logPct s \<and> 0 \<le> ws_corpPct s \<and>
     ws_opsPct s + ws_rngPct s + ws_logPct s + ws_corpPct s = 100"

lemma assertValidWorkforceState_iff [result_simps]:
  "assertValidWorkforceState s = Inr u \<longleftrightarrow> workforceStateOk s"
  by (auto simp: assertValidWorkforceState_def assertValidWorkforceAllocation_def result_simps
      workforceStateOk_def Let_def MAX_BPS_def MAX_PERCENT_def)

definition configOk :: "workforceRuntimeConfig \<Rightarrow> bool" where
  "configOk c \<longleftrightarrow>
     0 < num (hiringDelayTicks c) \<and> 0 < baseSalaryPerCapacityCents c \<and>
     0 < recruitmentCostPerCapacityCents c \<and>
     0 \<le> num (productionMaxSpeedBonusBps c) \<and> num (productionMaxSpeedBonusBps c) \<le> 10000 \<and>
     0 \<le> num (researchMaxSpeedBonusBps c) \<and> num (researchMaxSpeedBonusBps c) \<le> 10000 \<and>
     0 \<le> num (logisticsMaxTravelReductionBps c) \<and> num (logisticsMaxTravelReductionBps c) \<le> 10000 \<and>
     (\<forall>(r, b)\<in>set (regionSalaryModifierBpsByCode c). 0 < num b)"

lemma regionModifiers_positive:
  "forEach (\<lambda>(regionCode, modifierBps) _.
       ensurePositiveInteger modifierBps (''regionSalaryModifierBpsByCode.'' @ regionCode)) xs () = Inr u \<Longrightarrow>
     \<forall>(r, b)\<in>set xs. 0 < num b"
  by (induction xs) (auto simp: result_simps)

lemma resolveConfig_ok:
  assumes "resolveWorkforceRuntimeConfig overrides = Inr config"
  shows "config = overrides DEFAULT_WORKFORCE_RUNTIME_CONFIG \<and> configOk config"
  using assms regionModifiers_positive
  by (auto simp: resolveWorkforceRuntimeConfig_def configOk_def Let_def result_simps MAX_BPS_def)

lemma bonus_bounds: "0 \<le> m \<Longrightarrow> 0 \<le> resolveFunctionBonusBps a e m c \<and> resolveFunctionBonusBps a e m c \<le> m"
  by (auto simp: resolveFunctionBonusBps_def clamp_def Let_def)

lemma modifiers_bounds:
  assumes "resolveWorkforceRuntimeModifiers s overrides = Inr m"
    and "resolveWorkforceRuntimeConfig overrides = Inr config"
  shows "0 \<le> productionSpeedBonusBps m \<and>
      productionSpeedBonusBps m \<le> num (productionMaxSpeedBonusBps config) \<and>
      0 \<le> researchSpeedBonusBps m \<and> researchSpeedBonusBps m \<le> num (researchMaxSpeedBonusBps config) \<and>
      0 \<le> logisticsTravelReductionBps m \<and>
      logisticsTravelReductionBps m \<le> num (logisticsMaxTravelReductionBps config) \<and>
      productionDurationMultiplierBps m = 10000 - productionSpeedBonusBps m \<and>
      researchDurationMultiplierBps m = 10000 - researchSpeedBonusBps m \<and>
      logisticsTravelMultiplierBps m = 10000 - logisticsTravelReductionBps m"
  using assms resolveConfig_ok [OF assms(2)]
  by (auto simp: resolveWorkforceRuntimeModifiers_def result_simps Let_def bonus_bounds configOk_def
      MAX_BPS_def)

lemma default_config: "resolveWorkforceRuntimeConfig id = Inr DEFAULT_WORKFORCE_RUNTIME_CONFIG"
  by (simp add: resolveWorkforceRuntimeConfig_def DEFAULT_WORKFORCE_RUNTIME_CONFIG_def result_simps
      Let_def MAX_BPS_def MAX_PERCENT_def)

lemma applyDuration_iff:
  "applyDurationMultiplierTicks t m = Inr r \<longleftrightarrow>
     isInteger t \<and> isInteger m \<and> 0 \<le> num t \<and> 1 \<le> num m \<and> num m \<le> 10000 \<and>
     r = (if num t = 0 then 0 else max 1 ((num t * num m + 9999) div 10000))"
  by (auto simp: applyDurationMultiplierTicks_def result_simps MAX_BPS_def)

lemma ceiling_div_bounds:
  fixes x t :: int
  assumes "1 \<le> x" "x \<le> 10000 * t"
  shows "1 \<le> (x + 9999) div 10000 \<and> (x + 9999) div 10000 \<le> t \<and>
    x \<le> 10000 * ((x + 9999) div 10000) \<and> 10000 * ((x + 9999) div 10000) \<le> x + 9999"
proof -
  let ?q = "(x + 9999) div 10000" and ?r = "(x + 9999) mod 10000"
  have "x + 9999 = 10000 * ?q + ?r" by (rule mult_div_mod_eq [symmetric])
  moreover have "0 \<le> ?r" "?r < 10000" by simp_all
  ultimately show ?thesis using assms by linarith
qed

lemma scaled_duration_bounds:
  fixes t m :: int
  assumes "0 < t" "1 \<le> m" "m \<le> 10000"
  shows "1 \<le> (t * m + 9999) div 10000 \<and> (t * m + 9999) div 10000 \<le> t \<and>
    t * m \<le> 10000 * ((t * m + 9999) div 10000) \<and>
    10000 * ((t * m + 9999) div 10000) \<le> t * m + 9999"
proof -
  have "t * m \<le> t * 10000" "1 \<le> t * m"
    using assms by (simp_all add: mult_left_mono one_le_mult_iff int_one_le_iff_zero_less)
  then show ?thesis using ceiling_div_bounds [of "t * m" t] by (simp only: mult.commute [of t 10000])
qed

subsection \<open>Salaries and the tick\<close>

lemma salary_due:
  assumes "resolveWeeklyWorkforceSalaryBurnCents (IntN n) rc (\<lambda>_. config) = Inr due"
  shows "0 \<le> due"
proof -
  from assms have n: "0 \<le> n" and c: "resolveWorkforceRuntimeConfig (\<lambda>_. config) = Inr config"
    and due: "due = (n * baseSalaryPerCapacityCents config * resolveRegionSalaryModifierBps rc config) sdiv MAX_BPS"
    by (auto simp: resolveWeeklyWorkforceSalaryBurnCents_def result_simps Let_def
        dest: resolveConfig_ok)
  have ok: "configOk config" using resolveConfig_ok [OF c] by simp
  then have "0 \<le> resolveRegionSalaryModifierBps rc config"
    by (auto simp: resolveRegionSalaryModifierBps_def Let_def MAX_BPS_def configOk_def
        split: option.splits dest!: map_of_SomeD)
  then have "0 \<le> n * baseSalaryPerCapacityCents config * resolveRegionSalaryModifierBps rc config"
    using n ok by (auto simp: configOk_def)
  then show ?thesis using due by (simp add: signed_divide_int_def MAX_BPS_def sgn_if)
qed

text \<open>The effect of one company's payment on its row.\<close>

definition salaryOf :: "workforceRuntimeConfig \<Rightarrow> db \<Rightarrow> company \<Rightarrow> int" where
  "salaryOf config d c =
     (case resolveWeeklyWorkforceSalaryBurnCents (IntN (co_workforceCapacity c)) (regionCodeOf c d)
         (\<lambda>_. config) of
       Inl _ \<Rightarrow> 0 | Inr due \<Rightarrow> due)"

definition paidRow :: "workforceRuntimeConfig \<Rightarrow> int \<Rightarrow> db \<Rightarrow> company \<Rightarrow> company \<Rightarrow> company" where
  "paidRow config tick d c x =
     (let paid = min (salaryOf config d c) (max 0 (co_cashCents c - co_reservedCashCents c)) in
      x\<lparr>co_cashCents := co_cashCents c - paid,
        co_orgEfficiencyBps := nextEfficiencyBps config c
          (recentHiringCapacity (max 0 (tick - num (hiringShockDurationTicks config) + 1)) tick (co_id c) d)
          (paid < salaryOf config d c)\<rparr>)"

lemma payWorkforce_rows:
  assumes "payWorkforce E config tick snap c d = Inr d'"
  shows "companies d' = rowSet co_id (co_id c) (paidRow config tick snap c) (companies d) \<and>
    inventories d' = inventories d \<and> marketOrders d' = marketOrders d \<and>
    workforceStateOk (workforceState c) \<and> 0 \<le> salaryOf config snap c"
proof -
  from assms obtain due where due: "resolveWeeklyWorkforceSalaryBurnCents
      (IntN (co_workforceCapacity c)) (regionCodeOf c snap) (\<lambda>_. config) = Inr due"
    by (auto simp: payWorkforce_def andThen_Inr_iff)
  then have s: "salaryOf config snap c = due" by (simp add: salaryOf_def)
  have paid: "(if due \<le> (if 0 < a then a else 0) then due else if 0 < a then a else 0) =
      min due (max 0 a)" for a :: int
    by simp
  from assms due show ?thesis
    using salary_due [OF due]
    by (auto simp: payWorkforce_def result_simps Let_def s paidRow_def [abs_def] paid [symmetric])
qed

lemma clampEfficiency_bounds: "0 \<le> clampEfficiencyBps v \<and> clampEfficiencyBps v \<le> 10000"
  by (simp add: clampEfficiencyBps_def clamp_def MAX_BPS_def)

definition grown :: "company \<Rightarrow> company \<Rightarrow> bool" where
  "grown c c' \<longleftrightarrow> (\<exists>k\<ge>0. c' = c\<lparr>co_workforceCapacity := co_workforceCapacity c + k\<rparr>)"

lemma grown_refl: "grown c c"
  unfolding grown_def by (rule exI [of _ 0]) simp

lemma grown_add: "0 \<le> k \<Longrightarrow> grown c (c\<lparr>co_workforceCapacity := co_workforceCapacity c + k\<rparr>)"
  unfolding grown_def by blast

lemma grown_trans: "grown a b \<Longrightarrow> grown b c \<Longrightarrow> grown a c"
proof -
  assume "grown a b" "grown b c"
  then obtain k j where "0 \<le> k" "0 \<le> j" "c = a\<lparr>co_workforceCapacity := co_workforceCapacity a + (k + j)\<rparr>"
    by (auto simp: grown_def add.assoc)
  then show "grown a c" unfolding grown_def by (intro exI [of _ "k + j"]) simp
qed

lemma grown_list_trans:
  "list_all2 grown xs ys \<Longrightarrow> list_all2 grown ys zs \<Longrightarrow> list_all2 grown xs zs"
  by (rule list_all2_trans [OF grown_trans])

lemma applyDelta_rows:
  assumes "applyDelta tick x d = Inr d'"
  shows "list_all2 grown (companies d) (companies d') \<and>
    inventories d' = inventories d \<and> marketOrders d' = marketOrders d"
  using assms grown_refl grown_add
  by (auto simp: applyDelta_def result_simps Let_def rowSet_def list_all2_map2 list_all2_same
      split: if_splits)

lemma applyDeltas_rows:
  assumes "applyDueWorkforceCapacityDeltas tick d = Inr d'"
  shows "list_all2 grown (companies d) (companies d') \<and>
    inventories d' = inventories d \<and> marketOrders d' = marketOrders d"
proof -
  let ?P = "\<lambda>e. list_all2 grown (companies d) (companies e) \<and>
    inventories e = inventories d \<and> marketOrders e = marketOrders d"
  from assms have loop: "forEach (applyDelta tick) (dueDeltas tick d) d = Inr d'"
    by (simp add: applyDueWorkforceCapacityDeltas_def)
  show ?thesis
  proof (rule forEach_invariant [OF loop, where P = ?P])
    show "?P d" by (simp add: list_all2_same grown_refl)
  next
    fix x e e' assume "?P e" "applyDelta tick x e = Inr e'"
    with applyDelta_rows [OF this(2)] show "?P e'" by (auto intro: grown_list_trans)
  qed
qed

text \<open>The hirings that arrive raise each company's capacity by exactly what is due to it.\<close>

definition dueCapacity :: "workforceCapacityDelta list \<Rightarrow> string \<Rightarrow> int" where
  "dueCapacity xs cid = (\<Sum>x\<leftarrow>xs. if wd_companyId x = cid then wd_deltaCapacity x else 0)"

definition hired :: "workforceCapacityDelta list \<Rightarrow> company \<Rightarrow> company" where
  "hired xs c = c\<lparr>co_workforceCapacity := co_workforceCapacity c + dueCapacity xs (co_id c)\<rparr>"

lemma countWhere_unique:
  "distinct (map key xs) \<Longrightarrow> x \<in> set xs \<Longrightarrow> P x \<Longrightarrow> countWhere (\<lambda>y. key y = key x \<and> P y) xs = 1"
proof (induction xs)
  case (Cons a xs)
  show ?case
  proof (cases "a = x")
    case True
    have "filter (\<lambda>y. key y = key x \<and> P y) xs = []"
      using Cons.prems(1) True by (auto simp: filter_empty_conv intro: rev_image_eqI)
    with True Cons.prems(3) show ?thesis by (simp add: countWhere_def)
  next
    case False
    then have "x \<in> set xs" "key a \<noteq> key x" using Cons.prems(1,2) by force+
    with Cons show ?thesis by (simp add: countWhere_def)
  qed
qed simp

lemma applyDelta_hired:
  assumes "applyDelta t x d = Inr d'" and "distinct (map wd_id (workforceCapacityDeltas d))"
    and "x \<in> set (workforceCapacityDeltas d)" and "wd_tickApplied x = None"
  shows "companies d' = map (hired [x]) (companies d)"
    and "workforceCapacityDeltas d' = mapWhere (\<lambda>y. wd_id y = wd_id x \<and> wd_tickApplied y = None)
      (\<lambda>y. y\<lparr>wd_tickApplied := Some t\<rparr>) (workforceCapacityDeltas d)"
    and "regions d' = regions d"
  using assms(1) countWhere_unique [OF assms(2,3), where P = "\<lambda>y. wd_tickApplied y = None"] assms(4)
  by (auto simp: applyDelta_def Let_def andThen_Inr_iff updateRow_Inr rowSet_def hired_def dueCapacity_def
      split: if_splits)

lemma hired_append: "map (hired xs) (map (hired [x]) cs) = map (hired (x # xs)) cs"
  by (simp add: hired_def dueCapacity_def)

lemma applyDeltas_hired:
  assumes "forEach (applyDelta t) xs d = Inr d'" and "distinct (map wd_id (workforceCapacityDeltas d))"
    and "distinct (map wd_id xs)" and "\<forall>x\<in>set xs. x \<in> set (workforceCapacityDeltas d) \<and> wd_tickApplied x = None"
  shows "companies d' = map (hired xs) (companies d) \<and> regions d' = regions d"
  using assms
proof (induction xs arbitrary: d)
  case Nil
  then show ?case by (simp add: hired_def dueCapacity_def)
next
  case (Cons x xs)
  from Cons.prems(1) obtain e where e: "applyDelta t x d = Inr e" "forEach (applyDelta t) xs e = Inr d'"
    by (auto simp: andThen_Inr_iff)
  have x: "x \<in> set (workforceCapacityDeltas d)" "wd_tickApplied x = None" using Cons.prems(4) by simp_all
  note one = applyDelta_hired [OF e(1) Cons.prems(2) x]
  have "map wd_id (workforceCapacityDeltas e) = map wd_id (workforceCapacityDeltas d)"
    unfolding one(2) by (simp add: mapWhere_def)
  then have "distinct (map wd_id (workforceCapacityDeltas e))" using Cons.prems(2) by metis
  moreover have "y \<in> set (workforceCapacityDeltas e)" if "y \<in> set xs" for y
  proof -
    have "wd_id y \<noteq> wd_id x" using Cons.prems(3) imageI [OF that, of wd_id] by auto
    moreover have "y \<in> set (workforceCapacityDeltas d)" using Cons.prems(4) that by simp
    ultimately show ?thesis unfolding one(2) by (force simp: mapWhere_def)
  qed
  ultimately show ?case using Cons.IH [OF e(2)] Cons.prems(3,4) one(1,3) by (simp add: hired_append del: map_map)
qed

lemma resolveConfig_again:
  "resolveWorkforceRuntimeConfig overrides = Inr config \<Longrightarrow> resolveWorkforceRuntimeConfig (\<lambda>_. config) = Inr config"
  by (auto simp: resolveWorkforceRuntimeConfig_def Let_def andThen_Inr_iff)

lemma salaryOf_eq:
  assumes "resolveWorkforceRuntimeConfig overrides = Inr config" and "0 \<le> co_workforceCapacity c"
  shows "salaryOf config d c = (co_workforceCapacity c * baseSalaryPerCapacityCents config *
    resolveRegionSalaryModifierBps (regionCodeOf c d) config) sdiv MAX_BPS"
  using resolveConfig_again [OF assms(1)] assms(2)
  by (simp add: salaryOf_def resolveWeeklyWorkforceSalaryBurnCents_def Let_def ensureNonNegativeInteger_def)

text \<open>The stage row by row: the hirings that are due, then the pay of the companies as they are then.\<close>

lemma workforce_rows:
  assumes "runWorkforceForTick E tick overrides d = Inr d'" and "marketOk d"
  obtains config d1 where "resolveWorkforceRuntimeConfig overrides = Inr config"
    "applyDueWorkforceCapacityDeltas (num tick) d = Inr d1"
    "companies d' = map (\<lambda>c. paidRow config (num tick) d1 c c) (companies d1)"
    "inventories d' = inventories d1" "marketOrders d' = marketOrders d1"
    "workforceCapacityDeltas d' = workforceCapacityDeltas d1"
    "\<forall>c\<in>set (companies d1). workforceStateOk (workforceState c) \<and> 0 \<le> salaryOf config d1 c"
proof -
  from assms(1) obtain config d1 where
    config: "resolveWorkforceRuntimeConfig overrides = Inr config" and
    deltas: "applyDueWorkforceCapacityDeltas (num tick) d = Inr d1"
    and loop: "forEach (payWorkforce E config (num tick) d1)
       (sortBy (\<lambda>x y. env_textCompare E (co_id x) (co_id y)) (companies d1)) d1 = Inr d'"
    by (auto simp: runWorkforceForTick_def andThen_Inr_iff)
  let ?cs = "sortBy (\<lambda>x y. env_textCompare E (co_id x) (co_id y)) (companies d1)"
  let ?g = "paidRow config (num tick) d1"
  note grow = applyDeltas_rows [OF deltas]
  have acc: "map account (companies d1) = map account (companies d)"
    using grow by (auto simp: grown_def list_all2_conv_all_nth list_eq_iff_nth_eq account_def)
  have ok1: "marketOk d1" by (rule marketOk_accounts [OF assms(2) acc]) (use grow in auto)
  have dist: "distinct (map co_id (companies d1))"
    using rowsOk_distinct [OF economyOk_companies [OF marketOkD(1) [OF ok1]]] .
  have frame: "inventories d' = inventories d1 \<and> marketOrders d' = marketOrders d1 \<and>
      workforceCapacityDeltas d' = workforceCapacityDeltas d1"
    by (rule forEach_invariant [OF loop, where P = "\<lambda>e. inventories e = inventories d1 \<and> marketOrders e = marketOrders d1 \<and>
          workforceCapacityDeltas e = workforceCapacityDeltas d1"])
      (auto simp: payWorkforce_def Let_def andThen_Inr_iff updateRow_Inr createLedgerEntry_Inr)
  have step: "\<And>x d d'. x \<in> set ?cs \<Longrightarrow> payWorkforce E config (num tick) d1 x d = Inr d' \<Longrightarrow>
      companies d' = rowSet co_id (co_id x) (?g x) (companies d)"
    using payWorkforce_rows by blast
  have rows: "companies d' = map (\<lambda>r. case rowFind co_id (co_id r) ?cs of None \<Rightarrow> r | Some x \<Rightarrow> ?g x r) (companies d1)"
    by (rule forEach_rows [OF loop _ step]) (use dist in \<open>auto simp: paidRow_def Let_def\<close>)
  have "companies d' = map (\<lambda>c. ?g c c) (companies d1)"
    unfolding rows
  proof (rule map_cong [OF refl])
    fix c assume "c \<in> set (companies d1)"
    then have "rowFind co_id (co_id c) ?cs = Some c" using dist by (intro rowFind_unique) auto
    then show "(case rowFind co_id (co_id c) ?cs of None \<Rightarrow> c | Some x \<Rightarrow> ?g x c) = ?g c c" by simp
  qed
  moreover have "\<forall>c\<in>set (companies d1). workforceStateOk (workforceState c) \<and> 0 \<le> salaryOf config d1 c"
    using forEach_member [OF loop] payWorkforce_rows by fastforce
  ultimately show thesis using that [OF config deltas] frame by blast
qed

lemma due_rows:
  assumes "distinct (map wd_id (workforceCapacityDeltas d))"
  shows "distinct (map wd_id (dueDeltas t d))"
    and "\<forall>x\<in>set (dueDeltas t d). x \<in> set (workforceCapacityDeltas d) \<and> wd_tickApplied x = None"
  using assms by (auto simp: dueDeltas_def distinct_map_filter)

lemma workforce_tick:
  assumes "runWorkforceForTick E tick overrides d = Inr d'" and "marketOk d"
  shows "marketOk d' \<and>
    list_all2 (\<lambda>c c'. co_id c' = co_id c \<and> co_reservedCashCents c' = co_reservedCashCents c \<and>
       co_workforceCapacity c \<le> co_workforceCapacity c' \<and> 0 \<le> co_workforceCapacity c' \<and>
       0 \<le> co_orgEfficiencyBps c' \<and> co_orgEfficiencyBps c' \<le> 10000 \<and> workforceStateOk (workforceState c') \<and>
       (\<exists>due\<ge>0. co_cashCents c' =
          co_cashCents c - min due (co_cashCents c - co_reservedCashCents c)))
      (companies d) (companies d')"
proof -
  obtain config d1 where deltas: "applyDueWorkforceCapacityDeltas (num tick) d = Inr d1"
    and rows: "companies d' = map (\<lambda>c. paidRow config (num tick) d1 c c) (companies d1)"
    and frame: "inventories d' = inventories d1" "marketOrders d' = marketOrders d1"
    and each: "\<forall>c\<in>set (companies d1). workforceStateOk (workforceState c) \<and> 0 \<le> salaryOf config d1 c"
    using workforce_rows [OF assms] by blast
  let ?g = "paidRow config (num tick) d1"
  note grow = applyDeltas_rows [OF deltas]
  have rel: "list_all2 (\<lambda>c c'. c' = ?g c c \<and> workforceStateOk (workforceState c) \<and>
      0 \<le> salaryOf config d1 c) (companies d1) (companies d')"
    using rows each by (simp add: list_all2_map2 list_all2_same)
  have free: "0 \<le> co_cashCents c - co_reservedCashCents c" if "c \<in> set (companies d)" for c
    using that marketOkD(1) [OF assms(2)] by (auto simp: economyOk_def rowsOk_def companyOk_iff)
  show ?thesis
  proof
    show "list_all2 (\<lambda>c c'. co_id c' = co_id c \<and> co_reservedCashCents c' = co_reservedCashCents c \<and>
       co_workforceCapacity c \<le> co_workforceCapacity c' \<and> 0 \<le> co_workforceCapacity c' \<and>
       0 \<le> co_orgEfficiencyBps c' \<and> co_orgEfficiencyBps c' \<le> 10000 \<and> workforceStateOk (workforceState c') \<and>
       (\<exists>due\<ge>0. co_cashCents c' =
          co_cashCents c - min due (co_cashCents c - co_reservedCashCents c)))
      (companies d) (companies d')"
      unfolding list_all2_conv_all_nth
    proof (intro conjI allI impI)
      show "length (companies d) = length (companies d')"
        using list_all2_lengthD [OF conjunct1 [OF grow]] list_all2_lengthD [OF rel] by simp
      fix i assume i: "i < length (companies d)"
      then obtain k where k: "0 \<le> k" "companies d1 ! i =
          (companies d ! i)\<lparr>co_workforceCapacity := co_workforceCapacity (companies d ! i) + k\<rparr>"
        using grow by (auto simp: grown_def list_all2_conv_all_nth)
      have "i < length (companies d1)" using i list_all2_lengthD [OF conjunct1 [OF grow]] by simp
      then have c': "companies d' ! i = ?g (companies d1 ! i) (companies d1 ! i)"
        "workforceStateOk (workforceState (companies d1 ! i))" "0 \<le> salaryOf config d1 (companies d1 ! i)"
        using rel by (auto simp: list_all2_conv_all_nth)
      note fr = free [OF nth_mem [OF i]]
      show "co_id (companies d' ! i) = co_id (companies d ! i)"
        "co_reservedCashCents (companies d' ! i) = co_reservedCashCents (companies d ! i)"
        "co_workforceCapacity (companies d ! i) \<le> co_workforceCapacity (companies d' ! i)"
        "0 \<le> co_workforceCapacity (companies d' ! i)"
        "0 \<le> co_orgEfficiencyBps (companies d' ! i)" "co_orgEfficiencyBps (companies d' ! i) \<le> 10000"
        "workforceStateOk (workforceState (companies d' ! i))"
        using c' k by (simp_all add: paidRow_def Let_def workforceStateOk_def workforceState_def
            nextEfficiencyBps_def clampEfficiency_bounds)
      show "\<exists>due\<ge>0. co_cashCents (companies d' ! i) = co_cashCents (companies d ! i) -
          min due (co_cashCents (companies d ! i) - co_reservedCashCents (companies d ! i))"
        by (rule exI [of _ "salaryOf config d1 (companies d1 ! i)"])
          (use c' k fr in \<open>simp add: paidRow_def Let_def\<close>)
    qed
    then show "marketOk d'"
      using frame grow by (intro marketOk_paid [OF assms(2)]) (auto elim: list_all2_mono)
  qed
qed

text \<open>After the stage every company's workforce columns are in range, whatever they were before.\<close>

definition staffed :: "db \<Rightarrow> bool" where
  "staffed d \<longleftrightarrow> (\<forall>c\<in>set (companies d). workforceStateOk (workforceState c))"

lemma workforce_tick_staffed:
  "runWorkforceForTick E tick overrides d = Inr d' \<Longrightarrow> marketOk d \<Longrightarrow> staffed d'"
  using workforce_tick [of E tick overrides d d']
  by (auto simp: staffed_def in_set_conv_nth list_all2_conv_all_nth)

subsection \<open>Properties\<close>

text \<open>
  With the default configuration a valid workforce shortens durations within fixed limits:
  production to no less than 88 percent, research 85, travel 89; an adjusted duration is the
  exact ceiling, so a positive duration stays positive and never grows.
\<close>

theorem workforce_speedup_bounded:
  assumes "resolveWorkforceRuntimeModifiers s id = Inr m" and "0 < t"
  shows "8800 \<le> productionDurationMultiplierBps m \<and> productionDurationMultiplierBps m \<le> 10000 \<and>
    8500 \<le> researchDurationMultiplierBps m \<and> researchDurationMultiplierBps m \<le> 10000 \<and>
    8900 \<le> logisticsTravelMultiplierBps m \<and> logisticsTravelMultiplierBps m \<le> 10000 \<and>
    (\<forall>b. 1 \<le> b \<and> b \<le> 10000 \<longrightarrow>
       (\<exists>r. applyDurationMultiplierTicks (IntN t) (IntN b) = Inr r \<and> 1 \<le> r \<and> r \<le> t \<and>
          t * b \<le> 10000 * r \<and> 10000 * (r - 1) < t * b))"
proof -
  have "\<exists>r. applyDurationMultiplierTicks (IntN t) (IntN b) = Inr r \<and> 1 \<le> r \<and> r \<le> t \<and>
          t * b \<le> 10000 * r \<and> 10000 * (r - 1) < t * b" if b: "1 \<le> b" "b \<le> 10000" for b
  proof -
    let ?r = "(t * b + 9999) div 10000"
    note r = scaled_duration_bounds [OF assms(2) b]
    with r b assms(2) show ?thesis
      by (intro exI [of _ ?r]) (auto simp: applyDuration_iff max_def)
  qed
  with modifiers_bounds [OF assms(1) default_config] show ?thesis
    by (auto simp: DEFAULT_WORKFORCE_RUNTIME_CONFIG_def)
qed

theorem workforce_speedup_bounded_witness:
  "\<exists>m. resolveWorkforceRuntimeModifiers (workforceState (mkCompany ''a'' True ''r1'' 0 0)) id = Inr m \<and>
     8800 \<le> productionDurationMultiplierBps m"
proof -
  let ?s = "workforceState (mkCompany ''a'' True ''r1'' 0 0)"
  have "workforceStateOk ?s" by (simp add: workforceStateOk_def workforceState_def mkCompany_def)
  then have "assertValidWorkforceState ?s = Inr ()" by (simp add: result_simps)
  then obtain m where m: "resolveWorkforceRuntimeModifiers ?s id = Inr m"
    by (auto simp: resolveWorkforceRuntimeModifiers_def default_config Let_def)
  from workforce_speedup_bounded [OF m, of 1] m show ?thesis by auto
qed

text \<open>
  C33. The workforce stage of a tick, exactly: every company's capacity grows by the hirings that are
  due to it; its salary is the new capacity times the base salary, scaled by its region's modifier; it
  pays the salary, or all the cash that is not reserved when that is less; and its efficiency follows
  from its hirings and from whether the salary was paid in full. Nothing else of a company changes,
  and the market's invariant is kept.
\<close>

theorem workforce_tick_exact:
  assumes "runWorkforceForTick E tick overrides d = Inr d'" and "marketOk d"
    and "resolveWorkforceRuntimeConfig overrides = Inr config" and "distinct (map wd_id (workforceCapacityDeltas d))"
  shows "marketOk d' \<and>
    companies d' = map (\<lambda>c.
      let capacity = co_workforceCapacity c + dueCapacity (dueDeltas (num tick) d) (co_id c);
          salary = (capacity * baseSalaryPerCapacityCents config *
            resolveRegionSalaryModifierBps (regionCodeOf c d) config) sdiv 10000;
          paid = min salary (co_cashCents c - co_reservedCashCents c);
          since = max 0 (num tick - num (hiringShockDurationTicks config) + 1) in
      c\<lparr>co_workforceCapacity := capacity, co_cashCents := co_cashCents c - paid,
        co_orgEfficiencyBps := nextEfficiencyBps config c
          (recentHiringCapacity since (num tick) (co_id c) d') (paid < salary)\<rparr>) (companies d)"
proof -
  obtain config' d1 where rows: "resolveWorkforceRuntimeConfig overrides = Inr config'"
    "applyDueWorkforceCapacityDeltas (num tick) d = Inr d1"
    "companies d' = map (\<lambda>c. paidRow config' (num tick) d1 c c) (companies d1)"
    "inventories d' = inventories d1" "marketOrders d' = marketOrders d1"
    "workforceCapacityDeltas d' = workforceCapacityDeltas d1"
    "\<forall>c\<in>set (companies d1). workforceStateOk (workforceState c) \<and> 0 \<le> salaryOf config' d1 c"
    using workforce_rows [OF assms(1,2)] by blast
  have config': "config' = config" using rows(1) assms(3) by simp
  have loop: "forEach (applyDelta (num tick)) (dueDeltas (num tick) d) d = Inr d1"
    using rows(2) by (simp add: applyDueWorkforceCapacityDeltas_def)
  note d1 = applyDeltas_hired [OF loop assms(4) due_rows [OF assms(4)]]
  have free: "0 \<le> co_cashCents c - co_reservedCashCents c" if "c \<in> set (companies d)" for c
    using that marketOkD(1) [OF assms(2)] by (auto simp: economyOk_def rowsOk_def companyOk_iff)
  have recent: "recentHiringCapacity a b k d' = recentHiringCapacity a b k d1" for a b k
    by (simp add: recentHiringCapacity_def rows(6))
  have region: "regionCodeOf (hired xs c) d1 = regionCodeOf c d" for xs c
    using d1 by (simp add: regionCodeOf_def hired_def)
  have cap: "0 \<le> co_workforceCapacity (hired (dueDeltas (num tick) d) c)" if "c \<in> set (companies d)" for c
    using rows(7) d1 that by (auto simp: workforceStateOk_def workforceState_def)
  have salary: "salaryOf config d1 (c\<lparr>co_workforceCapacity := co_workforceCapacity c + dueCapacity (dueDeltas (num tick) d) (co_id c)\<rparr>) =
      ((co_workforceCapacity c + dueCapacity (dueDeltas (num tick) d) (co_id c)) * baseSalaryPerCapacityCents config *
        resolveRegionSalaryModifierBps (regionCodeOf c d) config) sdiv 10000" if "c \<in> set (companies d)" for c
    using salaryOf_eq [OF assms(3) cap [OF that], of d1] unfolding region by (simp add: hired_def MAX_BPS_def)
  have "companies d' = map (\<lambda>c. paidRow config (num tick) d1 (hired (dueDeltas (num tick) d) c)
      (hired (dueDeltas (num tick) d) c)) (companies d)"
    using rows(3) d1 by (simp add: config' comp_def)
  also have "\<dots> = map (\<lambda>c.
      let capacity = co_workforceCapacity c + dueCapacity (dueDeltas (num tick) d) (co_id c);
          salary = (capacity * baseSalaryPerCapacityCents config *
            resolveRegionSalaryModifierBps (regionCodeOf c d) config) sdiv 10000;
          paid = min salary (co_cashCents c - co_reservedCashCents c);
          since = max 0 (num tick - num (hiringShockDurationTicks config) + 1) in
      c\<lparr>co_workforceCapacity := capacity, co_cashCents := co_cashCents c - paid,
        co_orgEfficiencyBps := nextEfficiencyBps config c
          (recentHiringCapacity since (num tick) (co_id c) d') (paid < salary)\<rparr>) (companies d)"
    by (rule map_cong [OF refl]) (use free salary in \<open>simp add: paidRow_def Let_def recent hired_def nextEfficiencyBps_def\<close>)
  finally show ?thesis using workforce_tick [OF assms(1,2)] by blast
qed

lemma workforce_tick_exact_witness:
  "\<exists>d'. runWorkforceForTick fixtureEnv (IntN 7) id fixtureDb = Inr d' \<and> marketOk d' \<and>
     map co_cashCents (companies d') \<noteq> map co_cashCents (companies fixtureDb)"
proof -
  have "case runWorkforceForTick fixtureEnv (IntN 7) id fixtureDb of
      Inl _ \<Rightarrow> False | Inr d' \<Rightarrow> map co_cashCents (companies d') \<noteq> map co_cashCents (companies fixtureDb)" by code_simp
  then obtain d' where *: "runWorkforceForTick fixtureEnv (IntN 7) id fixtureDb = Inr d'"
    "map co_cashCents (companies d') \<noteq> map co_cashCents (companies fixtureDb)" by (auto split: sum.splits)
  have "distinct (map wd_id (workforceCapacityDeltas fixtureDb))" by code_simp
  with workforce_tick_exact [OF *(1) fixture_marketOk default_config] * show ?thesis by blast
qed

text \<open>
  A requested capacity change is bounded by the configuration's absolute limit; a layoff
  takes effect at once, costs nothing and never makes the workforce negative; a hiring is paid
  from free cash, leaves the workforce as it is and queues exactly one pending increase. The
  market's invariant is kept.
\<close>

theorem capacity_change_effect:
  assumes "requestCompanyWorkforceCapacityChange E cid (IntN n) overrides d = (Inr r, d')"
    and "marketOk d"
  shows "marketOk d' \<and>
    (\<exists>c config. findCompany cid d = Some c \<and> resolveWorkforceRuntimeConfig overrides = Inr config \<and>
       \<bar>n\<bar> \<le> num (maxAbsoluteCapacityDeltaPerRequest config) \<and>
       (if n < 0 then
          totalCash d' = totalCash d \<and> cc_workforceCapacity r = co_workforceCapacity c + n \<and>
          0 \<le> cc_workforceCapacity r \<and> workforceCapacityDeltas d' = workforceCapacityDeltas d \<and>
          (\<exists>c'. findCompany cid d' = Some c' \<and> co_workforceCapacity c' = co_workforceCapacity c + n)
        else
          totalCash d' = totalCash d - cc_recruitmentCostCents r \<and> 0 < cc_recruitmentCostCents r \<and>
          cc_recruitmentCostCents r \<le> co_cashCents c - co_reservedCashCents c \<and>
          (\<exists>x. workforceCapacityDeltas d' = workforceCapacityDeltas d @ [x] \<and>
             wd_companyId x = cid \<and> wd_deltaCapacity x = n \<and> wd_tickApplied x = None) \<and>
          (\<exists>c'. findCompany cid d' = Some c' \<and> co_workforceCapacity c' = co_workforceCapacity c)))"
proof -
  from assms(1) obtain config where config: "resolveWorkforceRuntimeConfig overrides = Inr config"
    and n: "n \<noteq> 0" and tx: "changeCapacityWithTx E config cid n d = Inr (r, d')"
    by (auto simp: requestCompanyWorkforceCapacityChange_def transaction_def
        split: if_splits sum.splits)
  from tx obtain c where c: "findCompany cid d = Some c"
    and chk: "checkCapacityChange config c \<bar>n\<bar> = Inr ()"
    and body: "(if n < 0 then reduceCapacity config c n (worldTick d) d
        else hireCapacity E config c n (worldTick d) d) = Inr (r, d')"
    by (auto simp: changeCapacityWithTx_def andThen_Inr_iff Let_def split: option.splits)
  have id: "co_id c = cid" using c by (rule rowFind_key)
  have lim: "\<bar>n\<bar> \<le> num (maxAbsoluteCapacityDeltaPerRequest config)"
    using chk by (auto simp: checkCapacityChange_def andThen_Inr_iff split: if_splits)
  have ok: "configOk config" by (rule conjunct2 [OF resolveConfig_ok [OF config]])
  note acc = marketOk_company [OF assms(2) c]
  show ?thesis
  proof (cases "n < 0")
    case True
    let ?f = "\<lambda>x. x\<lparr>co_workforceCapacity := co_workforceCapacity c - \<bar>n\<bar>,
      co_orgEfficiencyBps := clampEfficiencyBps (co_orgEfficiencyBps c - num (layoffEfficiencyPenaltyBps config))\<rparr>"
    from body True obtain c' where u: "updateCompany cid ?f d = Inr (c', d')"
      and r: "cc_workforceCapacity r = co_workforceCapacity c - \<bar>n\<bar>" "\<bar>n\<bar> \<le> co_workforceCapacity c"
      by (auto simp: reduceCapacity_def Let_def andThen_Inr_iff id split: if_splits)
    have "marketOk d'" "totalCash d' = totalCash d"
      using marketOk_updateCompany [OF u assms(2)] totalCash_updateCompany [OF u assms(2) c] acc u c
      by (auto simp: result_simps companyOk_iff)
    with u r c lim config True show ?thesis by (auto simp: result_simps rowFind_rowSet)
  next
    case False
    let ?cost = "n * recruitmentCostPerCapacityCents config"
    let ?f = "\<lambda>x. x\<lparr>co_cashCents := co_cashCents c - ?cost\<rparr>"
    from body False obtain x d1 c' d2 where
      x: "createRow wd_id workforceCapacityDeltas workforceCapacityDeltas_update
            \<lparr>wd_id = newId E d, wd_companyId = cid, wd_deltaCapacity = n,
             wd_tickArrives = worldTick d + num (hiringDelayTicks config), wd_tickApplied = None,
             wd_createdAt = currentTime E d\<rparr> d = Inr (x, d1)"
      and u: "updateCompany cid ?f d1 = Inr (c', d2)"
      and l: "createLedgerEntry E cid (worldTick d) WORKFORCE_RECRUITMENT_EXPENSE (- ?cost) 0
            (co_cashCents c - ?cost) ''WORKFORCE_CAPACITY_CHANGE'' (wd_id x) d2 = Inr d'"
      and r: "cc_recruitmentCostCents r = ?cost" "?cost \<le> co_cashCents c - co_reservedCashCents c"
      by (auto simp: hireCapacity_def Let_def result_simps id
          simp del: updateRow_Inr createRow_Inr createLedgerEntry_Inr split: if_splits)
    have xs: "wd_companyId x = cid" "wd_deltaCapacity x = n" "wd_tickApplied x = None"
      using x by (auto simp: result_simps)
    have pos: "0 < ?cost" using False n ok by (simp add: configOk_def)
    have d1: "marketOk d1" "findCompany cid d1 = Some c" "totalCash d1 = totalCash d"
      "workforceCapacityDeltas d1 = workforceCapacityDeltas d @ [x]"
      using x assms(2) c marketOk_same [of d d1] by (auto simp: result_simps totalCash_def)
    have "marketOk d2" "totalCash d2 = totalCash d - ?cost"
      using marketOk_updateCompany [OF u d1(1)] totalCash_updateCompany [OF u d1(1,2)] acc u d1 r pos
      by (auto simp: result_simps companyOk_iff)
    moreover have "marketOk d'" by (rule marketOk_ledger [OF l \<open>marketOk d2\<close>])
    moreover have "totalCash d' = totalCash d2" "companies d' = rowSet co_id cid ?f (companies d)"
      "workforceCapacityDeltas d' = workforceCapacityDeltas d @ [x]"
      using l u x d1(4) by (auto simp: result_simps totalCash_def)
    ultimately show ?thesis using xs r c lim config False pos by (auto simp: rowFind_rowSet)
  qed
qed

theorem capacity_change_effect_witness:
  "\<exists>r d'. requestCompanyWorkforceCapacityChange fixtureEnv ''b'' (IntN 3) id fixtureDb = (Inr r, d') \<and>
     marketOk d' \<and> totalCash d' = totalCash fixtureDb - cc_recruitmentCostCents r"
proof -
  have "returns (fst (requestCompanyWorkforceCapacityChange fixtureEnv ''b'' (IntN 3) id fixtureDb))"
    by code_simp
  then obtain r d' where *: "requestCompanyWorkforceCapacityChange fixtureEnv ''b'' (IntN 3) id fixtureDb = (Inr r, d')"
    by (cases "requestCompanyWorkforceCapacityChange fixtureEnv ''b'' (IntN 3) id fixtureDb")
      (auto simp: returns_iff)
  from capacity_change_effect [OF * fixture_marketOk] * show ?thesis by auto
qed

subsection \<open>The stage's contract\<close>

lemma applyDelta_masters: "applyDelta t x d = Inr d' \<Longrightarrow> masters d' = masters d"
  by (auto simp: applyDelta_def Let_def andThen_Inr_iff branch_Inr updateRow_Inr masters_def split: if_splits)

lemma payWorkforce_masters: "payWorkforce E config t d0 c d = Inr d' \<Longrightarrow> masters d' = masters d"
  by (auto simp: payWorkforce_def Let_def andThen_Inr_iff updateRow_Inr createLedgerEntry_Inr masters_def
      split: if_splits)

lemma workforce_masters:
  assumes "runWorkforceForTick E tick overrides d = Inr d'"
  shows "masters d' = masters d"
proof -
  from assms obtain config e where
    deltas: "forEach (applyDelta (num tick)) (dueDeltas (num tick) d) d = Inr e" and
    loop: "forEach (payWorkforce E config (num tick) e)
       (sortBy (\<lambda>x y. env_textCompare E (co_id x) (co_id y)) (companies e)) e = Inr d'"
    by (auto simp: runWorkforceForTick_def applyDueWorkforceCapacityDeltas_def andThen_Inr_iff)
  have "masters e = masters d"
    by (rule forEach_invariant [OF deltas, where P = "\<lambda>x. masters x = masters d"])
      (simp_all add: applyDelta_masters)
  moreover have "masters d' = masters e"
    by (rule forEach_invariant [OF loop, where P = "\<lambda>x. masters x = masters e"])
      (simp_all add: payWorkforce_masters)
  ultimately show ?thesis by simp
qed

lemma paid_totalCash:
  assumes "list_all2 (\<lambda>c c'. co_cashCents c' \<le> co_cashCents c) cs ds"
  shows "(\<Sum>c\<leftarrow>ds. co_cashCents c) \<le> (\<Sum>c\<leftarrow>cs. co_cashCents c)"
  using assms by (induction rule: list_all2_induct) auto

interpretation workforceStage: tick_stage "runWorkforceForTick E tick overrides" for E tick overrides
proof
  fix d d'
  assume run: "runWorkforceForTick E tick overrides d = Inr d'" and ok: "tickOk d"
  have m: "marketOk d" using ok by (simp add: tickOk_def)
  note w = workforce_tick [OF run m]
  have bound: "co_reservedCashCents c \<le> co_cashCents c" if "c \<in> set (companies d)" for c
    using marketOk_company [OF m rowFind_unique [OF rowsOk_distinct [OF economyOk_companies [OF marketOkD(1) [OF m]]] that]]
    by simp
  have "list_all2 (\<lambda>c c'. co_cashCents c' \<le> co_cashCents c) (companies d) (companies d')"
  proof (rule list_all2_all_nthI)
    show len: "length (companies d) = length (companies d')" using w by (auto dest: list_all2_lengthD)
    fix i assume i: "i < length (companies d)"
    with w len obtain due where "0 \<le> due" "co_cashCents (companies d' ! i) = co_cashCents (companies d ! i) -
        min due (co_cashCents (companies d ! i) - co_reservedCashCents (companies d ! i))"
      by (auto simp: list_all2_conv_all_nth)
    with bound [of "companies d ! i"] i show "co_cashCents (companies d' ! i) \<le> co_cashCents (companies d ! i)"
      by auto
  qed
  with w workforce_masters [OF run] paid_totalCash
  show "marketOk d' \<and> masters d' = masters d \<and> totalCash d' \<le> totalCash d"
    unfolding totalCash_def by blast
qed

end
