(* ===== verification/Production.thy ===== *)
theory Production
  imports Fixture Workforce Buildings MarketOrders
begin

section \<open>Production jobs\<close>

text \<open>
  \<open>packages/sim/src/services/production.ts\<close>: a job reserves the inputs of a recipe, a cancelled
  job releases them, a due job consumes them and adds its output; bots start profitable jobs.
  The start of a job may throw after its reservation has been written, and the bot's loop
  catches domain errors inside the transaction, so \<open>createProductionJobWithTx\<close> returns the state
  on every path. Rows of related tables (the recipe with its inputs, the company's region) are
  looked up where the query includes them.
\<close>

record startProductionJobInput =
  sj_companyId :: string
  sj_recipeId :: string
  sj_quantity :: jsnum
  sj_tick :: "jsnum option"

record cancelProductionJobInput =
  xj_jobId :: string
  xj_tick :: "jsnum option"

record stockState =
  st_quantity :: int
  st_reservedQuantity :: int

abbreviation "updateProductionJob \<equiv> updateRow pj_id productionJobs productionJobs_update"
abbreviation "createProductionJobRow \<equiv> createRow pj_id productionJobs productionJobs_update"

subsection \<open>Stock arithmetic\<close>

definition notNonNegativeInteger :: "jsnum \<Rightarrow> bool" where
  "notNonNegativeInteger n = (\<not> isInteger n \<or> num n < 0)"

definition isProductionJobDue :: "jsnum \<Rightarrow> jsnum \<Rightarrow> bool result" where
  "isProductionJobDue currentTick dueTick =
     (if notNonNegativeInteger currentTick
        then Inl (DomainInvariantError ''currentTick must be a non-negative integer'')
      else if notNonNegativeInteger dueTick
        then Inl (DomainInvariantError ''dueTick must be a non-negative integer'')
      else Inr (num currentTick \<ge> num dueTick))"

definition reserveInventoryForProduction :: "stockState \<Rightarrow> jsnum \<Rightarrow> stockState result" where
  "reserveInventoryForProduction s n =
     (if \<not> isInteger n \<or> num n \<le> 0
        then Inl (DomainInvariantError ''quantityToReserve must be a positive integer'')
      else if st_quantity s < 0 \<or> st_reservedQuantity s < 0
        then Inl (DomainInvariantError ''inventory values cannot be negative'')
      else if st_quantity s - st_reservedQuantity s < num n
        then Inl (DomainInvariantError ''insufficient input inventory for production'')
      else Inr \<lparr>st_quantity = st_quantity s, st_reservedQuantity = st_reservedQuantity s + num n\<rparr>)"

definition releaseReservedInventoryForProduction :: "stockState \<Rightarrow> jsnum \<Rightarrow> stockState result" where
  "releaseReservedInventoryForProduction s n =
     (if \<not> isInteger n \<or> num n \<le> 0
        then Inl (DomainInvariantError ''quantityToRelease must be a positive integer'')
      else if st_quantity s < 0 \<or> st_reservedQuantity s < 0
        then Inl (DomainInvariantError ''inventory values cannot be negative'')
      else if st_reservedQuantity s < num n
        then Inl (DomainInvariantError ''reserved inventory cannot become negative'')
      else Inr \<lparr>st_quantity = st_quantity s, st_reservedQuantity = st_reservedQuantity s - num n\<rparr>)"

definition consumeReservedInventoryForProduction :: "stockState \<Rightarrow> jsnum \<Rightarrow> stockState result" where
  "consumeReservedInventoryForProduction s n =
     (if \<not> isInteger n \<or> num n \<le> 0
        then Inl (DomainInvariantError ''quantityToConsume must be a positive integer'')
      else if st_quantity s < 0 \<or> st_reservedQuantity s < 0
        then Inl (DomainInvariantError ''inventory values cannot be negative'')
      else if st_quantity s < num n
        then Inl (DomainInvariantError ''inventory quantity cannot become negative'')
      else if st_reservedQuantity s < num n
        then Inl (DomainInvariantError ''reserved inventory cannot become negative'')
      else Inr \<lparr>st_quantity = st_quantity s - num n,
                st_reservedQuantity = st_reservedQuantity s - num n\<rparr>)"

fun scaleInputs :: "(string \<times> jsnum) list \<Rightarrow> int \<Rightarrow> (string \<times> int) list result" where
  "scaleInputs [] runs = Inr []"
| "scaleInputs ((itemId, qty) # rest) runs =
     (if \<not> isInteger qty \<or> num qty \<le> 0
        then Inl (DomainInvariantError ''recipe input quantity must be a positive integer'')
      else andThen (scaleInputs rest runs) (\<lambda>reqs. Inr ((itemId, num qty * runs) # reqs)))"

definition calculateRecipeInputRequirements ::
    "(string \<times> jsnum) list \<Rightarrow> jsnum \<Rightarrow> (string \<times> int) list result" where
  "calculateRecipeInputRequirements inputs runs =
     (if \<not> isInteger runs \<or> num runs \<le> 0
        then Inl (DomainInvariantError ''runs must be a positive integer'')
      else scaleInputs inputs (num runs))"

subsection \<open>Validation and prices\<close>

definition validateTickField :: "jsnum \<Rightarrow> string \<Rightarrow> unit result" where
  "validateTickField tick fieldName =
     (if notNonNegativeInteger tick
      then Inl (DomainInvariantError (fieldName @ '' must be a non-negative integer'')) else Inr ())"

definition validateStartInput :: "startProductionJobInput \<Rightarrow> unit result" where
  "validateStartInput input =
     (if sj_companyId input = [] then Inl (DomainInvariantError ''companyId is required'')
      else if sj_recipeId input = [] then Inl (DomainInvariantError ''recipeId is required'')
      else if \<not> isInteger (sj_quantity input) \<or> num (sj_quantity input) \<le> 0
        then Inl (DomainInvariantError ''quantity must be a positive integer'')
      else (case sj_tick input of None \<Rightarrow> Inr () | Some t \<Rightarrow> validateTickField t ''tick''))"

definition validateCancelJobInput :: "cancelProductionJobInput \<Rightarrow> unit result" where
  "validateCancelJobInput input =
     (if xj_jobId input = [] then Inl (DomainInvariantError ''jobId is required'')
      else (case xj_tick input of None \<Rightarrow> Inr () | Some t \<Rightarrow> validateTickField t ''tick''))"

definition isLegacyCompanyRecipeState :: "string \<Rightarrow> db \<Rightarrow> bool" where
  "isLegacyCompanyRecipeState companyId d =
     (countWhere (\<lambda>r. cr_companyId r = companyId) (companyRecipes d) < int (length (recipes d)))"

definition resolveFallbackItemPriceCents :: "string \<Rightarrow> int" where
  "resolveFallbackItemPriceCents itemCode =
     (case map_of
       [(''IRON_ORE'', 80), (''COAL'', 55), (''COPPER_ORE'', 95), (''IRON_INGOT'', 200),
        (''COPPER_INGOT'', 245), (''HAND_TOOLS'', 350), (''STEEL_INGOT'', 430),
        (''STEEL_BEAM'', 940), (''FASTENERS'', 150), (''MACHINE_PARTS'', 1250),
        (''TOOL_KIT'', 2100), (''POWER_UNIT'', 2550), (''CONVEYOR_MODULE'', 4250),
        (''INDUSTRIAL_PRESS'', 11500), (''SYNTHETIC_CONDUIT'', 520), (''BIOCELL_CANISTER'', 780),
        (''SERVO_DRIVE'', 1450), (''OPTIC_MODULE'', 1820), (''NEURAL_INTERFACE'', 3600),
        (''SPINAL_LINK'', 7600), (''OCULAR_IMPLANT'', 8200), (''CYBER_ARMATURE'', 9400),
        (''CYBERNETIC_SUITE'', 24000)] itemCode of
       Some p \<Rightarrow> p
     | None \<Rightarrow>
       (case resolveIconItemFallbackPriceCents itemCode of None \<Rightarrow> 100 | Some p \<Rightarrow> p))"

definition resolveItemPriceCents :: "string \<Rightarrow> string \<Rightarrow> (string \<rightharpoonup> int) \<Rightarrow> int" where
  "resolveItemPriceCents itemId itemCode referencePriceByItemId =
     (case referencePriceByItemId itemId of
       Some fromMarket \<Rightarrow> fromMarket
     | None \<Rightarrow> resolveFallbackItemPriceCents itemCode)"

text \<open>The joins of a recipe: an item's code, and the inputs in the order of their items' codes.\<close>

definition itemCodeOf :: "string \<Rightarrow> db \<Rightarrow> string" where
  "itemCodeOf iid d = (case findItem iid d of None \<Rightarrow> [] | Some i \<Rightarrow> it_code i)"

definition inputsOf :: "env \<Rightarrow> string \<Rightarrow> db \<Rightarrow> recipeInput list" where
  "inputsOf E recipeId d =
     sortBy (\<lambda>x y. env_textCompare E (itemCodeOf (ri_itemId x) d) (itemCodeOf (ri_itemId y) d))
       (filter (\<lambda>i. ri_recipeId i = recipeId) (recipeInputs d))"

definition isRecipeProfitable ::
    "recipe \<Rightarrow> recipeInput list \<Rightarrow> db \<Rightarrow> (string \<rightharpoonup> int) \<Rightarrow> int \<Rightarrow> bool" where
  "isRecipeProfitable recipe inputs d referencePriceByItemId minProfitBps =
     (let outputValueCents = rc_outputQuantity recipe *
            resolveItemPriceCents (rc_outputItemId recipe)
              (itemCodeOf (rc_outputItemId recipe) d) referencePriceByItemId;
          totalInputCostCents = (\<Sum>input\<leftarrow>inputs. ri_quantity input *
            resolveItemPriceCents (ri_itemId input) (itemCodeOf (ri_itemId input) d)
              referencePriceByItemId) in
      if totalInputCostCents \<le> 0 then outputValueCents > 0
      else outputValueCents * 10000 > totalInputCostCents * (10000 + minProfitBps))"

subsection \<open>Starting a job\<close>

definition checkRecipeAccess ::
    "env \<Rightarrow> startProductionJobInput \<Rightarrow> company \<Rightarrow> recipe \<Rightarrow> db \<Rightarrow> unit result" where
  "checkRecipeAccess E input company recipe d =
     (if \<not> co_isPlayer company then Inr ()
      else
        (let unlockedIconTier = resolvePlayerUnlockedIconTierFromResearchCodes
               (completedResearchCodes (sj_companyId input) d);
             lock = \<lparr>outputItemCode = itemCodeOf (rc_outputItemId recipe) d,
               inputItemCodes = map (\<lambda>i. itemCodeOf (ri_itemId i) d) (inputsOf E (rc_id recipe) d)\<rparr> in
         if isRecipeLockedByIconTier lock unlockedIconTier
           then Inl (DomainInvariantError (''recipe '' @ sj_recipeId input @
                  '' is not unlocked for company '' @ sj_companyId input))
         else if isRecipeLockedBySpecialization lock (co_specialization company)
           then Inl (DomainInvariantError (''recipe '' @ sj_recipeId input @
                  '' is not available for company specialization''))
         else Inr ()))"

definition checkRecipeUnlocked ::
    "startProductionJobInput \<Rightarrow> company \<Rightarrow> recipe \<Rightarrow> db \<Rightarrow> unit result" where
  "checkRecipeUnlocked input company recipe d =
     (let unlocked = (case rowFind (\<lambda>r. (cr_companyId r, cr_recipeId r))
                 (sj_companyId input, sj_recipeId input) (companyRecipes d) of
            None \<Rightarrow> False | Some r \<Rightarrow> cr_isUnlocked r) in
      if \<not> unlocked \<and> \<not> isLegacyCompanyRecipeState (sj_companyId input) d
        then Inl (DomainInvariantError (''recipe '' @ sj_recipeId input @
               '' is not unlocked for company '' @ sj_companyId input))
      else if rc_durationTicks recipe < 0
        then Inl (DomainInvariantError ''recipe durationTicks cannot be negative'')
      else if co_isPlayer company
        then validateProductionBuildingAvailable (sj_companyId input) d
      else Inr ())"

definition recipeRequirements :: "env \<Rightarrow> string \<Rightarrow> jsnum \<Rightarrow> db \<Rightarrow> (string \<times> int) list result" where
  "recipeRequirements E recipeId runs d =
     calculateRecipeInputRequirements
       (map (\<lambda>i. (ri_itemId i, IntN (ri_quantity i))) (inputsOf E recipeId d)) runs"

text \<open>
  The loop that checks every requirement against the inventory rows read before it; \<open>use\<close> is
  the stock operation applied and \<open>missing\<close> the message for an absent row.
\<close>

definition checkRequirements ::
    "(stockState \<Rightarrow> jsnum \<Rightarrow> stockState result) \<Rightarrow> string \<Rightarrow> string \<Rightarrow> string \<Rightarrow> db \<Rightarrow>
     (string \<times> int) list \<Rightarrow> unit result" where
  "checkRequirements use missing companyId regionId d reqs =
     forEach (\<lambda>(itemId, qty) _.
       (case findInventory companyId itemId regionId d of
         None \<Rightarrow> Inl (DomainInvariantError (missing @ itemId))
       | Some inventory \<Rightarrow>
         andThen (use \<lparr>st_quantity = inv_quantity inventory,
                       st_reservedQuantity = inv_reservedQuantity inventory\<rparr> (IntN qty))
           (\<lambda>_. Inr ()))) reqs ()"

text \<open>The loop that writes: each requirement's row gets the two increments.\<close>

definition adjustStock ::
    "string \<Rightarrow> string \<Rightarrow> int \<Rightarrow> int \<Rightarrow> (string \<times> int) list \<Rightarrow> db \<Rightarrow> db result" where
  "adjustStock companyId regionId quantitySign reservedSign reqs d =
     forEach (\<lambda>(itemId, qty) d.
       andThen (updateInventory (companyId, itemId, regionId)
         (\<lambda>r. r\<lparr>inv_quantity := inv_quantity r + quantitySign * qty,
               inv_reservedQuantity := inv_reservedQuantity r + reservedSign * qty\<rparr>) d)
         (\<lambda>(_, d). Inr d)) reqs d"

record jobPlan =
  jp_company :: company
  jp_recipe :: recipe
  jp_requirements :: "(string \<times> int) list"
  jp_tick :: int

text \<open>Everything that is checked before the first write.\<close>

definition planProductionJob :: "env \<Rightarrow> startProductionJobInput \<Rightarrow> db \<Rightarrow> jobPlan result" where
  "planProductionJob E input d =
     andThen (validateStartInput input) (\<lambda>_.
     (let tick = resolveTick (sj_tick input) d in
      case findCompany (sj_companyId input) d of
        None \<Rightarrow> Inl (NotFoundError (''company '' @ sj_companyId input @ '' not found''))
      | Some company \<Rightarrow>
      (case rowFind rc_id (sj_recipeId input) (recipes d) of
        None \<Rightarrow> Inl (NotFoundError (''recipe '' @ sj_recipeId input @ '' not found''))
      | Some recipe \<Rightarrow>
        andThen (checkRecipeAccess E input company recipe d) (\<lambda>_.
        andThen (checkRecipeUnlocked input company recipe d) (\<lambda>_.
        andThen (recipeRequirements E (rc_id recipe) (sj_quantity input) d) (\<lambda>requirements.
        andThen (checkRequirements reserveInventoryForProduction
          ''insufficient input inventory for item '' (sj_companyId input) (co_regionId company) d
          requirements) (\<lambda>_.
        Inr \<lparr>jp_company = company, jp_recipe = recipe, jp_requirements = requirements,
             jp_tick = tick\<rparr>)))))))"

definition createProductionJobWithTx ::
    "env \<Rightarrow> startProductionJobInput \<Rightarrow> db \<Rightarrow> productionJob result \<times> db" where
  "createProductionJobWithTx E input d =
     (case planProductionJob E input d of
       Inl e \<Rightarrow> (Inl e, d)
     | Inr plan \<Rightarrow>
       (case adjustStock (sj_companyId input) (co_regionId (jp_company plan)) 0 1
           (jp_requirements plan) d of
         Inl e \<Rightarrow> (Inl e, d)
       | Inr d1 \<Rightarrow>
         (case andThen (resolveWorkforceRuntimeModifiers (workforceState (jp_company plan)) id)
             (\<lambda>m. applyDurationMultiplierTicks (IntN (rc_durationTicks (jp_recipe plan)))
               (IntN (productionDurationMultiplierBps m))) of
           Inl e \<Rightarrow> (Inl e, d1)
         | Inr adjustedDurationTicks \<Rightarrow>
           (case createProductionJobRow
               \<lparr>pj_id = newId E d1, pj_companyId = sj_companyId input,
                pj_recipeId = sj_recipeId input, pj_buildingId = None,
                pj_status = JobIN_PROGRESS, pj_runs = num (sj_quantity input),
                pj_startedTick = jp_tick plan, pj_dueTick = jp_tick plan + adjustedDurationTicks,
                pj_completedTick = None, pj_createdAt = currentTime E d1\<rparr> d1 of
             Inl e \<Rightarrow> (Inl e, d1)
           | Inr (job, d2) \<Rightarrow> (Inr job, d2)))))"

definition createProductionJob ::
    "env \<Rightarrow> startProductionJobInput \<Rightarrow> db \<Rightarrow> productionJob result \<times> db" where
  "createProductionJob E input d =
     (case validateStartInput input of
       Inl e \<Rightarrow> (Inl e, d)
     | Inr _ \<Rightarrow>
       transaction (\<lambda>d. case createProductionJobWithTx E input d of
           (Inl e, _) \<Rightarrow> Inl e | (Inr job, d') \<Rightarrow> Inr (job, d')) d)"

subsection \<open>Cancelling a job\<close>

definition jobRegion :: "productionJob \<Rightarrow> db \<Rightarrow> string result" where
  "jobRegion job d =
     (case findCompany (pj_companyId job) d of
       None \<Rightarrow> Inl recordNotFound | Some c \<Rightarrow> Inr (co_regionId c))"

definition cancelProductionJobWithTx ::
    "env \<Rightarrow> cancelProductionJobInput \<Rightarrow> db \<Rightarrow> (productionJob \<times> db) result" where
  "cancelProductionJobWithTx E input d =
     andThen (validateCancelJobInput input) (\<lambda>_.
     (let tick = resolveTick (xj_tick input) d in
      case rowFind pj_id (xj_jobId input) (productionJobs d) of
        None \<Rightarrow> Inl (NotFoundError (''production job '' @ xj_jobId input @ '' not found''))
      | Some job \<Rightarrow>
        if pj_status job \<noteq> JobIN_PROGRESS then Inr (job, d)
        else
          andThen (recipeRequirements E (pj_recipeId job) (IntN (pj_runs job)) d) (\<lambda>requirements.
          andThen (jobRegion job d) (\<lambda>regionId.
          andThen (checkRequirements releaseReservedInventoryForProduction
            ''reserved inventory row missing for item '' (pj_companyId job) regionId d
            requirements) (\<lambda>_.
          andThen (adjustStock (pj_companyId job) regionId 0 (- 1) requirements d) (\<lambda>d.
          updateProductionJob (pj_id job)
            (\<lambda>j. j\<lparr>pj_status := JobCANCELLED, pj_completedTick := Some tick\<rparr>) d))))))"

definition cancelProductionJob ::
    "env \<Rightarrow> cancelProductionJobInput \<Rightarrow> db \<Rightarrow> productionJob result \<times> db" where
  "cancelProductionJob E input d =
     (case validateCancelJobInput input of
       Inl e \<Rightarrow> (Inl e, d)
     | Inr _ \<Rightarrow> transaction (cancelProductionJobWithTx E input) d)"

subsection \<open>Completing due jobs\<close>

definition dueProductionJobs :: "int \<Rightarrow> db \<Rightarrow> productionJob list" where
  "dueProductionJobs nextTick d =
     sortBy (cmpThen (cmpKey pj_dueTick) (cmpKey pj_createdAt))
       (filter (\<lambda>j. pj_status j = JobIN_PROGRESS \<and> pj_dueTick j \<le> nextTick) (productionJobs d))"

definition checkJobStorage ::
    "string \<Rightarrow> string \<Rightarrow> int \<Rightarrow> (string \<times> int) list \<Rightarrow> db \<Rightarrow> unit result" where
  "checkJobStorage companyId regionId outputQuantity requirements d =
     (let totalInputQuantity = (\<Sum>(itemId, qty)\<leftarrow>requirements. qty);
          netInventoryChange = outputQuantity - totalInputQuantity in
      if netInventoryChange > 0
      then validateStorageCapacity companyId regionId (IntN netInventoryChange) d else Inr ())"

definition closeJob :: "env \<Rightarrow> int \<Rightarrow> productionJob \<Rightarrow> db \<Rightarrow> db result" where
  "closeJob E nextTick job d =
     (case findCompany (pj_companyId job) d of
       None \<Rightarrow> Inl (NotFoundError (''company '' @ pj_companyId job @ '' not found''))
     | Some company \<Rightarrow>
       andThen (updateProductionJob (pj_id job)
         (\<lambda>j. j\<lparr>pj_status := JobCOMPLETED, pj_completedTick := Some nextTick\<rparr>) d) (\<lambda>(_, d).
       createLedgerEntry E (co_id company) nextTick PRODUCTION_COMPLETION 0 0
         (co_cashCents company) ''PRODUCTION_JOB_COMPLETION'' (pj_id job) d))"

definition completeJob :: "env \<Rightarrow> int \<Rightarrow> db \<Rightarrow> productionJob \<Rightarrow> db \<Rightarrow> db result" where
  "completeJob E nextTick snapshot job d =
     andThen (isProductionJobDue (IntN nextTick) (IntN (pj_dueTick job))) (\<lambda>due.
     if \<not> due then Inr d
     else
       andThen (recipeRequirements E (pj_recipeId job) (IntN (pj_runs job)) snapshot) (\<lambda>requirements.
       andThen (jobRegion job snapshot) (\<lambda>regionId.
       (case rowFind rc_id (pj_recipeId job) (recipes snapshot) of
         None \<Rightarrow> Inl recordNotFound
       | Some recipe \<Rightarrow>
         andThen (checkRequirements consumeReservedInventoryForProduction
           ''reserved inventory row missing for item '' (pj_companyId job) regionId d
           requirements) (\<lambda>_.
         (let outputQuantity = rc_outputQuantity recipe * pj_runs job in
          andThen (checkJobStorage (pj_companyId job) regionId outputQuantity requirements d) (\<lambda>_.
          andThen (adjustStock (pj_companyId job) regionId (- 1) (- 1) requirements d) (\<lambda>d.
          andThen (upsertInventory (pj_companyId job) (rc_outputItemId recipe) regionId
            (\<lambda>r. r\<lparr>inv_quantity := inv_quantity r + outputQuantity\<rparr>) outputQuantity 0 d) (\<lambda>(_, d).
          closeJob E nextTick job d)))))))))"

definition completeDueProductionJobs :: "env \<Rightarrow> jsnum \<Rightarrow> db \<Rightarrow> db result" where
  "completeDueProductionJobs E nextTick d =
     andThen (validateTickField nextTick ''nextTick'') (\<lambda>_.
     forEach (completeJob E (num nextTick) d) (dueProductionJobs (num nextTick) d) d)"

subsection \<open>Starting profitable jobs\<close>

record startProfitableInput =
  sp_companyId :: string
  sp_tick :: jsnum
  sp_maxJobs :: "jsnum option"
  sp_referencePriceByItemId :: "string \<rightharpoonup> int"
  sp_minProfitBps :: "jsnum option"

text \<open>The loop over the recipes: a domain error skips the recipe, any other error aborts.\<close>

fun startProfitableJobs ::
    "env \<Rightarrow> startProfitableInput \<Rightarrow> int \<Rightarrow> int \<Rightarrow> db \<Rightarrow> recipe list \<Rightarrow> int \<Rightarrow> db \<Rightarrow> (int \<times> db) result" where
  "startProfitableJobs E input maxJobs minProfitBps snapshot [] startedJobs d = Inr (startedJobs, d)"
| "startProfitableJobs E input maxJobs minProfitBps snapshot (recipe # rest) startedJobs d =
     (if startedJobs \<ge> maxJobs then Inr (startedJobs, d)
      else if \<not> isRecipeProfitable recipe (inputsOf E (rc_id recipe) snapshot) snapshot
             (sp_referencePriceByItemId input) minProfitBps
        then startProfitableJobs E input maxJobs minProfitBps snapshot rest startedJobs d
      else
        (case createProductionJobWithTx E
            \<lparr>sj_companyId = sp_companyId input, sj_recipeId = rc_id recipe,
             sj_quantity = IntN 1, sj_tick = Some (sp_tick input)\<rparr> d of
          (Inr _, d') \<Rightarrow>
            startProfitableJobs E input maxJobs minProfitBps snapshot rest (startedJobs + 1) d'
        | (Inl e, d') \<Rightarrow>
            if isDomainInvariantError e
            then startProfitableJobs E input maxJobs minProfitBps snapshot rest startedJobs d'
            else Inl e))"

definition startProfitableProductionForCompanyWithTx ::
    "env \<Rightarrow> startProfitableInput \<Rightarrow> db \<Rightarrow> (int \<times> db) result" where
  "startProfitableProductionForCompanyWithTx E input d =
     (let maxJobs = (case sp_maxJobs input of None \<Rightarrow> IntN 1 | Some n \<Rightarrow> n);
          minProfitBps = (case sp_minProfitBps input of None \<Rightarrow> IntN 0 | Some n \<Rightarrow> n) in
      andThen (validateTickField (sp_tick input) ''tick'') (\<lambda>_.
      if \<not> isInteger maxJobs \<or> num maxJobs \<le> 0
        then Inl (DomainInvariantError ''maxJobs must be a positive integer'')
      else if notNonNegativeInteger minProfitBps
        then Inl (DomainInvariantError ''minProfitBps must be a non-negative integer'')
      else
        (case findCompany (sp_companyId input) d of
          None \<Rightarrow> Inl (NotFoundError (''company '' @ sp_companyId input @ '' not found''))
        | Some company \<Rightarrow>
          andThen (availableCash (cashState company)) (\<lambda>available.
          if available \<le> 0 then Inr (0, d)
          else if countWhere (\<lambda>j. pj_companyId j = sp_companyId input \<and>
                 pj_status j = JobIN_PROGRESS) (productionJobs d) > 0
            then Inr (0, d)
          else startProfitableJobs E input (num maxJobs) (num minProfitBps) d
                 (sortBy (\<lambda>x y. env_textCompare E (rc_code x) (rc_code y)) (recipes d)) 0 d))))"

subsection \<open>Requirements and the two loops\<close>

lemma scaleInputs_Inr:
  "scaleInputs inputs runs = Inr reqs \<Longrightarrow>
     map fst reqs = map fst inputs \<and> (0 < runs \<longrightarrow> (\<forall>(i, q)\<in>set reqs. 0 < q))"
proof (induction inputs arbitrary: reqs)
  case (Cons x xs)
  obtain i q where x: "x = (i, q)" by (metis surj_pair)
  from Cons.prems obtain rest where "scaleInputs xs runs = Inr rest" "0 < num q"
    "reqs = (i, num q * runs) # rest"
    by (auto simp: x andThen_Inr_iff split: if_splits)
  with Cons.IH [of rest] x show ?case by auto
qed simp

lemma requirements_facts:
  assumes "recipeRequirements E rid runs d = Inr reqs"
  shows "\<forall>(i, q)\<in>set reqs. 0 < q" and "recipesOk d \<Longrightarrow> distinct (map fst reqs)"
proof -
  from assms have s: "scaleInputs (map (\<lambda>i. (ri_itemId i, IntN (ri_quantity i))) (inputsOf E rid d)) (num runs) = Inr reqs"
    and runs: "0 < num runs"
    by (auto simp: recipeRequirements_def calculateRecipeInputRequirements_def split: if_splits)
  from scaleInputs_Inr [OF s] runs show "\<forall>(i, q)\<in>set reqs. 0 < q" by blast
  have fst: "map fst reqs = map ri_itemId (inputsOf E rid d)"
    using scaleInputs_Inr [OF s] by (simp add: comp_def)
  assume "recipesOk d"
  then have "distinct (map (\<lambda>i. (ri_recipeId i, ri_itemId i)) (filter (\<lambda>i. ri_recipeId i = rid) (recipeInputs d)))"
    by (simp add: recipesOk_def distinct_map_filter)
  then have "distinct (map ri_itemId (filter (\<lambda>i. ri_recipeId i = rid) (recipeInputs d)))"
    by (auto simp: distinct_map inj_on_def)
  then show "distinct (map fst reqs)" unfolding fst by (simp add: inputsOf_def)
qed

lemma requirements_cong:
  "recipeInputs d' = recipeInputs d \<Longrightarrow> items d' = items d \<Longrightarrow>
     recipeRequirements E rid runs d' = recipeRequirements E rid runs d"
  by (simp add: recipeRequirements_def inputsOf_def itemCodeOf_def)

lemma checkRequirements_Inr:
  "checkRequirements f msg cid rid d reqs = Inr u \<longleftrightarrow>
     (\<forall>(i, q)\<in>set reqs. \<exists>r s. findInventory cid i rid d = Some r \<and>
        f \<lparr>st_quantity = inv_quantity r, st_reservedQuantity = inv_reservedQuantity r\<rparr> (IntN q) = Inr s)"
  unfolding checkRequirements_def
  by (induction reqs) (auto simp: andThen_Inr_iff split: option.splits)

text \<open>What a list of requirements asks of one row, and the row after the adjustment.\<close>

definition need :: "string \<Rightarrow> string \<Rightarrow> (string \<times> int) list \<Rightarrow> string \<times> string \<times> string \<Rightarrow> int" where
  "need cid rid reqs k = (\<Sum>(i, q)\<leftarrow>reqs. if k = (cid, i, rid) then q else 0)"

definition shiftRow :: "int \<Rightarrow> int \<Rightarrow> (string \<times> string \<times> string \<Rightarrow> int) \<Rightarrow> inventory \<Rightarrow> inventory" where
  "shiftRow qs rs n r = r\<lparr>inv_quantity := inv_quantity r + qs * n (invKey r),
     inv_reservedQuantity := inv_reservedQuantity r + rs * n (invKey r)\<rparr>"

lemma invKey_shiftRow [simp]: "invKey (shiftRow qs rs n r) = invKey r"
  by (simp add: shiftRow_def invKey_def)

lemma invKey_adjusted [simp]:
  "invKey (r\<lparr>inv_quantity := x, inv_reservedQuantity := y\<rparr>) = invKey r"
  by (simp add: invKey_def)

lemma adjustStock_state:
  assumes "adjustStock cid rid qs rs reqs d = Inr d'"
  shows "d' = d\<lparr>inventories := map (shiftRow qs rs (need cid rid reqs)) (inventories d)\<rparr>"
  using assms
proof (induction reqs arbitrary: d)
  case Nil
  then show ?case by (simp add: adjustStock_def shiftRow_def need_def)
next
  case (Cons x reqs)
  obtain i q where x: "x = (i, q)" by (metis surj_pair)
  let ?f = "\<lambda>r. r\<lparr>inv_quantity := inv_quantity r + qs * q, inv_reservedQuantity := inv_reservedQuantity r + rs * q\<rparr>"
  from Cons.prems have rest: "adjustStock cid rid qs rs reqs
      (inventories_update (rowSet invKey (cid, i, rid) ?f) d) = Inr d'"
    by (auto simp: adjustStock_def x result_simps)
  have "map (shiftRow qs rs (need cid rid reqs)) (rowSet invKey (cid, i, rid) ?f (inventories d)) =
      map (shiftRow qs rs (need cid rid (x # reqs))) (inventories d)"
    unfolding rowSet_def map_map
    by (rule map_cong [OF refl])
      (auto simp: x shiftRow_def need_def invKey_def distrib_left)
  with Cons.IH [OF rest] show ?case by simp
qed

lemma adjustStock_returns:
  assumes "\<forall>(i, q)\<in>set reqs. findInventory cid i rid d \<noteq> None"
  shows "\<exists>d'. adjustStock cid rid qs rs reqs d = Inr d'"
  using assms
proof (induction reqs arbitrary: d)
  case Nil
  then show ?case by (simp add: adjustStock_def)
next
  case (Cons x reqs)
  obtain i q where x: "x = (i, q)" by (metis surj_pair)
  let ?f = "\<lambda>r. r\<lparr>inv_quantity := inv_quantity r + qs * q, inv_reservedQuantity := inv_reservedQuantity r + rs * q\<rparr>"
  let ?e = "inventories_update (rowSet invKey (cid, i, rid) ?f) d"
  from Cons.prems x obtain r where r: "findInventory cid i rid d = Some r" by auto
  have "\<forall>(j, q)\<in>set reqs. findInventory cid j rid ?e \<noteq> None"
    using Cons.prems by (fastforce simp: rowFind_rowSet)
  from Cons.IH [OF this] obtain d' where "adjustStock cid rid qs rs reqs ?e = Inr d'" by blast
  with r show ?case by (simp add: adjustStock_def x updateRow_def)
qed

lemma need_member:
  assumes "distinct (map fst reqs)" "(i, q) \<in> set reqs"
  shows "need cid rid reqs (cid, i, rid) = q"
  using assms
proof (induction reqs)
  case (Cons x reqs)
  have absent: "need cid rid reqs (cid, i, rid) = 0" if "i \<notin> fst ` set reqs"
    using that by (induction reqs) (auto simp: need_def)
  obtain j p where x: "x = (j, p)" by (metis surj_pair)
  show ?case
  proof (cases "j = i")
    case True
    have "p = q"
    proof (rule ccontr)
      assume "p \<noteq> q"
      with Cons.prems(2) x have "(i, q) \<in> set reqs" by auto
      with Cons.prems(1) x True show False by force
    qed
    with Cons.prems(1) True x show ?thesis using absent by (auto simp: need_def)
  next
    case False
    with Cons x show ?thesis by (auto simp: need_def)
  qed
qed simp

lemma need_absent:
  "(\<And>i q. (i, q) \<in> set reqs \<Longrightarrow> k \<noteq> (cid, i, rid)) \<Longrightarrow> need cid rid reqs k = 0"
proof (induction reqs)
  case (Cons x reqs)
  obtain i q where x: "x = (i, q)" by (metis surj_pair)
  have "need cid rid reqs k = 0" by (rule Cons.IH) (use Cons.prems in auto)
  moreover have "k \<noteq> (cid, i, rid)" using Cons.prems x by auto
  ultimately show ?case by (simp add: need_def x)
qed (simp add: need_def)

text \<open>A checked adjustment keeps every row within its bounds.\<close>

lemma adjustStock_ok:
  assumes "adjustStock cid rid qs rs reqs d = Inr d'" and "rowsOk invKey inventoryOk (inventories d)"
    and "distinct (map fst reqs)"
    and "\<And>i q r. (i, q) \<in> set reqs \<Longrightarrow> findInventory cid i rid d = Some r \<Longrightarrow>
      0 \<le> inv_reservedQuantity r + rs * q \<and>
      inv_reservedQuantity r + rs * q \<le> inv_quantity r + qs * q"
  shows "rowsOk invKey inventoryOk (inventories d')"
proof -
  have rows: "inventories d' = map (shiftRow qs rs (need cid rid reqs)) (inventories d)"
    using adjustStock_state [OF assms(1)] by simp
  have "inventoryOk (shiftRow qs rs (need cid rid reqs) r)" if r: "r \<in> set (inventories d)" for r
  proof (cases "\<exists>i q. (i, q) \<in> set reqs \<and> invKey r = (cid, i, rid)")
    case True
    then obtain i q where iq: "(i, q) \<in> set reqs" "invKey r = (cid, i, rid)" by blast
    have "findInventory cid i rid d = Some r"
      using rowFind_unique [OF rowsOk_distinct [OF assms(2)] r] iq(2) by simp
    from assms(4) [OF iq(1) this] show ?thesis
      using need_member [OF assms(3) iq(1)] iq(2) by (simp add: inventoryOk_iff shiftRow_def)
  next
    case False
    then have "need cid rid reqs (invKey r) = 0" by (intro need_absent) blast
    then show ?thesis using assms(2) r by (simp add: rowsOk_def shiftRow_def)
  qed
  moreover have "distinct (map invKey (inventories d'))"
    unfolding rows by (simp add: comp_def rowsOk_distinct [OF assms(2)])
  ultimately show ?thesis unfolding rowsOk_def rows by simp
qed

text \<open>The stock of an item changes by what the requirements name.\<close>

lemma adjustStock_stock:
  assumes "adjustStock cid rid qs rs reqs d = Inr d'" and "distinct (map invKey (inventories d))"
  shows "itemStock iid d' = itemStock iid d + qs * (\<Sum>(i, q)\<leftarrow>reqs. if i = iid then q else 0)"
  using assms
proof (induction reqs arbitrary: d)
  case Nil
  then show ?case by (simp add: adjustStock_def)
next
  case (Cons x reqs)
  obtain i q where x: "x = (i, q)" by (metis surj_pair)
  let ?f = "\<lambda>r. r\<lparr>inv_quantity := inv_quantity r + qs * q, inv_reservedQuantity := inv_reservedQuantity r + rs * q\<rparr>"
  let ?e = "inventories_update (rowSet invKey (cid, i, rid) ?f) d"
  from Cons.prems(1) obtain r where r: "findInventory cid i rid d = Some r"
    and rest: "adjustStock cid rid qs rs reqs ?e = Inr d'"
    by (auto simp: adjustStock_def x result_simps)
  have "distinct (map invKey (inventories ?e))"
    using Cons.prems(2) by (simp add: map_rowSet_same [of invKey ?f, OF invKey_adjusted])
  from Cons.IH [OF rest this] have "itemStock iid d' =
      itemStock iid ?e + qs * (\<Sum>(i, q)\<leftarrow>reqs. if i = iid then q else 0)" .
  moreover have "itemStock iid ?e = itemStock iid d + (if i = iid then qs * q else 0)"
    using sum_rowSet [OF Cons.prems(2) r, of "\<lambda>x. if inv_itemId x = iid then inv_quantity x else 0" ?f]
      rowFind_key [OF r] by (auto simp: itemStock_def invKey_def)
  ultimately show ?case by (simp add: x distrib_left)
qed

subsection \<open>Starting and cancelling\<close>

lemma adjustStock_market:
  assumes "adjustStock cid rid qs rs reqs d = Inr d'" and "marketOk d"
    and "distinct (map fst reqs)"
    and "\<And>i q r. (i, q) \<in> set reqs \<Longrightarrow> findInventory cid i rid d = Some r \<Longrightarrow>
      0 \<le> inv_reservedQuantity r + rs * q \<and>
      inv_reservedQuantity r + rs * q \<le> inv_quantity r + qs * q"
  shows "marketOk d'"
proof -
  note ok = marketOkD [OF assms(2)]
  have "rowsOk invKey inventoryOk (inventories d')"
    by (rule adjustStock_ok [OF assms(1) economyOk_inventories [OF ok(1)] assms(3,4)])
  then show ?thesis
    using ok adjustStock_state [OF assms(1)]
    by (simp add: marketOk_def economyOk_def cashBacked_def orderReserve_def)
qed

lemma reserve_Inr [result_simps]:
  "reserveInventoryForProduction s n = Inr s' \<longleftrightarrow>
     isInteger n \<and> 0 < num n \<and> 0 \<le> st_quantity s \<and> 0 \<le> st_reservedQuantity s \<and>
     num n \<le> st_quantity s - st_reservedQuantity s \<and>
     s' = \<lparr>st_quantity = st_quantity s, st_reservedQuantity = st_reservedQuantity s + num n\<rparr>"
  by (auto simp: reserveInventoryForProduction_def)

lemma release_Inr [result_simps]:
  "releaseReservedInventoryForProduction s n = Inr s' \<longleftrightarrow>
     isInteger n \<and> 0 < num n \<and> 0 \<le> st_quantity s \<and> num n \<le> st_reservedQuantity s \<and>
     s' = \<lparr>st_quantity = st_quantity s, st_reservedQuantity = st_reservedQuantity s - num n\<rparr>"
  by (auto simp: releaseReservedInventoryForProduction_def)

lemma consume_Inr [result_simps]:
  "consumeReservedInventoryForProduction s n = Inr s' \<longleftrightarrow>
     isInteger n \<and> 0 < num n \<and> num n \<le> st_quantity s \<and> num n \<le> st_reservedQuantity s \<and>
     s' = \<lparr>st_quantity = st_quantity s - num n, st_reservedQuantity = st_reservedQuantity s - num n\<rparr>"
  by (auto simp: consumeReservedInventoryForProduction_def)

lemma planProductionJob_Inr:
  assumes "planProductionJob E input d = Inr plan"
  shows "findCompany (sj_companyId input) d = Some (jp_company plan)"
    and "rowFind rc_id (sj_recipeId input) (recipes d) = Some (jp_recipe plan)"
    and "recipeRequirements E (sj_recipeId input) (sj_quantity input) d = Inr (jp_requirements plan)"
    and "checkRequirements reserveInventoryForProduction ''insufficient input inventory for item ''
      (sj_companyId input) (co_regionId (jp_company plan)) d (jp_requirements plan) = Inr ()"
    and "isInteger (sj_quantity input)"
    and "jp_tick plan = resolveTick (sj_tick input) d"
proof -
  have "rc_id (jp_recipe plan) = sj_recipeId input"
    and a: "findCompany (sj_companyId input) d = Some (jp_company plan)"
    and b: "rowFind rc_id (sj_recipeId input) (recipes d) = Some (jp_recipe plan)"
    and c: "recipeRequirements E (rc_id (jp_recipe plan)) (sj_quantity input) d = Inr (jp_requirements plan)"
    and e: "checkRequirements reserveInventoryForProduction ''insufficient input inventory for item ''
      (sj_companyId input) (co_regionId (jp_company plan)) d (jp_requirements plan) = Inr ()"
    and g: "validateStartInput input = Inr ()" "jp_tick plan = resolveTick (sj_tick input) d"
    using assms
    by (auto simp: planProductionJob_def andThen_Inr_iff Let_def split: option.splits dest: rowFind_key)
  then show "recipeRequirements E (sj_recipeId input) (sj_quantity input) d = Inr (jp_requirements plan)"
    by simp
  from g(1) show "isInteger (sj_quantity input)" by (auto simp: validateStartInput_def split: if_splits)
qed (use assms in \<open>auto simp: planProductionJob_def andThen_Inr_iff Let_def split: option.splits\<close>)

lemma createProductionJobWithTx_Inr:
  assumes "createProductionJobWithTx E input d = (Inr job, d')"
  obtains plan d1 dueTick where "planProductionJob E input d = Inr plan"
    "adjustStock (sj_companyId input) (co_regionId (jp_company plan)) 0 1 (jp_requirements plan) d = Inr d1"
    "job = \<lparr>pj_id = newId E d1, pj_companyId = sj_companyId input, pj_recipeId = sj_recipeId input,
       pj_buildingId = None, pj_status = JobIN_PROGRESS, pj_runs = num (sj_quantity input),
       pj_startedTick = jp_tick plan, pj_dueTick = dueTick, pj_completedTick = None,
       pj_createdAt = currentTime E d1\<rparr>"
    "createProductionJobRow job d1 = Inr (job, d')"
  using assms
  by (auto simp: createProductionJobWithTx_def result_simps split: sum.splits)

lemma createProductionJobWithTx_stock:
  obtains "snd (createProductionJobWithTx E input d) = d"
  | plan d1 where "planProductionJob E input d = Inr plan"
    "adjustStock (sj_companyId input) (co_regionId (jp_company plan)) 0 1 (jp_requirements plan) d = Inr d1"
    "companies (snd (createProductionJobWithTx E input d)) = companies d1"
    "inventories (snd (createProductionJobWithTx E input d)) = inventories d1"
    "marketOrders (snd (createProductionJobWithTx E input d)) = marketOrders d1"
    "recipeInputs (snd (createProductionJobWithTx E input d)) = recipeInputs d1"
    "recipes (snd (createProductionJobWithTx E input d)) = recipes d1"
proof (cases "planProductionJob E input d")
  case (Inr plan)
  show thesis
  proof (cases "adjustStock (sj_companyId input) (co_regionId (jp_company plan)) 0 1 (jp_requirements plan) d")
    case (Inr d1)
    show thesis
      by (rule that(2) [OF \<open>planProductionJob E input d = Inr plan\<close> Inr])
        (use \<open>planProductionJob E input d = Inr plan\<close> Inr in
          \<open>simp_all add: createProductionJobWithTx_def createRow_Inr split: sum.splits\<close>)
  qed (rule that(1), simp add: createProductionJobWithTx_def Inr)
qed (rule that(1), simp add: createProductionJobWithTx_def)

lemma createProductionJobWithTx_market:
  assumes "marketOk d" and "recipesOk d"
  shows "marketOk (snd (createProductionJobWithTx E input d))"
proof (rule createProductionJobWithTx_stock [of E input d])
  fix plan d1
  assume plan: "planProductionJob E input d = Inr plan"
    and step: "adjustStock (sj_companyId input) (co_regionId (jp_company plan)) 0 1 (jp_requirements plan) d = Inr d1"
    and same: "companies (snd (createProductionJobWithTx E input d)) = companies d1"
    "inventories (snd (createProductionJobWithTx E input d)) = inventories d1"
    "marketOrders (snd (createProductionJobWithTx E input d)) = marketOrders d1"
  note facts = planProductionJob_Inr [OF plan]
  have "marketOk d1"
    by (rule adjustStock_market [OF step assms(1) requirements_facts(2) [OF facts(3) assms(2)]])
      (use facts(4) in \<open>auto simp: checkRequirements_Inr reserve_Inr dest!: bspec\<close>)
  then show ?thesis by (rule marketOk_same [OF _ same])
qed (use assms in simp)

text \<open>
  C30. A start takes nothing from stock but reserves it, and a cancel of the started job returns
  and gives every reservation back: the inventory rows are again those before the start.
\<close>

theorem cancel_undoes_start:
  assumes "createProductionJobWithTx E input d = (Inr job, d1)" and "recipesOk d"
    and "pj_id job \<noteq> []"
  shows "\<exists>d2. cancelProductionJobWithTx E \<lparr>xj_jobId = pj_id job, xj_tick = None\<rparr> d1 =
      Inr (job\<lparr>pj_status := JobCANCELLED, pj_completedTick := Some (worldTick d)\<rparr>, d2) \<and>
    inventories d2 = inventories d \<and> companies d2 = companies d \<and>
    pj_status job = JobIN_PROGRESS"
proof -
  from createProductionJobWithTx_Inr [OF assms(1)] obtain plan e due where
    plan: "planProductionJob E input d = Inr plan" and
    step: "adjustStock (sj_companyId input) (co_regionId (jp_company plan)) 0 1 (jp_requirements plan) d = Inr e" and
    job: "job = \<lparr>pj_id = newId E e, pj_companyId = sj_companyId input, pj_recipeId = sj_recipeId input,
       pj_buildingId = None, pj_status = JobIN_PROGRESS, pj_runs = num (sj_quantity input),
       pj_startedTick = jp_tick plan, pj_dueTick = due, pj_completedTick = None,
       pj_createdAt = currentTime E e\<rparr>" and
    row: "createProductionJobRow job e = Inr (job, d1)" by metis
  note facts = planProductionJob_Inr [OF plan]
  let ?cid = "sj_companyId input" and ?rid = "co_regionId (jp_company plan)"
  let ?reqs = "jp_requirements plan"
  let ?up = "shiftRow 0 1 (need ?cid ?rid ?reqs)" and ?down = "shiftRow 0 (- 1) (need ?cid ?rid ?reqs)"
  have d1: "inventories d1 = map ?up (inventories d)" "companies d1 = companies d"
    "recipeInputs d1 = recipeInputs d" "items d1 = items d" "worldTick d1 = worldTick d"
    using row adjustStock_state [OF step] by (auto simp: createRow_Inr worldTick_def)
  have find: "rowFind pj_id (pj_id job) (productionJobs d1) = Some job"
    using row by (auto simp: createRow_Inr rowFind_append)
  have qty: "IntN (pj_runs job) = sj_quantity input" using facts(5) by (cases "sj_quantity input") (auto simp: job)
  have reqs: "recipeRequirements E (pj_recipeId job) (IntN (pj_runs job)) d1 = Inr ?reqs"
    using facts(3) requirements_cong [OF d1(3,4)] qty by (simp add: job)
  have region: "jobRegion job d1 = Inr ?rid" using facts(1) d1(2) by (simp add: jobRegion_def job)
  have shifted: "\<exists>r. findInventory ?cid i ?rid d1 = Some (?up r) \<and> 0 < q \<and> 0 \<le> inv_quantity r \<and>
      0 \<le> inv_reservedQuantity r \<and> need ?cid ?rid ?reqs (invKey r) = q" if "(i, q) \<in> set ?reqs" for i q
  proof -
    from facts(4) that obtain r where r: "findInventory ?cid i ?rid d = Some r" "0 < q" "0 \<le> inv_quantity r"
      "0 \<le> inv_reservedQuantity r" by (fastforce simp: checkRequirements_Inr reserve_Inr)
    have "rowFind invKey k (map ?up rs) = map_option ?up (rowFind invKey k rs)" for k rs
      by (induction rs) auto
    moreover have "need ?cid ?rid ?reqs (invKey r) = q"
      using need_member [OF requirements_facts(2) [OF facts(3) assms(2)] that] rowFind_key [OF r(1)] by simp
    ultimately show ?thesis using r d1(1) by auto
  qed
  have check: "checkRequirements releaseReservedInventoryForProduction
      ''reserved inventory row missing for item '' ?cid ?rid d1 ?reqs = Inr ()"
    unfolding checkRequirements_Inr
    by (clarsimp dest!: shifted) (auto simp: release_Inr shiftRow_def)
  have "\<exists>d2. adjustStock ?cid ?rid 0 (- 1) ?reqs d1 = Inr d2"
    by (rule adjustStock_returns) (use shifted in fastforce)
  then obtain d2 where d2: "adjustStock ?cid ?rid 0 (- 1) ?reqs d1 = Inr d2" by blast
  have inv: "inventories d2 = inventories d" "companies d2 = companies d"
    "productionJobs d2 = productionJobs d1"
    using adjustStock_state [OF d2] d1(1,2)
    by (auto simp: comp_def shiftRow_def invKey_def intro!: map_idI)
  show ?thesis
    using assms(3) find reqs region check d2 d1(5) inv
    by (auto simp: cancelProductionJobWithTx_def validateCancelJobInput_def updateRow_def
        resolveTick_def Let_def job)
qed

definition startDb :: db where
  "startDb = fixtureDb\<lparr>inventories := [mkInventory ''b'' ''ore'' ''r1'' 20 4,
     mkInventory ''b'' ''coal'' ''r1'' 6 0, mkInventory ''a'' ''coal'' ''r1'' 30 0]\<rparr>"

definition startTwoRuns :: startProductionJobInput where
  "startTwoRuns = \<lparr>sj_companyId = ''b'', sj_recipeId = ''smelt'', sj_quantity = IntN 2, sj_tick = None\<rparr>"

definition startedJob :: productionJob where
  "startedJob = \<lparr>pj_id = ''id0'', pj_companyId = ''b'', pj_recipeId = ''smelt'', pj_buildingId = None,
     pj_status = JobIN_PROGRESS, pj_runs = 2, pj_startedTick = 7, pj_dueTick = 10,
     pj_completedTick = None, pj_createdAt = 0\<rparr>"

lemma cancel_undoes_start_witness:
  "fst (createProductionJobWithTx fixtureEnv startTwoRuns startDb) = Inr startedJob \<and>
   (\<exists>d2. cancelProductionJobWithTx fixtureEnv \<lparr>xj_jobId = ''id0'', xj_tick = None\<rparr>
       (snd (createProductionJobWithTx fixtureEnv startTwoRuns startDb)) =
      Inr (startedJob\<lparr>pj_status := JobCANCELLED, pj_completedTick := Some 7\<rparr>, d2) \<and>
    inventories d2 = inventories startDb)"
proof -
  have started: "fst (createProductionJobWithTx fixtureEnv startTwoRuns startDb) = Inr startedJob"
    by code_simp
  then have "createProductionJobWithTx fixtureEnv startTwoRuns startDb =
      (Inr startedJob, snd (createProductionJobWithTx fixtureEnv startTwoRuns startDb))"
    by (metis prod.collapse)
  from cancel_undoes_start [OF this] have "recipesOk startDb \<Longrightarrow>
     (\<exists>d2. cancelProductionJobWithTx fixtureEnv \<lparr>xj_jobId = ''id0'', xj_tick = None\<rparr>
       (snd (createProductionJobWithTx fixtureEnv startTwoRuns startDb)) =
      Inr (startedJob\<lparr>pj_status := JobCANCELLED, pj_completedTick := Some 7\<rparr>, d2) \<and>
    inventories d2 = inventories startDb)"
    by (auto simp: startedJob_def startDb_def fixtureDb_def worldTick_def)
  moreover have "recipesOk startDb" by code_simp
  ultimately show ?thesis using started by blast
qed

subsection \<open>Completion\<close>

definition consumedBy :: "env \<Rightarrow> db \<Rightarrow> string \<Rightarrow> productionJob \<Rightarrow> int" where
  "consumedBy E d iid job =
     (case recipeRequirements E (pj_recipeId job) (IntN (pj_runs job)) d of
       Inl _ \<Rightarrow> 0
     | Inr reqs \<Rightarrow> (\<Sum>(i, q)\<leftarrow>reqs. if i = iid then q else 0))"

definition producedBy :: "db \<Rightarrow> string \<Rightarrow> productionJob \<Rightarrow> int" where
  "producedBy d iid job =
     (case rowFind rc_id (pj_recipeId job) (recipes d) of
       None \<Rightarrow> 0
     | Some r \<Rightarrow> if rc_outputItemId r = iid then rc_outputQuantity r * pj_runs job else 0)"

definition closedJob :: "int \<Rightarrow> productionJob \<Rightarrow> productionJob" where
  "closedJob nextTick j = j\<lparr>pj_status := JobCOMPLETED, pj_completedTick := Some nextTick\<rparr>"

lemma pj_id_closedJob [simp]: "pj_id (closedJob t j) = pj_id j"
  by (simp add: closedJob_def)

lemma isProductionJobDue_Inr [result_simps]:
  "isProductionJobDue a b = Inr x \<longleftrightarrow>
     isInteger a \<and> isInteger b \<and> 0 \<le> num a \<and> 0 \<le> num b \<and> x = (num b \<le> num a)"
  by (auto simp: isProductionJobDue_def notNonNegativeInteger_def)

lemma closeJob_Inr:
  assumes "closeJob E t job d = Inr d'"
  shows "companies d' = companies d" "inventories d' = inventories d"
    "marketOrders d' = marketOrders d"
    "productionJobs d' = rowSet pj_id (pj_id job) (closedJob t) (productionJobs d)"
  using assms
  by (auto simp: closeJob_def result_simps closedJob_def fun_eq_iff split: option.splits
      intro!: arg_cong2 [where f = "\<lambda>f xs. rowSet pj_id (pj_id job) f xs"])

lemma completeJob_keeps:
  assumes "completeJob E t d0 job d = Inr d'" and "pj_dueTick job \<le> t"
    and "marketOk d" and "recipesOk d0" and "outputsOk d0"
  shows "marketOk d'" and "companies d' = companies d" and "marketOrders d' = marketOrders d"
    and "productionJobs d' = rowSet pj_id (pj_id job) (closedJob t) (productionJobs d)"
    and "itemStock k d' = itemStock k d + producedBy d0 k job - consumedBy E d0 k job"
proof -
  from assms(1,2) obtain reqs rid recipe d1 r d2 where
    reqs: "recipeRequirements E (pj_recipeId job) (IntN (pj_runs job)) d0 = Inr reqs" and
    recipe: "rowFind rc_id (pj_recipeId job) (recipes d0) = Some recipe" and
    check: "checkRequirements consumeReservedInventoryForProduction
      ''reserved inventory row missing for item '' (pj_companyId job) rid d reqs = Inr ()" and
    step1: "adjustStock (pj_companyId job) rid (- 1) (- 1) reqs d = Inr d1" and
    step2: "upsertInventory (pj_companyId job) (rc_outputItemId recipe) rid
      (\<lambda>r. r\<lparr>inv_quantity := inv_quantity r + rc_outputQuantity recipe * pj_runs job\<rparr>)
      (rc_outputQuantity recipe * pj_runs job) 0 d1 = Inr (r, d2)" and
    step3: "closeJob E t job d2 = Inr d'"
    by (auto simp: completeJob_def andThen_Inr_iff isProductionJobDue_Inr Let_def split: option.splits)
  have runs: "0 < pj_runs job"
    using reqs by (auto simp: recipeRequirements_def calculateRecipeInputRequirements_def split: if_splits)
  have made: "0 \<le> rc_outputQuantity recipe * pj_runs job"
    using assms(5) rowFind_in [OF recipe] runs by (simp add: outputsOk_def)
  have dist: "distinct (map fst reqs)" by (rule requirements_facts(2) [OF reqs assms(4)])
  have m1: "marketOk d1"
    by (rule adjustStock_market [OF step1 assms(3) dist])
      (use check in \<open>auto simp: checkRequirements_Inr consume_Inr dest!: bspec\<close>,
       use marketOk_inventory [OF assms(3)] in fastforce)
  have "inventoryOk r"
    using step2 made marketOk_inventory [OF m1]
    by (fastforce simp: upsertInventory_def result_simps inventoryOk_iff split: option.splits)
  then have m2: "marketOk d2"
    by (intro marketOk_upsertInventory [OF step2 m1]) (simp add: invKey_def)
  show "marketOk d'" by (rule marketOk_same [OF m2 closeJob_Inr(1-3) [OF step3]])
  have c1: "d1 = d\<lparr>inventories := map (shiftRow (- 1) (- 1) (need (pj_companyId job) rid reqs)) (inventories d)\<rparr>"
    by (rule adjustStock_state [OF step1])
  have c2: "companies d2 = companies d1" "marketOrders d2 = marketOrders d1"
    "productionJobs d2 = productionJobs d1"
    using step2 by (auto simp: upsertInventory_def result_simps split: option.splits)
  show "companies d' = companies d" "marketOrders d' = marketOrders d"
    "productionJobs d' = rowSet pj_id (pj_id job) (closedJob t) (productionJobs d)"
    using c1 c2 closeJob_Inr [OF step3] by auto
  have s1: "itemStock k d1 = itemStock k d - consumedBy E d0 k job"
    using adjustStock_stock [OF step1 rowsOk_distinct [OF economyOk_inventories [OF marketOkD(1) [OF assms(3)]]]]
    by (simp add: consumedBy_def reqs)
  have "itemStock k d2 = itemStock k d1 +
      (if rc_outputItemId recipe = k then rc_outputQuantity recipe * pj_runs job else 0)"
    by (rule itemStock_upsertInventory [OF step2 marketOkD(1) [OF m1]]) (simp_all add: invKey_def)
  moreover have "itemStock k d' = itemStock k d2" using closeJob_Inr(2) [OF step3] by (simp add: itemStock_def)
  ultimately show "itemStock k d' = itemStock k d + producedBy d0 k job - consumedBy E d0 k job"
    using s1 by (simp add: producedBy_def recipe)
qed

lemma completeJob_jobs:
  assumes "completeJob E t d0 job d = Inr d'" and "pj_dueTick job \<le> t"
  shows "productionJobs d' = rowSet pj_id (pj_id job) (closedJob t) (productionJobs d)"
proof -
  from assms obtain reqs rid cid iid n d1 r d2 where
    step1: "adjustStock cid rid (- 1) (- 1) reqs d = Inr d1" and
    step2: "upsertInventory cid iid rid (\<lambda>r. r\<lparr>inv_quantity := inv_quantity r + n\<rparr>) n 0 d1 = Inr (r, d2)" and
    step3: "closeJob E t job d2 = Inr d'"
    by (auto simp: completeJob_def andThen_Inr_iff isProductionJobDue_Inr Let_def split: option.splits)
  have "productionJobs d2 = productionJobs d"
    using step2 adjustStock_state [OF step1]
    by (auto simp: upsertInventory_def result_simps split: option.splits)
  then show ?thesis using closeJob_Inr(4) [OF step3] by simp
qed

lemma completeJobs_keeps:
  assumes "forEach (completeJob E t d0) js d = Inr d'" and "\<And>j. j \<in> set js \<Longrightarrow> pj_dueTick j \<le> t"
    and "marketOk d" and "recipesOk d0" and "outputsOk d0"
  shows "marketOk d' \<and> companies d' = companies d \<and> marketOrders d' = marketOrders d \<and>
    itemStock k d' = itemStock k d + (\<Sum>j\<leftarrow>js. producedBy d0 k j - consumedBy E d0 k j)"
  using assms(1-3)
proof (induction js arbitrary: d)
  case (Cons j js)
  from Cons.prems(1) obtain e where e: "completeJob E t d0 j d = Inr e" "forEach (completeJob E t d0) js e = Inr d'"
    by (auto simp: andThen_Inr_iff)
  note one = completeJob_keeps [OF e(1) _ Cons.prems(3) assms(4,5)]
  from Cons.prems(2) have due: "pj_dueTick j \<le> t" by simp
  from Cons.IH [OF e(2) _ one(1) [OF due]] Cons.prems(2) one(2-5) [OF due] show ?case
    by (auto simp: one(5) [OF due])
qed simp

text \<open>
  C20. Completing the jobs due keeps the market's invariant and every balance, closes exactly the
  running jobs that are due, and changes the stock of every item by what these jobs produce
  less what they consume.
\<close>

theorem completion_exact:
  assumes "completeDueProductionJobs E (IntN t) d = Inr d'"
    and "marketOk d" and "recipesOk d" and "outputsOk d"
    and "distinct (map pj_id (productionJobs d))"
  shows "marketOk d' \<and> totalCash d' = totalCash d \<and>
    productionJobs d' = map (\<lambda>j. if pj_status j = JobIN_PROGRESS \<and> pj_dueTick j \<le> t
      then closedJob t j else j) (productionJobs d) \<and>
    itemStock k d' = itemStock k d +
      (\<Sum>j\<leftarrow>dueProductionJobs t d. producedBy d k j - consumedBy E d k j)"
proof -
  from assms(1) have loop: "forEach (completeJob E t d) (dueProductionJobs t d) d = Inr d'"
    by (auto simp: completeDueProductionJobs_def andThen_Inr_iff)
  have due: "pj_dueTick j \<le> t" if "j \<in> set (dueProductionJobs t d)" for j
    using that by (auto simp: dueProductionJobs_def)
  note kept = completeJobs_keeps [OF loop due assms(2,3,4)]
  have dist: "distinct (map pj_id (dueProductionJobs t d))"
    using assms(5) by (simp add: dueProductionJobs_def distinct_map_filter)
  let ?due = "\<lambda>j. pj_status j = JobIN_PROGRESS \<and> pj_dueTick j \<le> t"
  have "productionJobs d' = map (\<lambda>r. case rowFind pj_id (pj_id r) (dueProductionJobs t d) of
      None \<Rightarrow> r | Some x \<Rightarrow> closedJob t r) (productionJobs d)"
    by (rule forEach_rows [OF loop dist]) (use completeJob_jobs due in auto)
  also have "\<dots> = map (\<lambda>j. if ?due j then closedJob t j else j) (productionJobs d)"
  proof (rule map_cong [OF refl])
    fix j assume j: "j \<in> set (productionJobs d)"
    have "rowFind pj_id (pj_id j) (dueProductionJobs t d) = None" if "\<not> ?due j"
      unfolding rowFind_None
    proof
      assume "pj_id j \<in> pj_id ` set (dueProductionJobs t d)"
      then obtain x where "x \<in> set (productionJobs d)" "?due x" "pj_id x = pj_id j"
        by (auto simp: dueProductionJobs_def)
      with j assms(5) that show False by (metis (no_types, lifting) eq_key_imp_eq_value distinct_map inj_onD)
    qed
    moreover have "rowFind pj_id (pj_id j) (dueProductionJobs t d) = Some j" if "?due j"
      by (rule rowFind_unique [OF dist]) (use j that in \<open>simp add: dueProductionJobs_def\<close>)
    ultimately show "(case rowFind pj_id (pj_id j) (dueProductionJobs t d) of
        None \<Rightarrow> j | Some x \<Rightarrow> closedJob t j) = (if ?due j then closedJob t j else j)"
      by (cases "?due j") auto
  qed
  finally show ?thesis using kept by (simp add: totalCash_def)
qed

definition runningDb :: db where
  "runningDb = startDb\<lparr>inventories := [mkInventory ''b'' ''ore'' ''r1'' 20 8,
     mkInventory ''b'' ''coal'' ''r1'' 6 2], productionJobs := [startedJob]\<rparr>"

lemma completion_exact_witness:
  "\<exists>d'. completeDueProductionJobs fixtureEnv (IntN 10) runningDb = Inr d' \<and> marketOk d' \<and>
     itemStock ''ingot'' d' = 2 \<and> itemStock ''ore'' d' = 16"
proof -
  have "case completeDueProductionJobs fixtureEnv (IntN 10) runningDb of Inl _ \<Rightarrow> False | Inr _ \<Rightarrow> True"
    by code_simp
  then obtain d' where *: "completeDueProductionJobs fixtureEnv (IntN 10) runningDb = Inr d'"
    by (auto split: sum.splits)
  have ok: "marketOk runningDb" "recipesOk runningDb" "outputsOk runningDb"
    "distinct (map pj_id (productionJobs runningDb))"
    by code_simp+
  have "itemStock ''ingot'' runningDb +
      (\<Sum>j\<leftarrow>dueProductionJobs 10 runningDb. producedBy runningDb ''ingot'' j - consumedBy fixtureEnv runningDb ''ingot'' j) = 2"
    "itemStock ''ore'' runningDb +
      (\<Sum>j\<leftarrow>dueProductionJobs 10 runningDb. producedBy runningDb ''ore'' j - consumedBy fixtureEnv runningDb ''ore'' j) = 16"
    by code_simp+
  with completion_exact [OF * ok, of "''ingot''"] completion_exact [OF * ok, of "''ore''"] *
  show ?thesis by auto
qed

subsection \<open>Profitable starts\<close>

lemma createProductionJobWithTx_frame:
  assumes "createProductionJobWithTx E input d = (r, d')" and "marketOk d"
  shows "companies d' = companies d \<and> recipeInputs d' = recipeInputs d \<and>
    itemStock k d' = itemStock k d \<and>
    length (productionJobs d') = length (productionJobs d) + (if returns r then 1 else 0)"
proof -
  have "companies d' = companies d \<and> recipeInputs d' = recipeInputs d \<and>
    length (productionJobs d') = length (productionJobs d) + (if returns r then 1 else 0)"
    using assms(1)
    by (auto simp: createProductionJobWithTx_def createRow_Inr split: sum.splits dest!: adjustStock_state)
  moreover have "itemStock k d' = itemStock k d"
  proof (rule createProductionJobWithTx_stock [of E input d])
    fix plan d1
    assume "adjustStock (sj_companyId input) (co_regionId (jp_company plan)) 0 1 (jp_requirements plan) d = Inr d1"
      "inventories (snd (createProductionJobWithTx E input d)) = inventories d1"
    then show ?thesis
      using adjustStock_stock rowsOk_distinct [OF economyOk_inventories [OF marketOkD(1) [OF assms(2)]]]
        assms(1) by (simp add: itemStock_def)
  qed (use assms(1) in simp)
  ultimately show ?thesis by simp
qed

lemma startProfitableJobs_keeps:
  assumes "startProfitableJobs E input maxJobs minProfit d0 rs n d = Inr (n', d')"
    and "marketOk d" and "recipesOk d" and "n \<le> maxJobs"
  shows "marketOk d' \<and> companies d' = companies d \<and> itemStock k d' = itemStock k d \<and>
    n \<le> n' \<and> n' \<le> maxJobs \<and>
    int (length (productionJobs d')) = int (length (productionJobs d)) + (n' - n)"
  using assms
proof (induction rs arbitrary: n d)
  case (Cons rc rs)
  let ?in = "\<lparr>sj_companyId = sp_companyId input, sj_recipeId = rc_id rc, sj_quantity = IntN 1,
    sj_tick = Some (sp_tick input)\<rparr>"
  obtain r e where step: "createProductionJobWithTx E ?in d = (r, e)" by (metis surj_pair)
  note frame = createProductionJobWithTx_frame [OF step Cons.prems(2), of k]
  have e: "marketOk e" "recipesOk e"
    using createProductionJobWithTx_market [OF Cons.prems(2,3), of E ?in] step frame Cons.prems(3)
    by (auto simp: recipesOk_def)
  show ?case
  proof (cases "n \<ge> maxJobs \<or>
      \<not> isRecipeProfitable rc (inputsOf E (rc_id rc) d0) d0 (sp_referencePriceByItemId input) minProfit")
    case True
    with Cons.prems(2-4) Cons.prems(1) Cons.IH [of n d] show ?thesis by (auto split: if_splits)
  next
    case False
    show ?thesis
    proof (cases r)
      case (Inl err)
      with False step Cons.prems(1) have "startProfitableJobs E input maxJobs minProfit d0 rs n e = Inr (n', d')"
        by (auto split: if_splits)
      from Cons.IH [OF this e Cons.prems(4)] frame Inl show ?thesis by auto
    next
      case (Inr job)
      with False step Cons.prems(1) have "startProfitableJobs E input maxJobs minProfit d0 rs (n + 1) e = Inr (n', d')"
        by auto
      from Cons.IH [OF this e] False frame Inr show ?thesis by auto
    qed
  qed
qed simp

lemma startProfitable_loop:
  assumes "startProfitableProductionForCompanyWithTx E input d = Inr (n, d')"
  shows "n = 0 \<and> d' = d \<or>
    (\<exists>m mp rs. startProfitableJobs E input m mp d rs 0 d = Inr (n, d') \<and> 0 < m \<and>
       m = (case sp_maxJobs input of None \<Rightarrow> 1 | Some k \<Rightarrow> num k))"
  using assms
  by (auto simp: startProfitableProductionForCompanyWithTx_def andThen_Inr_iff Let_def
      split: option.splits if_splits)

text \<open>
  The bots' pass over the recipes starts at most the number of jobs asked for, one row per
  job counted, and whatever starts fail on the way, the market's invariant, every balance and the
  stock of every item stay as they were.
\<close>

theorem profitable_starts_bounded:
  assumes "startProfitableProductionForCompanyWithTx E input d = Inr (n, d')"
    and "marketOk d" and "recipesOk d"
  shows "marketOk d' \<and> companies d' = companies d \<and> itemStock k d' = itemStock k d \<and> 0 \<le> n \<and>
    n \<le> max 0 (case sp_maxJobs input of None \<Rightarrow> 1 | Some m \<Rightarrow> num m) \<and>
    int (length (productionJobs d')) = int (length (productionJobs d)) + n"
proof (rule disjE [OF startProfitable_loop [OF assms(1)]])
  assume "\<exists>m mp rs. startProfitableJobs E input m mp d rs 0 d = Inr (n, d') \<and> 0 < m \<and>
       m = (case sp_maxJobs input of None \<Rightarrow> 1 | Some k \<Rightarrow> num k)"
  then obtain m mp rs where run: "startProfitableJobs E input m mp d rs 0 d = Inr (n, d')" and m: "0 < m"
    "m = (case sp_maxJobs input of None \<Rightarrow> 1 | Some k \<Rightarrow> num k)" by blast
  from startProfitableJobs_keeps [OF run assms(2,3), of k] m show ?thesis by simp
qed (use assms(2) in simp)

definition botStart :: startProfitableInput where
  "botStart = \<lparr>sp_companyId = ''b'', sp_tick = IntN 7, sp_maxJobs = Some (IntN 2),
     sp_referencePriceByItemId = [''ore'' \<mapsto> 10, ''coal'' \<mapsto> 10, ''ingot'' \<mapsto> 500], sp_minProfitBps = None\<rparr>"

lemma profitable_starts_bounded_witness:
  "\<exists>d'. startProfitableProductionForCompanyWithTx fixtureEnv botStart startDb = Inr (1, d') \<and>
     marketOk d' \<and> itemStock ''ore'' d' = itemStock ''ore'' startDb \<and> length (productionJobs d') = 1"
proof -
  have "case startProfitableProductionForCompanyWithTx fixtureEnv botStart startDb of
      Inl _ \<Rightarrow> False | Inr (n, d') \<Rightarrow> n = 1" by code_simp
  then obtain d' where *: "startProfitableProductionForCompanyWithTx fixtureEnv botStart startDb = Inr (1, d')"
    by (auto split: sum.splits)
  have ok: "marketOk startDb" "recipesOk startDb" and jobs: "length (productionJobs startDb) = 0"
    by code_simp+
  from profitable_starts_bounded [OF * ok, of "''ore''"] * jobs show ?thesis by auto
qed

subsection \<open>The stage's contract\<close>

lemma adjustStock_masters: "adjustStock cid rid q r reqs d = Inr d' \<Longrightarrow> masters d' = masters d"
  by (auto simp: masters_def dest!: adjustStock_state)

lemma completeJob_masters:
  assumes "completeJob E t d0 j d = Inr d'"
  shows "masters d' = masters d"
  using assms
  by (auto simp: completeJob_def closeJob_def andThen_Inr_iff branch_Inr Let_def updateRow_Inr
      createLedgerEntry_Inr upsertInventory_def createRow_Inr updateExactlyOne_def masters_def
      dest!: adjustStock_state split: if_splits option.splits)

interpretation productionStage: tick_stage "completeDueProductionJobs E (IntN t)" for E t
proof
  fix d d'
  assume "completeDueProductionJobs E (IntN t) d = Inr d'" and ok: "tickOk d"
  then have loop: "forEach (completeJob E t d) (dueProductionJobs t d) d = Inr d'"
    by (auto simp: completeDueProductionJobs_def andThen_Inr_iff)
  have "pj_dueTick j \<le> t" if "j \<in> set (dueProductionJobs t d)" for j
    using that by (auto simp: dueProductionJobs_def)
  from completeJobs_keeps [OF loop this] ok have "marketOk d' \<and> companies d' = companies d"
    by (simp add: tickOk_def)
  moreover have "masters d' = masters d"
    by (rule forEach_invariant [OF loop, where P = "\<lambda>e. masters e = masters d"])
      (simp_all add: completeJob_masters)
  ultimately show "marketOk d' \<and> masters d' = masters d \<and> totalCash d' \<le> totalCash d"
    by (simp add: totalCash_def)
qed

end
