(* ===== verification/Research.thy ===== *)
theory Research
  imports Fixture Workforce TierLocker
begin

section \<open>Research\<close>

text \<open>
  \<open>packages/sim/src/services/research.ts\<close>: a player company starts a node of the research tree when
  its prerequisites are completed, pays at once, and the job completes at its tick, when the
  node's recipes are unlocked; a running job can be cancelled without refund. A node's relations
  (prerequisites, unlocked recipes) are looked up where the query includes them. The last part
  is the life cycle as a step relation and the invariant of its reachable states.
\<close>

record startResearchInput =
  re_companyId :: string
  re_nodeId :: string
  re_tick :: "jsnum option"

abbreviation "updateResearchJob \<equiv> updateRow rj_id researchJobs researchJobs_update"
abbreviation "createResearchJob \<equiv> createRow rj_id researchJobs researchJobs_update"
abbreviation "findCompanyResearch cid nid d \<equiv> rowFind cxKey (cid, nid) (companyResearches d)"
abbreviation "findCompanyRecipe cid rid d \<equiv> rowFind crKey (cid, rid) (companyRecipes d)"
abbreviation "upsertCompanyResearch \<equiv> upsertRow cxKey companyResearches companyResearches_update"
abbreviation "upsertCompanyRecipe \<equiv> upsertRow crKey companyRecipes companyRecipes_update"

subsection \<open>Validation and queries\<close>

definition validateCompanyId :: "string \<Rightarrow> unit result" where
  "validateCompanyId companyId =
     (if companyId = [] then Inl (DomainInvariantError ''companyId is required'') else Inr ())"

definition validateNodeId :: "string \<Rightarrow> unit result" where
  "validateNodeId nodeId =
     (if nodeId = [] then Inl (DomainInvariantError ''nodeId is required'') else Inr ())"

definition validateResearchTick :: "jsnum \<Rightarrow> string \<Rightarrow> unit result" where
  "validateResearchTick tick fieldName =
     (if \<not> isInteger tick \<or> num tick < 0
      then Inl (DomainInvariantError (fieldName @ '' must be a non-negative integer'')) else Inr ())"

definition resolveResearchTick :: "jsnum option \<Rightarrow> db \<Rightarrow> int result" where
  "resolveResearchTick explicitTick d =
     (case explicitTick of
       Some t \<Rightarrow> andThen (validateResearchTick t ''tick'') (\<lambda>_. Inr (num t))
     | None \<Rightarrow> Inr (worldTick d))"

definition assertResearchableCompany :: "string \<Rightarrow> db \<Rightarrow> company result" where
  "assertResearchableCompany companyId d =
     (case findCompany companyId d of
       None \<Rightarrow> Inl (NotFoundError (''company '' @ companyId @ '' not found''))
     | Some company \<Rightarrow>
         if \<not> co_isPlayer company \<or> co_ownerPlayerId company = None
         then Inl (DomainInvariantError ''only player-owned companies can research'')
         else Inr company)"

definition completedNodeIds :: "string \<Rightarrow> db \<Rightarrow> string list" where
  "completedNodeIds companyId d =
     map cx_nodeId (filter (\<lambda>r. cx_companyId r = companyId \<and> cx_status r = NodeCOMPLETED)
       (companyResearches d))"

definition prerequisitesOf :: "string \<Rightarrow> db \<Rightarrow> string list" where
  "prerequisitesOf nodeId d =
     map rp_prerequisiteNodeId (filter (\<lambda>p. rp_nodeId p = nodeId) (researchPrerequisites d))"

definition prerequisitesMet :: "string \<Rightarrow> string \<Rightarrow> db \<Rightarrow> bool" where
  "prerequisitesMet companyId nodeId d =
     list_all (\<lambda>p. p \<in> set (completedNodeIds companyId d)) (prerequisitesOf nodeId d)"

definition isRunningJob :: "string \<Rightarrow> string \<Rightarrow> researchJob \<Rightarrow> bool" where
  "isRunningJob companyId nodeId j =
     (rj_companyId j = companyId \<and> rj_nodeId j = nodeId \<and> rj_status j = ResearchRUNNING)"

subsection \<open>The tree as a company sees it\<close>

record researchNodeView =
  rv_node :: researchNode
  rv_status :: companyResearchStatus
  rv_tickStarted :: "int option"
  rv_tickCompletes :: "int option"
  rv_prerequisites :: "string list"
  rv_unlockRecipes :: "(string \<times> string \<times> string) list"

text \<open>Of several running jobs of a node the last one read wins (\<open>new Map\<close>).\<close>

definition viewNode :: "env \<Rightarrow> string \<Rightarrow> db \<Rightarrow> researchNode \<Rightarrow> researchNodeView" where
  "viewNode E companyId d node =
     (let row = findCompanyResearch companyId (rn_id node) d;
          runningJob = List.find (isRunningJob companyId (rn_id node)) (rev (researchJobs d));
          status = (if rn_id node \<in> set (completedNodeIds companyId d) then NodeCOMPLETED
            else if runningJob \<noteq> None then NodeRESEARCHING
            else if prerequisitesMet companyId (rn_id node) d then NodeAVAILABLE
            else NodeLOCKED);
          recipesUnlocked = List.map_filter (\<lambda>u. rowFind rc_id (nu_recipeId u) (recipes d))
            (filter (\<lambda>u. nu_nodeId u = rn_id node) (nodeUnlockRecipes d)) in
      \<lparr>rv_node = node, rv_status = status,
       rv_tickStarted = (case runningJob of Some j \<Rightarrow> Some (rj_tickStarted j)
         | None \<Rightarrow> Option.bind row cx_tickStarted),
       rv_tickCompletes = (case runningJob of Some j \<Rightarrow> Some (rj_tickCompletes j)
         | None \<Rightarrow> Option.bind row cx_tickCompletes),
       rv_prerequisites = prerequisitesOf (rn_id node) d,
       rv_unlockRecipes = map (\<lambda>r. (rc_id r, rc_code r, rc_name r))
         (sortBy (\<lambda>x y. env_textCompare E (rc_code x) (rc_code y)) recipesUnlocked)\<rparr>)"

definition listResearchForCompany :: "env \<Rightarrow> string \<Rightarrow> db \<Rightarrow> researchNodeView list result" where
  "listResearchForCompany E companyId d =
     andThen (validateCompanyId companyId) (\<lambda>_.
     andThen (assertResearchableCompany companyId d) (\<lambda>_.
     Inr (map (viewNode E companyId d)
       (sortBy (\<lambda>x y. env_textCompare E (rn_code x) (rn_code y)) (researchNodes d)))))"

subsection \<open>Starting\<close>

definition checkResearchStart :: "startResearchInput \<Rightarrow> company \<Rightarrow> researchNode \<Rightarrow> db \<Rightarrow> unit result" where
  "checkResearchStart input company node d =
     (let existingResearch = map_option cx_status
            (findCompanyResearch (re_companyId input) (re_nodeId input) d);
          existingRunningJob =
            List.find (isRunningJob (re_companyId input) (re_nodeId input)) (researchJobs d) in
      if existingResearch = Some NodeCOMPLETED
        then Inl (DomainInvariantError ''research node already completed'')
      else if existingRunningJob \<noteq> None \<or> existingResearch = Some NodeRESEARCHING
        then Inl (DomainInvariantError ''research node is already running'')
      else if \<not> prerequisitesMet (re_companyId input) (rn_id node) d
        then Inl (DomainInvariantError ''research prerequisites are not completed'')
      else if co_cashCents company < rn_costCashCents node
        then Inl (DomainInvariantError ''insufficient cash for research'')
      else Inr ())"

definition researchDuration :: "company \<Rightarrow> researchNode \<Rightarrow> int result" where
  "researchDuration company node =
     andThen (resolveWorkforceRuntimeModifiers (workforceState company) id) (\<lambda>m.
     applyDurationMultiplierTicks (IntN (rn_durationTicks node))
       (IntN (researchDurationMultiplierBps m)))"

definition startResearchWithTx :: "env \<Rightarrow> startResearchInput \<Rightarrow> db \<Rightarrow> (researchJob \<times> db) result" where
  "startResearchWithTx E input d =
     andThen (resolveResearchTick (re_tick input) d) (\<lambda>tick.
     andThen (assertResearchableCompany (re_companyId input) d) (\<lambda>company.
     (case rowFind rn_id (re_nodeId input) (researchNodes d) of
       None \<Rightarrow> Inl (NotFoundError (''research node '' @ re_nodeId input @ '' not found''))
     | Some node \<Rightarrow>
       andThen (checkResearchStart input company node d) (\<lambda>_.
       (let nextCash = co_cashCents company - rn_costCashCents node in
        andThen (updateCompany (co_id company) (\<lambda>c. c\<lparr>co_cashCents := nextCash\<rparr>) d) (\<lambda>(_, d).
        andThen (researchDuration company node) (\<lambda>adjustedDurationTicks.
        (let tickCompletes = tick + adjustedDurationTicks in
         andThen (createResearchJob
           \<lparr>rj_id = newId E d, rj_companyId = re_companyId input, rj_nodeId = re_nodeId input,
            rj_status = ResearchRUNNING, rj_costCashCents = rn_costCashCents node,
            rj_tickStarted = tick, rj_tickCompletes = tickCompletes, rj_tickClosed = None,
            rj_createdAt = currentTime E d\<rparr> d) (\<lambda>(job, d).
         andThen (upsertCompanyResearch
           (\<lambda>r. r\<lparr>cx_status := NodeRESEARCHING, cx_tickStarted := Some tick,
             cx_tickCompletes := Some tickCompletes\<rparr>)
           \<lparr>cx_id = newId E d, cx_companyId = re_companyId input, cx_nodeId = re_nodeId input,
            cx_status = NodeRESEARCHING, cx_tickStarted = Some tick,
            cx_tickCompletes = Some tickCompletes\<rparr> d) (\<lambda>(_, d).
         andThen (createLedgerEntry E (re_companyId input) tick RESEARCH_PAYMENT
           (- rn_costCashCents node) 0 nextCash ''RESEARCH_NODE'' (rn_id node) d) (\<lambda>d.
         Inr (job, d))))))))))))"

definition startResearch :: "env \<Rightarrow> startResearchInput \<Rightarrow> db \<Rightarrow> researchJob result \<times> db" where
  "startResearch E input d =
     (case andThen (validateCompanyId (re_companyId input)) (\<lambda>_. validateNodeId (re_nodeId input)) of
       Inl e \<Rightarrow> (Inl e, d)
     | Inr _ \<Rightarrow> transaction (startResearchWithTx E input) d)"

subsection \<open>Cancelling and completing\<close>

definition cancelResearchWithTx :: "env \<Rightarrow> startResearchInput \<Rightarrow> db \<Rightarrow> (researchJob \<times> db) result" where
  "cancelResearchWithTx E input d =
     andThen (resolveResearchTick (re_tick input) d) (\<lambda>tick.
     andThen (assertResearchableCompany (re_companyId input) d) (\<lambda>_.
     (case List.find (isRunningJob (re_companyId input) (re_nodeId input)) (researchJobs d) of
       None \<Rightarrow> Inl (DomainInvariantError ''research node is not running'')
     | Some runningJob \<Rightarrow>
       andThen (updateResearchJob (rj_id runningJob)
         (\<lambda>j. j\<lparr>rj_status := ResearchCANCELLED, rj_tickClosed := Some tick\<rparr>) d) (\<lambda>(_, d).
       (let status = (if prerequisitesMet (re_companyId input) (rj_nodeId runningJob) d
              then NodeAVAILABLE else NodeLOCKED) in
        andThen (upsertCompanyResearch (\<lambda>r. r\<lparr>cx_status := status\<rparr>)
          \<lparr>cx_id = newId E d, cx_companyId = re_companyId input, cx_nodeId = re_nodeId input,
           cx_status = status, cx_tickStarted = None, cx_tickCompletes = None\<rparr> d) (\<lambda>(_, d).
        Inr (runningJob\<lparr>rj_status := ResearchCANCELLED, rj_tickClosed := Some tick\<rparr>, d)))))))"

definition cancelResearch :: "env \<Rightarrow> startResearchInput \<Rightarrow> db \<Rightarrow> researchJob result \<times> db" where
  "cancelResearch E input d =
     (case andThen (validateCompanyId (re_companyId input)) (\<lambda>_. validateNodeId (re_nodeId input)) of
       Inl e \<Rightarrow> (Inl e, d)
     | Inr _ \<Rightarrow> transaction (cancelResearchWithTx E input) d)"

definition dueResearchJobs :: "int \<Rightarrow> db \<Rightarrow> researchJob list" where
  "dueResearchJobs tick d =
     sortBy (cmpThen (cmpKey rj_tickCompletes) (cmpKey rj_createdAt))
       (filter (\<lambda>j. rj_status j = ResearchRUNNING \<and> rj_tickCompletes j \<le> tick) (researchJobs d))"

definition unlockRecipe :: "string \<Rightarrow> nodeUnlockRecipe \<Rightarrow> db \<Rightarrow> db result" where
  "unlockRecipe companyId unlock d =
     andThen (upsertCompanyRecipe (\<lambda>r. r\<lparr>cr_isUnlocked := True\<rparr>)
       \<lparr>cr_companyId = companyId, cr_recipeId = nu_recipeId unlock, cr_isUnlocked = True\<rparr> d)
       (\<lambda>(_, d). Inr d)"

definition completeResearchJob :: "env \<Rightarrow> int \<Rightarrow> db \<Rightarrow> researchJob \<Rightarrow> db \<Rightarrow> db result" where
  "completeResearchJob E tick snapshot job d =
     andThen (updateResearchJob (rj_id job)
       (\<lambda>j. j\<lparr>rj_status := ResearchCOMPLETED, rj_tickClosed := Some tick\<rparr>) d) (\<lambda>(_, d).
     andThen (upsertCompanyResearch
       (\<lambda>r. r\<lparr>cx_status := NodeCOMPLETED, cx_tickStarted := Some (rj_tickStarted job),
         cx_tickCompletes := Some (rj_tickCompletes job)\<rparr>)
       \<lparr>cx_id = newId E d, cx_companyId = rj_companyId job, cx_nodeId = rj_nodeId job,
        cx_status = NodeCOMPLETED, cx_tickStarted = Some (rj_tickStarted job),
        cx_tickCompletes = Some (rj_tickCompletes job)\<rparr> d) (\<lambda>(_, d).
     forEach (unlockRecipe (rj_companyId job))
       (filter (\<lambda>u. nu_nodeId u = rj_nodeId job) (nodeUnlockRecipes snapshot)) d))"

definition completeDueResearchJobs :: "env \<Rightarrow> jsnum \<Rightarrow> db \<Rightarrow> db result" where
  "completeDueResearchJobs E tick d =
     andThen (validateResearchTick tick ''tick'') (\<lambda>_.
     forEach (completeResearchJob E (num tick) d) (dueResearchJobs (num tick) d) d)"

subsection \<open>The state of a node\<close>

definition nodeStatus :: "string \<Rightarrow> string \<Rightarrow> db \<Rightarrow> companyResearchStatus option" where
  "nodeStatus cid nid d = map_option cx_status (findCompanyResearch cid nid d)"

definition runningJobs :: "string \<Rightarrow> string \<Rightarrow> db \<Rightarrow> researchJob list" where
  "runningJobs cid nid d = filter (isRunningJob cid nid) (researchJobs d)"

definition isUnlocked :: "string \<Rightarrow> string \<Rightarrow> db \<Rightarrow> bool" where
  "isUnlocked cid rid d =
     (case findCompanyRecipe cid rid d of None \<Rightarrow> False | Some r \<Rightarrow> cr_isUnlocked r)"

text \<open>
  A node is RESEARCHING exactly while one job runs for it, and a node that is RESEARCHING or
  COMPLETED has all its prerequisites COMPLETED.
\<close>

definition researchOk :: "db \<Rightarrow> bool" where
  "researchOk d \<longleftrightarrow>
     distinct (map cxKey (companyResearches d)) \<and> distinct (map rj_id (researchJobs d)) \<and>
     (\<forall>c n. length (runningJobs c n d) = (if nodeStatus c n d = Some NodeRESEARCHING then 1 else 0)) \<and>
     (\<forall>c n. nodeStatus c n d \<in> {Some NodeRESEARCHING, Some NodeCOMPLETED} \<longrightarrow>
        (\<forall>p\<in>set (prerequisitesOf n d). nodeStatus c p d = Some NodeCOMPLETED))"

lemma researchOkD:
  assumes "researchOk d"
  shows "distinct (map cxKey (companyResearches d))" and "distinct (map rj_id (researchJobs d))"
    and "length (runningJobs c n d) = (if nodeStatus c n d = Some NodeRESEARCHING then 1 else 0)"
    and "nodeStatus c n d = Some NodeRESEARCHING \<or> nodeStatus c n d = Some NodeCOMPLETED \<Longrightarrow>
      p \<in> set (prerequisitesOf n d) \<Longrightarrow> nodeStatus c p d = Some NodeCOMPLETED"
  using assms unfolding researchOk_def by blast+

lemma researchOkI:
  assumes "distinct (map cxKey (companyResearches d))" and "distinct (map rj_id (researchJobs d))"
    and "\<And>c n. length (runningJobs c n d) = (if nodeStatus c n d = Some NodeRESEARCHING then 1 else 0)"
    and "\<And>c n p. nodeStatus c n d = Some NodeRESEARCHING \<or> nodeStatus c n d = Some NodeCOMPLETED \<Longrightarrow>
      p \<in> set (prerequisitesOf n d) \<Longrightarrow> nodeStatus c p d = Some NodeCOMPLETED"
  shows "researchOk d"
  using assms unfolding researchOk_def by blast

lemma completedNodeIds_iff:
  assumes "distinct (map cxKey (companyResearches d))"
  shows "n \<in> set (completedNodeIds c d) \<longleftrightarrow> nodeStatus c n d = Some NodeCOMPLETED"
proof
  assume "n \<in> set (completedNodeIds c d)"
  then obtain r where r: "r \<in> set (companyResearches d)" "cxKey r = (c, n)" "cx_status r = NodeCOMPLETED"
    by (auto simp: completedNodeIds_def cxKey_def)
  with rowFind_unique [OF assms r(1)] show "nodeStatus c n d = Some NodeCOMPLETED"
    by (simp add: nodeStatus_def)
next
  assume "nodeStatus c n d = Some NodeCOMPLETED"
  then obtain r where "findCompanyResearch c n d = Some r" "cx_status r = NodeCOMPLETED"
    by (auto simp: nodeStatus_def)
  then show "n \<in> set (completedNodeIds c d)"
    using rowFind_Some [of cxKey "(c, n)" "companyResearches d" r]
    by (force simp: completedNodeIds_def cxKey_def)
qed

lemma prerequisitesMet_iff:
  "researchOk d \<Longrightarrow> prerequisitesMet c n d \<longleftrightarrow>
     (\<forall>p\<in>set (prerequisitesOf n d). nodeStatus c p d = Some NodeCOMPLETED)"
  by (simp add: prerequisitesMet_def list_all_iff completedNodeIds_iff [OF researchOkD(1)])

lemma upsertRow_frame:
  assumes "upsertRow key tbl upd f new d = Inr (r, d')"
  obtains g n where "d' = (upd g d)\<lparr>db_seq := n\<rparr>" | g where "d' = upd g d"
  using assms
  by (auto simp: upsertRow_def result_simps split: option.splits)

lemma upsertCompanyResearch_effect:
  assumes "upsertCompanyResearch f new d = Inr (r, d')"
    and "\<And>r. cxKey (f r) = cxKey r" and "\<And>r. cx_status (f r) = s" "cx_status new = s"
  shows "nodeStatus c n d' = (if (c, n) = cxKey new then Some s else nodeStatus c n d)"
    and "distinct (map cxKey (companyResearches d)) \<Longrightarrow> distinct (map cxKey (companyResearches d'))"
    and "researchJobs d' = researchJobs d" "researchPrerequisites d' = researchPrerequisites d"
    and "companies d' = companies d" "inventories d' = inventories d" "marketOrders d' = marketOrders d"
    and "companyRecipes d' = companyRecipes d"
proof -
  note u = companyResearch.upsert_rows [OF assms(1,2)]
  show "nodeStatus c n d' = (if (c, n) = cxKey new then Some s else nodeStatus c n d)"
    using u(1) u(2) [of "(c, n)"] assms(3,4) by (auto simp: nodeStatus_def split: option.splits)
  show "distinct (map cxKey (companyResearches d)) \<Longrightarrow> distinct (map cxKey (companyResearches d'))"
    by (rule u(3))
  show "researchJobs d' = researchJobs d" "researchPrerequisites d' = researchPrerequisites d"
    "companies d' = companies d" "inventories d' = inventories d" "marketOrders d' = marketOrders d"
    "companyRecipes d' = companyRecipes d"
    by (rule upsertRow_frame [OF assms(1)]; simp)+
qed

lemma unlockRecipe_effect:
  assumes "unlockRecipe cid u d = Inr d'"
  shows "isUnlocked c r d' \<longleftrightarrow> isUnlocked c r d \<or> c = cid \<and> r = nu_recipeId u"
    and "researchJobs d' = researchJobs d" "companyResearches d' = companyResearches d"
    "researchPrerequisites d' = researchPrerequisites d" "companies d' = companies d"
    "inventories d' = inventories d" "marketOrders d' = marketOrders d"
proof -
  from assms obtain x where x: "upsertCompanyRecipe (\<lambda>r. r\<lparr>cr_isUnlocked := True\<rparr>)
       \<lparr>cr_companyId = cid, cr_recipeId = nu_recipeId u, cr_isUnlocked = True\<rparr> d = Inr (x, d')"
    by (auto simp: unlockRecipe_def andThen_Inr_iff)
  note up = companyRecipe.upsert_rows [OF x]
  show "isUnlocked c r d' \<longleftrightarrow> isUnlocked c r d \<or> c = cid \<and> r = nu_recipeId u"
    using up(1,2) by (auto simp: isUnlocked_def crKey_def split: option.splits)
  show "researchJobs d' = researchJobs d" "companyResearches d' = companyResearches d"
    "researchPrerequisites d' = researchPrerequisites d" "companies d' = companies d"
    "inventories d' = inventories d" "marketOrders d' = marketOrders d"
    by (rule upsertRow_frame [OF x]; simp)+
qed

lemma unlockRecipes_effect:
  "\<exists>d'. forEach (unlockRecipe cid) us d = Inr d' \<and>
     (\<forall>c r. isUnlocked c r d' \<longleftrightarrow> isUnlocked c r d \<or> c = cid \<and> r \<in> nu_recipeId ` set us) \<and>
     researchJobs d' = researchJobs d \<and> companyResearches d' = companyResearches d \<and>
     researchPrerequisites d' = researchPrerequisites d \<and> companies d' = companies d \<and>
     inventories d' = inventories d \<and> marketOrders d' = marketOrders d"
proof (induction us arbitrary: d)
  case (Cons u us)
  obtain e where e: "unlockRecipe cid u d = Inr e"
    using companyRecipe.upsert_returns by (fastforce simp: unlockRecipe_def andThen_Inr_iff)
  note one = unlockRecipe_effect [OF e]
  from Cons.IH [of e] obtain d' where "forEach (unlockRecipe cid) us e = Inr d'"
     "\<forall>c r. isUnlocked c r d' \<longleftrightarrow> isUnlocked c r e \<or> c = cid \<and> r \<in> nu_recipeId ` set us"
     "researchJobs d' = researchJobs e" "companyResearches d' = companyResearches e"
     "researchPrerequisites d' = researchPrerequisites e" "companies d' = companies e"
     "inventories d' = inventories e" "marketOrders d' = marketOrders e" by blast
  with e one show ?case by auto
qed simp

subsection \<open>Completion\<close>

definition closedResearch :: "int \<Rightarrow> researchJob \<Rightarrow> researchJob" where
  "closedResearch t j = j\<lparr>rj_status := ResearchCOMPLETED, rj_tickClosed := Some t\<rparr>"

lemma closedResearch_simps [simp]:
  "rj_id (closedResearch t j) = rj_id j" "rj_status (closedResearch t j) = ResearchCOMPLETED"
  by (simp_all add: closedResearch_def)

text \<open>Closing a job takes it out of the running jobs.\<close>

lemma runningJobs_closed:
  assumes "researchJobs d' = rowSet rj_id k f (researchJobs d)"
    and "\<And>j. rj_status (f j) \<noteq> ResearchRUNNING"
  shows "runningJobs c n d' = filter (\<lambda>j. rj_id j \<noteq> k) (runningJobs c n d)"
proof -
  have "filter (isRunningJob c n) (rowSet rj_id k f js) =
      filter (\<lambda>j. rj_id j \<noteq> k) (filter (isRunningJob c n) js)" for js
    by (induction js) (auto simp: isRunningJob_def assms(2))
  then show ?thesis by (simp add: runningJobs_def assms(1))
qed

lemma researchOk_running:
  assumes "researchOk d" and "j \<in> set (researchJobs d)" and "rj_status j = ResearchRUNNING"
  shows "nodeStatus (rj_companyId j) (rj_nodeId j) d = Some NodeRESEARCHING"
    and "runningJobs (rj_companyId j) (rj_nodeId j) d = [j]"
proof -
  have mem: "j \<in> set (runningJobs (rj_companyId j) (rj_nodeId j) d)"
    using assms(2,3) by (simp add: runningJobs_def isRunningJob_def)
  then have len: "length (runningJobs (rj_companyId j) (rj_nodeId j) d) \<noteq> 0" by force
  then show s: "nodeStatus (rj_companyId j) (rj_nodeId j) d = Some NodeRESEARCHING"
    using researchOkD(3) [OF assms(1), of "rj_companyId j" "rj_nodeId j"] by (simp split: if_splits)
  then have "length (runningJobs (rj_companyId j) (rj_nodeId j) d) = 1"
    using researchOkD(3) [OF assms(1)] by simp
  with mem show "runningJobs (rj_companyId j) (rj_nodeId j) d = [j]"
    by (cases "runningJobs (rj_companyId j) (rj_nodeId j) d") auto
qed

text \<open>
  The step all three operations share: one job is closed and its node gets a status other than
  RESEARCHING, COMPLETED only coming from RESEARCHING.
\<close>

lemma researchOk_close:
  assumes "researchOk d" and "j \<in> set (researchJobs d)" "rj_status j = ResearchRUNNING"
    and "researchJobs d' = rowSet rj_id (rj_id j) f (researchJobs d)"
    and "\<And>j. rj_id (f j) = rj_id j" "\<And>j. rj_status (f j) \<noteq> ResearchRUNNING"
    and "researchPrerequisites d' = researchPrerequisites d"
    and "\<And>c n. nodeStatus c n d' = (if (c, n) = (rj_companyId j, rj_nodeId j) then Some s else nodeStatus c n d)"
    and "s \<noteq> NodeRESEARCHING" and "distinct (map cxKey (companyResearches d'))"
  shows "researchOk d'"
proof -
  note run = researchOk_running [OF assms(1-3)]
  have prereq: "prerequisitesOf n d' = prerequisitesOf n d" for n by (simp add: prerequisitesOf_def assms(7))
  have uniq: "x = j" if "x \<in> set (researchJobs d)" "rj_id x = rj_id j" for x
    using rowFind_unique [OF researchOkD(2) [OF assms(1)] that(1)]
      rowFind_unique [OF researchOkD(2) [OF assms(1)] assms(2)] that(2) by (metis option.inject)
  show ?thesis
  proof (rule researchOkI)
    show "distinct (map rj_id (researchJobs d'))"
      unfolding assms(4) map_rowSet_same [of rj_id f, OF assms(5)] by (rule researchOkD(2) [OF assms(1)])
  next
    fix c n
    show "length (runningJobs c n d') = (if nodeStatus c n d' = Some NodeRESEARCHING then 1 else 0)"
    proof (cases "(c, n) = (rj_companyId j, rj_nodeId j)")
      case True
      then show ?thesis using runningJobs_closed [OF assms(4,6), of c n] run assms(8,9) by simp
    next
      case False
      have "filter (\<lambda>x. rj_id x \<noteq> rj_id j) (runningJobs c n d) = runningJobs c n d"
        by (rule filter_True) (use False uniq in \<open>auto simp: runningJobs_def isRunningJob_def\<close>)
      then show ?thesis
        using False runningJobs_closed [OF assms(4,6), of c n] assms(8) researchOkD(3) [OF assms(1)]
        by auto
    qed
  next
    fix c n p
    assume *: "nodeStatus c n d' = Some NodeRESEARCHING \<or> nodeStatus c n d' = Some NodeCOMPLETED"
      "p \<in> set (prerequisitesOf n d')"
    have "nodeStatus c n d = Some NodeRESEARCHING \<or> nodeStatus c n d = Some NodeCOMPLETED"
      using *(1) run(1) assms(8) [of c n] by (cases "(c, n) = (rj_companyId j, rj_nodeId j)") auto
    then have "nodeStatus c p d = Some NodeCOMPLETED"
      by (rule researchOkD(4) [OF assms(1)]) (use *(2) prereq [of n] in simp)
    then show "nodeStatus c p d' = Some NodeCOMPLETED"
      using run(1) assms(8) [of c p] by (cases "(c, p) = (rj_companyId j, rj_nodeId j)") auto
  qed (rule assms(10))
qed

lemma completeResearchJob_effect:
  assumes "researchOk d" and "j \<in> set (researchJobs d)" "rj_status j = ResearchRUNNING"
  shows "\<exists>d'. completeResearchJob E t d0 j d = Inr d' \<and> researchOk d' \<and>
    researchJobs d' = rowSet rj_id (rj_id j) (closedResearch t) (researchJobs d) \<and>
    (\<forall>c n. nodeStatus c n d' =
       (if (c, n) = (rj_companyId j, rj_nodeId j) then Some NodeCOMPLETED else nodeStatus c n d)) \<and>
    (\<forall>c r. isUnlocked c r d' \<longleftrightarrow> isUnlocked c r d \<or> c = rj_companyId j \<and>
       r \<in> nu_recipeId ` {u \<in> set (nodeUnlockRecipes d0). nu_nodeId u = rj_nodeId j}) \<and>
    companies d' = companies d \<and> inventories d' = inventories d \<and> marketOrders d' = marketOrders d"
proof -
  have find: "rowFind rj_id (rj_id j) (researchJobs d) = Some j"
    using assms(1,2) by (intro rowFind_unique researchOkD(2))
  let ?f = "closedResearch t"
  let ?d1 = "researchJobs_update (rowSet rj_id (rj_id j) ?f) d"
  let ?g = "\<lambda>r. r\<lparr>cx_status := NodeCOMPLETED, cx_tickStarted := Some (rj_tickStarted j),
         cx_tickCompletes := Some (rj_tickCompletes j)\<rparr>"
  let ?new = "\<lparr>cx_id = newId E ?d1, cx_companyId = rj_companyId j, cx_nodeId = rj_nodeId j,
        cx_status = NodeCOMPLETED, cx_tickStarted = Some (rj_tickStarted j),
        cx_tickCompletes = Some (rj_tickCompletes j)\<rparr>"
  obtain r d2 where d2: "upsertCompanyResearch ?g ?new ?d1 = Inr (r, d2)"
    using companyResearch.upsert_returns by blast
  note e2 = upsertCompanyResearch_effect [OF d2, where s = NodeCOMPLETED, simplified cxKey_def, simplified]
  obtain d3 where d3: "forEach (unlockRecipe (rj_companyId j))
       (filter (\<lambda>u. nu_nodeId u = rj_nodeId j) (nodeUnlockRecipes d0)) d2 = Inr d3"
     "\<forall>c r. isUnlocked c r d3 \<longleftrightarrow> isUnlocked c r d2 \<or> c = rj_companyId j \<and>
        r \<in> nu_recipeId ` set (filter (\<lambda>u. nu_nodeId u = rj_nodeId j) (nodeUnlockRecipes d0))"
     "researchJobs d3 = researchJobs d2" "companyResearches d3 = companyResearches d2"
     "researchPrerequisites d3 = researchPrerequisites d2" "companies d3 = companies d2"
     "inventories d3 = inventories d2" "marketOrders d3 = marketOrders d2"
    using unlockRecipes_effect by blast
  have run: "completeResearchJob E t d0 j d = Inr d3"
    using find d2 d3(1)
    by (simp add: completeResearchJob_def updateRow_def closedResearch_def [abs_def])
  have jobs: "researchJobs d3 = rowSet rj_id (rj_id j) ?f (researchJobs d)"
    using d3(3) e2(3) by simp
  have status: "nodeStatus c n d3 =
      (if (c, n) = (rj_companyId j, rj_nodeId j) then Some NodeCOMPLETED else nodeStatus c n d)" for c n
    using e2(1) [of c n] d3(4) by (simp add: nodeStatus_def)
  have unlocked: "isUnlocked c r d2 = isUnlocked c r d" for c r
    using e2(8) by (simp add: isUnlocked_def)
  have "researchOk d3"
    by (rule researchOk_close [OF assms jobs _ _ _ status])
      (use d3(4,5) e2(2,4) researchOkD(1) [OF assms(1)] in \<open>simp_all\<close>)
  then show ?thesis
    using run jobs status unlocked d3(2,6,7,8) e2(5,6,7) by auto
qed

definition dueFor :: "researchJob list \<Rightarrow> string \<Rightarrow> string \<Rightarrow> bool" where
  "dueFor js c n = list_ex (\<lambda>j. rj_companyId j = c \<and> rj_nodeId j = n) js"

definition unlockedBy :: "db \<Rightarrow> researchJob list \<Rightarrow> string \<Rightarrow> string \<Rightarrow> bool" where
  "unlockedBy d0 js c r = list_ex (\<lambda>j. rj_companyId j = c \<and>
     list_ex (\<lambda>u. nu_nodeId u = rj_nodeId j \<and> nu_recipeId u = r) (nodeUnlockRecipes d0)) js"

lemma completeResearchJobs_effect:
  assumes "researchOk d" and "distinct (map rj_id js)"
    and "\<And>j. j \<in> set js \<Longrightarrow> j \<in> set (researchJobs d) \<and> rj_status j = ResearchRUNNING"
  shows "\<exists>d'. forEach (completeResearchJob E t d0) js d = Inr d' \<and> researchOk d' \<and>
    (\<forall>c n. nodeStatus c n d' = (if dueFor js c n then Some NodeCOMPLETED else nodeStatus c n d)) \<and>
    (\<forall>c r. isUnlocked c r d' \<longleftrightarrow> isUnlocked c r d \<or> unlockedBy d0 js c r) \<and>
    (\<forall>j\<in>set (researchJobs d'). rj_status j = ResearchRUNNING \<longrightarrow>
       j \<in> set (researchJobs d) \<and> j \<notin> set js) \<and>
    companies d' = companies d \<and> inventories d' = inventories d \<and> marketOrders d' = marketOrders d"
  using assms
proof (induction js arbitrary: d)
  case Nil
  then show ?case by (simp add: dueFor_def unlockedBy_def)
next
  case (Cons j js)
  have j: "j \<in> set (researchJobs d)" "rj_status j = ResearchRUNNING" using Cons.prems(3) by auto
  from completeResearchJob_effect [OF Cons.prems(1) j, of E t d0] obtain e where
    e: "completeResearchJob E t d0 j d = Inr e" "researchOk e"
      "researchJobs e = rowSet rj_id (rj_id j) (closedResearch t) (researchJobs d)"
      "\<forall>c n. nodeStatus c n e =
         (if (c, n) = (rj_companyId j, rj_nodeId j) then Some NodeCOMPLETED else nodeStatus c n d)"
      "\<forall>c r. isUnlocked c r e \<longleftrightarrow> isUnlocked c r d \<or> c = rj_companyId j \<and>
         r \<in> nu_recipeId ` {u \<in> set (nodeUnlockRecipes d0). nu_nodeId u = rj_nodeId j}"
      "companies e = companies d" "inventories e = inventories d" "marketOrders e = marketOrders d"
    by blast
  have stay: "x \<in> set (researchJobs e)" if "x \<in> set (researchJobs d)" "rj_id x \<noteq> rj_id j" for x
    using that by (auto simp: e(3) rowSet_def)
  have former: "x \<in> set (researchJobs d) \<and> x \<noteq> j" if "x \<in> set (researchJobs e)" "rj_status x = ResearchRUNNING" for x
  proof -
    from that(1) obtain y where y: "y \<in> set (researchJobs d)"
      "x = (if rj_id y = rj_id j then closedResearch t y else y)" by (auto simp: e(3) rowSet_def)
    have "rj_id y \<noteq> rj_id j" using y(2) that(2) by (metis closedResearch_simps(2) researchJobStatus.distinct(1))
    with y show ?thesis by (metis (full_types))
  qed
  have "x \<in> set (researchJobs e) \<and> rj_status x = ResearchRUNNING" if "x \<in> set js" for x
  proof -
    have "rj_id j \<notin> rj_id ` set js" using Cons.prems(2) by simp
    with that have "rj_id x \<noteq> rj_id j" by (metis image_eqI)
    then show ?thesis using Cons.prems(3) [of x] that stay [of x] by simp
  qed
  from Cons.IH [OF e(2) _ this] Cons.prems(2) obtain d' where
    d': "forEach (completeResearchJob E t d0) js e = Inr d'" "researchOk d'"
    "\<forall>c n. nodeStatus c n d' = (if dueFor js c n then Some NodeCOMPLETED else nodeStatus c n e)"
    "\<forall>c r. isUnlocked c r d' \<longleftrightarrow> isUnlocked c r e \<or> unlockedBy d0 js c r"
    "\<forall>x\<in>set (researchJobs d'). rj_status x = ResearchRUNNING \<longrightarrow>
       x \<in> set (researchJobs e) \<and> x \<notin> set js"
    "companies d' = companies e" "inventories d' = inventories e" "marketOrders d' = marketOrders e"
    by auto
  have status: "nodeStatus c n d' = (if dueFor (j # js) c n then Some NodeCOMPLETED else nodeStatus c n d)" for c n
    using d'(3) e(4) by (auto simp: dueFor_def)
  have unlocked: "isUnlocked c r d' \<longleftrightarrow> isUnlocked c r d \<or> unlockedBy d0 (j # js) c r" for c r
    using d'(4) e(5) by (auto simp: unlockedBy_def list_ex_iff)
  have open_jobs: "x \<in> set (researchJobs d) \<and> x \<notin> set (j # js)"
    if "x \<in> set (researchJobs d')" "rj_status x = ResearchRUNNING" for x
    using d'(5) former that by auto
  show ?case
    using e(1,6-8) d'(1,2,6-8) status unlocked open_jobs by auto
qed

lemma completeDueResearchJobs_effect:
  assumes "researchOk d" and "0 \<le> t"
  shows "\<exists>d'. completeDueResearchJobs E (IntN t) d = Inr d' \<and> researchOk d' \<and>
    (\<forall>c n. nodeStatus c n d' =
       (if dueFor (dueResearchJobs t d) c n then Some NodeCOMPLETED else nodeStatus c n d)) \<and>
    (\<forall>c r. isUnlocked c r d' \<longleftrightarrow> isUnlocked c r d \<or> unlockedBy d (dueResearchJobs t d) c r) \<and>
    dueResearchJobs t d' = [] \<and>
    companies d' = companies d \<and> inventories d' = inventories d \<and> marketOrders d' = marketOrders d"
proof -
  have dist: "distinct (map rj_id (dueResearchJobs t d))"
    using researchOkD(2) [OF assms(1)] by (simp add: dueResearchJobs_def distinct_map_filter)
  have mem: "j \<in> set (researchJobs d) \<and> rj_status j = ResearchRUNNING" if "j \<in> set (dueResearchJobs t d)" for j
    using that by (simp add: dueResearchJobs_def)
  obtain d' where *: "forEach (completeResearchJob E t d) (dueResearchJobs t d) d = Inr d'" "researchOk d'"
    "\<forall>c n. nodeStatus c n d' =
       (if dueFor (dueResearchJobs t d) c n then Some NodeCOMPLETED else nodeStatus c n d)"
    "\<forall>c r. isUnlocked c r d' \<longleftrightarrow> isUnlocked c r d \<or> unlockedBy d (dueResearchJobs t d) c r"
    "\<forall>j\<in>set (researchJobs d'). rj_status j = ResearchRUNNING \<longrightarrow>
       j \<in> set (researchJobs d) \<and> j \<notin> set (dueResearchJobs t d)"
    "companies d' = companies d" "inventories d' = inventories d" "marketOrders d' = marketOrders d"
    using completeResearchJobs_effect [OF assms(1) dist mem, of E t d] by blast
  have "x \<notin> set (dueResearchJobs t d')" for x
    using *(5) by (auto simp: dueResearchJobs_def)
  then have "dueResearchJobs t d' = []" by (metis last_in_set)
  moreover have "completeDueResearchJobs E (IntN t) d = Inr d'"
    using *(1) assms(2) by (simp add: completeDueResearchJobs_def validateResearchTick_def)
  ultimately show ?thesis using * by blast
qed

text \<open>
  C34. Completing the research due never fails: a node is COMPLETED afterwards exactly when it
  was or a job for it was due, a recipe is unlocked exactly when it was or belongs to a node
  completed now, no due job is left, and the accounts and the order book are untouched.
\<close>

theorem research_completion_exact:
  assumes "researchOk d" and "0 \<le> t" and "marketOk d"
  shows "\<exists>d'. completeDueResearchJobs E (IntN t) d = Inr d' \<and> researchOk d' \<and> marketOk d' \<and>
    (\<forall>c n. nodeStatus c n d' =
       (if dueFor (dueResearchJobs t d) c n then Some NodeCOMPLETED else nodeStatus c n d)) \<and>
    (\<forall>c r. isUnlocked c r d' \<longleftrightarrow> isUnlocked c r d \<or> unlockedBy d (dueResearchJobs t d) c r) \<and>
    dueResearchJobs t d' = []"
  using completeDueResearchJobs_effect [OF assms(1,2), of E] marketOk_same [OF assms(3)] by blast

subsection \<open>Start and cancel\<close>

lemma startResearchWithTx_Inr:
  assumes "startResearchWithTx E input d = Inr (job, d')"
  obtains c node t d1 d2 d3 where
    "findCompany (re_companyId input) d = Some c"
    "rowFind rn_id (re_nodeId input) (researchNodes d) = Some node"
    "checkResearchStart input c node d = Inr ()"
    "d1 = companies_update (rowSet co_id (co_id c)
       (\<lambda>x. x\<lparr>co_cashCents := co_cashCents c - rn_costCashCents node\<rparr>)) d"
    "createResearchJob job d1 = Inr (job, d2)"
    "rj_companyId job = re_companyId input" "rj_nodeId job = re_nodeId input"
    "rj_status job = ResearchRUNNING"
    "\<exists>r t1 t2. upsertCompanyResearch
       (\<lambda>r. r\<lparr>cx_status := NodeRESEARCHING, cx_tickStarted := Some t1, cx_tickCompletes := Some t2\<rparr>)
       \<lparr>cx_id = newId E d2, cx_companyId = re_companyId input, cx_nodeId = re_nodeId input,
        cx_status = NodeRESEARCHING, cx_tickStarted = Some t1, cx_tickCompletes = Some t2\<rparr> d2 = Inr (r, d3)"
    "createLedgerEntry E (re_companyId input) t RESEARCH_PAYMENT (- rn_costCashCents node) 0
       (co_cashCents c - rn_costCashCents node) ''RESEARCH_NODE'' (rn_id node) d3 = Inr d'"
proof -
  from assms obtain t c node r d1 ticks d2 r3 d3 where
    *: "findCompany (re_companyId input) d = Some c"
    "rowFind rn_id (re_nodeId input) (researchNodes d) = Some node"
    "checkResearchStart input c node d = Inr ()"
    "updateCompany (co_id c) (\<lambda>x. x\<lparr>co_cashCents := co_cashCents c - rn_costCashCents node\<rparr>) d = Inr (r, d1)"
    "createResearchJob
           \<lparr>rj_id = newId E d1, rj_companyId = re_companyId input, rj_nodeId = re_nodeId input,
            rj_status = ResearchRUNNING, rj_costCashCents = rn_costCashCents node,
            rj_tickStarted = t, rj_tickCompletes = t + ticks, rj_tickClosed = None,
            rj_createdAt = currentTime E d1\<rparr> d1 = Inr (job, d2)"
    "upsertCompanyResearch
       (\<lambda>r. r\<lparr>cx_status := NodeRESEARCHING, cx_tickStarted := Some t, cx_tickCompletes := Some (t + ticks)\<rparr>)
       \<lparr>cx_id = newId E d2, cx_companyId = re_companyId input, cx_nodeId = re_nodeId input,
        cx_status = NodeRESEARCHING, cx_tickStarted = Some t, cx_tickCompletes = Some (t + ticks)\<rparr> d2 = Inr (r3, d3)"
    "createLedgerEntry E (re_companyId input) t RESEARCH_PAYMENT (- rn_costCashCents node) 0
       (co_cashCents c - rn_costCashCents node) ''RESEARCH_NODE'' (rn_id node) d3 = Inr d'"
    by (auto simp: startResearchWithTx_def andThen_Inr_iff Let_def assertResearchableCompany_def
        simp del: updateRow_Inr createRow_Inr createLedgerEntry_Inr split: option.splits if_splits)
  show thesis
    by (rule that [of c node d1 d2 d3 t]) (use * in \<open>auto simp: createRow_Inr updateRow_Inr\<close>)
qed

lemma checkResearchStart_Inr [result_simps]:
  "checkResearchStart input c node d = Inr u \<longleftrightarrow>
     nodeStatus (re_companyId input) (re_nodeId input) d \<noteq> Some NodeCOMPLETED \<and>
     nodeStatus (re_companyId input) (re_nodeId input) d \<noteq> Some NodeRESEARCHING \<and>
     runningJobs (re_companyId input) (re_nodeId input) d = [] \<and>
     prerequisitesMet (re_companyId input) (rn_id node) d \<and> rn_costCashCents node \<le> co_cashCents c"
  by (auto simp: checkResearchStart_def nodeStatus_def runningJobs_def Let_def find_None_iff2
      find_None_iff filter_empty_conv)

lemma runningJobs_append:
  assumes "researchJobs d' = researchJobs d @ [job]" and "rj_status job = ResearchRUNNING"
  shows "runningJobs c n d' =
    runningJobs c n d @ (if (c, n) = (rj_companyId job, rj_nodeId job) then [job] else [])"
  using assms by (auto simp: runningJobs_def isRunningJob_def)

lemma startResearchWithTx_effect:
  assumes "startResearchWithTx E input d = Inr (job, d')" and "researchOk d"
  shows "\<exists>c node. findCompany (re_companyId input) d = Some c \<and>
    rowFind rn_id (re_nodeId input) (researchNodes d) = Some node \<and>
    checkResearchStart input c node d = Inr () \<and>
    companies d' = rowSet co_id (co_id c)
      (\<lambda>x. x\<lparr>co_cashCents := co_cashCents c - rn_costCashCents node\<rparr>) (companies d) \<and>
    inventories d' = inventories d \<and> marketOrders d' = marketOrders d \<and> researchOk d' \<and>
    (\<forall>k n. nodeStatus k n d' = (if (k, n) = (re_companyId input, re_nodeId input)
       then Some NodeRESEARCHING else nodeStatus k n d))"
proof -
  from startResearchWithTx_Inr [OF assms(1)] obtain c node t d1 d2 d3 r t1 t2 where
    c: "findCompany (re_companyId input) d = Some c" and
    node: "rowFind rn_id (re_nodeId input) (researchNodes d) = Some node" and
    check: "checkResearchStart input c node d = Inr ()" and
    d1: "d1 = companies_update (rowSet co_id (co_id c)
       (\<lambda>x. x\<lparr>co_cashCents := co_cashCents c - rn_costCashCents node\<rparr>)) d" and
    d2: "createResearchJob job d1 = Inr (job, d2)" and
    key: "rj_companyId job = re_companyId input" "rj_nodeId job = re_nodeId input" and
    running: "rj_status job = ResearchRUNNING" and
    d3: "upsertCompanyResearch
       (\<lambda>r. r\<lparr>cx_status := NodeRESEARCHING, cx_tickStarted := Some t1, cx_tickCompletes := Some t2\<rparr>)
       \<lparr>cx_id = newId E d2, cx_companyId = re_companyId input, cx_nodeId = re_nodeId input,
        cx_status = NodeRESEARCHING, cx_tickStarted = Some t1, cx_tickCompletes = Some t2\<rparr> d2 = Inr (r, d3)" and
    d': "createLedgerEntry E (re_companyId input) t RESEARCH_PAYMENT (- rn_costCashCents node) 0
       (co_cashCents c - rn_costCashCents node) ''RESEARCH_NODE'' (rn_id node) d3 = Inr d'"
    by metis
  note e3 = upsertCompanyResearch_effect [OF d3, where s = NodeRESEARCHING, simplified cxKey_def, simplified]
  have jobs2: "researchJobs d2 = researchJobs d @ [job]" "rj_id job \<notin> rj_id ` set (researchJobs d)"
    "companyResearches d2 = companyResearches d" "researchPrerequisites d2 = researchPrerequisites d"
    "inventories d2 = inventories d" "marketOrders d2 = marketOrders d" "companies d2 = companies d1"
    using d2 d1 by (auto simp: createRow_Inr rowFind_None)
  have same: "researchJobs d' = researchJobs d3" "companyResearches d' = companyResearches d3"
    "researchPrerequisites d' = researchPrerequisites d3" "inventories d' = inventories d3"
    "marketOrders d' = marketOrders d3" "companies d' = companies d3"
    using d' by (auto simp: createLedgerEntry_Inr)
  have jobs: "researchJobs d' = researchJobs d @ [job]" using same(1) e3(3) jobs2(1) by simp
  have status: "nodeStatus k n d' = (if (k, n) = (re_companyId input, re_nodeId input)
       then Some NodeRESEARCHING else nodeStatus k n d)" for k n
    using e3(1) [of k n] same(2) jobs2(3) by (simp add: nodeStatus_def)
  have prereq: "prerequisitesOf n d' = prerequisitesOf n d" for n
    using same(3) e3(4) jobs2(4) by (simp add: prerequisitesOf_def)
  have id: "rn_id node = re_nodeId input" by (rule rowFind_key [OF node])
  note start = check [unfolded checkResearchStart_Inr id prerequisitesMet_iff [OF assms(2)]]
  have ok: "researchOk d'"
  proof (rule researchOkI)
    show "distinct (map cxKey (companyResearches d'))"
      using e3(2) researchOkD(1) [OF assms(2)] same(2) jobs2(3) by (simp add: cxKey_def [abs_def])
    show "distinct (map rj_id (researchJobs d'))"
      using researchOkD(2) [OF assms(2)] jobs2(2) by (simp add: jobs)
  next
    fix k n
    show "length (runningJobs k n d') = (if nodeStatus k n d' = Some NodeRESEARCHING then 1 else 0)"
      using runningJobs_append [OF jobs running, of k n] key start status [of k n]
        researchOkD(3) [OF assms(2), of k n]
      by (cases "(k, n) = (re_companyId input, re_nodeId input)") auto
  next
    fix k n p
    assume *: "nodeStatus k n d' = Some NodeRESEARCHING \<or> nodeStatus k n d' = Some NodeCOMPLETED"
      "p \<in> set (prerequisitesOf n d')"
    have "nodeStatus k p d = Some NodeCOMPLETED"
    proof (cases "(k, n) = (re_companyId input, re_nodeId input)")
      case True
      with *(2) start prereq [of n] show ?thesis by auto
    next
      case False
      show ?thesis
        by (rule researchOkD(4) [OF assms(2)]) (use * False status [of k n] prereq [of n] in auto)
    qed
    then show "nodeStatus k p d' = Some NodeCOMPLETED"
      using start status [of k p] by (cases "(k, p) = (re_companyId input, re_nodeId input)") auto
  qed
  have "companies d' = rowSet co_id (co_id c)
      (\<lambda>x. x\<lparr>co_cashCents := co_cashCents c - rn_costCashCents node\<rparr>) (companies d)"
    "inventories d' = inventories d" "marketOrders d' = marketOrders d"
    using same e3 jobs2 d1 by simp_all
  with c node check ok status show ?thesis by blast
qed

lemma cancelResearchWithTx_effect:
  assumes "cancelResearchWithTx E input d = Inr (job, d')" and "researchOk d"
  shows "researchOk d' \<and> companies d' = companies d \<and> inventories d' = inventories d \<and>
    marketOrders d' = marketOrders d \<and>
    nodeStatus (re_companyId input) (re_nodeId input) d = Some NodeRESEARCHING \<and>
    (\<forall>k n. nodeStatus k n d' = (if (k, n) = (re_companyId input, re_nodeId input)
       then Some NodeAVAILABLE else nodeStatus k n d))"
proof -
  from assms(1) obtain j t d1 r0 where
    j: "List.find (isRunningJob (re_companyId input) (re_nodeId input)) (researchJobs d) = Some j" and
    d1: "updateResearchJob (rj_id j) (\<lambda>j. j\<lparr>rj_status := ResearchCANCELLED, rj_tickClosed := Some t\<rparr>) d = Inr (r0, d1)" and
    rest: "\<exists>r. upsertCompanyResearch
       (\<lambda>r. r\<lparr>cx_status := (if prerequisitesMet (re_companyId input) (rj_nodeId j) d1
              then NodeAVAILABLE else NodeLOCKED)\<rparr>)
          \<lparr>cx_id = newId E d1, cx_companyId = re_companyId input, cx_nodeId = re_nodeId input,
           cx_status = (if prerequisitesMet (re_companyId input) (rj_nodeId j) d1
              then NodeAVAILABLE else NodeLOCKED), cx_tickStarted = None, cx_tickCompletes = None\<rparr> d1 = Inr (r, d')"
    by (auto simp: cancelResearchWithTx_def andThen_Inr_iff Let_def
        simp del: updateRow_Inr split: option.splits)
  have mem: "j \<in> set (researchJobs d)" "isRunningJob (re_companyId input) (re_nodeId input) j"
    using j by (auto simp: find_Some_iff)
  then have key: "rj_companyId j = re_companyId input" "rj_nodeId j = re_nodeId input"
    "rj_status j = ResearchRUNNING" by (simp_all add: isRunningJob_def)
  note run = researchOk_running [OF assms(2) mem(1) key(3)]
  have d1': "researchJobs d1 = rowSet rj_id (rj_id j) (\<lambda>j. j\<lparr>rj_status := ResearchCANCELLED, rj_tickClosed := Some t\<rparr>) (researchJobs d)"
    "companyResearches d1 = companyResearches d" "researchPrerequisites d1 = researchPrerequisites d"
    "companies d1 = companies d" "inventories d1 = inventories d" "marketOrders d1 = marketOrders d"
    using d1 by (auto simp: updateRow_Inr)
  have "prerequisitesMet (re_companyId input) (re_nodeId input) d"
    unfolding prerequisitesMet_iff [OF assms(2)]
    using researchOkD(4) [OF assms(2)] run(1) key by metis
  then have "prerequisitesMet (re_companyId input) (rj_nodeId j) d1"
    using d1'(2,3) key by (simp add: prerequisitesMet_def completedNodeIds_def prerequisitesOf_def)
  with rest obtain r where d': "upsertCompanyResearch (\<lambda>r. r\<lparr>cx_status := NodeAVAILABLE\<rparr>)
          \<lparr>cx_id = newId E d1, cx_companyId = re_companyId input, cx_nodeId = re_nodeId input,
           cx_status = NodeAVAILABLE, cx_tickStarted = None, cx_tickCompletes = None\<rparr> d1 = Inr (r, d')"
    by auto
  note e = upsertCompanyResearch_effect [OF d', where s = NodeAVAILABLE, simplified cxKey_def, simplified]
  have status: "nodeStatus k n d' = (if (k, n) = (rj_companyId j, rj_nodeId j)
       then Some NodeAVAILABLE else nodeStatus k n d)" for k n
    using e(1) [of k n] d1'(2) key by (simp add: nodeStatus_def)
  have jobs: "researchJobs d' = rowSet rj_id (rj_id j)
      (\<lambda>j. j\<lparr>rj_status := ResearchCANCELLED, rj_tickClosed := Some t\<rparr>) (researchJobs d)"
    using d1'(1) e(3) by simp
  have "researchOk d'"
    by (rule researchOk_close [OF assms(2) mem(1) key(3) jobs _ _ _ status])
      (use d1' e(2,4) researchOkD(1) [OF assms(2)] in \<open>simp_all add: cxKey_def [abs_def]\<close>)
  then show ?thesis using status run(1) key d1' e(5,6,7) by simp
qed

text \<open>
  Starting research: accepted only with every prerequisite completed and the node neither
  completed nor running; the price leaves the company's cash at once and the node is then
  RESEARCHING with exactly one running job. The accounts stay within their bounds exactly when
  the price did not exceed the cash that is not reserved.
\<close>

theorem start_research_effect:
  assumes "startResearch E input d = (Inr job, d')" and "marketOk d" and "researchOk d"
  shows "\<exists>c node. findCompany (re_companyId input) d = Some c \<and>
    rowFind rn_id (re_nodeId input) (researchNodes d) = Some node \<and>
    (\<forall>p\<in>set (prerequisitesOf (re_nodeId input) d).
       nodeStatus (re_companyId input) p d = Some NodeCOMPLETED) \<and>
    nodeStatus (re_companyId input) (re_nodeId input) d \<notin> {Some NodeCOMPLETED, Some NodeRESEARCHING} \<and>
    nodeStatus (re_companyId input) (re_nodeId input) d' = Some NodeRESEARCHING \<and> researchOk d' \<and>
    totalCash d' = totalCash d - rn_costCashCents node \<and>
    (marketOk d' \<longleftrightarrow> rn_costCashCents node \<le> co_cashCents c - co_reservedCashCents c)"
proof -
  from assms(1) have "startResearchWithTx E input d = Inr (job, d')"
    by (auto simp: startResearch_def transaction_def split: sum.splits)
  from startResearchWithTx_effect [OF this assms(3)] obtain c node where
    c: "findCompany (re_companyId input) d = Some c" and
    node: "rowFind rn_id (re_nodeId input) (researchNodes d) = Some node" and
    check: "checkResearchStart input c node d = Inr ()" and
    rows: "companies d' = rowSet co_id (co_id c)
      (\<lambda>x. x\<lparr>co_cashCents := co_cashCents c - rn_costCashCents node\<rparr>) (companies d)" and
    same: "inventories d' = inventories d" "marketOrders d' = marketOrders d" and
    ok: "researchOk d'" and
    status: "\<forall>k n. nodeStatus k n d' = (if (k, n) = (re_companyId input, re_nodeId input)
       then Some NodeRESEARCHING else nodeStatus k n d)" by blast
  let ?f = "\<lambda>x. x\<lparr>co_cashCents := co_cashCents c - rn_costCashCents node\<rparr>"
  have cid: "co_id c = re_companyId input" by (rule rowFind_key [OF c])
  note bounds = marketOk_company [OF assms(2) c]
  obtain e where e: "updateCompany (co_id c) ?f d = Inr (?f c, e)" "companies e = companies d'"
    "inventories e = inventories d'" "marketOrders e = marketOrders d'"
    using c rows same by (simp add: updateRow_def cid)
  have cash: "totalCash d' = totalCash d - rn_costCashCents node"
    using totalCash_updateCompany [OF e(1) assms(2)] c e(2) by (simp add: totalCash_def cid)
  have "marketOk d'" if "rn_costCashCents node \<le> co_cashCents c - co_reservedCashCents c"
  proof -
    have "marketOk e"
      by (rule marketOk_updateCompany [OF e(1) assms(2)]) (use that bounds in \<open>simp_all add: companyOk_iff\<close>)
    then show ?thesis by (rule marketOk_same) (use e in simp_all)
  qed
  moreover have "rn_costCashCents node \<le> co_cashCents c - co_reservedCashCents c" if "marketOk d'"
  proof -
    have "findCompany (re_companyId input) d' = Some (?f c)" using c by (simp add: rows rowFind_rowSet cid)
    from marketOk_company [OF that this] show ?thesis by simp
  qed
  ultimately show ?thesis
    using c node check ok status cash rowFind_key [OF node]
    by (auto simp: checkResearchStart_Inr prerequisitesMet_iff [OF assms(3)])
qed

subsection \<open>The life cycle\<close>

text \<open>One operation of the service, by anyone, accepted or refused, and the states it reaches.\<close>

inductive researchStep :: "env \<Rightarrow> db \<Rightarrow> db \<Rightarrow> bool" for E where
  start: "researchStep E d (snd (startResearch E input d))"
| cancel: "researchStep E d (snd (cancelResearch E input d))"
| complete: "completeDueResearchJobs E t d = Inr d' \<Longrightarrow> researchStep E d d'"

inductive researchReach :: "env \<Rightarrow> db \<Rightarrow> db \<Rightarrow> bool" for E and d0 where
  initial: "researchReach E d0 d0"
| step: "researchReach E d0 d \<Longrightarrow> researchStep E d d' \<Longrightarrow> researchReach E d0 d'"

definition keepsCompleted :: "db \<Rightarrow> db \<Rightarrow> bool" where
  "keepsCompleted d d' \<longleftrightarrow>
     (\<forall>c n. nodeStatus c n d = Some NodeCOMPLETED \<longrightarrow> nodeStatus c n d' = Some NodeCOMPLETED)"

lemma researchStep_keeps:
  assumes "researchStep E d d'" and "researchOk d"
  shows "researchOk d' \<and> keepsCompleted d d'"
  using assms(1)
proof (cases rule: researchStep.cases)
  case (start input)
  show ?thesis
  proof (cases "startResearch E input d")
    case (Pair r e)
    show ?thesis
    proof (cases "r")
      case (Inl err)
      with Pair start assms(2) show ?thesis
        by (auto simp: startResearch_def transaction_def keepsCompleted_def split: sum.splits)
    next
      case (Inr job)
      with Pair start have "startResearchWithTx E input d = Inr (job, d')"
        by (auto simp: startResearch_def transaction_def split: sum.splits)
      from startResearchWithTx_effect [OF this assms(2)] show ?thesis
        by (auto simp: keepsCompleted_def checkResearchStart_Inr)
    qed
  qed
next
  case (cancel input)
  show ?thesis
  proof (cases "cancelResearch E input d")
    case (Pair r e)
    show ?thesis
    proof (cases "r")
      case (Inl err)
      with Pair cancel assms(2) show ?thesis
        by (auto simp: cancelResearch_def transaction_def keepsCompleted_def split: sum.splits)
    next
      case (Inr job)
      with Pair cancel have "cancelResearchWithTx E input d = Inr (job, d')"
        by (auto simp: cancelResearch_def transaction_def split: sum.splits)
      from cancelResearchWithTx_effect [OF this assms(2)] show ?thesis
        by (auto simp: keepsCompleted_def)
    qed
  qed
next
  case (complete t)
  then have t: "isInteger t" "0 \<le> num t"
    by (auto simp: completeDueResearchJobs_def andThen_Inr_iff validateResearchTick_def split: if_splits)
  then have "completeDueResearchJobs E (IntN (num t)) d = Inr d'" using complete by (cases t) auto
  with completeDueResearchJobs_effect [OF assms(2) t(2), of E] show ?thesis
    by (auto simp: keepsCompleted_def)
qed

text \<open>
  C21. Whatever sequence of starts, cancellations and completions is run from a consistent state,
  a node is RESEARCHING exactly while one job runs for it, a node is started or completed only
  after all its prerequisites, and a completed node stays completed.
\<close>

theorem research_lifecycle:
  assumes "researchReach E d0 d" and "researchOk d0"
  shows "researchOk d \<and> keepsCompleted d0 d"
  using assms
proof (induction rule: researchReach.induct)
  case initial
  then show ?case by (simp add: keepsCompleted_def)
next
  case (step d d')
  then show ?case using researchStep_keeps [OF step.hyps(2)] by (auto simp: keepsCompleted_def)
qed

subsection \<open>The properties at a concrete world\<close>

lemma researchOk_fresh: "companyResearches d = [] \<Longrightarrow> researchJobs d = [] \<Longrightarrow> researchOk d"
  by (rule researchOkI) (simp_all add: nodeStatus_def runningJobs_def)

lemma fixture_researchOk: "researchOk fixtureDb"
  by (rule researchOk_fresh) (simp_all add: fixtureDb_def emptyDb_def)

definition startBasics :: startResearchInput where
  "startBasics = \<lparr>re_companyId = ''a'', re_nodeId = ''n1'', re_tick = None\<rparr>"

definition researchingDb :: db where
  "researchingDb = snd (startResearch fixtureEnv startBasics fixtureDb)"

lemma startBasics_accepted:
  "\<exists>job. startResearch fixtureEnv startBasics fixtureDb = (Inr job, researchingDb)"
proof -
  have "case fst (startResearch fixtureEnv startBasics fixtureDb) of Inl _ \<Rightarrow> False | Inr _ \<Rightarrow> True"
    by code_simp
  then show ?thesis
    by (cases "startResearch fixtureEnv startBasics fixtureDb") (auto simp: researchingDb_def split: sum.splits)
qed

lemma start_research_effect_witness:
  "marketOk researchingDb \<and> nodeStatus ''a'' ''n1'' researchingDb = Some NodeRESEARCHING \<and>
     totalCash researchingDb = totalCash fixtureDb - 1000"
proof -
  from startBasics_accepted obtain job where
    *: "startResearch fixtureEnv startBasics fixtureDb = (Inr job, researchingDb)" by blast
  have "map_option rn_costCashCents (rowFind rn_id ''n1'' (researchNodes fixtureDb)) = Some 1000"
    "map_option (\<lambda>c. co_cashCents c - co_reservedCashCents c) (findCompany ''a'' fixtureDb) = Some 99400"
    by code_simp+
  with start_research_effect [OF * fixture_marketOk fixture_researchOk]
  show ?thesis by (auto simp: startBasics_def)
qed

text \<open>
  The check compares the price with the whole balance: a company whose cash is partly reserved by
  an open buy order starts research it can only pay from the reserved part, and its reserves are
  then no longer covered.
\<close>

definition overdrawnDb :: db where
  "overdrawnDb = fixtureDb\<lparr>companies := [mkCompany ''a'' True ''r1'' 1200 600,
     mkCompany ''b'' False ''r1'' 50000 0]\<rparr>"

lemma research_spends_reserved_cash:
  "marketOk overdrawnDb \<and>
   (case startResearch fixtureEnv startBasics overdrawnDb of
      (Inr job, d') \<Rightarrow> \<not> economyOk d' | (Inl e, d') \<Rightarrow> False)"
proof
  show "marketOk overdrawnDb" by code_simp
  show "case startResearch fixtureEnv startBasics overdrawnDb of
      (Inr job, d') \<Rightarrow> \<not> economyOk d' | (Inl e, d') \<Rightarrow> False" by code_simp
qed

lemma research_completion_exact_witness:
  "\<exists>d'. completeDueResearchJobs fixtureEnv (IntN 50) researchingDb = Inr d' \<and>
     nodeStatus ''a'' ''n1'' d' = Some NodeCOMPLETED \<and> isUnlocked ''a'' ''smelt'' d'"
proof -
  from startBasics_accepted obtain job where
    *: "startResearch fixtureEnv startBasics fixtureDb = (Inr job, researchingDb)" by blast
  then have "startResearchWithTx fixtureEnv startBasics fixtureDb = Inr (job, researchingDb)"
    by (auto simp: startResearch_def transaction_def split: sum.splits)
  then have ok: "researchOk researchingDb"
    using startResearchWithTx_effect fixture_researchOk by blast
  have market: "marketOk researchingDb" by code_simp
  have due: "dueFor (dueResearchJobs 50 researchingDb) ''a'' ''n1''"
    "unlockedBy researchingDb (dueResearchJobs 50 researchingDb) ''a'' ''smelt''"
    by code_simp+
  from research_completion_exact [OF ok _ market, of 50 fixtureEnv] due show ?thesis by auto
qed

lemma research_lifecycle_witness:
  "\<exists>d. researchReach fixtureEnv fixtureDb d \<and> researchOk d \<and>
     nodeStatus ''a'' ''n1'' d = Some NodeCOMPLETED"
proof -
  have reach: "researchReach fixtureEnv fixtureDb researchingDb"
    unfolding researchingDb_def
    by (rule researchReach.step [OF researchReach.initial researchStep.start])
  have completed: "case completeDueResearchJobs fixtureEnv (IntN 50) researchingDb of
      Inl _ \<Rightarrow> False | Inr d \<Rightarrow> nodeStatus ''a'' ''n1'' d = Some NodeCOMPLETED"
    by code_simp
  then obtain d where d: "completeDueResearchJobs fixtureEnv (IntN 50) researchingDb = Inr d"
    "nodeStatus ''a'' ''n1'' d = Some NodeCOMPLETED" by (auto split: sum.splits)
  have "researchReach fixtureEnv fixtureDb d"
    by (rule researchReach.step [OF reach researchStep.complete [OF d(1)]])
  with research_lifecycle [OF this fixture_researchOk] d(2) show ?thesis by blast
qed

text \<open>
  C35. The tree a company is shown agrees with what a start accepts: a node is shown as AVAILABLE
  exactly when the start's checks other than the price pass, as RESEARCHING or COMPLETED exactly
  when that is its state, and as LOCKED otherwise.
\<close>

theorem research_view_agrees:
  assumes "researchOk d" and "re_companyId input = cid" "re_nodeId input = rn_id node"
  shows "(rv_status (viewNode E cid d node) = NodeAVAILABLE \<and> rn_costCashCents node \<le> co_cashCents c \<longleftrightarrow>
      checkResearchStart input c node d = Inr ()) \<and>
    (rv_status (viewNode E cid d node) = NodeRESEARCHING \<longleftrightarrow>
      nodeStatus cid (rn_id node) d = Some NodeRESEARCHING) \<and>
    (rv_status (viewNode E cid d node) = NodeCOMPLETED \<longleftrightarrow>
      nodeStatus cid (rn_id node) d = Some NodeCOMPLETED)"
proof -
  have empty: "runningJobs cid (rn_id node) d = [] \<longleftrightarrow>
      nodeStatus cid (rn_id node) d \<noteq> Some NodeRESEARCHING"
    using researchOkD(3) [OF assms(1), of cid "rn_id node"] by (auto split: if_splits)
  have "List.find (isRunningJob cid (rn_id node)) (rev (researchJobs d)) = None \<longleftrightarrow>
      runningJobs cid (rn_id node) d = []"
    by (auto simp: find_None_iff runningJobs_def filter_empty_conv)
  then have running: "List.find (isRunningJob cid (rn_id node)) (rev (researchJobs d)) \<noteq> None \<longleftrightarrow>
      nodeStatus cid (rn_id node) d = Some NodeRESEARCHING"
    using empty by simp
  show ?thesis
    using running empty assms(2,3) completedNodeIds_iff [OF researchOkD(1) [OF assms(1)], of "rn_id node" cid]
    by (simp add: viewNode_def Let_def checkResearchStart_Inr)
qed

lemma research_view_agrees_witness:
  "rv_status (viewNode fixtureEnv ''a'' fixtureDb (researchNodes fixtureDb ! 0)) = NodeAVAILABLE"
proof -
  let ?node = "researchNodes fixtureDb ! 0"
  have node: "rn_id ?node = ''n1''" "rn_costCashCents ?node = 1000"
    by (simp_all add: fixtureDb_def)
  have "checkResearchStart startBasics (mkCompany ''a'' True ''r1'' 100000 600) ?node fixtureDb = Inr ()"
    by code_simp
  with research_view_agrees [OF fixture_researchOk, of startBasics "''a''" ?node fixtureEnv
      "mkCompany ''a'' True ''r1'' 100000 600"] node show ?thesis
    by (simp add: startBasics_def)
qed

subsection \<open>The stage's contract\<close>

text \<open>What a completion does not touch.\<close>

definition economyTables ::
    "db \<Rightarrow> company list \<times> inventory list \<times> marketOrder list \<times>
     (recipe list \<times> recipeInput list \<times> int list \<times> worldTickState option \<times> simulationTickExecution list \<times>
      simulationControlState option \<times> simulationLease list)" where
  "economyTables d = (companies d, inventories d, marketOrders d, masters d)"

lemma unlockRecipe_frame: "unlockRecipe cid u d = Inr d' \<Longrightarrow> economyTables d' = economyTables d"
  by (auto simp: unlockRecipe_def andThen_Inr_iff upsertRow_def updateRow_Inr createRow_Inr
      economyTables_def masters_def split: option.splits)

lemma completeResearchJob_frame:
  assumes "completeResearchJob E t d0 j d = Inr d'"
  shows "economyTables d' = economyTables d"
proof -
  from assms obtain x e y f where
    e: "updateResearchJob (rj_id j) (\<lambda>j. j\<lparr>rj_status := ResearchCOMPLETED, rj_tickClosed := Some t\<rparr>) d = Inr (x, e)"
    and f: "upsertCompanyResearch (\<lambda>r. r\<lparr>cx_status := NodeCOMPLETED, cx_tickStarted := Some (rj_tickStarted j),
         cx_tickCompletes := Some (rj_tickCompletes j)\<rparr>)
       \<lparr>cx_id = newId E e, cx_companyId = rj_companyId j, cx_nodeId = rj_nodeId j,
        cx_status = NodeCOMPLETED, cx_tickStarted = Some (rj_tickStarted j),
        cx_tickCompletes = Some (rj_tickCompletes j)\<rparr> e = Inr (y, f)"
    and loop: "forEach (unlockRecipe (rj_companyId j))
       (filter (\<lambda>u. nu_nodeId u = rj_nodeId j) (nodeUnlockRecipes d0)) f = Inr d'"
    by (auto simp: completeResearchJob_def andThen_Inr_iff)
  have "economyTables d' = economyTables f"
    by (rule forEach_invariant [OF loop, where P = "\<lambda>x. economyTables x = economyTables f"])
      (simp_all add: unlockRecipe_frame)
  with e f show ?thesis
    by (auto simp: upsertRow_def updateRow_Inr createRow_Inr economyTables_def masters_def split: option.splits)
qed

interpretation researchStage: tick_stage "completeDueResearchJobs E tick" for E tick
proof
  fix d d'
  assume "completeDueResearchJobs E tick d = Inr d'" and ok: "tickOk d"
  then have loop: "forEach (completeResearchJob E (num tick) d) (dueResearchJobs (num tick) d) d = Inr d'"
    by (auto simp: completeDueResearchJobs_def andThen_Inr_iff)
  have "economyTables d' = economyTables d"
    by (rule forEach_invariant [OF loop, where P = "\<lambda>x. economyTables x = economyTables d"])
      (simp_all add: completeResearchJob_frame)
  with ok marketOk_same [of d d'] show "marketOk d' \<and> masters d' = masters d \<and> totalCash d' \<le> totalCash d"
    by (auto simp: economyTables_def tickOk_def totalCash_def)
qed

end
