(* ===== verification/Shipments.thy ===== *)
theory Shipments
  imports Fixture Workforce Buildings MarketOrders
begin

section \<open>Shipments between regions\<close>

text \<open>
  \<open>packages/sim/src/services/shipments.ts\<close>: goods leave the company's region at once, against a
  fee, and arrive after a travel time; a delivery that does not fit at the destination goes back
  to the origin, or is retried when that is full too. \<open>updateMany\<close> whose count is only compared
  with one is \<open>countWhere\<close> and \<open>mapWhere\<close>. The overrides of the fee configuration are two optional
  fields.
\<close>

record shipmentRuntimeConfig =
  baseFeeCents :: int
  feePerUnitCents :: int

record shipmentOverrides =
  over_baseFeeCents :: "int option"
  over_feePerUnitCents :: "int option"

record createShipmentInput =
  cs_companyId :: string
  cs_toRegionId :: string
  cs_itemId :: string
  cs_quantity :: jsnum
  cs_tick :: "jsnum option"

record cancelShipmentInput =
  xs_shipmentId :: string
  xs_tick :: "jsnum option"

record listShipmentsInput =
  ls_playerId :: "string option"
  ls_companyId :: "string option"
  ls_status :: "shipmentStatus option"
  ls_limit :: "jsnum option"

abbreviation "createShipmentRow \<equiv> createRow sh_id shipments shipments_update"

subsection \<open>Fees and travel times\<close>

definition DEFAULT_SHIPMENT_RUNTIME_CONFIG :: shipmentRuntimeConfig where
  "DEFAULT_SHIPMENT_RUNTIME_CONFIG = \<lparr>baseFeeCents = 250, feePerUnitCents = 15\<rparr>"

definition TRAVEL_TIME_BY_REGION_PAIR :: "(string \<times> int) list" where
  "TRAVEL_TIME_BY_REGION_PAIR =
     [(''CORE:INDUSTRIAL'', 5), (''CORE:FRONTIER'', 10), (''FRONTIER:INDUSTRIAL'', 7)]"

definition pairKey :: "env \<Rightarrow> string \<Rightarrow> string \<Rightarrow> string" where
  "pairKey E leftCode rightCode =
     (case sortBy (env_localeCompare E) [leftCode, rightCode] of
       [a, b] \<Rightarrow> a @ '':'' @ b
     | _ \<Rightarrow> [])"

definition ensureTick :: "jsnum \<Rightarrow> string \<Rightarrow> unit result" where
  "ensureTick v fieldName =
     (if \<not> isInteger v \<or> num v < 0
      then Inl (DomainInvariantError (fieldName @ '' must be a non-negative integer'')) else Inr ())"

definition resolveTravelTimeTicks :: "env \<Rightarrow> string \<Rightarrow> string \<Rightarrow> int result" where
  "resolveTravelTimeTicks E fromRegionCode toRegionCode =
     (case map_of TRAVEL_TIME_BY_REGION_PAIR (pairKey E fromRegionCode toRegionCode) of
       None \<Rightarrow> Inl (DomainInvariantError (''unsupported region travel path '' @ fromRegionCode @
                 '' -> '' @ toRegionCode))
     | Some travelTime \<Rightarrow> Inr travelTime)"

definition resolveShipmentRuntimeConfig :: "shipmentOverrides \<Rightarrow> shipmentRuntimeConfig result" where
  "resolveShipmentRuntimeConfig overrides =
     (let base = (case over_baseFeeCents overrides of
            None \<Rightarrow> baseFeeCents DEFAULT_SHIPMENT_RUNTIME_CONFIG | Some b \<Rightarrow> b);
          perUnit = (case over_feePerUnitCents overrides of
            None \<Rightarrow> feePerUnitCents DEFAULT_SHIPMENT_RUNTIME_CONFIG | Some f \<Rightarrow> f) in
      if base < 0 then Inl (DomainInvariantError ''baseFeeCents must be non-negative'')
      else if perUnit < 0 then Inl (DomainInvariantError ''feePerUnitCents must be non-negative'')
      else Inr \<lparr>baseFeeCents = base, feePerUnitCents = perUnit\<rparr>)"

definition computeShipmentFeeCents :: "jsnum \<Rightarrow> shipmentRuntimeConfig \<Rightarrow> int result" where
  "computeShipmentFeeCents n config =
     (if \<not> isInteger n \<or> num n \<le> 0
      then Inl (DomainInvariantError ''quantity must be a positive integer'')
      else Inr (baseFeeCents config + feePerUnitCents config * num n))"

definition resolveShipmentTick :: "jsnum option \<Rightarrow> db \<Rightarrow> int result" where
  "resolveShipmentTick explicitTick d =
     (case explicitTick of
       Some t \<Rightarrow> andThen (ensureTick t ''tick'') (\<lambda>_. Inr (num t))
     | None \<Rightarrow> Inr (worldTick d))"

text \<open>The filter leaves out a criterion that is undefined, and the player when it is empty.\<close>

definition listShipments :: "listShipmentsInput \<Rightarrow> db \<Rightarrow> shipment list result" where
  "listShipments input d =
     (let limit = (case ls_limit input of None \<Rightarrow> IntN 100 | Some n \<Rightarrow> n) in
      if \<not> isInteger limit \<or> num limit < 1 \<or> num limit > 500
      then Inl (DomainInvariantError ''limit must be an integer between 1 and 500'')
      else Inr (take (nat (num limit)) (sortBy (cmpKey (\<lambda>s. - sh_createdAt s))
        (filter (\<lambda>s.
           (case ls_companyId input of None \<Rightarrow> True | Some c \<Rightarrow> sh_companyId s = c) \<and>
           (case ls_playerId input of None \<Rightarrow> True
            | Some p \<Rightarrow> p = [] \<or>
                (case findCompany (sh_companyId s) d of None \<Rightarrow> False
                 | Some c \<Rightarrow> co_ownerPlayerId c = Some p)) \<and>
           (case ls_status input of None \<Rightarrow> True | Some st \<Rightarrow> sh_status s = st))
         (shipments d)))))"

subsection \<open>Creation\<close>

definition validateShipmentInput :: "createShipmentInput \<Rightarrow> unit result" where
  "validateShipmentInput input =
     (if cs_companyId input = [] then Inl (DomainInvariantError ''companyId is required'')
      else if cs_toRegionId input = [] then Inl (DomainInvariantError ''toRegionId is required'')
      else if cs_itemId input = [] then Inl (DomainInvariantError ''itemId is required'')
      else if \<not> isInteger (cs_quantity input) \<or> num (cs_quantity input) \<le> 0
        then Inl (DomainInvariantError ''quantity must be a positive integer'')
      else Inr ())"

definition checkShipmentAccess :: "createShipmentInput \<Rightarrow> company \<Rightarrow> item \<Rightarrow> db \<Rightarrow> unit result" where
  "checkShipmentAccess input company item d =
     (if \<not> co_isPlayer company then Inr ()
      else
        (let unlockedIconTier = resolvePlayerUnlockedIconTierFromResearchCodes
               (completedResearchCodes (cs_companyId input) d) in
         if isItemCodeLockedByIconTier (it_code item) unlockedIconTier
           then Inl (DomainInvariantError (''item '' @ cs_itemId input @
                  '' is not unlocked for company '' @ cs_companyId input))
         else if isItemCodeLockedBySpecialization (it_code item) (co_specialization company)
           then Inl (DomainInvariantError (''item '' @ cs_itemId input @
                  '' is not available for company specialization''))
         else Inr ()))"

definition shipmentTravelTime :: "env \<Rightarrow> company \<Rightarrow> region \<Rightarrow> region \<Rightarrow> int result" where
  "shipmentTravelTime E company fromRegion toRegion =
     andThen (resolveTravelTimeTicks E (rg_code fromRegion) (rg_code toRegion)) (\<lambda>base.
     andThen (resolveWorkforceRuntimeModifiers (workforceState company) id) (\<lambda>m.
     applyDurationMultiplierTicks (IntN base) (IntN (logisticsTravelMultiplierBps m))))"

text \<open>The writes: the goods leave the origin, the fee the balance, the row and its entry appear.\<close>

definition dispatchShipment ::
    "env \<Rightarrow> createShipmentInput \<Rightarrow> company \<Rightarrow> region \<Rightarrow> region \<Rightarrow> int \<Rightarrow> int \<Rightarrow> int \<Rightarrow> inventory \<Rightarrow> db \<Rightarrow>
     (shipment \<times> db) result" where
  "dispatchShipment E input company fromRegion toRegion tick travelTimeTicks feeCents fromInventory d =
     (let cashAfterFee = co_cashCents company - feeCents in
      andThen (updateExactlyOne inventories inventories_update
        (\<lambda>r. invKey r = invKey fromInventory \<and> inv_quantity r = inv_quantity fromInventory \<and>
           inv_reservedQuantity r = inv_reservedQuantity fromInventory)
        (\<lambda>r. r\<lparr>inv_quantity := inv_quantity r - num (cs_quantity input)\<rparr>)
        ''inventory changed during shipment creation; retry operation'' d) (\<lambda>d.
      andThen (updateExactlyOne companies companies_update
        (\<lambda>c. co_id c = co_id company \<and> co_cashCents c = co_cashCents company \<and>
           co_reservedCashCents c = co_reservedCashCents company)
        (\<lambda>c. c\<lparr>co_cashCents := cashAfterFee\<rparr>)
        ''company changed during shipment creation; retry operation'' d) (\<lambda>d.
      andThen (createShipmentRow
        \<lparr>sh_id = newId E d, sh_companyId = co_id company, sh_fromRegionId = rg_id fromRegion,
         sh_toRegionId = rg_id toRegion, sh_itemId = cs_itemId input,
         sh_quantity = num (cs_quantity input), sh_status = ShipmentIN_TRANSIT,
         sh_tickCreated = tick, sh_tickArrives = tick + travelTimeTicks, sh_tickClosed = None,
         sh_createdAt = currentTime E d\<rparr> d) (\<lambda>(shipment, d).
      andThen (createLedgerEntry E (co_id company) tick SHIPMENT_FEE (- feeCents) 0 cashAfterFee
        ''SHIPMENT_CREATE'' (sh_id shipment) d) (\<lambda>d.
      Inr (shipment, d))))))"

definition sendShipment ::
    "env \<Rightarrow> createShipmentInput \<Rightarrow> shipmentRuntimeConfig \<Rightarrow> int \<Rightarrow> company \<Rightarrow> region \<Rightarrow> region \<Rightarrow> db \<Rightarrow>
     (shipment \<times> db) result" where
  "sendShipment E input config tick company fromRegion toRegion d =
     andThen (shipmentTravelTime E company fromRegion toRegion) (\<lambda>travelTimeTicks.
     andThen (computeShipmentFeeCents (cs_quantity input) config) (\<lambda>feeCents.
     (case findInventory (co_id company) (cs_itemId input) (rg_id fromRegion) d of
       None \<Rightarrow> Inl (DomainInvariantError (''company '' @ co_id company @
                 '' has no inventory row for item '' @ cs_itemId input @ '' in region '' @
                 rg_code fromRegion))
     | Some fromInventory \<Rightarrow>
       if inv_quantity fromInventory - inv_reservedQuantity fromInventory < num (cs_quantity input)
         then Inl (DomainInvariantError ''insufficient available inventory for shipment'')
       else if co_cashCents company - feeCents < 0 \<or>
            co_cashCents company - feeCents < co_reservedCashCents company
         then Inl (DomainInvariantError ''insufficient available cash for shipment fee'')
       else dispatchShipment E input company fromRegion toRegion tick travelTimeTicks feeCents
              fromInventory d)))"

definition createShipmentWithTx ::
    "env \<Rightarrow> createShipmentInput \<Rightarrow> shipmentOverrides \<Rightarrow> db \<Rightarrow> (shipment \<times> db) result" where
  "createShipmentWithTx E input overrides d =
     andThen (validateShipmentInput input) (\<lambda>_.
     andThen (resolveShipmentTick (cs_tick input) d) (\<lambda>tick.
     andThen (resolveShipmentRuntimeConfig overrides) (\<lambda>config.
     (case findCompany (cs_companyId input) d of
       None \<Rightarrow> Inl (NotFoundError (''company '' @ cs_companyId input @ '' not found''))
     | Some company \<Rightarrow>
     (case rowFind rg_id (cs_toRegionId input) (regions d) of
       None \<Rightarrow> Inl (NotFoundError (''region '' @ cs_toRegionId input @ '' not found''))
     | Some toRegion \<Rightarrow>
     (case findItem (cs_itemId input) d of
       None \<Rightarrow> Inl (NotFoundError (''item '' @ cs_itemId input @ '' not found''))
     | Some item \<Rightarrow>
       andThen (checkShipmentAccess input company item d) (\<lambda>_.
       if co_regionId company = rg_id toRegion
         then Inl (DomainInvariantError ''toRegionId must differ from company region'')
       else
         (case rowFind rg_id (co_regionId company) (regions d) of
           None \<Rightarrow> Inl (NotFoundError (''region '' @ co_regionId company @ '' not found''))
         | Some fromRegion \<Rightarrow> sendShipment E input config tick company fromRegion toRegion d))))))))"

definition createShipment ::
    "env \<Rightarrow> createShipmentInput \<Rightarrow> shipmentOverrides \<Rightarrow> db \<Rightarrow> shipment result \<times> db" where
  "createShipment E input overrides d = transaction (createShipmentWithTx E input overrides) d"

subsection \<open>Cancellation\<close>

definition cancelShipmentWithTx :: "cancelShipmentInput \<Rightarrow> db \<Rightarrow> (shipment \<times> db) result" where
  "cancelShipmentWithTx input d =
     (if xs_shipmentId input = [] then Inl (DomainInvariantError ''shipmentId is required'')
      else
        andThen (resolveShipmentTick (xs_tick input) d) (\<lambda>tick.
        (case rowFind sh_id (xs_shipmentId input) (shipments d) of
          None \<Rightarrow> Inl (NotFoundError (''shipment '' @ xs_shipmentId input @ '' not found''))
        | Some shipment \<Rightarrow>
          if sh_status shipment \<noteq> ShipmentIN_TRANSIT then Inr (shipment, d)
          else
            andThen (updateExactlyOne shipments shipments_update
              (\<lambda>s. sh_id s = sh_id shipment \<and> sh_status s = ShipmentIN_TRANSIT)
              (\<lambda>s. s\<lparr>sh_status := ShipmentCANCELLED, sh_tickClosed := Some tick\<rparr>)
              ''shipment changed during cancel; retry operation'' d) (\<lambda>d.
            andThen (upsertInventory (sh_companyId shipment) (sh_itemId shipment)
              (sh_fromRegionId shipment)
              (\<lambda>r. r\<lparr>inv_quantity := inv_quantity r + sh_quantity shipment\<rparr>)
              (sh_quantity shipment) 0 d) (\<lambda>(_, d).
            (case rowFind sh_id (sh_id shipment) (shipments d) of
              None \<Rightarrow> Inl (NotFoundError (''shipment '' @ xs_shipmentId input @ '' not found''))
            | Some cancelled \<Rightarrow> Inr (cancelled, d)))))))"

definition cancelShipment :: "cancelShipmentInput \<Rightarrow> db \<Rightarrow> shipment result \<times> db" where
  "cancelShipment input d = transaction (cancelShipmentWithTx input) d"

subsection \<open>Delivery\<close>

record deliveryCounts =
  deliveredCount :: int
  returnedCount :: int

text \<open>Where a shipment goes: the region and whether it is the destination, or nowhere for now.\<close>

definition deliveryTarget :: "shipment \<Rightarrow> db \<Rightarrow> (string \<times> bool) option result" where
  "deliveryTarget s d =
     (case validateStorageCapacity (sh_companyId s) (sh_toRegionId s) (IntN (sh_quantity s)) d of
       Inr _ \<Rightarrow> Inr (Some (sh_toRegionId s, True))
     | Inl e \<Rightarrow>
         if isDomainInvariantError e \<and> strIncludes (errorMessage e) ''storage capacity exceeded''
         then
           (case validateStorageCapacity (sh_companyId s) (sh_fromRegionId s)
               (IntN (sh_quantity s)) d of
             Inr _ \<Rightarrow> Inr (Some (sh_fromRegionId s, False))
           | Inl _ \<Rightarrow> Inr None)
         else Inl e)"

definition deliverShipment ::
    "int \<Rightarrow> shipment \<Rightarrow> deliveryCounts \<times> db \<Rightarrow> (deliveryCounts \<times> db) result" where
  "deliverShipment tick s = (\<lambda>(counts, d).
     andThen (deliveryTarget s d) (\<lambda>target.
     (case target of
       None \<Rightarrow> Inr (counts, d)
     | Some (destinationRegionId, deliveredToDestination) \<Rightarrow>
       (let counts = (if deliveredToDestination then counts
              else counts\<lparr>returnedCount := returnedCount counts + 1\<rparr>);
            open_row = (\<lambda>r. sh_id r = sh_id s \<and> sh_status r = ShipmentIN_TRANSIT);
            updated = countWhere open_row (shipments d);
            d = shipments_update (mapWhere open_row
              (\<lambda>r. r\<lparr>sh_status := ShipmentDELIVERED, sh_tickClosed := Some tick\<rparr>)) d in
        if updated \<noteq> 1 then Inr (counts, d)
        else
          andThen (upsertInventory (sh_companyId s) (sh_itemId s) destinationRegionId
            (\<lambda>r. r\<lparr>inv_quantity := inv_quantity r + sh_quantity s\<rparr>) (sh_quantity s) 0 d) (\<lambda>(_, d).
          Inr (if deliveredToDestination
               then counts\<lparr>deliveredCount := deliveredCount counts + 1\<rparr> else counts, d))))))"

definition dueShipments :: "int \<Rightarrow> db \<Rightarrow> shipment list" where
  "dueShipments tick d =
     sortBy (cmpThen (cmpKey sh_tickArrives) (cmpKey sh_tickCreated))
       (filter (\<lambda>s. sh_status s = ShipmentIN_TRANSIT \<and> sh_tickArrives s \<le> tick) (shipments d))"

definition deliverDueShipmentsForTick :: "jsnum \<Rightarrow> db \<Rightarrow> (deliveryCounts \<times> db) result" where
  "deliverDueShipmentsForTick tick d =
     andThen (ensureTick tick ''tick'') (\<lambda>_.
     forEach (deliverShipment (num tick)) (dueShipments (num tick) d)
       (\<lparr>deliveredCount = 0, returnedCount = 0\<rparr>, d))"

subsection \<open>Goods on hand and in transit\<close>

definition inTransit :: "string \<Rightarrow> db \<Rightarrow> int" where
  "inTransit iid d = (\<Sum>s\<leftarrow>shipments d.
     if sh_status s = ShipmentIN_TRANSIT \<and> sh_itemId s = iid then sh_quantity s else 0)"

definition goods :: "string \<Rightarrow> db \<Rightarrow> int" where
  "goods iid d = itemStock iid d + inTransit iid d"

definition shipmentOk :: "shipment \<Rightarrow> bool" where
  "shipmentOk s \<longleftrightarrow> 0 \<le> sh_quantity s \<and> sh_companyId s \<noteq> [] \<and> sh_toRegionId s \<noteq> []"

abbreviation "shipmentsOk d \<equiv> rowsOk sh_id shipmentOk (shipments d)"

text \<open>Closing a shipment in transit takes its goods out of transit.\<close>

lemma inTransit_close:
  assumes "shipmentsOk d" and "s \<in> set (shipments d)" and "sh_status s = ShipmentIN_TRANSIT"
    and "shipments d' = rowSet sh_id (sh_id s) f (shipments d)"
    and "sh_itemId (f s) = sh_itemId s" and "sh_status (f s) \<noteq> ShipmentIN_TRANSIT"
  shows "inTransit iid d' = inTransit iid d - (if sh_itemId s = iid then sh_quantity s else 0)"
  using sum_rowSet [OF rowsOk_distinct [OF assms(1)]
      rowFind_unique [OF rowsOk_distinct [OF assms(1)] assms(2)], of
      "\<lambda>s. if sh_status s = ShipmentIN_TRANSIT \<and> sh_itemId s = iid then sh_quantity s else 0" f]
    assms(3-6)
  by (auto simp: inTransit_def)

subsection \<open>Creation and cancellation\<close>

lemma shipmentTravelTime_bounds:
  assumes "shipmentTravelTime E c r1 r2 = Inr t"
  shows "5 \<le> t \<and> t \<le> 10"
proof -
  from assms obtain base m where base: "base = 5 \<or> base = 10 \<or> base = 7" and
    m: "resolveWorkforceRuntimeModifiers (workforceState c) id = Inr m" and
    t: "applyDurationMultiplierTicks (IntN base) (IntN (logisticsTravelMultiplierBps m)) = Inr t"
    by (auto simp: shipmentTravelTime_def andThen_Inr_iff resolveTravelTimeTicks_def
        TRAVEL_TIME_BY_REGION_PAIR_def split: option.splits if_splits)
  have "8900 \<le> logisticsTravelMultiplierBps m"
    using modifiers_bounds [OF m default_config] by (simp add: DEFAULT_WORKFORCE_RUNTIME_CONFIG_def)
  then show ?thesis using base t by (auto simp: applyDuration_iff)
qed

lemma createShipmentWithTx_Inr:
  assumes "createShipmentWithTx E input overrides d = Inr (s, d')"
  obtains c toR fromR config tick t fee r where
    "findCompany (cs_companyId input) d = Some c"
    "rowFind rg_id (cs_toRegionId input) (regions d) = Some toR"
    "isInteger (cs_quantity input)" "0 < num (cs_quantity input)"
    "cs_companyId input \<noteq> []" "cs_toRegionId input \<noteq> []"
    "resolveShipmentRuntimeConfig overrides = Inr config"
    "fee = baseFeeCents config + feePerUnitCents config * num (cs_quantity input)"
    "5 \<le> t" "t \<le> 10" "rg_id fromR = co_regionId c"
    "findInventory (co_id c) (cs_itemId input) (co_regionId c) d = Some r"
    "num (cs_quantity input) \<le> inv_quantity r - inv_reservedQuantity r"
    "fee \<le> co_cashCents c - co_reservedCashCents c"
    "dispatchShipment E input c fromR toR tick t fee r d = Inr (s, d')"
    "resolveShipmentTick (cs_tick input) d = Inr tick"
proof -
  from assms obtain tick config c toR fromR where *:
    "validateShipmentInput input = Inr ()" "resolveShipmentTick (cs_tick input) d = Inr tick"
    "resolveShipmentRuntimeConfig overrides = Inr config"
    "findCompany (cs_companyId input) d = Some c"
    "rowFind rg_id (cs_toRegionId input) (regions d) = Some toR"
    "rowFind rg_id (co_regionId c) (regions d) = Some fromR"
    and send: "sendShipment E input config tick c fromR toR d = Inr (s, d')"
    by (auto simp: createShipmentWithTx_def andThen_Inr_iff branch_Inr)
  from send obtain t fee r where **:
    "shipmentTravelTime E c fromR toR = Inr t"
    "computeShipmentFeeCents (cs_quantity input) config = Inr fee"
    "findInventory (co_id c) (cs_itemId input) (rg_id fromR) d = Some r"
    "\<not> inv_quantity r - inv_reservedQuantity r < num (cs_quantity input)"
    "\<not> co_cashCents c - fee < co_reservedCashCents c"
    "dispatchShipment E input c fromR toR tick t fee r d = Inr (s, d')"
    by (auto simp: sendShipment_def andThen_Inr_iff branch_Inr)
  have q: "isInteger (cs_quantity input)" "0 < num (cs_quantity input)" "cs_companyId input \<noteq> []"
    "cs_toRegionId input \<noteq> []"
    using *(1) by (auto simp: validateShipmentInput_def split: if_splits)
  have fee: "fee = baseFeeCents config + feePerUnitCents config * num (cs_quantity input)"
    using **(2) q by (auto simp: computeShipmentFeeCents_def)
  have region: "rg_id fromR = co_regionId c" by (rule rowFind_key [OF *(6)])
  show thesis
    by (rule that [OF *(4,5) q *(3) fee _ _ region _ _ _ **(6) *(2)])
      (use shipmentTravelTime_bounds [OF **(1)] **(3-5) region in auto)
qed

lemma dispatchShipment_Inr:
  assumes "dispatchShipment E input c fromR toR tick t fee r d = Inr (s, d')"
    and "marketOk d" and "findCompany cid d = Some c" and "rowFind invKey k (inventories d) = Some r"
  shows "\<exists>d1 d2 d3 c' r'. updateInventory k (\<lambda>r. r\<lparr>inv_quantity := inv_quantity r - num (cs_quantity input)\<rparr>) d = Inr (r', d1) \<and>
    updateCompany cid (\<lambda>x. x\<lparr>co_cashCents := co_cashCents c - fee\<rparr>) d1 = Inr (c', d2) \<and>
    createShipmentRow s d2 = Inr (s, d3) \<and> companies d' = companies d3 \<and>
    inventories d' = inventories d3 \<and> marketOrders d' = marketOrders d3 \<and> shipments d' = shipments d3 \<and>
    worldTickRow d' = worldTickRow d \<and>
    s = \<lparr>sh_id = sh_id s, sh_companyId = cid, sh_fromRegionId = rg_id fromR,
       sh_toRegionId = rg_id toR, sh_itemId = cs_itemId input, sh_quantity = num (cs_quantity input),
       sh_status = ShipmentIN_TRANSIT, sh_tickCreated = tick, sh_tickArrives = tick + t,
       sh_tickClosed = None, sh_createdAt = sh_createdAt s\<rparr>"
proof -
  have keys: "invKey r = k" "co_id c = cid" using rowFind_key assms(3,4) by metis+
  let ?P = "\<lambda>x. invKey x = invKey r \<and> inv_quantity x = inv_quantity r \<and>
     inv_reservedQuantity x = inv_reservedQuantity r"
  let ?Q = "\<lambda>x. co_id x = co_id c \<and> co_cashCents x = co_cashCents c \<and>
     co_reservedCashCents x = co_reservedCashCents c"
  from assms(1) obtain d1 d2 d3 where
    d1: "updateExactlyOne inventories inventories_update ?P
        (\<lambda>r. r\<lparr>inv_quantity := inv_quantity r - num (cs_quantity input)\<rparr>)
        ''inventory changed during shipment creation; retry operation'' d = Inr d1" and
    d2: "updateExactlyOne companies companies_update ?Q
        (\<lambda>x. x\<lparr>co_cashCents := co_cashCents c - fee\<rparr>)
        ''company changed during shipment creation; retry operation'' d1 = Inr d2" and
    d3: "createShipmentRow
        \<lparr>sh_id = newId E d2, sh_companyId = co_id c, sh_fromRegionId = rg_id fromR,
         sh_toRegionId = rg_id toR, sh_itemId = cs_itemId input,
         sh_quantity = num (cs_quantity input), sh_status = ShipmentIN_TRANSIT,
         sh_tickCreated = tick, sh_tickArrives = tick + t, sh_tickClosed = None,
         sh_createdAt = currentTime E d2\<rparr> d2 = Inr (s, d3)" and
    d4: "createLedgerEntry E (co_id c) tick SHIPMENT_FEE (- fee) 0 (co_cashCents c - fee)
        ''SHIPMENT_CREATE'' (sh_id s) d3 = Inr d'"
    by (auto simp: dispatchShipment_def andThen_Inr_iff Let_def)
  have inv_ok: "distinct (map invKey (inventories d))" and co_ok: "distinct (map co_id (companies d))"
    using rowsOk_distinct economyOk_inventories economyOk_companies marketOkD(1) [OF assms(2)] by blast+
  have P: "\<And>x. ?P x \<Longrightarrow> invKey x = k" and Q: "\<And>x. ?Q x \<Longrightarrow> co_id x = cid" by (simp_all add: keys)
  obtain r' where step1: "updateInventory k
      (\<lambda>r. r\<lparr>inv_quantity := inv_quantity r - num (cs_quantity input)\<rparr>) d = Inr (r', d1)"
    using inventory.exactlyOne_update [OF d1 inv_ok P] by blast
  have same1: "companies d1 = companies d" "worldTickRow d1 = worldTickRow d" using step1 by (auto simp: updateRow_Inr)
  obtain c' where step2: "updateCompany cid (\<lambda>x. x\<lparr>co_cashCents := co_cashCents c - fee\<rparr>) d1 = Inr (c', d2)"
    using company.exactlyOne_update [OF d2 _ Q] co_ok same1 by auto
  have step3: "createShipmentRow s d2 = Inr (s, d3) \<and>
      s = \<lparr>sh_id = sh_id s, sh_companyId = cid, sh_fromRegionId = rg_id fromR,
       sh_toRegionId = rg_id toR, sh_itemId = cs_itemId input, sh_quantity = num (cs_quantity input),
       sh_status = ShipmentIN_TRANSIT, sh_tickCreated = tick, sh_tickArrives = tick + t,
       sh_tickClosed = None, sh_createdAt = sh_createdAt s\<rparr>"
    using d3 by (auto simp: createRow_Inr keys)
  have step4: "companies d' = companies d3 \<and> inventories d' = inventories d3 \<and>
      marketOrders d' = marketOrders d3 \<and> shipments d' = shipments d3 \<and> worldTickRow d' = worldTickRow d"
    using d4 d3 step2 same1 by (auto simp: createLedgerEntry_Inr createRow_Inr updateRow_Inr)
  show ?thesis using step1 step2 step3 step4 by blast
qed

text \<open>
  An accepted shipment: goods leave the company's free stock for transit, none appears or is
  lost, exactly the fee leaves the company's free cash, the travel time is 5 to 10 ticks, and
  the market's invariant and that of the shipments hold afterwards.
\<close>

theorem shipment_creation_exact:
  assumes "createShipmentWithTx E input overrides d = Inr (s, d')"
    and "marketOk d" and "shipmentsOk d"
  shows "marketOk d' \<and> shipmentsOk d' \<and> goods iid d' = goods iid d \<and>
    (\<exists>config. resolveShipmentRuntimeConfig overrides = Inr config \<and>
       totalCash d' = totalCash d - (baseFeeCents config + feePerUnitCents config * sh_quantity s)) \<and>
    0 < sh_quantity s \<and> sh_status s = ShipmentIN_TRANSIT \<and>
    sh_tickCreated s + 5 \<le> sh_tickArrives s \<and> sh_tickArrives s \<le> sh_tickCreated s + 10"
proof -
  from createShipmentWithTx_Inr [OF assms(1)] obtain c toR fromR config tick t fee r where
    c: "findCompany (cs_companyId input) d = Some c" and
    toR: "rowFind rg_id (cs_toRegionId input) (regions d) = Some toR" and
    q: "0 < num (cs_quantity input)" "cs_companyId input \<noteq> []" "cs_toRegionId input \<noteq> []" and
    config: "resolveShipmentRuntimeConfig overrides = Inr config" and
    fee: "fee = baseFeeCents config + feePerUnitCents config * num (cs_quantity input)" and
    t: "5 \<le> t" "t \<le> 10" and
    r: "findInventory (co_id c) (cs_itemId input) (co_regionId c) d = Some r" and
    free: "num (cs_quantity input) \<le> inv_quantity r - inv_reservedQuantity r"
      "fee \<le> co_cashCents c - co_reservedCashCents c" and
    run: "dispatchShipment E input c fromR toR tick t fee r d = Inr (s, d')" by metis
  let ?k = "(co_id c, cs_itemId input, co_regionId c)"
  let ?f = "\<lambda>r. r\<lparr>inv_quantity := inv_quantity r - num (cs_quantity input)\<rparr>"
  let ?g = "\<lambda>x. x\<lparr>co_cashCents := co_cashCents c - fee\<rparr>"
  have cid: "co_id c = cs_companyId input" by (rule rowFind_key [OF c])
  from dispatchShipment_Inr [OF run assms(2) c r] obtain d1 d2 d3 c' r' where
    d1: "updateInventory ?k ?f d = Inr (r', d1)" and
    d2: "updateCompany (cs_companyId input) ?g d1 = Inr (c', d2)" and
    d3: "createShipmentRow s d2 = Inr (s, d3)" and
    same: "companies d' = companies d3" "inventories d' = inventories d3"
      "marketOrders d' = marketOrders d3" "shipments d' = shipments d3" and
    s: "s = \<lparr>sh_id = sh_id s, sh_companyId = cs_companyId input, sh_fromRegionId = rg_id fromR,
       sh_toRegionId = rg_id toR, sh_itemId = cs_itemId input, sh_quantity = num (cs_quantity input),
       sh_status = ShipmentIN_TRANSIT, sh_tickCreated = tick, sh_tickArrives = tick + t,
       sh_tickClosed = None, sh_createdAt = sh_createdAt s\<rparr>" by blast
  have r': "r' = ?f r" "c' = ?g c" "companies d1 = companies d" "inventories d2 = inventories d1"
    "shipments d2 = shipments d" "shipments d3 = shipments d @ [s]" "companies d3 = companies d2"
    "inventories d3 = inventories d2" "marketOrders d3 = marketOrders d2"
    using d1 d2 d3 r c by (auto simp: updateRow_Inr createRow_Inr)
  have m1: "marketOk d1"
    by (rule marketOk_updateInventory [OF d1 assms(2)])
      (use r'(1) free(1) q(1) marketOk_inventory [OF assms(2) r] in \<open>simp_all add: invKey_def inventoryOk_iff\<close>)
  have m2: "marketOk d2"
    by (rule marketOk_updateCompany [OF d2 m1])
      (use r'(2,3) c free(2) marketOk_company [OF assms(2) c] in \<open>simp_all add: companyOk_iff\<close>)
  have market: "marketOk d'" by (rule marketOk_same [OF m2]) (use same r' in simp_all)
  have sq: "sh_quantity s = num (cs_quantity input)" "sh_itemId s = cs_itemId input"
    "sh_status s = ShipmentIN_TRANSIT" "sh_tickCreated s = tick" "sh_tickArrives s = tick + t"
    "sh_companyId s = cs_companyId input" "sh_toRegionId s = rg_id toR"
    by (subst s, simp)+
  have "shipmentOk s" using q rowFind_key [OF toR] by (simp add: shipmentOk_def sq)
  moreover have "rowFind sh_id (sh_id s) (shipments d) = None" using d3 r'(5) by (simp add: createRow_Inr)
  ultimately have ships: "shipmentsOk d'"
    using rowsOk_append [OF assms(3)] same(4) r'(6) by simp
  have cash: "totalCash d' = totalCash d - fee"
    using totalCash_updateCompany [OF d2 m1, of c] c r'(3,7) same(1) by (simp add: totalCash_def)
  have stock: "itemStock iid d' = itemStock iid d - (if cs_itemId input = iid then num (cs_quantity input) else 0)"
    using itemStock_updateInventory [OF d1 marketOkD(1) [OF assms(2)] r, of iid] r'(4,8) same(2)
    by (simp add: itemStock_def invKey_def)
  have "inTransit iid d' = inTransit iid d + (if cs_itemId input = iid then num (cs_quantity input) else 0)"
    using r'(6) same(4) sq by (simp add: inTransit_def)
  with stock have "goods iid d' = goods iid d" by (simp add: goods_def)
  then show ?thesis using market ships cash config fee t q(1) sq by simp
qed

text \<open>
  C31. Cancelling a shipment that has just been created returns: every inventory row is again as
  before the creation, and only the fee stays spent.
\<close>

theorem cancel_undoes_shipment:
  assumes "createShipmentWithTx E input overrides d = Inr (s, d1)" and "marketOk d" and "sh_id s \<noteq> []"
  shows "\<exists>s' d2. cancelShipmentWithTx \<lparr>xs_shipmentId = sh_id s, xs_tick = None\<rparr> d1 = Inr (s', d2) \<and>
    sh_status s' = ShipmentCANCELLED \<and> inventories d2 = inventories d \<and> companies d2 = companies d1"
proof -
  from createShipmentWithTx_Inr [OF assms(1)] obtain c toR fromR config tick t fee r where
    c: "findCompany (cs_companyId input) d = Some c" and
    region: "rg_id fromR = co_regionId c" and
    r: "findInventory (co_id c) (cs_itemId input) (co_regionId c) d = Some r" and
    run: "dispatchShipment E input c fromR toR tick t fee r d = Inr (s, d1)" by metis
  let ?k = "(co_id c, cs_itemId input, co_regionId c)" and ?q = "num (cs_quantity input)"
  let ?f = "\<lambda>r. r\<lparr>inv_quantity := inv_quantity r - ?q\<rparr>"
  have cid: "co_id c = cs_companyId input" by (rule rowFind_key [OF c])
  from dispatchShipment_Inr [OF run assms(2) c r] obtain e1 e2 e3 c' r' where
    e1: "updateInventory ?k ?f d = Inr (r', e1)" and
    e2: "updateCompany (cs_companyId input) (\<lambda>x. x\<lparr>co_cashCents := co_cashCents c - fee\<rparr>) e1 = Inr (c', e2)" and
    e3: "createShipmentRow s e2 = Inr (s, e3)" and
    same: "inventories d1 = inventories e3" "shipments d1 = shipments e3" and
    s: "s = \<lparr>sh_id = sh_id s, sh_companyId = cs_companyId input, sh_fromRegionId = rg_id fromR,
       sh_toRegionId = rg_id toR, sh_itemId = cs_itemId input, sh_quantity = ?q,
       sh_status = ShipmentIN_TRANSIT, sh_tickCreated = tick, sh_tickArrives = tick + t,
       sh_tickClosed = None, sh_createdAt = sh_createdAt s\<rparr>" by blast
  have sq: "sh_quantity s = ?q" "sh_itemId s = cs_itemId input" "sh_status s = ShipmentIN_TRANSIT"
    "sh_companyId s = cs_companyId input" "sh_fromRegionId s = co_regionId c"
    by (subst s, simp add: region)+
  have inv: "inventories d1 = rowSet invKey ?k ?f (inventories d)"
    using e1 e2 e3 same(1) by (auto simp: updateRow_Inr createRow_Inr)
  have key: "\<And>r. invKey (?f r) = invKey r" by (simp add: invKey_def)
  have found: "rowFind sh_id (sh_id s) (shipments d1) = Some s"
    using e3 same(2) by (auto simp: createRow_Inr rowFind_append)
  have absent: "sh_id s \<notin> sh_id ` set (shipments e2)" and rows: "shipments d1 = shipments e2 @ [s]"
    using e3 same(2) by (auto simp: createRow_Inr rowFind_None)
  let ?P = "\<lambda>x. sh_id x = sh_id s \<and> sh_status x = ShipmentIN_TRANSIT"
  let ?g = "\<lambda>x. x\<lparr>sh_status := ShipmentCANCELLED, sh_tickClosed := Some (worldTick d1)\<rparr>"
  have other: "\<And>x. x \<in> set (shipments e2) \<Longrightarrow> sh_id x \<noteq> sh_id s" using absent by (metis image_eqI)
  then have "filter ?P (shipments e2) = []" by (auto simp: filter_empty_conv)
  then have one: "countWhere ?P (shipments d1) = 1" by (simp add: countWhere_def rows sq)
  let ?e = "shipments_update (mapWhere ?P ?g) d1"
  have "updateExactlyOne shipments shipments_update ?P ?g
      ''shipment changed during cancel; retry operation'' d1 = Inr ?e"
    using one by (simp add: updateExactlyOne_def)
  moreover have "findInventory (sh_companyId s) (sh_itemId s) (sh_fromRegionId s) ?e = Some (?f r)"
    using r cid by (simp add: sq inv rowFind_rowSet [of invKey ?f, OF key])
  moreover have "rowSet invKey ?k (\<lambda>r. r\<lparr>inv_quantity := inv_quantity r + ?q\<rparr>) (inventories d1) = inventories d"
    by (simp add: inv rowSet_rowSet [of invKey ?f, OF key] rowSet_id)
  moreover have "rowFind sh_id (sh_id s) (shipments ?e) = Some (?g s)"
  proof -
    have "mapWhere ?P ?g (shipments e2) = shipments e2" by (rule mapWhere_absent) (use other in auto)
    moreover have "rowFind sh_id (sh_id s) (shipments e2) = None" using absent by (simp add: rowFind_None)
    ultimately show ?thesis by (simp add: rows mapWhere_def rowFind_append sq)
  qed
  ultimately show ?thesis
    using assms(3) found
    by (simp add: cancelShipmentWithTx_def resolveShipmentTick_def sq upsertInventory_def updateRow_def cid)
qed

subsection \<open>Delivery never fails\<close>

definition fits :: "shipment \<Rightarrow> string \<Rightarrow> db \<Rightarrow> bool" where
  "fits s regionId d =
     returns (validateStorageCapacity (sh_companyId s) regionId (IntN (sh_quantity s)) d)"

definition stuck :: "shipment \<Rightarrow> db \<Rightarrow> bool" where
  "stuck s d \<longleftrightarrow> \<not> fits s (sh_toRegionId s) d \<and> \<not> fits s (sh_fromRegionId s) d"

definition openShipments :: "db \<Rightarrow> int" where
  "openShipments d = (\<Sum>s\<leftarrow>shipments d. if sh_status s = ShipmentIN_TRANSIT then 1 else 0)"

definition storageLimit :: "string \<Rightarrow> string \<Rightarrow> db \<Rightarrow> int" where
  "storageLimit c r d = 1000 + 500 * warehouses c r d"

definition deliveredRow :: "int \<Rightarrow> shipment \<Rightarrow> shipment" where
  "deliveredRow t s = s\<lparr>sh_status := ShipmentDELIVERED, sh_tickClosed := Some t\<rparr>"

lemma deliveredRow_simps [simp]:
  "sh_id (deliveredRow t s) = sh_id s" "sh_status (deliveredRow t s) = ShipmentDELIVERED"
  "sh_itemId (deliveredRow t s) = sh_itemId s" "shipmentOk (deliveredRow t s) = shipmentOk s"
  by (simp_all add: deliveredRow_def shipmentOk_def)

lemma fits_iff:
  "fits s r d \<longleftrightarrow> sh_companyId s \<noteq> [] \<and> r \<noteq> [] \<and> 0 \<le> sh_quantity s \<and>
     regionStock (sh_companyId s) r d + sh_quantity s \<le> storageLimit (sh_companyId s) r d"
  by (simp add: fits_def returns_iff validateStorageCapacity_iff storageLimit_def)

lemma stuck_mono:
  assumes "stuck s d" and "buildings d' = buildings d" and "\<And>c r. regionStock c r d \<le> regionStock c r d'"
  shows "stuck s d'"
proof -
  have "storageLimit c r d' = storageLimit c r d" for c r
    by (simp add: storageLimit_def warehouses_def assms(2))
  then show ?thesis
    using assms(1) assms(3) [of "sh_companyId s" "sh_toRegionId s"]
      assms(3) [of "sh_companyId s" "sh_fromRegionId s"]
    by (auto simp: stuck_def fits_iff)
qed

lemma storage_error:
  assumes "validateStorageCapacity c r (IntN q) d = Inl e" and "c \<noteq> []" "r \<noteq> []" "0 \<le> q"
  shows "isDomainInvariantError e \<and> strIncludes (errorMessage e) ''storage capacity exceeded''"
proof -
  have capacity: "calculateRegionalStorageCapacity (IntN (warehouses c r d))
      (IntN WAREHOUSE_CAPACITY_PER_SLOT) (IntN BASE_STORAGE_CAPACITY_PER_REGION) = Inr (storageLimit c r d)"
    by (simp add: calculateRegionalStorageCapacity_def storageLimit_def warehouses_def countWhere_def
        WAREHOUSE_CAPACITY_PER_SLOT_def BASE_STORAGE_CAPACITY_PER_REGION_def)
  obtain rest where "e = DomainInvariantError (''storage capacity exceeded'' @ rest)"
  proof
    show "e = DomainInvariantError (''storage capacity exceeded'' @ ('': current='' @
        showInt (regionStock c r d) @ '', adding='' @ showInt q @ '', capacity='' @ showInt (storageLimit c r d)))"
      using assms by (simp add: validateStorageCapacity_def Let_def capacity split: if_splits)
  qed
  then show ?thesis by (simp add: strIncludes_def)
qed

lemma deliveryTarget_eq:
  assumes "shipmentOk s"
  shows "deliveryTarget s d = Inr
    (if fits s (sh_toRegionId s) d then Some (sh_toRegionId s, True)
     else if fits s (sh_fromRegionId s) d then Some (sh_fromRegionId s, False) else None)"
  using assms storage_error [of "sh_companyId s" "sh_toRegionId s" "sh_quantity s" d]
  by (auto simp: deliveryTarget_def fits_def shipmentOk_def split: sum.splits)

lemma regionStock_stockWhere:
  "regionStock c r d = stockWhere (\<lambda>k. fst k = c \<and> snd (snd k) = r) d"
  by (simp add: regionStock_def stockWhere_def sum_list_filter_if invKey_def)

text \<open>One delivery: to the region it fits in, or not at all.\<close>

lemma deliverShipment_effect:
  assumes "marketOk d" and "shipmentsOk d"
    and "s \<in> set (shipments d)" and "sh_status s = ShipmentIN_TRANSIT"
  shows "\<exists>n' d'. deliverShipment t s (n, d) = Inr (n', d') \<and> marketOk d' \<and> shipmentsOk d' \<and>
    (\<forall>i. goods i d' = goods i d) \<and> companies d' = companies d \<and> buildings d' = buildings d \<and>
    (\<forall>c r. regionStock c r d \<le> regionStock c r d' \<and>
       regionStock c r d' \<le> max (regionStock c r d) (storageLimit c r d)) \<and>
    (shipments d' = rowSet sh_id (sh_id s) (deliveredRow t) (shipments d) \<and>
       deliveredCount n' + returnedCount n' = deliveredCount n + returnedCount n + 1 \<or>
     d' = d \<and> n' = n \<and> stuck s d)"
proof -
  have ok: "shipmentOk s" using assms(2,3) by (auto simp: rowsOk_def)
  note target = deliveryTarget_eq [OF ok, of d]
  show ?thesis
  proof (cases "stuck s d")
    case True
    then have "deliverShipment t s (n, d) = Inr (n, d)"
      by (simp add: deliverShipment_def target stuck_def)
    with True assms(1,2) show ?thesis
      by (intro exI [of _ n] exI [of _ d]) simp
  next
    case False
    then obtain dest b where dest: "deliveryTarget s d = Inr (Some (dest, b))" "fits s dest d"
      by (cases "fits s (sh_toRegionId s) d") (auto simp: stuck_def target)
    let ?P = "\<lambda>r. sh_id r = sh_id s \<and> sh_status r = ShipmentIN_TRANSIT"
    have find: "rowFind sh_id (sh_id s) (shipments d) = Some s"
      by (rule rowFind_unique [OF rowsOk_distinct [OF assms(2)] assms(3)])
    have one: "countWhere ?P (shipments d) = 1"
      using countWhere_found [OF rowsOk_distinct [OF assms(2)] _ find, of ?P] assms(4) by simp
    have rows: "mapWhere ?P (deliveredRow t) (shipments d) =
        rowSet sh_id (sh_id s) (deliveredRow t) (shipments d)"
      by (rule mapWhere_rowSet [OF rowsOk_distinct [OF assms(2)] _ one, of "sh_id s" "deliveredRow t"]) simp_all
    let ?d1 = "shipments_update (mapWhere ?P (deliveredRow t)) d"
    let ?q = "sh_quantity s"
    obtain r d' where up: "upsertInventory (sh_companyId s) (sh_itemId s) dest
        (\<lambda>r. r\<lparr>inv_quantity := inv_quantity r + ?q\<rparr>) ?q 0 ?d1 = Inr (r, d')"
      using upsertInventory_returns by blast
    have frame: "companies d' = companies d" "buildings d' = buildings d"
      "shipments d' = rowSet sh_id (sh_id s) (deliveredRow t) (shipments d)"
      by (rule upsertInventory_frame [OF up]; simp add: rows)+
    have q: "0 \<le> ?q" using ok by (simp add: shipmentOk_def)
    have m1: "marketOk ?d1" by (rule marketOk_same [OF assms(1)]) simp_all
    have market: "marketOk d'" by (rule marketOk_addStock [OF up m1 q])
    have ships: "shipmentsOk d'"
      unfolding frame(3) by (rule rowsOk_rowSet [OF assms(2) find]) (simp_all add: ok)
    have key: "\<And>r. invKey (r\<lparr>inv_quantity := inv_quantity r + ?q\<rparr>) = invKey r" by (simp add: invKey_def)
    have stock: "stockWhere P d' = stockWhere P d + (if P (sh_companyId s, sh_itemId s, dest) then ?q else 0)" for P
      using stockWhere_upsertInventory [OF up marketOkD(1) [OF m1] key, of P]
      by (simp add: stockWhere_same [of ?d1 d])
    have transit: "inTransit i d' = inTransit i d - (if sh_itemId s = i then ?q else 0)" for i
      by (rule inTransit_close [OF assms(2-4) frame(3)]) simp_all
    have goods: "goods i d' = goods i d" for i
      using stock [of "\<lambda>k. fst (snd k) = i"] transit [of i] by (simp add: goods_def itemStock_stockWhere)
    have region: "regionStock c r d \<le> regionStock c r d' \<and>
        regionStock c r d' \<le> max (regionStock c r d) (storageLimit c r d)" for c r
      using stock [of "\<lambda>k. fst k = c \<and> snd (snd k) = r"] dest(2) q
      by (auto simp: regionStock_stockWhere fits_iff)
    have "\<exists>n'. deliverShipment t s (n, d) = Inr (n', d') \<and>
        deliveredCount n' + returnedCount n' = deliveredCount n + returnedCount n + 1"
      using dest(1) one up
      by (cases b) (simp_all add: deliverShipment_def deliveredRow_def [abs_def] Let_def)
    with market ships goods frame region show ?thesis by blast
  qed
qed

lemma deliverShipments_effect:
  assumes "marketOk d" and "shipmentsOk d" and "distinct (map sh_id js)"
    and "\<And>s. s \<in> set js \<Longrightarrow> s \<in> set (shipments d) \<and> sh_status s = ShipmentIN_TRANSIT"
  shows "\<exists>n' d'. forEach (deliverShipment t) js (n, d) = Inr (n', d') \<and> marketOk d' \<and> shipmentsOk d' \<and>
    (\<forall>i. goods i d' = goods i d) \<and> companies d' = companies d \<and> buildings d' = buildings d \<and>
    (\<forall>c r. regionStock c r d \<le> regionStock c r d' \<and>
       regionStock c r d' \<le> max (regionStock c r d) (storageLimit c r d)) \<and>
    (\<forall>x\<in>set (shipments d'). sh_status x = ShipmentIN_TRANSIT \<longrightarrow>
       x \<in> set (shipments d) \<and> (x \<in> set js \<longrightarrow> stuck x d')) \<and>
    deliveredCount n' + returnedCount n' + openShipments d' =
      deliveredCount n + returnedCount n + openShipments d"
  using assms
proof (induction js arbitrary: n d)
  case Nil
  then show ?case by (intro exI [of _ n] exI [of _ d]) simp
next
  case (Cons j js)
  have j: "j \<in> set (shipments d)" "sh_status j = ShipmentIN_TRANSIT" using Cons.prems(4) by auto
  from deliverShipment_effect [OF Cons.prems(1,2) j, of t n] obtain m e where
    e: "deliverShipment t j (n, d) = Inr (m, e)" "marketOk e" "shipmentsOk e"
      "\<And>i. goods i e = goods i d" "companies e = companies d" "buildings e = buildings d"
      "\<And>c r. regionStock c r d \<le> regionStock c r e \<and>
         regionStock c r e \<le> max (regionStock c r d) (storageLimit c r d)" and
    step: "shipments e = rowSet sh_id (sh_id j) (deliveredRow t) (shipments d) \<and>
       deliveredCount m + returnedCount m = deliveredCount n + returnedCount n + 1 \<or>
     e = d \<and> m = n \<and> stuck j d" by blast
  have limit: "storageLimit c r e = storageLimit c r d" for c r
    by (simp add: storageLimit_def warehouses_def e(6))
  have others: "x \<in> set (shipments e)" if "x \<in> set (shipments d)" "sh_id x \<noteq> sh_id j" for x
    using step that by (auto simp: rowSet_def)
  have was: "x \<in> set (shipments d) \<and> (x = j \<longrightarrow> stuck j d)"
    if "x \<in> set (shipments e)" "sh_status x = ShipmentIN_TRANSIT" for x
    using step
  proof
    assume "shipments e = rowSet sh_id (sh_id j) (deliveredRow t) (shipments d) \<and>
       deliveredCount m + returnedCount m = deliveredCount n + returnedCount n + 1"
    with that(1) obtain y where y: "y \<in> set (shipments d)"
      "x = (if sh_id y = sh_id j then deliveredRow t y else y)" by (auto simp: rowSet_def)
    have "sh_id y \<noteq> sh_id j" using y(2) that(2) by (metis deliveredRow_simps(2) shipmentStatus.distinct(1))
    with y show ?thesis by (metis (full_types))
  qed (use that in simp)
  have counts: "deliveredCount m + returnedCount m + openShipments e =
      deliveredCount n + returnedCount n + openShipments d"
    using step sum_rowSet [OF rowsOk_distinct [OF Cons.prems(2)]
        rowFind_unique [OF rowsOk_distinct [OF Cons.prems(2)] j(1)], of
        "\<lambda>s. if sh_status s = ShipmentIN_TRANSIT then 1 else 0" "deliveredRow t"] j(2)
    by (auto simp: openShipments_def)
  have rest: "x \<in> set (shipments e) \<and> sh_status x = ShipmentIN_TRANSIT" if "x \<in> set js" for x
  proof -
    have "sh_id j \<notin> sh_id ` set js" using Cons.prems(3) by simp
    with that have "sh_id x \<noteq> sh_id j" by (metis image_eqI)
    then show ?thesis using Cons.prems(4) [of x] that others [of x] by simp
  qed
  from Cons.IH [OF e(2,3) _ rest, of m] Cons.prems(3) obtain n' d' where
    d': "forEach (deliverShipment t) js (m, e) = Inr (n', d')" "marketOk d'" "shipmentsOk d'"
      "\<And>i. goods i d' = goods i e" "companies d' = companies e" "buildings d' = buildings e"
      "\<And>c r. regionStock c r e \<le> regionStock c r d' \<and>
         regionStock c r d' \<le> max (regionStock c r e) (storageLimit c r e)"
      "\<And>x. x \<in> set (shipments d') \<Longrightarrow> sh_status x = ShipmentIN_TRANSIT \<Longrightarrow>
         x \<in> set (shipments e) \<and> (x \<in> set js \<longrightarrow> stuck x d')"
      "deliveredCount n' + returnedCount n' + openShipments d' =
        deliveredCount m + returnedCount m + openShipments e" by auto
  have mono: "regionStock c r d \<le> regionStock c r d'" for c r
    using e(7) [of c r] d'(7) [of c r] by linarith
  have stays: "stuck j d' " if "stuck j d"
    by (rule stuck_mono [OF that _ mono]) (simp add: d'(6) e(6))
  have region: "regionStock c r d' \<le> max (regionStock c r d) (storageLimit c r d)" for c r
    using e(7) [of c r] d'(7) [of c r] limit [of c r] by linarith
  have left: "x \<in> set (shipments d) \<and> (x \<in> set (j # js) \<longrightarrow> stuck x d')"
    if "x \<in> set (shipments d')" "sh_status x = ShipmentIN_TRANSIT" for x
    using d'(8) [OF that] was [of x] that(2) stays by auto
  show ?case
    using e(1,4,5,6) d'(1-6,9) counts mono region left
    by (intro exI [of _ n'] exI [of _ d']) auto
qed

text \<open>
  C18. Delivery never fails: the pass over the due shipments always returns, keeps the market's
  invariant and every balance, neither creates nor loses goods, fills no region beyond the
  larger of its previous stock and its capacity, counts exactly the shipments it closes, and
  leaves a due shipment in transit only when it fits neither at its destination nor at its origin.
\<close>

theorem delivery_never_fails:
  assumes "marketOk d" and "shipmentsOk d" and "0 \<le> t"
  shows "\<exists>n d'. deliverDueShipmentsForTick (IntN t) d = Inr (n, d') \<and> marketOk d' \<and> shipmentsOk d' \<and>
    companies d' = companies d \<and> (\<forall>i. goods i d' = goods i d) \<and>
    (\<forall>c r. regionStock c r d' \<le> max (regionStock c r d) (storageLimit c r d)) \<and>
    deliveredCount n + returnedCount n = openShipments d - openShipments d' \<and>
    (\<forall>s\<in>set (dueShipments t d'). stuck s d')"
proof -
  have dist: "distinct (map sh_id (dueShipments t d))"
    using rowsOk_distinct [OF assms(2)] by (simp add: dueShipments_def distinct_map_filter)
  have mem: "s \<in> set (shipments d) \<and> sh_status s = ShipmentIN_TRANSIT" if "s \<in> set (dueShipments t d)" for s
    using that by (simp add: dueShipments_def)
  from deliverShipments_effect [OF assms(1,2) dist mem, of t "\<lparr>deliveredCount = 0, returnedCount = 0\<rparr>"]
  obtain n d' where *: "forEach (deliverShipment t) (dueShipments t d)
      (\<lparr>deliveredCount = 0, returnedCount = 0\<rparr>, d) = Inr (n, d')" "marketOk d'" "shipmentsOk d'"
    "\<And>i. goods i d' = goods i d" "companies d' = companies d"
    "\<And>c r. regionStock c r d' \<le> max (regionStock c r d) (storageLimit c r d)"
    "\<And>x. x \<in> set (shipments d') \<Longrightarrow> sh_status x = ShipmentIN_TRANSIT \<Longrightarrow>
       x \<in> set (shipments d) \<and> (x \<in> set (dueShipments t d) \<longrightarrow> stuck x d')"
    "deliveredCount n + returnedCount n = openShipments d - openShipments d'"
    by fastforce
  have "deliverDueShipmentsForTick (IntN t) d = Inr (n, d')"
    using *(1) assms(3) by (simp add: deliverDueShipmentsForTick_def ensureTick_def)
  moreover have "stuck s d'" if "s \<in> set (dueShipments t d')" for s
    using *(7) [of s] that by (simp add: dueShipments_def)
  ultimately show ?thesis using *(2-6,8) by blast
qed

subsection \<open>The properties at a concrete world\<close>

definition sendOre :: createShipmentInput where
  "sendOre = \<lparr>cs_companyId = ''b'', cs_toRegionId = ''r2'', cs_itemId = ''ore'', cs_quantity = IntN 5,
     cs_tick = None\<rparr>"

definition noOverrides :: shipmentOverrides where
  "noOverrides = \<lparr>over_baseFeeCents = None, over_feePerUnitCents = None\<rparr>"

definition shippedDb :: db where
  "shippedDb = snd (createShipment fixtureEnv sendOre noOverrides fixtureDb)"

lemma sendOre_accepted:
  "\<exists>s. createShipmentWithTx fixtureEnv sendOre noOverrides fixtureDb = Inr (s, shippedDb) \<and> sh_id s = ''id0''"
proof -
  have "case createShipmentWithTx fixtureEnv sendOre noOverrides fixtureDb of
      Inl _ \<Rightarrow> False | Inr (s, d) \<Rightarrow> sh_id s = ''id0''" by code_simp
  then show ?thesis
    by (cases "createShipmentWithTx fixtureEnv sendOre noOverrides fixtureDb")
      (auto simp: shippedDb_def createShipment_def transaction_def)
qed

lemma fixture_shipmentsOk: "shipmentsOk fixtureDb"
  by code_simp

lemma shipment_creation_exact_witness:
  "marketOk shippedDb \<and> goods ''ore'' shippedDb = goods ''ore'' fixtureDb \<and>
     totalCash shippedDb < totalCash fixtureDb"
proof -
  from sendOre_accepted obtain s where
    *: "createShipmentWithTx fixtureEnv sendOre noOverrides fixtureDb = Inr (s, shippedDb)" by blast
  have "resolveShipmentRuntimeConfig noOverrides = Inr \<lparr>baseFeeCents = 250, feePerUnitCents = 15\<rparr>"
    by code_simp
  with shipment_creation_exact [OF * fixture_marketOk fixture_shipmentsOk, of "''ore''"]
  show ?thesis by auto
qed

lemma cancel_undoes_shipment_witness:
  "\<exists>s d2. cancelShipmentWithTx \<lparr>xs_shipmentId = ''id0'', xs_tick = None\<rparr> shippedDb = Inr (s, d2) \<and>
     inventories d2 = inventories fixtureDb"
proof -
  from sendOre_accepted obtain s where
    *: "createShipmentWithTx fixtureEnv sendOre noOverrides fixtureDb = Inr (s, shippedDb)" "sh_id s = ''id0''" by blast
  from cancel_undoes_shipment [OF *(1) fixture_marketOk] *(2) show ?thesis by auto
qed

lemma delivery_never_fails_witness:
  "\<exists>n d'. deliverDueShipmentsForTick (IntN 20) shippedDb = Inr (n, d') \<and> deliveredCount n + returnedCount n = 1"
proof -
  have ok: "marketOk shippedDb" "shipmentsOk shippedDb" by code_simp+
  have "case deliverDueShipmentsForTick (IntN 20) shippedDb of
      Inl _ \<Rightarrow> False | Inr (n, d') \<Rightarrow> openShipments shippedDb = 1 \<and> openShipments d' = 0" by code_simp
  with delivery_never_fails [OF ok, of 20] show ?thesis by (auto split: sum.splits)
qed

subsection \<open>The stage's contract\<close>

lemma upsertInventory_masters: "upsertInventory cid iid rid f q r d = Inr (x, d') \<Longrightarrow> masters d' = masters d"
  by (auto simp: upsertInventory_def updateRow_Inr createRow_Inr masters_def split: option.splits)

lemma upsertInventory_companies:
  "upsertInventory cid iid rid f q r d = Inr (x, d') \<Longrightarrow> companies d' = companies d"
  by (auto simp: upsertInventory_def updateRow_Inr createRow_Inr split: option.splits)

lemma deliveryTarget_nonneg: "deliveryTarget s d = Inr (Some t) \<Longrightarrow> 0 \<le> sh_quantity s"
  by (auto simp: deliveryTarget_def validateStorageCapacity_iff split: sum.splits if_splits)

lemma deliverShipment_frame:
  assumes "deliverShipment t s (n, d) = Inr (n', d')" and "marketOk d"
  shows "marketOk d' \<and> masters d' = masters d \<and> companies d' = companies d"
proof -
  let ?open = "\<lambda>r. sh_id r = sh_id s \<and> sh_status r = ShipmentIN_TRANSIT"
  let ?e = "shipments_update (mapWhere ?open
      (\<lambda>r. r\<lparr>sh_status := ShipmentDELIVERED, sh_tickClosed := Some t\<rparr>)) d"
  have e: "marketOk ?e" "masters ?e = masters d" "companies ?e = companies d"
    using marketOk_same [OF assms(2), of ?e] by (simp_all add: masters_def)
  from assms(1) obtain tg where tg: "deliveryTarget s d = Inr tg"
    by (auto simp: deliverShipment_def andThen_Inr_iff)
  have "d' = d \<or> d' = ?e \<or>
    (\<exists>rid x. 0 \<le> sh_quantity s \<and> upsertInventory (sh_companyId s) (sh_itemId s) rid
       (\<lambda>r. r\<lparr>inv_quantity := inv_quantity r + sh_quantity s\<rparr>) (sh_quantity s) 0 ?e = Inr (x, d'))"
  proof (cases tg)
    case None
    with assms(1) tg show ?thesis by (simp add: deliverShipment_def)
  next
    case (Some z)
    obtain rid b where z: "z = (rid, b)" by (cases z)
    have nn: "0 \<le> sh_quantity s" by (rule deliveryTarget_nonneg) (use tg Some in simp)
    show ?thesis
    proof (cases "countWhere ?open (shipments d) = 1")
      case False
      with assms(1) tg Some z show ?thesis by (simp add: deliverShipment_def Let_def)
    next
      case True
      with assms(1) tg Some z obtain x where "upsertInventory (sh_companyId s) (sh_itemId s) rid
       (\<lambda>r. r\<lparr>inv_quantity := inv_quantity r + sh_quantity s\<rparr>) (sh_quantity s) 0 ?e = Inr (x, d')"
        by (auto simp: deliverShipment_def Let_def andThen_Inr_iff)
      with nn show ?thesis by blast
    qed
  qed
  then consider "d' = d" | "d' = ?e" | rid x where "0 \<le> sh_quantity s"
    "upsertInventory (sh_companyId s) (sh_itemId s) rid
       (\<lambda>r. r\<lparr>inv_quantity := inv_quantity r + sh_quantity s\<rparr>) (sh_quantity s) 0 ?e = Inr (x, d')" by blast
  then show ?thesis
  proof cases
    case 3
    with e marketOk_addStock [OF 3(2) e(1)] upsertInventory_masters [OF 3(2)] upsertInventory_companies [OF 3(2)]
    show ?thesis by simp
  qed (use assms(2) e in simp_all)
qed

interpretation deliveryStage: tick_stage "\<lambda>d. effectOf (deliverDueShipmentsForTick tick d)" for tick
proof
  fix d d'
  assume "effectOf (deliverDueShipmentsForTick tick d) = Inr d'" and ok: "tickOk d"
  then obtain n where loop: "forEach (deliverShipment (num tick)) (dueShipments (num tick) d)
       (\<lparr>deliveredCount = 0, returnedCount = 0\<rparr>, d) = Inr (n, d')"
    by (auto simp: effectOf_Inr deliverDueShipmentsForTick_def andThen_Inr_iff)
  have "(\<lambda>(n, e). marketOk e \<and> masters e = masters d \<and> companies e = companies d) (n, d')"
    by (rule forEach_invariant [OF loop, where
        P = "\<lambda>(n, e). marketOk e \<and> masters e = masters d \<and> companies e = companies d"])
      (use ok deliverShipment_frame in \<open>fastforce simp: tickOk_def\<close>)+
  then show "marketOk d' \<and> masters d' = masters d \<and> totalCash d' \<le> totalCash d"
    by (simp add: totalCash_def)
qed

end
