(* ===== verification/Contracts.thy ===== *)
theory Contracts
  imports Production Fixture
begin

section \<open>Contracts with companies of the simulation\<close>

text \<open>
  \<open>packages/sim/src/services/contracts.ts\<close>: at each tick contracts of bot companies as buyers are
  generated at a price near the recent average, a seller accepts one and delivers it in one or
  more parts, and open or accepted contracts expire. The last part states the life cycle as an
  abstract automaton the handlers follow.
\<close>

record contractLifecycleConfig =
  contractsPerTick :: int
  ttlTicks :: int
  itemCodes :: "string list option"
  priceBandBps :: int

record contractOverrides =
  oc_contractsPerTick :: "jsnum option"
  oc_ttlTicks :: "jsnum option"
  oc_itemCodes :: "string list option"
  oc_priceBandBps :: "jsnum option"

record listContractsInput =
  lc_playerId :: string
  lc_status :: "contractStatus option"
  lc_itemId :: "string option"
  lc_limit :: "jsnum option"

record acceptContractInput =
  ac_contractId :: string
  ac_sellerCompanyId :: string
  ac_tick :: "jsnum option"

record fulfillContractInput =
  fc_contractId :: string
  fc_sellerCompanyId :: string
  fc_quantity :: jsnum
  fc_tick :: "jsnum option"

abbreviation "findContract cid d \<equiv> rowFind ct_id cid (contracts d)"
abbreviation "createContractRow \<equiv> createRow ct_id contracts contracts_update"
abbreviation "createFulfillmentRow \<equiv> createRow cf_id contractFulfillments contractFulfillments_update"

subsection \<open>Configuration, prices and quantities\<close>

definition FALLBACK_PRICE_CENTS_BY_ITEM_CODE :: "(string \<times> int) list" where
  "FALLBACK_PRICE_CENTS_BY_ITEM_CODE =
     [(''IRON_ORE'', 80), (''COAL'', 55), (''COPPER_ORE'', 95), (''IRON_INGOT'', 200),
      (''COPPER_INGOT'', 245), (''HAND_TOOLS'', 350), (''STEEL_INGOT'', 430),
      (''STEEL_BEAM'', 940), (''FASTENERS'', 150), (''MACHINE_PARTS'', 1250),
      (''TOOL_KIT'', 2100), (''POWER_UNIT'', 2550), (''CONVEYOR_MODULE'', 4250),
      (''INDUSTRIAL_PRESS'', 11500), (''SYNTHETIC_CONDUIT'', 520), (''BIOCELL_CANISTER'', 780),
      (''SERVO_DRIVE'', 1450), (''OPTIC_MODULE'', 1820), (''NEURAL_INTERFACE'', 3600),
      (''SPINAL_LINK'', 7600), (''OCULAR_IMPLANT'', 8200), (''CYBER_ARMATURE'', 9400),
      (''CYBERNETIC_SUITE'', 24000)]"

definition FALLBACK_QUANTITY_BY_ITEM_CODE :: "(string \<times> int) list" where
  "FALLBACK_QUANTITY_BY_ITEM_CODE =
     [(''IRON_ORE'', 24), (''COAL'', 24), (''COPPER_ORE'', 18), (''IRON_INGOT'', 12),
      (''COPPER_INGOT'', 10), (''HAND_TOOLS'', 5), (''STEEL_INGOT'', 8), (''STEEL_BEAM'', 4),
      (''FASTENERS'', 20), (''MACHINE_PARTS'', 3), (''TOOL_KIT'', 2), (''POWER_UNIT'', 2),
      (''CONVEYOR_MODULE'', 1), (''INDUSTRIAL_PRESS'', 1), (''SYNTHETIC_CONDUIT'', 8),
      (''BIOCELL_CANISTER'', 6), (''SERVO_DRIVE'', 4), (''OPTIC_MODULE'', 4),
      (''NEURAL_INTERFACE'', 2), (''SPINAL_LINK'', 2), (''OCULAR_IMPLANT'', 2),
      (''CYBER_ARMATURE'', 2), (''CYBERNETIC_SUITE'', 1)]"

definition DEFAULT_CONTRACT_LIFECYCLE_CONFIG :: contractLifecycleConfig where
  "DEFAULT_CONTRACT_LIFECYCLE_CONFIG =
     \<lparr>contractsPerTick = 2, ttlTicks = 50, itemCodes = None, priceBandBps = 500\<rparr>"

definition normalizeItemCodes :: "env \<Rightarrow> string list option \<Rightarrow> string list option" where
  "normalizeItemCodes E codes =
     (case codes of
       None \<Rightarrow> None
     | Some entries \<Rightarrow>
       (let normalized = filter (\<lambda>entry. entry \<noteq> []) (map trim entries) in
        if normalized = [] then None
        else Some (sortBy (env_localeCompare E) (nubFirst normalized))))"

definition resolveContractLifecycleConfig ::
    "env \<Rightarrow> contractOverrides \<Rightarrow> contractLifecycleConfig result" where
  "resolveContractLifecycleConfig E overrides =
     (let codes = normalizeItemCodes E (case oc_itemCodes overrides of
            None \<Rightarrow> itemCodes DEFAULT_CONTRACT_LIFECYCLE_CONFIG | Some cs \<Rightarrow> Some cs);
          perTick = (case oc_contractsPerTick overrides of
            None \<Rightarrow> IntN (contractsPerTick DEFAULT_CONTRACT_LIFECYCLE_CONFIG) | Some n \<Rightarrow> n);
          ttl = (case oc_ttlTicks overrides of
            None \<Rightarrow> IntN (ttlTicks DEFAULT_CONTRACT_LIFECYCLE_CONFIG) | Some n \<Rightarrow> n);
          band = (case oc_priceBandBps overrides of
            None \<Rightarrow> IntN (priceBandBps DEFAULT_CONTRACT_LIFECYCLE_CONFIG) | Some n \<Rightarrow> n) in
      if \<not> isInteger perTick \<or> num perTick < 0
        then Inl (DomainInvariantError ''contractsPerTick must be a non-negative integer'')
      else if \<not> isInteger ttl \<or> num ttl \<le> 0
        then Inl (DomainInvariantError ''ttlTicks must be a positive integer'')
      else if \<not> isInteger band \<or> num band < 0
        then Inl (DomainInvariantError ''priceBandBps must be a non-negative integer'')
      else Inr \<lparr>contractsPerTick = num perTick, ttlTicks = num ttl, itemCodes = codes,
                priceBandBps = num band\<rparr>)"

definition shouldExpireContract :: "jsnum \<Rightarrow> jsnum \<Rightarrow> bool result" where
  "shouldExpireContract currentTick tickExpires =
     (if \<not> isInteger currentTick \<or> num currentTick < 0
        then Inl (DomainInvariantError ''currentTick must be a non-negative integer'')
      else if \<not> isInteger tickExpires \<or> num tickExpires < 0
        then Inl (DomainInvariantError ''tickExpires must be a non-negative integer'')
      else Inr (num currentTick \<ge> num tickExpires))"

definition resolveContractUnitPriceCents :: "string \<Rightarrow> int option \<Rightarrow> int \<Rightarrow> int \<Rightarrow> int \<Rightarrow> int" where
  "resolveContractUnitPriceCents itemCode recentTradeAverageCents bandBps tick sequence =
     (let basePrice =
            (case recentTradeAverageCents of Some p \<Rightarrow> p
             | None \<Rightarrow> (case map_of FALLBACK_PRICE_CENTS_BY_ITEM_CODE itemCode of Some p \<Rightarrow> p
             | None \<Rightarrow> (case resolveIconItemFallbackPriceCents itemCode of Some p \<Rightarrow> p
             | None \<Rightarrow> 100))) in
      if basePrice \<le> 0 then 1
      else
        (let direction = (if (tick + sequence) mod 2 = 0 then 1 else - 1);
             adjustment = (basePrice * bandBps * direction) sdiv 10000;
             price = basePrice + adjustment in
         if price > 0 then price else 1))"

definition resolveContractQuantity :: "string \<Rightarrow> int \<Rightarrow> int \<Rightarrow> int" where
  "resolveContractQuantity itemCode tick sequence =
     (case map_of FALLBACK_QUANTITY_BY_ITEM_CODE itemCode of None \<Rightarrow> 5 | Some q \<Rightarrow> q) +
     (tick + sequence) mod 3"

definition resolveContractTick :: "jsnum option \<Rightarrow> db \<Rightarrow> int result" where
  "resolveContractTick explicitTick d =
     (case explicitTick of
       Some t \<Rightarrow>
         if \<not> isInteger t \<or> num t < 0
         then Inl (DomainInvariantError ''tick must be a non-negative integer'') else Inr (num t)
     | None \<Rightarrow> Inr (worldTick d))"

text \<open>The average price of an item over the 200 latest trades of the given items.\<close>

definition loadRecentTradeAveragesByItem :: "string list \<Rightarrow> db \<Rightarrow> string \<rightharpoonup> int" where
  "loadRecentTradeAveragesByItem itemIds d =
     (let recentTrades = take 200
            (sortBy (cmpThen (cmpKey (\<lambda>t. - tr_tick t)) (cmpKey (\<lambda>t. - tr_createdAt t)))
              (filter (\<lambda>t. tr_itemId t \<in> set itemIds) (trades d))) in
      (\<lambda>itemId.
        (let prices = map tr_unitPriceCents (filter (\<lambda>t. tr_itemId t = itemId) recentTrades) in
         if prices = [] then None else Some (sum_list prices sdiv int (length prices)))))"

definition listContractsForPlayer :: "listContractsInput \<Rightarrow> db \<Rightarrow> contract list result" where
  "listContractsForPlayer input d =
     (let limit = (case lc_limit input of None \<Rightarrow> IntN 100 | Some n \<Rightarrow> n) in
      if lc_playerId input = [] then Inl (DomainInvariantError ''playerId is required'')
      else if \<not> isInteger limit \<or> num limit < 1 \<or> num limit > 500
        then Inl (DomainInvariantError ''limit must be an integer between 1 and 500'')
      else Inr (take (nat (num limit)) (sortBy (cmpKey (\<lambda>c. - ct_createdAt c))
        (filter (\<lambda>c.
           (case lc_itemId input of None \<Rightarrow> True | Some i \<Rightarrow> ct_itemId c = i) \<and>
           (case lc_status input of None \<Rightarrow> True | Some s \<Rightarrow> ct_status c = s) \<and>
           (ct_status c = ContractOPEN \<or>
            (case Option.bind (ct_sellerCompanyId c) (\<lambda>s. findCompany s d) of
              None \<Rightarrow> False
            | Some seller \<Rightarrow> co_ownerPlayerId seller = Some (lc_playerId input))))
         (contracts d)))))"

subsection \<open>Acceptance\<close>

text \<open>The company on the buying side, which the query joins, and the test that it is a bot.\<close>

definition contractBuyer :: "contract \<Rightarrow> db \<Rightarrow> company result" where
  "contractBuyer c d =
     (case findCompany (ct_buyerCompanyId c) d of None \<Rightarrow> Inl recordNotFound | Some b \<Rightarrow> Inr b)"

definition checkBuyerIsBot :: "company \<Rightarrow> unit result" where
  "checkBuyerIsBot buyer =
     (if co_isPlayer buyer \<or> co_ownerPlayerId buyer \<noteq> None
      then Inl (DomainInvariantError ''contract buyer company must be an NPC company'')
      else Inr ())"

text \<open>The guarded update also checks that the seller exists (a foreign key).\<close>

definition acceptContractWithTx :: "acceptContractInput \<Rightarrow> db \<Rightarrow> (contract \<times> db) result" where
  "acceptContractWithTx input d =
     andThen (resolveContractTick (ac_tick input) d) (\<lambda>tick.
     (case findContract (ac_contractId input) d of
       None \<Rightarrow> Inl (NotFoundError (''contract '' @ ac_contractId input @ '' not found''))
     | Some contract \<Rightarrow>
       andThen (contractBuyer contract d) (\<lambda>buyer.
       if ct_status contract \<noteq> ContractOPEN
         then Inl (DomainInvariantError ''contract is not open'')
       else
         andThen (shouldExpireContract (IntN tick) (IntN (ct_tickExpires contract))) (\<lambda>expired.
         if expired then Inl (DomainInvariantError ''contract is expired'')
         else
           andThen (checkBuyerIsBot buyer) (\<lambda>_.
           (let matching = (\<lambda>c. ct_id c = ct_id contract \<and> ct_status c = ContractOPEN \<and>
                  ct_sellerCompanyId c = None \<and> ct_tickExpires c > tick) in
            if countWhere matching (contracts d) > 0 \<and> findCompany (ac_sellerCompanyId input) d = None
              then Inl foreignKeyViolation
            else
              andThen (updateExactlyOne contracts contracts_update matching
                (\<lambda>c. c\<lparr>ct_sellerCompanyId := Some (ac_sellerCompanyId input),
                  ct_status := ContractACCEPTED, ct_tickAccepted := Some tick\<rparr>)
                ''contract changed while attempting to accept; retry operation'' d) (\<lambda>d.
              (case findContract (ct_id contract) d of
                None \<Rightarrow> Inl (NotFoundError (''contract '' @ ac_contractId input @ '' not found''))
              | Some accepted \<Rightarrow> Inr (accepted, d)))))))))"

definition acceptContract :: "acceptContractInput \<Rightarrow> db \<Rightarrow> contract result \<times> db" where
  "acceptContract input d =
     (if ac_contractId input = [] then (Inl (DomainInvariantError ''contractId is required''), d)
      else if ac_sellerCompanyId input = []
        then (Inl (DomainInvariantError ''sellerCompanyId is required''), d)
      else transaction (acceptContractWithTx input) d)"

subsection \<open>Fulfillment\<close>

text \<open>What is checked before the first write; the result is the seller and its inventory row.\<close>

definition checkFulfillable ::
    "fulfillContractInput \<Rightarrow> int \<Rightarrow> contract \<Rightarrow> company \<Rightarrow> unit result" where
  "checkFulfillable input tick contract buyer =
     (if ct_status contract \<noteq> ContractACCEPTED \<and> ct_status contract \<noteq> ContractPARTIALLY_FULFILLED
        then Inl (DomainInvariantError ''contract is not fulfillable'')
      else if ct_sellerCompanyId contract \<noteq> Some (fc_sellerCompanyId input)
        then Inl (DomainInvariantError ''contract is not accepted by this seller company'')
      else
        andThen (shouldExpireContract (IntN tick) (IntN (ct_tickExpires contract))) (\<lambda>expired.
        if expired then Inl (DomainInvariantError ''contract is expired'')
        else if num (fc_quantity input) > ct_remainingQuantity contract
          then Inl (DomainInvariantError ''fulfillment quantity exceeds contract remaining quantity'')
        else checkBuyerIsBot buyer))"

definition checkContractSeller ::
    "fulfillContractInput \<Rightarrow> contract \<Rightarrow> company \<Rightarrow> db \<Rightarrow> (company \<times> inventory) result" where
  "checkContractSeller input contract buyer d =
     (case findCompany (fc_sellerCompanyId input) d of
       None \<Rightarrow> Inl (NotFoundError (''company '' @ fc_sellerCompanyId input @ '' not found''))
     | Some sellerCompany \<Rightarrow>
       if co_isPlayer sellerCompany \<and>
          isItemCodeLockedBySpecialization (itemCodeOf (ct_itemId contract) d)
            (co_specialization sellerCompany)
         then Inl (DomainInvariantError
                ''contract item is not available for company specialization'')
       else
         (case findInventory (fc_sellerCompanyId input) (ct_itemId contract)
             (co_regionId sellerCompany) d of
           None \<Rightarrow> Inl (DomainInvariantError
                  ''seller company has no inventory for contract item'')
         | Some sellerInventory \<Rightarrow>
           if inv_quantity sellerInventory - inv_reservedQuantity sellerInventory
              < num (fc_quantity input)
             then Inl (DomainInvariantError
                    ''insufficient available inventory for contract fulfillment'')
           else if co_cashCents buyer < ct_priceCents contract * num (fc_quantity input)
             then Inl (DomainInvariantError
                    ''buyer company has insufficient cash for contract settlement'')
           else Inr (sellerCompany, sellerInventory)))"

text \<open>The goods: the guard of the seller's row does not name its region.\<close>

definition moveContractGoods ::
    "fulfillContractInput \<Rightarrow> contract \<Rightarrow> company \<Rightarrow> inventory \<Rightarrow> db \<Rightarrow> db result" where
  "moveContractGoods input contract buyer sellerInventory d =
     (let n = num (fc_quantity input) in
      andThen (updateExactlyOne inventories inventories_update
        (\<lambda>r. inv_companyId r = inv_companyId sellerInventory \<and>
           inv_itemId r = inv_itemId sellerInventory \<and>
           inv_quantity r = inv_quantity sellerInventory \<and>
           inv_reservedQuantity r = inv_reservedQuantity sellerInventory)
        (\<lambda>r. r\<lparr>inv_quantity := inv_quantity r - n\<rparr>)
        ''seller inventory changed during contract fulfillment; retry operation'' d) (\<lambda>d.
      andThen (upsertInventory (ct_buyerCompanyId contract) (ct_itemId contract) (co_regionId buyer)
        (\<lambda>r. r\<lparr>inv_quantity := inv_quantity r + n\<rparr>) n 0 d) (\<lambda>(_, d).
      Inr d)))"

text \<open>The payment: from the buyer's balance, whatever of it is reserved.\<close>

definition moveContractCash :: "fulfillContractInput \<Rightarrow> contract \<Rightarrow> db \<Rightarrow> db result" where
  "moveContractCash input contract d =
     (let totalNotional = ct_priceCents contract * num (fc_quantity input) in
      andThen (updateExactlyOne companies companies_update
        (\<lambda>c. co_id c = ct_buyerCompanyId contract \<and> co_cashCents c \<ge> totalNotional)
        (\<lambda>c. c\<lparr>co_cashCents := co_cashCents c - totalNotional\<rparr>)
        ''buyer company changed during contract fulfillment; retry operation'' d) (\<lambda>d.
      andThen (updateCompany (fc_sellerCompanyId input)
        (\<lambda>c. c\<lparr>co_cashCents := co_cashCents c + totalNotional\<rparr>) d) (\<lambda>(_, d).
      Inr d)))"

definition advanceContract :: "fulfillContractInput \<Rightarrow> int \<Rightarrow> contract \<Rightarrow> db \<Rightarrow> db result" where
  "advanceContract input tick contract d =
     (let nextRemainingQuantity = ct_remainingQuantity contract - num (fc_quantity input);
          nextStatus = (if nextRemainingQuantity = 0 then ContractFULFILLED
            else ContractPARTIALLY_FULFILLED) in
      if nextRemainingQuantity < 0
        then Inl (DomainInvariantError ''contract remainingQuantity cannot become negative'')
      else
        updateExactlyOne contracts contracts_update
          (\<lambda>c. ct_id c = ct_id contract \<and>
             ct_sellerCompanyId c = Some (fc_sellerCompanyId input) \<and>
             ct_remainingQuantity c = ct_remainingQuantity contract \<and>
             (ct_status c = ContractACCEPTED \<or> ct_status c = ContractPARTIALLY_FULFILLED))
          (\<lambda>c. c\<lparr>ct_remainingQuantity := nextRemainingQuantity, ct_status := nextStatus,
             ct_tickClosed := (if nextStatus = ContractFULFILLED then Some tick else None)\<rparr>)
          ''contract changed during fulfillment; retry operation'' d)"

definition recordContractLedger ::
    "env \<Rightarrow> fulfillContractInput \<Rightarrow> int \<Rightarrow> contract \<Rightarrow> contractFulfillment \<Rightarrow> db \<Rightarrow> db result" where
  "recordContractLedger E input tick contract fulfillment d =
     (let totalNotional = ct_priceCents contract * num (fc_quantity input) in
      case (findCompany (ct_buyerCompanyId contract) d, findCompany (fc_sellerCompanyId input) d) of
        (Some buyerAfter, Some sellerAfter) \<Rightarrow>
          andThen (createLedgerEntry E (co_id buyerAfter) tick CONTRACT_SETTLEMENT (- totalNotional) 0
            (co_cashCents buyerAfter) ''CONTRACT_BUY'' (cf_id fulfillment) d) (\<lambda>d.
          createLedgerEntry E (co_id sellerAfter) tick CONTRACT_SETTLEMENT totalNotional 0
            (co_cashCents sellerAfter) ''CONTRACT_SELL'' (cf_id fulfillment) d)
      | _ \<Rightarrow> Inl (NotFoundError ''company missing during contract ledger write''))"

definition fulfillContractWithTx ::
    "env \<Rightarrow> fulfillContractInput \<Rightarrow> db \<Rightarrow> ((contract \<times> contractFulfillment) \<times> db) result" where
  "fulfillContractWithTx E input d =
     andThen (resolveContractTick (fc_tick input) d) (\<lambda>tick.
     (case findContract (fc_contractId input) d of
       None \<Rightarrow> Inl (NotFoundError (''contract '' @ fc_contractId input @ '' not found''))
     | Some contract \<Rightarrow>
       andThen (contractBuyer contract d) (\<lambda>buyer.
       andThen (checkFulfillable input tick contract buyer) (\<lambda>_.
       andThen (checkContractSeller input contract buyer d) (\<lambda>(_, sellerInventory).
       andThen (moveContractGoods input contract buyer sellerInventory d) (\<lambda>d.
       andThen (moveContractCash input contract d) (\<lambda>d.
       andThen (createFulfillmentRow
         \<lparr>cf_id = newId E d, cf_contractId = ct_id contract,
          cf_sellerCompanyId = fc_sellerCompanyId input, cf_itemId = ct_itemId contract,
          cf_quantity = num (fc_quantity input), cf_priceCents = ct_priceCents contract,
          cf_tick = tick, cf_createdAt = currentTime E d\<rparr> d) (\<lambda>(fulfillment, d).
       andThen (advanceContract input tick contract d) (\<lambda>d.
       andThen (recordContractLedger E input tick contract fulfillment d) (\<lambda>d.
       (case findContract (ct_id contract) d of
         None \<Rightarrow> Inl (NotFoundError (''contract '' @ fc_contractId input @ '' not found''))
       | Some updatedContract \<Rightarrow> Inr ((updatedContract, fulfillment), d))))))))))))"

definition fulfillContract ::
    "env \<Rightarrow> fulfillContractInput \<Rightarrow> db \<Rightarrow> (contract \<times> contractFulfillment) result \<times> db" where
  "fulfillContract E input d =
     (if fc_contractId input = [] then (Inl (DomainInvariantError ''contractId is required''), d)
      else if fc_sellerCompanyId input = []
        then (Inl (DomainInvariantError ''sellerCompanyId is required''), d)
      else if \<not> isInteger (fc_quantity input) \<or> num (fc_quantity input) \<le> 0
        then (Inl (DomainInvariantError ''quantity must be a positive integer''), d)
      else transaction (fulfillContractWithTx E input) d)"

subsection \<open>Expiry and generation\<close>

definition isExpirable :: "int \<Rightarrow> contract \<Rightarrow> bool" where
  "isExpirable tick c =
     (ct_status c \<in> {ContractOPEN, ContractACCEPTED, ContractPARTIALLY_FULFILLED} \<and>
      ct_tickExpires c \<le> tick)"

definition expireContractsForTick :: "jsnum \<Rightarrow> db \<Rightarrow> (int \<times> db) result" where
  "expireContractsForTick tick d =
     (if \<not> isInteger tick \<or> num tick < 0
      then Inl (DomainInvariantError ''tick must be a non-negative integer'')
      else Inr (countWhere (isExpirable (num tick)) (contracts d),
        contracts_update (mapWhere (isExpirable (num tick))
          (\<lambda>c. c\<lparr>ct_status := ContractEXPIRED, ct_tickClosed := Some (num tick)\<rparr>)) d))"

text \<open>One turn of the generating loop; the buyers' balances are those read before it.\<close>

definition generateContract ::
    "env \<Rightarrow> contractLifecycleConfig \<Rightarrow> int \<Rightarrow> item list \<Rightarrow> company list \<Rightarrow> (string \<rightharpoonup> int) \<Rightarrow>
     int \<Rightarrow> int \<times> db \<Rightarrow> (int \<times> db) result" where
  "generateContract E config tick offered botCompanies recentAverages i = (\<lambda>(createdCount, d).
     (let item = offered ! nat ((tick + i) mod int (length offered));
          buyerCompany = botCompanies ! nat ((tick + i * 3) mod int (length botCompanies));
          unitPriceCents = resolveContractUnitPriceCents (it_code item)
            (recentAverages (it_id item)) (priceBandBps config) tick i;
          n = resolveContractQuantity (it_code item) tick i;
          totalNotional = unitPriceCents * n in
      if co_cashCents buyerCompany < totalNotional then Inr (createdCount, d)
      else
        andThen (createContractRow
          \<lparr>ct_id = newId E d, ct_buyerCompanyId = co_id buyerCompany, ct_sellerCompanyId = None,
           ct_itemId = it_id item, ct_quantity = n, ct_remainingQuantity = n,
           ct_priceCents = unitPriceCents, ct_status = ContractOPEN, ct_tickCreated = tick,
           ct_tickExpires = tick + ttlTicks config, ct_tickAccepted = None, ct_tickClosed = None,
           ct_createdAt = currentTime E d\<rparr> d) (\<lambda>(_, d).
        Inr (createdCount + 1, d))))"

definition offeredItems :: "env \<Rightarrow> contractLifecycleConfig \<Rightarrow> db \<Rightarrow> item list" where
  "offeredItems E config d =
     sortBy (\<lambda>x y. env_textCompare E (it_code x) (it_code y))
       (filter (\<lambda>i. case itemCodes config of None \<Rightarrow> True | Some codes \<Rightarrow> it_code i \<in> set codes)
         (items d))"

definition contractBots :: "env \<Rightarrow> db \<Rightarrow> company list" where
  "contractBots E d =
     sortBy (\<lambda>x y. env_textCompare E (co_code x) (co_code y))
       (filter (\<lambda>c. \<not> co_isPlayer c \<and> co_ownerPlayerId c = None) (companies d))"

definition generateContractsForTick ::
    "env \<Rightarrow> jsnum \<Rightarrow> contractOverrides \<Rightarrow> db \<Rightarrow> (int \<times> db) result" where
  "generateContractsForTick E tick overrides d =
     (if \<not> isInteger tick \<or> num tick < 0
      then Inl (DomainInvariantError ''tick must be a non-negative integer'')
      else
        andThen (resolveContractLifecycleConfig E overrides) (\<lambda>config.
        if contractsPerTick config = 0 then Inr (0, d)
        else
          (let offered = offeredItems E config d; botCompanies = contractBots E d in
           if offered = [] \<or> botCompanies = [] then Inr (0, d)
           else
             forEach (generateContract E config (num tick) offered botCompanies
               (loadRecentTradeAveragesByItem (map it_id offered) d))
               (map int [0..<nat (contractsPerTick config)]) (0, d))))"

record contractLifecycleResult =
  generatedCount :: int
  expiredCount :: int

definition runContractLifecycleForTick ::
    "env \<Rightarrow> jsnum \<Rightarrow> contractOverrides \<Rightarrow> db \<Rightarrow> (contractLifecycleResult \<times> db) result" where
  "runContractLifecycleForTick E tick overrides d =
     andThen (expireContractsForTick tick d) (\<lambda>(expired, d).
     andThen (generateContractsForTick E tick overrides d) (\<lambda>(generated, d).
     Inr (\<lparr>generatedCount = generated, expiredCount = expired\<rparr>, d)))"

subsection \<open>Settlement of a delivery\<close>

lemma fulfillContractWithTx_Inr:
  assumes "fulfillContractWithTx E input d = Inr ((c', f), d')"
  obtains tick c buyer seller r d1 d2 d3 d4 where
    "findContract (fc_contractId input) d = Some c"
    "findCompany (ct_buyerCompanyId c) d = Some buyer"
    "ct_status c = ContractACCEPTED \<or> ct_status c = ContractPARTIALLY_FULFILLED"
    "ct_sellerCompanyId c = Some (fc_sellerCompanyId input)"
    "num (fc_quantity input) \<le> ct_remainingQuantity c"
    "findCompany (fc_sellerCompanyId input) d = Some seller"
    "findInventory (fc_sellerCompanyId input) (ct_itemId c) (co_regionId seller) d = Some r"
    "num (fc_quantity input) \<le> inv_quantity r - inv_reservedQuantity r"
    "ct_priceCents c * num (fc_quantity input) \<le> co_cashCents buyer"
    "moveContractGoods input c buyer r d = Inr d1"
    "moveContractCash input c d1 = Inr d2"
    "createFulfillmentRow f d2 = Inr (f, d3)"
    "cf_contractId f = ct_id c" "cf_quantity f = num (fc_quantity input)"
    "advanceContract input tick c d3 = Inr d4"
    "recordContractLedger E input tick c f d4 = Inr d'"
    "findContract (ct_id c) d' = Some c'"
proof -
  from assms obtain tick c buyer x r d1 d2 d3 d4 where *:
    "findContract (fc_contractId input) d = Some c" "contractBuyer c d = Inr buyer"
    "checkFulfillable input tick c buyer = Inr ()" "checkContractSeller input c buyer d = Inr (x, r)"
    "moveContractGoods input c buyer r d = Inr d1" "moveContractCash input c d1 = Inr d2"
    "createFulfillmentRow
         \<lparr>cf_id = newId E d2, cf_contractId = ct_id c,
          cf_sellerCompanyId = fc_sellerCompanyId input, cf_itemId = ct_itemId c,
          cf_quantity = num (fc_quantity input), cf_priceCents = ct_priceCents c,
          cf_tick = tick, cf_createdAt = currentTime E d2\<rparr> d2 = Inr (f, d3)"
    "advanceContract input tick c d3 = Inr d4" "recordContractLedger E input tick c f d4 = Inr d'"
    "findContract (ct_id c) d' = Some c'"
    by (auto simp: fulfillContractWithTx_def andThen_Inr_iff branch_Inr)
  from *(3) have check: "ct_status c = ContractACCEPTED \<or> ct_status c = ContractPARTIALLY_FULFILLED"
    "ct_sellerCompanyId c = Some (fc_sellerCompanyId input)"
    "num (fc_quantity input) \<le> ct_remainingQuantity c"
    by (auto simp: checkFulfillable_def andThen_Inr_iff branch_Inr)
  from *(4) have seller: "findCompany (fc_sellerCompanyId input) d = Some x"
    "findInventory (fc_sellerCompanyId input) (ct_itemId c) (co_regionId x) d = Some r"
    "num (fc_quantity input) \<le> inv_quantity r - inv_reservedQuantity r"
    "ct_priceCents c * num (fc_quantity input) \<le> co_cashCents buyer"
    by (auto simp: checkContractSeller_def branch_Inr)
  have buyer: "findCompany (ct_buyerCompanyId c) d = Some buyer"
    using *(2) by (auto simp: contractBuyer_def branch_Inr)
  have row: "createFulfillmentRow f d2 = Inr (f, d3)" "cf_contractId f = ct_id c"
    "cf_quantity f = num (fc_quantity input)"
    using *(7) by (auto simp: createRow_Inr)
  show thesis by (rule that [OF *(1) buyer check seller *(5,6) row *(8-10)])
qed

lemma moveContractGoods_keeps:
  assumes "moveContractGoods input c buyer r d = Inr d'" and "marketOk d"
    and "rowFind invKey k (inventories d) = Some r" and "fst (snd k) = ct_itemId c"
    and "num (fc_quantity input) \<le> inv_quantity r - inv_reservedQuantity r" "0 \<le> num (fc_quantity input)"
  shows "marketOk d' \<and> companies d' = companies d \<and> marketOrders d' = marketOrders d \<and>
    contracts d' = contracts d \<and> contractFulfillments d' = contractFulfillments d \<and>
    itemStock iid d' = itemStock iid d"
proof -
  let ?n = "num (fc_quantity input)"
  let ?P = "\<lambda>x. inv_companyId x = inv_companyId r \<and> inv_itemId x = inv_itemId r \<and>
     inv_quantity x = inv_quantity r \<and> inv_reservedQuantity x = inv_reservedQuantity r"
  let ?f = "\<lambda>r. r\<lparr>inv_quantity := inv_quantity r - ?n\<rparr>"
  from assms(1) obtain d1 x where
    d1: "updateExactlyOne inventories inventories_update ?P ?f
        ''seller inventory changed during contract fulfillment; retry operation'' d = Inr d1" and
    d2: "upsertInventory (ct_buyerCompanyId c) (ct_itemId c) (co_regionId buyer)
        (\<lambda>r. r\<lparr>inv_quantity := inv_quantity r + ?n\<rparr>) ?n 0 d1 = Inr (x, d')"
    by (auto simp: moveContractGoods_def andThen_Inr_iff Let_def)
  have one: "countWhere ?P (inventories d) = 1" and e1: "d1 = inventories_update (mapWhere ?P ?f) d"
    using d1 by (auto simp: updateExactlyOne_def split: if_splits)
  have key: "invKey r = k" by (rule rowFind_key [OF assms(3)])
  have rows: "mapWhere ?P ?f (inventories d) = rowSet invKey k ?f (inventories d)"
    using mapWhere_single [OF rowsOk_distinct [OF economyOk_inventories [OF marketOkD(1) [OF assms(2)]]]
        rowFind_in [OF assms(3)], of ?P ?f] one key by simp
  have up: "updateInventory k ?f d = Inr (?f r, d1)"
    using assms(3) inventory.upd_cong [of "mapWhere ?P ?f" d "rowSet invKey k ?f"] rows e1
    by (simp add: updateRow_def)
  have m1: "marketOk d1"
    by (rule marketOk_updateInventory [OF up assms(2)])
      (use assms(5,6) marketOk_inventory [OF assms(2,3)] in \<open>simp_all add: invKey_def inventoryOk_iff\<close>)
  have "marketOk d'" by (rule marketOk_addStock [OF d2 m1 assms(6)])
  moreover have "companies d' = companies d \<and> marketOrders d' = marketOrders d \<and>
      contracts d' = contracts d \<and> contractFulfillments d' = contractFulfillments d"
    by (rule upsertInventory_frame [OF d2]) (simp_all add: e1)
  moreover have "itemStock iid d' = itemStock iid d"
    using itemStock_updateInventory [OF up marketOkD(1) [OF assms(2)] assms(3), of iid]
      itemStock_upsertInventory [OF d2 marketOkD(1) [OF m1], of ?n iid] assms(4)
    by (simp add: invKey_def)
  ultimately show ?thesis by blast
qed

lemma moveContractCash_rows:
  assumes "moveContractCash input c d = Inr d'" and "distinct (map co_id (companies d))"
    and "T = ct_priceCents c * num (fc_quantity input)"
  shows "\<exists>b s e. updateCompany (ct_buyerCompanyId c) (\<lambda>x. x\<lparr>co_cashCents := co_cashCents x - T\<rparr>) d = Inr (b, e) \<and>
    updateCompany (fc_sellerCompanyId input) (\<lambda>x. x\<lparr>co_cashCents := co_cashCents x + T\<rparr>) e = Inr (s, d')"
proof -
  let ?P = "\<lambda>x. co_id x = ct_buyerCompanyId c \<and> co_cashCents x \<ge> T"
  from assms(1,3) obtain e s where
    e: "updateExactlyOne companies companies_update ?P (\<lambda>x. x\<lparr>co_cashCents := co_cashCents x - T\<rparr>)
        ''buyer company changed during contract fulfillment; retry operation'' d = Inr e" and
    s: "updateCompany (fc_sellerCompanyId input) (\<lambda>x. x\<lparr>co_cashCents := co_cashCents x + T\<rparr>) e = Inr (s, d')"
    by (auto simp: moveContractCash_def andThen_Inr_iff Let_def)
  have "\<And>x. ?P x \<Longrightarrow> co_id x = ct_buyerCompanyId c" by simp
  from company.exactlyOne_update [OF e assms(2) this] s show ?thesis by blast
qed

text \<open>The balances move by the price, and stay within bounds exactly when it was free cash.\<close>

lemma moveContractCash_effect:
  assumes "moveContractCash input c d = Inr d'" and "marketOk d"
    and "findCompany (ct_buyerCompanyId c) d = Some buyer"
    and "T = ct_priceCents c * num (fc_quantity input)" and "0 \<le> T"
  shows "totalCash d' = totalCash d \<and> inventories d' = inventories d \<and> marketOrders d' = marketOrders d \<and>
    contracts d' = contracts d \<and> contractFulfillments d' = contractFulfillments d \<and>
    (marketOk d' \<longleftrightarrow> ct_buyerCompanyId c = fc_sellerCompanyId input \<or>
       T \<le> co_cashCents buyer - co_reservedCashCents buyer)"
proof -
  note ok = marketOkD [OF assms(2)]
  have dist: "distinct (map co_id (companies d))" by (rule rowsOk_distinct [OF economyOk_companies [OF ok(1)]])
  let ?b = "ct_buyerCompanyId c" and ?s = "fc_sellerCompanyId input"
  let ?down = "\<lambda>x. x\<lparr>co_cashCents := co_cashCents x - T\<rparr>" and ?up = "\<lambda>x. x\<lparr>co_cashCents := co_cashCents x + T\<rparr>"
  from moveContractCash_rows [OF assms(1) dist assms(4)] obtain b s e where
    e: "updateCompany ?b ?down d = Inr (b, e)" and d': "updateCompany ?s ?up e = Inr (s, d')" by blast
  from d' obtain s0 where s0: "findCompany ?s e = Some s0" "s = ?up s0"
    "d' = companies_update (rowSet co_id ?s ?up) e" by (auto simp: updateRow_Inr)
  have b: "b = ?down buyer" "e = companies_update (rowSet co_id ?b ?down) d"
    using e assms(3) by (auto simp: updateRow_Inr)
  have rows: "companies d' = rowSet co_id ?s ?up (rowSet co_id ?b ?down (companies d))"
    by (simp add: s0(3) b(2))
  have same: "inventories d' = inventories d" "marketOrders d' = marketOrders d"
    "contracts d' = contracts d" "contractFulfillments d' = contractFulfillments d"
    by (simp_all add: s0(3) b(2))
  have cash: "totalCash d' = totalCash d"
  proof -
    have "totalCash e = totalCash d - T"
      using totalCash_updateCompany [OF e assms(2,3)] by simp
    moreover have "distinct (map co_id (companies e))"
      using dist by (simp add: b(2) map_rowSet_same [of co_id ?down])
    from sum_rowSet [OF this s0(1), of co_cashCents ?up]
    have "totalCash d' = totalCash e + T" by (simp add: totalCash_def s0(3))
    ultimately show ?thesis by simp
  qed
  note bounds = marketOk_company [OF assms(2,3)]
  have "marketOk d'" if free: "T \<le> co_cashCents buyer - co_reservedCashCents buyer"
  proof -
    have me: "marketOk e"
      by (rule marketOk_updateCompany [OF e assms(2)]) (use free b(1) bounds in \<open>simp_all add: companyOk_iff\<close>)
    show ?thesis
      by (rule marketOk_updateCompany [OF d' me])
        (use s0(2) assms(5) marketOk_company [OF me s0(1)] in \<open>simp_all add: companyOk_iff\<close>)
  qed
  moreover have "marketOk d'" if "?b = ?s"
  proof -
    have "companies d' = companies d"
      by (simp add: rows that rowSet_rowSet [of co_id ?down] rowSet_id)
    then show ?thesis by (rule marketOk_same [OF assms(2)]) (simp_all add: same)
  qed
  moreover have "T \<le> co_cashCents buyer - co_reservedCashCents buyer" if "marketOk d'" "?b \<noteq> ?s"
  proof -
    have "findCompany ?b d' = Some (?down buyer)"
      using assms(3) that(2)
      by (simp add: rows rowFind_rowSet [of co_id ?up] rowFind_rowSet [of co_id ?down])
    from marketOk_company [OF that(1) this] show ?thesis by simp
  qed
  ultimately show ?thesis using cash same by blast
qed

lemma recordContractLedger_frame:
  assumes "recordContractLedger E input tick c f d = Inr d'"
  shows "companies d' = companies d" "inventories d' = inventories d" "marketOrders d' = marketOrders d"
    "contracts d' = contracts d" "contractFulfillments d' = contractFulfillments d"
  using assms
  by (auto simp: recordContractLedger_def Let_def andThen_Inr_iff createLedgerEntry_Inr
      split: option.splits)

definition deliver :: "int \<Rightarrow> int \<Rightarrow> contract \<Rightarrow> contract" where
  "deliver n tick c = c\<lparr>ct_remainingQuantity := ct_remainingQuantity c - n,
     ct_status := (if ct_remainingQuantity c - n = 0 then ContractFULFILLED
       else ContractPARTIALLY_FULFILLED),
     ct_tickClosed := (if ct_remainingQuantity c - n = 0 then Some tick else None)\<rparr>"

lemma ct_id_deliver [simp]: "ct_id (deliver n tick c) = ct_id c"
  by (simp add: deliver_def)

lemma advanceContract_effect:
  assumes "advanceContract input tick c d = Inr d'" and "distinct (map ct_id (contracts d))"
    and "findContract cid d = Some c"
  shows "contracts d' = rowSet ct_id (ct_id c) (deliver (num (fc_quantity input)) tick) (contracts d) \<and>
    companies d' = companies d \<and> inventories d' = inventories d \<and> marketOrders d' = marketOrders d \<and>
    contractFulfillments d' = contractFulfillments d"
proof -
  let ?n = "num (fc_quantity input)"
  let ?next = "if ct_remainingQuantity c - ?n = 0 then ContractFULFILLED else ContractPARTIALLY_FULFILLED"
  let ?f = "\<lambda>x. x\<lparr>ct_remainingQuantity := ct_remainingQuantity c - ?n, ct_status := ?next,
     ct_tickClosed := (if ?next = ContractFULFILLED then Some tick else None)\<rparr>"
  let ?P = "\<lambda>x. ct_id x = ct_id c \<and> ct_sellerCompanyId x = Some (fc_sellerCompanyId input) \<and>
     ct_remainingQuantity x = ct_remainingQuantity c \<and>
     (ct_status x = ContractACCEPTED \<or> ct_status x = ContractPARTIALLY_FULFILLED)"
  from assms(1) have up: "updateExactlyOne contracts contracts_update ?P ?f
      ''contract changed during fulfillment; retry operation'' d = Inr d'"
    by (auto simp: advanceContract_def Let_def branch_Inr)
  have "\<And>x. ?P x \<Longrightarrow> ct_id x = ct_id c" by simp
  from contract.exactlyOne_update [OF up assms(2) this] obtain r where
    upd: "updateRow ct_id contracts contracts_update (ct_id c) ?f d = Inr (?f r, d')" by blast
  have mem: "c \<in> set (contracts d)" by (rule rowFind_in [OF assms(3)])
  have "rowSet ct_id (ct_id c) ?f (contracts d) = rowSet ct_id (ct_id c) (deliver ?n tick) (contracts d)"
    unfolding rowSet_def
  proof (rule map_cong [OF refl])
    fix x assume x: "x \<in> set (contracts d)"
    have "x = c" if "ct_id x = ct_id c"
      using rowFind_unique [OF assms(2) x] rowFind_unique [OF assms(2) mem] that by (metis option.inject)
    then show "(if ct_id x = ct_id c then ?f x else x) = (if ct_id x = ct_id c then deliver ?n tick x else x)"
      by (auto simp: deliver_def)
  qed
  with upd show ?thesis by (auto simp: updateRow_Inr)
qed

text \<open>What a delivery leaves behind.\<close>

lemma fulfillContract_effect:
  assumes "fulfillContractWithTx E input d = Inr ((c', f), d')" and "marketOk d"
    and "0 < num (fc_quantity input)" and "distinct (map ct_id (contracts d))"
    and "findContract (fc_contractId input) d = Some c" and "0 \<le> ct_priceCents c"
  shows "\<exists>buyer tick. findCompany (ct_buyerCompanyId c) d = Some buyer \<and>
    (ct_status c = ContractACCEPTED \<or> ct_status c = ContractPARTIALLY_FULFILLED) \<and>
    num (fc_quantity input) \<le> ct_remainingQuantity c \<and>
    contracts d' = rowSet ct_id (ct_id c) (deliver (num (fc_quantity input)) tick) (contracts d) \<and>
    contractFulfillments d' = contractFulfillments d @ [f] \<and>
    cf_contractId f = ct_id c \<and> cf_quantity f = num (fc_quantity input) \<and>
    totalCash d' = totalCash d \<and> (\<forall>iid. itemStock iid d' = itemStock iid d) \<and>
    (marketOk d' \<longleftrightarrow> ct_buyerCompanyId c = fc_sellerCompanyId input \<or>
       ct_priceCents c * num (fc_quantity input) \<le> co_cashCents buyer - co_reservedCashCents buyer)"
proof -
  let ?n = "num (fc_quantity input)"
  show ?thesis
  proof (rule fulfillContractWithTx_Inr [OF assms(1)])
  fix tick x buyer seller r d1 d2 d3 d4
  assume
    x: "findContract (fc_contractId input) d = Some x" and
    *: "findCompany (ct_buyerCompanyId x) d = Some buyer"
    "ct_status x = ContractACCEPTED \<or> ct_status x = ContractPARTIALLY_FULFILLED"
    "?n \<le> ct_remainingQuantity x" and
    r: "findInventory (fc_sellerCompanyId input) (ct_itemId x) (co_regionId seller) d = Some r"
    "?n \<le> inv_quantity r - inv_reservedQuantity r" and
    d1: "moveContractGoods input x buyer r d = Inr d1" and
    d2: "moveContractCash input x d1 = Inr d2" and
    d3: "createFulfillmentRow f d2 = Inr (f, d3)" and
    f: "cf_contractId f = ct_id x" "cf_quantity f = ?n" and
    d4: "advanceContract input tick x d3 = Inr d4" and
    d': "recordContractLedger E input tick x f d4 = Inr d'"
  have xc: "x = c" using x assms(5) by simp
  have n: "0 \<le> ?n" using assms(3) by simp
  note g = moveContractGoods_keeps [OF d1 assms(2) r(1) _ r(2) n]
  have m1: "marketOk d1" using g by simp
  have buyer1: "findCompany (ct_buyerCompanyId x) d1 = Some buyer" using g *(1) by simp
  have T: "0 \<le> ct_priceCents x * ?n" using assms(6) n by (simp add: xc)
  note h = moveContractCash_effect [OF d2 m1 buyer1 refl T]
  have e3: "companies d3 = companies d2" "inventories d3 = inventories d2" "marketOrders d3 = marketOrders d2"
    "contracts d3 = contracts d2" "contractFulfillments d3 = contractFulfillments d2 @ [f]"
    using d3 by (auto simp: createRow_Inr)
  have c3: "contracts d3 = contracts d" using e3(4) h g by simp
  have a: "contracts d4 = rowSet ct_id (ct_id x) (deliver ?n tick) (contracts d3) \<and>
    companies d4 = companies d3 \<and> inventories d4 = inventories d3 \<and> marketOrders d4 = marketOrders d3 \<and>
    contractFulfillments d4 = contractFulfillments d3"
    by (rule advanceContract_effect [OF d4, of "fc_contractId input"]) (use assms(4) x c3 in simp_all)
  note l = recordContractLedger_frame [OF d']
  have rows: "companies d' = companies d2" "inventories d' = inventories d2" "marketOrders d' = marketOrders d2"
    using l a e3 by simp_all
  have "marketOk d' = marketOk d2"
    using marketOk_same [of d2 d', OF _ rows] marketOk_same [of d' d2] rows by auto
  moreover have "totalCash d' = totalCash d" using h g rows(1) by (simp add: totalCash_def)
  moreover have "itemStock iid d' = itemStock iid d" for iid
    using moveContractGoods_keeps [OF d1 assms(2) r(1) _ r(2) n, of iid] h rows(2) by (simp add: itemStock_def)
  moreover have "contracts d' = rowSet ct_id (ct_id c) (deliver ?n tick) (contracts d)"
    "contractFulfillments d' = contractFulfillments d @ [f]"
    using l a e3 h g by (simp_all add: xc)
  ultimately show ?thesis using * f h unfolding xc by blast
  qed
qed

text \<open>
  C25. A delivery under a contract creates and destroys nothing: total cash and the stock of every
  item are unchanged, the delivered quantity does not exceed what remains and is recorded. The
  accounts stay within their bounds exactly when the price was covered by the buyer's free cash
  (or buyer and seller are the same company).
\<close>

theorem contract_settlement_conserves:
  assumes "fulfillContract E input d = (Inr (c', f), d')" and "marketOk d"
    and "distinct (map ct_id (contracts d))"
    and "findContract (fc_contractId input) d = Some c" and "0 \<le> ct_priceCents c"
  shows "totalCash d' = totalCash d \<and> (\<forall>iid. itemStock iid d' = itemStock iid d) \<and>
    0 < cf_quantity f \<and> cf_quantity f \<le> ct_remainingQuantity c \<and>
    contractFulfillments d' = contractFulfillments d @ [f] \<and>
    (\<exists>buyer. findCompany (ct_buyerCompanyId c) d = Some buyer \<and>
      (marketOk d' \<longleftrightarrow> ct_buyerCompanyId c = fc_sellerCompanyId input \<or>
       ct_priceCents c * cf_quantity f \<le> co_cashCents buyer - co_reservedCashCents buyer))"
proof -
  from assms(1) have run: "fulfillContractWithTx E input d = Inr ((c', f), d')"
    and n: "0 < num (fc_quantity input)"
    by (auto simp: fulfillContract_def transaction_def split: if_splits sum.splits)
  from fulfillContract_effect [OF run assms(2) n assms(3-5)] n show ?thesis by auto
qed

subsection \<open>The life cycle as an abstract automaton\<close>

text \<open>The moves a contract can make: they never touch its terms.\<close>

inductive contractMove :: "contract \<Rightarrow> contract \<Rightarrow> bool" where
  accept: "ct_status c = ContractOPEN \<Longrightarrow> t < ct_tickExpires c \<Longrightarrow>
     contractMove c (c\<lparr>ct_sellerCompanyId := Some s, ct_status := ContractACCEPTED,
       ct_tickAccepted := Some t\<rparr>)"
| delivery: "ct_status c = ContractACCEPTED \<or> ct_status c = ContractPARTIALLY_FULFILLED \<Longrightarrow>
     0 < n \<Longrightarrow> n \<le> ct_remainingQuantity c \<Longrightarrow> contractMove c (deliver n t c)"
| expire: "isExpirable t c \<Longrightarrow>
     contractMove c (c\<lparr>ct_status := ContractEXPIRED, ct_tickClosed := Some t\<rparr>)"

inductive_simps contractMove_iff: "contractMove c c'"

definition contractMoves :: "contract \<Rightarrow> contract \<Rightarrow> bool" where
  "contractMoves c c' \<longleftrightarrow> c' = c \<or> contractMove c c'"

text \<open>Status, seller and remaining quantity fit together.\<close>

definition contractOk :: "contract \<Rightarrow> bool" where
  "contractOk c \<longleftrightarrow>
     0 < ct_priceCents c \<and> 0 < ct_quantity c \<and> 0 \<le> ct_remainingQuantity c \<and>
     ct_remainingQuantity c \<le> ct_quantity c \<and>
     (case ct_status c of
       ContractOPEN \<Rightarrow> ct_sellerCompanyId c = None \<and> ct_remainingQuantity c = ct_quantity c
     | ContractACCEPTED \<Rightarrow> ct_sellerCompanyId c \<noteq> None \<and> ct_remainingQuantity c = ct_quantity c
     | ContractPARTIALLY_FULFILLED \<Rightarrow> ct_sellerCompanyId c \<noteq> None \<and> 0 < ct_remainingQuantity c \<and>
         ct_remainingQuantity c < ct_quantity c
     | ContractFULFILLED \<Rightarrow> ct_sellerCompanyId c \<noteq> None \<and> ct_remainingQuantity c = 0
     | ContractEXPIRED \<Rightarrow> 0 < ct_remainingQuantity c
     | ContractCANCELLED \<Rightarrow> True)"

lemma contractMove_ok: "contractMove c c' \<Longrightarrow> contractOk c \<Longrightarrow> contractOk c' \<and> ct_id c' = ct_id c"
  by (induction rule: contractMove.induct)
    (auto simp: contractOk_def deliver_def isExpirable_def split: contractStatus.splits)

definition delivered :: "string \<Rightarrow> db \<Rightarrow> int" where
  "delivered cid d = (\<Sum>f\<leftarrow>contractFulfillments d. if cf_contractId f = cid then cf_quantity f else 0)"

text \<open>Every contract's remaining quantity is its quantity less what was delivered under it.\<close>

definition contractsOk :: "db \<Rightarrow> bool" where
  "contractsOk d \<longleftrightarrow> rowsOk ct_id contractOk (contracts d) \<and>
     (\<forall>c\<in>set (contracts d). ct_remainingQuantity c + delivered (ct_id c) d = ct_quantity c) \<and>
     (\<forall>f\<in>set (contractFulfillments d). \<exists>c\<in>set (contracts d). ct_id c = cf_contractId f)"

text \<open>A transformation of the rows by moves that do not change what remains.\<close>

lemma contractsOk_map:
  assumes "contractsOk d" and "contracts d' = map g (contracts d)"
    and "contractFulfillments d' = contractFulfillments d"
    and "\<And>c. c \<in> set (contracts d) \<Longrightarrow> contractMoves c (g c) \<and>
      ct_remainingQuantity (g c) = ct_remainingQuantity c \<and> ct_quantity (g c) = ct_quantity c"
  shows "contractsOk d'"
proof -
  have row: "contractOk (g c) \<and> ct_id (g c) = ct_id c" if "c \<in> set (contracts d)" for c
    using assms(4) [OF that] assms(1) that contractMove_ok
    by (auto simp: contractsOk_def rowsOk_def contractMoves_def)
  have ids: "map ct_id (contracts d') = map ct_id (contracts d)" using row by (simp add: assms(2))
  have same: "delivered cid d' = delivered cid d" for cid by (simp add: delivered_def assms(3))
  have "distinct (map ct_id (contracts d'))"
    unfolding ids using assms(1) by (simp add: contractsOk_def rowsOk_def)
  moreover have "contractOk c' \<and> ct_remainingQuantity c' + delivered (ct_id c') d' = ct_quantity c'"
    if c': "c' \<in> set (contracts d')" for c'
  proof -
    from c' obtain c where c: "c \<in> set (contracts d)" "c' = g c" by (auto simp: assms(2))
    have "ct_remainingQuantity c + delivered (ct_id c) d = ct_quantity c"
      using assms(1) c(1) by (simp add: contractsOk_def)
    then show ?thesis using row [OF c(1)] assms(4) [OF c(1)] same by (simp add: c(2))
  qed
  moreover have "\<exists>c\<in>set (contracts d'). ct_id c = cf_contractId f" if "f \<in> set (contractFulfillments d')" for f
  proof -
    have "cf_contractId f \<in> set (map ct_id (contracts d))"
      using assms(1,3) that by (force simp: contractsOk_def)
    then show ?thesis unfolding ids [symmetric] by auto
  qed
  ultimately show ?thesis by (simp add: contractsOk_def rowsOk_def)
qed

lemma acceptContractWithTx_Inr:
  assumes "acceptContractWithTx input d = Inr (c', d')"
  obtains tick c where "findContract (ac_contractId input) d = Some c"
    "ct_status c = ContractOPEN" "tick < ct_tickExpires c"
    "updateExactlyOne contracts contracts_update (\<lambda>x. ct_id x = ct_id c \<and> ct_status x = ContractOPEN \<and>
        ct_sellerCompanyId x = None \<and> ct_tickExpires x > tick)
      (\<lambda>x. x\<lparr>ct_sellerCompanyId := Some (ac_sellerCompanyId input), ct_status := ContractACCEPTED,
        ct_tickAccepted := Some tick\<rparr>)
      ''contract changed while attempting to accept; retry operation'' d = Inr d'"
  using assms
  by (auto simp: acceptContractWithTx_def andThen_Inr_iff branch_Inr Let_def shouldExpireContract_def
      not_le)

lemma acceptContractWithTx_effect:
  assumes "acceptContractWithTx input d = Inr (c', d')"
  shows "\<exists>P tick. contracts d' = mapWhere P (\<lambda>x. x\<lparr>ct_sellerCompanyId := Some (ac_sellerCompanyId input),
        ct_status := ContractACCEPTED, ct_tickAccepted := Some tick\<rparr>) (contracts d) \<and>
     (\<forall>x. P x \<longrightarrow> ct_status x = ContractOPEN \<and> tick < ct_tickExpires x) \<and>
     contractFulfillments d' = contractFulfillments d \<and> companies d' = companies d \<and>
     inventories d' = inventories d \<and> marketOrders d' = marketOrders d"
proof (rule acceptContractWithTx_Inr [OF assms])
  fix tick c
  let ?P = "\<lambda>x. ct_id x = ct_id c \<and> ct_status x = ContractOPEN \<and> ct_sellerCompanyId x = None \<and>
     ct_tickExpires x > tick"
  assume "updateExactlyOne contracts contracts_update ?P
      (\<lambda>x. x\<lparr>ct_sellerCompanyId := Some (ac_sellerCompanyId input), ct_status := ContractACCEPTED,
        ct_tickAccepted := Some tick\<rparr>)
      ''contract changed while attempting to accept; retry operation'' d = Inr d'"
  then have "d' = contracts_update (mapWhere ?P (\<lambda>x. x\<lparr>ct_sellerCompanyId := Some (ac_sellerCompanyId input),
      ct_status := ContractACCEPTED, ct_tickAccepted := Some tick\<rparr>)) d"
    by (auto simp: updateExactlyOne_def split: if_splits)
  then show ?thesis by (intro exI [of _ ?P] exI [of _ tick]) simp
qed

lemma resolveContractUnitPriceCents_pos: "0 < resolveContractUnitPriceCents code avg band tick i"
  by (simp add: resolveContractUnitPriceCents_def Let_def)

lemma resolveContractQuantity_pos: "0 < resolveContractQuantity code tick i"
proof -
  have all: "list_all (\<lambda>(k, q). 0 < q) FALLBACK_QUANTITY_BY_ITEM_CODE"
    by (simp add: FALLBACK_QUANTITY_BY_ITEM_CODE_def)
  have "0 < q" if "map_of FALLBACK_QUANTITY_BY_ITEM_CODE code = Some q" for q
    using map_of_SomeD [OF that] all by (auto simp: list_all_iff)
  then show ?thesis
    by (auto simp: resolveContractQuantity_def split: option.splits intro: add_pos_nonneg)
qed

lemma sum_list_none: "(\<And>x. x \<in> set xs \<Longrightarrow> \<not> P x) \<Longrightarrow> (\<Sum>x\<leftarrow>xs. if P x then g x else 0) = (0 :: int)"
  by (induction xs) auto

text \<open>Generation appends fresh open contracts and does nothing else.\<close>

definition appendsOpen :: "int \<Rightarrow> db \<Rightarrow> db \<Rightarrow> bool" where
  "appendsOpen expires d d' \<longleftrightarrow>
     (\<exists>new. contracts d' = contracts d @ new \<and>
       (\<forall>c\<in>set new. ct_status c = ContractOPEN \<and> ct_tickExpires c = expires)) \<and>
     contractFulfillments d' = contractFulfillments d \<and> companies d' = companies d \<and>
     inventories d' = inventories d \<and> marketOrders d' = marketOrders d"

lemma generateContract_effect:
  assumes "generateContract E config tick is bs avg i (n, d) = Inr (n', d')" and "contractsOk d"
  shows "contractsOk d' \<and> appendsOpen (tick + ttlTicks config) d d' \<and>
    int (length (contracts d')) = int (length (contracts d)) + (n' - n) \<and> n \<le> n' \<and> n' \<le> n + 1"
proof -
  let ?item = "is ! nat ((tick + i) mod int (length is))"
  let ?buyer = "bs ! nat ((tick + i * 3) mod int (length bs))"
  let ?p = "resolveContractUnitPriceCents (it_code ?item) (avg (it_id ?item)) (priceBandBps config) tick i"
  let ?q = "resolveContractQuantity (it_code ?item) tick i"
  let ?c = "\<lparr>ct_id = newId E d, ct_buyerCompanyId = co_id ?buyer, ct_sellerCompanyId = None,
           ct_itemId = it_id ?item, ct_quantity = ?q, ct_remainingQuantity = ?q,
           ct_priceCents = ?p, ct_status = ContractOPEN, ct_tickCreated = tick,
           ct_tickExpires = tick + ttlTicks config, ct_tickAccepted = None, ct_tickClosed = None,
           ct_createdAt = currentTime E d\<rparr>"
  consider "n' = n" "d' = d" | "n' = n + 1" "createContractRow ?c d = Inr (?c, d')"
    using assms(1)
    by (auto simp: generateContract_def Let_def andThen_Inr_iff createRow_Inr split: if_splits)
  then show ?thesis
  proof cases
    case 1
    with assms(2) show ?thesis by (auto simp: appendsOpen_def)
  next
    case 2
    from 2(2) have new: "rowFind ct_id (newId E d) (contracts d) = None"
      "contracts d' = contracts d @ [?c]" "contractFulfillments d' = contractFulfillments d"
      "companies d' = companies d" "inventories d' = inventories d" "marketOrders d' = marketOrders d"
      by (auto simp: createRow_Inr)
    have ok: "contractOk ?c"
      using resolveContractUnitPriceCents_pos resolveContractQuantity_pos
      by (simp add: contractOk_def less_imp_le)
    have unused: "cf_contractId f \<noteq> newId E d" if "f \<in> set (contractFulfillments d)" for f
    proof -
      have "cf_contractId f \<in> ct_id ` set (contracts d)" using assms(2) that by (force simp: contractsOk_def)
      then show ?thesis using new(1) by (auto simp: rowFind_None)
    qed
    have none: "delivered (newId E d) d' = 0"
      unfolding delivered_def new(3) by (rule sum_list_none) (rule unused)
    have same: "delivered cid d' = delivered cid d" for cid by (simp add: delivered_def new(3))
    have "rowsOk ct_id contractOk (contracts d')"
      unfolding new(2) by (rule rowsOk_append) (use assms(2) ok new(1) in \<open>simp_all add: contractsOk_def\<close>)
    then have "contractsOk d'"
      using assms(2) none same by (auto simp: contractsOk_def new(2,3))
    with 2(1) new show ?thesis by (auto simp: appendsOpen_def)
  qed
qed

lemma generateContracts_loop:
  assumes "forEach (generateContract E config tick is bs avg) js (n, d) = Inr (n', d')" and "contractsOk d"
  shows "contractsOk d' \<and> appendsOpen (tick + ttlTicks config) d d' \<and>
    int (length (contracts d')) = int (length (contracts d)) + (n' - n) \<and>
    n \<le> n' \<and> n' \<le> n + int (length js)"
  using assms
proof (induction js arbitrary: n d)
  case Nil
  then show ?case by (simp add: appendsOpen_def)
next
  case (Cons j js)
  from Cons.prems(1) obtain m e where
    e: "generateContract E config tick is bs avg j (n, d) = Inr (m, e)"
       "forEach (generateContract E config tick is bs avg) js (m, e) = Inr (n', d')"
    by (auto simp: andThen_Inr_iff)
  note one = generateContract_effect [OF e(1) Cons.prems(2)]
  note rest = Cons.IH [OF e(2)]
  have "appendsOpen (tick + ttlTicks config) d d'"
    using one rest by (fastforce simp: appendsOpen_def)
  then show ?case using one rest by auto
qed

lemma generateContractsForTick_effect:
  assumes "generateContractsForTick E t overrides d = Inr (n, d')" and "contractsOk d"
    and "resolveContractLifecycleConfig E overrides = Inr config"
  shows "contractsOk d' \<and> appendsOpen (num t + ttlTicks config) d d' \<and>
    int (length (contracts d')) = int (length (contracts d)) + n \<and> 0 \<le> n \<and> n \<le> contractsPerTick config"
proof -
  have ok: "0 \<le> contractsPerTick config"
    using assms(3) by (auto simp: resolveContractLifecycleConfig_def Let_def branch_Inr)
  show ?thesis
  proof (cases "n = 0 \<and> d' = d")
    case True
    then show ?thesis using assms(2) ok by (auto simp: appendsOpen_def)
  next
    case False
    with assms(1,3) obtain ics bs avg where loop:
      "forEach (generateContract E config (num t) ics bs avg) (map int [0..<nat (contractsPerTick config)]) (0, d) = Inr (n, d')"
      by (auto simp: generateContractsForTick_def Let_def split: if_splits)
    from generateContracts_loop [OF loop assms(2)] ok show ?thesis by simp
  qed
qed

lemma expireContractsForTick_effect:
  assumes "expireContractsForTick t d = Inr (n, d')"
  shows "0 \<le> num t \<and> n = countWhere (isExpirable (num t)) (contracts d) \<and>
    contracts d' = mapWhere (isExpirable (num t))
      (\<lambda>c. c\<lparr>ct_status := ContractEXPIRED, ct_tickClosed := Some (num t)\<rparr>) (contracts d) \<and>
    contractFulfillments d' = contractFulfillments d \<and> companies d' = companies d \<and>
    inventories d' = inventories d \<and> marketOrders d' = marketOrders d"
  using assms by (auto simp: expireContractsForTick_def split: if_splits)

lemma expire_contractsOk:
  assumes "expireContractsForTick t d = Inr (n, d')" and "contractsOk d"
  shows "contractsOk d'"
proof -
  note e = expireContractsForTick_effect [OF assms(1)]
  let ?g = "\<lambda>c. if isExpirable (num t) c
     then c\<lparr>ct_status := ContractEXPIRED, ct_tickClosed := Some (num t)\<rparr> else c"
  have rows: "contracts d' = map ?g (contracts d)" and same: "contractFulfillments d' = contractFulfillments d"
    using e by (simp_all add: mapWhere_def)
  have moves: "contractMoves c (?g c)" for c
    by (auto simp: contractMoves_def intro: contractMove.expire)
  show ?thesis by (rule contractsOk_map [OF assms(2) rows same]) (use moves in auto)
qed

text \<open>
  What the turn \<open>i\<close> of the generating loop offers: a buyer, an item, the unit price and the quantity;
  it becomes a contract when the buyer's cash covers all of it.
\<close>

definition turnOffer ::
    "contractLifecycleConfig \<Rightarrow> int \<Rightarrow> item list \<Rightarrow> company list \<Rightarrow> (string \<rightharpoonup> int) \<Rightarrow> int \<Rightarrow> company \<times> item \<times> int \<times> int" where
  "turnOffer config tick offered bots averages i =
     (let item = offered ! nat ((tick + i) mod int (length offered)) in
      (bots ! nat ((tick + i * 3) mod int (length bots)), item,
       resolveContractUnitPriceCents (it_code item) (averages (it_id item)) (priceBandBps config) tick i,
       resolveContractQuantity (it_code item) tick i))"

definition covered :: "company \<times> item \<times> int \<times> int \<Rightarrow> bool" where
  "covered = (\<lambda>(buyer, item, price, n). price * n \<le> co_cashCents buyer)"

definition offersOfTick :: "env \<Rightarrow> contractLifecycleConfig \<Rightarrow> int \<Rightarrow> db \<Rightarrow> (company \<times> item \<times> int \<times> int) list" where
  "offersOfTick E config tick d =
     (let offered = offeredItems E config d; bots = contractBots E d in
      if offered = [] \<or> bots = [] then []
      else filter covered (map (turnOffer config tick offered bots (loadRecentTradeAveragesByItem (map it_id offered) d))
        (map int [0..<nat (contractsPerTick config)])))"

text \<open>A new contract for an offer: open, without a seller, nothing delivered, expiring in time.\<close>

definition offeredAs :: "int \<Rightarrow> int \<Rightarrow> company \<times> item \<times> int \<times> int \<Rightarrow> contract \<Rightarrow> bool" where
  "offeredAs tick ttl = (\<lambda>(buyer, item, price, n) c.
     c = \<lparr>ct_id = ct_id c, ct_buyerCompanyId = co_id buyer, ct_sellerCompanyId = None, ct_itemId = it_id item,
       ct_quantity = n, ct_remainingQuantity = n, ct_priceCents = price, ct_status = ContractOPEN,
       ct_tickCreated = tick, ct_tickExpires = tick + ttl, ct_tickAccepted = None, ct_tickClosed = None,
       ct_createdAt = ct_createdAt c\<rparr>)"

lemma generateContract_rows:
  assumes "generateContract E config tick is bs avg i (n, d) = Inr (n', d')"
  shows "\<exists>new. contracts d' = contracts d @ new \<and> n' = n + int (length new) \<and>
    list_all2 (offeredAs tick (ttlTicks config)) (filter covered [turnOffer config tick is bs avg i]) new"
  using assms
  by (auto simp: generateContract_def turnOffer_def covered_def offeredAs_def Let_def andThen_Inr_iff createRow_Inr
      split: if_splits)

lemma generateContracts_rows:
  assumes "forEach (generateContract E config tick is bs avg) js (n, d) = Inr (n', d')"
  shows "\<exists>new. contracts d' = contracts d @ new \<and> n' = n + int (length new) \<and>
    list_all2 (offeredAs tick (ttlTicks config)) (filter covered (map (turnOffer config tick is bs avg) js)) new"
  using assms
proof (induction js arbitrary: n d)
  case Nil
  then show ?case by simp
next
  case (Cons j js)
  from Cons.prems obtain m e where
    e: "generateContract E config tick is bs avg j (n, d) = Inr (m, e)"
       "forEach (generateContract E config tick is bs avg) js (m, e) = Inr (n', d')"
    by (auto simp: andThen_Inr_iff)
  obtain n1 where n1: "contracts e = contracts d @ n1" "m = n + int (length n1)"
    "list_all2 (offeredAs tick (ttlTicks config)) (filter covered [turnOffer config tick is bs avg j]) n1"
    using generateContract_rows [OF e(1)] by blast
  obtain n2 where n2: "contracts d' = contracts e @ n2" "n' = m + int (length n2)"
    "list_all2 (offeredAs tick (ttlTicks config)) (filter covered (map (turnOffer config tick is bs avg) js)) n2"
    using Cons.IH [OF e(2)] by blast
  have "filter covered (map (turnOffer config tick is bs avg) (j # js)) =
      filter covered [turnOffer config tick is bs avg j] @ filter covered (map (turnOffer config tick is bs avg) js)"
    by simp
  then show ?case using n1 n2
    by (intro exI [of _ "n1 @ n2"]) (simp only: append_assoc length_append of_nat_add list_all2_appendI simp_thms add.assoc)
qed

lemma generateContractsForTick_rows:
  assumes "generateContractsForTick E t overrides d = Inr (n, d')"
    and "resolveContractLifecycleConfig E overrides = Inr config"
  shows "\<exists>new. contracts d' = contracts d @ new \<and> n = int (length new) \<and>
    list_all2 (offeredAs (num t) (ttlTicks config)) (offersOfTick E config (num t) d) new"
proof -
  consider "n = 0" "d' = d" "offersOfTick E config (num t) d = []"
    | "offeredItems E config d \<noteq> []" "contractBots E d \<noteq> []"
      "forEach (generateContract E config (num t) (offeredItems E config d) (contractBots E d)
         (loadRecentTradeAveragesByItem (map it_id (offeredItems E config d)) d))
         (map int [0..<nat (contractsPerTick config)]) (0, d) = Inr (n, d')"
    using assms by (auto simp: generateContractsForTick_def offersOfTick_def Let_def split: if_splits)
  then show ?thesis
  proof cases
    case 2
    from generateContracts_rows [OF 2(3)] 2(1,2) show ?thesis by (simp add: offersOfTick_def Let_def)
  qed simp
qed

lemma averages_contracts [simp]:
  "loadRecentTradeAveragesByItem ks (contracts_update f d) = loadRecentTradeAveragesByItem ks d"
  by (rule ext) (simp add: loadRecentTradeAveragesByItem_def)

lemma offersOfTick_contracts [simp]: "offersOfTick E config t (contracts_update f d) = offersOfTick E config t d"
  by (simp add: offersOfTick_def offeredItems_def contractBots_def Let_def)

text \<open>
  C36. The contract stage of a tick, exactly: every open, accepted or partly fulfilled contract that has
  reached its expiry is EXPIRED and closed at the tick, every other contract stays as it is, and behind
  them stand the new contracts, one for each turn whose buyer's cash covers it, in the order of the turns,
  each open, with nothing delivered, at the turn's price and quantity and with its time to live ahead.
  What is reported are their numbers; no account, stock or order changes and the contracts stay
  well-formed.
\<close>

theorem contract_stage_exact:
  assumes "runContractLifecycleForTick E t overrides d = Inr (r, d')" and "contractsOk d"
    and "resolveContractLifecycleConfig E overrides = Inr config"
  shows "contractsOk d' \<and>
    (\<exists>new. contracts d' = map (\<lambda>c. if isExpirable (num t) c
         then c\<lparr>ct_status := ContractEXPIRED, ct_tickClosed := Some (num t)\<rparr> else c) (contracts d) @ new \<and>
       list_all2 (offeredAs (num t) (ttlTicks config)) (offersOfTick E config (num t) d) new \<and>
       generatedCount r = int (length new) \<and> generatedCount r \<le> contractsPerTick config) \<and>
    expiredCount r = int (length (filter (isExpirable (num t)) (contracts d))) \<and>
    (\<forall>c\<in>set (contracts d'). \<not> isExpirable (num t) c) \<and>
    companies d' = companies d \<and> inventories d' = inventories d \<and> marketOrders d' = marketOrders d"
proof -
  from assms(1) obtain expired e generated where
    e: "expireContractsForTick t d = Inr (expired, e)"
    and g: "generateContractsForTick E t overrides e = Inr (generated, d')"
    and r: "r = \<lparr>generatedCount = generated, expiredCount = expired\<rparr>"
    by (auto simp: runContractLifecycleForTick_def andThen_Inr_iff)
  note ee = expireContractsForTick_effect [OF e]
  note gg = generateContractsForTick_effect [OF g expire_contractsOk [OF e assms(2)] assms(3)]
  have "offersOfTick E config (num t) e = offersOfTick E config (num t) d"
    using e by (auto simp: expireContractsForTick_def split: if_splits)
  then obtain new where new: "contracts d' = contracts e @ new" "generated = int (length new)"
    "list_all2 (offeredAs (num t) (ttlTicks config)) (offersOfTick E config (num t) d) new"
    using generateContractsForTick_rows [OF g assms(3)] by auto
  have ttl: "0 < ttlTicks config"
    using assms(3) by (auto simp: resolveContractLifecycleConfig_def Let_def branch_Inr)
  have "\<not> isExpirable (num t) c" if "c \<in> set (contracts d')" for c
  proof (cases "c \<in> set new")
    case True
    then obtain i where "i < length new" "c = new ! i" by (auto simp: in_set_conv_nth)
    with new(3) have "offeredAs (num t) (ttlTicks config) (offersOfTick E config (num t) d ! i) c"
      by (simp add: list_all2_conv_all_nth)
    then have "ct_tickExpires c = num t + ttlTicks config"
      by (auto simp: offeredAs_def split: prod.splits dest!: arg_cong [where f = ct_tickExpires])
    then show ?thesis using ttl by (simp add: isExpirable_def)
  next
    case False
    then show ?thesis using that new(1) ee by (auto simp: mapWhere_def isExpirable_def)
  qed
  then show ?thesis using ee gg r new by (auto simp: mapWhere_def countWhere_def appendsOpen_def)
qed

subsection \<open>The handlers follow the automaton\<close>

inductive contractStep :: "env \<Rightarrow> db \<Rightarrow> db \<Rightarrow> bool" for E where
  accept: "contractStep E d (snd (acceptContract input d))"
| fulfill: "contractStep E d (snd (fulfillContract E input d))"
| lifecycle: "runContractLifecycleForTick E t overrides d = Inr (r, d') \<Longrightarrow> contractStep E d d'"

definition followsAutomaton :: "db \<Rightarrow> db \<Rightarrow> bool" where
  "followsAutomaton d d' \<longleftrightarrow>
     (\<exists>olds new. contracts d' = olds @ new \<and> list_all2 contractMoves (contracts d) olds \<and>
        (\<forall>c\<in>set new. ct_status c = ContractOPEN))"

lemma followsAutomaton_map:
  assumes "contracts d' = map g (contracts d)" and "\<And>c. c \<in> set (contracts d) \<Longrightarrow> contractMoves c (g c)"
  shows "followsAutomaton d d'"
  unfolding followsAutomaton_def
  by (rule exI [of _ "contracts d'"], rule exI [of _ "[]"])
    (use assms in \<open>simp add: list_all2_conv_all_nth\<close>)

lemma followsAutomaton_refl: "contracts d' = contracts d \<Longrightarrow> followsAutomaton d d'"
  by (rule followsAutomaton_map [of d' id]) (simp_all add: contractMoves_def)

lemma acceptContract_follows:
  assumes "acceptContract input d = (r, d')" and "contractsOk d"
  shows "contractsOk d' \<and> followsAutomaton d d'"
proof (cases "d' = d")
  case True
  then show ?thesis using assms(2) by (simp add: followsAutomaton_refl)
next
  case False
  with assms(1) obtain c' where run: "acceptContractWithTx input d = Inr (c', d')"
    by (auto simp: acceptContract_def transaction_def split: if_splits sum.splits)
  from acceptContractWithTx_effect [OF run] obtain P tick where
    rows: "contracts d' = mapWhere P (\<lambda>x. x\<lparr>ct_sellerCompanyId := Some (ac_sellerCompanyId input),
        ct_status := ContractACCEPTED, ct_tickAccepted := Some tick\<rparr>) (contracts d)" and
    P: "\<And>x. P x \<Longrightarrow> ct_status x = ContractOPEN \<and> tick < ct_tickExpires x" and
    same: "contractFulfillments d' = contractFulfillments d" by blast
  let ?g = "\<lambda>x. if P x then x\<lparr>ct_sellerCompanyId := Some (ac_sellerCompanyId input),
        ct_status := ContractACCEPTED, ct_tickAccepted := Some tick\<rparr> else x"
  have map: "contracts d' = map ?g (contracts d)" by (simp add: rows mapWhere_def)
  have moves: "contractMoves c (?g c)" for c
    using P [of c] by (auto simp: contractMoves_def intro: contractMove.accept)
  have "contractsOk d'"
    by (rule contractsOk_map [OF assms(2) map same]) (use moves in auto)
  moreover have "followsAutomaton d d'" by (rule followsAutomaton_map [OF map moves])
  ultimately show ?thesis by blast
qed

lemma sdiv_uminus: "0 \<le> x \<Longrightarrow> 0 < m \<Longrightarrow> (- x) sdiv m = - (x div (m :: int))"
  by (cases "x = 0") (simp_all add: signed_divide_int_def sgn_1_pos)

lemma delivered_snoc:
  assumes "contractFulfillments d' = contractFulfillments d @ [f]"
  shows "delivered cid d' = delivered cid d + (if cf_contractId f = cid then cf_quantity f else 0)"
  by (simp add: delivered_def assms)

lemma fulfillContract_follows:
  assumes "fulfillContract E input d = (r, d')" and "contractsOk d" and "marketOk d"
  shows "contractsOk d' \<and> followsAutomaton d d'"
proof (cases "d' = d")
  case True
  then show ?thesis using assms(2) by (simp add: followsAutomaton_refl)
next
  case False
  let ?n = "num (fc_quantity input)"
  from assms(1) False obtain c' f where run: "fulfillContractWithTx E input d = Inr ((c', f), d')"
    and n: "0 < ?n"
    by (auto simp: fulfillContract_def transaction_def split: if_splits sum.splits)
  from run obtain c where c: "findContract (fc_contractId input) d = Some c"
    by (auto elim: fulfillContractWithTx_Inr)
  have dist: "distinct (map ct_id (contracts d))" using assms(2) by (simp add: contractsOk_def rowsOk_def)
  have mem: "c \<in> set (contracts d)" by (rule rowFind_in [OF c])
  have ok: "contractOk c" using assms(2) mem by (simp add: contractsOk_def rowsOk_def)
  then have price: "0 \<le> ct_priceCents c" by (simp add: contractOk_def)
  from fulfillContract_effect [OF run assms(3) n dist c price] obtain tick where
    status: "ct_status c = ContractACCEPTED \<or> ct_status c = ContractPARTIALLY_FULFILLED" and
    le: "?n \<le> ct_remainingQuantity c" and
    rows: "contracts d' = rowSet ct_id (ct_id c) (deliver ?n tick) (contracts d)" and
    log: "contractFulfillments d' = contractFulfillments d @ [f]" and
    f: "cf_contractId f = ct_id c" "cf_quantity f = ?n" by blast
  let ?g = "\<lambda>x. if ct_id x = ct_id c then deliver ?n tick x else x"
  have map: "contracts d' = map ?g (contracts d)" by (simp add: rows rowSet_def)
  have uniq: "x = c" if "x \<in> set (contracts d)" "ct_id x = ct_id c" for x
    using rowFind_unique [OF dist that(1)] rowFind_unique [OF dist mem] that(2) by (metis option.inject)
  have move: "contractMove c (deliver ?n tick c)" by (rule contractMove.delivery [OF status n le])
  have moves: "contractMoves x (?g x)" if "x \<in> set (contracts d)" for x
    using move uniq [OF that] by (auto simp: contractMoves_def)
  have row: "contractOk (?g x) \<and> ct_id (?g x) = ct_id x" if x: "x \<in> set (contracts d)" for x
    using moves [OF x] contractMove_ok [of x "?g x"] assms(2) x
    by (auto simp: contractsOk_def rowsOk_def contractMoves_def)
  have ids: "map ct_id (contracts d') = map ct_id (contracts d)" by (simp add: map)
  have "rowsOk ct_id contractOk (contracts d')"
    unfolding rowsOk_def
  proof (intro conjI ballI)
    show "distinct (map ct_id (contracts d'))" unfolding ids by (rule dist)
    fix y assume "y \<in> set (contracts d')"
    then obtain x where "x \<in> set (contracts d)" "y = ?g x" by (auto simp: map)
    then show "contractOk y" using row by blast
  qed
  moreover have "ct_remainingQuantity x' + delivered (ct_id x') d' = ct_quantity x'"
    if x': "x' \<in> set (contracts d')" for x'
  proof -
    from x' obtain x where x: "x \<in> set (contracts d)" "x' = ?g x" by (auto simp: map)
    have "ct_remainingQuantity x + delivered (ct_id x) d = ct_quantity x"
      using assms(2) x(1) by (simp add: contractsOk_def)
    then show ?thesis by (cases "ct_id x = ct_id c") (simp_all add: x(2) delivered_snoc [OF log] f deliver_def)
  qed
  moreover have "\<exists>x\<in>set (contracts d'). ct_id x = cf_contractId g" if "g \<in> set (contractFulfillments d')" for g
  proof -
    have "cf_contractId g \<in> set (map ct_id (contracts d))"
      using assms(2) that mem f(1) by (force simp: contractsOk_def log)
    then show ?thesis unfolding ids [symmetric] by auto
  qed
  ultimately have "contractsOk d'" by (simp add: contractsOk_def)
  moreover have "followsAutomaton d d'" by (rule followsAutomaton_map [OF map moves])
  ultimately show ?thesis by blast
qed

lemma lifecycle_follows:
  assumes "runContractLifecycleForTick E t overrides d = Inr (r, d')" and "contractsOk d"
  shows "contractsOk d' \<and> followsAutomaton d d'"
proof -
  from assms(1) obtain expired e generated where
    e: "expireContractsForTick t d = Inr (expired, e)"
    and g: "generateContractsForTick E t overrides e = Inr (generated, d')"
    by (auto simp: runContractLifecycleForTick_def andThen_Inr_iff)
  from g obtain config where config: "resolveContractLifecycleConfig E overrides = Inr config"
    by (auto simp: generateContractsForTick_def andThen_Inr_iff branch_Inr)
  note ee = expireContractsForTick_effect [OF e]
  note gg = generateContractsForTick_effect [OF g expire_contractsOk [OF e assms(2)] config]
  from gg obtain new where new: "contracts d' = contracts e @ new"
    "\<forall>c\<in>set new. ct_status c = ContractOPEN" by (auto simp: appendsOpen_def)
  have "list_all2 contractMoves (contracts d) (contracts e)"
    using ee by (auto simp: mapWhere_def list_all2_conv_all_nth contractMoves_def
        intro: contractMove.expire)
  with new gg show ?thesis unfolding followsAutomaton_def by blast
qed

text \<open>
  C17. The contract handlers refine the life-cycle automaton: whatever they are called with and
  whatever they answer, each existing contract stays as it is or makes one move of the automaton,
  contracts only appear open, and status, seller, remaining quantity and recorded deliveries of
  every contract still fit together.
\<close>

theorem contract_protocol:
  assumes "contractStep E d d'" and "contractsOk d" and "marketOk d"
  shows "contractsOk d' \<and> followsAutomaton d d'"
  using assms
proof (cases rule: contractStep.cases)
  case (accept input)
  then show ?thesis using acceptContract_follows [OF _ assms(2)] by (metis prod.collapse)
next
  case (fulfill input)
  then show ?thesis using fulfillContract_follows [OF _ assms(2,3)] by (metis prod.collapse)
next
  case (lifecycle t overrides r)
  then show ?thesis using lifecycle_follows [OF _ assms(2)] by blast
qed

text \<open>The base price a contract price is taken from.\<close>

definition contractBasePrice :: "string \<Rightarrow> int option \<Rightarrow> int" where
  "contractBasePrice code average =
     (case average of Some p \<Rightarrow> p
      | None \<Rightarrow> (case map_of FALLBACK_PRICE_CENTS_BY_ITEM_CODE code of Some p \<Rightarrow> p
      | None \<Rightarrow> (case resolveIconItemFallbackPriceCents code of Some p \<Rightarrow> p | None \<Rightarrow> 100)))"

text \<open>
  A generated price is positive and lies within the configured band (in hundredths of a
  percent) around the recent average or the fallback price, raised to one cent where the band
  would reach zero; on even turns it is not below the base price, on odd turns not above it.
\<close>

theorem contract_price_band:
  assumes "0 < contractBasePrice code average" and "0 \<le> bps"
  shows "let base = contractBasePrice code average; step = base * bps div 10000;
             price = resolveContractUnitPriceCents code average bps tick i in
    0 < price \<and> \<bar>price - base\<bar> \<le> step \<and>
    price = (if even (tick + i) then base + step else max 1 (base - step))"
proof -
  let ?b = "contractBasePrice code average"
  let ?p = "resolveContractUnitPriceCents code average bps tick i"
  have nn: "0 \<le> ?b * bps" using assms by simp
  then have neg: "(- (?b * bps)) sdiv 10000 = - (?b * bps div 10000)"
    by (rule sdiv_uminus) simp
  have pos: "(?b * bps) sdiv 10000 = ?b * bps div 10000"
    by (rule sdiv_nonneg [OF nn]) simp
  have step: "0 \<le> ?b * bps div 10000" using nn by (simp add: pos_imp_zdiv_nonneg_iff)
  have p: "?p = (if even (tick + i) then ?b + ?b * bps div 10000 else max 1 (?b - ?b * bps div 10000))"
    using assms(1) neg pos step
    by (auto simp: resolveContractUnitPriceCents_def contractBasePrice_def Let_def
        even_iff_mod_2_eq_zero max_def)
  have "0 < ?p" by (simp add: resolveContractUnitPriceCents_pos)
  moreover have "\<bar>?p - ?b\<bar> \<le> ?b * bps div 10000"
    using assms(1) step unfolding p by (auto simp: max_def)
  ultimately show ?thesis using p by (simp add: Let_def)
qed

subsection \<open>A concrete market with a contract\<close>

definition mkContract :: "string \<Rightarrow> string \<Rightarrow> string option \<Rightarrow> int \<Rightarrow> int \<Rightarrow> contractStatus \<Rightarrow> contract" where
  "mkContract cid buyerId sellerId qty price status =
     \<lparr>ct_id = cid, ct_buyerCompanyId = buyerId, ct_sellerCompanyId = sellerId, ct_itemId = ''ore'',
      ct_quantity = qty, ct_remainingQuantity = qty, ct_priceCents = price, ct_status = status,
      ct_tickCreated = 1, ct_tickExpires = 20, ct_tickAccepted = None, ct_tickClosed = None,
      ct_createdAt = 1\<rparr>"

definition contractDb :: "int \<Rightarrow> db" where
  "contractDb ordered = fixtureDb\<lparr>
     companies := companies fixtureDb @
       [mkCompany ''n'' False ''r1'' 1000 (ordered * 100), mkCompany ''s'' False ''r1'' 500 0],
     inventories := inventories fixtureDb @ [mkInventory ''s'' ''ore'' ''r1'' 20 0],
     marketOrders := marketOrders fixtureDb @
       (if ordered = 0 then [] else [mkOrder ''o3'' ''n'' ''ore'' BUY ordered 100 3]),
     contracts := [mkContract ''k'' ''n'' (Some ''s'') 10 100 ContractACCEPTED,
       mkContract ''l'' ''n'' None 3 100 ContractOPEN]\<rparr>"

definition deliveryInput :: fulfillContractInput where
  "deliveryInput = \<lparr>fc_contractId = ''k'', fc_sellerCompanyId = ''s'', fc_quantity = IntN 4, fc_tick = None\<rparr>"

definition contractOverridesNone :: contractOverrides where
  "contractOverridesNone = \<lparr>oc_contractsPerTick = None, oc_ttlTicks = None, oc_itemCodes = None,
     oc_priceBandBps = None\<rparr>"

lemma contractDb_ok: "marketOk (contractDb 0)" "contractsOk (contractDb 0)"
  by code_simp+

theorem contract_settlement_conserves_witness:
  "\<exists>c' f d'. fulfillContract fixtureEnv deliveryInput (contractDb 0) = (Inr (c', f), d') \<and>
     cf_quantity f = 4 \<and> totalCash d' = totalCash (contractDb 0)"
proof -
  have "case fulfillContract fixtureEnv deliveryInput (contractDb 0) of
      (Inl _, _) \<Rightarrow> False | (Inr (c', f), d') \<Rightarrow> cf_quantity f = 4" by code_simp
  then obtain c' f d' where r: "fulfillContract fixtureEnv deliveryInput (contractDb 0) = (Inr (c', f), d')"
    "cf_quantity f = 4" by (auto split: sum.splits prod.splits)
  have "distinct (map ct_id (contracts (contractDb 0)))"
    "findContract (fc_contractId deliveryInput) (contractDb 0) = Some (mkContract ''k'' ''n'' (Some ''s'') 10 100 ContractACCEPTED)"
    "0 \<le> ct_priceCents (mkContract ''k'' ''n'' (Some ''s'') 10 100 ContractACCEPTED)" by code_simp+
  from contract_settlement_conserves [OF r(1) contractDb_ok(1) this] r show ?thesis by blast
qed

theorem contract_stage_exact_witness:
  "\<exists>r d'. runContractLifecycleForTick fixtureEnv (IntN 25) contractOverridesNone (contractDb 0) = Inr (r, d') \<and>
     expiredCount r = 2 \<and> contractsOk d' \<and> (\<forall>c\<in>set (contracts d'). \<not> isExpirable 25 c)"
proof -
  have "case runContractLifecycleForTick fixtureEnv (IntN 25) contractOverridesNone (contractDb 0) of
      Inl _ \<Rightarrow> False | Inr (r, d') \<Rightarrow> expiredCount r = 2" by code_simp
  then obtain r d' where r: "runContractLifecycleForTick fixtureEnv (IntN 25) contractOverridesNone (contractDb 0) = Inr (r, d')"
    "expiredCount r = 2" by (auto split: sum.splits)
  have config: "resolveContractLifecycleConfig fixtureEnv contractOverridesNone = Inr DEFAULT_CONTRACT_LIFECYCLE_CONFIG"
    by code_simp
  from contract_stage_exact [OF r(1) contractDb_ok(2) config] r show ?thesis by (simp del: ex_simps)
qed

theorem contract_protocol_witness:
  "contractStep fixtureEnv (contractDb 0) (snd (fulfillContract fixtureEnv deliveryInput (contractDb 0))) \<and>
   followsAutomaton (contractDb 0) (snd (fulfillContract fixtureEnv deliveryInput (contractDb 0)))"
  using contract_protocol [OF contractStep.fulfill contractDb_ok(2,1)] contractStep.fulfill by blast

theorem contract_price_band_witness:
  "0 < contractBasePrice ''IRON_ORE'' None \<and>
   resolveContractUnitPriceCents ''IRON_ORE'' None 500 7 0 = 76 \<and>
   resolveContractUnitPriceCents ''IRON_ORE'' None 500 7 0 = max 1 (80 - 4)"
proof -
  have b: "contractBasePrice ''IRON_ORE'' None = 80" by code_simp
  show ?thesis using contract_price_band [of "''IRON_ORE''" None 500 7 0] by (simp add: b Let_def)
qed

text \<open>A delivery may spend cash its buyer has reserved for its open orders.\<close>

lemma fulfillContract_spends_reserved_cash:
  "marketOk (contractDb 9) \<and>
   \<not> marketOk (snd (fulfillContract fixtureEnv deliveryInput (contractDb 9)))"
  by code_simp

text \<open>
  The guard of the goods' update names the stock's amounts but not its region: a seller that holds
  the same amounts in two regions cannot deliver at all.
\<close>

definition twinStockDb :: db where
  "twinStockDb = contractDb 0\<lparr>inventories := inventories (contractDb 0) @ [mkInventory ''s'' ''ore'' ''r2'' 20 0]\<rparr>"

lemma fulfillContract_twin_stock_conflict:
  "marketOk twinStockDb \<and> fst (fulfillContract fixtureEnv deliveryInput twinStockDb) =
     Inl (OptimisticLockConflictError
       ''seller inventory changed during contract fulfillment; retry operation'')"
  by code_simp

subsection \<open>The stage's contract\<close>

lemma generateContracts_masters:
  assumes "generateContractsForTick E tick overrides d = Inr (n, d')"
  shows "masters d' = masters d"
proof -
  have one: "masters (snd s') = masters (snd s)"
    if "generateContract E config t is bs avg i s = Inr s'" for config t "is" bs avg i s s'
    using that by (cases s) (auto simp: generateContract_def Let_def andThen_Inr_iff createRow_Inr masters_def
        split: if_splits)
  have loop: "masters e' = masters d"
    if "forEach (generateContract E config t is bs avg) js (0, d) = Inr (k, e')" for config t "is" bs avg js k e'
  proof -
    have "masters (snd (k, e')) = masters d"
      by (rule forEach_invariant [OF that, where P = "\<lambda>s. masters (snd s) = masters d"]) (simp_all add: one)
    then show ?thesis by simp
  qed
  show ?thesis
    using assms loop by (auto simp: generateContractsForTick_def andThen_Inr_iff Let_def split: if_splits)
qed

lemma generateContracts_frame:
  assumes "generateContractsForTick E tick overrides d = Inr (n, d')"
  shows "companies d' = companies d \<and> inventories d' = inventories d \<and> marketOrders d' = marketOrders d"
proof -
  let ?t = "\<lambda>d. (companies d, inventories d, marketOrders d)"
  have one: "?t (snd s') = ?t (snd s)"
    if "generateContract E config t is bs avg i s = Inr s'" for config t "is" bs avg i s s'
    using that by (cases s) (auto simp: generateContract_def Let_def andThen_Inr_iff createRow_Inr split: if_splits)
  have loop: "?t e' = ?t d"
    if "forEach (generateContract E config t is bs avg) js (0, d) = Inr (k, e')" for config t "is" bs avg js k e'
  proof -
    have "?t (snd (k, e')) = ?t d"
      by (rule forEach_invariant [OF that, where P = "\<lambda>s. ?t (snd s) = ?t d"]) (simp_all add: one)
    then show ?thesis by simp
  qed
  show ?thesis
    using assms loop by (auto simp: generateContractsForTick_def andThen_Inr_iff Let_def split: if_splits)
qed

lemma contractStage_law:
  assumes "effectOf (runContractLifecycleForTick E tick overrides d) = Inr d'" and ok: "tickOk d"
  shows "marketOk d' \<and> masters d' = masters d \<and> totalCash d' \<le> totalCash d \<and> companies d' = companies d"
proof -
  from assms(1) obtain n e m where e: "expireContractsForTick tick d = Inr (n, e)"
    and g: "generateContractsForTick E tick overrides e = Inr (m, d')"
    by (auto simp: effectOf_Inr runContractLifecycleForTick_def andThen_Inr_iff)
  have "masters e = masters d" using e by (auto simp: expireContractsForTick_def masters_def split: if_splits)
  with expireContractsForTick_effect [OF e] generateContracts_frame [OF g] generateContracts_masters [OF g]
    ok marketOk_same [of d d']
  show ?thesis by (simp add: tickOk_def totalCash_def)
qed

interpretation contractStage: quiet_stage "\<lambda>d. effectOf (runContractLifecycleForTick E tick overrides d)"
  for E tick overrides
  by unfold_locales (simp_all add: contractStage_law)

end
