(* ===== verification/DemandSink.thy ===== *)
theory DemandSink
  imports Fixture "HOL-Library.Word"
begin

section \<open>The baseline demand\<close>

text \<open>
  \<open>packages/sim/src/services/demand-sink.ts\<close>: at each tick the simulated companies consume stock
  of the configured items. The amount is a base plus an offset derived from the tick and a 32-bit
  hash of the company's and the item's code; it is taken from free stock only, region by region.
\<close>

record demandSinkConfig =
  ds_enabled :: bool
  ds_itemCodes :: "string list"
  ds_baseQuantityPerCompany :: int
  ds_variabilityQuantity :: int

record demandOverrides =
  od_enabled :: "bool option"
  od_itemCodes :: "string list option"
  od_baseQuantityPerCompany :: "jsnum option"
  od_variabilityQuantity :: "jsnum option"

record demandSinkTickResult =
  consumedTotal :: int
  consumedByItemCode :: "(string \<times> int) list"

definition DEFAULT_ITEM_CODES :: "string list" where
  "DEFAULT_ITEM_CODES =
     [''HAND_TOOLS'', ''MACHINE_PARTS'', ''TOOL_KIT'', ''POWER_UNIT'', ''CONVEYOR_MODULE'',
      ''INDUSTRIAL_PRESS'', ''NEURAL_INTERFACE'', ''OCULAR_IMPLANT'', ''CYBER_ARMATURE'',
      ''SPINAL_LINK'', ''CYBERNETIC_SUITE'']"

definition DEFAULT_DEMAND_SINK_CONFIG :: demandSinkConfig where
  "DEFAULT_DEMAND_SINK_CONFIG =
     \<lparr>ds_enabled = True, ds_itemCodes = DEFAULT_ITEM_CODES, ds_baseQuantityPerCompany = 1,
      ds_variabilityQuantity = 2\<rparr>"

definition normalizeDemandItemCodes :: "env \<Rightarrow> string list \<Rightarrow> string list" where
  "normalizeDemandItemCodes E codes =
     sortBy (env_localeCompare E) (nubFirst (filter (\<lambda>entry. entry \<noteq> []) (map trim codes)))"

definition resolveDemandSinkConfig :: "env \<Rightarrow> demandOverrides \<Rightarrow> demandSinkConfig result" where
  "resolveDemandSinkConfig E overrides =
     (let codes = normalizeDemandItemCodes E (case od_itemCodes overrides of
            None \<Rightarrow> ds_itemCodes DEFAULT_DEMAND_SINK_CONFIG | Some cs \<Rightarrow> cs);
          enabled = (case od_enabled overrides of
            None \<Rightarrow> ds_enabled DEFAULT_DEMAND_SINK_CONFIG | Some b \<Rightarrow> b);
          base = (case od_baseQuantityPerCompany overrides of
            None \<Rightarrow> IntN (ds_baseQuantityPerCompany DEFAULT_DEMAND_SINK_CONFIG) | Some n \<Rightarrow> n);
          variability = (case od_variabilityQuantity overrides of
            None \<Rightarrow> IntN (ds_variabilityQuantity DEFAULT_DEMAND_SINK_CONFIG) | Some n \<Rightarrow> n) in
      if \<not> isInteger base \<or> num base < 0
        then Inl (DomainInvariantError ''baseQuantityPerCompany must be a non-negative integer'')
      else if \<not> isInteger variability \<or> num variability < 0
        then Inl (DomainInvariantError ''variabilityQuantity must be a non-negative integer'')
      else Inr \<lparr>ds_enabled = enabled, ds_itemCodes = codes, ds_baseQuantityPerCompany = num base,
                ds_variabilityQuantity = num variability\<rparr>)"

text \<open>The hash stays a 32-bit unsigned integer: \<open>>>> 0\<close> after each step.\<close>

definition stableHash :: "string \<Rightarrow> 32 word" where
  "stableHash input = foldl (\<lambda>hash c. hash * 31 + word_of_int (of_char c)) 0 input"

definition resolveDemandQuantityForCompanyItem ::
    "string \<Rightarrow> string \<Rightarrow> jsnum \<Rightarrow> demandSinkConfig \<Rightarrow> int result" where
  "resolveDemandQuantityForCompanyItem companyCode itemCode tick config =
     (if \<not> isInteger tick \<or> num tick < 0
        then Inl (DomainInvariantError ''tick must be a non-negative integer'')
      else if ds_variabilityQuantity config = 0 then Inr (ds_baseQuantityPerCompany config)
      else
        (let seed = uint (stableHash (companyCode @ '':'' @ itemCode)) in
         Inr (ds_baseQuantityPerCompany config +
              (num tick + seed) mod (ds_variabilityQuantity config + 1))))"

text \<open>
  What the loops carry: the snapshot of inventory rows read at the beginning, whose quantities
  the code lowers along with the database, and the amounts consumed so far.
\<close>

record demandState =
  dm_rows :: "inventory list"
  dm_consumed :: "(string \<times> int) list"
  dm_total :: int

fun addConsumed :: "string \<Rightarrow> int \<Rightarrow> (string \<times> int) list \<Rightarrow> (string \<times> int) list" where
  "addConsumed code n [] = [(code, n)]"
| "addConsumed code n ((k, m) # rest) =
     (if k = code then (k, m + n) # rest else (k, m) # addConsumed code n rest)"

definition consumeRow ::
    "string \<Rightarrow> inventory \<Rightarrow> int \<times> demandState \<times> db \<Rightarrow> (int \<times> demandState \<times> db) result" where
  "consumeRow itemCode row = (\<lambda>(remainingDemand, st, d).
     (let available = inv_quantity row - inv_reservedQuantity row;
          consumed = min available remainingDemand in
      if remainingDemand \<le> 0 \<or> available \<le> 0 \<or> consumed \<le> 0 then Inr (remainingDemand, st, d)
      else
        andThen (updateInventory (invKey row)
          (\<lambda>r. r\<lparr>inv_quantity := inv_quantity r - consumed\<rparr>) d) (\<lambda>(_, d).
        Inr (remainingDemand - consumed,
          \<lparr>dm_rows = rowSet invKey (invKey row)
             (\<lambda>r. r\<lparr>inv_quantity := inv_quantity r - consumed\<rparr>) (dm_rows st),
           dm_consumed = addConsumed itemCode consumed (dm_consumed st),
           dm_total = dm_total st + consumed\<rparr>, d))))"

definition demandKey :: "string \<Rightarrow> string \<Rightarrow> string" where
  "demandKey companyId itemId = companyId @ '':'' @ itemId"

definition demandRows :: "env \<Rightarrow> company \<Rightarrow> item \<Rightarrow> demandState \<Rightarrow> inventory list" where
  "demandRows E c i st =
     sortBy (\<lambda>x y. env_localeCompare E (inv_regionId x) (inv_regionId y))
       (filter (\<lambda>r. demandKey (inv_companyId r) (inv_itemId r) = demandKey (co_id c) (it_id i))
         (dm_rows st))"

definition consumeForCompanyItem ::
    "env \<Rightarrow> jsnum \<Rightarrow> demandSinkConfig \<Rightarrow> company \<Rightarrow> item \<Rightarrow> demandState \<times> db \<Rightarrow>
     (demandState \<times> db) result" where
  "consumeForCompanyItem E tick config c i = (\<lambda>(st, d).
     andThen (resolveDemandQuantityForCompanyItem (co_code c) (it_code i) tick config) (\<lambda>demand.
     if demand \<le> 0 then Inr (st, d)
     else
       andThen (forEach (consumeRow (it_code i)) (demandRows E c i st) (demand, st, d))
         (\<lambda>(_, st, d). Inr (st, d))))"

definition demandItems :: "env \<Rightarrow> demandSinkConfig \<Rightarrow> db \<Rightarrow> item list" where
  "demandItems E config d =
     sortBy (\<lambda>x y. env_textCompare E (it_code x) (it_code y))
       (filter (\<lambda>i. it_code i \<in> set (ds_itemCodes config)) (items d))"

definition demandCompanies :: "env \<Rightarrow> db \<Rightarrow> company list" where
  "demandCompanies E d =
     sortBy (\<lambda>x y. env_textCompare E (co_code x) (co_code y))
       (filter (\<lambda>c. \<not> co_isPlayer c \<and> co_ownerPlayerId c = None) (companies d))"

definition runDemandSinkForTick ::
    "env \<Rightarrow> jsnum \<Rightarrow> demandOverrides \<Rightarrow> db \<Rightarrow> (demandSinkTickResult \<times> db) result" where
  "runDemandSinkForTick E tick overrides d =
     (if \<not> isInteger tick \<or> num tick < 0
        then Inl (DomainInvariantError ''tick must be a non-negative integer'')
      else
        andThen (resolveDemandSinkConfig E overrides) (\<lambda>config.
        if \<not> ds_enabled config \<or> ds_itemCodes config = []
          then Inr (\<lparr>consumedTotal = 0, consumedByItemCode = []\<rparr>, d)
        else
          (let offered = demandItems E config d; bots = demandCompanies E d in
           if offered = [] \<or> bots = []
             then Inr (\<lparr>consumedTotal = 0, consumedByItemCode = []\<rparr>, d)
           else
             (let snapshot = filter (\<lambda>r. inv_companyId r \<in> set (map co_id bots) \<and>
                    inv_itemId r \<in> set (map it_id offered) \<and> inv_quantity r > 0) (inventories d) in
              andThen (forEach (\<lambda>c. forEach (consumeForCompanyItem E tick config c) offered) bots
                (\<lparr>dm_rows = snapshot, dm_consumed = [], dm_total = 0\<rparr>, d)) (\<lambda>(st, d).
              Inr (\<lparr>consumedTotal = dm_total st,
                    consumedByItemCode = sortBy (\<lambda>x y. env_localeCompare E (fst x) (fst y))
                      (dm_consumed st)\<rparr>, d))))))"

subsection \<open>The hash\<close>

text \<open>The rolling hash is the polynomial of the character codes modulo \<open>2 ^ 32\<close>.\<close>

fun hashPoly :: "string \<Rightarrow> int" where
  "hashPoly [] = 0"
| "hashPoly (c # cs) = of_char c * 31 ^ length cs + hashPoly cs"

lemma stableHash_fold:
  "foldl (\<lambda>hash c. hash * 31 + word_of_int (of_char c)) h cs =
     (h * 31 ^ length cs + word_of_int (hashPoly cs) :: 32 word)"
proof (induction cs arbitrary: h)
  case Nil
  show ?case by simp
next
  case (Cons c cs)
  show ?case by (simp add: Cons.IH) (simp add: algebra_simps)
qed

lemma stableHash_poly: "uint (stableHash s) = hashPoly s mod 2 ^ 32"
  by (simp add: stableHash_def stableHash_fold unsigned_of_int take_bit_eq_mod)

lemma demand_bounds:
  assumes "resolveDemandQuantityForCompanyItem cc ic t config = Inr n" and "0 \<le> ds_variabilityQuantity config"
  shows "ds_baseQuantityPerCompany config \<le> n \<and>
    n \<le> ds_baseQuantityPerCompany config + ds_variabilityQuantity config"
  using assms pos_mod_bound [of "ds_variabilityQuantity config + 1"]
  by (fastforce simp: resolveDemandQuantityForCompanyItem_def Let_def branch_Inr split: if_splits)

subsection \<open>What one turn of the inner loop takes\<close>

definition free :: "inventory \<Rightarrow> int" where
  "free r = inv_quantity r - inv_reservedQuantity r"

text \<open>Nothing but quantities of stock changes, and those only go down, never below what is reserved.\<close>

definition rowDrained :: "inventory \<Rightarrow> inventory \<Rightarrow> bool" where
  "rowDrained r r' \<longleftrightarrow> (\<exists>n\<ge>0. r' = r\<lparr>inv_quantity := inv_quantity r - n\<rparr>)"

definition drains :: "db \<Rightarrow> db \<Rightarrow> bool" where
  "drains d d' \<longleftrightarrow> marketOk d' \<and> list_all2 rowDrained (inventories d) (inventories d') \<and>
     companies d' = companies d \<and> marketOrders d' = marketOrders d \<and> items d' = items d"

lemma rowDrained_refl: "rowDrained r r"
  unfolding rowDrained_def by (rule exI [of _ 0]) simp

lemma rowDrained_trans: "rowDrained r s \<Longrightarrow> rowDrained s t \<Longrightarrow> rowDrained r t"
proof -
  assume "rowDrained r s" "rowDrained s t"
  then obtain m n where "0 \<le> m" "s = r\<lparr>inv_quantity := inv_quantity r - m\<rparr>"
    "0 \<le> n" "t = s\<lparr>inv_quantity := inv_quantity s - n\<rparr>" by (auto simp: rowDrained_def)
  then show "rowDrained r t" unfolding rowDrained_def by (intro exI [of _ "m + n"]) simp
qed

lemma drains_refl: "marketOk d \<Longrightarrow> drains d d"
  by (simp add: drains_def list.rel_refl rowDrained_refl)

lemma drains_trans: "drains d e \<Longrightarrow> drains e d' \<Longrightarrow> drains d d'"
  unfolding drains_def using list_all2_trans [of rowDrained rowDrained rowDrained] rowDrained_trans by metis

text \<open>The snapshot consists of rows of the table and holds all that have stock.\<close>

definition snapshotOk :: "string set \<Rightarrow> string set \<Rightarrow> demandState \<Rightarrow> db \<Rightarrow> bool" where
  "snapshotOk cs ks st d \<longleftrightarrow> distinct (map invKey (dm_rows st)) \<and>
     set (dm_rows st) \<subseteq> set (inventories d) \<and>
     (\<forall>r\<in>set (dm_rows st). inv_companyId r \<in> cs) \<and>
     (\<forall>r\<in>set (inventories d). inv_companyId r \<in> cs \<and> inv_itemId r \<in> ks \<and> 0 < inv_quantity r \<longrightarrow>
        r \<in> set (dm_rows st))"

definition sumConsumed :: "demandState \<Rightarrow> int" where
  "sumConsumed st = (\<Sum>p\<leftarrow>dm_consumed st. snd p)"

lemma sum_addConsumed: "(\<Sum>p\<leftarrow>addConsumed code n xs. snd p) = (\<Sum>p\<leftarrow>xs. snd p) + n"
  by (induction xs) auto

lemma marketOk_rows: "marketOk d \<Longrightarrow> distinct (map invKey (inventories d))"
  by (rule rowsOk_distinct [OF economyOk_inventories [OF marketOkD(1)]])

lemma marketOk_free: "marketOk d \<Longrightarrow> r \<in> set (inventories d) \<Longrightarrow> 0 \<le> inv_reservedQuantity r \<and> 0 \<le> free r"
  using marketOk_inventory [of d "invKey r" r] rowFind_unique [OF marketOk_rows] by (simp add: free_def)

lemma drains_update:
  assumes "marketOk d" and "r \<in> set (inventories d)" and "0 \<le> n" and "n \<le> free r"
    and "d' = inventories_update (rowSet invKey (invKey r) (\<lambda>x. x\<lparr>inv_quantity := inv_quantity x - n\<rparr>)) d"
  shows "drains d d' \<and> stockWhere P d' = stockWhere P d - (if P (invKey r) then n else 0)"
proof -
  let ?f = "\<lambda>x. x\<lparr>inv_quantity := inv_quantity x - n\<rparr>"
  have find: "rowFind invKey (invKey r) (inventories d) = Some r"
    by (rule rowFind_unique [OF marketOk_rows [OF assms(1)] assms(2)])
  have up: "updateInventory (invKey r) ?f d = Inr (?f r, d')" using find by (simp add: updateRow_def assms(5))
  have "marketOk d'"
    by (rule marketOk_updateInventory [OF up assms(1)])
      (use marketOk_free [OF assms(1,2)] assms(4) in \<open>simp_all add: invKey_def inventoryOk_iff free_def\<close>)
  moreover have "list_all2 rowDrained (inventories d) (inventories d')"
    using assms(3) by (auto simp: assms(5) rowSet_def list_all2_conv_all_nth rowDrained_def)
  moreover have "stockWhere P d' = stockWhere P d - (if P (invKey r) then n else 0)"
    using stockWhere_rowSet [of d' "invKey r" ?f d r P] marketOkD(1) [OF assms(1)] find
    by (simp add: assms(5) invKey_def)
  ultimately show ?thesis by (simp add: drains_def assms(5))
qed

lemma snapshotOk_update:
  assumes "snapshotOk cs ks st d" and "0 \<le> n"
    and "inventories d' = rowSet invKey k (\<lambda>x. x\<lparr>inv_quantity := inv_quantity x - n\<rparr>) (inventories d)"
    and "dm_rows st' = rowSet invKey k (\<lambda>x. x\<lparr>inv_quantity := inv_quantity x - n\<rparr>) (dm_rows st)"
  shows "snapshotOk cs ks st' d'"
proof -
  let ?f = "\<lambda>x. x\<lparr>inv_quantity := inv_quantity x - n\<rparr>"
  have "distinct (map invKey (dm_rows st'))"
    using assms(1) by (simp add: assms(4) map_rowSet_same [of invKey ?f] invKey_def snapshotOk_def)
  moreover have "set (dm_rows st') \<subseteq> set (inventories d')"
    using assms(1) by (auto simp: assms(3,4) rowSet_def snapshotOk_def)
  moreover have "\<forall>r\<in>set (dm_rows st'). inv_companyId r \<in> cs"
    using assms(1) by (auto simp: assms(4) rowSet_def snapshotOk_def)
  moreover have "r \<in> set (dm_rows st')" if r: "r \<in> set (inventories d')"
      "inv_companyId r \<in> cs" "inv_itemId r \<in> ks" "0 < inv_quantity r" for r
  proof -
    from r(1) obtain x where x: "x \<in> set (inventories d)" "r = (if invKey x = k then ?f x else x)"
      by (auto simp: assms(3) rowSet_def)
    with r assms(2) have "inv_companyId x \<in> cs" "inv_itemId x \<in> ks" "0 < inv_quantity x"
      by (auto split: if_splits)
    with x(1) assms(1) have "x \<in> set (dm_rows st)" by (simp add: snapshotOk_def)
    with x(2) show ?thesis by (auto simp: assms(4) rowSet_def)
  qed
  ultimately show ?thesis by (simp add: snapshotOk_def)
qed

lemma consumeRow_effect:
  assumes "marketOk d" and "snapshotOk cs ks st d" and "row \<in> set (inventories d)" and "0 \<le> m"
  shows "\<exists>n st' d'. consumeRow code row (m, st, d) = Inr (m - n, st', d') \<and> n = min m (free row) \<and>
    drains d d' \<and> snapshotOk cs ks st' d' \<and> dm_total st' = dm_total st + n \<and>
    sumConsumed st' = sumConsumed st + n \<and>
    (\<forall>P. stockWhere P d' = stockWhere P d - (if P (invKey row) then n else 0)) \<and>
    (\<forall>r\<in>set (inventories d). invKey r \<noteq> invKey row \<longrightarrow> r \<in> set (inventories d'))"
proof -
  note fr = marketOk_free [OF assms(1,3)]
  let ?n = "min m (free row)"
  let ?f = "\<lambda>x. x\<lparr>inv_quantity := inv_quantity x - ?n\<rparr>"
  show ?thesis
  proof (cases "?n = 0")
    case True
    then have "consumeRow code row (m, st, d) = Inr (m - 0, st, d)"
      using assms(4) fr by (auto simp: consumeRow_def Let_def free_def min_def split: if_splits)
    with True assms(1,2) show ?thesis by (intro exI [of _ 0] exI [of _ st] exI [of _ d]) (simp add: drains_refl)
  next
    case False
    let ?d = "inventories_update (rowSet invKey (invKey row) ?f) d"
    let ?st = "\<lparr>dm_rows = rowSet invKey (invKey row) ?f (dm_rows st),
       dm_consumed = addConsumed code ?n (dm_consumed st), dm_total = dm_total st + ?n\<rparr>"
    have n: "0 < ?n" using False assms(4) fr by auto
    have find: "rowFind invKey (invKey row) (inventories d) = Some row"
      by (rule rowFind_unique [OF marketOk_rows [OF assms(1)] assms(3)])
    have run: "consumeRow code row (m, st, d) = Inr (m - ?n, ?st, ?d)"
      using n find by (auto simp: consumeRow_def Let_def free_def updateRow_def min.commute)
    have "drains d ?d \<and> stockWhere P ?d = stockWhere P d - (if P (invKey row) then ?n else 0)" for P
      by (rule drains_update [OF assms(1,3)]) (use n in simp_all)
    moreover have "snapshotOk cs ks ?st ?d"
      by (rule snapshotOk_update [OF assms(2), of ?n _ "invKey row"]) (use n in simp_all)
    moreover have "sumConsumed ?st = sumConsumed st + ?n" by (simp add: sumConsumed_def sum_addConsumed)
    moreover have "r \<in> set (inventories ?d)" if "r \<in> set (inventories d)" "invKey r \<noteq> invKey row" for r
      using that by (force simp: rowSet_def)
    ultimately show ?thesis using run
      by (intro exI [of _ ?n] exI [of _ ?st] exI [of _ ?d]) simp
  qed
qed

lemma consumeRows_effect:
  assumes "marketOk d" and "snapshotOk cs ks st d" and "set bs \<subseteq> set (inventories d)"
    and "distinct (map invKey bs)" and "0 \<le> m"
  shows "\<exists>n st' d'. forEach (consumeRow code) bs (m, st, d) = Inr (m - n, st', d') \<and>
    n = min m (\<Sum>r\<leftarrow>bs. free r) \<and>
    drains d d' \<and> snapshotOk cs ks st' d' \<and> dm_total st' = dm_total st + n \<and>
    sumConsumed st' = sumConsumed st + n \<and>
    (\<forall>P b. (\<forall>r\<in>set bs. P (invKey r) = b) \<longrightarrow> stockWhere P d' = stockWhere P d - (if b then n else 0))"
  using assms
proof (induction bs arbitrary: m st d)
  case Nil
  then show ?case by (intro exI [of _ 0] exI [of _ st] exI [of _ d]) (simp add: drains_refl)
next
  case (Cons row bs)
  have row: "row \<in> set (inventories d)" using Cons.prems(3) by simp
  obtain n e st1 where
    e: "consumeRow code row (m, st, d) = Inr (m - n, st1, e)" "n = min m (free row)" "drains d e"
    "snapshotOk cs ks st1 e" "dm_total st1 = dm_total st + n" "sumConsumed st1 = sumConsumed st + n"
    "\<And>P. stockWhere P e = stockWhere P d - (if P (invKey row) then n else 0)"
    "\<forall>r\<in>set (inventories d). invKey r \<noteq> invKey row \<longrightarrow> r \<in> set (inventories e)"
    using consumeRow_effect [OF Cons.prems(1,2) row Cons.prems(5), of code] by blast
  have fr: "0 \<le> free row" using marketOk_free [OF Cons.prems(1) row] by simp
  have n: "0 \<le> m - n" using e(2) by simp
  have rest: "set bs \<subseteq> set (inventories e)"
  proof
    fix r assume r: "r \<in> set bs"
    then have "invKey r \<noteq> invKey row" using Cons.prems(4) by (auto simp: image_iff)
    then show "r \<in> set (inventories e)" using r e(8) Cons.prems(3) by auto
  qed
  have me: "marketOk e" using e(3) by (simp add: drains_def)
  have dist: "distinct (map invKey bs)" using Cons.prems(4) by simp
  obtain k d' st' where
    k: "forEach (consumeRow code) bs (m - n, st1, e) = Inr (m - n - k, st', d')"
    "k = min (m - n) (\<Sum>r\<leftarrow>bs. free r)" "drains e d'"
    "snapshotOk cs ks st' d'" "dm_total st' = dm_total st1 + k" "sumConsumed st' = sumConsumed st1 + k"
    "\<forall>P b. (\<forall>r\<in>set bs. P (invKey r) = b) \<longrightarrow> stockWhere P d' = stockWhere P e - (if b then k else 0)"
    using Cons.IH [OF me e(4) rest dist n] by blast
  have rest_nn: "0 \<le> (\<Sum>r\<leftarrow>bs. free r)"
    by (rule sum_list_nonneg) (use rest marketOk_free [OF me] in auto)
  have sum: "n + k = min m (\<Sum>r\<leftarrow>row # bs. free r)"
    using e(2) k(2) fr rest_nn by (auto simp: min_def)
  have stock: "stockWhere P d' = stockWhere P d - (if b then n + k else 0)"
    if "\<forall>r\<in>set (row # bs). P (invKey r) = b" for P b
  proof -
    have "P (invKey row) = b" "\<forall>r\<in>set bs. P (invKey r) = b" using that by simp_all
    with k(7) have "stockWhere P d' = stockWhere P e - (if b then k else 0)" by blast
    with \<open>P (invKey row) = b\<close> e(7) [of P] show ?thesis by simp
  qed
  have run: "forEach (consumeRow code) (row # bs) (m, st, d) = Inr (m - (n + k), st', d')"
    using e(1) k(1) by (simp add: diff_diff_eq)
  have totals: "dm_total st' = dm_total st + (n + k)" "sumConsumed st' = sumConsumed st + (n + k)"
    unfolding k(5,6) e(5,6) by simp_all
  show ?case
    by (rule exI [of _ "n + k"], rule exI [of _ st'], rule exI [of _ d'])
      (intro conjI allI impI run sum drains_trans [OF e(3) k(3)] k(4) totals stock)
qed

subsection \<open>One company and item, and all of them\<close>

definition stockOf :: "string \<Rightarrow> string \<Rightarrow> db \<Rightarrow> int" where
  "stockOf cid iid d = stockWhere (\<lambda>k. fst k = cid \<and> fst (snd k) = iid) d"

definition freeOf :: "string \<Rightarrow> string \<Rightarrow> db \<Rightarrow> int" where
  "freeOf cid iid d =
     (\<Sum>r\<leftarrow>filter (\<lambda>r. inv_companyId r = cid \<and> inv_itemId r = iid) (inventories d). free r)"

text \<open>The company part of a key can be read back when the id has no colon.\<close>

lemma demandKey_inj:
  assumes "CHR '':'' \<notin> set a" "CHR '':'' \<notin> set b" and "demandKey a x = demandKey b y"
  shows "a = b \<and> x = y"
proof -
  have "takeWhile (\<lambda>c. c \<noteq> CHR '':'') (demandKey a x) = a" "takeWhile (\<lambda>c. c \<noteq> CHR '':'') (demandKey b y) = b"
    using assms(1,2) by (auto simp: demandKey_def takeWhile_append)
  with assms(3) show ?thesis by (simp add: demandKey_def)
qed

lemma freeOf_drained:
  assumes "drains d d'"
  shows "freeOf cid iid d - freeOf cid iid d' = stockOf cid iid d - stockOf cid iid d'"
proof -
  have "list_all2 rowDrained xs ys \<Longrightarrow>
    (\<Sum>r\<leftarrow>filter (\<lambda>r. inv_companyId r = cid \<and> inv_itemId r = iid) xs. free r) -
    (\<Sum>r\<leftarrow>filter (\<lambda>r. inv_companyId r = cid \<and> inv_itemId r = iid) ys. free r) =
    (\<Sum>r\<leftarrow>xs. if fst (invKey r) = cid \<and> fst (snd (invKey r)) = iid then inv_quantity r else 0) -
    (\<Sum>r\<leftarrow>ys. if fst (invKey r) = cid \<and> fst (snd (invKey r)) = iid then inv_quantity r else 0)" for xs ys
    by (induction rule: list_all2_induct) (auto simp: rowDrained_def invKey_def free_def)
  then show ?thesis using assms by (simp add: drains_def freeOf_def stockOf_def stockWhere_def)
qed

text \<open>The rows the code sorts out of its snapshot hold all the free stock of the company and item.\<close>

lemma demandRows_free:
  assumes "marketOk d" and "snapshotOk cs ks st d" and "co_id c \<in> cs" and "it_id i \<in> ks"
    and "\<And>x. x \<in> cs \<Longrightarrow> CHR '':'' \<notin> set x"
  shows "(\<Sum>r\<leftarrow>demandRows E c i st. free r) = freeOf (co_id c) (it_id i) d"
    and "r \<in> set (demandRows E c i st) \<Longrightarrow> inv_companyId r = co_id c \<and> inv_itemId r = it_id i"
    and "set (demandRows E c i st) \<subseteq> set (inventories d)" and "distinct (map invKey (demandRows E c i st))"
proof -
  let ?P = "\<lambda>r. inv_companyId r = co_id c \<and> inv_itemId r = it_id i"
  have key: "demandKey (inv_companyId r) (inv_itemId r) = demandKey (co_id c) (it_id i) \<longleftrightarrow> ?P r"
    if "r \<in> set (dm_rows st)" for r
    using demandKey_inj [of "inv_companyId r" "co_id c" "inv_itemId r" "it_id i"] that assms(2,3,5)
    by (auto simp: snapshotOk_def)
  have rows: "set (demandRows E c i st) = {r \<in> set (dm_rows st). ?P r}"
    using key by (auto simp: demandRows_def)
  then show "r \<in> set (demandRows E c i st) \<Longrightarrow> inv_companyId r = co_id c \<and> inv_itemId r = it_id i" by simp
  show sub: "set (demandRows E c i st) \<subseteq> set (inventories d)" using rows assms(2) by (auto simp: snapshotOk_def)
  show keys: "distinct (map invKey (demandRows E c i st))"
    using assms(2) by (simp add: demandRows_def snapshotOk_def distinct_map_filter)
  have "(\<Sum>r\<leftarrow>demandRows E c i st. free r) = (\<Sum>r\<in>set (demandRows E c i st). free r)"
    using keys by (simp add: sum_list_distinct_conv_sum_set distinct_map)
  also have "\<dots> = (\<Sum>r\<in>{r \<in> set (inventories d). ?P r}. free r)"
  proof (rule sum.mono_neutral_left)
    show "set (demandRows E c i st) \<subseteq> {r \<in> set (inventories d). ?P r}" using rows sub by auto
    show "\<forall>r\<in>{r \<in> set (inventories d). ?P r} - set (demandRows E c i st). free r = 0"
    proof
      fix r assume r: "r \<in> {r \<in> set (inventories d). ?P r} - set (demandRows E c i st)"
      then have "\<not> 0 < inv_quantity r" using rows assms(2-4) by (auto simp: snapshotOk_def)
      with marketOk_free [OF assms(1), of r] r show "free r = 0" by (simp add: free_def)
    qed
  qed simp
  also have "\<dots> = freeOf (co_id c) (it_id i) d"
    using marketOk_rows [OF assms(1)]
    by (simp add: freeOf_def sum_list_distinct_conv_sum_set distinct_map)
  finally show "(\<Sum>r\<leftarrow>demandRows E c i st. free r) = freeOf (co_id c) (it_id i) d" .
qed

definition demandOf :: "int \<Rightarrow> demandSinkConfig \<Rightarrow> company \<Rightarrow> item \<Rightarrow> int" where
  "demandOf t config c i =
     (case resolveDemandQuantityForCompanyItem (co_code c) (it_code i) (IntN t) config of
        Inl _ \<Rightarrow> 0 | Inr n \<Rightarrow> n)"

definition configOk :: "demandSinkConfig \<Rightarrow> bool" where
  "configOk config \<longleftrightarrow> 0 \<le> ds_baseQuantityPerCompany config \<and> 0 \<le> ds_variabilityQuantity config"

lemma demandOf_returns:
  assumes "0 \<le> t"
  shows "resolveDemandQuantityForCompanyItem (co_code c) (it_code i) (IntN t) config = Inr (demandOf t config c i)"
  using assms by (simp add: demandOf_def resolveDemandQuantityForCompanyItem_def Let_def)

lemma demandOf_bounds:
  assumes "0 \<le> t" and "configOk config"
  shows "0 \<le> demandOf t config c i \<and>
    demandOf t config c i \<le> ds_baseQuantityPerCompany config + ds_variabilityQuantity config"
  using demand_bounds [OF demandOf_returns [OF assms(1)], of config c i] assms(2) by (simp add: configOk_def)

lemma freeOf_nonneg: "marketOk d \<Longrightarrow> 0 \<le> freeOf cid iid d"
  unfolding freeOf_def by (rule sum_list_nonneg) (auto dest: marketOk_free)

lemma consumeForCompanyItem_effect:
  assumes "marketOk d" and "snapshotOk cs ks st d" and "co_id c \<in> cs" and "it_id i \<in> ks"
    and "\<And>x. x \<in> cs \<Longrightarrow> CHR '':'' \<notin> set x" and "0 \<le> t" and "configOk config"
  shows "\<exists>n st' d'. consumeForCompanyItem E (IntN t) config c i (st, d) = Inr (st', d') \<and>
    n = min (demandOf t config c i) (freeOf (co_id c) (it_id i) d) \<and>
    drains d d' \<and> snapshotOk cs ks st' d' \<and> dm_total st' = dm_total st + n \<and>
    sumConsumed st' = sumConsumed st + n \<and> stockWhere (\<lambda>_. True) d' = stockWhere (\<lambda>_. True) d - n \<and>
    (\<forall>cid iid. stockOf cid iid d' = stockOf cid iid d - (if cid = co_id c \<and> iid = it_id i then n else 0))"
proof -
  note dem = demandOf_returns [OF assms(6), of c i config]
  note rows = demandRows_free [OF assms(1-5), where E = E]
  from demandOf_bounds [OF assms(6,7)] have nn: "0 \<le> demandOf t config c i" by blast
  obtain n st' d' where r:
    "forEach (consumeRow (it_code i)) (demandRows E c i st) (demandOf t config c i, st, d) =
       Inr (demandOf t config c i - n, st', d')"
    "n = min (demandOf t config c i) (\<Sum>r\<leftarrow>demandRows E c i st. free r)"
    "drains d d'" "snapshotOk cs ks st' d'" "dm_total st' = dm_total st + n"
    "sumConsumed st' = sumConsumed st + n"
    "\<And>P b. (\<forall>r\<in>set (demandRows E c i st). P (invKey r) = b) \<Longrightarrow>
       stockWhere P d' = stockWhere P d - (if b then n else 0)"
    using consumeRows_effect [OF assms(1,2) rows(3,4) nn, of "it_code i"] by blast
  have n: "n = min (demandOf t config c i) (freeOf (co_id c) (it_id i) d)" using r(2) rows(1) by simp
  have stock: "stockOf cid iid d' = stockOf cid iid d - (if cid = co_id c \<and> iid = it_id i then n else 0)" for cid iid
  proof -
    have "\<forall>r\<in>set (demandRows E c i st).
        (\<lambda>k. fst k = cid \<and> fst (snd k) = iid) (invKey r) = (cid = co_id c \<and> iid = it_id i)"
      using rows(2) by (auto simp: invKey_def)
    from r(7) [OF this] show ?thesis unfolding stockOf_def .
  qed
  have all: "stockWhere (\<lambda>_. True) d' = stockWhere (\<lambda>_. True) d - n"
    using r(7) [of "\<lambda>_. True" True] by simp
  show ?thesis
  proof (cases "demandOf t config c i \<le> 0")
    case True
    then have "consumeForCompanyItem E (IntN t) config c i (st, d) = Inr (st, d)"
      by (simp add: consumeForCompanyItem_def dem)
    moreover have "min (demandOf t config c i) (freeOf (co_id c) (it_id i) d) = 0"
      using True nn freeOf_nonneg [OF assms(1), of "co_id c" "it_id i"] by simp
    ultimately show ?thesis
      using assms(1,2) by (intro exI [of _ 0] exI [of _ st] exI [of _ d]) (simp add: drains_refl)
  next
    case False
    then have "consumeForCompanyItem E (IntN t) config c i (st, d) = Inr (st', d')"
      by (simp add: consumeForCompanyItem_def dem r(1))
    with n r(3-6) stock all show ?thesis by blast
  qed
qed

text \<open>Two nested loops are one loop over the pairs.\<close>

lemma forEach_map: "forEach f (map g xs) s = forEach (\<lambda>x. f (g x)) xs s"
  by (induction xs arbitrary: s) (simp_all add: andThen_def split: sum.split)

lemma forEach_nested:
  "forEach (\<lambda>c. forEach (f c) is) cs s = forEach (\<lambda>(c, i). f c i) (List.product cs is) s"
  by (induction cs arbitrary: s) (simp_all add: forEach_append forEach_map andThen_def split: sum.split)

definition pairDemand ::
    "int \<Rightarrow> demandSinkConfig \<Rightarrow> db \<Rightarrow> string \<Rightarrow> string \<Rightarrow> company \<times> item \<Rightarrow> int" where
  "pairDemand t config d cid iid p =
     (if co_id (fst p) = cid \<and> it_id (snd p) = iid
      then min (demandOf t config (fst p) (snd p)) (freeOf cid iid d) else 0)"

lemma consumeAll_effect:
  assumes "marketOk d" and "snapshotOk cs ks st d"
    and "\<And>p. p \<in> set ps \<Longrightarrow> co_id (fst p) \<in> cs \<and> it_id (snd p) \<in> ks"
    and "distinct (map (\<lambda>p. (co_id (fst p), it_id (snd p))) ps)"
    and "\<And>x. x \<in> cs \<Longrightarrow> CHR '':'' \<notin> set x" and "0 \<le> t" and "configOk config"
  shows "\<exists>n st' d'. forEach (\<lambda>(c, i). consumeForCompanyItem E (IntN t) config c i) ps (st, d) = Inr (st', d') \<and>
    drains d d' \<and> dm_total st' = dm_total st + n \<and> sumConsumed st' = sumConsumed st + n \<and>
    stockWhere (\<lambda>_. True) d' = stockWhere (\<lambda>_. True) d - n \<and>
    (\<forall>cid iid. stockOf cid iid d' = stockOf cid iid d - (\<Sum>p\<leftarrow>ps. pairDemand t config d cid iid p))"
  using assms(1-4)
proof (induction ps arbitrary: st d)
  case Nil
  then show ?case by (intro exI [of _ 0] exI [of _ st] exI [of _ d]) (simp add: drains_refl)
next
  case (Cons p ps)
  obtain c i where p: "p = (c, i)" by (cases p)
  have mem: "co_id c \<in> cs" "it_id i \<in> ks" using Cons.prems(3) [of p] by (simp_all add: p)
  obtain n st1 e where e:
    "consumeForCompanyItem E (IntN t) config c i (st, d) = Inr (st1, e)"
    "n = min (demandOf t config c i) (freeOf (co_id c) (it_id i) d)"
    "drains d e" "snapshotOk cs ks st1 e" "dm_total st1 = dm_total st + n"
    "sumConsumed st1 = sumConsumed st + n" "stockWhere (\<lambda>_. True) e = stockWhere (\<lambda>_. True) d - n"
    "\<forall>cid iid. stockOf cid iid e = stockOf cid iid d - (if cid = co_id c \<and> iid = it_id i then n else 0)"
    using consumeForCompanyItem_effect [OF Cons.prems(1,2) mem assms(5-7), of E] by blast
  have me: "marketOk e" using e(3) by (simp add: drains_def)
  have ps: "\<And>q. q \<in> set ps \<Longrightarrow> co_id (fst q) \<in> cs \<and> it_id (snd q) \<in> ks" using Cons.prems(3) by simp
  have dist: "distinct (map (\<lambda>p. (co_id (fst p), it_id (snd p))) ps)" using Cons.prems(4) by simp
  obtain k st' d' where k:
    "forEach (\<lambda>(c, i). consumeForCompanyItem E (IntN t) config c i) ps (st1, e) = Inr (st', d')"
    "drains e d'" "dm_total st' = dm_total st1 + k" "sumConsumed st' = sumConsumed st1 + k"
    "stockWhere (\<lambda>_. True) d' = stockWhere (\<lambda>_. True) e - k"
    "\<forall>cid iid. stockOf cid iid d' = stockOf cid iid e - (\<Sum>p\<leftarrow>ps. pairDemand t config e cid iid p)"
    using Cons.IH [OF me e(4) ps dist] by blast
  have stock: "stockOf cid iid d' = stockOf cid iid d - (\<Sum>q\<leftarrow>p # ps. pairDemand t config d cid iid q)" for cid iid
  proof (cases "cid = co_id c \<and> iid = it_id i")
    case True
    have none: "pairDemand t config x cid iid q = 0" if "q \<in> set ps" for q x
      using that Cons.prems(4) True by (force simp: pairDemand_def p)
    have "(\<Sum>q\<leftarrow>ps. pairDemand t config x cid iid q) = 0" for x
      using none by (simp add: sum_list_0 cong: map_cong)
    then show ?thesis using True e(2,8) k(6) by (simp add: pairDemand_def p)
  next
    case False
    then have "freeOf cid iid e = freeOf cid iid d"
      using freeOf_drained [OF e(3), of cid iid] e(8) by auto
    then have "pairDemand t config e cid iid q = pairDemand t config d cid iid q" for q
      by (simp add: pairDemand_def)
    with False show ?thesis using e(8) k(6) by (auto simp: pairDemand_def p)
  qed
  have run: "forEach (\<lambda>(c, i). consumeForCompanyItem E (IntN t) config c i) (p # ps) (st, d) = Inr (st', d')"
    using e(1) k(1) by (simp add: p)
  have totals: "dm_total st' = dm_total st + (n + k)" "sumConsumed st' = sumConsumed st + (n + k)"
    "stockWhere (\<lambda>_. True) d' = stockWhere (\<lambda>_. True) d - (n + k)"
    unfolding k(3-5) e(5-7) by simp_all
  show ?case
    by (rule exI [of _ "n + k"], rule exI [of _ st'], rule exI [of _ d'])
      (intro conjI allI run drains_trans [OF e(3) k(2)] totals stock)
qed

text \<open>
  C26. The demand stage never fails on a valid configuration, changes nothing but quantities of
  stock, and takes from every simulated company and offered item exactly its demand or all the free
  stock, whichever is less, in whatever regions the stock lies; from everyone else it takes nothing.
  The reported total is what left the economy, and it is the sum of the reported amounts.
  (Company ids contain no colon, so that the string keys of the code's buckets are unambiguous.)
\<close>

theorem demand_sink_exact:
  assumes "resolveDemandSinkConfig E overrides = Inr config" and "0 \<le> t"
    and "marketOk d" and "distinct (map it_id (items d))"
    and "\<forall>c\<in>set (companies d). CHR '':'' \<notin> set (co_id c)"
  shows "\<exists>res d'. runDemandSinkForTick E (IntN t) overrides d = Inr (res, d') \<and>
    marketOk d' \<and> companies d' = companies d \<and> marketOrders d' = marketOrders d \<and>
    list_all2 rowDrained (inventories d) (inventories d') \<and>
    consumedTotal res = stockWhere (\<lambda>_. True) d - stockWhere (\<lambda>_. True) d' \<and>
    consumedTotal res = (\<Sum>p\<leftarrow>consumedByItemCode res. snd p) \<and>
    (\<forall>cid iid. stockOf cid iid d' = stockOf cid iid d -
       (if ds_enabled config
        then (\<Sum>p\<leftarrow>List.product (demandCompanies E d) (demandItems E config d).
               pairDemand t config d cid iid p)
        else 0))"
proof -
  have run: "runDemandSinkForTick E (IntN t) overrides d =
     (if \<not> ds_enabled config \<or> ds_itemCodes config = []
        then Inr (\<lparr>consumedTotal = 0, consumedByItemCode = []\<rparr>, d)
      else if demandItems E config d = [] \<or> demandCompanies E d = []
        then Inr (\<lparr>consumedTotal = 0, consumedByItemCode = []\<rparr>, d)
      else andThen (forEach (\<lambda>c. forEach (consumeForCompanyItem E (IntN t) config c) (demandItems E config d))
          (demandCompanies E d)
          (\<lparr>dm_rows = filter (\<lambda>r. inv_companyId r \<in> set (map co_id (demandCompanies E d)) \<and>
               inv_itemId r \<in> set (map it_id (demandItems E config d)) \<and> inv_quantity r > 0) (inventories d),
            dm_consumed = [], dm_total = 0\<rparr>, d)) (\<lambda>(st, d).
          Inr (\<lparr>consumedTotal = dm_total st,
                consumedByItemCode = sortBy (\<lambda>x y. env_localeCompare E (fst x) (fst y))
                  (dm_consumed st)\<rparr>, d)))"
    using assms(2) by (simp add: runDemandSinkForTick_def assms(1) Let_def)
  let ?cs = "co_id ` set (demandCompanies E d)" and ?ks = "it_id ` set (demandItems E config d)"
  show ?thesis
  proof (cases "\<not> ds_enabled config \<or> demandItems E config d = [] \<or> demandCompanies E d = []")
    case True
    have none: "demandItems E config d = []" if "ds_itemCodes config = []"
      using that by (simp add: demandItems_def)
    have "runDemandSinkForTick E (IntN t) overrides d = Inr (\<lparr>consumedTotal = 0, consumedByItemCode = []\<rparr>, d)"
      using True run by auto
    moreover have "List.product (demandCompanies E d) (demandItems E config d) = []" if "ds_enabled config"
      using True that by (auto simp: product_concat_map)
    ultimately show ?thesis using drains_refl [OF assms(3)] by (auto simp: drains_def)
  next
    case False
    then have codes: "ds_itemCodes config \<noteq> []" by (auto simp: demandItems_def)
    let ?st = "\<lparr>dm_rows = filter (\<lambda>r. inv_companyId r \<in> set (map co_id (demandCompanies E d)) \<and>
               inv_itemId r \<in> set (map it_id (demandItems E config d)) \<and> inv_quantity r > 0) (inventories d),
            dm_consumed = [], dm_total = 0\<rparr>"
    have snap: "snapshotOk ?cs ?ks ?st d"
      using marketOk_rows [OF assms(3)] by (auto simp: snapshotOk_def distinct_map_filter)
    have pairs: "\<And>p. p \<in> set (List.product (demandCompanies E d) (demandItems E config d)) \<Longrightarrow>
        co_id (fst p) \<in> ?cs \<and> it_id (snd p) \<in> ?ks" by auto
    have dc: "distinct (map co_id (demandCompanies E d))"
      using rowsOk_distinct [OF economyOk_companies [OF marketOkD(1) [OF assms(3)]]]
      by (simp add: demandCompanies_def distinct_map_filter)
    have di: "distinct (map it_id (demandItems E config d))"
      using assms(4) by (simp add: demandItems_def distinct_map_filter)
    have product: "map (\<lambda>p. (co_id (fst p), it_id (snd p))) (List.product xs ys) =
        List.product (map co_id xs) (map it_id ys)" for xs ys
      by (induction xs) simp_all
    have dp: "distinct (map (\<lambda>p. (co_id (fst p), it_id (snd p)))
        (List.product (demandCompanies E d) (demandItems E config d)))"
      unfolding product using dc di by (rule distinct_product)
    have colon: "\<And>x. x \<in> ?cs \<Longrightarrow> CHR '':'' \<notin> set x" using assms(5) by (auto simp: demandCompanies_def)
    have ok: "configOk config"
      using assms(1) by (auto simp: resolveDemandSinkConfig_def configOk_def Let_def branch_Inr)
    obtain n st' d' where e:
      "forEach (\<lambda>(c, i). consumeForCompanyItem E (IntN t) config c i)
         (List.product (demandCompanies E d) (demandItems E config d)) (?st, d) = Inr (st', d')"
      "drains d d'" "dm_total st' = dm_total ?st + n" "sumConsumed st' = sumConsumed ?st + n"
      "stockWhere (\<lambda>_. True) d' = stockWhere (\<lambda>_. True) d - n"
      "\<forall>cid iid. stockOf cid iid d' = stockOf cid iid d -
         (\<Sum>p\<leftarrow>List.product (demandCompanies E d) (demandItems E config d). pairDemand t config d cid iid p)"
      using consumeAll_effect [OF assms(3) snap pairs dp colon assms(2) ok, of E] by blast
    let ?res = "\<lparr>consumedTotal = dm_total st',
        consumedByItemCode = sortBy (\<lambda>x y. env_localeCompare E (fst x) (fst y)) (dm_consumed st')\<rparr>"
    have "runDemandSinkForTick E (IntN t) overrides d = Inr (?res, d')"
      using False codes e(1) by (simp add: run forEach_nested)
    moreover have "(\<Sum>p\<leftarrow>consumedByItemCode ?res. snd p) = sumConsumed st'"
      by (simp add: sumConsumed_def flip: sum_mset_sum_list)
    ultimately show ?thesis
      using e(2-6) False by (auto simp: drains_def sumConsumed_def)
  qed
qed

definition demandFixture :: demandOverrides where
  "demandFixture = \<lparr>od_enabled = None, od_itemCodes = Some ['' IRON_ORE ''],
     od_baseQuantityPerCompany = Some (IntN 30), od_variabilityQuantity = None\<rparr>"

theorem demand_sink_exact_witness:
  "\<exists>res d'. runDemandSinkForTick fixtureEnv (IntN 8) demandFixture fixtureDb = Inr (res, d') \<and>
     marketOk d' \<and> consumedTotal res = stockWhere (\<lambda>_. True) fixtureDb - stockWhere (\<lambda>_. True) d'"
proof -
  have config: "resolveDemandSinkConfig fixtureEnv demandFixture = Inr \<lparr>ds_enabled = True,
      ds_itemCodes = [''IRON_ORE''], ds_baseQuantityPerCompany = 30, ds_variabilityQuantity = 2\<rparr>"
    by code_simp
  have "distinct (map it_id (items fixtureDb))" "\<forall>c\<in>set (companies fixtureDb). CHR '':'' \<notin> set (co_id c)"
    by code_simp+
  from demand_sink_exact [OF config _ fixture_marketOk this, of 8] show ?thesis by auto
qed

text \<open>Company \<open>b\<close> holds 20 ore of which 4 are reserved: a demand of 30 or more takes the other 16.\<close>

lemma demand_sink_example:
  "(case runDemandSinkForTick fixtureEnv (IntN 8) demandFixture fixtureDb of
      Inl _ \<Rightarrow> None | Inr (res, d') \<Rightarrow> Some (consumedTotal res, consumedByItemCode res)) =
   Some (16, [(''IRON_ORE'', 16)])"
  by code_simp

subsection \<open>The stage's contract\<close>

lemma consumeRow_masters: "consumeRow code row (m, st, d) = Inr (m', st', d') \<Longrightarrow> masters d' = masters d"
  by (auto simp: consumeRow_def Let_def andThen_Inr_iff updateRow_Inr masters_def split: if_splits)

text \<open>The buckets are rows of the snapshot, whatever the ids look like.\<close>

lemma consumeForCompanyItem_frame:
  assumes "consumeForCompanyItem E tick config c i (st, d) = Inr (st', d')"
    and "marketOk d" and "snapshotOk cs ks st d" and "configOk config"
  shows "drains d d' \<and> snapshotOk cs ks st' d' \<and> masters d' = masters d"
proof -
  from assms(1) obtain demand where demand:
    "resolveDemandQuantityForCompanyItem (co_code c) (it_code i) tick config = Inr demand"
    by (auto simp: consumeForCompanyItem_def andThen_Inr_iff)
  have nn: "0 \<le> demand" using demand_bounds [OF demand] assms(4) by (simp add: configOk_def)
  show ?thesis
  proof (cases "demand \<le> 0")
    case True
    with assms(1-3) demand show ?thesis by (simp add: consumeForCompanyItem_def drains_refl)
  next
    case False
    with assms(1) demand obtain m where loop:
      "forEach (consumeRow (it_code i)) (demandRows E c i st) (demand, st, d) = Inr (m, st', d')"
      by (auto simp: consumeForCompanyItem_def andThen_Inr_iff)
    have bs: "set (demandRows E c i st) \<subseteq> set (inventories d)" "distinct (map invKey (demandRows E c i st))"
      using assms(3) by (auto simp: demandRows_def snapshotOk_def distinct_map_filter)
    obtain n u e where "forEach (consumeRow (it_code i)) (demandRows E c i st) (demand, st, d) = Inr (demand - n, u, e)"
      "drains d e" "snapshotOk cs ks u e"
      using consumeRows_effect [OF assms(2,3) bs nn, of "it_code i"] by blast
    with loop have "drains d d'" "snapshotOk cs ks st' d'" by simp_all
    moreover have "masters (snd (snd (m, st', d'))) = masters d"
    proof (rule forEach_invariant [OF loop, where P = "\<lambda>s. masters (snd (snd s)) = masters d"])
      fix row s s' assume "masters (snd (snd s)) = masters d" "consumeRow (it_code i) row s = Inr s'"
      then show "masters (snd (snd s')) = masters d"
        using consumeRow_masters [of "it_code i" row "fst s" "fst (snd s)" "snd (snd s)" "fst s'" "fst (snd s')" "snd (snd s')"]
        by simp
    qed simp
    ultimately show ?thesis by simp
  qed
qed

lemma demandLoop_frame:
  assumes "forEach (\<lambda>(c, i). consumeForCompanyItem E tick config c i) ps (st, d) = Inr (st', d')"
    and "marketOk d" and "snapshotOk cs ks st d" and "configOk config"
  shows "drains d d' \<and> masters d' = masters d"
proof -
  have "drains d (snd (st', d')) \<and> snapshotOk cs ks (fst (st', d')) (snd (st', d')) \<and> masters (snd (st', d')) = masters d"
  proof (rule forEach_invariant [OF assms(1), where
        P = "\<lambda>s. drains d (snd s) \<and> snapshotOk cs ks (fst s) (snd s) \<and> masters (snd s) = masters d"])
    fix p s s'
    assume s: "drains d (snd s) \<and> snapshotOk cs ks (fst s) (snd s) \<and> masters (snd s) = masters d"
      and run: "(case p of (c, i) \<Rightarrow> consumeForCompanyItem E tick config c i) s = Inr s'"
    obtain c i where p: "p = (c, i)" by (cases p)
    have "marketOk (snd s)" using s by (simp add: drains_def)
    with consumeForCompanyItem_frame [of E tick config c i "fst s" "snd s" "fst s'" "snd s'" cs ks] run s assms(4)
    show "drains d (snd s') \<and> snapshotOk cs ks (fst s') (snd s') \<and> masters (snd s') = masters d"
      using drains_trans by (simp add: p) blast
  qed (use assms(2,3) in \<open>simp add: drains_refl\<close>)
  then show ?thesis by simp
qed

lemma demandStage_law:
  assumes "effectOf (runDemandSinkForTick E tick overrides d) = Inr d'" and ok: "tickOk d"
  shows "marketOk d' \<and> masters d' = masters d \<and> totalCash d' \<le> totalCash d \<and> companies d' = companies d"
proof -
  from assms(1) obtain res where run: "runDemandSinkForTick E tick overrides d = Inr (res, d')"
    by (auto simp: effectOf_Inr)
  have m: "marketOk d" using ok by (simp add: tickOk_def)
  from run obtain config where config: "resolveDemandSinkConfig E overrides = Inr config"
    by (auto simp: runDemandSinkForTick_def andThen_Inr_iff split: if_splits)
  have cok: "configOk config"
    using config by (auto simp: resolveDemandSinkConfig_def configOk_def Let_def branch_Inr)
  let ?st = "\<lparr>dm_rows = filter (\<lambda>r. inv_companyId r \<in> set (map co_id (demandCompanies E d)) \<and>
       inv_itemId r \<in> set (map it_id (demandItems E config d)) \<and> inv_quantity r > 0) (inventories d),
     dm_consumed = [], dm_total = 0\<rparr>"
  have snap: "snapshotOk (co_id ` set (demandCompanies E d)) (it_id ` set (demandItems E config d)) ?st d"
    using marketOk_rows [OF m] by (auto simp: snapshotOk_def distinct_map_filter)
  have "drains d d' \<and> masters d' = masters d"
  proof (cases "\<not> ds_enabled config \<or> ds_itemCodes config = [] \<or> demandItems E config d = [] \<or> demandCompanies E d = []")
    case True
    with run config m show ?thesis
      by (auto simp: runDemandSinkForTick_def Let_def drains_refl split: if_splits)
  next
    case False
    with run config obtain st where
      "forEach (\<lambda>c. forEach (consumeForCompanyItem E tick config c) (demandItems E config d)) (demandCompanies E d)
         (?st, d) = Inr (st, d')"
      by (auto simp: runDemandSinkForTick_def Let_def andThen_Inr_iff split: if_splits)
    then show ?thesis
      unfolding forEach_nested by (rule demandLoop_frame [OF _ m snap cok])
  qed
  then show ?thesis by (simp add: drains_def totalCash_def)
qed

interpretation demandStage: quiet_stage "\<lambda>d. effectOf (runDemandSinkForTick E tick overrides d)"
  for E tick overrides
  by unfold_locales (simp_all add: demandStage_law)

end
