(* ===== verification/LiquidityBot.thy ===== *)
theory LiquidityBot
  imports Fixture
begin

section \<open>The market-making bot\<close>

text \<open>
  \<open>packages/sim/src/bots/strategies/liquidity-bot.ts\<close>: from a company's free cash, free stock and
  the prices around it, the orders it places at a tick. Each block of the loop's body is a
  definition of its own. The lemmas show the plan stays within the budgets and the stock.
\<close>

record liquidityItemState =
  li_itemId :: string
  li_itemCode :: string
  li_referencePriceCents :: int
  li_availableInventory :: int
  li_hasOpenBuyOrder :: bool
  li_hasOpenSellOrder :: bool
  li_bestOwnBuyPriceCents :: "int option"
  li_bestOwnSellPriceCents :: "int option"
  li_bestExternalBuyPriceCents :: "int option"
  li_bestExternalSellPriceCents :: "int option"

record liquidityBotState =
  ls_availableCashCents :: int
  ls_availableStorageUnits :: "int option"
  ls_items :: "liquidityItemState list"

record liquidityBotConfig =
  lb_spreadBps :: int
  lb_maxNotionalPerTickCents :: int
  lb_targetQuantityPerSide :: int

record plannedLiquidityOrder =
  lo_itemId :: string
  lo_side :: orderSide
  lo_quantity :: int
  lo_unitPriceCents :: int

definition AGGRESSIVE_CROSS_QUANTITY :: int where
  "AGGRESSIVE_CROSS_QUANTITY = 1"

definition calculateBuyPrice :: "int \<Rightarrow> int \<Rightarrow> int" where
  "calculateBuyPrice referencePriceCents spreadBps =
     (let price = (referencePriceCents * (10000 - spreadBps)) sdiv 10000 in
      if price > 0 then price else 1)"

definition calculateSellPrice :: "int \<Rightarrow> int \<Rightarrow> int" where
  "calculateSellPrice referencePriceCents spreadBps =
     (let price = (referencePriceCents * (10000 + spreadBps)) sdiv 10000 in
      if price > 0 then price else 1)"

definition capByNotional :: "int \<Rightarrow> int \<Rightarrow> int \<Rightarrow> int" where
  "capByNotional maxNotionalCents unitPriceCents desired =
     (if unitPriceCents \<le> 0 then 0
      else max 0 (min desired (maxNotionalCents sdiv unitPriceCents)))"

text \<open>
  The variables of the planning loop. The storage that remains is \<open>None\<close> for infinity; the three
  flags say what was placed for the item at hand.
\<close>

record liquidityRun =
  lr_orders :: "plannedLiquidityOrder list"
  lr_buyNotional :: int
  lr_sellNotional :: int
  lr_cash :: int
  lr_storage :: "int option"
  lr_placedBuy :: bool
  lr_placedSell :: bool
  lr_placedCrossingBuy :: bool

definition pushBuy :: "string \<Rightarrow> int \<Rightarrow> int \<Rightarrow> liquidityRun \<Rightarrow> liquidityRun" where
  "pushBuy itemId n price s =
     s\<lparr>lr_orders := lr_orders s @
         [\<lparr>lo_itemId = itemId, lo_side = BUY, lo_quantity = n, lo_unitPriceCents = price\<rparr>],
       lr_buyNotional := lr_buyNotional s - n * price, lr_cash := lr_cash s - n * price\<rparr>"

definition pushSell :: "string \<Rightarrow> int \<Rightarrow> int \<Rightarrow> liquidityRun \<Rightarrow> liquidityRun" where
  "pushSell itemId n price s =
     s\<lparr>lr_orders := lr_orders s @
         [\<lparr>lo_itemId = itemId, lo_side = SELL, lo_quantity = n, lo_unitPriceCents = price\<rparr>],
       lr_sellNotional := lr_sellNotional s - n * price\<rparr>"

definition planRestingSell ::
    "liquidityBotConfig \<Rightarrow> liquidityItemState \<Rightarrow> liquidityRun \<Rightarrow> liquidityRun" where
  "planRestingSell config item s =
     (let sellPrice = calculateSellPrice (li_referencePriceCents item) (lb_spreadBps config);
          desired = min (lb_targetQuantityPerSide config) (li_availableInventory item);
          n = capByNotional (lr_sellNotional s) sellPrice desired in
      if lr_sellNotional s > 0 \<and> \<not> li_hasOpenSellOrder item \<and> n > 0
      then (pushSell (li_itemId item) n sellPrice s)\<lparr>lr_placedSell := True\<rparr> else s)"

definition planRestingBuy ::
    "liquidityBotConfig \<Rightarrow> liquidityItemState \<Rightarrow> liquidityRun \<Rightarrow> liquidityRun" where
  "planRestingBuy config item s =
     (let buyPrice = calculateBuyPrice (li_referencePriceCents item) (lb_spreadBps config);
          maxByBudget = (if buyPrice > 0 then lr_cash s sdiv buyPrice else 0);
          desired = min (lb_targetQuantityPerSide config) maxByBudget;
          n = capByNotional (lr_buyNotional s) buyPrice desired in
      if \<not> li_hasOpenBuyOrder item \<and> n > 0
      then (pushBuy (li_itemId item) n buyPrice s)\<lparr>lr_placedBuy := True\<rparr> else s)"

definition planCrossingBuy :: "liquidityItemState \<Rightarrow> liquidityRun \<Rightarrow> liquidityRun" where
  "planCrossingBuy item s =
     (case li_bestExternalSellPriceCents item of
       None \<Rightarrow> s
     | Some crossBuyPrice \<Rightarrow>
       (let ownSellIsDearer = (case li_bestOwnSellPriceCents item of
              None \<Rightarrow> True | Some own \<Rightarrow> own > crossBuyPrice);
            maxByBudget = (if crossBuyPrice > 0 then lr_cash s sdiv crossBuyPrice else 0);
            bounded = min AGGRESSIVE_CROSS_QUANTITY maxByBudget;
            desired = (case lr_storage s of None \<Rightarrow> bounded | Some units \<Rightarrow> min bounded units);
            n = capByNotional (lr_buyNotional s) crossBuyPrice desired in
        if lr_buyNotional s > 0 \<and> \<not> lr_placedBuy s \<and> ownSellIsDearer \<and> n > 0
        then (pushBuy (li_itemId item) n crossBuyPrice s)
          \<lparr>lr_storage := map_option (\<lambda>units. max 0 (units - n)) (lr_storage s),
           lr_placedBuy := True, lr_placedCrossingBuy := True\<rparr>
        else s))"

definition planCrossingSell :: "liquidityItemState \<Rightarrow> liquidityRun \<Rightarrow> liquidityRun" where
  "planCrossingSell item s =
     (case li_bestExternalBuyPriceCents item of
       None \<Rightarrow> s
     | Some crossSellPrice \<Rightarrow>
       (let ownBuyIsCheaper = (case li_bestOwnBuyPriceCents item of
              None \<Rightarrow> True | Some own \<Rightarrow> own < crossSellPrice);
            desired = min AGGRESSIVE_CROSS_QUANTITY (li_availableInventory item);
            n = capByNotional (lr_sellNotional s) crossSellPrice desired in
        if lr_sellNotional s > 0 \<and> \<not> lr_placedSell s \<and> ownBuyIsCheaper \<and> n > 0
        then pushSell (li_itemId item) n crossSellPrice s else s))"

definition planSelfCross ::
    "liquidityBotConfig \<Rightarrow> liquidityItemState \<Rightarrow> liquidityRun \<Rightarrow> liquidityRun" where
  "planSelfCross config item s =
     (let ownSellPriceForSelfCross =
            (case li_bestOwnSellPriceCents item of
              Some p \<Rightarrow> Some p
            | None \<Rightarrow>
                if lr_placedSell s
                then Some (calculateSellPrice (li_referencePriceCents item) (lb_spreadBps config))
                else None) in
      if lr_placedCrossingBuy s \<or> lr_buyNotional s \<le> 0 then s
      else
        (case ownSellPriceForSelfCross of
          None \<Rightarrow> s
        | Some price \<Rightarrow>
          (let maxByBudget = (if price > 0 then lr_cash s sdiv price else 0);
               desired = min AGGRESSIVE_CROSS_QUANTITY maxByBudget;
               n = capByNotional (lr_buyNotional s) price desired in
           if n > 0 then pushBuy (li_itemId item) n price s else s)))"

text \<open>One turn; once both budgets are used up every later turn does nothing, as after \<open>break\<close>.\<close>

definition planItem ::
    "liquidityBotConfig \<Rightarrow> liquidityRun \<Rightarrow> liquidityItemState \<Rightarrow> liquidityRun" where
  "planItem config s item =
     (if lr_buyNotional s \<le> 0 \<and> lr_sellNotional s \<le> 0 then s
      else
        planSelfCross config item (planCrossingSell item (planCrossingBuy item
          (planRestingBuy config item (planRestingSell config item
            (s\<lparr>lr_placedBuy := False, lr_placedSell := False, lr_placedCrossingBuy := False\<rparr>))))))"

definition planLiquidityOrders ::
    "env \<Rightarrow> liquidityBotState \<Rightarrow> liquidityBotConfig \<Rightarrow> plannedLiquidityOrder list" where
  "planLiquidityOrders E state config =
     (if lb_maxNotionalPerTickCents config \<le> 0 \<or> lb_targetQuantityPerSide config \<le> 0 then []
      else
        lr_orders (foldl (planItem config)
          \<lparr>lr_orders = [], lr_buyNotional = lb_maxNotionalPerTickCents config,
           lr_sellNotional = lb_maxNotionalPerTickCents config,
           lr_cash = ls_availableCashCents state,
           lr_storage = (case ls_availableStorageUnits state of
              None \<Rightarrow> None | Some units \<Rightarrow> if units \<ge> 0 then Some units else None),
           lr_placedBuy = False, lr_placedSell = False, lr_placedCrossingBuy = False\<rparr>
          (sortBy (\<lambda>x y. env_localeCompare E (li_itemCode x) (li_itemCode y)) (ls_items state))))"

subsection \<open>The plan stays within the budgets\<close>

definition notional :: "orderSide \<Rightarrow> plannedLiquidityOrder list \<Rightarrow> int" where
  "notional side orders =
     (\<Sum>p\<leftarrow>orders. if lo_side p = side then lo_quantity p * lo_unitPriceCents p else 0)"

definition sold :: "string \<Rightarrow> plannedLiquidityOrder list \<Rightarrow> int" where
  "sold iid orders =
     (\<Sum>p\<leftarrow>orders. if lo_side p = SELL \<and> lo_itemId p = iid then lo_quantity p else 0)"

text \<open>What holds of the loop's variables, for budgets \<open>B\<close> and \<open>S\<close> and free cash \<open>C\<close>.\<close>

definition runOk :: "int \<Rightarrow> int \<Rightarrow> liquidityRun \<Rightarrow> bool" where
  "runOk B C s \<longleftrightarrow>
     notional BUY (lr_orders s) + lr_buyNotional s = B \<and>
     notional SELL (lr_orders s) + lr_sellNotional s = B \<and>
     notional BUY (lr_orders s) + lr_cash s = C \<and>
     0 \<le> lr_buyNotional s \<and> 0 \<le> lr_sellNotional s \<and> (0 < notional BUY (lr_orders s) \<longrightarrow> 0 \<le> lr_cash s) \<and>
     (\<forall>p\<in>set (lr_orders s). 0 < lo_quantity p \<and> 0 < lo_unitPriceCents p)"

lemma sdiv_bound: "0 < n \<Longrightarrow> 0 < p \<Longrightarrow> n \<le> m sdiv p \<Longrightarrow> n * p \<le> (m :: int)"
proof -
  assume a: "0 < n" "0 < p" "n \<le> m sdiv p"
  have pos: "0 < m"
  proof (rule ccontr)
    assume "\<not> 0 < m"
    then have "m sdiv p \<le> 0"
      using a(2) by (cases "m = 0") (simp_all add: signed_divide_int_def sgn_1_pos sgn_1_neg pos_imp_zdiv_nonneg_iff)
    with a show False by simp
  qed
  then have "m sdiv p = m div p" using a(2) by (simp add: signed_divide_int_def sgn_1_pos)
  with a(3) have "n * p \<le> m div p * p" using a(2) by simp
  also have "\<dots> \<le> m" using a(2) by (metis div_mult_mod_eq le_add_same_cancel1 pos_mod_sign)
  finally show ?thesis .
qed

lemma capByNotional_bound:
  assumes "0 < capByNotional m p desired"
  shows "0 < p \<and> capByNotional m p desired * p \<le> m \<and> capByNotional m p desired \<le> desired"
proof -
  let ?n = "capByNotional m p desired"
  have p: "0 < p" using assms by (auto simp: capByNotional_def split: if_splits)
  have "?n \<le> m sdiv p" "?n \<le> desired" using assms p by (auto simp: capByNotional_def)
  with sdiv_bound [OF assms p] p show ?thesis by simp
qed

lemma runOk_pushBuy:
  assumes "runOk B C s" and "0 < n" and "0 < price" and "n * price \<le> lr_buyNotional s" and "n * price \<le> lr_cash s"
  shows "runOk B C (pushBuy iid n price s)"
  using assms by (auto simp: runOk_def pushBuy_def notional_def)

lemma runOk_pushSell:
  assumes "runOk B C s" and "0 < n" and "0 < price" and "n * price \<le> lr_sellNotional s"
  shows "runOk B C (pushSell iid n price s)"
  using assms by (auto simp: runOk_def pushSell_def notional_def)

lemma runOk_flags [simp]:
  "runOk B C (s\<lparr>lr_placedBuy := b\<rparr>) = runOk B C s"
  "runOk B C (s\<lparr>lr_placedSell := b\<rparr>) = runOk B C s"
  "runOk B C (s\<lparr>lr_placedCrossingBuy := b\<rparr>) = runOk B C s"
  "runOk B C (s\<lparr>lr_storage := u\<rparr>) = runOk B C s"
  by (simp_all add: runOk_def)

text \<open>A bounded purchase: capped by the notional budget and by the cash.\<close>

lemma runOk_buy:
  assumes "runOk B C s" and "n = capByNotional (lr_buyNotional s) price desired" and "0 < n"
    and "desired \<le> (if price > 0 then lr_cash s sdiv price else 0)"
  shows "runOk B C (pushBuy iid n price s)"
proof -
  have b: "0 < price" "n * price \<le> lr_buyNotional s" "n \<le> desired"
    using capByNotional_bound [of "lr_buyNotional s" price desired] assms(2,3) by simp_all
  with assms(4) have "n \<le> lr_cash s sdiv price" by simp
  with sdiv_bound [OF assms(3) b(1)] have "n * price \<le> lr_cash s" by simp
  with assms(1,3) b show ?thesis by (intro runOk_pushBuy) simp_all
qed

lemma runOk_sell:
  assumes "runOk B C s" and "n = capByNotional (lr_sellNotional s) price desired" and "0 < n"
  shows "runOk B C (pushSell iid n price s)"
  using capByNotional_bound [of "lr_sellNotional s" price desired] assms
  by (intro runOk_pushSell) simp_all

lemma runOk_planItem:
  assumes "runOk B C s"
  shows "runOk B C (planItem config s item)"
proof -
  have 1: "runOk B C (planRestingSell config item t)" if "runOk B C t" for t
    using that by (auto simp: planRestingSell_def Let_def intro: runOk_sell)
  have 2: "runOk B C (planRestingBuy config item t)" if "runOk B C t" for t
    using that by (auto simp: planRestingBuy_def Let_def intro!: runOk_buy)
  have 3: "runOk B C (planCrossingBuy item t)" if "runOk B C t" for t
    using that by (auto simp: planCrossingBuy_def Let_def split: option.splits intro!: runOk_buy)
  have 4: "runOk B C (planCrossingSell item t)" if "runOk B C t" for t
    using that by (auto simp: planCrossingSell_def Let_def split: option.splits intro!: runOk_sell)
  have 5: "runOk B C (planSelfCross config item t)" if "runOk B C t" for t
    using that by (auto simp: planSelfCross_def Let_def split: option.splits intro!: runOk_buy)
  show ?thesis using assms by (simp add: planItem_def 1 2 3 4 5)
qed

text \<open>Per item at most one order sells, and never more than the item's free stock.\<close>

lemma sold_push [simp]:
  "sold iid (lr_orders (pushBuy k n p s)) = sold iid (lr_orders s)"
  "sold iid (lr_orders (pushSell k n p s)) = sold iid (lr_orders s) + (if k = iid then n else 0)"
  by (simp_all add: sold_def pushBuy_def pushSell_def)

lemma pushed_frame [simp]:
  "lr_placedSell (pushBuy k n p s) = lr_placedSell s"
  "lr_placedSell (pushSell k n p s) = lr_placedSell s"
  by (simp_all add: pushBuy_def pushSell_def)

definition soldMore :: "liquidityItemState \<Rightarrow> liquidityRun \<Rightarrow> liquidityRun \<Rightarrow> bool" where
  "soldMore item s t \<longleftrightarrow>
     (\<forall>iid. sold iid (lr_orders s) \<le> sold iid (lr_orders t) \<and>
       sold iid (lr_orders t) \<le> sold iid (lr_orders s) +
         (if iid = li_itemId item then max 0 (li_availableInventory item) else 0))"

lemma cap_le: "capByNotional m p (min a b) \<le> max 0 b"
  by (auto simp: capByNotional_def)

lemma cap_nonneg: "0 \<le> capByNotional m p q"
  by (simp add: capByNotional_def)

lemma planRestingSell_sold:
  "lr_placedSell (planRestingSell config item s) \<or> planRestingSell config item s = s"
  "soldMore item s (planRestingSell config item s)"
  using cap_le [of "lr_sellNotional s" _ "lb_targetQuantityPerSide config" "li_availableInventory item"]
  by (auto simp: planRestingSell_def Let_def soldMore_def)

lemma buy_steps_sold:
  "sold iid (lr_orders (planRestingBuy config item s)) = sold iid (lr_orders s)"
  "lr_placedSell (planRestingBuy config item s) = lr_placedSell s"
  "sold iid (lr_orders (planCrossingBuy item s)) = sold iid (lr_orders s)"
  "lr_placedSell (planCrossingBuy item s) = lr_placedSell s"
  "sold iid (lr_orders (planSelfCross config item s)) = sold iid (lr_orders s)"
  by (auto simp: planRestingBuy_def planCrossingBuy_def planSelfCross_def Let_def split: option.splits)

lemma planCrossingSell_sold:
  "if lr_placedSell s then planCrossingSell item s = s else soldMore item s (planCrossingSell item s)"
  using cap_le [of "lr_sellNotional s" _ AGGRESSIVE_CROSS_QUANTITY "li_availableInventory item"]
  by (auto simp: planCrossingSell_def Let_def soldMore_def split: option.splits)

lemma planItem_sold: "soldMore item s (planItem config s item)"
proof (cases "lr_buyNotional s \<le> 0 \<and> lr_sellNotional s \<le> 0")
  case True
  then show ?thesis by (simp add: planItem_def soldMore_def)
next
  case False
  define t0 where "t0 = s\<lparr>lr_placedBuy := False, lr_placedSell := False, lr_placedCrossingBuy := False\<rparr>"
  define t1 where "t1 = planRestingSell config item t0"
  define t2 where "t2 = planCrossingBuy item (planRestingBuy config item t1)"
  define t3 where "t3 = planCrossingSell item t2"
  have plan: "planItem config s item = planSelfCross config item t3"
    using False by (auto simp: planItem_def t0_def t1_def t2_def t3_def)
  have o0: "lr_orders t0 = lr_orders s" by (simp add: t0_def)
  have o2: "sold iid (lr_orders t2) = sold iid (lr_orders t1)" "lr_placedSell t2 = lr_placedSell t1" for iid
    by (simp_all add: t2_def buy_steps_sold)
  have o4: "sold iid (lr_orders (planItem config s item)) = sold iid (lr_orders t3)" for iid
    by (simp add: plan buy_steps_sold)
  show ?thesis
  proof (cases "lr_placedSell t1")
    case True
    then have "t3 = t2" using planCrossingSell_sold [of t2 item] o2 by (simp add: t3_def)
    with planRestingSell_sold(2) [of item t0 config] o0 o2 o4 show ?thesis
      by (simp add: soldMore_def t1_def)
  next
    case False
    then have "t1 = t0" using planRestingSell_sold(1) [of config item t0] by (simp add: t1_def)
    with False planCrossingSell_sold [of t2 item] o0 o2 o4 show ?thesis
      by (simp add: soldMore_def t3_def)
  qed
qed

lemma planItems_sold:
  assumes "distinct (map li_itemId is)" and "x \<in> set is"
  shows "sold (li_itemId x) (lr_orders (foldl (planItem config) s is)) \<le>
    sold (li_itemId x) (lr_orders s) + max 0 (li_availableInventory x)"
  using assms
proof (induction "is" arbitrary: s)
  case Nil
  then show ?case by simp
next
  case (Cons item rest)
  have keep: "sold iid (lr_orders (foldl (planItem config) t rest)) = sold iid (lr_orders t)"
    if "iid \<notin> li_itemId ` set rest" for iid t
    using that
  proof (induction rest arbitrary: t)
    case (Cons y ys)
    have "sold iid (lr_orders (planItem config t y)) = sold iid (lr_orders t)"
      using planItem_sold [of y t config] Cons.prems
      by (auto simp: soldMore_def dest!: spec [of _ iid])
    with Cons show ?case by simp
  qed simp
  show ?case
  proof (cases "x = item")
    case True
    with Cons.prems(1) have "li_itemId x \<notin> li_itemId ` set rest" by auto
    with True keep planItem_sold [of item s config] show ?thesis
      by (auto simp: soldMore_def dest!: spec [of _ "li_itemId item"])
  next
    case False
    with Cons.prems(2) have x: "x \<in> set rest" by simp
    then have "li_itemId x \<noteq> li_itemId item" using Cons.prems(1) by (auto simp: rev_image_eqI)
    with x Cons.IH [of "planItem config s item"] Cons.prems(1) planItem_sold [of item s config]
    show ?thesis by (auto simp: soldMore_def dest!: spec [of _ "li_itemId x"])
  qed
qed

lemma runOk_planItems: "runOk B C s \<Longrightarrow> runOk B C (foldl (planItem config) s is)"
  by (induction "is" arbitrary: s) (simp_all add: runOk_planItem)

lemma notional_nonneg:
  "(\<And>p. p \<in> set ps \<Longrightarrow> 0 < lo_quantity p \<and> 0 < lo_unitPriceCents p) \<Longrightarrow> 0 \<le> notional side ps"
  unfolding notional_def by (rule sum_list_nonneg) (auto simp: less_imp_le)

lemma planLiquidityOrders_run:
  assumes "planLiquidityOrders E state config = orders" and "orders \<noteq> []"
  shows "\<exists>s. runOk (lb_maxNotionalPerTickCents config) (ls_availableCashCents state) s \<and> lr_orders s = orders \<and>
    (distinct (map li_itemId (ls_items state)) \<longrightarrow> (\<forall>x\<in>set (ls_items state).
       sold (li_itemId x) orders \<le> max 0 (li_availableInventory x)))"
proof -
  let ?s0 = "\<lparr>lr_orders = [], lr_buyNotional = lb_maxNotionalPerTickCents config,
           lr_sellNotional = lb_maxNotionalPerTickCents config,
           lr_cash = ls_availableCashCents state,
           lr_storage = (case ls_availableStorageUnits state of
              None \<Rightarrow> None | Some units \<Rightarrow> if units \<ge> 0 then Some units else None),
           lr_placedBuy = False, lr_placedSell = False, lr_placedCrossingBuy = False\<rparr>"
  let ?is = "sortBy (\<lambda>x y. env_localeCompare E (li_itemCode x) (li_itemCode y)) (ls_items state)"
  have orders: "orders = lr_orders (foldl (planItem config) ?s0 ?is)" "0 < lb_maxNotionalPerTickCents config"
    using assms by (auto simp: planLiquidityOrders_def split: if_splits)
  have "runOk (lb_maxNotionalPerTickCents config) (ls_availableCashCents state) ?s0"
    using orders(2) by (simp add: runOk_def notional_def)
  from runOk_planItems [OF this] have run:
    "runOk (lb_maxNotionalPerTickCents config) (ls_availableCashCents state) (foldl (planItem config) ?s0 ?is)" .
  have none: "sold iid (lr_orders ?s0) = 0" for iid by (simp add: sold_def)
  have "sold (li_itemId x) orders \<le> max 0 (li_availableInventory x)"
    if "distinct (map li_itemId (ls_items state))" "x \<in> set (ls_items state)" for x
    using planItems_sold [of ?is x config ?s0] that none [of "li_itemId x"] by (simp add: orders(1))
  with run orders(1) show ?thesis by blast
qed

text \<open>
  C28. A market-making bot's plan for a tick: every planned order has a positive quantity and
  price; what it bids costs at most its notional budget and at most its free cash, what it offers
  is worth at most the budget, and of no item more is offered than is free.
\<close>

theorem liquidity_plan_within_budget:
  assumes "distinct (map li_itemId (ls_items state))"
  shows "let orders = planLiquidityOrders E state config in
    (\<forall>p\<in>set orders. 0 < lo_quantity p \<and> 0 < lo_unitPriceCents p) \<and>
    notional BUY orders \<le> max 0 (lb_maxNotionalPerTickCents config) \<and>
    notional BUY orders \<le> max 0 (ls_availableCashCents state) \<and>
    notional SELL orders \<le> max 0 (lb_maxNotionalPerTickCents config) \<and>
    (\<forall>x\<in>set (ls_items state). sold (li_itemId x) orders \<le> max 0 (li_availableInventory x))"
proof (cases "planLiquidityOrders E state config = []")
  case True
  then show ?thesis by (simp add: notional_def sold_def)
next
  case False
  from planLiquidityOrders_run [OF refl False] assms obtain s where
    s: "runOk (lb_maxNotionalPerTickCents config) (ls_availableCashCents state) s"
      "lr_orders s = planLiquidityOrders E state config"
    and sold: "\<forall>x\<in>set (ls_items state).
       sold (li_itemId x) (planLiquidityOrders E state config) \<le> max 0 (li_availableInventory x)"
    by blast
  have "0 \<le> notional BUY (lr_orders s)" using s(1) by (intro notional_nonneg) (auto simp: runOk_def)
  then have "notional BUY (lr_orders s) \<le> max 0 (ls_availableCashCents state)"
    using s(1) by (cases "notional BUY (lr_orders s) = 0") (auto simp: runOk_def)
  with s sold show ?thesis by (auto simp: runOk_def Let_def)
qed

definition liquidityFixture :: liquidityBotState where
  "liquidityFixture = \<lparr>ls_availableCashCents = 1000, ls_availableStorageUnits = Some 40,
     ls_items =
       [\<lparr>li_itemId = ''ore'', li_itemCode = ''IRON_ORE'', li_referencePriceCents = 100,
         li_availableInventory = 3, li_hasOpenBuyOrder = False, li_hasOpenSellOrder = False,
         li_bestOwnBuyPriceCents = None, li_bestOwnSellPriceCents = None,
         li_bestExternalBuyPriceCents = Some 99, li_bestExternalSellPriceCents = Some 104\<rparr>,
        \<lparr>li_itemId = ''coal'', li_itemCode = ''COAL'', li_referencePriceCents = 50,
         li_availableInventory = 0, li_hasOpenBuyOrder = False, li_hasOpenSellOrder = False,
         li_bestOwnBuyPriceCents = None, li_bestOwnSellPriceCents = None,
         li_bestExternalBuyPriceCents = None, li_bestExternalSellPriceCents = None\<rparr>]\<rparr>"

definition liquidityConfigFixture :: liquidityBotConfig where
  "liquidityConfigFixture = \<lparr>lb_spreadBps = 500, lb_maxNotionalPerTickCents = 600, lb_targetQuantityPerSide = 5\<rparr>"

lemma liquidity_plan_example:
  "map (\<lambda>p. (lo_itemId p, lo_side p = BUY, lo_quantity p, lo_unitPriceCents p))
     (planLiquidityOrders fixtureEnv liquidityFixture liquidityConfigFixture) =
   [(''coal'', True, 5, 47), (''ore'', False, 3, 105), (''ore'', True, 3, 95)]"
  by code_simp

theorem liquidity_plan_within_budget_witness:
  "notional BUY (planLiquidityOrders fixtureEnv liquidityFixture liquidityConfigFixture) \<le> 600"
proof -
  have ids: "distinct (map li_itemId (ls_items liquidityFixture))" by code_simp
  have "max 0 (lb_maxNotionalPerTickCents liquidityConfigFixture) = 600" by code_simp
  with liquidity_plan_within_budget [OF ids, of fixtureEnv liquidityConfigFixture] show ?thesis
    by (simp add: Let_def)
qed

end
