(* ===== verification/BotRunner.thy ===== *)
theory BotRunner
  imports LiquidityBot Production MarketOrders Buildings
begin

section \<open>The bots' stage of a tick\<close>

text \<open>
  \<open>packages/sim/src/bots/bot-runner.ts\<close> and \<open>bots/strategies/producer-bot.ts\<close>: the simulated
  companies withdraw their standing orders, are photographed with the prices around them, and then
  place the planned orders or start profitable production. The code's string keys of two or three
  ids joined by colons are read as tuples.
\<close>

subsection \<open>The producer\<close>

record producerBotInput =
  pb_companyId :: string
  pb_tick :: jsnum
  pb_maxJobsPerTick :: jsnum
  pb_cadenceTicks :: int
  pb_minProfitBps :: jsnum
  pb_referencePriceByItemId :: "string \<rightharpoonup> int"

definition hashString :: "string \<Rightarrow> int" where
  "hashString value = foldl (\<lambda>hash c. (hash * 31 + of_char c) mod 2147483647) 0 value"

definition shouldRunOnTick :: "string \<Rightarrow> int \<Rightarrow> int \<Rightarrow> bool" where
  "shouldRunOnTick companyId tick cadenceTicks =
     (cadenceTicks \<le> 1 \<or> tick mod cadenceTicks = hashString companyId mod cadenceTicks)"

definition runProducerBot :: "env \<Rightarrow> producerBotInput \<Rightarrow> db \<Rightarrow> (int \<times> db) result" where
  "runProducerBot E input d =
     (if \<not> shouldRunOnTick (pb_companyId input) (num (pb_tick input)) (pb_cadenceTicks input)
      then Inr (0, d)
      else startProfitableProductionForCompanyWithTx E
        \<lparr>sp_companyId = pb_companyId input, sp_tick = pb_tick input,
         sp_maxJobs = Some (pb_maxJobsPerTick input),
         sp_referencePriceByItemId = pb_referencePriceByItemId input,
         sp_minProfitBps = Some (pb_minProfitBps input)\<rparr> d)"

subsection \<open>Configuration and plan\<close>

record botRuntimeConfig =
  br_enabled :: bool
  br_botCount :: int
  br_itemCodes :: "string list"
  br_spreadBps :: int
  br_maxNotionalPerTickCents :: int
  br_targetQuantityPerSide :: int
  br_producerMaxJobsPerTick :: jsnum
  br_producerCadenceTicks :: int
  br_producerMinProfitBps :: jsnum

record botOverrides =
  ob_enabled :: "bool option"
  ob_botCount :: "int option"
  ob_itemCodes :: "string list option"
  ob_spreadBps :: "int option"
  ob_maxNotionalPerTickCents :: "int option"
  ob_targetQuantityPerSide :: "int option"
  ob_producerMaxJobsPerTick :: "jsnum option"
  ob_producerCadenceTicks :: "int option"
  ob_producerMinProfitBps :: "jsnum option"

datatype botStrategy = LIQUIDITY | PRODUCER

record botCompanySnapshot =
  bs_companyId :: string
  bs_companyCode :: string
  bs_strategy :: botStrategy
  bs_availableCashCents :: int
  bs_availableStorageUnits :: int
  bs_items :: "liquidityItemState list"

record plannedBotOrderPlacement =
  pp_companyId :: string
  pp_itemId :: string
  pp_side :: orderSide
  pp_quantity :: int
  pp_unitPriceCents :: int

record botExecutionPlan =
  orderPlacements :: "plannedBotOrderPlacement list"
  producerCompanyIds :: "string list"

record runBotsResult =
  placedOrders :: int
  startedProductionJobs :: int

definition DEFAULT_REFERENCE_PRICES :: "(string \<times> int) list" where
  "DEFAULT_REFERENCE_PRICES =
     [(''IRON_ORE'', 80), (''COAL'', 55), (''COPPER_ORE'', 95), (''WATER'', 15),
      (''FERTILIZER'', 35), (''BIO_SUBSTRATE'', 40), (''IRON_INGOT'', 200),
      (''COPPER_INGOT'', 245), (''HAND_TOOLS'', 350), (''STEEL_INGOT'', 430),
      (''STEEL_BEAM'', 940), (''FASTENERS'', 150), (''MACHINE_PARTS'', 1250),
      (''TOOL_KIT'', 2100), (''POWER_UNIT'', 2550), (''CONVEYOR_MODULE'', 4250),
      (''INDUSTRIAL_PRESS'', 11500), (''SYNTHETIC_CONDUIT'', 520), (''BIOCELL_CANISTER'', 780),
      (''SERVO_DRIVE'', 1450), (''OPTIC_MODULE'', 1820), (''NEURAL_INTERFACE'', 3600),
      (''SPINAL_LINK'', 7600), (''OCULAR_IMPLANT'', 8200), (''CYBER_ARMATURE'', 9400),
      (''CYBERNETIC_SUITE'', 24000)]"

definition DEFAULT_BOT_RUNTIME_CONFIG :: botRuntimeConfig where
  "DEFAULT_BOT_RUNTIME_CONFIG =
     \<lparr>br_enabled = False, br_botCount = 25, br_itemCodes = [], br_spreadBps = 500,
      br_maxNotionalPerTickCents = 50000, br_targetQuantityPerSide = 5,
      br_producerMaxJobsPerTick = IntN 1, br_producerCadenceTicks = 3,
      br_producerMinProfitBps = IntN 0\<rparr>"

definition normalizeBotItemCodes :: "env \<Rightarrow> string list \<Rightarrow> string list" where
  "normalizeBotItemCodes E codes =
     sortBy (env_localeCompare E) (nubFirst (filter (\<lambda>entry. entry \<noteq> []) (map trim codes)))"

definition resolveBotRuntimeConfig :: "env \<Rightarrow> botOverrides \<Rightarrow> botRuntimeConfig" where
  "resolveBotRuntimeConfig E overrides =
     \<lparr>br_enabled = orDefault (ob_enabled overrides) (br_enabled DEFAULT_BOT_RUNTIME_CONFIG),
      br_botCount = orDefault (ob_botCount overrides) (br_botCount DEFAULT_BOT_RUNTIME_CONFIG),
      br_itemCodes = normalizeBotItemCodes E
        (orDefault (ob_itemCodes overrides) (br_itemCodes DEFAULT_BOT_RUNTIME_CONFIG)),
      br_spreadBps = orDefault (ob_spreadBps overrides) (br_spreadBps DEFAULT_BOT_RUNTIME_CONFIG),
      br_maxNotionalPerTickCents = orDefault (ob_maxNotionalPerTickCents overrides)
        (br_maxNotionalPerTickCents DEFAULT_BOT_RUNTIME_CONFIG),
      br_targetQuantityPerSide = orDefault (ob_targetQuantityPerSide overrides)
        (br_targetQuantityPerSide DEFAULT_BOT_RUNTIME_CONFIG),
      br_producerMaxJobsPerTick = orDefault (ob_producerMaxJobsPerTick overrides)
        (br_producerMaxJobsPerTick DEFAULT_BOT_RUNTIME_CONFIG),
      br_producerCadenceTicks = orDefault (ob_producerCadenceTicks overrides)
        (br_producerCadenceTicks DEFAULT_BOT_RUNTIME_CONFIG),
      br_producerMinProfitBps = orDefault (ob_producerMinProfitBps overrides)
        (br_producerMinProfitBps DEFAULT_BOT_RUNTIME_CONFIG)\<rparr>"

definition toLiquidityConfig :: "botRuntimeConfig \<Rightarrow> liquidityBotConfig" where
  "toLiquidityConfig config =
     \<lparr>lb_spreadBps = br_spreadBps config,
      lb_maxNotionalPerTickCents = br_maxNotionalPerTickCents config,
      lb_targetQuantityPerSide = br_targetQuantityPerSide config\<rparr>"

definition companyPlacements ::
    "env \<Rightarrow> botRuntimeConfig \<Rightarrow> botCompanySnapshot \<Rightarrow> plannedBotOrderPlacement list" where
  "companyPlacements E config company =
     map (\<lambda>order. \<lparr>pp_companyId = bs_companyId company, pp_itemId = lo_itemId order,
         pp_side = lo_side order, pp_quantity = lo_quantity order,
         pp_unitPriceCents = lo_unitPriceCents order\<rparr>)
       (planLiquidityOrders E
         \<lparr>ls_availableCashCents = bs_availableCashCents company,
          ls_availableStorageUnits = Some (bs_availableStorageUnits company),
          ls_items = bs_items company\<rparr> (toLiquidityConfig config))"

definition planBotActions ::
    "env \<Rightarrow> botCompanySnapshot list \<Rightarrow> botRuntimeConfig \<Rightarrow> botExecutionPlan" where
  "planBotActions E bots config =
     (let sortedCompanies =
            sortBy (\<lambda>x y. env_localeCompare E (bs_companyCode x) (bs_companyCode y)) bots in
      \<lparr>orderPlacements = concat (map (companyPlacements E config)
         (filter (\<lambda>c. bs_strategy c \<noteq> PRODUCER) sortedCompanies)),
       producerCompanyIds = map bs_companyId
         (filter (\<lambda>c. bs_strategy c = PRODUCER) sortedCompanies)\<rparr>)"

subsection \<open>Prices and the snapshot of a company\<close>

text \<open>Open orders of a region and item, and the best price of a side among some orders.\<close>

definition bookOrdersAt :: "string \<Rightarrow> string \<Rightarrow> db \<Rightarrow> marketOrder list" where
  "bookOrdersAt regionId itemId d =
     filter (\<lambda>x. ord_regionId x = regionId \<and> ord_itemId x = itemId \<and> ord_status x = OrderOPEN)
       (marketOrders d)"

definition bestPrice :: "(int \<Rightarrow> int \<Rightarrow> bool) \<Rightarrow> orderSide \<Rightarrow> marketOrder list \<Rightarrow> int option" where
  "bestPrice better side orders =
     foldl (\<lambda>current x.
       if ord_side x = side \<and>
          (case current of None \<Rightarrow> True | Some p \<Rightarrow> better (ord_unitPriceCents x) p)
       then Some (ord_unitPriceCents x) else current) None orders"

definition bestBuyPrice :: "marketOrder list \<Rightarrow> int option" where
  "bestBuyPrice = bestPrice (>) BUY"

definition bestSellPrice :: "marketOrder list \<Rightarrow> int option" where
  "bestSellPrice = bestPrice (<) SELL"

definition latestTradePrice :: "string \<Rightarrow> string \<Rightarrow> db \<Rightarrow> int option" where
  "latestTradePrice regionId itemId d =
     map_option tr_unitPriceCents
       (List.find (\<lambda>t. tr_regionId t = regionId \<and> tr_itemId t = itemId)
         (sortBy (cmpThen (cmpKey (\<lambda>t. - tr_tick t)) (cmpKey (\<lambda>t. - tr_createdAt t))) (trades d)))"

definition resolveReferencePrice :: "string \<Rightarrow> string \<Rightarrow> string \<Rightarrow> db \<Rightarrow> int" where
  "resolveReferencePrice itemCode regionId itemId d =
     (case latestTradePrice regionId itemId d of
       Some p \<Rightarrow> p
     | None \<Rightarrow>
       (case (bestBuyPrice (bookOrdersAt regionId itemId d),
              bestSellPrice (bookOrdersAt regionId itemId d)) of
         (Some bestBuy, Some bestSell) \<Rightarrow> (bestBuy + bestSell) sdiv 2
       | (Some bestBuy, None) \<Rightarrow> bestBuy
       | (None, Some bestSell) \<Rightarrow> bestSell
       | (None, None) \<Rightarrow>
         (case map_of DEFAULT_REFERENCE_PRICES itemCode of Some p \<Rightarrow> p
          | None \<Rightarrow> (case resolveIconItemFallbackPriceCents itemCode of Some p \<Rightarrow> p
          | None \<Rightarrow> 100))))"

definition inferStrategy :: "string \<Rightarrow> botStrategy" where
  "inferStrategy companyCode = (if strIncludes companyCode ''TRADER'' then LIQUIDITY else PRODUCER)"

definition botItemState :: "company \<Rightarrow> db \<Rightarrow> item \<Rightarrow> liquidityItemState" where
  "botItemState company d item =
     (let stock = findInventory (co_id company) (it_id item) (co_regionId company) d;
          book = bookOrdersAt (co_regionId company) (it_id item) d;
          own = filter (\<lambda>x. ord_companyId x = co_id company) book;
          external = filter (\<lambda>x. ord_companyId x \<noteq> co_id company) book in
      \<lparr>li_itemId = it_id item, li_itemCode = it_code item,
       li_referencePriceCents =
         resolveReferencePrice (it_code item) (co_regionId company) (it_id item) d,
       li_availableInventory =
         (case stock of None \<Rightarrow> 0
          | Some r \<Rightarrow> max 0 (inv_quantity r - inv_reservedQuantity r)),
       li_hasOpenBuyOrder = list_ex (\<lambda>x. ord_side x = BUY) own,
       li_hasOpenSellOrder = list_ex (\<lambda>x. ord_side x = SELL) own,
       li_bestOwnBuyPriceCents = bestBuyPrice own,
       li_bestOwnSellPriceCents = bestSellPrice own,
       li_bestExternalBuyPriceCents = bestBuyPrice external,
       li_bestExternalSellPriceCents = bestSellPrice external\<rparr>)"

text \<open>The company's own columns are those read before the cancellations.\<close>

definition botSnapshot :: "item list \<Rightarrow> db \<Rightarrow> company \<Rightarrow> botCompanySnapshot result" where
  "botSnapshot offered d company =
     andThen (calculateRegionalStorageCapacity
       (IntN (warehouses (co_id company) (co_regionId company) d))
       (IntN WAREHOUSE_CAPACITY_PER_SLOT) (IntN BASE_STORAGE_CAPACITY_PER_REGION)) (\<lambda>capacity.
     andThen (availableCash
       \<lparr>cashCents = co_cashCents company, reservedCashCents = co_reservedCashCents company\<rparr>) (\<lambda>cash.
     Inr \<lparr>bs_companyId = co_id company, bs_companyCode = co_code company,
       bs_strategy = inferStrategy (co_code company), bs_availableCashCents = cash,
       bs_availableStorageUnits =
         max 0 (capacity - regionStock (co_id company) (co_regionId company) d),
       bs_items = map (botItemState company d) offered\<rparr>))"

subsection \<open>The stage of a tick\<close>

definition botCompanies :: "env \<Rightarrow> int \<Rightarrow> db \<Rightarrow> company list" where
  "botCompanies E botCount d =
     take (nat botCount) (sortBy (\<lambda>x y. env_textCompare E (co_code x) (co_code y))
       (filter (\<lambda>c. \<not> co_isPlayer c) (companies d)))"

definition botItems :: "env \<Rightarrow> string list \<Rightarrow> db \<Rightarrow> item list" where
  "botItems E codes d =
     sortBy (\<lambda>x y. env_textCompare E (it_code x) (it_code y))
       (filter (\<lambda>i. codes = [] \<or> it_code i \<in> set codes) (items d))"

definition cancelLiquidityOrders :: "env \<Rightarrow> jsnum \<Rightarrow> company list \<Rightarrow> item list \<Rightarrow> db \<Rightarrow> db result" where
  "cancelLiquidityOrders E tick bots offered d =
     (let liquidityCompanyIds =
            map co_id (filter (\<lambda>c. inferStrategy (co_code c) = LIQUIDITY) bots) in
      forEach (\<lambda>order d.
          andThen (cancelMarketOrderWithTx E \<lparr>xo_orderId = ord_id order, xo_tick = Some tick\<rparr> d)
            (\<lambda>(_, d). Inr d))
        (sortBy (\<lambda>x y. env_textCompare E (ord_id x) (ord_id y))
          (filter (\<lambda>x. ord_companyId x \<in> set liquidityCompanyIds \<and>
             ord_itemId x \<in> set (map it_id offered) \<and> ord_status x = OrderOPEN) (marketOrders d))) d)"

definition placePlanned ::
    "env \<Rightarrow> jsnum \<Rightarrow> plannedBotOrderPlacement \<Rightarrow> int \<times> db \<Rightarrow> (int \<times> db) result" where
  "placePlanned E tick order = (\<lambda>(placed, d).
     andThen (placeMarketOrderWithTx E
       \<lparr>po_companyId = pp_companyId order, po_itemId = pp_itemId order, po_regionId = None,
        po_side = pp_side order, po_quantity = IntN (pp_quantity order),
        po_unitPriceCents = pp_unitPriceCents order, po_tick = Some tick\<rparr> d) (\<lambda>(_, d).
     Inr (placed + 1, d)))"

definition runProducer ::
    "env \<Rightarrow> jsnum \<Rightarrow> botRuntimeConfig \<Rightarrow> (string \<Rightarrow> string \<rightharpoonup> int) \<Rightarrow> string \<Rightarrow> int \<times> db \<Rightarrow>
     (int \<times> db) result" where
  "runProducer E tick config prices companyId = (\<lambda>(started, d).
     andThen (runProducerBot E
       \<lparr>pb_companyId = companyId, pb_tick = tick,
        pb_maxJobsPerTick = br_producerMaxJobsPerTick config,
        pb_cadenceTicks = br_producerCadenceTicks config,
        pb_minProfitBps = br_producerMinProfitBps config,
        pb_referencePriceByItemId = prices companyId\<rparr> d) (\<lambda>(n, d).
     Inr (started + n, d)))"

text \<open>The reference prices a producer is given: those of its company's snapshot.\<close>

definition referencePrices :: "botCompanySnapshot list \<Rightarrow> string \<Rightarrow> string \<rightharpoonup> int" where
  "referencePrices bots companyId =
     (case rowFind bs_companyId companyId bots of
       None \<Rightarrow> Map.empty
     | Some s \<Rightarrow> map_of (map (\<lambda>i. (li_itemId i, li_referencePriceCents i)) (bs_items s)))"

definition runBotPlan ::
    "env \<Rightarrow> jsnum \<Rightarrow> botRuntimeConfig \<Rightarrow> botCompanySnapshot list \<Rightarrow> botExecutionPlan \<Rightarrow> db \<Rightarrow>
     (runBotsResult \<times> db) result" where
  "runBotPlan E tick config snapshots plan d =
     andThen (forEach (placePlanned E tick) (orderPlacements plan) (0, d)) (\<lambda>(placed, d).
     andThen (forEach (runProducer E tick config (referencePrices snapshots))
       (producerCompanyIds plan) (0, d)) (\<lambda>(started, d).
     Inr (\<lparr>placedOrders = placed, startedProductionJobs = started\<rparr>, d)))"

definition runBotsForTick ::
    "env \<Rightarrow> jsnum \<Rightarrow> botOverrides \<Rightarrow> db \<Rightarrow> (runBotsResult \<times> db) result" where
  "runBotsForTick E tick overrides d =
     (let config = resolveBotRuntimeConfig E overrides;
          nothing = \<lparr>placedOrders = 0, startedProductionJobs = 0\<rparr> in
      if \<not> br_enabled config then Inr (nothing, d)
      else if \<not> isInteger tick \<or> num tick < 0
        then Inl (DomainInvariantError ''tick must be a non-negative integer'')
      else if br_botCount config \<le> 0 then Inr (nothing, d)
      else
        (let bots = botCompanies E (br_botCount config) d;
             offered = botItems E (br_itemCodes config) d in
         if bots = [] \<or> offered = [] then Inr (nothing, d)
         else
           andThen (cancelLiquidityOrders E tick bots offered d) (\<lambda>d.
           andThen (forEach (\<lambda>c acc. andThen (botSnapshot offered d c) (\<lambda>s. Inr (acc @ [s])))
             bots []) (\<lambda>snapshots.
           runBotPlan E tick config snapshots (planBotActions E snapshots config) d))))"

subsection \<open>What the stage keeps\<close>

text \<open>Balances and stock: what the bots' actions reserve and release but never move.\<close>

definition sameWealth :: "db \<Rightarrow> db \<Rightarrow> bool" where
  "sameWealth d d' \<longleftrightarrow>
     map (\<lambda>c. (co_id c, co_cashCents c)) (companies d') = map (\<lambda>c. (co_id c, co_cashCents c)) (companies d) \<and>
     (\<forall>iid. itemStock iid d' = itemStock iid d)"

lemma sameWealth_refl [simp]: "sameWealth d d"
  by (simp add: sameWealth_def)

lemma sameWealth_trans: "sameWealth d e \<Longrightarrow> sameWealth e d' \<Longrightarrow> sameWealth d d'"
  by (simp add: sameWealth_def)

lemma sameWealth_totalCash: "sameWealth d d' \<Longrightarrow> totalCash d' = totalCash d"
proof -
  assume "sameWealth d d'"
  then have "map snd (map (\<lambda>c. (co_id c, co_cashCents c)) (companies d')) =
      map snd (map (\<lambda>c. (co_id c, co_cashCents c)) (companies d))" by (simp add: sameWealth_def)
  then have "map co_cashCents (companies d') = map co_cashCents (companies d)" by (simp add: comp_def)
  then show ?thesis by (simp add: totalCash_def)
qed

lemma itemStock_reserve:
  assumes "inventories d' = rowSet invKey k (\<lambda>r. r\<lparr>inv_reservedQuantity := n\<rparr>) (inventories d)"
  shows "itemStock iid d' = itemStock iid d"
proof -
  have "map (\<lambda>r. if inv_itemId r = iid then inv_quantity r else 0) (inventories d') =
      map (\<lambda>r. if inv_itemId r = iid then inv_quantity r else 0) (inventories d)"
    unfolding assms by (rule map_rowSet_same) simp
  then show ?thesis by (simp add: itemStock_def)
qed

lemma cash_reserve:
  "companies d' = rowSet co_id k (\<lambda>c. c\<lparr>co_reservedCashCents := n\<rparr>) (companies d) \<Longrightarrow>
   map (\<lambda>c. (co_id c, co_cashCents c)) (companies d') = map (\<lambda>c. (co_id c, co_cashCents c)) (companies d)"
  by (simp add: map_rowSet_same)

lemma sameWealth_reserve:
  assumes "companies d' = rowSet co_id k (\<lambda>c. c\<lparr>co_reservedCashCents := n\<rparr>) (companies d) \<or> companies d' = companies d"
    and "inventories d' = rowSet invKey j (\<lambda>r. r\<lparr>inv_reservedQuantity := m\<rparr>) (inventories d) \<or>
      inventories d' = inventories d"
  shows "sameWealth d d'"
proof -
  have "itemStock iid d' = itemStock iid d" for iid
    using assms(2) itemStock_reserve [of d' j m d iid] by (auto simp: itemStock_def)
  then show ?thesis using assms(1) cash_reserve [of d' k n d] by (auto simp: sameWealth_def)
qed

lemma place_wealth:
  assumes "placeMarketOrderWithTx E input d = Inr (x, d')"
  shows "sameWealth d d'"
  using assms
proof (cases rule: placeMarketOrder_cases)
  case (1 c tick)
  have c: "findCompany (co_id c) d = Some c" using 1(1) rowFind_key by fastforce
  show ?thesis using placeBuyOrder_iff [OF c 1(4)] by (intro sameWealth_reserve) auto
next
  case (2 c tick)
  then show ?thesis using placeSellOrder_iff [OF 2(4)] by (auto intro: sameWealth_reserve)
qed

lemma cancel_wealth:
  assumes "cancelMarketOrderWithTx E input d = Inr (x, d')" and "marketOk d"
  shows "sameWealth d d'"
  using assms(1)
proof (cases rule: cancelMarketOrder_cases)
  case 1
  then show ?thesis by simp
next
  case (2 y d1 d2 tick)
  from cancel_open_effect [OF assms 2(1,2)] show ?thesis
    by (cases "ord_side y = BUY") (auto intro: sameWealth_reserve)
qed

text \<open>What the later stages of a tick read from tables that no stage writes.\<close>

lemma place_masters:
  assumes "placeMarketOrderWithTx E input d = Inr (x, d')"
  shows "masters d' = masters d"
  using assms
  by (auto simp: placeMarketOrderWithTx_def placeBuyOrder_def placeSellOrder_def andThen_Inr_iff Let_def
      branch_Inr updateRow_Inr createRow_Inr createLedgerEntry_Inr masters_def split: if_splits)

lemma cancel_masters:
  assumes "cancelMarketOrderWithTx E input d = Inr (x, d')"
  shows "masters d' = masters d"
  using assms
proof (cases rule: cancelMarketOrder_cases)
  case (2 y d1 d2 tick)
  have "masters d1 = masters d" using 2(3)
    by (auto simp: releaseBuyReserve_def andThen_Inr_iff Let_def branch_Inr updateRow_Inr
        createLedgerEntry_Inr masters_def split: if_splits option.splits)
  moreover have "masters d2 = masters d1" using 2(4)
    by (auto simp: releaseSellReserve_def andThen_Inr_iff Let_def branch_Inr updateRow_Inr
        masters_def split: if_splits option.splits)
  moreover have "masters d' = masters d2" using 2(5) by (auto simp: updateRow_Inr masters_def)
  ultimately show ?thesis by simp
qed simp

definition botFrame :: "db \<Rightarrow> db \<Rightarrow> bool" where
  "botFrame d d' \<longleftrightarrow> marketOk d' \<and> sameWealth d d' \<and> masters d' = masters d"

lemma botFrame_refl: "marketOk d \<Longrightarrow> botFrame d d"
  by (simp add: botFrame_def)

lemma botFrame_trans: "botFrame d e \<Longrightarrow> botFrame e d' \<Longrightarrow> botFrame d d'"
  by (auto simp: botFrame_def intro: sameWealth_trans)

lemma cancelLiquidityOrders_frame:
  assumes "cancelLiquidityOrders E tick bots offered d = Inr d'" and "marketOk d"
  shows "botFrame d d'"
proof (rule forEach_invariant [where P = "botFrame d"])
  show "botFrame d d" by (rule botFrame_refl [OF assms(2)])
  fix order e e'
  assume e: "botFrame d e" and "andThen (cancelMarketOrderWithTx E \<lparr>xo_orderId = ord_id order, xo_tick = Some tick\<rparr> e)
            (\<lambda>(_, d). Inr d) = Inr e'"
  then obtain x where x: "cancelMarketOrderWithTx E \<lparr>xo_orderId = ord_id order, xo_tick = Some tick\<rparr> e = Inr (x, e')"
    by (auto simp: andThen_Inr_iff)
  have "marketOk e" using e by (simp add: botFrame_def)
  then have "botFrame e e'"
    using marketOk_cancel [OF x] cancel_wealth [OF x] cancel_masters [OF x] by (simp add: botFrame_def)
  with e show "botFrame d e'" by (rule botFrame_trans)
qed (use assms(1) in \<open>simp add: cancelLiquidityOrders_def Let_def\<close>)

lemma placePlanned_frame:
  assumes "forEach (placePlanned E tick) orders (n, d) = Inr (n', d')" and "marketOk d"
  shows "botFrame d d' \<and> n' = n + int (length orders)"
  using assms
proof (induction orders arbitrary: n d)
  case Nil
  then show ?case by (simp add: botFrame_refl)
next
  case (Cons p ps)
  from Cons.prems(1) obtain t where t: "placePlanned E tick p (n, d) = Inr t"
    "forEach (placePlanned E tick) ps t = Inr (n', d')" by (auto simp: andThen_Inr_iff)
  from t(1) obtain x e where
    x: "placeMarketOrderWithTx E \<lparr>po_companyId = pp_companyId p, po_itemId = pp_itemId p, po_regionId = None,
        po_side = pp_side p, po_quantity = IntN (pp_quantity p),
        po_unitPriceCents = pp_unitPriceCents p, po_tick = Some tick\<rparr> d = Inr (x, e)"
    and te: "t = (n + 1, e)"
    by (auto simp: placePlanned_def andThen_Inr_iff)
  note rest = t(2) [unfolded te]
  have "botFrame d e"
    using marketOk_place [OF x Cons.prems(2)] place_wealth [OF x] place_masters [OF x] by (simp add: botFrame_def)
  moreover from this Cons.IH [OF rest] have "botFrame e d'" "n' = n + 1 + int (length ps)"
    by (auto simp: botFrame_def)
  ultimately have "botFrame d d'" "n' = n + 1 + int (length ps)" using botFrame_trans by blast+
  then show ?case by simp
qed

lemma createProductionJob_masters:
  "createProductionJobWithTx E input d = (r, d') \<Longrightarrow> masters d' = masters d"
  by (auto simp: createProductionJobWithTx_def createRow_Inr masters_def split: sum.splits dest!: adjustStock_state)

lemma startProfitableJobs_masters:
  assumes "startProfitableJobs E input m mp d0 rs n d = Inr (n', d')"
  shows "masters d' = masters d"
  using assms
proof (induction rs arbitrary: n d)
  case (Cons rc rs)
  obtain r e where step: "createProductionJobWithTx E \<lparr>sj_companyId = sp_companyId input, sj_recipeId = rc_id rc,
      sj_quantity = IntN 1, sj_tick = Some (sp_tick input)\<rparr> d = (r, e)" by (metis surj_pair)
  from createProductionJob_masters [OF this] Cons.prems step Cons.IH [of n d] Cons.IH [of n e] Cons.IH [of "n + 1" e]
  show ?case by (auto split: if_splits sum.splits)
qed simp

lemma botFrame_ok: "botFrame d e \<Longrightarrow> recipesOk d \<Longrightarrow> marketOk e \<and> recipesOk e"
  by (simp add: botFrame_def masters_def recipesOk_def)

lemma startProfitable_frame:
  assumes "startProfitableProductionForCompanyWithTx E input d = Inr (n, d')" and "marketOk d" and "recipesOk d"
  shows "botFrame d d' \<and> 0 \<le> n"
proof (rule disjE [OF startProfitable_loop [OF assms(1)]])
  assume "\<exists>m mp rs. startProfitableJobs E input m mp d rs 0 d = Inr (n, d') \<and> 0 < m \<and>
       m = (case sp_maxJobs input of None \<Rightarrow> 1 | Some k \<Rightarrow> num k)"
  then obtain m mp rs where run: "startProfitableJobs E input m mp d rs 0 d = Inr (n, d')" "0 < m" by blast
  have "marketOk d' \<and> companies d' = companies d \<and> itemStock k d' = itemStock k d \<and> 0 \<le> n" for k
    using startProfitableJobs_keeps [OF run(1) assms(2,3), of k] run(2) by simp
  with startProfitableJobs_masters [OF run(1)] show ?thesis by (simp add: botFrame_def sameWealth_def)
qed (use assms(2) in \<open>simp add: botFrame_refl\<close>)

lemma runProducerBot_frame:
  assumes "runProducerBot E input d = Inr (n, d')" and "marketOk d" and "recipesOk d"
  shows "botFrame d d' \<and> 0 \<le> n"
proof (cases "shouldRunOnTick (pb_companyId input) (num (pb_tick input)) (pb_cadenceTicks input)")
  case True
  with assms(1) show ?thesis
    by (intro startProfitable_frame [OF _ assms(2,3)]) (simp add: runProducerBot_def)
next
  case False
  with assms(1,2) show ?thesis by (simp add: runProducerBot_def botFrame_refl)
qed

lemma runProducers_frame:
  assumes "forEach (runProducer E tick config prices) ids (n, d) = Inr (n', d')" and "marketOk d" and "recipesOk d"
  shows "botFrame d d' \<and> n \<le> n'"
  using assms
proof (induction ids arbitrary: n d)
  case Nil
  then show ?case by (simp add: botFrame_refl)
next
  case (Cons i ids)
  from Cons.prems(1) obtain t where t: "runProducer E tick config prices i (n, d) = Inr t"
    "forEach (runProducer E tick config prices) ids t = Inr (n', d')" by (auto simp: andThen_Inr_iff)
  from t(1) obtain k e where
    k: "runProducerBot E \<lparr>pb_companyId = i, pb_tick = tick,
        pb_maxJobsPerTick = br_producerMaxJobsPerTick config,
        pb_cadenceTicks = br_producerCadenceTicks config,
        pb_minProfitBps = br_producerMinProfitBps config,
        pb_referencePriceByItemId = prices i\<rparr> d = Inr (k, e)"
    and te: "t = (n + k, e)"
    by (auto simp: runProducer_def andThen_Inr_iff)
  note rest = t(2) [unfolded te]
  have e: "botFrame d e \<and> 0 \<le> k"
    by (rule runProducerBot_frame [OF k Cons.prems(2,3)])
  then have "marketOk e" "recipesOk e" using botFrame_ok Cons.prems(3) by blast+
  from Cons.IH [OF rest this] have r: "botFrame e d'" "n + k \<le> n'" by simp_all
  have "botFrame d d'" using e r(1) botFrame_trans by blast
  with e r(2) show ?case by simp
qed

lemma runBotPlan_frame:
  assumes "runBotPlan E tick config ss plan d = Inr (res, d')" and "marketOk d" and "recipesOk d"
  shows "botFrame d d' \<and> placedOrders res = int (length (orderPlacements plan)) \<and> 0 \<le> startedProductionJobs res"
proof -
  from assms(1) obtain n e where
    e: "forEach (placePlanned E tick) (orderPlacements plan) (0, d) = Inr (n, e)"
    and rest: "andThen (forEach (runProducer E tick config (referencePrices ss)) (producerCompanyIds plan) (0, e))
       (\<lambda>(started, d). Inr (\<lparr>placedOrders = n, startedProductionJobs = started\<rparr>, d)) = Inr (res, d')"
    by (auto simp only: runBotPlan_def andThen_Inr_iff split_paired_Ex prod.case)
  from rest obtain m where
    "forEach (runProducer E tick config (referencePrices ss)) (producerCompanyIds plan) (0, e) = Inr (m, d')"
    "res = \<lparr>placedOrders = n, startedProductionJobs = m\<rparr>"
    by (auto simp only: andThen_Inr_iff split_paired_Ex prod.case sum.inject prod.inject)
  then have p: "forEach (runProducer E tick config (referencePrices ss)) (producerCompanyIds plan) (0, e) =
        Inr (startedProductionJobs res, d')" and n: "n = placedOrders res" by simp_all
  note f = placePlanned_frame [OF e assms(2)]
  then have "marketOk e" "recipesOk e" using botFrame_ok assms(3) by blast+
  from runProducers_frame [OF p this] have r: "botFrame e d'" "0 \<le> startedProductionJobs res" by simp_all
  have "botFrame d d'" using f r(1) botFrame_trans by blast
  with f r(2) n show ?thesis by simp
qed

lemma runBotsForTick_Inr:
  assumes "runBotsForTick E tick overrides d = Inr (res, d')"
  shows "d' = d \<and> res = \<lparr>placedOrders = 0, startedProductionJobs = 0\<rparr> \<or>
    (\<exists>bots offered e config ss plan. cancelLiquidityOrders E tick bots offered d = Inr e \<and>
       runBotPlan E tick config ss plan e = Inr (res, d'))"
proof -
  let ?config = "resolveBotRuntimeConfig E overrides"
  let ?bots = "botCompanies E (br_botCount ?config) d"
  let ?offered = "botItems E (br_itemCodes ?config) d"
  show ?thesis
  proof (cases "br_enabled ?config \<and> isInteger tick \<and> \<not> num tick < 0 \<and> \<not> br_botCount ?config \<le> 0 \<and>
      ?bots \<noteq> [] \<and> ?offered \<noteq> []")
    case False
    with assms have "d' = d \<and> res = \<lparr>placedOrders = 0, startedProductionJobs = 0\<rparr>"
      by (auto simp: runBotsForTick_def Let_def split: if_splits)
    then show ?thesis by blast
  next
    case True
    with assms have "andThen (cancelLiquidityOrders E tick ?bots ?offered d) (\<lambda>d.
        andThen (forEach (\<lambda>c acc. andThen (botSnapshot ?offered d c) (\<lambda>s. Inr (acc @ [s]))) ?bots []) (\<lambda>ss.
        runBotPlan E tick ?config ss (planBotActions E ss ?config) d)) = Inr (res, d')"
      by (simp add: runBotsForTick_def Let_def)
    then show ?thesis unfolding andThen_Inr_iff by blast
  qed
qed

lemma runBots_frame:
  assumes "runBotsForTick E tick overrides d = Inr (res, d')" and "marketOk d" and "recipesOk d"
  shows "botFrame d d' \<and> 0 \<le> placedOrders res \<and> 0 \<le> startedProductionJobs res"
proof (rule disjE [OF runBotsForTick_Inr [OF assms(1)]])
  assume "\<exists>bots offered e config ss plan. cancelLiquidityOrders E tick bots offered d = Inr e \<and>
       runBotPlan E tick config ss plan e = Inr (res, d')"
  then obtain bots offered e config ss plan where e: "cancelLiquidityOrders E tick bots offered d = Inr e"
    and p: "runBotPlan E tick config ss plan e = Inr (res, d')" by blast
  have f: "botFrame d e" by (rule cancelLiquidityOrders_frame [OF e assms(2)])
  then have "marketOk e" "recipesOk e" using botFrame_ok assms(3) by blast+
  from runBotPlan_frame [OF p this] have r: "botFrame e d'" "0 \<le> placedOrders res" "0 \<le> startedProductionJobs res"
    by simp_all
  with botFrame_trans [OF f r(1)] show ?thesis by simp
qed (use assms(2) in \<open>simp add: botFrame_refl\<close>)

text \<open>
  C27. The bots' stage reserves and releases but moves nothing: every company's balance and the
  stock of every item are the same afterwards, and the market's invariant holds, whichever bots
  quote, cross or start production.
\<close>

theorem bots_move_nothing:
  assumes "runBotsForTick E tick overrides d = Inr (res, d')" and "marketOk d" and "recipesOk d"
  shows "marketOk d' \<and> totalCash d' = totalCash d \<and> (\<forall>iid. itemStock iid d' = itemStock iid d) \<and>
    map (\<lambda>c. (co_id c, co_cashCents c)) (companies d') = map (\<lambda>c. (co_id c, co_cashCents c)) (companies d) \<and>
    0 \<le> placedOrders res \<and> 0 \<le> startedProductionJobs res"
  using runBots_frame [OF assms] sameWealth_totalCash by (auto simp: botFrame_def sameWealth_def)

definition botsOn :: botOverrides where
  "botsOn = \<lparr>ob_enabled = Some True, ob_botCount = Some 5, ob_itemCodes = Some [''IRON_ORE''],
     ob_spreadBps = None, ob_maxNotionalPerTickCents = None, ob_targetQuantityPerSide = None,
     ob_producerMaxJobsPerTick = None, ob_producerCadenceTicks = None, ob_producerMinProfitBps = None\<rparr>"

definition traderDb :: db where
  "traderDb = fixtureDb\<lparr>companies := companies fixtureDb @
       [(mkCompany ''t'' False ''r1'' 9000 0)\<lparr>co_code := ''ORE_TRADER''\<rparr>],
     inventories := inventories fixtureDb @ [mkInventory ''t'' ''ore'' ''r1'' 7 0]\<rparr>"

theorem bots_move_nothing_witness:
  "\<exists>res d'. runBotsForTick fixtureEnv (IntN 8) botsOn traderDb = Inr (res, d') \<and>
     placedOrders res = 3 \<and> totalCash d' = totalCash traderDb \<and> marketOk d'"
proof -
  have "case runBotsForTick fixtureEnv (IntN 8) botsOn traderDb of
      Inl _ \<Rightarrow> False | Inr (res, d') \<Rightarrow> placedOrders res = 3" by code_simp
  then obtain res d' where *: "runBotsForTick fixtureEnv (IntN 8) botsOn traderDb = Inr (res, d')"
    "placedOrders res = 3" by (auto split: sum.splits)
  have ok: "marketOk traderDb" "recipesOk traderDb" by code_simp+
  from bots_move_nothing [OF *(1) ok] * show ?thesis by blast
qed

interpretation botsStage: tick_stage "\<lambda>d. effectOf (runBotsForTick E tick overrides d)"
  for E tick overrides
proof
  fix d d'
  assume "effectOf (runBotsForTick E tick overrides d) = Inr d'" and ok: "tickOk d"
  then obtain res where "runBotsForTick E tick overrides d = Inr (res, d')" by (auto simp: effectOf_Inr)
  from runBots_frame [OF this] ok sameWealth_totalCash
  show "marketOk d' \<and> masters d' = masters d \<and> totalCash d' \<le> totalCash d"
    by (auto simp: tickOk_def botFrame_def)
qed

end
