(* ===== verification/TickEngine.thy ===== *)
theory TickEngine
  imports MarketCandles MarketMatching Research Shipments Contracts DemandSink BotRunner
begin

section \<open>The tick engine\<close>

text \<open>
  \<open>packages/sim/src/services/tick-engine.ts\<close>: a tick runs the ten stages in order inside one
  transaction, guarded by the lock version of the world row and made idempotent by an execution
  key. Every stage is a \<open>tick_stage\<close> by the interpretation in its own theory, so the pipeline is
  one, and what holds of the stages holds of any number of ticks.
\<close>

record advanceOptions =
  ao_expectedLockVersion :: "jsnum option"
  ao_runBots :: bool
  ao_botConfig :: botOverrides
  ao_demandConfig :: demandOverrides
  ao_contractConfig :: contractOverrides
  ao_workforceConfig :: workforceOverrides
  ao_executionKey :: "string option"

record advanceSingleTickResult =
  tickBefore :: int
  tickAfter :: int
  advanced :: bool

definition ensureWorldState :: "db \<Rightarrow> worldTickState \<times> db" where
  "ensureWorldState d =
     (case worldTickRow d of
       Some existing \<Rightarrow> (existing, d)
     | None \<Rightarrow>
       (let created = \<lparr>ws_currentTick = 0, ws_lockVersion = 0, ws_lastAdvancedAt = None\<rparr> in
        (created, d\<lparr>worldTickRow := Some created\<rparr>)))"

definition validateExpectedLockVersion :: "jsnum option \<Rightarrow> unit result" where
  "validateExpectedLockVersion expectedLockVersion =
     (case expectedLockVersion of
       None \<Rightarrow> Inr ()
     | Some v \<Rightarrow>
       if \<not> isInteger v \<or> num v < 0
       then Inl (DomainInvariantError ''expectedLockVersion must be a non-negative integer'')
       else Inr ())"

definition normalizeExecutionKey :: "string option \<Rightarrow> string option result" where
  "normalizeExecutionKey executionKey =
     (case executionKey of
       None \<Rightarrow> Inr None
     | Some key \<Rightarrow>
       if trim key = []
       then Inl (DomainInvariantError ''executionKey must be a non-empty string when provided'')
       else Inr (Some (trim key)))"

definition isTickExecutionConflict :: "error \<Rightarrow> string option \<Rightarrow> bool" where
  "isTickExecutionConflict error executionKey =
     (let names = (\<lambda>s. strIncludes s ''SimulationTickExecution'' \<or> strIncludes s ''executionKey'') in
      executionKey \<noteq> None \<and>
      (case error of
        PrismaKnownRequestError code target \<Rightarrow>
          code = ''P2002'' \<and>
          (case target of
            TargetName s \<Rightarrow> names s
          | TargetFields columns \<Rightarrow> list_ex names columns
          | NoTarget \<Rightarrow> False)
      | _ \<Rightarrow> False))"

text \<open>The ten stages, in the order of the code.\<close>

definition runTickPipeline :: "env \<Rightarrow> int \<Rightarrow> advanceOptions \<Rightarrow> db \<Rightarrow> db result" where
  "runTickPipeline E nextTick options d =
     andThen (if ao_runBots options
       then effectOf (runBotsForTick E (IntN nextTick) (ao_botConfig options) d) else Inr d) (\<lambda>d.
     andThen (andThen (applyBuildingOperatingCostsWithTx E nextTick d) (\<lambda>(d, _). Inr d)) (\<lambda>d.
     andThen (completeDueProductionJobs E (IntN nextTick) d) (\<lambda>d.
     andThen (completeDueResearchJobs E (IntN nextTick) d) (\<lambda>d.
     andThen (runMarketMatchingForTick E nextTick d) (\<lambda>d.
     andThen (effectOf (deliverDueShipmentsForTick (IntN nextTick) d)) (\<lambda>d.
     andThen (runWorkforceForTick E (IntN nextTick) (ao_workforceConfig options) d) (\<lambda>d.
     andThen (effectOf (runDemandSinkForTick E (IntN nextTick) (ao_demandConfig options) d)) (\<lambda>d.
     andThen (effectOf (runContractLifecycleForTick E (IntN nextTick) (ao_contractConfig options) d))
       (\<lambda>d.
     upsertMarketCandlesForTick E (IntN nextTick) d)))))))))"

text \<open>Parts of the transaction: the version check, the execution record, the closing update.\<close>

definition checkLockVersion :: "jsnum option \<Rightarrow> worldTickState \<Rightarrow> unit result" where
  "checkLockVersion expectedLockVersion world =
     (case expectedLockVersion of
       None \<Rightarrow> Inr ()
     | Some v \<Rightarrow>
       if ws_lockVersion world \<noteq> num v
       then Inl (OptimisticLockConflictError (''expected lockVersion '' @ showInt (num v) @
              '' but found '' @ showInt (ws_lockVersion world)))
       else Inr ())"

definition recordExecution :: "string option \<Rightarrow> int \<Rightarrow> int \<Rightarrow> db \<Rightarrow> db result" where
  "recordExecution executionKey oldTick newTick d =
     (case executionKey of
       None \<Rightarrow> Inr d
     | Some key \<Rightarrow>
       andThen (updateRow te_executionKey simulationTickExecutions simulationTickExecutions_update key
         (\<lambda>r. r\<lparr>te_tickBefore := oldTick, te_tickAfter := newTick\<rparr>) d) (\<lambda>(_, d). Inr d))"

definition finalizeTick :: "env \<Rightarrow> worldTickState \<Rightarrow> int \<Rightarrow> db \<Rightarrow> db result" where
  "finalizeTick E world nextTick d =
     (case worldTickRow d of
       Some w \<Rightarrow>
         if ws_lockVersion w = ws_lockVersion world
         then Inr (d\<lparr>worldTickRow := Some (w\<lparr>ws_currentTick := nextTick,
                ws_lockVersion := ws_lockVersion w + 1,
                ws_lastAdvancedAt := Some (currentTime E d)\<rparr>)\<rparr>)
         else Inl (OptimisticLockConflictError
                ''world tick state changed during tick advance; retry operation'')
     | None \<Rightarrow> Inl (OptimisticLockConflictError
                ''world tick state changed during tick advance; retry operation''))"

definition advanceBody ::
    "env \<Rightarrow> advanceOptions \<Rightarrow> string option \<Rightarrow> db \<Rightarrow> (advanceSingleTickResult \<times> db) result" where
  "advanceBody E options executionKey d =
     (let (world, d) = ensureWorldState d in
      andThen (checkLockVersion (ao_expectedLockVersion options) world) (\<lambda>_.
      if (case executionKey of None \<Rightarrow> False
          | Some key \<Rightarrow> rowFind te_executionKey key (simulationTickExecutions d) \<noteq> None)
        then Inr (\<lparr>tickBefore = ws_currentTick world, tickAfter = ws_currentTick world,
                   advanced = False\<rparr>, d)
      else
        andThen (case executionKey of
            None \<Rightarrow> Inr d
          | Some key \<Rightarrow>
              effectOf (createRow te_executionKey simulationTickExecutions simulationTickExecutions_update
                \<lparr>te_executionKey = key, te_tickBefore = ws_currentTick world,
                 te_tickAfter = ws_currentTick world\<rparr> d)) (\<lambda>d.
        (let nextTick = ws_currentTick world + 1 in
         andThen (runTickPipeline E nextTick options d) (\<lambda>d.
         andThen (finalizeTick E world nextTick d) (\<lambda>d.
         andThen (recordExecution executionKey (ws_currentTick world) nextTick d) (\<lambda>d.
         Inr (\<lparr>tickBefore = ws_currentTick world, tickAfter = nextTick, advanced = True\<rparr>, d))))))))"

definition advanceSimulationTick ::
    "env \<Rightarrow> advanceOptions \<Rightarrow> db \<Rightarrow> advanceSingleTickResult result \<times> db" where
  "advanceSimulationTick E options d =
     (case andThen (validateExpectedLockVersion (ao_expectedLockVersion options))
         (\<lambda>_. normalizeExecutionKey (ao_executionKey options)) of
       Inl e \<Rightarrow> (Inl e, d)
     | Inr executionKey \<Rightarrow>
       (case transaction (advanceBody E options executionKey) d of
         (Inr res, d') \<Rightarrow> (Inr res, d')
       | (Inl e, d') \<Rightarrow>
           if \<not> isTickExecutionConflict e executionKey then (Inl e, d')
           else (Inr \<lparr>tickBefore = worldTick d', tickAfter = worldTick d', advanced = False\<rparr>, d')))"

text \<open>The loop over several ticks: only the first checks the version; each tick commits by itself.\<close>

fun advanceLoop :: "env \<Rightarrow> advanceOptions \<Rightarrow> nat \<Rightarrow> db \<Rightarrow> unit result \<times> db" where
  "advanceLoop E options 0 d = (Inr (), d)"
| "advanceLoop E options (Suc n) d =
     (case advanceSimulationTick E options d of
       (Inl e, d') \<Rightarrow> (Inl e, d')
     | (Inr _, d') \<Rightarrow> advanceLoop E (options\<lparr>ao_expectedLockVersion := None\<rparr>) n d')"

definition advanceSimulationTicks ::
    "env \<Rightarrow> jsnum \<Rightarrow> advanceOptions \<Rightarrow> db \<Rightarrow> unit result \<times> db" where
  "advanceSimulationTicks E ticks options d =
     (if \<not> isInteger ticks \<or> num ticks \<le> 0
        then (Inl (DomainInvariantError ''ticks must be a positive integer''), d)
      else
        (case validateExpectedLockVersion (ao_expectedLockVersion options) of
          Inl e \<Rightarrow> (Inl e, d)
        | Inr _ \<Rightarrow> advanceLoop E (options\<lparr>ao_executionKey := None\<rparr>) (nat (num ticks)) d))"

subsection \<open>The pipeline is a stage\<close>

lemma pipeline_stage: "tick_stage (runTickPipeline E nextTick options)"
proof -
  have bots: "tick_stage (\<lambda>d. if ao_runBots options
      then effectOf (runBotsForTick E (IntN nextTick) (ao_botConfig options) d) else Inr d)"
    by (cases "ao_runBots options") (simp_all add: botsStage.tick_stage_axioms tick_stage_skip)
  show ?thesis
    unfolding runTickPipeline_def [abs_def]
    by (intro tick_stage_seq bots operatingCostsStage.tick_stage_axioms productionStage.tick_stage_axioms
        researchStage.tick_stage_axioms matchingStage.tick_stage_axioms deliveryStage.tick_stage_axioms
        workforceStage.tick_stage_axioms demandStage.tick_stage_axioms contractStage.tick_stage_axioms
        candleStage.tick_stage_axioms)
qed

interpretation pipeline: tick_stage "runTickPipeline E nextTick options" for E nextTick options
  by (rule pipeline_stage)

text \<open>The stages after the workforce do not write companies, so it has the last word on them.\<close>

lemma pipeline_staffed:
  assumes "runTickPipeline E nextTick options d = Inr d'" and "tickOk d"
  shows "staffed d'"
proof -
  from assms(1) obtain d1 d2 d3 d4 d5 d6 d7 d8 d9 where
    1: "(if ao_runBots options then effectOf (runBotsForTick E (IntN nextTick) (ao_botConfig options) d) else Inr d) = Inr d1" and
    2: "andThen (applyBuildingOperatingCostsWithTx E nextTick d1) (\<lambda>(d, _). Inr d) = Inr d2" and
    3: "completeDueProductionJobs E (IntN nextTick) d2 = Inr d3" and
    4: "completeDueResearchJobs E (IntN nextTick) d3 = Inr d4" and
    5: "runMarketMatchingForTick E nextTick d4 = Inr d5" and
    6: "effectOf (deliverDueShipmentsForTick (IntN nextTick) d5) = Inr d6" and
    7: "runWorkforceForTick E (IntN nextTick) (ao_workforceConfig options) d6 = Inr d7" and
    8: "effectOf (runDemandSinkForTick E (IntN nextTick) (ao_demandConfig options) d7) = Inr d8" and
    9: "effectOf (runContractLifecycleForTick E (IntN nextTick) (ao_contractConfig options) d8) = Inr d9" and
    10: "upsertMarketCandlesForTick E (IntN nextTick) d9 = Inr d'"
    unfolding runTickPipeline_def andThen_Inr_iff by blast
  have "tickOk d1" using 1 assms(2) botsStage.keeps [of E "IntN nextTick" "ao_botConfig options" d d1]
    by (auto split: if_splits)
  note ok6 = deliveryStage.keeps [OF 6 matchingStage.keeps [OF 5 researchStage.keeps [OF 4
      productionStage.keeps [OF 3 operatingCostsStage.keeps [OF 2 this]]]]]
  have "staffed d7" using workforce_tick_staffed [OF 7] ok6 by (simp add: tickOk_def)
  moreover note ok7 = workforceStage.keeps [OF 7 ok6]
  note ok8 = demandStage.keeps [OF 8 ok7]
  have "companies d' = companies d7"
    using demandStage.companies_same [OF 8 ok7] contractStage.companies_same [OF 9 ok8]
      candleStage.companies_same [OF 10 contractStage.keeps [OF 9 ok8]] by simp
  ultimately show ?thesis by (simp add: staffed_def)
qed

subsection \<open>The order of the stages\<close>

text \<open>
  The stages of a tick as relations between databases, in the order a tick runs them. Bots run when they
  are switched on; every other stage runs in every tick.
\<close>

definition tickStages :: "env \<Rightarrow> int \<Rightarrow> advanceOptions \<Rightarrow> (db \<Rightarrow> db \<Rightarrow> bool) list" where
  "tickStages E t options =
     (if ao_runBots options
      then [\<lambda>d e. \<exists>res. runBotsForTick E (IntN t) (ao_botConfig options) d = Inr (res, e)] else []) @
     [\<lambda>d e. \<exists>res. applyBuildingOperatingCostsWithTx E t d = Inr (e, res),
      \<lambda>d e. completeDueProductionJobs E (IntN t) d = Inr e,
      \<lambda>d e. completeDueResearchJobs E (IntN t) d = Inr e,
      \<lambda>d e. runMarketMatchingForTick E t d = Inr e,
      \<lambda>d e. \<exists>n. deliverDueShipmentsForTick (IntN t) d = Inr (n, e),
      \<lambda>d e. runWorkforceForTick E (IntN t) (ao_workforceConfig options) d = Inr e,
      \<lambda>d e. \<exists>res. runDemandSinkForTick E (IntN t) (ao_demandConfig options) d = Inr (res, e),
      \<lambda>d e. \<exists>res. runContractLifecycleForTick E (IntN t) (ao_contractConfig options) d = Inr (res, e),
      \<lambda>d e. upsertMarketCandlesForTick E (IntN t) d = Inr e]"

primrec runs :: "(db \<Rightarrow> db \<Rightarrow> bool) list \<Rightarrow> db \<Rightarrow> db \<Rightarrow> bool" where
  "runs [] d e \<longleftrightarrow> e = d"
| "runs (s # ss) d e \<longleftrightarrow> (\<exists>x. s d x \<and> runs ss x e)"

lemma effectOf_ex: "effectOf r = Inr e \<longleftrightarrow> (\<exists>v. r = Inr (v, e))"
  by (auto simp: effectOf_Inr)

lemma costs_ex: "(\<exists>x. r = Inr x \<and> (case x of (d, _) \<Rightarrow> Inr d) = Inr e) \<longleftrightarrow> (\<exists>v. r = Inr (e, v))"
  by auto

lemma pipeline_runs: "runTickPipeline E t options d = Inr e \<longleftrightarrow> runs (tickStages E t options) d e"
proof -
  have bots: "runs ((if b then [r] else []) @ ss) d e \<longleftrightarrow> (\<exists>x. (if b then r d x else x = d) \<and> runs ss x e)" for b r ss
    by simp
  have first: "(if b then effectOf r else Inr d) = Inr x \<longleftrightarrow> (if b then \<exists>v. r = Inr (v, x) else x = d)"
    for b x and r :: "('a \<times> db) result"
    by (auto simp: effectOf_ex)
  show ?thesis
    unfolding runTickPipeline_def tickStages_def bots runs.simps andThen_Inr_iff costs_ex first effectOf_ex
    by simp
qed

subsection \<open>One tick\<close>

lemma tickOk_same:
  assumes "tickOk d" and "companies d' = companies d" "inventories d' = inventories d"
    "marketOrders d' = marketOrders d" "recipes d' = recipes d" "recipeInputs d' = recipeInputs d"
    "buildings d' = buildings d"
  shows "tickOk d'"
  using assms marketOk_same [of d d'] by (simp add: tickOk_def recipesOk_def outputsOk_def)

text \<open>The world row as the tick sees it, and the rest of the database.\<close>

definition clock :: "db \<Rightarrow> worldTickState" where
  "clock d = fst (ensureWorldState d)"

definition started :: "db \<Rightarrow> db" where
  "started d = snd (ensureWorldState d)"

lemma started_simps [simp]:
  "worldTickRow (started d) = Some (clock d)"
  "companies (started d) = companies d" "inventories (started d) = inventories d"
  "marketOrders (started d) = marketOrders d" "recipes (started d) = recipes d"
  "recipeInputs (started d) = recipeInputs d" "buildings (started d) = buildings d"
  "simulationTickExecutions (started d) = simulationTickExecutions d"
  "controlRow (started d) = controlRow d" "simulationLeases (started d) = simulationLeases d"
  by (simp_all add: started_def clock_def ensureWorldState_def Let_def split: option.splits)

lemma clock_started [simp]: "clock (started d) = clock d" "started (started d) = started d"
  by (simp_all add: started_def clock_def ensureWorldState_def Let_def split: option.splits)

lemma worldTick_clock: "worldTick d = ws_currentTick (clock d)"
  by (simp add: worldTick_def clock_def ensureWorldState_def Let_def split: option.splits)

definition knownKey :: "string option \<Rightarrow> db \<Rightarrow> bool" where
  "knownKey key d \<longleftrightarrow> (\<exists>k. key = Some k \<and> k \<in> te_executionKey ` set (simulationTickExecutions d))"

lemma recordExecution_Inr:
  assumes "recordExecution key b a d = Inr d'"
  shows "companies d' = companies d \<and> inventories d' = inventories d \<and> marketOrders d' = marketOrders d \<and>
    recipes d' = recipes d \<and> recipeInputs d' = recipeInputs d \<and> buildings d' = buildings d \<and>
    worldTickRow d' = worldTickRow d \<and> knownKey k d' = knownKey k d"
proof -
  have "map te_executionKey (simulationTickExecutions d') = map te_executionKey (simulationTickExecutions d)"
    using assms by (auto simp: recordExecution_def andThen_Inr_iff updateRow_Inr map_rowSet_same split: option.splits)
  then have "set (map te_executionKey (simulationTickExecutions d')) =
      set (map te_executionKey (simulationTickExecutions d))" by (simp del: set_map)
  then have "knownKey k d' = knownKey k d" by (simp add: knownKey_def)
  with assms show ?thesis
    by (auto simp: recordExecution_def andThen_Inr_iff updateRow_Inr split: option.splits)
qed

lemma finalizeTick_Inr:
  assumes "finalizeTick E world t d = Inr d'"
  shows "\<exists>w. worldTickRow d = Some w \<and> ws_lockVersion w = ws_lockVersion world \<and>
    (\<exists>now. d' = d\<lparr>worldTickRow := Some (w\<lparr>ws_currentTick := t, ws_lockVersion := ws_lockVersion w + 1,
       ws_lastAdvancedAt := Some now\<rparr>)\<rparr>)"
  using assms by (auto simp: finalizeTick_def split: option.splits if_splits)

text \<open>A committed tick either finds its key recorded, or ran the pipeline and moved the clock.\<close>

lemma advanceBody_Inr:
  assumes "advanceBody E options key d = Inr (res, d')"
  obtains "knownKey key d" "d' = started d"
      "res = \<lparr>tickBefore = worldTick d, tickAfter = worldTick d, advanced = False\<rparr>"
  | d1 d2 d3 where "\<not> knownKey key d"
      "companies d1 = companies d" "inventories d1 = inventories d" "marketOrders d1 = marketOrders d"
      "recipes d1 = recipes d" "recipeInputs d1 = recipeInputs d" "buildings d1 = buildings d"
      "worldTickRow d1 = Some (clock d)" "\<forall>k. key = Some k \<longrightarrow> knownKey key d1"
      "runTickPipeline E (worldTick d + 1) options d1 = Inr d2"
      "finalizeTick E (clock d) (worldTick d + 1) d2 = Inr d3"
      "recordExecution key (worldTick d) (worldTick d + 1) d3 = Inr d'"
      "res = \<lparr>tickBefore = worldTick d, tickAfter = worldTick d + 1, advanced = True\<rparr>"
      "simulationTickExecutions d1 = simulationTickExecutions d @
        (case key of None \<Rightarrow> [] | Some k \<Rightarrow> [\<lparr>te_executionKey = k, te_tickBefore = worldTick d, te_tickAfter = worldTick d\<rparr>])"
      "controlRow d1 = controlRow d" "simulationLeases d1 = simulationLeases d"
proof (cases "knownKey key d")
  case True
  then obtain k where k: "key = Some k" "rowFind te_executionKey k (simulationTickExecutions (started d)) \<noteq> None"
    by (auto simp: knownKey_def rowFind_None)
  have "d' = started d" "res = \<lparr>tickBefore = worldTick d, tickAfter = worldTick d, advanced = False\<rparr>"
    using assms k unfolding started_def worldTick_clock clock_def
    by (auto simp: advanceBody_def andThen_Inr_iff split: prod.splits)
  with True show thesis by (rule that(1))
next
  case False
  then have none: "\<not> (case key of None \<Rightarrow> False
      | Some k \<Rightarrow> rowFind te_executionKey k (simulationTickExecutions (started d)) \<noteq> None)"
    by (auto simp: knownKey_def rowFind_None split: option.splits)
  have pair: "ensureWorldState d = (clock d, started d)" by (simp add: clock_def started_def)
  from assms none obtain d1 d2 d3 where
    d1: "(case key of None \<Rightarrow> Inr (started d)
          | Some k \<Rightarrow> effectOf (createRow te_executionKey simulationTickExecutions simulationTickExecutions_update
              \<lparr>te_executionKey = k, te_tickBefore = ws_currentTick (clock d),
               te_tickAfter = ws_currentTick (clock d)\<rparr> (started d))) = Inr d1" and
    *: "runTickPipeline E (worldTick d + 1) options d1 = Inr d2"
      "finalizeTick E (clock d) (worldTick d + 1) d2 = Inr d3"
      "recordExecution key (worldTick d) (worldTick d + 1) d3 = Inr d'"
      "res = \<lparr>tickBefore = worldTick d, tickAfter = worldTick d + 1, advanced = True\<rparr>"
    unfolding advanceBody_def pair worldTick_clock
    by (auto simp: andThen_Inr_iff Let_def)
  have "companies d1 = companies d" "inventories d1 = inventories d" "marketOrders d1 = marketOrders d"
    "recipes d1 = recipes d" "recipeInputs d1 = recipeInputs d" "buildings d1 = buildings d"
    "worldTickRow d1 = Some (clock d)" "\<forall>k. key = Some k \<longrightarrow> knownKey key d1"
    using d1 by (auto simp: effectOf_Inr createRow_Inr knownKey_def split: option.splits)
  moreover have "simulationTickExecutions d1 = simulationTickExecutions d @
      (case key of None \<Rightarrow> [] | Some k \<Rightarrow> [\<lparr>te_executionKey = k, te_tickBefore = worldTick d, te_tickAfter = worldTick d\<rparr>])"
    using d1 by (auto simp: effectOf_Inr createRow_Inr worldTick_clock split: option.splits)
  moreover have "controlRow d1 = controlRow d" "simulationLeases d1 = simulationLeases d"
    using d1 by (auto simp: effectOf_Inr createRow_Inr split: option.splits)
  ultimately show thesis using that(2) [OF False _ _ _ _ _ _ _ _ *] by blast
qed

lemma advanceBody_effect:
  assumes "advanceBody E options key d = Inr (res, d')" and "tickOk d"
  shows "tickOk d' \<and> totalCash d' \<le> totalCash d \<and> tickBefore res = worldTick d \<and>
    tickAfter res = worldTick d' \<and>
    (if knownKey key d then \<not> advanced res \<and> d' = started d
     else advanced res \<and> ws_currentTick (clock d') = ws_currentTick (clock d) + 1 \<and>
       ws_lockVersion (clock d') = ws_lockVersion (clock d) + 1 \<and>
       (\<forall>k. key = Some k \<longrightarrow> knownKey key d'))"
  using assms(1)
proof (cases rule: advanceBody_Inr)
  case 1
  then show ?thesis using tickOk_same [OF assms(2), of "started d"]
    by (simp add: totalCash_def worldTick_clock)
next
  case (2 d1 d2 d3)
  have ok1: "tickOk d1" by (rule tickOk_same [OF assms(2) 2(2-7)])
  note pipe = pipeline.law [OF 2(10) ok1] pipeline.clock [OF 2(10) ok1]
  have ok2: "tickOk d2" by (rule pipeline.keeps [OF 2(10) ok1])
  from finalizeTick_Inr [OF 2(11)] pipe(2) 2(8) obtain now where
    d3: "d3 = d2\<lparr>worldTickRow := Some ((clock d)\<lparr>ws_currentTick := worldTick d + 1,
       ws_lockVersion := ws_lockVersion (clock d) + 1, ws_lastAdvancedAt := Some now\<rparr>)\<rparr>" by auto
  note rec = recordExecution_Inr [OF 2(12)]
  have ok3: "tickOk d3" by (rule tickOk_same [OF ok2]) (simp_all add: d3)
  have "tickOk d'" by (rule tickOk_same [OF ok3]) (use rec in simp_all)
  moreover have "totalCash d' \<le> totalCash d"
    using pipe(1) rec 2(2) by (simp add: totalCash_def d3)
  moreover have "clock d' = (clock d)\<lparr>ws_currentTick := worldTick d + 1,
       ws_lockVersion := ws_lockVersion (clock d) + 1, ws_lastAdvancedAt := Some now\<rparr>"
    using rec by (simp add: clock_def ensureWorldState_def d3)
  moreover have "knownKey key d'" if "key = Some k" for k
  proof -
    have "knownKey key d' = knownKey key d3" using rec by blast
    also have "\<dots> = knownKey key d1" using pipe(2) by (simp add: knownKey_def d3)
    finally show ?thesis using 2(9) that by simp
  qed
  ultimately show ?thesis using 2(1,13) by (auto simp: worldTick_clock)
qed

text \<open>
  What a tick that advanced did: from the database with the world row and, under a key, the record of
  the execution, the stages lead to a database that differs from the committed one in these two only.
\<close>

lemma advanceBody_pipeline:
  assumes "advanceBody E options key d = Inr (res, d')" and "advanced res"
  shows "\<exists>rows seq e. runs (tickStages E (worldTick d + 1) options)
      (d\<lparr>worldTickRow := Some (clock d), simulationTickExecutions := rows, db_seq := seq\<rparr>) e \<and>
    d' = e\<lparr>worldTickRow := worldTickRow d', simulationTickExecutions := simulationTickExecutions d'\<rparr>"
proof -
  have start: "started d = d\<lparr>worldTickRow := Some (clock d)\<rparr>"
    by (simp add: started_def clock_def ensureWorldState_def Let_def split: option.splits)
  have pair: "ensureWorldState d = (clock d, started d)" by (simp add: clock_def started_def)
  from assms obtain d1 d2 d3 where
    d1: "(case key of None \<Rightarrow> Inr (started d)
          | Some k \<Rightarrow> effectOf (createRow te_executionKey simulationTickExecutions simulationTickExecutions_update
              \<lparr>te_executionKey = k, te_tickBefore = ws_currentTick (clock d),
               te_tickAfter = ws_currentTick (clock d)\<rparr> (started d))) = Inr d1" and
    d2: "runTickPipeline E (worldTick d + 1) options d1 = Inr d2" and
    d3: "finalizeTick E (clock d) (worldTick d + 1) d2 = Inr d3" and
    d': "recordExecution key (worldTick d) (worldTick d + 1) d3 = Inr d'"
    unfolding advanceBody_def pair worldTick_clock
    by (auto simp: andThen_Inr_iff Let_def split: if_splits)
  obtain rows seq where "d1 = d\<lparr>worldTickRow := Some (clock d), simulationTickExecutions := rows, db_seq := seq\<rparr>"
    using d1
  proof (cases key)
    case None
    with d1 have "d1 = d\<lparr>worldTickRow := Some (clock d), simulationTickExecutions := simulationTickExecutions d, db_seq := db_seq d\<rparr>"
      by (auto simp: start)
    then show thesis by (rule that)
  next
    case (Some k)
    let ?row = "\<lparr>te_executionKey = k, te_tickBefore = ws_currentTick (clock d), te_tickAfter = ws_currentTick (clock d)\<rparr>"
    from Some d1 have "d1 = d\<lparr>worldTickRow := Some (clock d),
        simulationTickExecutions := simulationTickExecutions d @ [?row], db_seq := Suc (db_seq d)\<rparr>"
      by (auto simp: effectOf_Inr createRow_Inr start)
    then show thesis by (rule that)
  qed
  moreover obtain row where "d3 = d2\<lparr>worldTickRow := row\<rparr>" using finalizeTick_Inr [OF d3] by blast
  moreover obtain rows' where "d' = d3\<lparr>simulationTickExecutions := rows'\<rparr>"
  proof (cases key)
    case None
    with d' have "d' = d3\<lparr>simulationTickExecutions := simulationTickExecutions d3\<rparr>" by (simp add: recordExecution_def)
    then show thesis by (rule that)
  next
    case (Some k)
    let ?rows = "rowSet te_executionKey k (\<lambda>r. r\<lparr>te_tickBefore := worldTick d, te_tickAfter := worldTick d + 1\<rparr>)
      (simulationTickExecutions d3)"
    from Some d' have "d' = d3\<lparr>simulationTickExecutions := ?rows\<rparr>"
      by (cases d3) (auto simp: recordExecution_def andThen_Inr_iff updateRow_Inr)
    then show thesis by (rule that)
  qed
  ultimately show ?thesis using d2 unfolding pipeline_runs by auto
qed

text \<open>A tick under a key appends its record, which names the tick it left and the tick it reached.\<close>

definition executionOf :: "string option \<Rightarrow> int \<Rightarrow> simulationTickExecution list" where
  "executionOf key t = (case key of None \<Rightarrow> []
     | Some k \<Rightarrow> [\<lparr>te_executionKey = k, te_tickBefore = t, te_tickAfter = t + 1\<rparr>])"

lemma advanceBody_executions:
  assumes "advanceBody E options key d = Inr (res, d')" and "tickOk d"
  shows "simulationTickExecutions d' =
    simulationTickExecutions d @ (if advanced res then executionOf key (worldTick d) else [])"
  using assms(1)
proof (cases rule: advanceBody_Inr)
  case 1
  then show ?thesis by simp
next
  case (2 d1 d2 d3)
  have ok1: "tickOk d1" by (rule tickOk_same [OF assms(2) 2(2-7)])
  have "simulationTickExecutions d2 = simulationTickExecutions d1" using pipeline.clock [OF 2(10) ok1] by simp
  then have d3: "simulationTickExecutions d3 = simulationTickExecutions d1"
    using finalizeTick_Inr [OF 2(11)] by auto
  show ?thesis
  proof (cases key)
    case None
    with 2(12-14) d3 show ?thesis by (simp add: recordExecution_def executionOf_def)
  next
    case (Some k)
    then have "simulationTickExecutions d' =
        rowSet te_executionKey k (\<lambda>r. r\<lparr>te_tickBefore := worldTick d, te_tickAfter := worldTick d + 1\<rparr>)
          (simulationTickExecutions d3)"
      using 2(12) by (auto simp: recordExecution_def andThen_Inr_iff updateRow_Inr)
    moreover have "k \<notin> te_executionKey ` set (simulationTickExecutions d)"
      using 2(1) Some by (auto simp: knownKey_def)
    ultimately show ?thesis using 2(13,14) Some
      by (simp add: d3 executionOf_def rowSet_absent)
  qed
qed

text \<open>A tick that advances leaves every company's workforce in range.\<close>

lemma advanceBody_staffed:
  assumes "advanceBody E options key d = Inr (res, d')" and "tickOk d"
  shows "if advanced res then staffed d' else companies d' = companies d"
  using assms(1)
proof (cases rule: advanceBody_Inr)
  case (2 d1 d2 d3)
  have ok1: "tickOk d1" by (rule tickOk_same [OF assms(2) 2(2-7)])
  have "companies d' = companies d2" using finalizeTick_Inr [OF 2(11)] recordExecution_Inr [OF 2(12)] by auto
  with pipeline_staffed [OF 2(10) ok1] 2(13) show ?thesis by (simp add: staffed_def)
qed simp

text \<open>A tick leaves the control row and the leases alone.\<close>

lemma advanceBody_settings:
  assumes "advanceBody E options key d = Inr (res, d')" and "tickOk d"
  shows "controlRow d' = controlRow d \<and> simulationLeases d' = simulationLeases d"
  using assms(1)
proof (cases rule: advanceBody_Inr)
  case 1
  then show ?thesis by simp
next
  case (2 d1 d2 d3)
  have ok1: "tickOk d1" by (rule tickOk_same [OF assms(2) 2(2-7)])
  have "controlRow d3 = controlRow d2 \<and> simulationLeases d3 = simulationLeases d2"
    using finalizeTick_Inr [OF 2(11)] by auto
  moreover have "controlRow d' = controlRow d3 \<and> simulationLeases d' = simulationLeases d3"
    using 2(12) by (auto simp: recordExecution_def andThen_Inr_iff updateRow_Inr split: option.splits)
  ultimately show ?thesis using pipeline.settings [OF 2(10) ok1] 2(15,16) by simp
qed

lemma advanceSimulationTick_cases:
  assumes "advanceSimulationTick E options d = (r, d')"
  obtains e where "r = Inl e" "d' = d"
  | key where "normalizeExecutionKey (ao_executionKey options) = Inr key" "d' = d" "key \<noteq> None"
      "r = Inr \<lparr>tickBefore = worldTick d, tickAfter = worldTick d, advanced = False\<rparr>"
  | key res where "normalizeExecutionKey (ao_executionKey options) = Inr key"
      "r = Inr res" "advanceBody E options key d = Inr (res, d')"
proof (cases "andThen (validateExpectedLockVersion (ao_expectedLockVersion options))
         (\<lambda>_. normalizeExecutionKey (ao_executionKey options))")
  case (Inl e)
  with assms show thesis by (intro that(1)) (auto simp: advanceSimulationTick_def)
next
  case (Inr key)
  then have key: "normalizeExecutionKey (ao_executionKey options) = Inr key" by (auto simp: andThen_Inr_iff)
  show thesis
  proof (cases "advanceBody E options key d")
    case (Inl e)
    with assms Inr have "r = Inl e \<and> d' = d \<or> isTickExecutionConflict e key \<and> d' = d \<and>
        r = Inr \<lparr>tickBefore = worldTick d, tickAfter = worldTick d, advanced = False\<rparr>"
      by (auto simp: advanceSimulationTick_def transaction_def split: if_splits)
    moreover have "key \<noteq> None" if "isTickExecutionConflict e key" using that by (simp add: isTickExecutionConflict_def Let_def)
    ultimately show thesis using key that(1,2) by blast
  next
    case (Inr s)
    then obtain res d2 where "advanceBody E options key d = Inr (res, d2)" by (cases s) auto
    with assms \<open>andThen _ _ = Inr key\<close> have "r = Inr res" "advanceBody E options key d = Inr (res, d')"
      by (auto simp: advanceSimulationTick_def transaction_def)
    with key show thesis by (rule that(3))
  qed
qed

text \<open>
  C1. A tick either fails and leaves the database as it was, or commits the whole pipeline: when it
  advanced, the database it leaves is what all the stages, in their order, have made of the one it found,
  apart from the world row and the execution records, and tick and lock version have grown by exactly
  one; when its key was known, it changes nothing. Either way it keeps the economy's invariant whichever
  stages do what, mints no money, and reports the tick it found and the tick it left.
\<close>

theorem tick_is_atomic_and_sound:
  assumes "advanceSimulationTick E options d = (r, d')" and "tickOk d"
  shows "tickOk d' \<and> totalCash d' \<le> totalCash d \<and>
    (case r of
       Inl _ \<Rightarrow> d' = d
     | Inr res \<Rightarrow> tickBefore res = worldTick d \<and> tickAfter res = worldTick d' \<and>
         (if advanced res
          then ws_currentTick (clock d') = ws_currentTick (clock d) + 1 \<and>
            ws_lockVersion (clock d') = ws_lockVersion (clock d) + 1 \<and>
            (\<exists>rows seq e. runs (tickStages E (worldTick d + 1) options)
               (d\<lparr>worldTickRow := Some (clock d), simulationTickExecutions := rows, db_seq := seq\<rparr>) e \<and>
             d' = e\<lparr>worldTickRow := worldTickRow d', simulationTickExecutions := simulationTickExecutions d'\<rparr>)
          else d' = d \<or> d' = started d))"
  using assms(1)
proof (cases rule: advanceSimulationTick_cases)
  case (3 key res)
  from advanceBody_effect [OF 3(3) assms(2)] advanceBody_pipeline [OF 3(3)] 3(2) show ?thesis
    by (simp split: if_splits)
qed (use assms(2) in simp_all)

text \<open>
  C5. An execution key makes a tick idempotent: once a call with a key has answered, another call
  with the same key (and no expected version, or the current one) answers that nothing was
  advanced and leaves the database as it is.
\<close>

theorem execution_key_idempotent:
  assumes "advanceSimulationTick E options d = (Inr res, d1)" and "tickOk d"
    and "ao_executionKey options = Some key" and "advanced res"
    and "ao_executionKey options' = Some key"
    and "ao_expectedLockVersion options' = None \<or>
      ao_expectedLockVersion options' = Some (IntN (ws_lockVersion (clock d1)))"
    and "0 \<le> ws_lockVersion (clock d1)"
  shows "advanceSimulationTick E options' d1 =
    (Inr \<lparr>tickBefore = worldTick d1, tickAfter = worldTick d1, advanced = False\<rparr>, d1)"
  using assms(1)
proof (cases rule: advanceSimulationTick_cases)
  case (2 k)
  with assms(4) show ?thesis by auto
next
  case (3 k res')
  have k: "k = Some (trim key)" "trim key \<noteq> []"
    using 3(1) assms(3) by (auto simp: normalizeExecutionKey_def split: if_splits)
  note eff = advanceBody_effect [OF 3(3) assms(2)]
  have known: "knownKey k d1" using eff assms(4) 3(2) k(1) by (auto split: if_splits)
  have row: "worldTickRow d1 = Some (clock d1)"
    using 3(3) assms(4) 3(2)
  proof (cases rule: advanceBody_Inr)
    case (2 e1 e2 e3)
    from finalizeTick_Inr [OF 2(11)] have "worldTickRow e3 \<noteq> None" by auto
    then obtain w where "worldTickRow d1 = Some w" using recordExecution_Inr [OF 2(12)] by auto
    then show ?thesis by (simp add: clock_def ensureWorldState_def)
  qed (use assms(4) 3(2) in auto)
  have world: "ensureWorldState d1 = (clock d1, d1)" unfolding ensureWorldState_def row by simp
  have "advanceBody E options' k d1 =
      Inr (\<lparr>tickBefore = worldTick d1, tickAfter = worldTick d1, advanced = False\<rparr>, d1)"
    using assms(6) known k(1)
    by (auto simp: advanceBody_def world checkLockVersion_def worldTick_clock knownKey_def rowFind_None)
  moreover have "andThen (validateExpectedLockVersion (ao_expectedLockVersion options'))
      (\<lambda>_. normalizeExecutionKey (ao_executionKey options')) = Inr k"
    using assms(5-7) k by (auto simp: validateExpectedLockVersion_def normalizeExecutionKey_def)
  ultimately show ?thesis by (simp add: advanceSimulationTick_def transaction_def)
qed (use assms in simp)

text \<open>
  C23. Optimistic locking: after a tick advanced, a call that still expects the version before it
  is refused with a conflict and changes nothing, whatever its other options.
\<close>

theorem stale_version_rejected:
  assumes "advanceSimulationTick E options d = (Inr res, d1)" and "tickOk d" and "advanced res"
    and "ao_expectedLockVersion options' = Some (IntN (ws_lockVersion (clock d)))"
    and "0 \<le> ws_lockVersion (clock d)"
    and "normalizeExecutionKey (ao_executionKey options') = Inr key"
  shows "\<exists>message. advanceSimulationTick E options' d1 = (Inl (OptimisticLockConflictError message), d1)"
  using assms(1)
proof (cases rule: advanceSimulationTick_cases)
  case (3 k res')
  from advanceBody_effect [OF 3(3) assms(2)] assms(3) 3(2)
  have v: "ws_lockVersion (clock d1) = ws_lockVersion (clock d) + 1" by (auto split: if_splits)
  have "checkLockVersion (ao_expectedLockVersion options') (clock d1) =
      Inl (OptimisticLockConflictError (''expected lockVersion '' @ showInt (ws_lockVersion (clock d)) @
        '' but found '' @ showInt (ws_lockVersion (clock d1))))"
    by (simp add: checkLockVersion_def assms(4) v)
  then have "advanceBody E options' key d1 = Inl (OptimisticLockConflictError (''expected lockVersion '' @
      showInt (ws_lockVersion (clock d)) @ '' but found '' @ showInt (ws_lockVersion (clock d1))))"
    by (simp add: advanceBody_def clock_def case_prod_unfold)
  moreover have "andThen (validateExpectedLockVersion (ao_expectedLockVersion options'))
      (\<lambda>_. normalizeExecutionKey (ao_executionKey options')) = Inr key"
    using assms(4-6) by (simp add: validateExpectedLockVersion_def)
  ultimately show ?thesis
    by (simp add: advanceSimulationTick_def transaction_def isTickExecutionConflict_def Let_def)
qed (use assms(3) in auto)

subsection \<open>Several ticks\<close>

lemma advanceLoop_effect:
  assumes "advanceLoop E options n d = (r, d')" and "tickOk d" and "ao_executionKey options = None"
  shows "\<exists>k\<le>n. tickOk d' \<and> totalCash d' \<le> totalCash d \<and> worldTick d' = worldTick d + int k \<and>
    ws_lockVersion (clock d') = ws_lockVersion (clock d) + int k \<and> (r = Inr () \<longrightarrow> k = n)"
  using assms
proof (induction n arbitrary: d options)
  case 0
  then show ?case by auto
next
  case (Suc n)
  obtain r1 d1 where one: "advanceSimulationTick E options d = (r1, d1)" by fastforce
  show ?case
  proof (cases r1)
    case (Inl e)
    with one have "d1 = d" by (cases rule: advanceSimulationTick_cases) auto
    with Inl one Suc.prems show ?thesis by (intro exI [of _ 0]) auto
  next
    case (Inr res)
    with one obtain key where key: "normalizeExecutionKey (ao_executionKey options) = Inr key"
      and body: "key = None \<Longrightarrow> advanceBody E options key d = Inr (res, d1)"
      by (cases rule: advanceSimulationTick_cases) auto
    have none: "key = None" using key Suc.prems(3) by (simp add: normalizeExecutionKey_def)
    from advanceBody_effect [OF body [OF none] Suc.prems(2)] none
    have e: "tickOk d1" "totalCash d1 \<le> totalCash d" "worldTick d1 = worldTick d + 1"
      "ws_lockVersion (clock d1) = ws_lockVersion (clock d) + 1"
      by (simp_all add: knownKey_def worldTick_clock)
    have "advanceLoop E (options\<lparr>ao_expectedLockVersion := None\<rparr>) n d1 = (r, d')"
      using Suc.prems(1) one Inr by simp
    from Suc.IH [OF this e(1)] Suc.prems(3) obtain k where "k \<le> n" "tickOk d'" "totalCash d' \<le> totalCash d1"
      "worldTick d' = worldTick d1 + int k" "ws_lockVersion (clock d') = ws_lockVersion (clock d1) + int k"
      "r = Inr () \<longrightarrow> k = n" by auto
    with e show ?thesis by (intro exI [of _ "Suc k"]) auto
  qed
qed

text \<open>
  C6. Advancing several ticks commits a prefix of them: the clock and the lock version move by the
  number of ticks that succeeded, all of them when the call returns, and the economy's invariant
  and the bound on the money hold after every prefix.
\<close>

theorem ticks_commit_a_prefix:
  assumes "advanceSimulationTicks E ticks options d = (r, d')" and "tickOk d"
  shows "\<exists>k. 0 \<le> k \<and> k \<le> max 0 (num ticks) \<and> tickOk d' \<and> totalCash d' \<le> totalCash d \<and>
    worldTick d' = worldTick d + k \<and> ws_lockVersion (clock d') = ws_lockVersion (clock d) + k \<and>
    (r = Inr () \<longrightarrow> k = num ticks \<and> 0 < k)"
proof (cases "isInteger ticks \<and> 0 < num ticks \<and> returns (validateExpectedLockVersion (ao_expectedLockVersion options))")
  case True
  with assms(1) have loop: "advanceLoop E (options\<lparr>ao_executionKey := None\<rparr>) (nat (num ticks)) d = (r, d')"
    by (auto simp: advanceSimulationTicks_def returns_iff)
  from advanceLoop_effect [OF loop assms(2)] obtain k where "k \<le> nat (num ticks)" "tickOk d'"
    "totalCash d' \<le> totalCash d" "worldTick d' = worldTick d + int k"
    "ws_lockVersion (clock d') = ws_lockVersion (clock d) + int k" "r = Inr () \<longrightarrow> k = nat (num ticks)" by auto
  with True show ?thesis by (intro exI [of _ "int k"]) auto
next
  case False
  with assms(1) have "d' = d \<and> r \<noteq> Inr ()"
    by (auto simp: advanceSimulationTicks_def returns_def split: sum.splits if_splits)
  with assms(2) show ?thesis by (intro exI [of _ 0]) auto
qed

subsection \<open>The properties at a concrete world\<close>

definition tickOptions :: advanceOptions where
  "tickOptions = \<lparr>ao_expectedLockVersion = Some (IntN 3), ao_runBots = False, ao_botConfig = botsOn,
     ao_demandConfig = demandFixture, ao_contractConfig = contractOverridesNone,
     ao_workforceConfig = id, ao_executionKey = Some ''tick-8''\<rparr>"

lemma fixture_tickOk: "tickOk fixtureDb"
  by code_simp

lemma fixture_tick:
  "case advanceSimulationTick fixtureEnv tickOptions fixtureDb of
     (Inl _, _) \<Rightarrow> False
   | (Inr res, d') \<Rightarrow> advanced res \<and> trades d' \<noteq> [] \<and> itemTickCandles d' \<noteq> []"
  by code_simp

lemma fixture_advanced:
  "\<exists>res d'. advanceSimulationTick fixtureEnv tickOptions fixtureDb = (Inr res, d') \<and> advanced res \<and> trades d' \<noteq> []"
  using fixture_tick by (auto split: prod.splits sum.splits)

theorem tick_is_atomic_and_sound_witness:
  "\<exists>res d'. advanceSimulationTick fixtureEnv tickOptions fixtureDb = (Inr res, d') \<and> tickOk d' \<and>
     trades d' \<noteq> [] \<and> worldTick d' = 8 \<and> totalCash d' \<le> totalCash fixtureDb \<and>
     (\<exists>d0 e. runs (tickStages fixtureEnv 8 tickOptions) d0 e \<and> companies d0 = companies fixtureDb \<and>
        companies e = companies d')"
proof -
  obtain res d' where *: "advanceSimulationTick fixtureEnv tickOptions fixtureDb = (Inr res, d')" "advanced res"
    "trades d' \<noteq> []" using fixture_advanced by blast
  have now: "ws_currentTick (clock fixtureDb) = 7" by code_simp
  have tick: "worldTick fixtureDb = 7" by (simp add: worldTick_clock now)
  note t = tick_is_atomic_and_sound [OF *(1) fixture_tickOk, unfolded tick]
  then obtain rows seq e where run: "runs (tickStages fixtureEnv 8 tickOptions)
      (fixtureDb\<lparr>worldTickRow := Some (clock fixtureDb), simulationTickExecutions := rows, db_seq := seq\<rparr>) e"
    "d' = e\<lparr>worldTickRow := worldTickRow d', simulationTickExecutions := simulationTickExecutions d'\<rparr>"
    using *(2) by auto
  have "companies e = companies d'" by (subst run(2)) simp
  with run(1) have "\<exists>d0 e. runs (tickStages fixtureEnv 8 tickOptions) d0 e \<and> companies d0 = companies fixtureDb \<and>
        companies e = companies d'"
    by (intro exI [of _ "fixtureDb\<lparr>worldTickRow := Some (clock fixtureDb), simulationTickExecutions := rows, db_seq := seq\<rparr>"] exI [of _ e]) simp
  with t * now show ?thesis by (auto simp: worldTick_clock)
qed

theorem execution_key_idempotent_witness:
  "\<exists>res d'. advanceSimulationTick fixtureEnv tickOptions fixtureDb = (Inr res, d') \<and>
     advanceSimulationTick fixtureEnv (tickOptions\<lparr>ao_expectedLockVersion := None\<rparr>) d' =
       (Inr \<lparr>tickBefore = worldTick d', tickAfter = worldTick d', advanced = False\<rparr>, d')"
proof -
  obtain res d' where *: "advanceSimulationTick fixtureEnv tickOptions fixtureDb = (Inr res, d')" "advanced res"
    using fixture_advanced by blast
  have v: "ws_lockVersion (clock fixtureDb) = 3" by code_simp
  have "0 \<le> ws_lockVersion (clock d')"
    using *(1)
  proof (cases rule: advanceSimulationTick_cases)
    case (3 key res')
    from advanceBody_effect [OF 3(3) fixture_tickOk] 3(2) *(2) v show ?thesis by (auto split: if_splits)
  qed (use *(2) in auto)
  from execution_key_idempotent [OF *(1) fixture_tickOk _ *(2) _ _ this,
      of "''tick-8''" "tickOptions\<lparr>ao_expectedLockVersion := None\<rparr>"] *
  show ?thesis by (auto simp: tickOptions_def)
qed

theorem stale_version_rejected_witness:
  "\<exists>d' message. advanceSimulationTick fixtureEnv (tickOptions\<lparr>ao_executionKey := None\<rparr>) d' =
     (Inl (OptimisticLockConflictError message), d') \<and> worldTick d' = 8"
proof -
  obtain res d' where *: "advanceSimulationTick fixtureEnv tickOptions fixtureDb = (Inr res, d')" "advanced res"
    using fixture_advanced by blast
  have v: "ws_lockVersion (clock fixtureDb) = 3" "ws_currentTick (clock fixtureDb) = 7" by code_simp+
  have "worldTick d' = 8"
    using *(1)
  proof (cases rule: advanceSimulationTick_cases)
    case (3 key res')
    from advanceBody_effect [OF 3(3) fixture_tickOk] 3(2) *(2) v show ?thesis
      by (auto simp: worldTick_clock split: if_splits)
  qed (use *(2) in auto)
  moreover have "\<exists>m. advanceSimulationTick fixtureEnv (tickOptions\<lparr>ao_executionKey := None\<rparr>) d' =
      (Inl (OptimisticLockConflictError m), d')"
    by (rule stale_version_rejected [OF *(1) fixture_tickOk *(2), where key = None])
      (simp_all add: v tickOptions_def normalizeExecutionKey_def)
  ultimately show ?thesis by blast
qed

theorem ticks_commit_a_prefix_witness:
  "\<exists>r d'. advanceSimulationTicks fixtureEnv (IntN 2) tickOptions fixtureDb = (r, d') \<and> tickOk d' \<and>
     worldTick d' \<le> 9"
proof -
  obtain r d' where *: "advanceSimulationTicks fixtureEnv (IntN 2) tickOptions fixtureDb = (r, d')" by fastforce
  have "worldTick fixtureDb = 7" by code_simp
  with ticks_commit_a_prefix [OF * fixture_tickOk] * show ?thesis by auto
qed

end
