(* ===== verification/Invariants.thy ===== *)
theory Invariants
  imports Fixture
begin

section \<open>The invariant scan\<close>

text \<open>
  \<open>packages/sim/src/services/invariants.ts\<close>: the diagnostic queries for companies and inventory
  rows out of bounds, and the checks that turn a row into issues. The lemmas tie both to the
  invariant of theory \<open>Economy\<close>.
\<close>

datatype invariantIssueCode =
    COMPANY_CASH_NEGATIVE
  | COMPANY_RESERVED_CASH_NEGATIVE
  | COMPANY_RESERVED_EXCEEDS_CASH
  | COMPANY_WORKFORCE_CAPACITY_NEGATIVE
  | COMPANY_WORKFORCE_ALLOCATION_INVALID
  | COMPANY_ORG_EFFICIENCY_INVALID
  | INVENTORY_QUANTITY_NEGATIVE
  | INVENTORY_RESERVED_NEGATIVE
  | INVENTORY_RESERVED_EXCEEDS_QUANTITY

datatype entityType = CompanyEntity | InventoryEntity

record invariantIssue =
  is_code :: invariantIssueCode
  is_entityType :: entityType
  is_companyId :: string
  is_itemId :: "string option"
  is_message :: string

record invariantScanResult =
  issues :: "invariantIssue list"
  hasViolations :: bool
  truncated :: bool

definition MAX_ISSUES_LIMIT :: int where
  "MAX_ISSUES_LIMIT = 50"

definition companyIssue :: "company \<Rightarrow> invariantIssueCode \<Rightarrow> string \<Rightarrow> invariantIssue" where
  "companyIssue row code message =
     \<lparr>is_code = code, is_entityType = CompanyEntity, is_companyId = co_id row, is_itemId = None,
      is_message = message\<rparr>"

definition inventoryIssue :: "inventory \<Rightarrow> invariantIssueCode \<Rightarrow> string \<Rightarrow> invariantIssue" where
  "inventoryIssue row code message =
     \<lparr>is_code = code, is_entityType = InventoryEntity, is_companyId = inv_companyId row,
      is_itemId = Some (inv_itemId row), is_message = message\<rparr>"

definition allocationsInRange :: "company \<Rightarrow> bool" where
  "allocationsInRange row =
     (co_workforceAllocationOpsPct row \<ge> 0 \<and> co_workforceAllocationOpsPct row \<le> 100 \<and>
      co_workforceAllocationRngPct row \<ge> 0 \<and> co_workforceAllocationRngPct row \<le> 100 \<and>
      co_workforceAllocationLogPct row \<ge> 0 \<and> co_workforceAllocationLogPct row \<le> 100 \<and>
      co_workforceAllocationCorpPct row \<ge> 0 \<and> co_workforceAllocationCorpPct row \<le> 100)"

definition allocationSum :: "company \<Rightarrow> int" where
  "allocationSum row = co_workforceAllocationOpsPct row + co_workforceAllocationRngPct row +
     co_workforceAllocationLogPct row + co_workforceAllocationCorpPct row"

definition companyIssues :: "company \<Rightarrow> invariantIssue list" where
  "companyIssues row =
     (if co_cashCents row < 0
      then [companyIssue row COMPANY_CASH_NEGATIVE ''company cashCents is negative''] else []) @
     (if co_reservedCashCents row < 0
      then [companyIssue row COMPANY_RESERVED_CASH_NEGATIVE
        ''company reservedCashCents is negative''] else []) @
     (if co_reservedCashCents row > co_cashCents row
      then [companyIssue row COMPANY_RESERVED_EXCEEDS_CASH
        ''company reservedCashCents exceeds cashCents''] else []) @
     (if co_workforceCapacity row < 0
      then [companyIssue row COMPANY_WORKFORCE_CAPACITY_NEGATIVE
        ''company workforceCapacity is negative''] else []) @
     (if \<not> allocationsInRange row \<or> allocationSum row \<noteq> 100
      then [companyIssue row COMPANY_WORKFORCE_ALLOCATION_INVALID
        ''company workforce allocation is invalid''] else []) @
     (if co_orgEfficiencyBps row < 0 \<or> co_orgEfficiencyBps row > 10000
      then [companyIssue row COMPANY_ORG_EFFICIENCY_INVALID
        ''company orgEfficiencyBps is outside [0, 10000]''] else [])"

definition collectCompanyInvariantIssues :: "company list \<Rightarrow> invariantIssue list" where
  "collectCompanyInvariantIssues rows = concat (map companyIssues rows)"

definition inventoryIssues :: "inventory \<Rightarrow> invariantIssue list" where
  "inventoryIssues row =
     (if inv_quantity row < 0
      then [inventoryIssue row INVENTORY_QUANTITY_NEGATIVE ''inventory quantity is negative''] else []) @
     (if inv_reservedQuantity row < 0
      then [inventoryIssue row INVENTORY_RESERVED_NEGATIVE
        ''inventory reservedQuantity is negative''] else []) @
     (if inv_reservedQuantity row > inv_quantity row
      then [inventoryIssue row INVENTORY_RESERVED_EXCEEDS_QUANTITY
        ''inventory reservedQuantity exceeds quantity''] else [])"

definition collectInventoryInvariantIssues :: "inventory list \<Rightarrow> invariantIssue list" where
  "collectInventoryInvariantIssues rows = concat (map inventoryIssues rows)"

definition limitIssues :: "invariantIssue list \<Rightarrow> int \<Rightarrow> invariantScanResult" where
  "limitIssues found limit =
     \<lparr>issues = take (nat limit) found, hasViolations = (found \<noteq> []),
      truncated = (int (length found) > limit)\<rparr>"

text \<open>The two queries: the conditions of their \<open>WHERE\<close> clauses, in their order, up to the limit.\<close>

definition violatingCompany :: "company \<Rightarrow> bool" where
  "violatingCompany row =
     (co_cashCents row < 0 \<or> co_reservedCashCents row < 0 \<or>
      co_reservedCashCents row > co_cashCents row \<or> co_workforceCapacity row < 0 \<or>
      co_workforceAllocationOpsPct row < 0 \<or> co_workforceAllocationOpsPct row > 100 \<or>
      co_workforceAllocationRngPct row < 0 \<or> co_workforceAllocationRngPct row > 100 \<or>
      co_workforceAllocationLogPct row < 0 \<or> co_workforceAllocationLogPct row > 100 \<or>
      co_workforceAllocationCorpPct row < 0 \<or> co_workforceAllocationCorpPct row > 100 \<or>
      allocationSum row \<noteq> 100 \<or> co_orgEfficiencyBps row < 0 \<or> co_orgEfficiencyBps row > 10000)"

definition violatingInventory :: "inventory \<Rightarrow> bool" where
  "violatingInventory row =
     (inv_quantity row < 0 \<or> inv_reservedQuantity row < 0 \<or>
      inv_reservedQuantity row > inv_quantity row)"

definition scanCompanyRows :: "env \<Rightarrow> int \<Rightarrow> db \<Rightarrow> company list" where
  "scanCompanyRows E safeLimit d =
     take (nat safeLimit) (sortBy (\<lambda>x y. env_textCompare E (co_id x) (co_id y))
       (filter violatingCompany (companies d)))"

definition scanInventoryRows :: "env \<Rightarrow> int \<Rightarrow> db \<Rightarrow> inventory list" where
  "scanInventoryRows E safeLimit d =
     take (nat safeLimit)
       (sortBy (cmpThen (\<lambda>x y. env_textCompare E (inv_companyId x) (inv_companyId y))
          (\<lambda>x y. env_textCompare E (inv_itemId x) (inv_itemId y)))
         (filter violatingInventory (inventories d)))"

definition scanSimulationInvariants :: "env \<Rightarrow> jsnum option \<Rightarrow> db \<Rightarrow> invariantScanResult" where
  "scanSimulationInvariants E limit d =
     (let requested = (case limit of None \<Rightarrow> IntN 20 | Some n \<Rightarrow> n);
          requestedLimit = (if isInteger requested \<and> num requested > 0 then num requested else 20);
          safeLimit = min MAX_ISSUES_LIMIT requestedLimit in
      limitIssues
        (collectCompanyInvariantIssues (scanCompanyRows E safeLimit d) @
         collectInventoryInvariantIssues (scanInventoryRows E safeLimit d)) safeLimit)"

subsection \<open>The scan and the invariant\<close>

text \<open>The conditions of the queries select exactly the rows the checks find something in.\<close>

lemma companyIssues_iff: "companyIssues row \<noteq> [] \<longleftrightarrow> violatingCompany row"
  by (auto simp: companyIssues_def violatingCompany_def allocationsInRange_def)

lemma inventoryIssues_iff: "inventoryIssues row \<noteq> [] \<longleftrightarrow> violatingInventory row"
  by (auto simp: inventoryIssues_def violatingInventory_def)

definition workforceColumnsOk :: "company \<Rightarrow> bool" where
  "workforceColumnsOk c \<longleftrightarrow> 0 \<le> co_workforceCapacity c \<and> allocationsInRange c \<and>
     allocationSum c = 100 \<and> 0 \<le> co_orgEfficiencyBps c \<and> co_orgEfficiencyBps c \<le> 10000"

lemma violatingCompany_iff: "\<not> violatingCompany c \<longleftrightarrow> companyOk c \<and> workforceColumnsOk c"
  by (auto simp: violatingCompany_def companyOk_iff workforceColumnsOk_def allocationsInRange_def)

lemma violatingInventory_iff: "\<not> violatingInventory r \<longleftrightarrow> inventoryOk r"
  by (auto simp: violatingInventory_def inventoryOk_iff)

lemma concat_none: "concat (map f xs) = [] \<longleftrightarrow> (\<forall>x\<in>set xs. f x = [])"
  by auto

lemma take_empty: "0 < n \<Longrightarrow> take (nat n) xs = [] \<longleftrightarrow> xs = []"
  by simp

text \<open>The scan as a limited list of issues, and when it is empty.\<close>

lemma scan_limited:
  obtains safe where "0 < safe" "safe \<le> 50" "scanSimulationInvariants E limit d = limitIssues
     (collectCompanyInvariantIssues (scanCompanyRows E safe d) @
      collectInventoryInvariantIssues (scanInventoryRows E safe d)) safe"
proof -
  let ?requested = "case limit of None \<Rightarrow> IntN 20 | Some n \<Rightarrow> n"
  define safe where "safe = min MAX_ISSUES_LIMIT
     (if isInteger ?requested \<and> num ?requested > 0 then num ?requested else 20)"
  have "0 < safe" "safe \<le> 50" by (auto simp: safe_def MAX_ISSUES_LIMIT_def)
  moreover have "scanSimulationInvariants E limit d = limitIssues
     (collectCompanyInvariantIssues (scanCompanyRows E safe d) @
      collectInventoryInvariantIssues (scanInventoryRows E safe d)) safe"
    by (simp add: scanSimulationInvariants_def safe_def Let_def)
  ultimately show thesis by (rule that)
qed

lemma scan_rows:
  "set (scanCompanyRows E safe d) \<subseteq> {c \<in> set (companies d). violatingCompany c}"
  "set (scanInventoryRows E safe d) \<subseteq> {r \<in> set (inventories d). violatingInventory r}"
  by (auto simp: scanCompanyRows_def scanInventoryRows_def dest!: in_set_takeD)

lemma scan_clean_iff:
  "\<not> hasViolations (scanSimulationInvariants E limit d) \<longleftrightarrow>
     (\<forall>c\<in>set (companies d). companyOk c \<and> workforceColumnsOk c) \<and>
     (\<forall>r\<in>set (inventories d). inventoryOk r)"
proof -
  obtain safe where pos: "0 < safe" "safe \<le> 50" and scan: "scanSimulationInvariants E limit d = limitIssues
     (collectCompanyInvariantIssues (scanCompanyRows E safe d) @
      collectInventoryInvariantIssues (scanInventoryRows E safe d)) safe" by (rule scan_limited)
  note rows = scan_rows [of E safe d]
  have none_c: "scanCompanyRows E safe d = [] \<longleftrightarrow> (\<forall>c\<in>set (companies d). \<not> violatingCompany c)"
    unfolding scanCompanyRows_def take_empty [OF pos(1)]
    by (metis (no_types, lifting) filter_empty_conv length_0_conv length_sortBy)
  have none_r: "scanInventoryRows E safe d = [] \<longleftrightarrow> (\<forall>r\<in>set (inventories d). \<not> violatingInventory r)"
    unfolding scanInventoryRows_def take_empty [OF pos(1)]
    by (metis (no_types, lifting) filter_empty_conv length_0_conv length_sortBy)
  have found_c: "collectCompanyInvariantIssues (scanCompanyRows E safe d) = [] \<longleftrightarrow> scanCompanyRows E safe d = []"
    using rows(1) companyIssues_iff unfolding collectCompanyInvariantIssues_def concat_none
    by (metis (no_types, lifting) last_in_set mem_Collect_eq subsetD empty_iff empty_set)
  have found_r: "collectInventoryInvariantIssues (scanInventoryRows E safe d) = [] \<longleftrightarrow> scanInventoryRows E safe d = []"
    using rows(2) inventoryIssues_iff unfolding collectInventoryInvariantIssues_def concat_none
    by (metis (no_types, lifting) last_in_set mem_Collect_eq subsetD empty_iff empty_set)
  show ?thesis using none_c none_r found_c found_r
    by (simp add: scan limitIssues_def violatingCompany_iff violatingInventory_iff)
qed

text \<open>
  C22. The invariant scan is exact for any limit: it finds no violation exactly when every company
  and every inventory row is within the bounds the economy's invariant asks for and every
  company's workforce columns are in range. What it reports are at most 50 issues, each of a row
  that violates its bound.
\<close>

theorem invariant_scan_exact:
  "(\<not> hasViolations (scanSimulationInvariants E limit d) \<longleftrightarrow>
     (\<forall>c\<in>set (companies d). companyOk c \<and> workforceColumnsOk c) \<and>
     (\<forall>r\<in>set (inventories d). inventoryOk r)) \<and>
   length (issues (scanSimulationInvariants E limit d)) \<le> 50 \<and>
   (\<forall>i\<in>set (issues (scanSimulationInvariants E limit d)).
      (\<exists>c\<in>set (companies d). violatingCompany c \<and> i \<in> set (companyIssues c)) \<or>
      (\<exists>r\<in>set (inventories d). violatingInventory r \<and> i \<in> set (inventoryIssues r)))"
proof -
  obtain safe where pos: "0 < safe" "safe \<le> 50" and scan: "scanSimulationInvariants E limit d = limitIssues
     (collectCompanyInvariantIssues (scanCompanyRows E safe d) @
      collectInventoryInvariantIssues (scanInventoryRows E safe d)) safe" by (rule scan_limited)
  have "length (issues (scanSimulationInvariants E limit d)) \<le> 50"
    using pos by (simp add: scan limitIssues_def)
  moreover have "(\<exists>c\<in>set (companies d). violatingCompany c \<and> i \<in> set (companyIssues c)) \<or>
      (\<exists>r\<in>set (inventories d). violatingInventory r \<and> i \<in> set (inventoryIssues r))"
    if "i \<in> set (issues (scanSimulationInvariants E limit d))" for i
    using that scan_rows [of E safe d]
    by (fastforce simp: scan limitIssues_def collectCompanyInvariantIssues_def
        collectInventoryInvariantIssues_def dest!: in_set_takeD)
  ultimately show ?thesis using scan_clean_iff [of E limit d] by blast
qed

text \<open>
  The flag \<open>truncated\<close> is computed after the queries were limited: with two companies in
  violation and a limit of one, the scan reports one issue and says nothing was cut off.
\<close>

definition overdrawnDb :: db where
  "overdrawnDb = emptyDb\<lparr>companies := [mkCompany ''b'' False ''r1'' 5 9,
     mkCompany ''c'' False ''r1'' 5 9]\<rparr>"

lemma invariant_scan_exact_witness:
  "hasViolations (scanSimulationInvariants fixtureEnv (Some (IntN 1)) overdrawnDb)"
proof -
  have "\<not> (\<forall>c\<in>set (companies overdrawnDb). companyOk c \<and> workforceColumnsOk c)"
    by (simp add: overdrawnDb_def companyOk_def reservationOk_def mkCompany_def)
  then show ?thesis
    using invariant_scan_exact [of fixtureEnv "Some (IntN 1)" overdrawnDb] by blast
qed

lemma scan_truncation_missed:
  "countWhere violatingCompany (companies overdrawnDb) = 2 \<and>
   length (issues (scanSimulationInvariants fixtureEnv (Some (IntN 1))
     overdrawnDb)) = 1 \<and>
   \<not> truncated (scanSimulationInvariants fixtureEnv (Some (IntN 1))
     overdrawnDb)"
  by code_simp

end
