(* ===== verification/Lease.thy ===== *)
theory Lease
  imports Store
begin

section \<open>The simulation lease\<close>

text \<open>
  \<open>apps/worker/src/simulation-lease.ts\<close>: a worker acquires a named lease by two statements, an
  update of an expired (or its own) row and an insert that skips an existing row, and releases it
  by deleting its row. The statements commit one by one, so two workers can interleave between
  them; the step relation below runs any number of workers that way, each with the time it read
  when it began. The locale \<open>exclusive_slot\<close> states what a store of leases must promise for
  that to be safe.
\<close>

record leaseInput =
  lc_name :: string
  lc_ownerId :: string
  lc_ttlMs :: jsnum

definition validateLeaseInput :: "leaseInput \<Rightarrow> unit result" where
  "validateLeaseInput input =
     (if lc_name input = [] \<or> trim (lc_name input) = []
        then Inl (PlainError ''simulation lease name must be provided'')
      else if lc_ownerId input = [] \<or> trim (lc_ownerId input) = []
        then Inl (PlainError ''simulation lease ownerId must be provided'')
      else if \<not> isInteger (lc_ttlMs input) \<or> num (lc_ttlMs input) \<le> 0
        then Inl (PlainError ''simulation lease ttlMs must be a positive integer'')
      else Inr ())"

text \<open>The two statements: \<open>updateMany\<close> with its filter, \<open>createMany\<close> with \<open>skipDuplicates\<close>.\<close>

definition leaseFree :: "string \<Rightarrow> string \<Rightarrow> bool \<Rightarrow> int \<Rightarrow> simulationLease \<Rightarrow> bool" where
  "leaseFree leaseName owner allowReentry now r \<longleftrightarrow>
     sl_name r = leaseName \<and> (allowReentry \<and> sl_ownerId r = owner \<or> sl_expiresAt r \<le> now)"

definition takeLease ::
    "string \<Rightarrow> string \<Rightarrow> bool \<Rightarrow> int \<Rightarrow> int \<Rightarrow> db \<Rightarrow> bool \<times> db" where
  "takeLease leaseName owner allowReentry now expires d =
     (countWhere (leaseFree leaseName owner allowReentry now) (simulationLeases d) = 1,
      simulationLeases_update (mapWhere (leaseFree leaseName owner allowReentry now)
        (\<lambda>r. r\<lparr>sl_ownerId := owner, sl_expiresAt := expires\<rparr>)) d)"

definition insertLease :: "string \<Rightarrow> string \<Rightarrow> int \<Rightarrow> db \<Rightarrow> bool \<times> db" where
  "insertLease leaseName owner expires d =
     (case createRow sl_name simulationLeases simulationLeases_update
         \<lparr>sl_name = leaseName, sl_ownerId = owner, sl_expiresAt = expires\<rparr> d of
       Inl _ \<Rightarrow> (False, d)
     | Inr (_, d') \<Rightarrow> (True, d'))"

definition acquireSimulationLease ::
    "int \<Rightarrow> leaseInput \<Rightarrow> bool \<Rightarrow> db \<Rightarrow> (bool \<times> db) result" where
  "acquireSimulationLease now input allowReentry d =
     andThen (validateLeaseInput input) (\<lambda>_.
     (let expires = now + num (lc_ttlMs input);
          leaseName = trim (lc_name input);
          owner = trim (lc_ownerId input);
          (updated, d) = takeLease leaseName owner allowReentry now expires d in
      if updated then Inr (True, d) else Inr (insertLease leaseName owner expires d)))"

definition deleteLease :: "string \<Rightarrow> string \<Rightarrow> db \<Rightarrow> db" where
  "deleteLease leaseName owner d =
     simulationLeases_update (filter (\<lambda>r. \<not> (sl_name r = leaseName \<and> sl_ownerId r = owner))) d"

definition releaseSimulationLease :: "string \<Rightarrow> string \<Rightarrow> db \<Rightarrow> db" where
  "releaseSimulationLease name owner d = deleteLease (trim name) (trim owner) d"

subsection \<open>What a store of leases promises\<close>

text \<open>
  A slot is empty or shows a holder and its expiry. An update may replace the holder only when
  the expiry has passed or the holder is the caller, an insert only fills an empty slot, and a
  release only empties the caller's own.
\<close>

locale exclusive_slot =
  fixes ok :: "'s \<Rightarrow> bool" and shown :: "'s \<Rightarrow> (string \<times> int) option"
    and try_take :: "string \<Rightarrow> bool \<Rightarrow> int \<Rightarrow> int \<Rightarrow> 's \<Rightarrow> bool \<times> 's"
    and try_insert :: "string \<Rightarrow> int \<Rightarrow> 's \<Rightarrow> bool \<times> 's"
    and give_back :: "string \<Rightarrow> 's \<Rightarrow> 's"
  assumes take_law: "ok s \<Longrightarrow> try_take w re now e s = (done', s') \<Longrightarrow> ok s' \<and>
      (if done' then shown s' = Some (w, e) \<and>
         (\<exists>p f. shown s = Some (p, f) \<and> (f \<le> now \<or> p = w))
       else shown s' = shown s)"
    and insert_law: "ok s \<Longrightarrow> try_insert w e s = (done', s') \<Longrightarrow> ok s' \<and>
      (if done' then shown s = None \<and> shown s' = Some (w, e) else shown s' = shown s)"
    and release_law: "ok s \<Longrightarrow> ok (give_back w s) \<and>
      (shown (give_back w s) = shown s \<or> shown (give_back w s) = None \<and> (\<exists>e. shown s = Some (w, e)))"
begin

text \<open>
  \<open>holds\<close> is what each worker was last told. It is sound at a time when every lease that has
  not run out by then is the one the slot shows.
\<close>

definition sound :: "(string \<Rightarrow> int option) \<Rightarrow> int \<Rightarrow> 's \<Rightarrow> bool" where
  "sound holds clock s \<longleftrightarrow> ok s \<and> (\<forall>w e. holds w = Some e \<longrightarrow> clock < e \<longrightarrow> shown s = Some (w, e))"

lemma sound_exclusive:
  "sound holds clock s \<Longrightarrow> holds v = Some e \<Longrightarrow> clock < e \<Longrightarrow> holds w = Some f \<Longrightarrow> clock < f \<Longrightarrow> v = w"
  unfolding sound_def by (metis option.inject prod.inject)

lemma sound_later: "sound holds clock s \<Longrightarrow> clock \<le> clock' \<Longrightarrow> sound holds clock' s"
  unfolding sound_def by (meson le_less_trans)

lemma take_sound:
  assumes "sound holds clock s" and "try_take w re now e s = (done', s')" and "now \<le> clock"
  shows "sound (if done' then holds(w \<mapsto> e) else holds) clock s'"
  using assms take_law [OF _ assms(2)] unfolding sound_def by (auto split: if_splits)

lemma insert_sound:
  assumes "sound holds clock s" and "try_insert w e s = (done', s')"
  shows "sound (if done' then holds(w \<mapsto> e) else holds) clock s'"
  using assms insert_law [OF _ assms(2)] unfolding sound_def by (auto split: if_splits)

lemma release_sound:
  assumes "sound holds clock s"
  shows "sound (holds(w := None)) clock (give_back w s)"
  using assms release_law [of s w] unfolding sound_def by (auto split: if_splits)

end

subsection \<open>The table of leases is such a store\<close>

definition leasesOk :: "db \<Rightarrow> bool" where
  "leasesOk d \<longleftrightarrow> distinct (map sl_name (simulationLeases d))"

definition shownLease :: "string \<Rightarrow> db \<Rightarrow> (string \<times> int) option" where
  "shownLease leaseName d =
     map_option (\<lambda>r. (sl_ownerId r, sl_expiresAt r)) (rowFind sl_name leaseName (simulationLeases d))"

lemma lease_row:
  assumes "leasesOk d"
  shows "r \<in> set (simulationLeases d) \<and> sl_name r = n \<longleftrightarrow> rowFind sl_name n (simulationLeases d) = Some r"
  using assms rowFind_unique [of sl_name "simulationLeases d" r] rowFind_Some [of sl_name n "simulationLeases d" r]
  by (auto simp: leasesOk_def)

lemma takeLease_none:
  assumes "\<forall>x\<in>set (simulationLeases d). \<not> leaseFree n w re now x" and "takeLease n w re now e d = (b, d')"
  shows "\<not> b \<and> d' = d"
proof -
  have "mapWhere (leaseFree n w re now) f (simulationLeases d) = simulationLeases d" for f
    by (rule mapWhere_absent) (use assms(1) in blast)
  moreover have "countWhere (leaseFree n w re now) (simulationLeases d) = 0"
    using assms(1) by (simp add: countWhere_def)
  ultimately show ?thesis using assms(2) by (auto simp: takeLease_def intro!: db.equality)
qed

lemma takeLease_law:
  assumes "leasesOk d" and "takeLease n w re now e d = (b, d')"
  shows "leasesOk d' \<and> (if b then shownLease n d' = Some (w, e) \<and>
      (\<exists>p f. shownLease n d = Some (p, f) \<and> (f \<le> now \<or> p = w)) else shownLease n d' = shownLease n d)"
proof -
  let ?P = "leaseFree n w re now" and ?f = "\<lambda>r. r\<lparr>sl_ownerId := w, sl_expiresAt := e\<rparr>"
  have d': "simulationLeases d' = mapWhere ?P ?f (simulationLeases d)"
    and b: "b = (countWhere ?P (simulationLeases d) = 1)"
    using assms(2) by (auto simp: takeLease_def)
  have dist: "distinct (map sl_name (simulationLeases d))" using assms(1) by (simp add: leasesOk_def)
  have named: "?P r \<Longrightarrow> sl_name r = n" for r by (simp add: leaseFree_def)
  show ?thesis
  proof (cases "rowFind sl_name n (simulationLeases d)")
    case None
    then have "\<forall>x\<in>set (simulationLeases d). \<not> ?P x" using named by (auto simp: rowFind_None)
    from takeLease_none [OF this assms(2)] assms(1) show ?thesis by simp
  next
    case (Some r)
    show ?thesis
    proof (cases "?P r")
      case True
      have one: "countWhere ?P (simulationLeases d) = 1"
        using countWhere_found [OF dist named Some] True by simp
      obtain r' where "mapWhere ?P ?f (simulationLeases d) = rowSet sl_name n ?f (simulationLeases d)"
        using mapWhere_rowSet [OF dist named one] by metis
      then have rows: "simulationLeases d' = rowSet sl_name n ?f (simulationLeases d)" by (simp add: d')
      have "b" by (simp add: b one)
      moreover have "leasesOk d'" using dist map_rowSet_same [of sl_name ?f sl_name n "simulationLeases d"]
        by (simp add: leasesOk_def rows)
      moreover have "shownLease n d' = Some (w, e)"
        using Some by (simp add: shownLease_def rows rowFind_rowSet)
      moreover have "shownLease n d = Some (sl_ownerId r, sl_expiresAt r)" using Some by (simp add: shownLease_def)
      moreover have "sl_expiresAt r \<le> now \<or> sl_ownerId r = w" using True by (auto simp: leaseFree_def)
      ultimately show ?thesis by simp
    next
      case False
      then have "\<forall>x\<in>set (simulationLeases d). \<not> ?P x"
        using named lease_row [OF assms(1)] Some by (metis option.inject)
      from takeLease_none [OF this assms(2)] assms(1) show ?thesis by simp
    qed
  qed
qed

lemma insertLease_law:
  assumes "leasesOk d" and "insertLease n w e d = (b, d')"
  shows "leasesOk d' \<and> (if b then shownLease n d = None \<and> shownLease n d' = Some (w, e)
     else shownLease n d' = shownLease n d)"
proof (cases "rowFind sl_name n (simulationLeases d)")
  case None
  then have d': "b" "simulationLeases d' = simulationLeases d @ [\<lparr>sl_name = n, sl_ownerId = w, sl_expiresAt = e\<rparr>]"
    using assms(2) by (auto simp: insertLease_def createRow_def)
  with None assms(1) show ?thesis
    by (simp add: leasesOk_def shownLease_def rowFind_append) (simp add: rowFind_None)
next
  case (Some r)
  with assms show ?thesis by (auto simp: insertLease_def createRow_def)
qed

lemma rowFind_deleteOwned:
  "distinct (map sl_name rs) \<Longrightarrow>
   rowFind sl_name n (filter (\<lambda>r. \<not> (sl_name r = n \<and> sl_ownerId r = w)) rs) =
     (case rowFind sl_name n rs of Some r \<Rightarrow> if sl_ownerId r = w then None else Some r | None \<Rightarrow> None)"
proof (induction rs)
  case (Cons a rs)
  show ?case
  proof (cases "sl_name a = n")
    case True
    with Cons.prems have "rowFind sl_name n (filter Q rs) = None" for Q by (auto simp: rowFind_None)
    with True show ?thesis by simp
  qed (use Cons in simp)
qed simp

lemma deleteLease_law:
  assumes "leasesOk d"
  shows "leasesOk (deleteLease n w d) \<and> (shownLease n (deleteLease n w d) = shownLease n d \<or>
     shownLease n (deleteLease n w d) = None \<and> (\<exists>e. shownLease n d = Some (w, e)))"
proof -
  let ?rows = "simulationLeases d"
  have dist: "distinct (map sl_name (filter Q ?rows))" for Q
    using assms by (simp add: leasesOk_def distinct_map_filter)
  have "rowFind sl_name n (simulationLeases (deleteLease n w d)) =
      (case rowFind sl_name n ?rows of Some r \<Rightarrow> if sl_ownerId r = w then None else Some r | None \<Rightarrow> None)"
    using assms rowFind_deleteOwned [of ?rows n w] by (simp add: leasesOk_def deleteLease_def)
  then show ?thesis using dist
    by (auto simp: leasesOk_def shownLease_def deleteLease_def split: option.split)
qed

interpretation leaseSlot: exclusive_slot leasesOk "shownLease n" "takeLease n" "insertLease n" "deleteLease n"
    for n
proof
  show "leasesOk d \<Longrightarrow> takeLease n w re now e d = (b, d') \<Longrightarrow> leasesOk d' \<and>
      (if b then shownLease n d' = Some (w, e) \<and> (\<exists>p f. shownLease n d = Some (p, f) \<and> (f \<le> now \<or> p = w))
       else shownLease n d' = shownLease n d)" for d w re now e b d'
    by (rule takeLease_law)
  show "leasesOk d \<Longrightarrow> insertLease n w e d = (b, d') \<Longrightarrow> leasesOk d' \<and>
      (if b then shownLease n d = None \<and> shownLease n d' = Some (w, e) else shownLease n d' = shownLease n d)"
    for d w e b d' by (rule insertLease_law)
  show "leasesOk d \<Longrightarrow> leasesOk (deleteLease n w d) \<and> (shownLease n (deleteLease n w d) = shownLease n d \<or>
      shownLease n (deleteLease n w d) = None \<and> (\<exists>e. shownLease n d = Some (w, e)))" for d w
    by (rule deleteLease_law)
qed

subsection \<open>Workers that interleave\<close>

text \<open>
  One request of a worker is validated and reads the clock, tries the update, and when that
  changed no row tries the insert. \<open>lw_holds\<close> is the expiry a worker was last promised.
\<close>

datatype leaseRequest = LeaseIdle | LeaseBegan bool int int | LeaseMissed int

record leaseWorld =
  lw_db :: db
  lw_clock :: int
  lw_request :: "string \<Rightarrow> leaseRequest"
  lw_holds :: "string \<Rightarrow> int option"

inductive leaseStep :: "string \<Rightarrow> leaseWorld \<Rightarrow> leaseWorld \<Rightarrow> bool" for n where
  time_passes: "lw_clock s \<le> t \<Longrightarrow> leaseStep n s (s\<lparr>lw_clock := t\<rparr>)"
| request_begins: "validateLeaseInput input = Inr () \<Longrightarrow> trim (lc_name input) = n \<Longrightarrow>
    lw_request s (trim (lc_ownerId input)) = LeaseIdle \<Longrightarrow>
    leaseStep n s (s\<lparr>lw_request := (lw_request s)(trim (lc_ownerId input) :=
      LeaseBegan re (lw_clock s) (lw_clock s + num (lc_ttlMs input)))\<rparr>)"
| update_hits: "lw_request s w = LeaseBegan re now expires \<Longrightarrow>
    takeLease n w re now expires (lw_db s) = (True, d') \<Longrightarrow>
    leaseStep n s (s\<lparr>lw_db := d', lw_request := (lw_request s)(w := LeaseIdle),
      lw_holds := (lw_holds s)(w \<mapsto> expires)\<rparr>)"
| update_misses: "lw_request s w = LeaseBegan re now expires \<Longrightarrow>
    takeLease n w re now expires (lw_db s) = (False, d') \<Longrightarrow>
    leaseStep n s (s\<lparr>lw_db := d', lw_request := (lw_request s)(w := LeaseMissed expires)\<rparr>)"
| insert_answers: "lw_request s w = LeaseMissed expires \<Longrightarrow>
    insertLease n w expires (lw_db s) = (b, d') \<Longrightarrow>
    leaseStep n s (s\<lparr>lw_db := d', lw_request := (lw_request s)(w := LeaseIdle),
      lw_holds := (if b then (lw_holds s)(w \<mapsto> expires) else lw_holds s)\<rparr>)"
| releases: "lw_request s w = LeaseIdle \<Longrightarrow>
    leaseStep n s (s\<lparr>lw_db := deleteLease n w (lw_db s), lw_holds := (lw_holds s)(w := None)\<rparr>)"
| others_commit: "leasesOk d' \<Longrightarrow> shownLease n d' = shownLease n (lw_db s) \<Longrightarrow>
    leaseStep n s (s\<lparr>lw_db := d'\<rparr>)"

inductive leaseReach :: "string \<Rightarrow> leaseWorld \<Rightarrow> leaseWorld \<Rightarrow> bool" for n where
  reach_refl: "leaseReach n s s"
| reach_step: "leaseReach n s s' \<Longrightarrow> leaseStep n s' s'' \<Longrightarrow> leaseReach n s s''"

lemma leaseReach_trans: "leaseReach n s' s'' \<Longrightarrow> leaseReach n s s' \<Longrightarrow> leaseReach n s s''"
  by (induction rule: leaseReach.induct) (blast intro: leaseReach.intros)+

definition leaseInv :: "string \<Rightarrow> leaseWorld \<Rightarrow> bool" where
  "leaseInv n s \<longleftrightarrow> leaseSlot.sound n (lw_holds s) (lw_clock s) (lw_db s) \<and>
     (\<forall>w re now e. lw_request s w = LeaseBegan re now e \<longrightarrow> now \<le> lw_clock s)"

lemma leaseStep_inv: "leaseStep n s s' \<Longrightarrow> leaseInv n s \<Longrightarrow> leaseInv n s'"
proof (induction rule: leaseStep.induct)
  case (time_passes s t)
  then show ?case using leaseSlot.sound_later [of n "lw_holds s"] unfolding leaseInv_def by fastforce
next
  case (request_begins input s re)
  then show ?case unfolding leaseInv_def by (auto split: if_splits)
next
  case (update_hits s w re now expires d')
  have "now \<le> lw_clock s" using update_hits unfolding leaseInv_def by blast
  then have "leaseSlot.sound n ((lw_holds s)(w \<mapsto> expires)) (lw_clock s) d'"
    using leaseSlot.take_sound [OF _ update_hits(2), of "lw_holds s" "lw_clock s"] update_hits(3)
    unfolding leaseInv_def by simp
  with update_hits(3) show ?case unfolding leaseInv_def by (auto split: if_splits)
next
  case (update_misses s w re now expires d')
  have "now \<le> lw_clock s" using update_misses unfolding leaseInv_def by blast
  then have "leaseSlot.sound n (lw_holds s) (lw_clock s) d'"
    using leaseSlot.take_sound [OF _ update_misses(2), of "lw_holds s" "lw_clock s"] update_misses(3)
    unfolding leaseInv_def by simp
  with update_misses(3) show ?case unfolding leaseInv_def by (auto split: if_splits)
next
  case (insert_answers s w expires b d')
  have "leaseSlot.sound n (if b then (lw_holds s)(w \<mapsto> expires) else lw_holds s) (lw_clock s) d'"
    using leaseSlot.insert_sound [OF _ insert_answers(2), of "lw_holds s" "lw_clock s"] insert_answers(3)
    unfolding leaseInv_def by blast
  with insert_answers(3) show ?case unfolding leaseInv_def by (auto split: if_splits)
next
  case (releases s w)
  then show ?case using leaseSlot.release_sound [of n "lw_holds s" "lw_clock s" "lw_db s" w]
    unfolding leaseInv_def by simp
next
  case (others_commit d' s)
  then show ?case unfolding leaseInv_def leaseSlot.sound_def by simp
qed

lemma leaseReach_inv: "leaseReach n s s' \<Longrightarrow> leaseInv n s \<Longrightarrow> leaseInv n s'"
  by (induction rule: leaseReach.induct) (auto intro: leaseStep_inv)

text \<open>A call of \<open>acquireSimulationLease\<close> that nobody interrupts is a run of these steps.\<close>

lemma acquire_runs:
  assumes "acquireSimulationLease (lw_clock s) input re (lw_db s) = Inr (b, d')"
    and "trim (lc_name input) = n" and "lw_request s (trim (lc_ownerId input)) = LeaseIdle"
  shows "leaseReach n s (s\<lparr>lw_db := d', lw_holds := (if b
    then (lw_holds s)(trim (lc_ownerId input) \<mapsto> lw_clock s + num (lc_ttlMs input)) else lw_holds s)\<rparr>)"
proof -
  define w where "w = trim (lc_ownerId input)"
  define e where "e = lw_clock s + num (lc_ttlMs input)"
  define s1 where "s1 = s\<lparr>lw_request := (lw_request s)(w := LeaseBegan re (lw_clock s) e)\<rparr>"
  have valid: "validateLeaseInput input = Inr ()" using assms(1) by (auto simp: acquireSimulationLease_def andThen_Inr_iff)
  have s1: "leaseStep n s s1" unfolding s1_def w_def e_def by (rule request_begins [OF valid assms(2,3)])
  have idle: "(lw_request s)(w := LeaseIdle) = lw_request s" using assms(3) by (auto simp: w_def)
  obtain taken d1 where take: "takeLease n w re (lw_clock s) e (lw_db s) = (taken, d1)" by fastforce
  show ?thesis
  proof (cases taken)
    case True
    then have res: "b" "d' = d1" using assms(1,2) take valid
      by (auto simp: acquireSimulationLease_def Let_def w_def e_def)
    have "leaseStep n s1 (s1\<lparr>lw_db := d1, lw_request := (lw_request s1)(w := LeaseIdle),
        lw_holds := (lw_holds s1)(w \<mapsto> e)\<rparr>)"
      by (rule update_hits [of _ _ re "lw_clock s"]) (use take True in \<open>simp_all add: s1_def\<close>)
    with s1 show ?thesis using res idle
      by (auto simp: s1_def w_def e_def intro: reach_step [OF reach_step [OF reach_refl]])
  next
    case False
    define s2 where "s2 = s1\<lparr>lw_db := d1, lw_request := (lw_request s1)(w := LeaseMissed e)\<rparr>"
    have s2: "leaseStep n s1 s2" unfolding s2_def
      by (rule update_misses [of _ _ re "lw_clock s"]) (use take False in \<open>simp_all add: s1_def\<close>)
    have ins: "insertLease n w e d1 = (b, d')" using assms(1,2) take valid False
      by (auto simp: acquireSimulationLease_def Let_def w_def e_def)
    have "leaseStep n s2 (s2\<lparr>lw_db := d', lw_request := (lw_request s2)(w := LeaseIdle),
        lw_holds := (if b then (lw_holds s2)(w \<mapsto> e) else lw_holds s2)\<rparr>)"
      by (rule insert_answers) (use ins in \<open>simp_all add: s2_def\<close>)
    moreover have "s2\<lparr>lw_db := d', lw_request := (lw_request s2)(w := LeaseIdle),
        lw_holds := (if b then (lw_holds s2)(w \<mapsto> e) else lw_holds s2)\<rparr> =
      s\<lparr>lw_db := d', lw_holds := (if b then (lw_holds s)(w \<mapsto> e) else lw_holds s)\<rparr>"
      using idle by (simp add: s2_def s1_def)
    ultimately have "leaseStep n s2 (s\<lparr>lw_db := d', lw_holds := (if b then (lw_holds s)(w \<mapsto> e) else lw_holds s)\<rparr>)"
      by simp
    with s1 s2 have "leaseReach n s (s\<lparr>lw_db := d', lw_holds := (if b then (lw_holds s)(w \<mapsto> e) else lw_holds s)\<rparr>)"
      by (blast intro: leaseReach.intros)
    then show ?thesis unfolding w_def e_def .
  qed
qed
text \<open>What a call answers and leaves behind, when nobody interrupts it.\<close>

lemma acquire_exact:
  fixes now :: int
  assumes "leasesOk d" and "validateLeaseInput input = Inr ()"
  defines "n \<equiv> trim (lc_name input)" and "w \<equiv> trim (lc_ownerId input)" and "e \<equiv> now + num (lc_ttlMs input)"
  shows "\<exists>b d'. acquireSimulationLease now input re d = Inr (b, d') \<and> leasesOk d' \<and>
    (b \<longleftrightarrow> (case shownLease n d of None \<Rightarrow> True | Some (p, f) \<Rightarrow> re \<and> p = w \<or> f \<le> now)) \<and>
    shownLease n d' = (if b then Some (w, e) else shownLease n d)"
proof -
  obtain taken d1 where take: "takeLease n w re now e d = (taken, d1)" by fastforce
  obtain b d2 where ins: "insertLease n w e d1 = (b, d2)" by fastforce
  note law = takeLease_law [OF assms(1) take]
  note ilaw = insertLease_law [OF _ ins]
  have run: "acquireSimulationLease now input re d = Inr (if taken then (True, d1) else (b, d2))"
    using take ins assms(2) by (simp add: acquireSimulationLease_def n_def w_def e_def)
  have hit: "taken \<longleftrightarrow> (\<exists>r. rowFind sl_name n (simulationLeases d) = Some r \<and> leaseFree n w re now r)"
  proof -
    have named: "leaseFree n w re now r \<Longrightarrow> sl_name r = n" for r by (simp add: leaseFree_def)
    have dist: "distinct (map sl_name (simulationLeases d))" using assms(1) by (simp add: leasesOk_def)
    have t: "taken = (countWhere (leaseFree n w re now) (simulationLeases d) = 1)"
      using take by (auto simp: takeLease_def)
    show ?thesis
    proof (cases "rowFind sl_name n (simulationLeases d)")
      case None
      then have "\<forall>x\<in>set (simulationLeases d). \<not> leaseFree n w re now x" using named by (auto simp: rowFind_None)
      from takeLease_none [OF this take] None show ?thesis by simp
    next
      case (Some r)
      then show ?thesis using countWhere_found [OF dist named Some] t by simp
    qed
  qed
  have free: "taken \<longleftrightarrow> (\<exists>p f. shownLease n d = Some (p, f) \<and> (re \<and> p = w \<or> f \<le> now))"
    unfolding hit shownLease_def by (auto simp: leaseFree_def dest: rowFind_key)
  have found: "insertLease n w e d1 = (False, d1)" if "shownLease n d1 \<noteq> None"
    using that by (auto simp: insertLease_def createRow_def shownLease_def)
  have fresh: "b" if "shownLease n d1 = None"
    using that ins by (auto simp: insertLease_def createRow_def shownLease_def)
  show ?thesis
  proof (cases taken)
    case True
    with run law free show ?thesis by (auto split: option.split)
  next
    case False
    with law have d1: "leasesOk d1" "shownLease n d1 = shownLease n d" by simp_all
    from ilaw [OF d1(1)] found fresh ins free False run d1(2) show ?thesis
      by (cases "shownLease n d") (auto split: option.split)
  qed
qed

text \<open>
  C9. A lease is exclusive however many workers interleave the statements of their requests,
  renewals and releases: two workers that were promised it beyond the current time are the same,
  and the lease's row still names that worker and that expiry.
\<close>

theorem lease_mutual_exclusion:
  assumes "leaseReach n s0 s" and "leasesOk (lw_db s0)"
    and "\<forall>w. lw_holds s0 w = None \<and> lw_request s0 w = LeaseIdle"
    and "lw_holds s v = Some e" and "lw_clock s < e" and "lw_holds s w = Some f" and "lw_clock s < f"
  shows "v = w \<and> e = f \<and> shownLease n (lw_db s) = Some (v, e)"
proof -
  have "leaseInv n s0" using assms(2,3) by (simp add: leaseInv_def leaseSlot.sound_def)
  then have "leaseSlot.sound n (lw_holds s) (lw_clock s) (lw_db s)"
    using leaseReach_inv [OF assms(1)] by (simp add: leaseInv_def)
  then have shown: "\<And>u g. lw_holds s u = Some g \<Longrightarrow> lw_clock s < g \<Longrightarrow> shownLease n (lw_db s) = Some (u, g)"
    unfolding leaseSlot.sound_def by blast
  show ?thesis using shown [OF assms(4,5)] shown [OF assms(6,7)] by simp
qed

definition noWorkers :: leaseWorld where
  "noWorkers = \<lparr>lw_db = emptyDb, lw_clock = 0, lw_request = (\<lambda>_. LeaseIdle), lw_holds = (\<lambda>_. None)\<rparr>"

definition leaseOf :: "string \<Rightarrow> int \<Rightarrow> leaseInput" where
  "leaseOf owner ttl = \<lparr>lc_name = ''simulation.tick.processor'', lc_ownerId = owner, lc_ttlMs = IntN ttl\<rparr>"

text \<open>Worker a takes the lease for 10 ms and lets it run out; worker b takes it over.\<close>

theorem lease_mutual_exclusion_witness:
  "\<exists>s. leaseReach ''simulation.tick.processor'' noWorkers s \<and> lw_clock s = 10 \<and>
     lw_holds s ''a'' = Some 10 \<and> lw_holds s ''b'' = Some 15 \<and>
     shownLease ''simulation.tick.processor'' (lw_db s) = Some (''b'', 15)"
proof -
  let ?n = "''simulation.tick.processor''"
  define d1 where "d1 = emptyDb\<lparr>simulationLeases := [\<lparr>sl_name = ?n, sl_ownerId = ''a'', sl_expiresAt = 10\<rparr>], db_seq := 1\<rparr>"
  define d2 where "d2 = emptyDb\<lparr>simulationLeases := [\<lparr>sl_name = ?n, sl_ownerId = ''b'', sl_expiresAt = 15\<rparr>], db_seq := 1\<rparr>"
  have a: "acquireSimulationLease 0 (leaseOf ''a'' 10) False emptyDb = Inr (True, d1)"
    unfolding d1_def by code_simp
  have b: "acquireSimulationLease 10 (leaseOf ''b'' 5) False d1 = Inr (True, d2)"
    unfolding d1_def d2_def by code_simp
  have names: "trim (lc_name (leaseOf w t)) = ?n" for w t unfolding leaseOf_def by code_simp
  have owners: "trim (lc_ownerId (leaseOf ''a'' 10)) = ''a''" "trim (lc_ownerId (leaseOf ''b'' 5)) = ''b''"
    by code_simp+
  have ttls: "num (lc_ttlMs (leaseOf w t)) = t" for w t by (simp add: leaseOf_def)
  define s1 where "s1 = noWorkers\<lparr>lw_db := d1, lw_holds := (\<lambda>_. None)(''a'' \<mapsto> 10)\<rparr>"
  have r1: "leaseReach ?n noWorkers s1"
    using acquire_runs [of noWorkers "leaseOf ''a'' 10" False True d1, OF _ names] a owners
    by (simp add: noWorkers_def s1_def ttls)
  have r2: "leaseReach ?n noWorkers (s1\<lparr>lw_clock := 10\<rparr>)"
    by (rule reach_step [OF r1 time_passes]) (simp add: s1_def noWorkers_def)
  define s2 where "s2 = s1\<lparr>lw_clock := 10, lw_db := d2, lw_holds := (lw_holds s1)(''b'' \<mapsto> 15)\<rparr>"
  have "leaseReach ?n (s1\<lparr>lw_clock := 10\<rparr>) s2"
    using acquire_runs [of "s1\<lparr>lw_clock := 10\<rparr>" "leaseOf ''b'' 5" False True d2, OF _ names] b owners
    by (simp add: s1_def s2_def noWorkers_def ttls)
  then have reach: "leaseReach ?n noWorkers s2" using leaseReach_trans r2 by blast
  have "shownLease ?n (lw_db s2) = Some (''b'', 15)"
    using lease_mutual_exclusion [OF reach, of "''b''" 15 "''b''" 15]
    by (simp add: s2_def s1_def noWorkers_def leasesOk_def emptyDb_def)
  with reach show ?thesis by (intro exI [of _ s2]) (simp add: s2_def s1_def noWorkers_def)
qed

end
