(* ===== verification/WorkerConfig.thy ===== *)
theory WorkerConfig
  imports BotRunner Contracts DemandSink
begin

section \<open>The worker's configuration\<close>

text \<open>
  \<open>apps/worker/src/config.ts\<close>: the environment variables of the worker, parsed with defaults,
  into the configuration of the loop, the stages, Redis and the queue. \<open>process.env\<close> is a map
  from names to strings. \<open>Number.parseInt\<close>, \<open>BigInt\<close> and \<open>split\<close> are written out for 8-bit
  strings; integers beyond 2^53 keep their precision.
\<close>

subsection \<open>Strings to numbers\<close>

definition isDigit :: "char \<Rightarrow> bool" where
  "isDigit c \<longleftrightarrow> 48 \<le> (of_char c :: nat) \<and> (of_char c :: nat) \<le> 57"

definition decimalValue :: "string \<Rightarrow> int" where
  "decimalValue ds = foldl (\<lambda>n c. 10 * n + (of_char c - 48)) 0 ds"

text \<open>A sign is taken off once.\<close>

definition unsigned :: "string \<Rightarrow> int \<times> string" where
  "unsigned s = (case s of [] \<Rightarrow> (1, [])
     | c # cs \<Rightarrow> if c = CHR ''-'' then (- 1, cs) else if c = CHR ''+'' then (1, cs) else (1, s))"

definition parseIntDecimal :: "string \<Rightarrow> jsnum" where
  "parseIntDecimal raw =
     (let (sign, rest) = unsigned (dropWhile isSpace raw);
          ds = takeWhile isDigit rest in
      if ds = [] then NonInt else IntN (sign * decimalValue ds))"

text \<open>\<open>BigInt(string)\<close>: white space around it, empty is 0, a signed decimal or an unsigned 0x, 0o, 0b.\<close>

definition lowerChar :: "char \<Rightarrow> char" where
  "lowerChar c = (let n = (of_char c :: nat) in if 65 \<le> n \<and> n \<le> 90 then char_of (n + 32) else c)"

definition toLowerCase :: "string \<Rightarrow> string" where
  "toLowerCase s = map lowerChar s"

definition hexValue :: "char \<Rightarrow> int" where
  "hexValue c = (let n = (of_char (lowerChar c) :: int) in if n \<le> 57 then n - 48 else n - 87)"

definition isHexDigit :: "char \<Rightarrow> bool" where
  "isHexDigit c \<longleftrightarrow> isDigit c \<or> 97 \<le> (of_char (lowerChar c) :: nat) \<and> (of_char (lowerChar c) :: nat) \<le> 102"

definition radixLiteral :: "int \<Rightarrow> string \<Rightarrow> int option" where
  "radixLiteral radix ds =
     (if ds = [] \<or> \<not> list_all (\<lambda>c. isHexDigit c \<and> hexValue c < radix) ds then None
      else Some (foldl (\<lambda>n c. radix * n + hexValue c) 0 ds))"

definition stringToBigInt :: "string \<Rightarrow> int option" where
  "stringToBigInt raw =
     (let s = trim raw in
      if s = [] then Some 0
      else
        let mark = toLowerCase (take 2 s) in
        if mark = ''0x'' then radixLiteral 16 (drop 2 s)
        else if mark = ''0o'' then radixLiteral 8 (drop 2 s)
        else if mark = ''0b'' then radixLiteral 2 (drop 2 s)
        else
          let (sign, ds) = unsigned s in
          if ds = [] \<or> \<not> list_all isDigit ds then None else Some (sign * decimalValue ds))"

fun splitOn :: "char \<Rightarrow> string \<Rightarrow> string list" where
  "splitOn sep [] = [[]]"
| "splitOn sep (c # cs) =
     (if c = sep then [] # splitOn sep cs
      else (case splitOn sep cs of [] \<Rightarrow> [[c]] | w # ws \<Rightarrow> (c # w) # ws))"

subsection \<open>One variable\<close>

type_synonym environ = "string \<Rightarrow> string option"

text \<open>\<open>!raw\<close>: the variable is missing or empty.\<close>

definition rawEnv :: "environ \<Rightarrow> string \<Rightarrow> string option" where
  "rawEnv environ name = (case environ name of None \<Rightarrow> None | Some raw \<Rightarrow> if raw = [] then None else Some raw)"

definition parseIntegerEnv :: "environ \<Rightarrow> string \<Rightarrow> int \<Rightarrow> int result" where
  "parseIntegerEnv environ name fallback =
     (case rawEnv environ name of
       None \<Rightarrow> Inr fallback
     | Some raw \<Rightarrow>
       (let parsed = parseIntDecimal raw in
        if \<not> isInteger parsed \<or> num parsed \<le> 0
        then Inl (PlainError (name @ '' must be a positive integer''))
        else Inr (num parsed)))"

definition parseNonNegativeIntegerEnv :: "environ \<Rightarrow> string \<Rightarrow> int \<Rightarrow> int result" where
  "parseNonNegativeIntegerEnv environ name fallback =
     (case rawEnv environ name of
       None \<Rightarrow> Inr fallback
     | Some raw \<Rightarrow>
       (let parsed = parseIntDecimal raw in
        if \<not> isInteger parsed \<or> num parsed < 0
        then Inl (PlainError (name @ '' must be a non-negative integer''))
        else Inr (num parsed)))"

definition parseBigIntEnv :: "environ \<Rightarrow> string \<Rightarrow> int \<Rightarrow> int result" where
  "parseBigIntEnv environ name fallback =
     (case rawEnv environ name of
       None \<Rightarrow> Inr fallback
     | Some raw \<Rightarrow>
       (case stringToBigInt raw of
         None \<Rightarrow> Inl (PlainError (''Cannot convert '' @ raw @ '' to a BigInt''))
       | Some parsed \<Rightarrow>
         if parsed \<le> 0 then Inl (PlainError (name @ '' must be greater than zero'')) else Inr parsed))"

definition parseStringEnv :: "environ \<Rightarrow> string \<Rightarrow> string \<Rightarrow> string" where
  "parseStringEnv environ name fallback =
     (case rawEnv environ name of
       None \<Rightarrow> fallback
     | Some raw \<Rightarrow> if trim raw \<noteq> [] then trim raw else fallback)"

definition parseOptionalStringEnv :: "environ \<Rightarrow> string \<Rightarrow> string option" where
  "parseOptionalStringEnv environ name =
     (case rawEnv environ name of
       None \<Rightarrow> None
     | Some raw \<Rightarrow> if trim raw \<noteq> [] then Some (trim raw) else None)"

definition parseBooleanEnv :: "environ \<Rightarrow> string \<Rightarrow> bool \<Rightarrow> bool result" where
  "parseBooleanEnv environ name fallback =
     (case rawEnv environ name of
       None \<Rightarrow> Inr fallback
     | Some raw \<Rightarrow>
       (let normalized = toLowerCase (trim raw) in
        if normalized = ''true'' \<or> normalized = ''1'' then Inr True
        else if normalized = ''false'' \<or> normalized = ''0'' then Inr False
        else Inl (PlainError (name @ '' must be true/false or 1/0''))))"

definition parseItemCodes :: "string option \<Rightarrow> string list option" where
  "parseItemCodes raw =
     (case raw of
       None \<Rightarrow> None
     | Some s \<Rightarrow>
       if s = [] then None
       else
         (let values = filter (\<lambda>entry. entry \<noteq> []) (map trim (splitOn (CHR '','') s)) in
          if values \<noteq> [] then Some values else None))"

datatype invariantPolicy = PolicyStop | PolicyPauseBots | PolicyLogOnly

definition parseInvariantPolicy :: "string option \<Rightarrow> invariantPolicy result" where
  "parseInvariantPolicy raw =
     (case raw of
       None \<Rightarrow> Inr PolicyStop
     | Some s \<Rightarrow>
       if s = [] then Inr PolicyStop
       else
         (let normalized = toLowerCase (trim s) in
          if normalized = ''stop'' then Inr PolicyStop
          else if normalized = ''pause_bots'' then Inr PolicyPauseBots
          else if normalized = ''log_only'' then Inr PolicyLogOnly
          else Inl (PlainError ''ON_INVARIANT_VIOLATION must be one of: stop, pause_bots, log_only'')))"

subsection \<open>The whole configuration\<close>

record workerConfig =
  wc_tickIntervalMs :: int
  wc_simulationSpeed :: int
  wc_maxTicksPerRun :: int
  wc_tickExecutionRetentionTicks :: int
  wc_tickExecutionCleanupEveryTicks :: int
  wc_invariantsCheckEveryTicks :: int
  wc_onInvariantViolation :: invariantPolicy
  wc_botConfig :: botRuntimeConfig
  wc_demandConfig :: demandSinkConfig
  wc_contractConfig :: contractLifecycleConfig

record redisConfig =
  rd_host :: string
  rd_port :: int
  rd_db :: int
  rd_username :: "string option"
  rd_password :: "string option"
  rd_tlsEnabled :: bool

record bullMqConfig =
  bq_prefix :: string
  bq_queueName :: string
  bq_schedulerId :: string
  bq_jobName :: string
  bq_schedulerEnabled :: bool
  bq_workerEnabled :: bool
  bq_workerConcurrency :: int
  bq_jobAttempts :: int
  bq_jobBackoffMs :: int
  bq_removeOnComplete :: int
  bq_removeOnFail :: int

record workerRuntimeConfig = workerConfig +
  wc_redis :: redisConfig
  wc_bullmq :: bullMqConfig

definition validateDeterministicBullMqConfig :: "bullMqConfig \<Rightarrow> unit result" where
  "validateDeterministicBullMqConfig bullmq =
     (if bq_workerEnabled bullmq \<and> bq_workerConcurrency bullmq \<noteq> 1
      then Inl (PlainError
        ''BULLMQ_WORKER_CONCURRENCY must be 1 to preserve deterministic globally serialized ticks'')
      else Inr ())"

text \<open>\<open>loadWorkerConfig\<close>, one definition per object it builds, in its order.\<close>

definition loadBotConfig :: "env \<Rightarrow> environ \<Rightarrow> botRuntimeConfig result" where
  "loadBotConfig E v =
     andThen (parseBooleanEnv v ''BOT_ENABLED'' True) (\<lambda>enabled.
     andThen (parseIntegerEnv v ''BOT_COUNT'' 25) (\<lambda>botCount.
     andThen (parseIntegerEnv v ''BOT_SPREAD_BPS'' 500) (\<lambda>spread.
     andThen (parseBigIntEnv v ''BOT_MAX_NOTIONAL_PER_TICK_CENTS'' 50000) (\<lambda>notional.
     andThen (parseIntegerEnv v ''BOT_PRODUCER_CADENCE_TICKS'' 3) (\<lambda>cadence.
     andThen (parseNonNegativeIntegerEnv v ''BOT_PRODUCER_MIN_PROFIT_BPS'' 0) (\<lambda>profit.
     Inr (resolveBotRuntimeConfig E
       \<lparr>ob_enabled = Some enabled, ob_botCount = Some botCount,
        ob_itemCodes = parseItemCodes (v ''BOT_ITEMS''), ob_spreadBps = Some spread,
        ob_maxNotionalPerTickCents = Some notional, ob_targetQuantityPerSide = None,
        ob_producerMaxJobsPerTick = None, ob_producerCadenceTicks = Some cadence,
        ob_producerMinProfitBps = Some (IntN profit)\<rparr>)))))))"

definition loadContractConfig :: "env \<Rightarrow> environ \<Rightarrow> contractLifecycleConfig result" where
  "loadContractConfig E v =
     andThen (parseNonNegativeIntegerEnv v ''CONTRACTS_PER_TICK'' 2) (\<lambda>perTick.
     andThen (parseIntegerEnv v ''CONTRACT_TTL_TICKS'' 50) (\<lambda>ttl.
     andThen (parseNonNegativeIntegerEnv v ''CONTRACT_PRICE_BAND_BPS'' 500) (\<lambda>band.
     resolveContractLifecycleConfig E
       \<lparr>oc_contractsPerTick = Some (IntN perTick), oc_ttlTicks = Some (IntN ttl),
        oc_itemCodes = parseItemCodes (v ''CONTRACT_ITEM_CODES''),
        oc_priceBandBps = Some (IntN band)\<rparr>)))"

definition loadDemandConfig :: "env \<Rightarrow> environ \<Rightarrow> demandSinkConfig result" where
  "loadDemandConfig E v =
     andThen (parseBooleanEnv v ''DEMAND_SINK_ENABLED'' True) (\<lambda>enabled.
     andThen (parseNonNegativeIntegerEnv v ''DEMAND_SINK_BASE_QUANTITY_PER_COMPANY'' 1) (\<lambda>base.
     andThen (parseNonNegativeIntegerEnv v ''DEMAND_SINK_VARIABILITY_QUANTITY'' 2) (\<lambda>variability.
     resolveDemandSinkConfig E
       \<lparr>od_enabled = Some enabled, od_itemCodes = parseItemCodes (v ''DEMAND_SINK_ITEMS''),
        od_baseQuantityPerCompany = Some (IntN base),
        od_variabilityQuantity = Some (IntN variability)\<rparr>)))"

definition loadRedisConfig :: "environ \<Rightarrow> redisConfig result" where
  "loadRedisConfig v =
     andThen (parseIntegerEnv v ''REDIS_PORT'' 6379) (\<lambda>port.
     andThen (parseNonNegativeIntegerEnv v ''REDIS_DB'' 0) (\<lambda>database.
     andThen (parseBooleanEnv v ''REDIS_TLS'' False) (\<lambda>tls.
     Inr \<lparr>rd_host = parseStringEnv v ''REDIS_HOST'' ''localhost'', rd_port = port, rd_db = database,
          rd_username = parseOptionalStringEnv v ''REDIS_USERNAME'',
          rd_password = parseOptionalStringEnv v ''REDIS_PASSWORD'', rd_tlsEnabled = tls\<rparr>)))"

definition loadBullMqConfig :: "environ \<Rightarrow> bullMqConfig result" where
  "loadBullMqConfig v =
     andThen (parseBooleanEnv v ''BULLMQ_SCHEDULER_ENABLED'' True) (\<lambda>scheduler.
     andThen (parseBooleanEnv v ''BULLMQ_WORKER_ENABLED'' True) (\<lambda>worker.
     andThen (parseIntegerEnv v ''BULLMQ_WORKER_CONCURRENCY'' 1) (\<lambda>concurrency.
     andThen (parseIntegerEnv v ''BULLMQ_JOB_ATTEMPTS'' 1) (\<lambda>attempts.
     andThen (parseNonNegativeIntegerEnv v ''BULLMQ_JOB_BACKOFF_MS'' 1000) (\<lambda>backoff.
     andThen (parseNonNegativeIntegerEnv v ''BULLMQ_REMOVE_ON_COMPLETE'' 500) (\<lambda>complete.
     andThen (parseNonNegativeIntegerEnv v ''BULLMQ_REMOVE_ON_FAIL'' 1000) (\<lambda>fail.
     Inr \<lparr>bq_prefix = parseStringEnv v ''BULLMQ_PREFIX'' ''corpsim'',
          bq_queueName = parseStringEnv v ''BULLMQ_QUEUE_NAME'' ''simulation.tick'',
          bq_schedulerId = parseStringEnv v ''BULLMQ_SCHEDULER_ID'' ''simulation-tick-scheduler'',
          bq_jobName = parseStringEnv v ''BULLMQ_JOB_NAME'' ''simulation.tick.process'',
          bq_schedulerEnabled = scheduler, bq_workerEnabled = worker,
          bq_workerConcurrency = concurrency, bq_jobAttempts = attempts, bq_jobBackoffMs = backoff,
          bq_removeOnComplete = complete, bq_removeOnFail = fail\<rparr>)))))))"

definition loadWorkerConfig :: "env \<Rightarrow> environ \<Rightarrow> workerRuntimeConfig result" where
  "loadWorkerConfig E v =
     andThen (loadBotConfig E v) (\<lambda>botConfig.
     andThen (loadContractConfig E v) (\<lambda>contractConfig.
     andThen (loadDemandConfig E v) (\<lambda>demandConfig.
     andThen (loadRedisConfig v) (\<lambda>redis.
     andThen (loadBullMqConfig v) (\<lambda>bullmq.
     andThen (validateDeterministicBullMqConfig bullmq) (\<lambda>_.
     andThen (parseIntegerEnv v ''TICK_INTERVAL_MS'' 60000) (\<lambda>interval.
     andThen (parseIntegerEnv v ''SIMULATION_SPEED'' 1) (\<lambda>speed.
     andThen (parseIntegerEnv v ''MAX_TICKS_PER_RUN'' 10) (\<lambda>maxTicks.
     andThen (parseNonNegativeIntegerEnv v ''TICK_EXECUTION_RETENTION_TICKS'' 100000) (\<lambda>retention.
     andThen (parseIntegerEnv v ''TICK_EXECUTION_CLEANUP_EVERY_TICKS'' 100) (\<lambda>cleanup.
     andThen (parseIntegerEnv v ''INVARIANTS_CHECK_EVERY_TICKS'' 10) (\<lambda>check.
     andThen (parseInvariantPolicy (v ''ON_INVARIANT_VIOLATION'')) (\<lambda>policy.
     Inr \<lparr>wc_tickIntervalMs = interval, wc_simulationSpeed = speed, wc_maxTicksPerRun = maxTicks,
          wc_tickExecutionRetentionTicks = retention, wc_tickExecutionCleanupEveryTicks = cleanup,
          wc_invariantsCheckEveryTicks = check, wc_onInvariantViolation = policy,
          wc_botConfig = botConfig, wc_demandConfig = demandConfig,
          wc_contractConfig = contractConfig, wc_redis = redis, wc_bullmq = bullmq\<rparr>)))))))))))))"

subsection \<open>Every accepted configuration is valid\<close>

definition stageConfigsOk :: "'a workerConfig_scheme \<Rightarrow> bool" where
  "stageConfigsOk c \<longleftrightarrow>
     0 < br_botCount (wc_botConfig c) \<and> 0 < br_spreadBps (wc_botConfig c) \<and>
     0 < br_maxNotionalPerTickCents (wc_botConfig c) \<and> 0 < br_producerCadenceTicks (wc_botConfig c) \<and>
     isInteger (br_producerMinProfitBps (wc_botConfig c)) \<and> 0 \<le> num (br_producerMinProfitBps (wc_botConfig c)) \<and>
     0 \<le> contractsPerTick (wc_contractConfig c) \<and> 0 < ttlTicks (wc_contractConfig c) \<and>
     0 \<le> priceBandBps (wc_contractConfig c) \<and>
     0 \<le> ds_baseQuantityPerCompany (wc_demandConfig c) \<and> 0 \<le> ds_variabilityQuantity (wc_demandConfig c)"

definition loopConfigOk :: "'a workerConfig_scheme \<Rightarrow> bool" where
  "loopConfigOk c \<longleftrightarrow>
     0 < wc_tickIntervalMs c \<and> 0 < wc_simulationSpeed c \<and> 0 < wc_maxTicksPerRun c \<and>
     0 \<le> wc_tickExecutionRetentionTicks c \<and> 0 < wc_tickExecutionCleanupEveryTicks c \<and>
     0 < wc_invariantsCheckEveryTicks c"

definition queueConfigOk :: "workerRuntimeConfig \<Rightarrow> bool" where
  "queueConfigOk c \<longleftrightarrow>
     (bq_workerEnabled (wc_bullmq c) \<longrightarrow> bq_workerConcurrency (wc_bullmq c) = 1) \<and>
     0 < bq_jobAttempts (wc_bullmq c) \<and> 0 \<le> bq_jobBackoffMs (wc_bullmq c) \<and>
     0 \<le> bq_removeOnComplete (wc_bullmq c) \<and> 0 \<le> bq_removeOnFail (wc_bullmq c) \<and>
     0 < rd_port (wc_redis c) \<and> 0 \<le> rd_db (wc_redis c)"

lemma parseIntegerEnv_pos: "parseIntegerEnv v n fb = Inr x \<Longrightarrow> 0 < fb \<Longrightarrow> 0 < x"
  by (auto simp: parseIntegerEnv_def Let_def split: option.splits if_splits)

lemma parseNonNegativeIntegerEnv_nonneg: "parseNonNegativeIntegerEnv v n fb = Inr x \<Longrightarrow> 0 \<le> fb \<Longrightarrow> 0 \<le> x"
  by (auto simp: parseNonNegativeIntegerEnv_def Let_def split: option.splits if_splits)

lemma parseBigIntEnv_pos: "parseBigIntEnv v n fb = Inr x \<Longrightarrow> 0 < fb \<Longrightarrow> 0 < x"
  by (auto simp: parseBigIntEnv_def split: option.splits if_splits)

lemmas env_bounds = parseIntegerEnv_pos parseNonNegativeIntegerEnv_nonneg parseBigIntEnv_pos

lemma loadBotConfig_ok:
  "loadBotConfig E v = Inr c \<Longrightarrow> 0 < br_botCount c \<and> 0 < br_spreadBps c \<and> 0 < br_maxNotionalPerTickCents c \<and>
     0 < br_producerCadenceTicks c \<and> isInteger (br_producerMinProfitBps c) \<and> 0 \<le> num (br_producerMinProfitBps c)"
  by (auto simp: loadBotConfig_def andThen_Inr_iff resolveBotRuntimeConfig_def orDefault_def dest: env_bounds)

lemma loadContractConfig_ok:
  "loadContractConfig E v = Inr c \<Longrightarrow> 0 \<le> contractsPerTick c \<and> 0 < ttlTicks c \<and> 0 \<le> priceBandBps c"
  by (auto simp: loadContractConfig_def andThen_Inr_iff resolveContractLifecycleConfig_def Let_def
      dest: env_bounds split: if_splits)

lemma loadDemandConfig_ok:
  "loadDemandConfig E v = Inr c \<Longrightarrow> 0 \<le> ds_baseQuantityPerCompany c \<and> 0 \<le> ds_variabilityQuantity c"
  by (auto simp: loadDemandConfig_def andThen_Inr_iff resolveDemandSinkConfig_def Let_def
      dest: env_bounds split: if_splits)

lemma loadRedisConfig_ok: "loadRedisConfig v = Inr c \<Longrightarrow> 0 < rd_port c \<and> 0 \<le> rd_db c"
  by (auto simp: loadRedisConfig_def andThen_Inr_iff dest: env_bounds)

lemma loadBullMqConfig_ok:
  "loadBullMqConfig v = Inr c \<Longrightarrow> 0 < bq_jobAttempts c \<and> 0 \<le> bq_jobBackoffMs c \<and>
     0 \<le> bq_removeOnComplete c \<and> 0 \<le> bq_removeOnFail c"
  by (auto simp: loadBullMqConfig_def andThen_Inr_iff dest: env_bounds)

text \<open>A number printed in decimal is read back.\<close>

lemma isDigit_digitChar: "n < 10 \<Longrightarrow> isDigit (digitChar n) \<and> of_char (digitChar n) = 48 + int n"
proof -
  assume "n < 10"
  then have "(of_char (digitChar n) :: nat) = 48 + n" by (simp add: digitChar_def take_bit_nat_eq_self)
  moreover from this have "(of_char (digitChar n) :: int) = int (48 + n)" by (metis of_nat_of_char)
  ultimately show ?thesis using \<open>n < 10\<close> by (simp add: isDigit_def)
qed

lemma decimalValue_snoc: "decimalValue (ds @ [c]) = 10 * decimalValue ds + (of_char c - 48)"
  by (simp add: decimalValue_def)

lemma showNat_digits: "showNat n \<noteq> [] \<and> list_all isDigit (showNat n) \<and> decimalValue (showNat n) = int n"
proof (induction n rule: less_induct)
  case (less n)
  show ?case
  proof (cases "n < 10")
    case True
    then show ?thesis using isDigit_digitChar [of n] by (subst (1 2 3) showNat.simps) (simp add: decimalValue_def)
  next
    case False
    then have "n div 10 < n" by simp
    moreover have "10 * int (n div 10) + int (n mod 10) = int n" by presburger
    ultimately show ?thesis using less [of "n div 10"] False isDigit_digitChar [of "n mod 10"]
      by (subst (1 2 3) showNat.simps) (simp add: decimalValue_snoc)
  qed
qed

lemma parseIntDecimal_showInt: "parseIntDecimal (showInt i) = IntN i"
proof -
  have step: "parseIntDecimal (showNat n) = IntN (int n)" for n
  proof -
    obtain c cs where s: "showNat n = c # cs" using showNat_digits [of n] by (cases "showNat n") auto
    have all: "list_all isDigit (c # cs)" and val: "decimalValue (c # cs) = int n"
      using showNat_digits [of n] s by simp_all
    then have c: "48 \<le> (of_char c :: nat)" "(of_char c :: nat) \<le> 57" by (simp_all add: isDigit_def)
    have space: "\<not> isSpace c" using c by (auto simp: isSpace_def)
    have sign: "c \<noteq> CHR ''-''" "c \<noteq> CHR ''+''" using c by auto
    have "takeWhile isDigit (c # cs) = c # cs"
      using all by (intro takeWhile_eq_all_conv [THEN iffD2]) (simp add: list_all_iff)
    then show ?thesis using val by (simp add: parseIntDecimal_def s space unsigned_def sign)
  qed
  show ?thesis
  proof (cases "i < 0")
    case True
    have minus: "\<not> isSpace (CHR ''-'')" by (simp add: isSpace_def)
    have "takeWhile isDigit (showNat (nat (- i))) = showNat (nat (- i))"
      using showNat_digits [of "nat (- i)"] by (intro takeWhile_eq_all_conv [THEN iffD2]) (simp add: list_all_iff)
    then show ?thesis using True showNat_digits [of "nat (- i)"]
      by (simp add: showInt_def parseIntDecimal_def unsigned_def minus Let_def del: takeWhile_eq_all_conv)
  next
    case False
    then show ?thesis using step [of "nat i"] by (simp add: showInt_def)
  qed
qed

lemma parseIntegerEnv_shown:
  "0 < i \<Longrightarrow> v n = Some (showInt i) \<Longrightarrow> parseIntegerEnv v n fb = Inr i"
proof -
  assume i: "0 < i" and v: "v n = Some (showInt i)"
  have "showInt i \<noteq> []" using showNat_digits [of "nat i"] i by (simp add: showInt_def)
  then show ?thesis using i v by (simp add: parseIntegerEnv_def rawEnv_def parseIntDecimal_showInt)
qed

text \<open>
  C24. Whatever the environment, a configuration the worker accepts is in range: every interval,
  speed, limit and cadence is positive, quantities and retentions are not negative, and with the
  processor enabled the queue runs one job at a time. A limit of ticks per run that was set to the
  decimal notation of a positive number is that number.
\<close>

theorem worker_config_valid:
  assumes "loadWorkerConfig E v = Inr c"
  shows "loopConfigOk c \<and> stageConfigsOk c \<and> queueConfigOk c \<and>
    (\<forall>i>0. v ''MAX_TICKS_PER_RUN'' = Some (showInt i) \<longrightarrow> wc_maxTicksPerRun c = i)"
proof -
  from assms obtain bot con dem red bq maxTicks retention cleanup check interval speed policy where
    parts: "loadBotConfig E v = Inr bot" "loadContractConfig E v = Inr con" "loadDemandConfig E v = Inr dem"
      "loadRedisConfig v = Inr red" "loadBullMqConfig v = Inr bq" "validateDeterministicBullMqConfig bq = Inr ()"
    and loop: "parseIntegerEnv v ''TICK_INTERVAL_MS'' 60000 = Inr interval"
      "parseIntegerEnv v ''SIMULATION_SPEED'' 1 = Inr speed"
      "parseIntegerEnv v ''MAX_TICKS_PER_RUN'' 10 = Inr maxTicks"
      "parseNonNegativeIntegerEnv v ''TICK_EXECUTION_RETENTION_TICKS'' 100000 = Inr retention"
      "parseIntegerEnv v ''TICK_EXECUTION_CLEANUP_EVERY_TICKS'' 100 = Inr cleanup"
      "parseIntegerEnv v ''INVARIANTS_CHECK_EVERY_TICKS'' 10 = Inr check"
    and c: "c = \<lparr>wc_tickIntervalMs = interval, wc_simulationSpeed = speed, wc_maxTicksPerRun = maxTicks,
          wc_tickExecutionRetentionTicks = retention, wc_tickExecutionCleanupEveryTicks = cleanup,
          wc_invariantsCheckEveryTicks = check, wc_onInvariantViolation = policy,
          wc_botConfig = bot, wc_demandConfig = dem,
          wc_contractConfig = con, wc_redis = red, wc_bullmq = bq\<rparr>"
    by (auto simp: loadWorkerConfig_def andThen_Inr_iff)
  have "loopConfigOk c" using loop by (auto simp: loopConfigOk_def c dest: env_bounds)
  moreover have "stageConfigsOk c"
    using loadBotConfig_ok [OF parts(1)] loadContractConfig_ok [OF parts(2)] loadDemandConfig_ok [OF parts(3)]
    by (simp add: stageConfigsOk_def c)
  moreover have "queueConfigOk c"
    using loadRedisConfig_ok [OF parts(4)] loadBullMqConfig_ok [OF parts(5)] parts(6)
    by (auto simp: queueConfigOk_def c validateDeterministicBullMqConfig_def split: if_splits)
  moreover have "wc_maxTicksPerRun c = i" if "0 < i" "v ''MAX_TICKS_PER_RUN'' = Some (showInt i)" for i
    using parseIntegerEnv_shown [OF that(1), of v "''MAX_TICKS_PER_RUN''" 10, OF that(2)] loop(3) by (simp add: c)
  ultimately show ?thesis by blast
qed

definition someEnviron :: environ where
  "someEnviron = [''MAX_TICKS_PER_RUN'' \<mapsto> ''5'', ''BOT_ITEMS'' \<mapsto> ''IRON_ORE, COAL,'',
     ''BOT_MAX_NOTIONAL_PER_TICK_CENTS'' \<mapsto> ''0x10'', ''REDIS_TLS'' \<mapsto> '' TRUE '']"

lemma someEnviron_loads:
  "case loadWorkerConfig fixtureEnv someEnviron of
     Inl _ \<Rightarrow> False
   | Inr c \<Rightarrow> br_itemCodes (wc_botConfig c) = [''COAL'', ''IRON_ORE''] \<and>
       br_maxNotionalPerTickCents (wc_botConfig c) = 16 \<and> rd_tlsEnabled (wc_redis c)"
  by code_simp

lemma worker_config_valid_witness:
  "\<exists>c. loadWorkerConfig fixtureEnv someEnviron = Inr c \<and> wc_maxTicksPerRun c = 5 \<and> loopConfigOk c \<and> queueConfigOk c"
proof -
  obtain c where c: "loadWorkerConfig fixtureEnv someEnviron = Inr c"
    using someEnviron_loads by (auto split: sum.splits)
  have "someEnviron ''MAX_TICKS_PER_RUN'' = Some (showInt 5)" by code_simp
  with worker_config_valid [OF c] c show ?thesis by auto
qed

text \<open>What the environment is refused for: a flag that is none, a concurrency other than one.\<close>

lemma bad_flag_refused:
  "loadWorkerConfig fixtureEnv [''BULLMQ_WORKER_ENABLED'' \<mapsto> ''not-a-bool''] =
     Inl (PlainError ''BULLMQ_WORKER_ENABLED must be true/false or 1/0'')"
  by code_simp

lemma concurrency_refused:
  "loadWorkerConfig fixtureEnv [''BULLMQ_WORKER_CONCURRENCY'' \<mapsto> ''2''] =
     Inl (PlainError
       ''BULLMQ_WORKER_CONCURRENCY must be 1 to preserve deterministic globally serialized ticks'')"
  by code_simp
end
