(* ===== verification/WorkerLoop.thy ===== *)
theory WorkerLoop
  imports TickEngine Lease WorkerConfig
begin

section \<open>The worker's loop\<close>

text \<open>
  \<open>apps/worker/src/worker-loop.ts\<close>: under the processor's lease a batch of ticks is advanced one
  transaction at a time, each retried on an optimistic lock conflict, with a look at the
  maintenance row before each, a clean-up of old execution records and the release of the lease at
  the end, whatever happened. Unlike the services a batch is not one transaction, so an error
  leaves the ticks already committed.

  The record \<open>workerEnv\<close> is what the loop meets outside itself: the answers to its queries of
  the maintenance row, what other clients have committed before an attempt of a tick, and the
  process id.
\<close>

record maintenanceRow =
  mt_enabled :: bool
  mt_scope :: string

record workerEnv =
  we_maintenance :: "nat \<Rightarrow> maintenanceRow option result"
  we_others :: "nat \<Rightarrow> int \<Rightarrow> db \<Rightarrow> db"
  we_pid :: int

record workerIterationOptions =
  wo_ticksOverride :: "jsnum option"
  wo_maxConflictRetries :: "int option"
  wo_initialBackoffMs :: "int option"
  wo_runBots :: "bool option"
  wo_executionKey :: "string option"
  wo_leaseName :: "string option"
  wo_leaseOwnerId :: "string option"
  wo_leaseTtlMs :: "jsnum option"

record workerIterationResult =
  wi_ticksAdvanced :: int
  wi_tickBefore :: int
  wi_tickAfter :: int
  wi_retries :: int

definition resolveTickBatchSize :: "'a workerConfig_scheme \<Rightarrow> jsnum option \<Rightarrow> int" where
  "resolveTickBatchSize config ticksOverride =
     (let requested = orDefault ticksOverride (IntN (wc_simulationSpeed config));
          safeRequested = (if isInteger requested \<and> num requested > 0 then num requested else 1) in
      min safeRequested (wc_maxTicksPerRun config))"

definition shouldCleanupTickExecutionRows :: "jsnum \<Rightarrow> int \<Rightarrow> int \<Rightarrow> bool" where
  "shouldCleanupTickExecutionRows endTick retentionTicks cleanupEveryTicks =
     (if retentionTicks \<le> 0 then False
      else if cleanupEveryTicks \<le> 0 then False
      else if \<not> isInteger endTick \<or> num endTick < 0 then False
      else num endTick mod cleanupEveryTicks = 0)"

text \<open>A failing query counts as not paused.\<close>

definition isSimulationPausedByMaintenance :: "maintenanceRow option result \<Rightarrow> bool" where
  "isSimulationPausedByMaintenance answer =
     (case answer of
       Inl _ \<Rightarrow> False
     | Inr None \<Rightarrow> False
     | Inr (Some state) \<Rightarrow> mt_enabled state \<and> mt_scope state = ''all'')"

fun isOptimisticLockConflict :: "error \<Rightarrow> bool" where
  "isOptimisticLockConflict (OptimisticLockConflictError _) = True"
| "isOptimisticLockConflict _ = False"

definition backoffMs :: "int \<Rightarrow> nat \<Rightarrow> int" where
  "backoffMs initialBackoffMs attempt = min 500 (initialBackoffMs * 2 ^ attempt)"

text \<open>
  The attempts of one tick; \<open>others\<close> runs before each. A resolved configuration is passed on as
  overrides that set every field.
\<close>

function runSingleTickWithRetries ::
    "env \<Rightarrow> (int \<Rightarrow> db \<Rightarrow> db) \<Rightarrow> advanceOptions \<Rightarrow> int \<Rightarrow> int \<Rightarrow> db \<Rightarrow>
     (bool \<times> int) result \<times> db" where
  "runSingleTickWithRetries E others options maxConflictRetries attempt d =
     (if attempt > maxConflictRetries
        then (Inl (PlainError ''single tick advance failed after conflict retries''), d)
      else
        (case advanceSimulationTick E options (others attempt d) of
          (Inr result, d') \<Rightarrow> (Inr (advanced result, attempt), d')
        | (Inl e, d') \<Rightarrow>
            if \<not> isOptimisticLockConflict e \<or> attempt \<ge> maxConflictRetries then (Inl e, d')
            else runSingleTickWithRetries E others options maxConflictRetries (attempt + 1) d'))"
  by pat_completeness auto

termination
  by (relation "measure (\<lambda>(_, _, _, maxConflictRetries, attempt, _). nat (maxConflictRetries + 1 - attempt))") auto

declare runSingleTickWithRetries.simps [simp del]

definition botOverridesOf :: "botRuntimeConfig \<Rightarrow> botOverrides" where
  "botOverridesOf c =
     \<lparr>ob_enabled = Some (br_enabled c), ob_botCount = Some (br_botCount c),
      ob_itemCodes = Some (br_itemCodes c), ob_spreadBps = Some (br_spreadBps c),
      ob_maxNotionalPerTickCents = Some (br_maxNotionalPerTickCents c),
      ob_targetQuantityPerSide = Some (br_targetQuantityPerSide c),
      ob_producerMaxJobsPerTick = Some (br_producerMaxJobsPerTick c),
      ob_producerCadenceTicks = Some (br_producerCadenceTicks c),
      ob_producerMinProfitBps = Some (br_producerMinProfitBps c)\<rparr>"

definition demandOverridesOf :: "demandSinkConfig \<Rightarrow> demandOverrides" where
  "demandOverridesOf c =
     \<lparr>od_enabled = Some (ds_enabled c), od_itemCodes = Some (ds_itemCodes c),
      od_baseQuantityPerCompany = Some (IntN (ds_baseQuantityPerCompany c)),
      od_variabilityQuantity = Some (IntN (ds_variabilityQuantity c))\<rparr>"

definition contractOverridesOf :: "contractLifecycleConfig \<Rightarrow> contractOverrides" where
  "contractOverridesOf c =
     \<lparr>oc_contractsPerTick = Some (IntN (contractsPerTick c)), oc_ttlTicks = Some (IntN (ttlTicks c)),
      oc_itemCodes = itemCodes c, oc_priceBandBps = Some (IntN (priceBandBps c))\<rparr>"

definition tickOptionsOf :: "'a workerConfig_scheme \<Rightarrow> bool \<Rightarrow> string option \<Rightarrow> advanceOptions" where
  "tickOptionsOf config runBots executionKey =
     \<lparr>ao_expectedLockVersion = None, ao_runBots = runBots,
      ao_botConfig = botOverridesOf (wc_botConfig config),
      ao_demandConfig = demandOverridesOf (wc_demandConfig config),
      ao_contractConfig = contractOverridesOf (wc_contractConfig config),
      ao_workforceConfig = id, ao_executionKey = executionKey\<rparr>"

definition tickKey :: "string option \<Rightarrow> nat \<Rightarrow> string option" where
  "tickKey executionKey tickIndex =
     map_option (\<lambda>key. key @ '':tick:'' @ showInt (int tickIndex)) executionKey"

text \<open>The loop over the batch: a pause ends it, an error leaves it.\<close>

function runBatch ::
    "env \<Rightarrow> workerEnv \<Rightarrow> (nat \<Rightarrow> advanceOptions) \<Rightarrow> int \<Rightarrow> int \<Rightarrow> nat \<Rightarrow> int \<times> int \<Rightarrow> db \<Rightarrow>
     (int \<times> int) result \<times> db" where
  "runBatch E W optionsAt maxRetries ticks tickIndex counts d =
     (if \<not> int tickIndex < ticks then (Inr counts, d)
      else if isSimulationPausedByMaintenance (we_maintenance W (Suc tickIndex)) then (Inr counts, d)
      else
        (case runSingleTickWithRetries E (we_others W tickIndex) (optionsAt tickIndex) maxRetries 0 d of
          (Inl e, d') \<Rightarrow> (Inl e, d')
        | (Inr (adv, retries), d') \<Rightarrow>
            runBatch E W optionsAt maxRetries ticks (Suc tickIndex)
              (if adv then fst counts + 1 else fst counts, snd counts + retries) d'))"
  by pat_completeness auto

termination
  by (relation "measure (\<lambda>(_, _, _, _, ticks, tickIndex, _, _). nat (ticks - int tickIndex))") auto

declare runBatch.simps [simp del]

definition cleanupTickExecutionRows :: "'a workerConfig_scheme \<Rightarrow> int \<Rightarrow> db \<Rightarrow> db" where
  "cleanupTickExecutionRows config endTick d =
     (if shouldCleanupTickExecutionRows (IntN endTick) (wc_tickExecutionRetentionTicks config)
          (wc_tickExecutionCleanupEveryTicks config)
      then
        (let minTickToKeep = max 0 (endTick - wc_tickExecutionRetentionTicks config + 1) in
         simulationTickExecutions_update (filter (\<lambda>r. \<not> te_tickAfter r < minTickToKeep)) d)
      else d)"

text \<open>What runs under the lease, and the iteration around it with its \<open>finally\<close>.\<close>

definition leasedBatch ::
    "env \<Rightarrow> workerEnv \<Rightarrow> 'a workerConfig_scheme \<Rightarrow> workerIterationOptions \<Rightarrow> db \<Rightarrow>
     workerIterationResult result \<times> db" where
  "leasedBatch E W config options d =
     (let ticks = resolveTickBatchSize config (wo_ticksOverride options);
          maxRetries = orDefault (wo_maxConflictRetries options) 4;
          runBots = orDefault (wo_runBots options) True;
          startTick = worldTick d in
      if isSimulationPausedByMaintenance (we_maintenance W 0)
        then (Inr \<lparr>wi_ticksAdvanced = 0, wi_tickBefore = startTick, wi_tickAfter = startTick,
                  wi_retries = 0\<rparr>, d)
      else
        (case runBatch E W (\<lambda>i. tickOptionsOf config runBots (tickKey (wo_executionKey options) i))
            maxRetries ticks 0 (0, 0) d of
          (Inl e, d') \<Rightarrow> (Inl e, d')
        | (Inr (ticksAdvanced, retries), d') \<Rightarrow>
            (let endTick = (case worldTickRow d' of None \<Rightarrow> startTick | Some w \<Rightarrow> ws_currentTick w) in
             (Inr \<lparr>wi_ticksAdvanced = ticksAdvanced, wi_tickBefore = startTick,
                   wi_tickAfter = endTick, wi_retries = retries\<rparr>,
              cleanupTickExecutionRows config endTick d'))))"

definition iterationLease :: "workerEnv \<Rightarrow> 'a workerConfig_scheme \<Rightarrow> workerIterationOptions \<Rightarrow> leaseInput" where
  "iterationLease W config options =
     \<lparr>lc_name = orDefault (wo_leaseName options) ''simulation.tick.processor'',
      lc_ownerId = orDefault (wo_leaseOwnerId options) (''worker:'' @ showInt (we_pid W)),
      lc_ttlMs = orDefault (wo_leaseTtlMs options) (IntN (max 120000 (wc_tickIntervalMs config * 2)))\<rparr>"

definition runWorkerIteration ::
    "env \<Rightarrow> workerEnv \<Rightarrow> 'a workerConfig_scheme \<Rightarrow> workerIterationOptions \<Rightarrow> db \<Rightarrow>
     workerIterationResult result \<times> db" where
  "runWorkerIteration E W config options d =
     (let lease = iterationLease W config options in
      (case acquireSimulationLease (currentTime E d) lease False d of
        Inl e \<Rightarrow> (Inl e, d)
      | Inr (False, d) \<Rightarrow>
          (Inl (PlainError (''global simulation lease is currently held (lease='' @ lc_name lease @ '')'')), d)
      | Inr (True, d) \<Rightarrow>
          (let (outcome, d) = leasedBatch E W config options d in
           (outcome, releaseSimulationLease (lc_name lease) (lc_ownerId lease) d))))"

subsection \<open>One tick and its attempts\<close>

text \<open>What a tick may do to the clock and to the execution records.\<close>

definition tickEffect :: "string option \<Rightarrow> bool \<Rightarrow> db \<Rightarrow> db \<Rightarrow> bool" where
  "tickEffect key adv d d' \<longleftrightarrow> tickOk d' \<and> worldTick d' = worldTick d + (if adv then 1 else 0) \<and>
     simulationTickExecutions d' = simulationTickExecutions d @ (if adv then executionOf key (worldTick d) else []) \<and>
     (knownKey key d \<longrightarrow> \<not> adv) \<and> (worldTickRow d' = None \<longrightarrow> worldTickRow d = None) \<and>
     controlRow d' = controlRow d \<and> (staffed d \<longrightarrow> staffed d')"

lemma advanceBody_row:
  assumes "advanceBody E options key d = Inr (res, d')"
  shows "worldTickRow d' \<noteq> None"
  using assms
proof (cases rule: advanceBody_Inr)
  case (2 d1 d2 d3)
  from finalizeTick_Inr [OF 2(11)] have "worldTickRow d3 \<noteq> None" by auto
  with recordExecution_Inr [OF 2(12)] show ?thesis by simp
qed simp

lemma tick_effect:
  assumes "advanceSimulationTick E options d = (r, d')" and "tickOk d"
  shows "case r of Inl e \<Rightarrow> d' = d
    | Inr res \<Rightarrow> \<exists>key. normalizeExecutionKey (ao_executionKey options) = Inr key \<and> tickEffect key (advanced res) d d'"
  using assms(1)
proof (cases rule: advanceSimulationTick_cases)
  case (2 key)
  with assms(2) show ?thesis by (simp add: tickEffect_def)
next
  case (3 key res)
  have "worldTick (started d) = worldTick d" by (simp add: worldTick_clock)
  with advanceBody_effect [OF 3(3) assms(2)] advanceBody_executions [OF 3(3) assms(2)] advanceBody_settings [OF 3(3) assms(2)]
    advanceBody_staffed [OF 3(3) assms(2)] advanceBody_row [OF 3(3)] 3
  have "tickEffect key (advanced res) d d'"
    by (auto simp: tickEffect_def worldTick_clock staffed_def split: if_splits)
  with 3 show ?thesis by auto
qed simp

text \<open>
  What the worker relies on: the other clients of the database keep the economy in order and leave the
  clock, the execution records and the control flags to the worker; they keep workforces in range.
  Theory \<open>WorldHistory\<close> shows which requests guarantee it; a start of research or a delivery of a
  contract that spends reserved cash does not.
\<close>

definition othersBehave :: "workerEnv \<Rightarrow> bool" where
  "othersBehave W \<longleftrightarrow> (\<forall>i a d. tickOk d \<longrightarrow> tickOk (we_others W i a d) \<and>
     worldTickRow (we_others W i a d) = worldTickRow d \<and>
     simulationTickExecutions (we_others W i a d) = simulationTickExecutions d \<and>
     controlRow (we_others W i a d) = controlRow d \<and>
     (staffed d \<longrightarrow> staffed (we_others W i a d)))"

lemma othersBehaveD:
  assumes "othersBehave W" and "tickOk d"
  shows "tickOk (we_others W i a d)" "worldTickRow (we_others W i a d) = worldTickRow d"
    "simulationTickExecutions (we_others W i a d) = simulationTickExecutions d"
    "worldTick (we_others W i a d) = worldTick d" "knownKey key (we_others W i a d) = knownKey key d"
    "controlRow (we_others W i a d) = controlRow d" "staffed d \<Longrightarrow> staffed (we_others W i a d)"
  using assms by (simp_all add: othersBehave_def worldTick_def knownKey_def)

lemma attempts_effect:
  assumes "runSingleTickWithRetries E (we_others W i) options maxRetries a d = (r, d')"
    and "tickOk d" and "othersBehave W"
  shows "case r of
      Inl e \<Rightarrow> tickOk d' \<and> worldTick d' = worldTick d \<and> worldTickRow d' = worldTickRow d \<and>
        simulationTickExecutions d' = simulationTickExecutions d \<and> controlRow d' = controlRow d \<and>
        (staffed d \<longrightarrow> staffed d')
    | Inr (adv, n) \<Rightarrow> a \<le> n \<and> n \<le> maxRetries \<and>
        (\<exists>key. normalizeExecutionKey (ao_executionKey options) = Inr key \<and> tickEffect key adv d d')"
  using assms(1,2)
proof (induction E "we_others W i" options maxRetries a d rule: runSingleTickWithRetries.induct)
  case (1 E options maxRetries a d)
  show ?case
  proof (cases "a > maxRetries")
    case True
    with 1(2,3) show ?thesis by (auto simp: runSingleTickWithRetries.simps [of _ _ _ _ a])
  next
    case False
    let ?e = "we_others W i a d"
    note e = othersBehaveD [OF assms(3) 1(3)]
    obtain r1 d1 where tick: "advanceSimulationTick E options ?e = (r1, d1)" by fastforce
    note eff = tick_effect [OF tick e(1)]
    show ?thesis
    proof (cases r1)
      case (Inr res)
      with 1(2) False tick have "r = Inr (advanced res, a)" "d' = d1"
        by (simp_all add: runSingleTickWithRetries.simps [of _ _ _ _ a])
      with eff Inr False e show ?thesis by (auto simp: tickEffect_def)
    next
      case (Inl err)
      then have d1: "d1 = ?e" using eff by simp
      show ?thesis
      proof (cases "\<not> isOptimisticLockConflict err \<or> a \<ge> maxRetries")
        case True
        with 1(2) False tick Inl have "r = Inl err" "d' = ?e"
          by (auto simp: runSingleTickWithRetries.simps [of _ _ _ _ a] d1)
        with e show ?thesis by simp
      next
        case more: False
        with 1(2) False tick Inl
        have "runSingleTickWithRetries E (we_others W i) options maxRetries (a + 1) ?e = (r, d')"
          by (simp add: runSingleTickWithRetries.simps [of _ _ _ _ a] d1)
        from 1(1) [OF False tick [symmetric] Inl more, unfolded d1, OF this e(1)]
        show ?thesis using e by (fastforce simp: tickEffect_def split: sum.splits)
      qed
    qed
  qed
qed

subsection \<open>The batch\<close>

text \<open>One round of the loop, or its end.\<close>

lemma runBatch_cases:
  assumes "runBatch E W optionsAt maxRetries ticks i counts d = (r, d')"
  obtains "r = Inr counts" "d' = d"
  | e where "int i < ticks" "r = Inl e"
      "runSingleTickWithRetries E (we_others W i) (optionsAt i) maxRetries 0 d = (Inl e, d')"
  | adv n d1 where "int i < ticks"
      "runSingleTickWithRetries E (we_others W i) (optionsAt i) maxRetries 0 d = (Inr (adv, n), d1)"
      "runBatch E W optionsAt maxRetries ticks (Suc i)
         (if adv then fst counts + 1 else fst counts, snd counts + n) d1 = (r, d')"
  using assms runBatch.simps [of E W optionsAt maxRetries ticks i counts d]
  by (auto split: if_splits prod.splits sum.splits)

lemma batch_effect:
  assumes "runBatch E W optionsAt maxRetries ticks i counts d = (r, d')" and "tickOk d" and "othersBehave W"
    and "int i \<le> ticks"
  shows "tickOk d' \<and> worldTick d \<le> worldTick d' \<and> (worldTickRow d' = None \<longrightarrow> worldTickRow d = None) \<and>
    controlRow d' = controlRow d \<and> (staffed d \<longrightarrow> staffed d') \<and>
    (\<exists>more. simulationTickExecutions d' = simulationTickExecutions d @ more \<and>
       (\<forall>x\<in>set more. worldTick d < te_tickAfter x)) \<and>
    (\<forall>n m. r = Inr (n, m) \<longrightarrow> n - fst counts = worldTick d' - worldTick d \<and>
       n - fst counts \<le> ticks - int i \<and>
       snd counts \<le> m \<and> m - snd counts \<le> (ticks - int i) * max 0 maxRetries)"
  using assms(1,2,4)
proof (induction "nat (ticks - int i)" arbitrary: i counts d rule: less_induct)
  case less
  from less.prems(1) show ?case
  proof (cases rule: runBatch_cases)
    case 1
    with less.prems show ?thesis by auto
  next
    case (2 e)
    from attempts_effect [OF 2(3) less.prems(2) assms(3)] 2(2) show ?thesis by auto
  next
    case (3 adv n d1)
    from attempts_effect [OF 3(2) less.prems(2) assms(3)] obtain key where
      n: "0 \<le> n" "n \<le> maxRetries" and eff: "tickEffect key adv d d1" by auto
    let ?counts = "(if adv then fst counts + 1 else fst counts, snd counts + n)"
    from eff have ok1: "tickOk d1" and t1: "worldTick d1 = worldTick d + (if adv then 1 else 0)"
      and x1: "simulationTickExecutions d1 = simulationTickExecutions d @ (if adv then executionOf key (worldTick d) else [])"
      by (simp_all add: tickEffect_def)
    have smaller: "nat (ticks - int (Suc i)) < nat (ticks - int i)" "int (Suc i) \<le> ticks" using 3(1) by simp_all
    note ih = less.hyps [OF smaller(1) 3(3) ok1 smaller(2)]
    then obtain more where more: "simulationTickExecutions d' = simulationTickExecutions d1 @ more"
      "\<forall>x\<in>set more. worldTick d1 < te_tickAfter x" by blast
    let ?new = "(if adv then executionOf key (worldTick d) else []) @ more"
    have "\<forall>x\<in>set ?new. worldTick d < te_tickAfter x"
      using more(2) t1 by (auto simp: executionOf_def split: option.splits if_splits)
    with more(1) x1 have records: "\<exists>more. simulationTickExecutions d' = simulationTickExecutions d @ more \<and>
        (\<forall>x\<in>set more. worldTick d < te_tickAfter x)" by (intro exI [of _ ?new]) simp
    have one: "(ticks - int (Suc i)) * max 0 maxRetries + max 0 maxRetries = (ticks - int i) * max 0 maxRetries"
      by (simp add: algebra_simps)
    have counts: "\<forall>n m. r = Inr (n, m) \<longrightarrow> n - fst counts = worldTick d' - worldTick d \<and>
       n - fst counts \<le> ticks - int i \<and> snd counts \<le> m \<and> m - snd counts \<le> (ticks - int i) * max 0 maxRetries"
    proof (intro allI impI)
      fix n' m assume r: "r = Inr (n', m)"
      from ih r have *: "n' - fst ?counts = worldTick d' - worldTick d1" "n' - fst ?counts \<le> ticks - int (Suc i)"
        "snd counts + n \<le> m" "m - (snd counts + n) \<le> (ticks - int (Suc i)) * max 0 maxRetries" by simp_all
      from *(3,4) one n have "snd counts \<le> m \<and> m - snd counts \<le> (ticks - int i) * max 0 maxRetries" by linarith
      moreover have "n' - fst counts = worldTick d' - worldTick d \<and> n' - fst counts \<le> ticks - int i"
        using *(1,2) t1 by (cases adv) simp_all
      ultimately show "n' - fst counts = worldTick d' - worldTick d \<and> n' - fst counts \<le> ticks - int i \<and>
        snd counts \<le> m \<and> m - snd counts \<le> (ticks - int i) * max 0 maxRetries" by blast
    qed
    have "worldTick d \<le> worldTick d1" using t1 by simp
    moreover have "tickOk d'" "worldTick d1 \<le> worldTick d'" "worldTickRow d' = None \<longrightarrow> worldTickRow d = None"
      "controlRow d' = controlRow d" "staffed d \<longrightarrow> staffed d'"
      using ih eff unfolding tickEffect_def by (blast, blast, blast, metis, blast)
    ultimately show ?thesis using records counts by (meson order_trans)
  qed
qed

text \<open>A batch whose keys are all recorded advances nothing and writes no record.\<close>

definition keyAt :: "(nat \<Rightarrow> advanceOptions) \<Rightarrow> nat \<Rightarrow> db \<Rightarrow> bool" where
  "keyAt optionsAt j d \<longleftrightarrow> (\<exists>key. normalizeExecutionKey (ao_executionKey (optionsAt j)) = Inr key \<and> knownKey key d)"

lemma batch_known:
  assumes "runBatch E W optionsAt maxRetries ticks i counts d = (Inr (n, m), d')" and "tickOk d" and "othersBehave W"
    and "\<forall>j. int j < ticks \<longrightarrow> keyAt optionsAt j d"
  shows "n = fst counts \<and> worldTick d' = worldTick d \<and> simulationTickExecutions d' = simulationTickExecutions d"
  using assms(1,2,4)
proof (induction "nat (ticks - int i)" arbitrary: i counts d rule: less_induct)
  case less
  from less.prems(1) show ?case
  proof (cases rule: runBatch_cases)
    case (3 adv n' d1)
    from attempts_effect [OF 3(2) less.prems(2) assms(3)] obtain key where
      key: "normalizeExecutionKey (ao_executionKey (optionsAt i)) = Inr key" and eff: "tickEffect key adv d d1" by auto
    have "keyAt optionsAt i d" using less.prems(3) 3(1) by blast
    with key eff have adv: "\<not> adv" by (auto simp: keyAt_def tickEffect_def)
    with eff have d1: "tickOk d1" "worldTick d1 = worldTick d"
      "simulationTickExecutions d1 = simulationTickExecutions d" by (simp_all add: tickEffect_def)
    have "\<forall>j. int j < ticks \<longrightarrow> keyAt optionsAt j d1"
      using less.prems(3) d1(3) by (simp add: keyAt_def knownKey_def)
    from less.hyps [OF _ 3(3) d1(1) this] 3(1) adv d1 show ?thesis by simp
  qed auto
qed

text \<open>A batch that advanced every tick has recorded every key, with a tick after the first.\<close>

lemma batch_full:
  assumes "runBatch E W optionsAt maxRetries ticks i counts d = (Inr (n, m), d')" and "tickOk d" and "othersBehave W"
    and "int i \<le> ticks" and "n - fst counts = ticks - int i" and "i \<le> j" and "int j < ticks"
    and "normalizeExecutionKey (ao_executionKey (optionsAt j)) = Inr (Some k)"
  shows "\<exists>x\<in>set (simulationTickExecutions d'). te_executionKey x = k \<and> worldTick d < te_tickAfter x"
  using assms(1,2,4-7)
proof (induction "nat (ticks - int i)" arbitrary: i counts d rule: less_induct)
  case less
  from less.prems(1) show ?case
  proof (cases rule: runBatch_cases)
    case 1
    then have "fst counts = n" by (metis fst_conv sum.inject(2))
    with less.prems(3-6) show ?thesis by simp
  next
    case (2 e)
    then show ?thesis by simp
  next
    case (3 adv n' d1)
    from attempts_effect [OF 3(2) less.prems(2) assms(3)] obtain key where
      key: "normalizeExecutionKey (ao_executionKey (optionsAt i)) = Inr key" and eff: "tickEffect key adv d d1" by auto
    have ok1: "tickOk d1" using eff by (simp add: tickEffect_def)
    have next_le: "int (Suc i) \<le> ticks" using 3(1) by simp
    note rest = batch_effect [OF 3(3) ok1 assms(3) next_le]
    have "n - fst (if adv then fst counts + 1 else fst counts, snd counts + n') \<le> ticks - int (Suc i)"
      using rest by blast
    with less.prems(4) have adv: adv by (cases adv) simp_all
    show ?thesis
    proof (cases "i = j")
      case True
      then have "key = Some k" using key assms(8) by simp
      then have "\<exists>x\<in>set (simulationTickExecutions d1). te_executionKey x = k \<and> worldTick d < te_tickAfter x"
        using eff adv by (simp add: tickEffect_def executionOf_def)
      with rest show ?thesis by auto
    next
      case False
      from 3(3) adv have run: "runBatch E W optionsAt maxRetries ticks (Suc i) (fst counts + 1, snd counts + n') d1 = (Inr (n, m), d')"
        by simp
      have "\<exists>x\<in>set (simulationTickExecutions d'). te_executionKey x = k \<and> worldTick d1 < te_tickAfter x"
        by (rule less.hyps [OF _ run ok1 next_le]) (use 3(1) less.prems(4-6) False in simp_all)
      then show ?thesis using eff adv by (auto simp: tickEffect_def)
    qed
  qed
qed

subsection \<open>The iteration\<close>

text \<open>The lease's statements touch nothing but the table of leases.\<close>

definition leaseOnly :: "db \<Rightarrow> db \<Rightarrow> bool" where
  "leaseOnly d d' \<longleftrightarrow> d' = d\<lparr>simulationLeases := simulationLeases d', db_seq := db_seq d'\<rparr>"

lemma leaseOnlyD:
  assumes "leaseOnly d d'"
  shows "worldTickRow d' = worldTickRow d" "simulationTickExecutions d' = simulationTickExecutions d"
    "worldTick d' = worldTick d" "tickOk d \<Longrightarrow> tickOk d'" "controlRow d' = controlRow d"
    "staffed d' = staffed d"
proof -
  obtain rows n where d': "d' = d\<lparr>simulationLeases := rows, db_seq := n\<rparr>"
    using assms unfolding leaseOnly_def by blast
  show "worldTickRow d' = worldTickRow d" "simulationTickExecutions d' = simulationTickExecutions d"
    "worldTick d' = worldTick d" "controlRow d' = controlRow d" "staffed d' = staffed d"
    by (simp_all add: d' worldTick_def staffed_def)
  show "tickOk d'" if "tickOk d" by (rule tickOk_same [OF that]) (simp_all add: d')
qed

lemma leaseOnly_refl: "leaseOnly d d"
  by (simp add: leaseOnly_def)

lemma leaseOnly_trans:
  assumes "leaseOnly d e" and "leaseOnly e f"
  shows "leaseOnly d f"
proof -
  from assms obtain r1 n1 r2 n2 where "e = d\<lparr>simulationLeases := r1, db_seq := n1\<rparr>"
    "f = e\<lparr>simulationLeases := r2, db_seq := n2\<rparr>" unfolding leaseOnly_def by blast
  then have "f = d\<lparr>simulationLeases := r2, db_seq := n2\<rparr>" by simp
  then show ?thesis by (simp add: leaseOnly_def)
qed

lemma takeLease_only: "takeLease l w re now e d = (b, d') \<Longrightarrow> leaseOnly d d'"
  by (auto simp: takeLease_def leaseOnly_def)

lemma insertLease_only: "insertLease l w e d = (b, d') \<Longrightarrow> leaseOnly d d'"
  by (auto simp: insertLease_def createRow_def leaseOnly_def split: option.splits)

lemma release_only: "leaseOnly d (releaseSimulationLease name owner d)"
  by (simp add: leaseOnly_def releaseSimulationLease_def deleteLease_def)

lemma acquire_only:
  assumes "acquireSimulationLease now input re d = Inr (b, d')"
  shows "leaseOnly d d'"
proof -
  let ?n = "trim (lc_name input)" and ?w = "trim (lc_ownerId input)" and ?e = "now + num (lc_ttlMs input)"
  obtain taken d1 where take: "takeLease ?n ?w re now ?e d = (taken, d1)" by fastforce
  obtain c d2 where ins: "insertLease ?n ?w ?e d1 = (c, d2)" by fastforce
  have "d' = d1 \<or> d' = d2" using assms take ins
    by (auto simp: acquireSimulationLease_def andThen_Inr_iff split: if_splits)
  with takeLease_only [OF take] leaseOnly_trans [OF takeLease_only [OF take] insertLease_only [OF ins]]
  show ?thesis by blast
qed

lemma released: "shownLease (trim name) (releaseSimulationLease name owner d) \<noteq> Some (trim owner, e)"
  by (auto simp: shownLease_def releaseSimulationLease_def deleteLease_def dest: rowFind_Some)

lemma batchSize_bounds:
  "0 < wc_maxTicksPerRun config \<Longrightarrow> 0 < resolveTickBatchSize config n \<and> resolveTickBatchSize config n \<le> wc_maxTicksPerRun config"
  by (simp add: resolveTickBatchSize_def Let_def)

lemma cleanup_same:
  "worldTickRow (cleanupTickExecutionRows config t d) = worldTickRow d"
  "tickOk d \<Longrightarrow> tickOk (cleanupTickExecutionRows config t d)"
  "controlRow (cleanupTickExecutionRows config t d) = controlRow d"
  "staffed (cleanupTickExecutionRows config t d) = staffed d"
  by (simp_all add: staffed_def cleanupTickExecutionRows_def Let_def tickOk_same)

text \<open>What the batch under the lease answers.\<close>

lemma leasedBatch_effect:
  assumes "leasedBatch E W config options d = (r, d')" and "tickOk d" and "othersBehave W"
    and "0 < wc_maxTicksPerRun config"
  shows "tickOk d' \<and> worldTick d \<le> worldTick d' \<and> controlRow d' = controlRow d \<and> (staffed d \<longrightarrow> staffed d') \<and>
    (case r of Inl e \<Rightarrow> True
     | Inr res \<Rightarrow> wi_tickBefore res = worldTick d \<and> wi_tickAfter res = worldTick d' \<and>
         wi_ticksAdvanced res = worldTick d' - worldTick d \<and>
         wi_ticksAdvanced res \<le> resolveTickBatchSize config (wo_ticksOverride options) \<and> 0 \<le> wi_retries res \<and>
         wi_retries res \<le> resolveTickBatchSize config (wo_ticksOverride options) *
           max 0 (orDefault (wo_maxConflictRetries options) 4))"
proof (cases "isSimulationPausedByMaintenance (we_maintenance W 0)")
  case True
  with assms(1,2) batchSize_bounds [OF assms(4), of "wo_ticksOverride options"] show ?thesis
    by (auto simp: leasedBatch_def Let_def)
next
  case False
  let ?ticks = "resolveTickBatchSize config (wo_ticksOverride options)"
  obtain r1 d1 where run: "runBatch E W (\<lambda>i. tickOptionsOf config (orDefault (wo_runBots options) True)
      (tickKey (wo_executionKey options) i)) (orDefault (wo_maxConflictRetries options) 4) ?ticks 0 (0, 0) d = (r1, d1)"
    by fastforce
  have "int 0 \<le> ?ticks" using batchSize_bounds [OF assms(4), of "wo_ticksOverride options"] by simp
  note eff = batch_effect [OF run assms(2,3) this]
  show ?thesis
  proof (cases r1)
    case (Inl e)
    with assms(1) False run have "r = Inl e" "d' = d1" by (auto simp: leasedBatch_def Let_def)
    with eff show ?thesis by simp
  next
    case (Inr nm)
    obtain n m where nm: "nm = (n, m)" by fastforce
    have last: "(case worldTickRow d1 of None \<Rightarrow> worldTick d | Some w \<Rightarrow> ws_currentTick w) = worldTick d1"
      using eff by (auto simp: worldTick_def split: option.splits)
    with assms(1) False run Inr nm
    have r: "r = Inr \<lparr>wi_ticksAdvanced = n, wi_tickBefore = worldTick d, wi_tickAfter = worldTick d1, wi_retries = m\<rparr>"
      "d' = cleanupTickExecutionRows config (worldTick d1) d1"
      by (auto simp: leasedBatch_def Let_def)
    from eff Inr nm have "n = worldTick d1 - worldTick d" "n \<le> ?ticks" "0 \<le> m"
      "m \<le> ?ticks * max 0 (orDefault (wo_maxConflictRetries options) 4)" by simp_all
    moreover have "tickOk d'" "worldTick d' = worldTick d1" "controlRow d' = controlRow d1" "staffed d' = staffed d1"
      using eff by (simp_all add: r(2) worldTick_def cleanup_same)
    ultimately show ?thesis using eff by (simp add: r(1))
  qed
qed

text \<open>An iteration either changes nothing, or runs the batch under the lease and releases it.\<close>

lemma iteration_cases:
  assumes "runWorkerIteration E W config options d = (r, d')"
  defines "lease \<equiv> iterationLease W config options"
  obtains e where "r = Inl e" "leaseOnly d d'"
  | d1 d2 where "leaseOnly d d1" "leasedBatch E W config options d1 = (r, d2)"
      "d' = releaseSimulationLease (lc_name lease) (lc_ownerId lease) d2"
proof (cases "acquireSimulationLease (currentTime E d) lease False d")
  case (Inl e)
  with assms show thesis by (intro that(1) [of e]) (simp_all add: runWorkerIteration_def leaseOnly_refl Let_def)
next
  case (Inr bd)
  then obtain b d1 where acq: "acquireSimulationLease (currentTime E d) lease False d = Inr (b, d1)"
    by (cases bd) auto
  note only = acquire_only [OF acq]
  obtain r2 d2 where batch: "leasedBatch E W config options d1 = (r2, d2)" by fastforce
  show thesis
  proof (cases b)
    case True
    with assms acq batch have "r = r2" "d' = releaseSimulationLease (lc_name lease) (lc_ownerId lease) d2"
      by (simp_all add: runWorkerIteration_def Let_def)
    with only batch show thesis by (intro that(2)) simp_all
  next
    case False
    with assms acq have "d' = d1" "\<exists>e. r = Inl e" by (auto simp: runWorkerIteration_def Let_def)
    with only show thesis using that(1) by blast
  qed
qed

text \<open>
  C7. One iteration of the worker. Whatever the other clients do and however the batch ends, also when
  its first tick throws: an iteration that got the lease does not keep it, and one that did not get it
  is refused and touches no table but that of the leases. When the other clients commit only what keeps
  the economy's invariant and leaves the clock to the worker (\<open>othersBehave\<close>), the invariant holds
  afterwards, and an answer reports the tick found, the tick reached and their difference as the ticks
  advanced, at most the batch asked for and the configured limit, after at most the allowed retries.
\<close>

theorem worker_iteration_sound:
  assumes "runWorkerIteration E W config options d = (r, d')" and "0 < wc_maxTicksPerRun config"
  shows "(if \<exists>d1. acquireSimulationLease (currentTime E d) (iterationLease W config options) False d = Inr (True, d1)
      then \<forall>e. shownLease (trim (lc_name (iterationLease W config options))) d' \<noteq>
        Some (trim (lc_ownerId (iterationLease W config options)), e)
      else \<not> returns r \<and> d' = d\<lparr>simulationLeases := simulationLeases d', db_seq := db_seq d'\<rparr>) \<and>
    (tickOk d \<and> othersBehave W \<longrightarrow> tickOk d' \<and> worldTick d \<le> worldTick d' \<and>
      (case r of
         Inl _ \<Rightarrow> True
       | Inr res \<Rightarrow> wi_tickBefore res = worldTick d \<and> wi_tickAfter res = worldTick d' \<and>
           wi_ticksAdvanced res = worldTick d' - worldTick d \<and>
           wi_ticksAdvanced res \<le> resolveTickBatchSize config (wo_ticksOverride options) \<and>
           wi_ticksAdvanced res \<le> wc_maxTicksPerRun config \<and> 0 \<le> wi_retries res \<and>
           wi_retries res \<le> resolveTickBatchSize config (wo_ticksOverride options) *
             max 0 (orDefault (wo_maxConflictRetries options) 4)))"
proof -
  let ?lease = "iterationLease W config options"
  let ?got = "\<exists>d1. acquireSimulationLease (currentTime E d) ?lease False d = Inr (True, d1)"
  have lease: "if ?got then \<forall>e. shownLease (trim (lc_name ?lease)) d' \<noteq> Some (trim (lc_ownerId ?lease), e)
      else \<not> returns r \<and> leaseOnly d d'"
  proof (cases "acquireSimulationLease (currentTime E d) ?lease False d")
    case (Inl e)
    then show ?thesis using assms(1) by (auto simp: runWorkerIteration_def returns_iff leaseOnly_refl)
  next
    case (Inr p)
    then obtain b d1 where acq: "acquireSimulationLease (currentTime E d) ?lease False d = Inr (b, d1)"
      by (cases p) auto
    show ?thesis
    proof (cases b)
      case True
      then obtain r2 d2 where "d' = releaseSimulationLease (lc_name ?lease) (lc_ownerId ?lease) d2"
        using assms(1) acq by (auto simp: runWorkerIteration_def Let_def case_prod_unfold)
      then show ?thesis using acq True by (simp add: released)
    next
      case False
      then show ?thesis using assms(1) acq acquire_only [OF acq] by (auto simp: runWorkerIteration_def returns_iff)
    qed
  qed
  have ticks: "tickOk d' \<and> worldTick d \<le> worldTick d' \<and>
      (case r of
         Inl _ \<Rightarrow> True
       | Inr res \<Rightarrow> wi_tickBefore res = worldTick d \<and> wi_tickAfter res = worldTick d' \<and>
           wi_ticksAdvanced res = worldTick d' - worldTick d \<and>
           wi_ticksAdvanced res \<le> resolveTickBatchSize config (wo_ticksOverride options) \<and>
           wi_ticksAdvanced res \<le> wc_maxTicksPerRun config \<and> 0 \<le> wi_retries res \<and>
           wi_retries res \<le> resolveTickBatchSize config (wo_ticksOverride options) *
             max 0 (orDefault (wo_maxConflictRetries options) 4))" if ok: "tickOk d" "othersBehave W"
    using assms(1)
  proof (cases rule: iteration_cases)
    case (1 e)
    with leaseOnlyD [OF 1(2)] ok(1) show ?thesis by simp
  next
    case (2 d1 d2)
    note first = leaseOnlyD [OF 2(1)]
    note eff = leasedBatch_effect [OF 2(2) first(4) [OF ok(1)] ok(2) assms(2)]
    have rel: "tickOk d' \<longleftrightarrow> tickOk d2" "worldTick d' = worldTick d2"
      using leaseOnlyD [OF release_only] 2(3) eff by auto
    have "wi_ticksAdvanced res \<le> wc_maxTicksPerRun config" if "r = Inr res" for res
      using eff that batchSize_bounds [OF assms(2), of "wo_ticksOverride options"] by fastforce
    then show ?thesis using eff rel first by (cases r) simp_all
  qed
  from lease ticks show ?thesis by (simp only: leaseOnly_def) blast
qed

text \<open>The key of a tick is never blank, so every tick of a keyed batch has one.\<close>

lemma trim_blank: "trim s = [] \<longleftrightarrow> (\<forall>c\<in>set s. isSpace c)"
proof -
  have "trim s = [] \<longleftrightarrow> (\<forall>c\<in>set (dropWhile isSpace s). isSpace c)"
    by (simp add: trim_def dropWhile_eq_Nil_conv)
  also have "\<dots> \<longleftrightarrow> dropWhile isSpace s = []"
    by (metis hd_dropWhile list.set_sel(1) empty_iff empty_set)
  finally show ?thesis by (simp add: dropWhile_eq_Nil_conv)
qed

lemma tickKey_normal:
  "\<exists>k. normalizeExecutionKey (ao_executionKey (tickOptionsOf config runBots (tickKey (Some key) i))) = Inr (Some k)"
proof -
  have "trim (key @ '':tick:'' @ showInt (int i)) \<noteq> []"
    unfolding trim_blank by (simp add: isSpace_def)
  then show ?thesis by (simp add: normalizeExecutionKey_def tickOptionsOf_def tickKey_def)
qed

text \<open>
  C8. A redelivered job does nothing: after an iteration that advanced its whole batch under an
  execution key, another iteration with that key and batch advances no tick, leaves the clock where
  it is and needs no record the clean-up could have removed, as long as records are kept for at
  least as many ticks as a batch has.
\<close>

theorem job_redelivery_idempotent:
  assumes "runWorkerIteration E W config options d = (Inr res, d1)" and "tickOk d" and "othersBehave W"
    and "0 < wc_maxTicksPerRun config" and "wo_executionKey options = Some key"
    and "wi_ticksAdvanced res = resolveTickBatchSize config (wo_ticksOverride options)"
    and "wi_ticksAdvanced res \<le> wc_tickExecutionRetentionTicks config" and "0 \<le> worldTick d"
    and "runWorkerIteration E W' config options d1 = (Inr res', d2)" and "othersBehave W'"
  shows "wi_ticksAdvanced res' = 0 \<and> wi_tickBefore res' = worldTick d1 \<and> wi_tickAfter res' = worldTick d1 \<and>
    worldTick d2 = worldTick d1"
proof -
  let ?ticks = "resolveTickBatchSize config (wo_ticksOverride options)"
  let ?at = "\<lambda>i. tickOptionsOf config (orDefault (wo_runBots options) True) (tickKey (wo_executionKey options) i)"
  let ?max = "orDefault (wo_maxConflictRetries options) 4"
  have ticks: "0 < ?ticks" using batchSize_bounds [OF assms(4)] by simp
  obtain a b where first: "leaseOnly d a" "leasedBatch E W config options a = (Inr res, b)"
      "d1 = releaseSimulationLease (lc_name (iterationLease W config options)) (lc_ownerId (iterationLease W config options)) b"
    using assms(1) by (cases rule: iteration_cases) auto
  have oka: "tickOk a" using leaseOnlyD(4) [OF first(1) assms(2)] .
  have running: "\<not> isSimulationPausedByMaintenance (we_maintenance W 0)"
    using first(2) assms(6) ticks by (auto simp: leasedBatch_def Let_def)
  obtain n m b1 where run: "runBatch E W ?at ?max ?ticks 0 (0, 0) a = (Inr (n, m), b1)"
    and res: "wi_ticksAdvanced res = n" and b: "b = cleanupTickExecutionRows config (wi_tickAfter res) b1"
    using first(2) running by (auto simp: leasedBatch_def Let_def split: prod.splits sum.splits)
  have last: "wi_tickAfter res = worldTick a + n"
    using leasedBatch_effect [OF first(2) oka assms(3,4)] res by simp
  have keys: "keyAt ?at j d1" if "int j < ?ticks" for j
  proof -
    obtain k where k: "normalizeExecutionKey (ao_executionKey (?at j)) = Inr (Some k)"
      using tickKey_normal [of config "orDefault (wo_runBots options) True" key j] assms(5) by auto
    have "\<exists>x\<in>set (simulationTickExecutions b1). te_executionKey x = k \<and> worldTick a < te_tickAfter x"
      by (rule batch_full [OF run oka assms(3), of j]) (use ticks res assms(6) that k in simp_all)
    then obtain x where x: "x \<in> set (simulationTickExecutions b1)" "te_executionKey x = k" "worldTick a < te_tickAfter x"
      by blast
    have "worldTick a = worldTick d" using leaseOnlyD(3) [OF first(1)] .
    then have "\<not> te_tickAfter x < max 0 (wi_tickAfter res - wc_tickExecutionRetentionTicks config + 1)"
      using x(3) last res assms(7,8) by linarith
    then have "x \<in> set (simulationTickExecutions b)"
      using x(1) by (simp add: b cleanupTickExecutionRows_def Let_def)
    then have "knownKey (Some k) d1" using x(2) leaseOnlyD(2) [OF release_only] first(3)
      by (auto simp: knownKey_def)
    with k show ?thesis by (auto simp: keyAt_def)
  qed
  obtain a' b' where second: "leaseOnly d1 a'" "leasedBatch E W' config options a' = (Inr res', b')"
      "d2 = releaseSimulationLease (lc_name (iterationLease W' config options)) (lc_ownerId (iterationLease W' config options)) b'"
    using assms(9) by (cases rule: iteration_cases) auto
  have ok1: "tickOk d1"
    using leasedBatch_effect [OF first(2) oka assms(3,4)] leaseOnlyD(4) [OF release_only] first(3) by auto
  have oka': "tickOk a'" using leaseOnlyD(4) [OF second(1) ok1] .
  have "\<forall>j. int j < ?ticks \<longrightarrow> keyAt ?at j a'"
    using keys leaseOnlyD(2) [OF second(1)] by (auto simp: keyAt_def knownKey_def)
  note again = leasedBatch_effect [OF second(2) oka' assms(10,4)]
  have "wi_ticksAdvanced res' = 0"
  proof (cases "isSimulationPausedByMaintenance (we_maintenance W' 0)")
    case True
    with second(2) show ?thesis by (auto simp: leasedBatch_def Let_def)
  next
    case False
    then obtain n' m' b2 where run': "runBatch E W' ?at ?max ?ticks 0 (0, 0) a' = (Inr (n', m'), b2)"
      and "wi_ticksAdvanced res' = n'"
      using second(2) by (auto simp: leasedBatch_def Let_def split: prod.splits sum.splits)
    with batch_known [OF run' oka' assms(10)] \<open>\<forall>j. int j < ?ticks \<longrightarrow> keyAt ?at j a'\<close> show ?thesis by simp
  qed
  with again leaseOnlyD(3) [OF second(1)] leaseOnlyD(3) [OF release_only] second(3) show ?thesis by simp
qed

subsection \<open>The properties at a concrete world\<close>

definition quietWorker :: workerEnv where
  "quietWorker = \<lparr>we_maintenance = (\<lambda>_. Inr None), we_others = (\<lambda>_ _ d. d), we_pid = 42\<rparr>"

definition smallConfig :: workerConfig where
  "smallConfig = \<lparr>wc_tickIntervalMs = 60000, wc_simulationSpeed = 2, wc_maxTicksPerRun = 1,
     wc_tickExecutionRetentionTicks = 3, wc_tickExecutionCleanupEveryTicks = 1,
     wc_invariantsCheckEveryTicks = 1, wc_onInvariantViolation = PolicyStop,
     wc_botConfig = DEFAULT_BOT_RUNTIME_CONFIG, wc_demandConfig = DEFAULT_DEMAND_SINK_CONFIG,
     wc_contractConfig = DEFAULT_CONTRACT_LIFECYCLE_CONFIG\<rparr>"

definition jobOptions :: workerIterationOptions where
  "jobOptions = \<lparr>wo_ticksOverride = None, wo_maxConflictRetries = None, wo_initialBackoffMs = None,
     wo_runBots = Some False, wo_executionKey = Some ''corpsim:simulation.tick:7'', wo_leaseName = None,
     wo_leaseOwnerId = None, wo_leaseTtlMs = None\<rparr>"

lemma quiet_behaves: "othersBehave quietWorker"
  by (simp add: othersBehave_def quietWorker_def)

lemma small_batch: "resolveTickBatchSize smallConfig (wo_ticksOverride jobOptions) = 1"
  by code_simp

lemma fixture_iterations:
  "case runWorkerIteration fixtureEnv quietWorker smallConfig jobOptions fixtureDb of
     (Inl _, _) \<Rightarrow> False
   | (Inr res, d1) \<Rightarrow> wi_ticksAdvanced res = 1 \<and>
       (case runWorkerIteration fixtureEnv quietWorker smallConfig jobOptions d1 of
          (Inl _, _) \<Rightarrow> False | (Inr _, _) \<Rightarrow> True)"
  by code_simp

lemma fixture_runs:
  obtains res d1 res' d2 where
    "runWorkerIteration fixtureEnv quietWorker smallConfig jobOptions fixtureDb = (Inr res, d1)" "wi_ticksAdvanced res = 1"
    "runWorkerIteration fixtureEnv quietWorker smallConfig jobOptions d1 = (Inr res', d2)"
  using fixture_iterations by (auto split: prod.splits sum.splits)

theorem worker_iteration_sound_witness:
  "\<exists>res d'. runWorkerIteration fixtureEnv quietWorker smallConfig jobOptions fixtureDb = (Inr res, d') \<and>
     wi_tickBefore res = 7 \<and> worldTick d' = 8 \<and> tickOk d'"
proof -
  obtain res d1 res' d2 where
    *: "runWorkerIteration fixtureEnv quietWorker smallConfig jobOptions fixtureDb = (Inr res, d1)" "wi_ticksAdvanced res = 1"
    using fixture_runs .
  have "worldTick fixtureDb = 7" by code_simp
  with worker_iteration_sound [OF *(1)] fixture_tickOk quiet_behaves * show ?thesis by (auto simp: smallConfig_def)
qed

theorem job_redelivery_idempotent_witness:
  "\<exists>res d1 res' d2. runWorkerIteration fixtureEnv quietWorker smallConfig jobOptions fixtureDb = (Inr res, d1) \<and>
     runWorkerIteration fixtureEnv quietWorker smallConfig jobOptions d1 = (Inr res', d2) \<and>
     wi_ticksAdvanced res = 1 \<and> wi_ticksAdvanced res' = 0 \<and> worldTick d2 = worldTick d1"
proof -
  obtain res d1 res' d2 where
    *: "runWorkerIteration fixtureEnv quietWorker smallConfig jobOptions fixtureDb = (Inr res, d1)" "wi_ticksAdvanced res = 1"
      "runWorkerIteration fixtureEnv quietWorker smallConfig jobOptions d1 = (Inr res', d2)"
    using fixture_runs .
  have "worldTick fixtureDb = 7" by code_simp
  with job_redelivery_idempotent [OF *(1) fixture_tickOk quiet_behaves _ _ _ _ _ *(3) quiet_behaves,
      of "''corpsim:simulation.tick:7''"] * small_batch
  show ?thesis by (auto simp: smallConfig_def jobOptions_def)
qed

end
