(* ===== verification/WorkerRuntime.thy ===== *)
theory WorkerRuntime
  imports WorkerLoop Invariants
begin

section \<open>The worker's runtime and its control flags\<close>

text \<open>
  \<open>apps/worker/src/simulation-control.ts\<close> and \<open>queue-runtime.ts\<close>: the persisted flags that pause
  the bots or stop the processing, the job handler that obeys them, runs an iteration, scans the
  invariants when a check is due and acts on a violation, and the scheduler's lease at the start
  and the end of a process. The queue itself is BullMQ; of a job the handler reads the id, the key
  of its repetition and the number of ticks. The heartbeat of the scheduler is the call
  \<open>renewScheduler\<close>.
\<close>

definition ensureSimulationControlState :: "db \<Rightarrow> simulationControlState \<times> db" where
  "ensureSimulationControlState d =
     (case controlRow d of
       Some state \<Rightarrow> (state, d)
     | None \<Rightarrow>
       (let state = \<lparr>sc_botsPaused = False, sc_processingStopped = False,
              sc_lastInvariantViolationTick = None, sc_lastInvariantViolationAt = None\<rparr> in
        (state, d\<lparr>controlRow := Some state\<rparr>)))"

definition pauseBotsAfterInvariantViolation :: "env \<Rightarrow> int \<Rightarrow> db \<Rightarrow> db" where
  "pauseBotsAfterInvariantViolation E tick d =
     d\<lparr>controlRow := Some (case controlRow d of
       None \<Rightarrow> \<lparr>sc_botsPaused = True, sc_processingStopped = False,
         sc_lastInvariantViolationTick = Some tick,
         sc_lastInvariantViolationAt = Some (currentTime E d)\<rparr>
     | Some state \<Rightarrow> state\<lparr>sc_botsPaused := True, sc_lastInvariantViolationTick := Some tick,
         sc_lastInvariantViolationAt := Some (currentTime E d)\<rparr>)\<rparr>"

definition stopSimulationAfterInvariantViolation :: "env \<Rightarrow> int \<Rightarrow> db \<Rightarrow> db" where
  "stopSimulationAfterInvariantViolation E tick d =
     d\<lparr>controlRow := Some (case controlRow d of
       None \<Rightarrow> \<lparr>sc_botsPaused = True, sc_processingStopped = True,
         sc_lastInvariantViolationTick = Some tick,
         sc_lastInvariantViolationAt = Some (currentTime E d)\<rparr>
     | Some state \<Rightarrow> state\<lparr>sc_botsPaused := True, sc_processingStopped := True,
         sc_lastInvariantViolationTick := Some tick,
         sc_lastInvariantViolationAt := Some (currentTime E d)\<rparr>)\<rparr>"

subsection \<open>A job\<close>

record tickJob =
  tj_id :: "string option"
  tj_repeatJobKey :: "string option"
  tj_ticksOverride :: "jsnum option"

definition PROCESSOR_LEASE_NAME :: string where
  "PROCESSOR_LEASE_NAME = ''simulation.tick.processor''"

definition SCHEDULER_LEASE_NAME :: string where
  "SCHEDULER_LEASE_NAME = ''simulation.tick.scheduler''"

definition resolveJobExecutionKey :: "workerRuntimeConfig \<Rightarrow> tickJob \<Rightarrow> string option" where
  "resolveJobExecutionKey config job =
     map_option (\<lambda>keyPart. bq_prefix (wc_bullmq config) @ '':'' @ bq_queueName (wc_bullmq config) @ '':'' @ keyPart)
       (case tj_id job of Some i \<Rightarrow> Some i | None \<Rightarrow> tj_repeatJobKey job)"

definition shouldRunInvariantCheck :: "int \<Rightarrow> int \<Rightarrow> int \<Rightarrow> bool" where
  "shouldRunInvariantCheck previousTick currentTick everyTicks =
     (if everyTicks \<le> 0 \<or> currentTick \<le> previousTick then False
      else previousTick div everyTicks < currentTick div everyTicks \<or> currentTick mod everyTicks = 0)"

definition jobIterationOptions ::
    "workerRuntimeConfig \<Rightarrow> string \<Rightarrow> tickJob \<Rightarrow> simulationControlState \<Rightarrow> workerIterationOptions" where
  "jobIterationOptions config instanceId job state =
     \<lparr>wo_ticksOverride = tj_ticksOverride job, wo_maxConflictRetries = None, wo_initialBackoffMs = None,
      wo_runBots = Some (\<not> sc_botsPaused state), wo_executionKey = resolveJobExecutionKey config job,
      wo_leaseName = Some PROCESSOR_LEASE_NAME, wo_leaseOwnerId = Some instanceId,
      wo_leaseTtlMs = Some (IntN (max (wc_tickIntervalMs config * 2) 120000))\<rparr>"

text \<open>What a violation leads to, by the configured policy; the flag says the worker paused itself.\<close>

definition applyViolationPolicy ::
    "env \<Rightarrow> workerRuntimeConfig \<Rightarrow> int \<Rightarrow> db \<Rightarrow> bool \<times> db" where
  "applyViolationPolicy E config tick d =
     (case wc_onInvariantViolation config of
       PolicyPauseBots \<Rightarrow> (False, pauseBotsAfterInvariantViolation E tick d)
     | PolicyStop \<Rightarrow> (True, stopSimulationAfterInvariantViolation E tick d)
     | PolicyLogOnly \<Rightarrow> (False, d))"

definition processTickJob ::
    "env \<Rightarrow> workerEnv \<Rightarrow> workerRuntimeConfig \<Rightarrow> string \<Rightarrow> bool \<Rightarrow> tickJob \<Rightarrow> db \<Rightarrow>
     bool result \<times> db" where
  "processTickJob E W config instanceId shuttingDown job d =
     (if shuttingDown then (Inr False, d)
      else
        (let (state, d) = ensureSimulationControlState d in
         if sc_processingStopped state then (Inr False, d)
         else
           (case runWorkerIteration E W config (jobIterationOptions config instanceId job state) d of
             (Inl e, d) \<Rightarrow> (Inl e, d)
           | (Inr res, d) \<Rightarrow>
               if \<not> shouldRunInvariantCheck (wi_tickBefore res) (wi_tickAfter res)
                      (wc_invariantsCheckEveryTicks config)
                 then (Inr False, d)
               else if \<not> hasViolations (scanSimulationInvariants E (Some (IntN 20)) d) then (Inr False, d)
               else
                 (let (pausedSelf, d) = applyViolationPolicy E config (wi_tickAfter res) d in
                  (Inr pausedSelf, d)))))"

subsection \<open>Start and stop of a process\<close>

text \<open>
  \<open>startQueueRuntime\<close> as far as the database goes: it answers whether this process holds the
  scheduler's lease.
\<close>

definition schedulerLease :: "workerRuntimeConfig \<Rightarrow> string \<Rightarrow> leaseInput" where
  "schedulerLease config instanceId =
     \<lparr>lc_name = SCHEDULER_LEASE_NAME, lc_ownerId = instanceId,
      lc_ttlMs = IntN (max (wc_tickIntervalMs config * 5) 300000)\<rparr>"

definition renewScheduler :: "int \<Rightarrow> workerRuntimeConfig \<Rightarrow> string \<Rightarrow> db \<Rightarrow> (bool \<times> db) result" where
  "renewScheduler now config instanceId d =
     acquireSimulationLease now (schedulerLease config instanceId) True d"

definition startQueueRuntime ::
    "env \<Rightarrow> workerRuntimeConfig \<Rightarrow> string \<Rightarrow> db \<Rightarrow> bool result \<times> db" where
  "startQueueRuntime E config instanceId d =
     (if \<not> bq_schedulerEnabled (wc_bullmq config) \<and> \<not> bq_workerEnabled (wc_bullmq config)
        then (Inl (PlainError ''Both BULLMQ_SCHEDULER_ENABLED and BULLMQ_WORKER_ENABLED are false''), d)
      else
        (let (_, d) = ensureSimulationControlState d in
         if bq_schedulerEnabled (wc_bullmq config) then
           (case renewScheduler (currentTime E d) config instanceId d of
             Inl e \<Rightarrow> (Inl e, d)
           | Inr (schedulerLeaseHeld, d) \<Rightarrow>
               if \<not> schedulerLeaseHeld \<and> \<not> bq_workerEnabled (wc_bullmq config)
                 then (Inl (PlainError ''scheduler authority lease is held by another worker instance''), d)
               else (Inr schedulerLeaseHeld, d))
         else (Inr False, d)))"

definition stopQueueRuntime :: "string \<Rightarrow> bool \<Rightarrow> db \<Rightarrow> db" where
  "stopQueueRuntime instanceId schedulerLeaseHeld d =
     (if schedulerLeaseHeld then releaseSimulationLease SCHEDULER_LEASE_NAME instanceId d else d)"

definition buildDefaultJobOptions :: "workerRuntimeConfig \<Rightarrow> int \<times> int \<times> int \<times> (string \<times> int) option" where
  "buildDefaultJobOptions config =
     (let b = wc_bullmq config in
      (bq_jobAttempts b, bq_removeOnComplete b, bq_removeOnFail b,
       if bq_jobAttempts b > 1 \<and> bq_jobBackoffMs b > 0 then Some (''fixed'', bq_jobBackoffMs b) else None))"

subsection \<open>Checks\<close>

text \<open>A check runs exactly when a multiple of the interval was passed.\<close>

lemma shouldRunInvariantCheck_iff:
  "shouldRunInvariantCheck p c e \<longleftrightarrow> 0 < e \<and> (\<exists>t. p < t \<and> t \<le> c \<and> e dvd t)"
proof (cases "0 < e \<and> p < c")
  case True
  then have e: "0 < e" and pc: "p < c" by simp_all
  have "p div e < c div e \<longleftrightarrow> (\<exists>t. p < t \<and> t \<le> c \<and> e dvd t)"
  proof
    assume less: "p div e < c div e"
    have "p < e * (c div e)"
    proof -
      have "e * (p div e) + p mod e = p" by (rule mult_div_mod_eq)
      moreover have "p mod e < e" using e by simp
      moreover have "e * (p div e) + e \<le> e * (c div e)"
        using mult_left_mono [of "p div e + 1" "c div e" e] less e by (simp add: distrib_left)
      ultimately show ?thesis by linarith
    qed
    moreover have "e * (c div e) \<le> c" using mult_div_mod_eq [of e c] e pos_mod_sign [of e c] by linarith
    ultimately show "\<exists>t. p < t \<and> t \<le> c \<and> e dvd t" by (intro exI [of _ "e * (c div e)"]) simp
  next
    assume "\<exists>t. p < t \<and> t \<le> c \<and> e dvd t"
    then obtain k where k: "p < e * k" "e * k \<le> c" by (auto elim: dvdE)
    have "p div e < k"
    proof (rule ccontr)
      assume "\<not> p div e < k"
      then have "e * k \<le> e * (p div e)" using e by simp
      moreover have "e * (p div e) \<le> p" using mult_div_mod_eq [of e p] e pos_mod_sign [of e p] by linarith
      ultimately show False using k(1) by linarith
    qed
    moreover have "k \<le> c div e" using k(2) e zdiv_mono1 [OF k(2) e] by simp
    ultimately show "p div e < c div e" by simp
  qed
  moreover have "c mod e = 0 \<Longrightarrow> \<exists>t. p < t \<and> t \<le> c \<and> e dvd t" using pc by (intro exI [of _ c]) auto
  ultimately show ?thesis using True by (auto simp: shouldRunInvariantCheck_def)
next
  case False
  then show ?thesis by (auto simp: shouldRunInvariantCheck_def)
qed

lemma iteration_settings:
  assumes "runWorkerIteration E W config options d = (r, d')" and "tickOk d" and "othersBehave W"
    and "0 < wc_maxTicksPerRun config"
  shows "tickOk d' \<and> controlRow d' = controlRow d \<and> worldTick d \<le> worldTick d' \<and> (staffed d \<longrightarrow> staffed d') \<and>
    (\<forall>res. r = Inr res \<longrightarrow> wi_tickBefore res = worldTick d \<and> wi_tickAfter res = worldTick d')"
  using assms(1)
proof (cases rule: iteration_cases)
  case (1 e)
  with leaseOnlyD [OF 1(2)] assms(2) show ?thesis by simp
next
  case (2 d1 d2)
  note first = leaseOnlyD [OF 2(1)]
  note eff = leasedBatch_effect [OF 2(2) first(4) [OF assms(2)] assms(3,4)]
  have "tickOk d'" "controlRow d' = controlRow d2" "worldTick d' = worldTick d2" "staffed d' = staffed d2"
    using leaseOnlyD [OF release_only] 2(3) eff by auto
  with eff first show ?thesis by (cases r) simp_all
qed

definition controlOf :: "db \<Rightarrow> simulationControlState" where
  "controlOf d = fst (ensureSimulationControlState d)"

lemma columns_iff: "workforceStateOk (workforceState c) \<Longrightarrow> workforceColumnsOk c"
  by (auto simp: workforceStateOk_def workforceState_def workforceColumnsOk_def allocationsInRange_def allocationSum_def)

text \<open>An alarm is due: the ticks advanced passed a check and the scan finds a violation.\<close>

definition alarm :: "env \<Rightarrow> workerRuntimeConfig \<Rightarrow> workerIterationResult \<Rightarrow> db \<Rightarrow> bool" where
  "alarm E config res d \<longleftrightarrow>
     (\<exists>t. wi_tickBefore res < t \<and> t \<le> wi_tickAfter res \<and> wc_invariantsCheckEveryTicks config dvd t) \<and>
     hasViolations (scanSimulationInvariants E (Some (IntN 20)) d)"

lemma job_after_iteration:
  assumes "\<not> sc_processingStopped (controlOf d)" and "0 < wc_invariantsCheckEveryTicks config"
    and "runWorkerIteration E W config (jobIterationOptions config instanceId job (controlOf d))
       (snd (ensureSimulationControlState d)) = (Inr res, d2)"
  shows "processTickJob E W config instanceId False job d =
    (if alarm E config res d2
     then (let (b, d') = applyViolationPolicy E config (wi_tickAfter res) d2 in (Inr b, d'))
     else (Inr False, d2))"
  using assms
  by (auto simp: processTickJob_def controlOf_def alarm_def shouldRunInvariantCheck_iff case_prod_unfold)

lemma stopped_job:
  "sc_processingStopped (controlOf d) \<Longrightarrow> controlRow d \<noteq> None \<Longrightarrow>
     processTickJob E W config instanceId shuttingDown job d = (Inr False, d)"
  by (auto simp: processTickJob_def controlOf_def ensureSimulationControlState_def)

text \<open>Without bots the configuration of the bots is never read.\<close>

lemma tick_without_bots:
  assumes "\<not> ao_runBots options"
  shows "advanceSimulationTick E (options\<lparr>ao_botConfig := b\<rparr>) d = advanceSimulationTick E options d"
proof -
  have pipeline: "runTickPipeline E n (options\<lparr>ao_botConfig := b\<rparr>) = runTickPipeline E n options" for n
    using assms by (intro ext) (simp add: runTickPipeline_def)
  have body: "advanceBody E (options\<lparr>ao_botConfig := b\<rparr>) key = advanceBody E options key" for key
    unfolding advanceBody_def [abs_def] pipeline by simp
  show ?thesis unfolding advanceSimulationTick_def body by simp
qed

lemma retries_cong:
  assumes "\<And>d. advanceSimulationTick E o1 d = advanceSimulationTick E o2 d"
  shows "runSingleTickWithRetries E others o1 m a d = runSingleTickWithRetries E others o2 m a d"
proof (induction "nat (m + 1 - a)" arbitrary: a d rule: less_induct)
  case less
  have rest: "runSingleTickWithRetries E others o1 m (a + 1) e = runSingleTickWithRetries E others o2 m (a + 1) e"
    if "\<not> m < a" for e
    using less that by simp
  show ?case
    by (subst (1 2) runSingleTickWithRetries.simps) (simp add: assms rest split: prod.splits sum.splits)
qed

lemma batch_cong:
  assumes "\<And>i d. advanceSimulationTick E (f i) d = advanceSimulationTick E (g i) d"
  shows "runBatch E W f m ticks i counts d = runBatch E W g m ticks i counts d"
proof (induction "nat (ticks - int i)" arbitrary: i counts d rule: less_induct)
  case less
  have rest: "runBatch E W f m ticks (Suc i) c e = runBatch E W g m ticks (Suc i) c e" if "int i < ticks" for c e
    using less that by simp
  show ?case
    by (subst (1 2) runBatch.simps)
      (simp add: retries_cong [OF assms] rest split: prod.splits sum.splits)
qed

lemma iteration_without_bots:
  assumes "wo_runBots options = Some False"
  shows "runWorkerIteration E W (config\<lparr>wc_botConfig := b\<rparr>) options d = runWorkerIteration E W config options d"
proof -
  have "advanceSimulationTick E (tickOptionsOf (config\<lparr>wc_botConfig := b\<rparr>) False k) d =
      advanceSimulationTick E (tickOptionsOf config False k) d" for k d
  proof -
    have "tickOptionsOf (config\<lparr>wc_botConfig := b\<rparr>) False k = (tickOptionsOf config False k)\<lparr>ao_botConfig := botOverridesOf b\<rparr>"
      by (simp add: tickOptionsOf_def)
    moreover have "\<not> ao_runBots (tickOptionsOf config False k)" by (simp add: tickOptionsOf_def)
    ultimately show ?thesis using tick_without_bots by metis
  qed
  then have batch: "runBatch E W (\<lambda>i. tickOptionsOf (config\<lparr>wc_botConfig := b\<rparr>) False (tickKey k i)) m ticks n counts e =
      runBatch E W (\<lambda>i. tickOptionsOf config False (tickKey k i)) m ticks n counts e" for k m ticks n counts e
    by (rule batch_cong)
  have same: "resolveTickBatchSize (config\<lparr>wc_botConfig := b\<rparr>) n = resolveTickBatchSize config n"
    "cleanupTickExecutionRows (config\<lparr>wc_botConfig := b\<rparr>) t e = cleanupTickExecutionRows config t e"
    "iterationLease W (config\<lparr>wc_botConfig := b\<rparr>) options = iterationLease W config options" for n t e
    by (simp_all add: resolveTickBatchSize_def cleanupTickExecutionRows_def iterationLease_def)
  have off: "orDefault (wo_runBots options) True = False" using assms by (simp add: orDefault_def)
  have leased: "leasedBatch E W (config\<lparr>wc_botConfig := b\<rparr>) options e = leasedBatch E W config options e" for e
    unfolding leasedBatch_def Let_def same off batch ..
  show ?thesis unfolding runWorkerIteration_def same leased ..
qed

lemma controlOf_row: "controlRow d' = controlRow d \<Longrightarrow> controlOf d' = controlOf d"
  by (simp add: controlOf_def ensureSimulationControlState_def Let_def split: option.splits)

lemma paused_job:
  assumes "sc_botsPaused (controlOf d)"
  shows "wo_runBots (jobIterationOptions config instanceId job (controlOf d)) = Some False"
    and "processTickJob E W (config\<lparr>wc_botConfig := b\<rparr>) instanceId shuttingDown job d =
      processTickJob E W config instanceId shuttingDown job d"
proof -
  show *: "wo_runBots (jobIterationOptions config instanceId job (controlOf d)) = Some False" for config
    using assms by (simp add: jobIterationOptions_def)
  have opts: "jobIterationOptions (config\<lparr>wc_botConfig := b\<rparr>) instanceId job state =
      jobIterationOptions config instanceId job state" for state
    by (simp add: jobIterationOptions_def resolveJobExecutionKey_def)
  have policy: "applyViolationPolicy E (config\<lparr>wc_botConfig := b\<rparr>) t e = applyViolationPolicy E config t e" for t e
    by (simp add: applyViolationPolicy_def)
  have iteration: "runWorkerIteration E W (config\<lparr>wc_botConfig := b\<rparr>)
        (jobIterationOptions config instanceId job (fst (ensureSimulationControlState d))) e =
      runWorkerIteration E W config (jobIterationOptions config instanceId job (fst (ensureSimulationControlState d))) e"
    for e using iteration_without_bots [OF * [of config]] by (simp add: controlOf_def)
  have interval: "wc_invariantsCheckEveryTicks (config\<lparr>wc_botConfig := b\<rparr>) = wc_invariantsCheckEveryTicks config"
    by simp
  show "processTickJob E W (config\<lparr>wc_botConfig := b\<rparr>) instanceId shuttingDown job d =
      processTickJob E W config instanceId shuttingDown job d"
    unfolding processTickJob_def Let_def case_prod_unfold opts policy iteration interval ..
qed

text \<open>
  C10. The alarm: when a job's iteration succeeded, the policy acts exactly if the ticks it
  advanced passed a multiple of the check interval and the scan of the state it left finds a
  violation; stop sets both flags and pauses the worker, pause sets the bots' flag, logging leaves
  the state alone, and the tick is recorded. A stop is final: every later job, of any worker with
  any configuration, changes nothing. A pause lasts: as long as the flags are as the job left them,
  every later job, of any worker with any configuration and whatever else changed in the database,
  asks its iteration to run no bots, and what it does depends on no setting of the bots.
\<close>

theorem violation_policy_latched:
  assumes "processTickJob E W config instanceId False job d = (r, d')"
    and "\<not> sc_processingStopped (controlOf d)" and "0 < wc_invariantsCheckEveryTicks config"
    and "runWorkerIteration E W config (jobIterationOptions config instanceId job (controlOf d))
       (snd (ensureSimulationControlState d)) = (Inr res, d2)"
  shows "if \<not> alarm E config res d2 then r = Inr False \<and> d' = d2
    else case wc_onInvariantViolation config of
      PolicyStop \<Rightarrow> r = Inr True \<and> sc_botsPaused (controlOf d') \<and>
        sc_lastInvariantViolationTick (controlOf d') = Some (wi_tickAfter res) \<and>
        (\<forall>E' W' config' instanceId' shuttingDown job'.
           processTickJob E' W' config' instanceId' shuttingDown job' d' = (Inr False, d'))
    | PolicyPauseBots \<Rightarrow> r = Inr False \<and> sc_botsPaused (controlOf d') \<and>
        sc_lastInvariantViolationTick (controlOf d') = Some (wi_tickAfter res) \<and>
        (\<forall>d'' E' W' config' instanceId' shuttingDown' job' b. controlRow d'' = controlRow d' \<longrightarrow>
           wo_runBots (jobIterationOptions config' instanceId' job' (controlOf d'')) = Some False \<and>
           processTickJob E' W' (config'\<lparr>wc_botConfig := b\<rparr>) instanceId' shuttingDown' job' d'' =
             processTickJob E' W' config' instanceId' shuttingDown' job' d'')
    | PolicyLogOnly \<Rightarrow> r = Inr False \<and> d' = d2"
proof (cases "alarm E config res d2")
  case False
  with assms(1) job_after_iteration [OF assms(2-4)] show ?thesis by simp
next
  case True
  obtain b d3 where policy: "applyViolationPolicy E config (wi_tickAfter res) d2 = (b, d3)" by fastforce
  with True assms(1) job_after_iteration [OF assms(2-4)] have r: "r = Inr b" "d' = d3" by simp_all
  have flags: "case wc_onInvariantViolation config of
      PolicyStop \<Rightarrow> b \<and> sc_processingStopped (controlOf d3) \<and> sc_botsPaused (controlOf d3) \<and> controlRow d3 \<noteq> None \<and>
        sc_lastInvariantViolationTick (controlOf d3) = Some (wi_tickAfter res)
    | PolicyPauseBots \<Rightarrow> \<not> b \<and> sc_botsPaused (controlOf d3) \<and>
        sc_lastInvariantViolationTick (controlOf d3) = Some (wi_tickAfter res)
    | PolicyLogOnly \<Rightarrow> \<not> b \<and> d3 = d2"
    using policy by (cases "wc_onInvariantViolation config"; cases "controlRow d2")
      (auto simp: applyViolationPolicy_def pauseBotsAfterInvariantViolation_def controlOf_def
        stopSimulationAfterInvariantViolation_def ensureSimulationControlState_def)
  show ?thesis
  proof (cases "wc_onInvariantViolation config")
    case PolicyStop
    with flags have "sc_processingStopped (controlOf d3)" "controlRow d3 \<noteq> None" by simp_all
    from stopped_job [OF this] PolicyStop flags True show ?thesis by (simp add: r)
  next
    case PolicyPauseBots
    have "sc_botsPaused (controlOf d'')" if "controlRow d'' = controlRow d3" for d''
      using flags that controlOf_row [OF that] by (simp add: PolicyPauseBots)
    with paused_job flags True show ?thesis by (simp add: PolicyPauseBots r)
  qed (use flags True in \<open>simp_all add: r\<close>)
qed

text \<open>
  C11. A sound economy raises no alarm: when the invariant holds and every workforce is in range,
  and other clients keep it so, a job leaves both so, whatever its ticks do and however they fail,
  and never touches the control flags or pauses itself.
\<close>

theorem sound_economy_no_alarm:
  assumes "processTickJob E W config instanceId shuttingDown job d = (r, d')" and "tickOk d" and "staffed d"
    and "othersBehave W" and "loopConfigOk config"
  shows "tickOk d' \<and> staffed d' \<and> controlOf d' = controlOf d \<and> r \<noteq> Inr True \<and> worldTick d \<le> worldTick d'"
proof -
  define state where "state = controlOf d"
  define d1 where "d1 = snd (ensureSimulationControlState d)"
  have d1: "tickOk d1" "staffed d1" "worldTick d1 = worldTick d" "controlOf d1 = state" "controlRow d1 = Some state"
    using tickOk_same [OF assms(2), of d1] assms(3)
    by (auto simp: d1_def state_def controlOf_def ensureSimulationControlState_def Let_def worldTick_def
        staffed_def split: option.splits)
  show ?thesis
  proof (cases "shuttingDown \<or> sc_processingStopped state")
    case True
    with assms(1) have "r = Inr False" "d' = d \<or> d' = d1"
      by (auto simp: processTickJob_def d1_def state_def controlOf_def case_prod_unfold split: if_splits)
    with d1 assms(2,3) state_def show ?thesis by auto
  next
    case False
    obtain r2 d2 where run: "runWorkerIteration E W config (jobIterationOptions config instanceId job state) d1 = (r2, d2)"
      by fastforce
    have pos: "0 < wc_maxTicksPerRun config" "0 < wc_invariantsCheckEveryTicks config"
      using assms(5) by (simp_all add: loopConfigOk_def)
    note eff = iteration_settings [OF run d1(1) assms(4) pos(1)]
    have control2: "controlOf d2 = state" using eff d1(5) by (simp add: controlOf_def ensureSimulationControlState_def)
    have d': "d' = d2 \<and> r \<noteq> Inr True"
    proof (cases r2)
      case (Inl e)
      with assms(1) run False show ?thesis
        by (auto simp: processTickJob_def d1_def state_def controlOf_def case_prod_unfold)
    next
      case (Inr res)
      have "\<forall>c\<in>set (companies d2). companyOk c \<and> workforceColumnsOk c" "\<forall>x\<in>set (inventories d2). inventoryOk x"
        using eff d1(2) by (auto simp: tickOk_def marketOk_def economyOk_def rowsOk_def staffed_def columns_iff)
      then have "\<not> alarm E config res d2" using scan_clean_iff by (simp add: alarm_def)
      with job_after_iteration [of d config E W instanceId job res d2] False run Inr pos(2) assms(1)
      show ?thesis by (auto simp: d1_def state_def)
    qed
    with eff control2 d1 show ?thesis by (simp add: state_def)
  qed
qed

subsection \<open>The properties at a concrete world\<close>

definition smallRuntime :: workerRuntimeConfig where
  "smallRuntime = \<lparr>wc_tickIntervalMs = 60000, wc_simulationSpeed = 1, wc_maxTicksPerRun = 1,
     wc_tickExecutionRetentionTicks = 3, wc_tickExecutionCleanupEveryTicks = 1,
     wc_invariantsCheckEveryTicks = 4, wc_onInvariantViolation = PolicyStop,
     wc_botConfig = DEFAULT_BOT_RUNTIME_CONFIG, wc_demandConfig = DEFAULT_DEMAND_SINK_CONFIG,
     wc_contractConfig = DEFAULT_CONTRACT_LIFECYCLE_CONFIG,
     wc_redis = \<lparr>rd_host = ''localhost'', rd_port = 6379, rd_db = 0, rd_username = None,
       rd_password = None, rd_tlsEnabled = False\<rparr>,
     wc_bullmq = \<lparr>bq_prefix = ''corpsim'', bq_queueName = ''simulation.tick'', bq_schedulerId = ''s'',
       bq_jobName = ''j'', bq_schedulerEnabled = True, bq_workerEnabled = True, bq_workerConcurrency = 1,
       bq_jobAttempts = 1, bq_jobBackoffMs = 1000, bq_removeOnComplete = 500, bq_removeOnFail = 1000\<rparr>\<rparr>"

text \<open>An account that reserves more than it has, as a delivery from reserved cash can leave it.\<close>

definition overdrawnWorld :: db where
  "overdrawnWorld = fixtureDb\<lparr>controlRow := None, companies := map (\<lambda>c. if co_isPlayer c then c
     else c\<lparr>co_reservedCashCents := co_cashCents c + 10000\<rparr>) (companies fixtureDb)\<rparr>"

definition someJob :: tickJob where
  "someJob = \<lparr>tj_id = None, tj_repeatJobKey = Some ''r1'', tj_ticksOverride = None\<rparr>"

lemma overdrawn_iteration:
  "case runWorkerIteration fixtureEnv quietWorker smallRuntime
       (jobIterationOptions smallRuntime ''w1'' someJob (controlOf overdrawnWorld))
       (snd (ensureSimulationControlState overdrawnWorld)) of
     (Inl _, _) \<Rightarrow> False
   | (Inr res, d2) \<Rightarrow> wi_tickBefore res = 7 \<and> wi_tickAfter res = 8 \<and>
       hasViolations (scanSimulationInvariants fixtureEnv (Some (IntN 20)) d2)"
  by code_simp

theorem violation_policy_latched_witness:
  "\<exists>d'. processTickJob fixtureEnv quietWorker smallRuntime ''w1'' False someJob overdrawnWorld = (Inr True, d') \<and>
     sc_botsPaused (controlOf d') \<and>
     processTickJob fixtureEnv quietWorker smallRuntime ''w2'' False someJob d' = (Inr False, d')"
proof -
  obtain res d2 where run: "runWorkerIteration fixtureEnv quietWorker smallRuntime
       (jobIterationOptions smallRuntime ''w1'' someJob (controlOf overdrawnWorld))
       (snd (ensureSimulationControlState overdrawnWorld)) = (Inr res, d2)"
    and res: "wi_tickBefore res = 7" "wi_tickAfter res = 8"
      "hasViolations (scanSimulationInvariants fixtureEnv (Some (IntN 20)) d2)"
    using overdrawn_iteration by (auto split: prod.splits sum.splits)
  have alarm: "alarm fixtureEnv smallRuntime res d2"
    unfolding alarm_def by (intro conjI exI [of _ 8]) (use res in \<open>simp_all add: smallRuntime_def\<close>)
  have going: "\<not> sc_processingStopped (controlOf overdrawnWorld)" by code_simp
  obtain r d' where job: "processTickJob fixtureEnv quietWorker smallRuntime ''w1'' False someJob overdrawnWorld = (r, d')"
    by fastforce
  have every: "0 < wc_invariantsCheckEveryTicks smallRuntime" by (simp add: smallRuntime_def)
  have stop: "wc_onInvariantViolation smallRuntime = PolicyStop" by (simp add: smallRuntime_def)
  from violation_policy_latched [OF job going every run] alarm stop job show ?thesis by auto
qed

theorem sound_economy_no_alarm_witness:
  "\<exists>r d'. processTickJob fixtureEnv quietWorker smallRuntime ''w1'' False someJob fixtureDb = (r, d') \<and>
     tickOk d' \<and> staffed d' \<and> \<not> sc_processingStopped (controlOf d')"
proof -
  obtain r d' where job: "processTickJob fixtureEnv quietWorker smallRuntime ''w1'' False someJob fixtureDb = (r, d')"
    by fastforce
  have "staffed fixtureDb" by code_simp
  moreover have "loopConfigOk smallRuntime" by (simp add: loopConfigOk_def smallRuntime_def)
  moreover have "\<not> sc_processingStopped (controlOf fixtureDb)" by code_simp
  ultimately show ?thesis
    using sound_economy_no_alarm [OF job fixture_tickOk _ quiet_behaves] job by auto
qed

text \<open>
  An invalid workforce is not among the violations a job can report: the workforce stage refuses
  it, so the tick and the job fail and the scan is not reached.
\<close>

definition unbalancedWorld :: db where
  "unbalancedWorld = fixtureDb\<lparr>companies := map (\<lambda>c. if co_isPlayer c then c
     else c\<lparr>co_workforceAllocationOpsPct := 50\<rparr>) (companies fixtureDb)\<rparr>"

lemma invalid_workforce_blocks_the_tick:
  "hasViolations (scanSimulationInvariants fixtureEnv (Some (IntN 20)) unbalancedWorld) \<and>
   fst (processTickJob fixtureEnv quietWorker smallRuntime ''w1'' False someJob unbalancedWorld) =
     Inl (DomainInvariantError ''workforce allocation percentages must sum to 100'')"
  by code_simp
end
