(* ===== verification/Players.thy ===== *)
theory Players
  imports Economy Fixture
begin

section \<open>Players and regions\<close>

text \<open>
  \<open>packages/sim/src/services/players.ts\<close> and \<open>regions.ts\<close>: players found or created by a
  normalised handle, the checks that a company, an order, a production job or a shipment belongs
  to a player, and the look-up of regions.
\<close>

definition handleChar :: "char \<Rightarrow> bool" where
  "handleChar c \<longleftrightarrow> (let n = (of_char c :: nat) in
     65 \<le> n \<and> n \<le> 90 \<or> 97 \<le> n \<and> n \<le> 122 \<or> 48 \<le> n \<and> n \<le> 57 \<or> n = 95 \<or> n = 45)"

definition normalizeHandle :: "string \<Rightarrow> string result" where
  "normalizeHandle handle =
     (let normalized = trim handle in
      if length normalized = 0 then Inl (DomainInvariantError ''player handle is required'')
      else if length normalized > 32
        then Inl (DomainInvariantError ''player handle must be at most 32 characters'')
      else if \<not> (normalized \<noteq> [] \<and> list_all handleChar normalized)
        then Inl (DomainInvariantError ''player handle must be alphanumeric, underscore, or dash'')
      else Inr normalized)"

text \<open>\<open>player.upsert\<close> by the unique handle.\<close>

definition resolvePlayerByHandle :: "env \<Rightarrow> string \<Rightarrow> db \<Rightarrow> (player \<times> db) result" where
  "resolvePlayerByHandle E handle d =
     andThen (normalizeHandle handle) (\<lambda>normalizedHandle.
     (case rowFind pl_handle normalizedHandle (players d) of
       Some p \<Rightarrow> Inr (p, d)
     | None \<Rightarrow> createRow pl_id players players_update
         \<lparr>pl_id = newId E d, pl_handle = normalizedHandle, pl_tutorialCompletedAt = None,
          pl_createdAt = currentTime E d\<rparr> d))"

definition resolvePlayerById :: "string \<Rightarrow> db \<Rightarrow> player result" where
  "resolvePlayerById playerId d =
     (let normalizedId = trim playerId in
      if length normalizedId = 0 then Inl (DomainInvariantError ''player id is required'')
      else
        (case rowFind pl_id normalizedId (players d) of
          None \<Rightarrow> Inl (ForbiddenError ''player access is forbidden'')
        | Some p \<Rightarrow> Inr p))"

definition listCompaniesOwnedByPlayer :: "string \<Rightarrow> db \<Rightarrow> (company \<times> region option) list" where
  "listCompaniesOwnedByPlayer playerId d =
     map (\<lambda>c. (c, rowFind rg_id (co_regionId c) (regions d)))
       (sortBy (cmpKey co_createdAt) (filter (\<lambda>c. co_ownerPlayerId c = Some playerId) (companies d)))"

text \<open>\<open>company: { ownerPlayerId }\<close> in a filter: the row's company exists and has that owner.\<close>

definition companyOwnedBy :: "string \<Rightarrow> string \<Rightarrow> db \<Rightarrow> bool" where
  "companyOwnedBy playerId companyId d =
     list_ex (\<lambda>c. co_id c = companyId \<and> co_ownerPlayerId c = Some playerId) (companies d)"

definition assertCompanyOwnedByPlayer :: "string \<Rightarrow> string \<Rightarrow> db \<Rightarrow> unit result" where
  "assertCompanyOwnedByPlayer playerId companyId d =
     (if list_ex (\<lambda>c. co_id c = companyId \<and> co_ownerPlayerId c = Some playerId) (companies d)
      then Inr () else Inl (ForbiddenError ''company access is forbidden for current player''))"

definition assertOrderOwnedByPlayer :: "string \<Rightarrow> string \<Rightarrow> db \<Rightarrow> unit result" where
  "assertOrderOwnedByPlayer playerId orderId d =
     (if list_ex (\<lambda>x. ord_id x = orderId \<and> companyOwnedBy playerId (ord_companyId x) d) (marketOrders d)
      then Inr () else Inl (ForbiddenError ''order access is forbidden for current player''))"

definition assertProductionJobOwnedByPlayer :: "string \<Rightarrow> string \<Rightarrow> db \<Rightarrow> unit result" where
  "assertProductionJobOwnedByPlayer playerId jobId d =
     (if list_ex (\<lambda>x. pj_id x = jobId \<and> companyOwnedBy playerId (pj_companyId x) d) (productionJobs d)
      then Inr () else Inl (ForbiddenError ''production job access is forbidden for current player''))"

definition assertShipmentOwnedByPlayer :: "string \<Rightarrow> string \<Rightarrow> db \<Rightarrow> unit result" where
  "assertShipmentOwnedByPlayer playerId shipmentId d =
     (if list_ex (\<lambda>x. sh_id x = shipmentId \<and> companyOwnedBy playerId (sh_companyId x) d) (shipments d)
      then Inr () else Inl (ForbiddenError ''shipment access is forbidden for current player''))"

definition listRegions :: "env \<Rightarrow> db \<Rightarrow> region list" where
  "listRegions E d = sortBy (\<lambda>x y. env_textCompare E (rg_code x) (rg_code y)) (regions d)"

definition getRegionById :: "string \<Rightarrow> db \<Rightarrow> region result" where
  "getRegionById regionId d =
     (case rowFind rg_id regionId (regions d) of
       None \<Rightarrow> Inl (NotFoundError (''region '' @ regionId @ '' not found''))
     | Some r \<Rightarrow> Inr r)"

subsection \<open>Lemmas\<close>

definition playersOk :: "db \<Rightarrow> bool" where
  "playersOk d \<longleftrightarrow> distinct (map pl_id (players d)) \<and> distinct (map pl_handle (players d))"

lemma resolvePlayer_effect:
  assumes "resolvePlayerByHandle E handle d = Inr (p, d')" and "playersOk d"
  shows "playersOk d' \<and> pl_handle p = trim handle \<and> p \<in> set (players d') \<and> set (players d) \<subseteq> set (players d') \<and>
    companies d' = companies d"
proof -
  let ?found = "rowFind pl_handle (trim handle) (players d)"
  from assms(1) have run: "(case ?found of Some p \<Rightarrow> Inr (p, d)
     | None \<Rightarrow> createRow pl_id players players_update
         \<lparr>pl_id = newId E d, pl_handle = trim handle, pl_tutorialCompletedAt = None,
          pl_createdAt = currentTime E d\<rparr> d) = Inr (p, d')"
    by (auto simp: resolvePlayerByHandle_def normalizeHandle_def andThen_Inr_iff Let_def simp del: length_0_conv
        split: if_splits)
  show ?thesis
  proof (cases ?found)
    case None
    with run have new: "pl_handle p = trim handle" "d' = d\<lparr>players := players d @ [p], db_seq := Suc (db_seq d)\<rparr>"
      "pl_id p \<notin> pl_id ` set (players d)" by (auto simp: createRow_Inr rowFind_None intro!: db.equality)
    moreover have "trim handle \<notin> pl_handle ` set (players d)" using None by (simp add: rowFind_None)
    ultimately show ?thesis using assms(2) by (auto simp: playersOk_def)
  next
    case (Some q)
    with run rowFind_Some [OF Some] assms(2) show ?thesis by simp
  qed
qed

lemma owned_iff [simp]:
  "assertCompanyOwnedByPlayer p c d = Inr () \<longleftrightarrow> companyOwnedBy p c d"
  by (simp add: assertCompanyOwnedByPlayer_def companyOwnedBy_def)

text \<open>A run of resolutions of any handles.\<close>

inductive resolutions :: "env \<Rightarrow> db \<Rightarrow> db \<Rightarrow> bool" for E where
  no_resolution: "resolutions E d d"
| one_more: "resolutions E d d' \<Longrightarrow> resolvePlayerByHandle E h d' = Inr (p, d'') \<Longrightarrow> resolutions E d d''"

lemma resolutions_keep:
  "resolutions E d d' \<Longrightarrow> playersOk d \<Longrightarrow> playersOk d' \<and> set (players d) \<subseteq> set (players d')"
  by (induction rule: resolutions.induct) (auto dest: resolvePlayer_effect)

text \<open>
  A handle is an identity: whatever players are resolved in between, two resolutions give the
  same player exactly when their handles agree up to the white space around them, and the second
  of two such resolutions changes nothing.
\<close>

theorem handle_is_identity:
  assumes "playersOk d" and "resolvePlayerByHandle E h1 d = Inr (p1, d1)" and "resolutions E d1 d2"
    and "resolvePlayerByHandle E h2 d2 = Inr (p2, d3)"
  shows "(pl_id p1 = pl_id p2 \<longleftrightarrow> trim h1 = trim h2) \<and> (p1 = p2 \<longleftrightarrow> trim h1 = trim h2) \<and>
    (trim h1 = trim h2 \<longrightarrow> d3 = d2)"
proof -
  note first = resolvePlayer_effect [OF assms(2,1)]
  then have mid: "playersOk d2" "set (players d1) \<subseteq> set (players d2)" using resolutions_keep [OF assms(3)] by simp_all
  note last = resolvePlayer_effect [OF assms(4) mid(1)]
  have p1: "p1 \<in> set (players d2)" "p1 \<in> set (players d3)" using first mid last by blast+
  have ids: "inj_on pl_id (set (players d3))" "inj_on pl_handle (set (players d3))"
    using last by (simp_all add: playersOk_def distinct_map)
  have same: "p1 = p2 \<longleftrightarrow> trim h1 = trim h2"
    using ids(2) p1(2) last first by (metis inj_onD)
  moreover have "pl_id p1 = pl_id p2 \<longleftrightarrow> p1 = p2" using ids(1) p1(2) last by (metis inj_onD)
  moreover have "d3 = d2" if "trim h1 = trim h2"
  proof -
    have "pl_handle p1 = trim h2" using first that by simp
    then have "rowFind pl_handle (trim h2) (players d2) = Some p1"
      using mid(1) p1(1) rowFind_unique [of pl_handle "players d2" p1] by (simp add: playersOk_def)
    with assms(4) show ?thesis
      by (auto simp: resolvePlayerByHandle_def normalizeHandle_def andThen_Inr_iff Let_def split: if_splits)
  qed
  ultimately show ?thesis by simp
qed

theorem handle_is_identity_witness:
  "\<exists>p1 d1 p2 d3. resolvePlayerByHandle fixtureEnv ''ada_1'' fixtureDb = Inr (p1, d1) \<and>
     resolvePlayerByHandle fixtureEnv '' ada_1 '' d1 = Inr (p2, d3) \<and> p1 = p2 \<and> d3 = d1 \<and> players d1 \<noteq> players fixtureDb"
proof -
  have "case resolvePlayerByHandle fixtureEnv ''ada_1'' fixtureDb of
      Inl _ \<Rightarrow> False | Inr (p, d1) \<Rightarrow> players d1 \<noteq> players fixtureDb \<and>
        returns (resolvePlayerByHandle fixtureEnv '' ada_1 '' d1)" by code_simp
  then obtain p1 d1 p2 d3 where *: "resolvePlayerByHandle fixtureEnv ''ada_1'' fixtureDb = Inr (p1, d1)"
    "players d1 \<noteq> players fixtureDb" "resolvePlayerByHandle fixtureEnv '' ada_1 '' d1 = Inr (p2, d3)"
    by (auto simp: returns_iff split: sum.splits)
  have "playersOk fixtureDb" "trim ''ada_1'' = trim '' ada_1 ''" by code_simp+
  with handle_is_identity [OF _ *(1) no_resolution *(3)] * show ?thesis by metis
qed
end
