(* ===== verification/ResetSimulation.thy ===== *)
theory ResetSimulation
  imports Economy Fixture
begin

section \<open>Reset of the simulation\<close>

text \<open>
  \<open>packages/sim/src/services/reset-simulation.ts\<close>: one transaction deletes the rows of every table
  of the simulation, one table after the other, and creates the world row and the control row
  anew. The foreign keys of \<open>schema.prisma\<close> act as the database makes them: a row that restricts
  raises P2003, a cascade removes the referring rows, \<open>SetNull\<close> clears the reference. The cascades
  and references that can still matter when a table's turn comes are written out; the others
  concern tables that have been emptied before.
\<close>

text \<open>\<open>deleteMany\<close> of a whole table whose rows are restricted by others.\<close>

definition refers :: "('p \<Rightarrow> string) \<Rightarrow> 'p list \<Rightarrow> ('c \<Rightarrow> string) \<Rightarrow> 'c list \<Rightarrow> bool" where
  "refers key parents fk children = list_ex (\<lambda>c. fk c \<in> set (map key parents)) children"

definition clearUnless :: "bool \<Rightarrow> (db \<Rightarrow> db) \<Rightarrow> db \<Rightarrow> db result" where
  "clearUnless restricted clear d = (if restricted then Inl foreignKeyViolation else Inr (clear d))"

definition clearWorkerTables :: "db \<Rightarrow> db" where
  "clearWorkerTables d = d\<lparr>simulationTickExecutions := [], simulationLeases := [], controlRow := None\<rparr>"

definition clearResearch :: "db \<Rightarrow> db result" where
  "clearResearch d =
     (let d = d\<lparr>researchJobs := []\<rparr>;
          d = d\<lparr>companyResearches := []\<rparr>;
          d = d\<lparr>researchPrerequisites := []\<rparr>;
          d = d\<lparr>nodeUnlockRecipes := []\<rparr> in
      andThen (clearUnless
        (refers rn_id (researchNodes d) rp_prerequisiteNodeId (researchPrerequisites d) \<or>
         refers rn_id (researchNodes d) rj_nodeId (researchJobs d))
        (\<lambda>d. d\<lparr>researchNodes := []\<rparr>) d) (\<lambda>d.
      Inr (d\<lparr>companyRecipes := []\<rparr>)))"

definition clearTrading :: "db \<Rightarrow> db result" where
  "clearTrading d =
     (let d = d\<lparr>shipments := []\<rparr>;
          d = d\<lparr>contractFulfillments := []\<rparr> in
      andThen (clearUnless (refers ct_id (contracts d) cf_contractId (contractFulfillments d))
        (\<lambda>d. d\<lparr>contracts := []\<rparr>) d) (\<lambda>d.
      (let d = d\<lparr>trades := []\<rparr>;
           d = d\<lparr>marketOrders := []\<rparr>;
           d = d\<lparr>productionJobs := []\<rparr>;
           d = d\<lparr>workforceCapacityDeltas := []\<rparr>;
           d = d\<lparr>ledgerEntries := []\<rparr>;
           d = d\<lparr>itemTickCandles := []\<rparr> in
       Inr d)))"

definition clearMasters :: "db \<Rightarrow> db result" where
  "clearMasters d =
     (let d = d\<lparr>recipeInputs := []\<rparr> in
      andThen (clearUnless (refers rc_id (recipes d) pj_recipeId (productionJobs d))
        (\<lambda>d. d\<lparr>recipes := []\<rparr>) d) (\<lambda>d.
      (let d = d\<lparr>inventories := []\<rparr> in
       andThen (clearUnless
         (refers co_id (companies d) sh_companyId (shipments d) \<or>
          refers co_id (companies d) ct_buyerCompanyId (contracts d) \<or>
          refers co_id (companies d) cf_sellerCompanyId (contractFulfillments d))
         (\<lambda>d. d\<lparr>companies := [],
            buildings := filter (\<lambda>b. bd_companyId b \<notin> set (map co_id (companies d))) (buildings d)\<rparr>) d) (\<lambda>d.
       (let d = d\<lparr>players := []\<rparr> in
        andThen (clearUnless
          (refers rg_id (regions d) bd_regionId (buildings d) \<or>
           refers rg_id (regions d) co_regionId (companies d) \<or>
           refers rg_id (regions d) inv_regionId (inventories d) \<or>
           refers rg_id (regions d) sh_fromRegionId (shipments d) \<or>
           refers rg_id (regions d) sh_toRegionId (shipments d) \<or>
           refers rg_id (regions d) ord_regionId (marketOrders d) \<or>
           refers rg_id (regions d) tr_regionId (trades d) \<or>
           refers rg_id (regions d) cd_regionId (itemTickCandles d))
          (\<lambda>d. d\<lparr>regions := []\<rparr>) d) (\<lambda>d.
        clearUnless
          (refers it_id (items d) sh_itemId (shipments d) \<or>
           refers it_id (items d) rc_outputItemId (recipes d) \<or>
           refers it_id (items d) ri_itemId (recipeInputs d) \<or>
           refers it_id (items d) ct_itemId (contracts d) \<or>
           refers it_id (items d) cf_itemId (contractFulfillments d))
          (\<lambda>d. d\<lparr>items := []\<rparr>) d))))))"

definition resetSimulationWithTx :: "db \<Rightarrow> (unit \<times> db) result" where
  "resetSimulationWithTx d =
     andThen (clearResearch (clearWorkerTables d)) (\<lambda>d.
     andThen (clearTrading d) (\<lambda>d.
     andThen (clearMasters d) (\<lambda>d.
     (let d = d\<lparr>worldTickRow := None\<rparr>;
          d = d\<lparr>worldTickRow := Some \<lparr>ws_currentTick = 0, ws_lockVersion = 0, ws_lastAdvancedAt = None\<rparr>\<rparr>;
          d = d\<lparr>controlRow := Some \<lparr>sc_botsPaused = False, sc_processingStopped = False,
                sc_lastInvariantViolationTick = None, sc_lastInvariantViolationAt = None\<rparr>\<rparr> in
      Inr ((), d)))))"

definition resetSimulationData :: "db \<Rightarrow> unit result \<times> db" where
  "resetSimulationData d = transaction resetSimulationWithTx d"

subsection \<open>What a reset leaves\<close>

definition freshDb :: "nat \<Rightarrow> db" where
  "freshDb n = emptyDb\<lparr>db_seq := n,
     worldTickRow := Some \<lparr>ws_currentTick = 0, ws_lockVersion = 0, ws_lastAdvancedAt = None\<rparr>,
     controlRow := Some \<lparr>sc_botsPaused = False, sc_processingStopped = False,
       sc_lastInvariantViolationTick = None, sc_lastInvariantViolationAt = None\<rparr>\<rparr>"

text \<open>Buildings whose company is missing, which the foreign key of the table excludes.\<close>

definition strayBuildings :: "db \<Rightarrow> building list" where
  "strayBuildings d = filter (\<lambda>b. bd_companyId b \<notin> set (map co_id (companies d))) (buildings d)"

lemma refers_nil [simp]: "\<not> refers key ps fk []"
  by (simp add: refers_def)

lemma clearUnless_simps [simp]:
  "clearUnless True f d = Inl foreignKeyViolation" "clearUnless False f d = Inr (f d)"
  by (simp_all add: clearUnless_def)

lemma clearResearch_eq:
  "clearResearch d = Inr (d\<lparr>researchJobs := [], companyResearches := [], researchPrerequisites := [],
     nodeUnlockRecipes := [], researchNodes := [], companyRecipes := []\<rparr>)"
  by (simp add: clearResearch_def)

lemma clearTrading_eq:
  "clearTrading d = Inr (d\<lparr>shipments := [], contractFulfillments := [], contracts := [], trades := [],
     marketOrders := [], productionJobs := [], workforceCapacityDeltas := [], ledgerEntries := [],
     itemTickCandles := []\<rparr>)"
  by (simp add: clearTrading_def)

lemma clearMasters_eq:
  assumes "shipments d = []" "contractFulfillments d = []" "contracts d = []" "trades d = []"
    "marketOrders d = []" "productionJobs d = []" "itemTickCandles d = []"
  shows "clearMasters d = (if refers rg_id (regions d) bd_regionId (strayBuildings d) then Inl foreignKeyViolation
    else Inr (d\<lparr>recipeInputs := [], recipes := [], inventories := [], companies := [],
       buildings := strayBuildings d, players := [], regions := [], items := []\<rparr>))"
  using assms by (simp add: clearMasters_def strayBuildings_def)

lemma reset_eq:
  "resetSimulationData d = (if refers rg_id (regions d) bd_regionId (strayBuildings d)
     then (Inl foreignKeyViolation, d)
     else (Inr (), (freshDb (db_seq d))\<lparr>buildings := strayBuildings d\<rparr>))"
proof -
  define e where "e = clearWorkerTables d"
  define f where "f = e\<lparr>researchJobs := [], companyResearches := [], researchPrerequisites := [],
     nodeUnlockRecipes := [], researchNodes := [], companyRecipes := []\<rparr>"
  define g where "g = f\<lparr>shipments := [], contractFulfillments := [], contracts := [], trades := [],
     marketOrders := [], productionJobs := [], workforceCapacityDeltas := [], ledgerEntries := [],
     itemTickCandles := []\<rparr>"
  have stray: "strayBuildings g = strayBuildings d" "regions g = regions d"
    by (simp_all add: g_def f_def e_def clearWorkerTables_def strayBuildings_def)
  have "resetSimulationWithTx d = andThen (clearMasters g) (\<lambda>d.
      Inr ((), d\<lparr>worldTickRow := Some \<lparr>ws_currentTick = 0, ws_lockVersion = 0, ws_lastAdvancedAt = None\<rparr>,
        controlRow := Some \<lparr>sc_botsPaused = False, sc_processingStopped = False,
          sc_lastInvariantViolationTick = None, sc_lastInvariantViolationAt = None\<rparr>\<rparr>))"
    by (simp add: resetSimulationWithTx_def clearResearch_eq clearTrading_eq g_def f_def e_def)
  also have "clearMasters g = (if refers rg_id (regions d) bd_regionId (strayBuildings d) then Inl foreignKeyViolation
      else Inr (g\<lparr>recipeInputs := [], recipes := [], inventories := [], companies := [],
        buildings := strayBuildings d, players := [], regions := [], items := []\<rparr>))"
    using clearMasters_eq [of g] stray by (simp add: g_def)
  finally show ?thesis
    by (auto simp: resetSimulationData_def transaction_def freshDb_def emptyDb_def g_def f_def e_def
        clearWorkerTables_def intro!: db.equality)
qed

text \<open>
  A reset always succeeds on a database whose buildings belong to companies, however many
  rows refer to each other: the order of the deletions respects every foreign key. Nothing is
  left but the world at tick 0 with lock version 0 and cleared control flags, so a second reset
  changes nothing, and the economy's invariant holds. Otherwise it fails as a whole and changes
  nothing exactly when a stray building stands in a known region.
\<close>

theorem reset_total:
  "(if list_ex (\<lambda>b. bd_regionId b \<in> rg_id ` set (regions d)) (strayBuildings d)
    then resetSimulationData d = (Inl foreignKeyViolation, d)
    else resetSimulationData d = (Inr (), (freshDb (db_seq d))\<lparr>buildings := strayBuildings d\<rparr>)) \<and>
   resetSimulationData (freshDb n) = (Inr (), freshDb n) \<and> tickOk (freshDb n)"
proof -
  have ok: "tickOk (freshDb n)"
    by (simp add: freshDb_def emptyDb_def tickOk_def marketOk_def economyOk_def rowsOk_def cashBacked_def
        recipesOk_def outputsOk_def)
  have "strayBuildings (freshDb n) = []" by (simp add: freshDb_def emptyDb_def strayBuildings_def)
  then have "resetSimulationData (freshDb n) = (Inr (), freshDb n)"
    by (simp add: reset_eq) (simp add: freshDb_def emptyDb_def)
  then show ?thesis using ok by (simp add: reset_eq [of d] refers_def)
qed
end
