(* ===== verification/ReadModels.thy ===== *)
theory ReadModels
  imports MarketCandles Production Invariants WorkerConfig
begin

section \<open>Read models\<close>

text \<open>
  \<open>packages/sim/src/services/read-models.ts\<close>: the queries behind the pages of the game, and the
  one command of the module, the change of a company's specialization. Columns a query selects
  are the columns of the row returned. A cursor of the ledger is handed over decoded: its text
  form, the base64url of its JSON, and the error for a text that is none, are left out.
\<close>

subsection \<open>Companies and their inventory\<close>

record companySummary =
  cv_id :: string
  cv_code :: string
  cv_name :: string
  cv_isBot :: bool
  cv_specialization :: companySpecialization
  cv_cashCents :: int
  cv_ownerPlayerId :: "string option"
  cv_region :: "region option"

record companyDetails =
  dv_id :: string
  dv_code :: string
  dv_name :: string
  dv_specialization :: companySpecialization
  dv_cashCents :: int
  dv_reservedCashCents :: int
  dv_region :: "region option"
  dv_createdAt :: int
  dv_isBot :: bool

definition listCompanies :: "db \<Rightarrow> companySummary list" where
  "listCompanies d =
     map (\<lambda>c. \<lparr>cv_id = co_id c, cv_code = co_code c, cv_name = co_name c, cv_isBot = (\<not> co_isPlayer c),
        cv_specialization = co_specialization c, cv_cashCents = co_cashCents c,
        cv_ownerPlayerId = co_ownerPlayerId c, cv_region = rowFind rg_id (co_regionId c) (regions d)\<rparr>)
       (sortBy (cmpKey co_createdAt) (companies d))"

definition getCompanyById :: "string \<Rightarrow> db \<Rightarrow> companyDetails result" where
  "getCompanyById companyId d =
     (case findCompany companyId d of
       None \<Rightarrow> Inl (NotFoundError (''company '' @ companyId @ '' not found''))
     | Some c \<Rightarrow> Inr
         \<lparr>dv_id = co_id c, dv_code = co_code c, dv_name = co_name c,
          dv_specialization = co_specialization c, dv_cashCents = co_cashCents c,
          dv_reservedCashCents = co_reservedCashCents c,
          dv_region = rowFind rg_id (co_regionId c) (regions d), dv_createdAt = co_createdAt c,
          dv_isBot = (\<not> co_isPlayer c)\<rparr>)"

text \<open>\<open>toISOString\<close> of a time in milliseconds, for the years 0 to 9999.\<close>

definition padTo :: "nat \<Rightarrow> int \<Rightarrow> string" where
  "padTo w v = (let s = showInt v in replicate (w - length s) (CHR ''0'') @ s)"

definition civilDate :: "int \<Rightarrow> int \<times> int \<times> int" where
  "civilDate days =
     (let z = days + 719468; era = z div 146097; doe = z mod 146097;
          yoe = (doe - doe div 1460 + doe div 36524 - doe div 146096) div 365;
          doy = doe - (365 * yoe + yoe div 4 - yoe div 100);
          mp = (5 * doy + 2) div 153;
          month = (if mp < 10 then mp + 3 else mp - 9) in
      (yoe + era * 400 + (if month \<le> 2 then 1 else 0), month, doy - (153 * mp + 2) div 5 + 1))"

definition toISOString :: "int \<Rightarrow> string" where
  "toISOString ms =
     (let (year, month, day) = civilDate (ms div 86400000); t = ms mod 86400000 in
      padTo 4 year @ ''-'' @ padTo 2 month @ ''-'' @ padTo 2 day @ ''T'' @
      padTo 2 (t div 3600000) @ '':'' @ padTo 2 (t div 60000 mod 60) @ '':'' @
      padTo 2 (t div 1000 mod 60) @ ''.'' @ padTo 3 (t mod 1000) @ ''Z'')"

record setCompanySpecializationInput =
  ss_companyId :: string
  ss_specialization :: "string option"

definition checkSpecializationCooldown :: "int \<Rightarrow> int option \<Rightarrow> int \<Rightarrow> unit result" where
  "checkSpecializationCooldown cooldownHours lastChangedAt now =
     (case lastChangedAt of
       None \<Rightarrow> Inr ()
     | Some lastChange \<Rightarrow>
       (let nextChangeAt = lastChange + cooldownHours * 60 * 60 * 1000 in
        if now < nextChangeAt then
          (let remainingMs = nextChangeAt - now;
               remainingHours = max 1 ((remainingMs + (60 * 60 * 1000 - 1)) div (60 * 60 * 1000));
               remainingHoursLabel = (if remainingHours = 1 then ''hour'' else ''hours'') in
           Inl (DomainInvariantError (''company focus can be changed every '' @ showInt cooldownHours @
             '' hours; '' @ showInt remainingHours @ '' '' @ remainingHoursLabel @
             '' remaining (next change at '' @ toISOString nextChangeAt @ '')'')))
        else Inr ()))"

text \<open>No transaction: one update between two reads. \<open>cooldownHours\<close> is read once at the start.\<close>

definition setCompanySpecialization ::
    "env \<Rightarrow> int \<Rightarrow> setCompanySpecializationInput \<Rightarrow> db \<Rightarrow> companyDetails result \<times> db" where
  "setCompanySpecialization E cooldownHours input d =
     (if ss_companyId input = [] then (Inl (DomainInvariantError ''companyId is required''), d)
      else
        (let specialization = normalizeCompanySpecialization (ss_specialization input) in
         case findCompany (ss_companyId input) d of
           None \<Rightarrow> (Inl (NotFoundError (''company '' @ ss_companyId input @ '' not found'')), d)
         | Some company \<Rightarrow>
           if \<not> co_isPlayer company
             then (Inl (NotFoundError (''company '' @ ss_companyId input @ '' not found'')), d)
           else if co_specialization company = specialization
             then (getCompanyById (ss_companyId input) d, d)
           else
             (let now = currentTime E d in
              case checkSpecializationCooldown cooldownHours (co_specializationChangedAt company) now of
                Inl e \<Rightarrow> (Inl e, d)
              | Inr _ \<Rightarrow>
                (case updateCompany (ss_companyId input)
                    (\<lambda>c. c\<lparr>co_specialization := specialization, co_specializationChangedAt := Some now\<rparr>) d of
                  Inl e \<Rightarrow> (Inl e, d)
                | Inr (_, d) \<Rightarrow> (getCompanyById (ss_companyId input) d, d)))))"

definition listCompanyInventory :: "env \<Rightarrow> string \<Rightarrow> string option \<Rightarrow> db \<Rightarrow> inventory list result" where
  "listCompanyInventory E companyId regionId d =
     (case findCompany companyId d of
       None \<Rightarrow> Inl (NotFoundError (''company '' @ companyId @ '' not found''))
     | Some company \<Rightarrow>
       (let effectiveRegionId = orDefault regionId (co_regionId company) in
        Inr (sortBy (\<lambda>x y. env_textCompare E (itemCodeOf (inv_itemId x) d) (itemCodeOf (inv_itemId y) d))
          (filter (\<lambda>r. inv_companyId r = companyId \<and> inv_regionId r = effectiveRegionId \<and> inv_quantity r > 0)
            (inventories d)))))"

subsection \<open>The market\<close>

text \<open>A filter that is left out admits every row; \<open>gte\<close> and \<open>lte\<close> likewise.\<close>

definition admits :: "'a option \<Rightarrow> 'a \<Rightarrow> bool" where
  "admits f x = (case f of None \<Rightarrow> True | Some y \<Rightarrow> x = y)"

definition atLeast :: "jsnum option \<Rightarrow> int \<Rightarrow> bool" where
  "atLeast f x = (case f of None \<Rightarrow> True | Some n \<Rightarrow> num n \<le> x)"

definition atMost :: "jsnum option \<Rightarrow> int \<Rightarrow> bool" where
  "atMost f x = (case f of None \<Rightarrow> True | Some n \<Rightarrow> x \<le> num n)"

definition checkLimit :: "jsnum option \<Rightarrow> int \<Rightarrow> int \<Rightarrow> nat result" where
  "checkLimit given fallback most =
     (let limit = orDefault given (IntN fallback) in
      if \<not> isInteger limit \<or> num limit < 1 \<or> num limit > most
      then Inl (DomainInvariantError (''limit must be an integer between 1 and '' @ showInt most))
      else Inr (nat (num limit)))"

definition checkTickRange :: "jsnum option \<Rightarrow> jsnum option \<Rightarrow> unit result" where
  "checkTickRange fromTick toTick =
     (if badTick fromTick then Inl (DomainInvariantError ''fromTick must be a non-negative integer'')
      else if badTick toTick then Inl (DomainInvariantError ''toTick must be a non-negative integer'')
      else if fromTick \<noteq> None \<and> toTick \<noteq> None \<and> num (the fromTick) > num (the toTick)
        then Inl (DomainInvariantError ''fromTick cannot be greater than toTick'')
      else Inr ())"

record marketOrderFilters =
  mf_itemId :: "string option"
  mf_regionId :: "string option"
  mf_side :: "orderSide option"
  mf_status :: "orderStatus option"
  mf_companyId :: "string option"
  mf_limit :: "jsnum option"

definition listMarketOrders :: "marketOrderFilters \<Rightarrow> db \<Rightarrow> marketOrder list result" where
  "listMarketOrders filters d =
     andThen (checkLimit (mf_limit filters) 100 500) (\<lambda>limit.
     Inr (take limit (sortBy (cmpKey (\<lambda>x. - ord_createdAt x))
       (filter (\<lambda>x. admits (mf_itemId filters) (ord_itemId x) \<and> admits (mf_regionId filters) (ord_regionId x) \<and>
          admits (mf_side filters) (ord_side x) \<and> admits (mf_status filters) (ord_status x) \<and>
          admits (mf_companyId filters) (ord_companyId x)) (marketOrders d)))))"

record marketTradeFilters =
  tf_itemId :: "string option"
  tf_regionId :: "string option"
  tf_companyId :: "string option"
  tf_limit :: "jsnum option"

text \<open>An empty company id is no filter.\<close>

definition listMarketTrades :: "marketTradeFilters \<Rightarrow> db \<Rightarrow> trade list result" where
  "listMarketTrades filters d =
     andThen (checkLimit (tf_limit filters) 50 200) (\<lambda>limit.
     Inr (take limit (sortBy (cmpThen (cmpKey (\<lambda>t. - tr_tick t)) (cmpKey (\<lambda>t. - tr_createdAt t)))
       (filter (\<lambda>t. admits (tf_itemId filters) (tr_itemId t) \<and> admits (tf_regionId filters) (tr_regionId t) \<and>
          (case tf_companyId filters of None \<Rightarrow> True
           | Some c \<Rightarrow> c = [] \<or> tr_buyerCompanyId t = c \<or> tr_sellerCompanyId t = c)) (trades d)))))"

record marketCandleFilters =
  kf_itemId :: string
  kf_regionId :: string
  kf_fromTick :: "jsnum option"
  kf_toTick :: "jsnum option"
  kf_limit :: "jsnum option"

definition checkItemAndRegion :: "string \<Rightarrow> string \<Rightarrow> db \<Rightarrow> unit result" where
  "checkItemAndRegion itemId regionId d =
     (if findItem itemId d = None then Inl (NotFoundError (''item '' @ itemId @ '' not found''))
      else if rowFind rg_id regionId (regions d) = None
        then Inl (NotFoundError (''region '' @ regionId @ '' not found''))
      else Inr ())"

definition listMarketCandles :: "marketCandleFilters \<Rightarrow> db \<Rightarrow> itemTickCandle list result" where
  "listMarketCandles filters d =
     (if kf_itemId filters = [] then Inl (DomainInvariantError ''itemId is required'')
      else if kf_regionId filters = [] then Inl (DomainInvariantError ''regionId is required'')
      else
        andThen (checkLimit (kf_limit filters) 200 2000) (\<lambda>limit.
        andThen (checkTickRange (kf_fromTick filters) (kf_toTick filters)) (\<lambda>_.
        andThen (checkItemAndRegion (kf_itemId filters) (kf_regionId filters) d) (\<lambda>_.
        Inr (rev (take limit (sortBy (cmpKey (\<lambda>c. - cd_tick c))
          (filter (\<lambda>c. cd_itemId c = kf_itemId filters \<and> cd_regionId c = kf_regionId filters \<and>
             atLeast (kf_fromTick filters) (cd_tick c) \<and> atMost (kf_toTick filters) (cd_tick c))
            (itemTickCandles d)))))))))"

record marketAnalyticsSummary =
  as_fromTick :: int
  as_toTick :: int
  as_candleCount :: int
  as_lastPriceCents :: "int option"
  as_changePctBps :: "int option"
  as_highCents :: "int option"
  as_lowCents :: "int option"
  as_avgVolumeQty :: int
  as_totalVolumeQty :: int
  as_vwapCents :: "int option"

definition windowStart :: "int \<Rightarrow> int \<Rightarrow> int" where
  "windowStart currentTick windowTicks = max 0 (currentTick - windowTicks + 1)"

text \<open>The loop over the candles: high, low, total volume, volume-weighted notional.\<close>

definition addCandle :: "itemTickCandle \<Rightarrow> int \<times> int \<times> int \<times> int \<Rightarrow> int \<times> int \<times> int \<times> int" where
  "addCandle c = (\<lambda>(high, low, totalVolumeQty, weightedNotional).
     (if cd_highCents c > high then cd_highCents c else high,
      if cd_lowCents c < low then cd_lowCents c else low,
      totalVolumeQty + cd_volumeQty c,
      case cd_vwapCents c of
        None \<Rightarrow> weightedNotional
      | Some v \<Rightarrow> if cd_volumeQty c > 0 then weightedNotional + v * cd_volumeQty c else weightedNotional))"

definition changePct :: "int \<Rightarrow> int \<Rightarrow> int option" where
  "changePct firstOpen lastClose =
     (if firstOpen > 0 then
        (let numerator = (lastClose - firstOpen) * 10000 in
         Some (if numerator \<ge> 0 then (numerator + firstOpen sdiv 2) sdiv firstOpen
               else (numerator - firstOpen sdiv 2) sdiv firstOpen))
      else None)"

definition summarizeCandles :: "int \<Rightarrow> int \<Rightarrow> itemTickCandle list \<Rightarrow> marketAnalyticsSummary" where
  "summarizeCandles fromTick toTick candles =
     (if candles = [] then
        \<lparr>as_fromTick = fromTick, as_toTick = toTick, as_candleCount = 0, as_lastPriceCents = None,
         as_changePctBps = None, as_highCents = None, as_lowCents = None, as_avgVolumeQty = 0,
         as_totalVolumeQty = 0, as_vwapCents = None\<rparr>
      else
        (let firstCandle = hd candles; lastCandle = last candles;
             (high, low, totalVolumeQty, weightedNotional) =
               fold addCandle candles (cd_highCents firstCandle, cd_lowCents firstCandle, 0, 0);
             n = int (length candles) in
         \<lparr>as_fromTick = fromTick, as_toTick = toTick, as_candleCount = n,
          as_lastPriceCents = Some (cd_closeCents lastCandle),
          as_changePctBps = changePct (cd_openCents firstCandle) (cd_closeCents lastCandle),
          as_highCents = Some high, as_lowCents = Some low,
          as_avgVolumeQty = (2 * totalVolumeQty + n) div (2 * n), as_totalVolumeQty = totalVolumeQty,
          as_vwapCents = (if totalVolumeQty > 0
            then Some ((weightedNotional + totalVolumeQty div 2) sdiv totalVolumeQty) else None)\<rparr>))"

definition getMarketAnalyticsSummary ::
    "string \<Rightarrow> string \<Rightarrow> jsnum option \<Rightarrow> db \<Rightarrow> marketAnalyticsSummary result" where
  "getMarketAnalyticsSummary itemId regionId windowTicks d =
     (let windowTicks = orDefault windowTicks (IntN 200) in
      if itemId = [] then Inl (DomainInvariantError ''itemId is required'')
      else if regionId = [] then Inl (DomainInvariantError ''regionId is required'')
      else if \<not> isInteger windowTicks \<or> num windowTicks < 1 \<or> num windowTicks > 10000
        then Inl (DomainInvariantError ''windowTicks must be an integer between 1 and 10000'')
      else
        andThen (checkItemAndRegion itemId regionId d) (\<lambda>_.
        (let toTick = worldTick d; fromTick = windowStart toTick (num windowTicks) in
         Inr (summarizeCandles fromTick toTick
           (sortBy (cmpKey cd_tick) (filter (\<lambda>c. cd_itemId c = itemId \<and> cd_regionId c = regionId \<and>
              fromTick \<le> cd_tick c \<and> cd_tick c \<le> toTick) (itemTickCandles d)))))))"

subsection \<open>Items and recipes\<close>

definition unlockedIconTierOf :: "string \<Rightarrow> db \<Rightarrow> int" where
  "unlockedIconTierOf companyId d =
     resolvePlayerUnlockedIconTierFromResearchCodes (completedResearchCodes companyId d)"

definition listItems :: "env \<Rightarrow> string option \<Rightarrow> db \<Rightarrow> item list result" where
  "listItems E companyId d =
     (let rows = sortBy (\<lambda>x y. env_textCompare E (it_code x) (it_code y)) (items d) in
      case companyId of
        None \<Rightarrow> Inr rows
      | Some cid \<Rightarrow>
        if cid = [] then Inr rows
        else
          (case findCompany cid d of
            None \<Rightarrow> Inl (NotFoundError (''company '' @ cid @ '' not found''))
          | Some company \<Rightarrow>
            if \<not> co_isPlayer company then Inr rows
            else Inr (filter (\<lambda>item.
              if isItemCodeLockedByIconTier (it_code item) (unlockedIconTierOf cid d) then False
              else \<not> isItemCodeLockedBySpecialization (it_code item) (co_specialization company)) rows)))"

text \<open>What the lock tests read of a recipe, with its joins.\<close>

definition recipeLock :: "env \<Rightarrow> recipe \<Rightarrow> db \<Rightarrow> recipeForItemTierLock" where
  "recipeLock E recipe d =
     \<lparr>outputItemCode = itemCodeOf (rc_outputItemId recipe) d,
      inputItemCodes = map (\<lambda>i. itemCodeOf (ri_itemId i) d) (inputsOf E (rc_id recipe) d)\<rparr>"

definition applyItemAccessLock ::
    "env \<Rightarrow> string \<Rightarrow> company option \<Rightarrow> recipe list \<Rightarrow> db \<Rightarrow> recipe list" where
  "applyItemAccessLock E companyId company found d =
     (case company of
       None \<Rightarrow> found
     | Some c \<Rightarrow>
       if \<not> co_isPlayer c then found
       else filter (\<lambda>recipe.
         \<not> isRecipeLockedByIconTier (recipeLock E recipe d) (unlockedIconTierOf companyId d) \<and>
         \<not> isRecipeLockedBySpecialization (recipeLock E recipe d) (co_specialization c)) found)"

definition unlockedRecipes :: "env \<Rightarrow> string \<Rightarrow> db \<Rightarrow> recipe list" where
  "unlockedRecipes E companyId d =
     sortBy (\<lambda>x y. env_textCompare E (rc_code x) (rc_code y))
       (filter (\<lambda>r. list_ex (\<lambda>cr. cr_recipeId cr = rc_id r \<and> cr_companyId cr = companyId \<and> cr_isUnlocked cr)
          (companyRecipes d)) (recipes d))"

definition listRecipes :: "env \<Rightarrow> string option \<Rightarrow> db \<Rightarrow> recipe list" where
  "listRecipes E companyId d =
     (let allRecipes = sortBy (\<lambda>x y. env_textCompare E (rc_code x) (rc_code y)) (recipes d) in
      case companyId of
        None \<Rightarrow> allRecipes
      | Some cid \<Rightarrow>
        if cid = [] then allRecipes
        else
          (let company = findCompany cid d; unlocked = unlockedRecipes E cid d in
           if unlocked \<noteq> [] then applyItemAccessLock E cid company unlocked d
           else if isLegacyCompanyRecipeState cid d
             then applyItemAccessLock E cid company allRecipes d
           else applyItemAccessLock E cid company unlocked d))"

record productionJobFilters =
  jf_companyId :: "string option"
  jf_status :: "productionJobStatus option"
  jf_limit :: "jsnum option"

definition listProductionJobs :: "productionJobFilters \<Rightarrow> db \<Rightarrow> productionJob list result" where
  "listProductionJobs filters d =
     andThen (checkLimit (jf_limit filters) 100 500) (\<lambda>limit.
     Inr (take limit (sortBy (cmpKey (\<lambda>j. - pj_createdAt j))
       (filter (\<lambda>j. admits (jf_companyId filters) (pj_companyId j) \<and> admits (jf_status filters) (pj_status j))
         (productionJobs d)))))"

subsection \<open>The ledger and the finance summary\<close>

record ledgerCursor =
  lk_createdAt :: int
  lk_id :: string

record companyLedgerFilters =
  lf_companyId :: string
  lf_fromTick :: "jsnum option"
  lf_toTick :: "jsnum option"
  lf_entryType :: "ledgerEntryType option"
  lf_referenceType :: "string option"
  lf_referenceId :: "string option"
  lf_limit :: "jsnum option"
  lf_cursor :: "ledgerCursor option"

record ledgerPage =
  entries :: "ledgerEntry list"
  nextCursor :: "ledgerCursor option"

definition ledgerMatches :: "companyLedgerFilters \<Rightarrow> ledgerEntry \<Rightarrow> bool" where
  "ledgerMatches filters e \<longleftrightarrow>
     le_companyId e = lf_companyId filters \<and>
     atLeast (lf_fromTick filters) (le_tick e) \<and> atMost (lf_toTick filters) (le_tick e) \<and>
     admits (lf_entryType filters) (le_entryType e) \<and>
     admits (lf_referenceType filters) (le_referenceType e) \<and>
     (case lf_referenceId filters of None \<Rightarrow> True
      | Some part \<Rightarrow> strIncludes (toLowerCase (le_referenceId e)) (toLowerCase part))"

definition beyondCursor :: "env \<Rightarrow> ledgerCursor \<Rightarrow> ledgerEntry \<Rightarrow> bool" where
  "beyondCursor E c e \<longleftrightarrow>
     le_createdAt e < lk_createdAt c \<or>
     le_createdAt e = lk_createdAt c \<and> env_textCompare E (le_id e) (lk_id c) < 0"

definition newestFirst :: "env \<Rightarrow> ledgerEntry \<Rightarrow> ledgerEntry \<Rightarrow> int" where
  "newestFirst E = cmpThen (cmpKey (\<lambda>e. - le_createdAt e)) (\<lambda>x y. env_textCompare E (le_id y) (le_id x))"

definition getCompanyLedger :: "env \<Rightarrow> companyLedgerFilters \<Rightarrow> db \<Rightarrow> ledgerPage result" where
  "getCompanyLedger E filters d =
     (if lf_companyId filters = [] then Inl (DomainInvariantError ''companyId is required'')
      else
        andThen (checkLimit (lf_limit filters) 100 500) (\<lambda>limit.
        andThen (checkTickRange (lf_fromTick filters) (lf_toTick filters)) (\<lambda>_.
        case findCompany (lf_companyId filters) d of
          None \<Rightarrow> Inl (NotFoundError (''company '' @ lf_companyId filters @ '' not found''))
        | Some _ \<Rightarrow>
          (let rows = take (limit + 1) (sortBy (newestFirst E)
                 (filter (\<lambda>e. ledgerMatches filters e \<and>
                    (case lf_cursor filters of None \<Rightarrow> True | Some c \<Rightarrow> beyondCursor E c e))
                   (ledgerEntries d)));
               hasMore = (length rows > limit);
               shown = (if hasMore then take limit rows else rows) in
           Inr \<lparr>entries = shown,
                nextCursor = (if hasMore
                  then Some \<lparr>lk_createdAt = le_createdAt (last shown), lk_id = le_id (last shown)\<rparr>
                  else None)\<rparr>))))"

record entryTypeTotal =
  bt_entryType :: ledgerEntryType
  bt_deltaCashCents :: int
  bt_deltaReservedCashCents :: int
  bt_count :: int

record financeSummary =
  fs_startingCashCents :: int
  fs_endingCashCents :: int
  fs_totalDeltaCashCents :: int
  fs_totalDeltaReservedCashCents :: int
  fs_breakdown :: "entryTypeTotal list"
  fs_tradesCount :: int
  fs_ordersPlacedCount :: int
  fs_ordersCancelledCount :: int
  fs_productionsCompletedCount :: int

fun showEntryType :: "ledgerEntryType \<Rightarrow> string" where
  "showEntryType ORDER_RESERVE = ''ORDER_RESERVE''"
| "showEntryType TRADE_SETTLEMENT = ''TRADE_SETTLEMENT''"
| "showEntryType CONTRACT_SETTLEMENT = ''CONTRACT_SETTLEMENT''"
| "showEntryType SHIPMENT_FEE = ''SHIPMENT_FEE''"
| "showEntryType RESEARCH_PAYMENT = ''RESEARCH_PAYMENT''"
| "showEntryType PRODUCTION_COMPLETION = ''PRODUCTION_COMPLETION''"
| "showEntryType PRODUCTION_COST = ''PRODUCTION_COST''"
| "showEntryType WORKFORCE_SALARY_EXPENSE = ''WORKFORCE_SALARY_EXPENSE''"
| "showEntryType WORKFORCE_RECRUITMENT_EXPENSE = ''WORKFORCE_RECRUITMENT_EXPENSE''"
| "showEntryType BUILDING_OPERATING_COST = ''BUILDING_OPERATING_COST''"
| "showEntryType BUILDING_ACQUISITION = ''BUILDING_ACQUISITION''"
| "showEntryType MANUAL_ADJUSTMENT = ''MANUAL_ADJUSTMENT''"

text \<open>The map from entry types to their totals, in order of first insertion.\<close>

definition addToBreakdown :: "ledgerEntry \<Rightarrow> entryTypeTotal list \<Rightarrow> entryTypeTotal list" where
  "addToBreakdown e breakdown =
     (case rowFind bt_entryType (le_entryType e) breakdown of
       Some _ \<Rightarrow> rowSet bt_entryType (le_entryType e)
         (\<lambda>b. b\<lparr>bt_deltaCashCents := bt_deltaCashCents b + le_deltaCashCents e,
               bt_deltaReservedCashCents := bt_deltaReservedCashCents b + le_deltaReservedCashCents e,
               bt_count := bt_count b + 1\<rparr>) breakdown
     | None \<Rightarrow> breakdown @
         [\<lparr>bt_entryType = le_entryType e, bt_deltaCashCents = le_deltaCashCents e,
           bt_deltaReservedCashCents = le_deltaReservedCashCents e, bt_count = 1\<rparr>])"

definition getFinanceSummary :: "env \<Rightarrow> string \<Rightarrow> jsnum option \<Rightarrow> db \<Rightarrow> financeSummary result" where
  "getFinanceSummary E companyId windowTicks d =
     (let windowTicks = orDefault windowTicks (IntN 100) in
      if companyId = [] then Inl (DomainInvariantError ''companyId is required'')
      else if \<not> isInteger windowTicks \<or> num windowTicks \<le> 0 \<or> num windowTicks > 10000
        then Inl (DomainInvariantError ''windowTicks must be an integer between 1 and 10000'')
      else
        (case findCompany companyId d of
          None \<Rightarrow> Inl (NotFoundError (''company '' @ companyId @ '' not found''))
        | Some company \<Rightarrow>
          (let toTick = worldTick d; fromTick = windowStart toTick (num windowTicks);
               inWindow = (\<lambda>t. fromTick \<le> t \<and> t \<le> toTick);
               found = sortBy (cmpThen (cmpKey le_createdAt) (\<lambda>x y. env_textCompare E (le_id x) (le_id y)))
                 (filter (\<lambda>e. le_companyId e = companyId \<and> inWindow (le_tick e)) (ledgerEntries d));
               totalDelta = fold (\<lambda>e n. n + le_deltaCashCents e) found 0;
               totalReserved = fold (\<lambda>e n. n + le_deltaReservedCashCents e) found 0;
               endingCash = (if found \<noteq> [] then le_balanceAfterCents (last found) else co_cashCents company) in
           Inr \<lparr>fs_startingCashCents = endingCash - totalDelta, fs_endingCashCents = endingCash,
                fs_totalDeltaCashCents = totalDelta, fs_totalDeltaReservedCashCents = totalReserved,
                fs_breakdown = sortBy (\<lambda>x y. env_localeCompare E (showEntryType (bt_entryType x))
                    (showEntryType (bt_entryType y))) (fold addToBreakdown found []),
                fs_tradesCount = countWhere (\<lambda>t. inWindow (tr_tick t) \<and>
                    (tr_buyerCompanyId t = companyId \<or> tr_sellerCompanyId t = companyId)) (trades d),
                fs_ordersPlacedCount = countWhere (\<lambda>x. ord_companyId x = companyId \<and>
                    inWindow (ord_tickPlaced x)) (marketOrders d),
                fs_ordersCancelledCount = countWhere (\<lambda>x. ord_companyId x = companyId \<and>
                    ord_status x = OrderCANCELLED \<and>
                    (case ord_tickClosed x of None \<Rightarrow> False | Some t \<Rightarrow> inWindow t)) (marketOrders d),
                fs_productionsCompletedCount = countWhere (\<lambda>j. pj_companyId j = companyId \<and>
                    pj_status j = JobCOMPLETED \<and>
                    (case pj_completedTick j of None \<Rightarrow> False | Some t \<Rightarrow> inWindow t)) (productionJobs d)\<rparr>)))"

record simulationHealth =
  hs_currentTick :: int
  hs_lockVersion :: int
  hs_lastAdvancedAt :: "int option"
  hs_ordersOpenCount :: int
  hs_ordersTotalCount :: int
  hs_tradesLast100Count :: int
  hs_companiesCount :: int
  hs_botsCount :: int
  hs_sumCashCents :: int
  hs_sumReservedCashCents :: int
  hs_invariants :: invariantScanResult

definition getSimulationHealth :: "env \<Rightarrow> jsnum option \<Rightarrow> db \<Rightarrow> simulationHealth" where
  "getSimulationHealth E invariantIssueLimit d =
     \<lparr>hs_currentTick = worldTick d,
      hs_lockVersion = (case worldTickRow d of None \<Rightarrow> 0 | Some w \<Rightarrow> ws_lockVersion w),
      hs_lastAdvancedAt = (case worldTickRow d of None \<Rightarrow> None | Some w \<Rightarrow> ws_lastAdvancedAt w),
      hs_ordersOpenCount = countWhere (\<lambda>x. ord_status x = OrderOPEN) (marketOrders d),
      hs_ordersTotalCount = int (length (marketOrders d)),
      hs_tradesLast100Count = int (length (take 100
        (sortBy (cmpThen (cmpKey (\<lambda>t. - tr_tick t)) (cmpKey (\<lambda>t. - tr_createdAt t))) (trades d)))),
      hs_companiesCount = int (length (companies d)),
      hs_botsCount = countWhere (\<lambda>c. \<not> co_isPlayer c) (companies d),
      hs_sumCashCents = totalCash d,
      hs_sumReservedCashCents = (\<Sum>c\<leftarrow>companies d. co_reservedCashCents c),
      hs_invariants = scanSimulationInvariants E (Some (orDefault invariantIssueLimit (IntN 20))) d\<rparr>"

subsection \<open>Paging through the ledger\<close>

context comparator
begin

lemma filter_insertBy:
  assumes "sorted_wrt (\<lambda>a b. cmp a b \<le> 0) ys"
  shows "filter P (insertBy cmp x ys) = (if P x then insertBy cmp x (filter P ys) else filter P ys)"
  using assms
proof (induction ys)
  case Nil
  show ?case by simp
next
  case (Cons y ys)
  show ?case
  proof (cases "cmp x y \<le> 0")
    case True
    have "insertBy cmp x (filter P ys) = x # filter P ys"
    proof (cases "filter P ys")
      case (Cons z zs)
      then have "z \<in> set ys" by (metis filter_is_subset list.set_intros(1) subsetD)
      with Cons.prems have "cmp y z \<le> 0" by simp
      with True have "cmp x z \<le> 0" by (rule cmp_trans)
      then show ?thesis by (simp add: Cons)
    qed simp
    with True show ?thesis by simp
  next
    case False
    with Cons show ?thesis by simp
  qed
qed

lemma filter_sortBy: "filter P (sortBy cmp xs) = sortBy cmp (filter P xs)"
  by (induction xs) (simp_all add: filter_insertBy sorted_sortBy)

end

text \<open>What the collation of text promises: a total order of the strings.\<close>

definition textOrderOk :: "(string \<Rightarrow> string \<Rightarrow> int) \<Rightarrow> bool" where
  "textOrderOk cmp \<longleftrightarrow>
     (\<forall>x y. cmp x y = 0 \<longleftrightarrow> x = y) \<and> (\<forall>x y. 0 < cmp x y \<longleftrightarrow> cmp y x < 0) \<and>
     (\<forall>x y z. cmp x y \<le> 0 \<longrightarrow> cmp y z \<le> 0 \<longrightarrow> cmp x z \<le> 0)"

definition cursorOf :: "ledgerEntry \<Rightarrow> ledgerCursor" where
  "cursorOf e = \<lparr>lk_createdAt = le_createdAt e, lk_id = le_id e\<rparr>"

lemma comparator_newestFirst:
  assumes "textOrderOk (env_textCompare E)"
  shows "comparator (newestFirst E)"
proof (rule comparator.intro)
  show "0 < newestFirst E x y \<Longrightarrow> newestFirst E y x \<le> 0" for x y
    using assms by (auto simp: newestFirst_def cmpThen_def cmpKey_def textOrderOk_def split: if_splits)
  show "newestFirst E x y \<le> 0 \<Longrightarrow> newestFirst E y z \<le> 0 \<Longrightarrow> newestFirst E x z \<le> 0" for x y z
    using assms unfolding newestFirst_def cmpThen_def cmpKey_def textOrderOk_def
    by (smt (verit))
qed

lemma beyond_iff:
  assumes "textOrderOk (env_textCompare E)"
  shows "beyondCursor E (cursorOf x) e \<longleftrightarrow> newestFirst E x e < 0"
  by (auto simp: beyondCursor_def cursorOf_def newestFirst_def cmpThen_def cmpKey_def)

lemma sorted_strictly:
  assumes "sorted_wrt (\<lambda>a b. cmp a b \<le> (0::int)) xs" and "distinct (map f xs)"
    and "\<And>a b. cmp a b = 0 \<Longrightarrow> f a = f b"
  shows "sorted_wrt (\<lambda>a b. cmp a b < 0) xs"
  using assms(1,2)
proof (induction xs)
  case (Cons x xs)
  have "cmp x y < 0" if "y \<in> set xs" for y
  proof -
    from that Cons.prems have "f x \<noteq> f y" "cmp x y \<le> 0" by auto
    with assms(3) [of x y] show ?thesis by force
  qed
  with Cons show ?case by simp
qed simp

lemma strictly_sorted_ledger:
  assumes "textOrderOk (env_textCompare E)" and "distinct (map le_id es)"
  shows "sorted_wrt (\<lambda>a b. newestFirst E a b < 0) (sortBy (newestFirst E) es)"
  using comparator.sorted_sortBy [OF comparator_newestFirst [OF assms(1)]]
proof (rule sorted_strictly)
  show "distinct (map le_id (sortBy (newestFirst E) es))" using assms(2) by simp
  show "newestFirst E a b = 0 \<Longrightarrow> le_id a = le_id b" for a b
    using assms(1) by (auto simp: newestFirst_def cmpThen_def textOrderOk_def split: if_splits)
qed

lemma filter_after:
  assumes "sorted_wrt (\<lambda>a b. cmp a b < (0::int)) xs" and "\<And>a b. cmp a b < 0 \<Longrightarrow> \<not> cmp b a < 0"
    and "n < length xs"
  shows "filter (\<lambda>e. cmp (xs ! n) e < 0) xs = drop (Suc n) xs"
  using assms(1,3)
proof (induction xs arbitrary: n)
  case (Cons x xs)
  show ?case
  proof (cases n)
    case 0
    with Cons.prems assms(2) [of x x] show ?thesis by (auto simp: filter_id_conv)
  next
    case (Suc m)
    with Cons have "filter (\<lambda>e. cmp (xs ! m) e < 0) xs = drop (Suc m) xs" by simp
    moreover have "\<not> cmp (xs ! m) x < 0" using Cons.prems Suc by (intro assms(2)) simp
    ultimately show ?thesis using Suc by simp
  qed
qed simp

text \<open>Following the cursors: a page, and the pages from its cursor on.\<close>

inductive pages :: "env \<Rightarrow> db \<Rightarrow> companyLedgerFilters \<Rightarrow> ledgerEntry list list \<Rightarrow> bool" for E d where
  last_page: "getCompanyLedger E f d = Inr p \<Longrightarrow> nextCursor p = None \<Longrightarrow> pages E d f [entries p]"
| next_page: "getCompanyLedger E f d = Inr p \<Longrightarrow> nextCursor p = Some c \<Longrightarrow>
    pages E d (f\<lparr>lf_cursor := Some c\<rparr>) ps \<Longrightarrow> pages E d f (entries p # ps)"

inductive_cases pagesE: "pages E d f ps"

text \<open>A list cut into pages of \<open>l\<close> rows, the last one possibly shorter; nothing at all is one empty page.\<close>

function cutInto :: "nat \<Rightarrow> 'a list \<Rightarrow> 'a list list" where
  "cutInto l xs = (if l = 0 \<or> length xs \<le> l then [xs] else take l xs # cutInto l (drop l xs))"
  by pat_completeness auto

termination
  by (relation "measure (\<lambda>(l, xs). length xs)") auto

declare cutInto.simps [simp del]

lemma concat_cutInto: "concat (cutInto l xs) = xs"
  by (induction l xs rule: cutInto.induct) (subst cutInto.simps, simp)

lemma cutInto_sizes: "0 < l \<Longrightarrow> ps \<in> set (cutInto l xs) \<Longrightarrow> length ps \<le> l"
  by (induction l xs rule: cutInto.induct) (subst (asm) cutInto.simps, auto split: if_splits)

lemma cutInto_length: "0 < l \<Longrightarrow> length (cutInto l xs) = max 1 ((length xs + l - 1) div l)"
proof (induction l xs rule: cutInto.induct)
  case (1 l xs)
  show ?case
  proof (cases "length xs \<le> l")
    case True
    then have "(length xs + l - 1) div l \<le> 1" using 1(2) by (simp add: div_le_mono less_mult_imp_div_less div_less_iff_less_mult Suc_le_eq less_Suc_eq_le [symmetric])
    with True show ?thesis by (subst cutInto.simps) simp
  next
    case False
    have "length xs + l - 1 = (length xs - 1) + l" using False by simp
    then have "(length xs + l - 1) div l = Suc ((length xs - 1) div l)"
      using 1(2) by (simp only: div_add_self2)
    moreover have "length xs - l + l - 1 = length xs - 1" using False by simp
    moreover have "1 \<le> (length xs - 1) div l"
      using 1(2) False div_le_mono [of l "length xs - 1" l] by simp
    ultimately show ?thesis using 1 False
      by (subst cutInto.simps) (simp add: max_def)
  qed
qed

definition ledgerRows :: "env \<Rightarrow> companyLedgerFilters \<Rightarrow> db \<Rightarrow> ledgerEntry list" where
  "ledgerRows E f d = sortBy (newestFirst E) (filter (ledgerMatches f) (ledgerEntries d))"

definition ledgerLimit :: "companyLedgerFilters \<Rightarrow> nat" where
  "ledgerLimit f = nat (num (orDefault (lf_limit f) (IntN 100)))"

lemma checkLimit_Inr [result_simps]:
  "checkLimit given fallback most = Inr n \<longleftrightarrow>
     isInteger (orDefault given (IntN fallback)) \<and> 1 \<le> num (orDefault given (IntN fallback)) \<and>
     num (orDefault given (IntN fallback)) \<le> most \<and> n = nat (num (orDefault given (IntN fallback)))"
  by (auto simp: checkLimit_def Let_def)

definition cursorAfter :: "ledgerEntry list \<Rightarrow> nat \<Rightarrow> ledgerCursor option" where
  "cursorAfter S n = (if n = 0 then None else Some (cursorOf (S ! (n - 1))))"

lemma ledgerMatches_cursor [simp]: "ledgerMatches (f\<lparr>lf_cursor := c\<rparr>) = ledgerMatches f"
  by (rule ext) (simp add: ledgerMatches_def)

lemma getCompanyLedger_accepts:
  assumes "getCompanyLedger E f d = Inr p0"
  shows "0 < ledgerLimit f" and
    "getCompanyLedger E (f\<lparr>lf_cursor := c\<rparr>) d =
      (let rows = take (ledgerLimit f + 1) (sortBy (newestFirst E) (filter (\<lambda>e. ledgerMatches f e \<and>
             (case c of None \<Rightarrow> True | Some c \<Rightarrow> beyondCursor E c e)) (ledgerEntries d)));
           shown = (if length rows > ledgerLimit f then take (ledgerLimit f) rows else rows) in
       Inr \<lparr>entries = shown,
         nextCursor = (if length rows > ledgerLimit f then Some (cursorOf (last shown)) else None)\<rparr>)"
proof -
  from assms have ok: "lf_companyId f \<noteq> []" "checkLimit (lf_limit f) 100 500 = Inr (ledgerLimit f)"
    "checkTickRange (lf_fromTick f) (lf_toTick f) = Inr ()" "findCompany (lf_companyId f) d \<noteq> None"
    and "0 < ledgerLimit f"
    by (auto simp: getCompanyLedger_def result_simps ledgerLimit_def split: if_splits option.splits)
  then show "0 < ledgerLimit f" by simp
  from ok show "getCompanyLedger E (f\<lparr>lf_cursor := c\<rparr>) d =
      (let rows = take (ledgerLimit f + 1) (sortBy (newestFirst E) (filter (\<lambda>e. ledgerMatches f e \<and>
             (case c of None \<Rightarrow> True | Some c \<Rightarrow> beyondCursor E c e)) (ledgerEntries d)));
           shown = (if length rows > ledgerLimit f then take (ledgerLimit f) rows else rows) in
       Inr \<lparr>entries = shown,
         nextCursor = (if length rows > ledgerLimit f then Some (cursorOf (last shown)) else None)\<rparr>)"
    by (auto simp: getCompanyLedger_def cursorOf_def Let_def)
qed

lemma rows_after:
  assumes "textOrderOk (env_textCompare E)" and "distinct (map le_id (ledgerEntries d))"
    and "n \<le> length (ledgerRows E f d)"
  shows "sortBy (newestFirst E) (filter (\<lambda>e. ledgerMatches f e \<and>
      (case cursorAfter (ledgerRows E f d) n of None \<Rightarrow> True | Some c \<Rightarrow> beyondCursor E c e)) (ledgerEntries d)) =
    drop n (ledgerRows E f d)"
proof -
  let ?S = "ledgerRows E f d"
  have asym: "newestFirst E a b < 0 \<Longrightarrow> \<not> newestFirst E b a < 0" for a b
    using assms(1) unfolding newestFirst_def cmpThen_def cmpKey_def textOrderOk_def by (smt (verit))
  have "filter (\<lambda>e. case cursorAfter ?S n of None \<Rightarrow> True | Some c \<Rightarrow> beyondCursor E c e) ?S = drop n ?S"
  proof (cases n)
    case 0
    then show ?thesis by (simp add: cursorAfter_def)
  next
    case (Suc m)
    have "distinct (map le_id (filter (ledgerMatches f) (ledgerEntries d)))"
      using assms(2) by (rule distinct_map_filter)
    note sorted = strictly_sorted_ledger [OF assms(1) this, folded ledgerRows_def]
    from filter_after [OF sorted asym] Suc assms(1,3) show ?thesis by (simp add: cursorAfter_def beyond_iff)
  qed
  moreover have "sortBy (newestFirst E) (filter (\<lambda>e. ledgerMatches f e \<and>
      (case cursorAfter ?S n of None \<Rightarrow> True | Some c \<Rightarrow> beyondCursor E c e)) (ledgerEntries d)) =
    filter (\<lambda>e. case cursorAfter ?S n of None \<Rightarrow> True | Some c \<Rightarrow> beyondCursor E c e) ?S"
    by (simp add: ledgerRows_def comparator.filter_sortBy [OF comparator_newestFirst [OF assms(1)]] conj_commute)
  ultimately show ?thesis by simp
qed

lemma ledger_page:
  assumes "getCompanyLedger E f d = Inr p0" and "textOrderOk (env_textCompare E)"
    and "distinct (map le_id (ledgerEntries d))" and "n \<le> length (ledgerRows E f d)"
  shows "getCompanyLedger E (f\<lparr>lf_cursor := cursorAfter (ledgerRows E f d) n\<rparr>) d = Inr
      \<lparr>entries = take (ledgerLimit f) (drop n (ledgerRows E f d)),
       nextCursor = (if n + ledgerLimit f < length (ledgerRows E f d)
         then cursorAfter (ledgerRows E f d) (n + ledgerLimit f) else None)\<rparr>"
proof -
  let ?S = "ledgerRows E f d" and ?l = "ledgerLimit f"
  note page = getCompanyLedger_accepts [OF assms(1)]
  have "last (take ?l (drop n ?S)) = ?S ! (n + ?l - 1)" if "n + ?l < length ?S"
    using that page(1) by (subst last_conv_nth) auto
  moreover have "0 < n + ?l" using page(1) by simp
  ultimately show ?thesis
    unfolding page(2) rows_after [OF assms(2-4)] using page(1)
    by (auto simp: Let_def min_def cursorAfter_def)
qed

lemma pages_from:
  assumes "getCompanyLedger E f d = Inr p0" and "textOrderOk (env_textCompare E)"
    and "distinct (map le_id (ledgerEntries d))" and "n \<le> length (ledgerRows E f d)"
  shows "pages E d (f\<lparr>lf_cursor := cursorAfter (ledgerRows E f d) n\<rparr>) ps \<longleftrightarrow>
    ps = cutInto (ledgerLimit f) (drop n (ledgerRows E f d))"
  using assms(4)
proof (induction "length (ledgerRows E f d) - n" arbitrary: n ps rule: less_induct)
  case less
  let ?S = "ledgerRows E f d" and ?l = "ledgerLimit f"
  let ?g = "f\<lparr>lf_cursor := cursorAfter ?S n\<rparr>"
  note page = ledger_page [OF assms(1-3) less.prems]
  have pos: "0 < ?l" by (rule getCompanyLedger_accepts [OF assms(1)])
  show ?case
  proof (cases "n + ?l < length ?S")
    case False
    with page have page: "getCompanyLedger E ?g d = Inr \<lparr>entries = drop n ?S, nextCursor = None\<rparr>" by simp
    have cut: "cutInto ?l (drop n ?S) = [drop n ?S]" using False by (subst cutInto.simps) auto
    have "pages E d ?g [drop n ?S]" using last_page [OF page] by simp
    moreover have "pages E d ?g ps \<Longrightarrow> ps = [drop n ?S]" by (erule pagesE) (use page in auto)
    ultimately show ?thesis unfolding cut by blast
  next
    case True
    with page pos have page: "getCompanyLedger E ?g d =
        Inr \<lparr>entries = take ?l (drop n ?S), nextCursor = Some (cursorOf (?S ! (n + ?l - 1)))\<rparr>"
      by (simp add: cursorAfter_def)
    have cut: "cutInto ?l (drop n ?S) = take ?l (drop n ?S) # cutInto ?l (drop (n + ?l) ?S)"
    proof -
      have "\<not> length (drop n ?S) \<le> ?l" using True by simp
      then show ?thesis using pos by (subst cutInto.simps) (simp add: add.commute del: length_drop)
    qed
    have rest: "pages E d (?g\<lparr>lf_cursor := Some (cursorOf (?S ! (n + ?l - 1)))\<rparr>) qs \<longleftrightarrow>
        qs = cutInto ?l (drop (n + ?l) ?S)" for qs
      using less.hyps [of "n + ?l" qs] True pos by (simp add: cursorAfter_def)
    have "pages E d ?g (take ?l (drop n ?S) # cutInto ?l (drop (n + ?l) ?S))"
      using next_page [OF page, of "cursorOf (?S ! (n + ?l - 1))"] rest by simp
    moreover have "ps = take ?l (drop n ?S) # cutInto ?l (drop (n + ?l) ?S)" if "pages E d ?g ps"
      using that
    proof (cases rule: pages.cases)
      case (last_page p)
      with page show ?thesis by simp
    next
      case (next_page p c qs)
      from next_page(2) page have "p = \<lparr>entries = take ?l (drop n ?S), nextCursor = Some (cursorOf (?S ! (n + ?l - 1)))\<rparr>"
        by simp
      with next_page(1,3,4) rest show ?thesis by auto
    qed
    ultimately show ?thesis unfolding cut by blast
  qed
qed

text \<open>
  C38. Paging through the ledger is complete and ends: when a first page without a cursor is
  accepted, with \<open>l\<close> rows to a page, following the cursors ends after exactly \<open>max 1 \<lceil>n / l\<rceil>\<close> pages, where
  \<open>n\<close> is the number of entries that match the filter, no page has more than \<open>l\<close> entries, and together
  they are the matching entries, each once, newest first (by time and then by id in the collation's
  order); there is no other way to follow the cursors.
\<close>

theorem ledger_pages_complete:
  assumes "getCompanyLedger E f d = Inr p" and "lf_cursor f = None" and "textOrderOk (env_textCompare E)"
    and "distinct (map le_id (ledgerEntries d))"
  shows "\<exists>ps. (\<forall>qs. pages E d f qs \<longleftrightarrow> qs = ps) \<and>
    length ps = max 1 ((length (filter (ledgerMatches f) (ledgerEntries d)) + ledgerLimit f - 1) div ledgerLimit f) \<and>
    (\<forall>page\<in>set ps. length page \<le> ledgerLimit f) \<and>
    concat ps = sortBy (newestFirst E) (filter (ledgerMatches f) (ledgerEntries d))"
proof -
  let ?ps = "cutInto (ledgerLimit f) (ledgerRows E f d)"
  have pos: "0 < ledgerLimit f" by (rule getCompanyLedger_accepts [OF assms(1)])
  have "f\<lparr>lf_cursor := None\<rparr> = f" using assms(2) by simp
  with pages_from [OF assms(1,3,4), of 0] have "\<forall>qs. pages E d f qs \<longleftrightarrow> qs = ?ps" by (simp add: cursorAfter_def)
  moreover have "length ?ps = max 1 ((length (filter (ledgerMatches f) (ledgerEntries d)) + ledgerLimit f - 1) div ledgerLimit f)"
    using cutInto_length [OF pos, of "ledgerRows E f d"] by (simp add: ledgerRows_def)
  moreover have "\<forall>page\<in>set ?ps. length page \<le> ledgerLimit f" using cutInto_sizes [OF pos] by blast
  moreover have "concat ?ps = sortBy (newestFirst E) (filter (ledgerMatches f) (ledgerEntries d))"
    by (simp add: concat_cutInto ledgerRows_def)
  ultimately show ?thesis by blast
qed

lemma textOrderOk_textOrder: "textOrderOk textOrder"
proof -
  have zero: "textOrder x y = 0 \<longleftrightarrow> x = y" for x y
    by (induction x y rule: textOrder.induct) auto
  have flip: "textOrder y x = - textOrder x y" for x y
    by (induction x y rule: textOrder.induct) auto
  have trans: "textOrder x y \<le> 0 \<Longrightarrow> textOrder y z \<le> 0 \<Longrightarrow> textOrder x z \<le> 0" for x y z
  proof (induction x y arbitrary: z rule: textOrder.induct)
    case (1 z)
    then show ?case by simp
  next
    case (2 v va z)
    then show ?case by (cases z) auto
  next
    case (3 v va z)
    then show ?case by simp
  next
    case (4 c cs e es z)
    show ?case
    proof (cases z)
      case Nil
      with 4(3) show ?thesis by simp
    next
      case (Cons g gs)
      with 4 show ?thesis by (auto split: if_splits)
    qed
  qed
  have "0 < textOrder x y \<longleftrightarrow> textOrder y x < 0" for x y using flip [of x y] by simp
  with zero trans show ?thesis by (simp add: textOrderOk_def)
qed

definition someLedgerEntry :: "string \<Rightarrow> int \<Rightarrow> ledgerEntry" where
  "someLedgerEntry i n =
     \<lparr>le_id = i, le_companyId = ''a'', le_tick = n, le_entryType = ORDER_RESERVE, le_deltaCashCents = 0,
      le_deltaReservedCashCents = 5, le_balanceAfterCents = 100, le_referenceType = ''ORDER'',
      le_referenceId = i, le_createdAt = n\<rparr>"

definition ledgerDb :: db where
  "ledgerDb = fixtureDb\<lparr>ledgerEntries :=
     [someLedgerEntry ''x'' 1, someLedgerEntry ''y'' 2, someLedgerEntry ''z'' 2, someLedgerEntry ''w'' 3]\<rparr>"

definition twoPerPage :: companyLedgerFilters where
  "twoPerPage = \<lparr>lf_companyId = ''a'', lf_fromTick = None, lf_toTick = None, lf_entryType = None,
     lf_referenceType = None, lf_referenceId = None, lf_limit = Some (IntN 2), lf_cursor = None\<rparr>"

lemma ledger_pages_complete_witness:
  "\<exists>ps. pages fixtureEnv ledgerDb twoPerPage ps \<and> length ps = 2 \<and>
     concat ps = [someLedgerEntry ''w'' 3, someLedgerEntry ''z'' 2, someLedgerEntry ''y'' 2, someLedgerEntry ''x'' 1]"
proof -
  have "getCompanyLedger fixtureEnv twoPerPage ledgerDb = Inr
      \<lparr>entries = [someLedgerEntry ''w'' 3, someLedgerEntry ''z'' 2],
       nextCursor = Some \<lparr>lk_createdAt = 2, lk_id = ''z''\<rparr>\<rparr>"
    by code_simp
  moreover have "lf_cursor twoPerPage = None" by (simp add: twoPerPage_def)
  moreover have "textOrderOk (env_textCompare fixtureEnv)" by (simp add: fixtureEnv_def textOrderOk_textOrder)
  moreover have "distinct (map le_id (ledgerEntries ledgerDb))" by code_simp
  ultimately obtain ps where ps: "\<forall>qs. pages fixtureEnv ledgerDb twoPerPage qs \<longleftrightarrow> qs = ps"
    "length ps = max 1 ((length (filter (ledgerMatches twoPerPage) (ledgerEntries ledgerDb)) + ledgerLimit twoPerPage - 1)
       div ledgerLimit twoPerPage)"
    "concat ps = sortBy (newestFirst fixtureEnv) (filter (ledgerMatches twoPerPage) (ledgerEntries ledgerDb))"
    using ledger_pages_complete by blast
  moreover have "sortBy (newestFirst fixtureEnv) (filter (ledgerMatches twoPerPage) (ledgerEntries ledgerDb)) =
      [someLedgerEntry ''w'' 3, someLedgerEntry ''z'' 2, someLedgerEntry ''y'' 2, someLedgerEntry ''x'' 1]"
    by code_simp
  moreover have "length (filter (ledgerMatches twoPerPage) (ledgerEntries ledgerDb)) = 4" "ledgerLimit twoPerPage = 2"
    by code_simp+
  ultimately show ?thesis by auto
qed

subsection \<open>What a player is shown\<close>

lemma recipeLock_access:
  assumes "co_isPlayer c" and "sj_companyId input = cid"
  shows "checkRecipeAccess E input c r d = Inr () \<longleftrightarrow>
    \<not> isRecipeLockedByIconTier (recipeLock E r d) (unlockedIconTierOf cid d) \<and>
    \<not> isRecipeLockedBySpecialization (recipeLock E r d) (co_specialization c)"
  using assms by (auto simp: checkRecipeAccess_def recipeLock_def unlockedIconTierOf_def Let_def)

lemma applyItemAccessLock_iff:
  assumes "co_isPlayer c" and "sj_companyId input = cid"
  shows "r \<in> set (applyItemAccessLock E cid (Some c) rs d) \<longleftrightarrow>
    r \<in> set rs \<and> checkRecipeAccess E input c r d = Inr ()"
  using assms by (auto simp: applyItemAccessLock_def recipeLock_access [OF assms])

definition recipeUnlocked :: "string \<Rightarrow> recipe \<Rightarrow> db \<Rightarrow> bool" where
  "recipeUnlocked cid r d \<longleftrightarrow> (\<exists>cr\<in>set (companyRecipes d).
     cr_recipeId cr = rc_id r \<and> cr_companyId cr = cid \<and> cr_isUnlocked cr)"

lemma unlockedRecipes_iff: "r \<in> set (unlockedRecipes E cid d) \<longleftrightarrow> r \<in> set (recipes d) \<and> recipeUnlocked cid r d"
  by (auto simp: unlockedRecipes_def recipeUnlocked_def list_ex_iff)

lemma listRecipes_iff:
  assumes "findCompany cid d = Some c" and "co_isPlayer c" and "cid \<noteq> []" and "sj_companyId input = cid"
  shows "r \<in> set (listRecipes E (Some cid) d) \<longleftrightarrow>
    r \<in> set (recipes d) \<and> checkRecipeAccess E input c r d = Inr () \<and>
    (recipeUnlocked cid r d \<or>
     isLegacyCompanyRecipeState cid d \<and> (\<forall>r\<in>set (recipes d). \<not> recipeUnlocked cid r d))"
proof -
  note lock = applyItemAccessLock_iff [OF assms(2,4)]
  have none: "unlockedRecipes E cid d = [] \<longleftrightarrow> (\<forall>r\<in>set (recipes d). \<not> recipeUnlocked cid r d)"
    using unlockedRecipes_iff by (metis empty_iff ex_in_conv list.set(1) set_empty)
  show ?thesis
    using assms(1,3) none
    by (auto simp: listRecipes_def Let_def lock unlockedRecipes_iff)
qed

lemma checkRecipeUnlocked_iff:
  assumes "distinct (map crKey (companyRecipes d))" and "sj_companyId input = cid" and "sj_recipeId input = rc_id r"
    and "co_isPlayer c"
  shows "checkRecipeUnlocked input c r d =
    (if \<not> recipeUnlocked cid r d \<and> \<not> isLegacyCompanyRecipeState cid d
       then Inl (DomainInvariantError (''recipe '' @ rc_id r @ '' is not unlocked for company '' @ cid))
     else if rc_durationTicks r < 0 then Inl (DomainInvariantError ''recipe durationTicks cannot be negative'')
     else validateProductionBuildingAvailable cid d)"
proof -
  let ?found = "rowFind (\<lambda>r. (cr_companyId r, cr_recipeId r)) (cid, rc_id r) (companyRecipes d)"
  have key: "(\<lambda>r. (cr_companyId r, cr_recipeId r)) = crKey" by (simp add: fun_eq_iff crKey_def)
  have "(case ?found of None \<Rightarrow> False | Some x \<Rightarrow> cr_isUnlocked x) \<longleftrightarrow> recipeUnlocked cid r d"
  proof
    assume "case ?found of None \<Rightarrow> False | Some x \<Rightarrow> cr_isUnlocked x"
    then show "recipeUnlocked cid r d"
      by (auto simp: recipeUnlocked_def dest!: rowFind_Some split: option.splits)
  next
    assume "recipeUnlocked cid r d"
    then obtain x where x: "x \<in> set (companyRecipes d)" "crKey x = (cid, rc_id r)" "cr_isUnlocked x"
      by (auto simp: recipeUnlocked_def crKey_def)
    then have "?found = Some x" using rowFind_unique [OF assms(1) x(1)] by (simp add: key)
    with x(3) show "case ?found of None \<Rightarrow> False | Some x \<Rightarrow> cr_isUnlocked x" by simp
  qed
  then show ?thesis using assms(2-4) by (simp add: checkRecipeUnlocked_def Let_def)
qed

text \<open>
  C39. The list of recipes a player is shown agrees with what a start accepts: a recipe shown for
  an owned company never fails a start's lock checks, so that what is left is the recipe's
  duration and a production building; and unless the company's recipe rows are incomplete, a
  start of a recipe that is not shown is refused.
\<close>

theorem recipes_shown_startable:
  assumes "findCompany (sj_companyId input) d = Some c" and "co_isPlayer c" and "sj_companyId input \<noteq> []"
    and "distinct (map crKey (companyRecipes d))"
    and "rowFind rc_id (sj_recipeId input) (recipes d) = Some r"
  shows "if r \<in> set (listRecipes E (Some (sj_companyId input)) d)
    then checkRecipeAccess E input c r d = Inr () \<and>
      (0 \<le> rc_durationTicks r \<longrightarrow>
        checkRecipeUnlocked input c r d = validateProductionBuildingAvailable (sj_companyId input) d)
    else isLegacyCompanyRecipeState (sj_companyId input) d \<or> (\<exists>e. planProductionJob E input d = Inl e)"
proof -
  have r: "r \<in> set (recipes d)" "sj_recipeId input = rc_id r" using assms(5) by (auto dest: rowFind_Some)
  note shown = listRecipes_iff [OF assms(1-3) refl, of r E]
  note unlocked = checkRecipeUnlocked_iff [OF assms(4) refl r(2) assms(2)]
  show ?thesis
  proof (cases "r \<in> set (listRecipes E (Some (sj_companyId input)) d)")
    case True
    with shown show ?thesis by (auto simp: unlocked)
  next
    case False
    have "\<exists>e. planProductionJob E input d = Inl e" if "\<not> isLegacyCompanyRecipeState (sj_companyId input) d"
    proof (cases "validateStartInput input")
      case (Inr u)
      have "(\<exists>e. checkRecipeAccess E input c r d = Inl e) \<or>
          checkRecipeAccess E input c r d = Inr () \<and> (\<exists>e. checkRecipeUnlocked input c r d = Inl e)"
        using False that r(1) shown by (cases "checkRecipeAccess E input c r d") (auto simp: unlocked)
      with Inr assms(1,5) show ?thesis by (auto simp: planProductionJob_def Let_def)
    qed (simp add: planProductionJob_def)
    with False show ?thesis by auto
  qed
qed

text \<open>Evaluation looks a catalogue item up by parsing its code.\<close>

declare catalog_lookup [code]

definition startSmelt :: startProductionJobInput where
  "startSmelt = \<lparr>sj_companyId = ''a'', sj_recipeId = ''smelt'', sj_quantity = IntN 1, sj_tick = None\<rparr>"

lemma recipes_shown_startable_witness:
  "checkRecipeUnlocked startSmelt (mkCompany ''a'' True ''r1'' 100000 600) (hd (recipes fixtureDb)) fixtureDb =
     validateProductionBuildingAvailable ''a'' fixtureDb"
proof -
  let ?c = "mkCompany ''a'' True ''r1'' 100000 600" and ?r = "hd (recipes fixtureDb)"
  have "findCompany (sj_companyId startSmelt) fixtureDb = Some ?c" "sj_companyId startSmelt = ''a''" "co_isPlayer ?c"
    "distinct (map crKey (companyRecipes fixtureDb))"
    "rowFind rc_id (sj_recipeId startSmelt) (recipes fixtureDb) = Some ?r"
    "0 \<le> rc_durationTicks ?r" "listRecipes fixtureEnv (Some ''a'') fixtureDb = [?r]"
    by (code_simp, code_simp, code_simp, code_simp, code_simp, code_simp, code_simp)
  with recipes_shown_startable [of startSmelt fixtureDb ?c ?r fixtureEnv] show ?thesis by simp
qed

subsection \<open>Summaries\<close>

text \<open>What a candle of the market promises.\<close>

definition candleSane :: "itemTickCandle \<Rightarrow> bool" where
  "candleSane c \<longleftrightarrow>
     0 \<le> cd_volumeQty c \<and> 0 < cd_lowCents c \<and>
     cd_lowCents c \<le> cd_closeCents c \<and> cd_closeCents c \<le> cd_highCents c \<and>
     (0 < cd_volumeQty c \<longrightarrow> (\<exists>v. cd_vwapCents c = Some v \<and> cd_lowCents c \<le> v \<and> v \<le> cd_highCents c))"

lemma fold_addCandle:
  assumes "\<forall>c\<in>set cs. candleSane c" and "fold addCandle cs (h, l, q, w) = (h', l', q', w')"
    and "0 \<le> q" and "0 < l" and "l * q \<le> w" and "w \<le> h * q" and "l \<le> h"
  shows "q' = q + (\<Sum>c\<leftarrow>cs. cd_volumeQty c) \<and> h \<le> h' \<and> l' \<le> l \<and> 0 < l' \<and> 0 \<le> q' \<and> l' \<le> h' \<and>
    l' * q' \<le> w' \<and> w' \<le> h' * q' \<and> (\<forall>c\<in>set cs. l' \<le> cd_lowCents c \<and> cd_highCents c \<le> h')"
  using assms
proof (induction cs arbitrary: h l q w)
  case Nil
  then show ?case by simp
next
  case (Cons c cs)
  let ?h = "if cd_highCents c > h then cd_highCents c else h"
  let ?l = "if cd_lowCents c < l then cd_lowCents c else l"
  let ?v = "case cd_vwapCents c of None \<Rightarrow> 0 | Some v \<Rightarrow> if cd_volumeQty c > 0 then v * cd_volumeQty c else 0"
  have c: "candleSane c" using Cons.prems(1) by simp
  then have ends: "cd_lowCents c \<le> cd_highCents c" "0 \<le> cd_volumeQty c" by (auto simp: candleSane_def)
  have add: "addCandle c (h, l, q, w) = (?h, ?l, q + cd_volumeQty c, w + ?v)"
    by (simp add: addCandle_def split: option.split)
  have v: "cd_lowCents c * cd_volumeQty c \<le> ?v" "?v \<le> cd_highCents c * cd_volumeQty c"
    using c by (auto simp: candleSane_def mult_right_mono split: option.splits)
  have l: "?l * q \<le> l * q" "?l * cd_volumeQty c \<le> cd_lowCents c * cd_volumeQty c"
    using Cons.prems(3) ends by (auto intro: mult_right_mono)
  have h: "h * q \<le> ?h * q" "cd_highCents c * cd_volumeQty c \<le> ?h * cd_volumeQty c"
    using Cons.prems(3) ends by (auto intro: mult_right_mono)
  have low: "?l * (q + cd_volumeQty c) \<le> w + ?v"
    unfolding distrib_left using l v(1) Cons.prems(5) by linarith
  have high: "w + ?v \<le> ?h * (q + cd_volumeQty c)"
    unfolding distrib_left using h v(2) Cons.prems(6) by linarith
  have "0 < ?l" "?l \<le> ?h" using c Cons.prems(4,7) ends by (auto simp: candleSane_def)
  from Cons.IH [OF _ _ _ this(1) low high this(2)] Cons.prems(1-3) ends add
  show ?case by (auto split: if_splits)
qed

lemma rounded_average_bounds:
  fixes l h q w :: int
  assumes "0 < q" and "0 < l" and "l * q \<le> w" and "w \<le> h * q"
  shows "l \<le> (w + q div 2) sdiv q \<and> (w + q div 2) sdiv q \<le> h"
proof -
  have nonneg: "0 \<le> w" using assms(1-3) by (smt (verit) mult_nonneg_nonneg)
  have "(w + q div 2) sdiv q = (w + q div 2) div q"
    using nonneg assms(1) by (simp add: sdiv_nonneg)
  moreover have "l * q div q \<le> (w + q div 2) div q" using assms by (intro zdiv_mono1) auto
  moreover have "(w + q div 2) div q \<le> (q div 2 + h * q) div q" using assms by (intro zdiv_mono1) auto
  moreover have "q div 2 div q = 0" using assms(1) by (intro div_pos_pos_trivial) auto
  ultimately show ?thesis using assms(1) by simp
qed

text \<open>
  The market summary of a window stays within its candles: with sane candles (as the
  matching pass writes them), the last price and the rounded volume-weighted average lie between
  the low and the high, which bound every candle of the window, the total volume is theirs, and
  only an empty window has no prices.
\<close>

theorem analytics_summary_bounds:
  assumes "getMarketAnalyticsSummary iid rid window d = Inr s"
    and "\<forall>c\<in>set (itemTickCandles d). candleSane c"
  shows "let cs = filter (\<lambda>c. cd_itemId c = iid \<and> cd_regionId c = rid \<and> as_fromTick s \<le> cd_tick c \<and>
         cd_tick c \<le> as_toTick s) (itemTickCandles d) in
    as_candleCount s = int (length cs) \<and> as_totalVolumeQty s = (\<Sum>c\<leftarrow>cs. cd_volumeQty c) \<and>
    (if cs = [] then as_lastPriceCents s = None \<and> as_vwapCents s = None
     else \<exists>h l p. as_highCents s = Some h \<and> as_lowCents s = Some l \<and> as_lastPriceCents s = Some p \<and>
       0 < l \<and> l \<le> p \<and> p \<le> h \<and> (\<forall>c\<in>set cs. l \<le> cd_lowCents c \<and> cd_highCents c \<le> h) \<and>
       (case as_vwapCents s of None \<Rightarrow> as_totalVolumeQty s = 0 | Some v \<Rightarrow> l \<le> v \<and> v \<le> h))"
proof -
  let ?to = "worldTick d" and ?from = "windowStart (worldTick d) (num (orDefault window (IntN 200)))"
  define cs where "cs = filter (\<lambda>c. cd_itemId c = iid \<and> cd_regionId c = rid \<and> ?from \<le> cd_tick c \<and>
    cd_tick c \<le> ?to) (itemTickCandles d)"
  define xs where "xs = sortBy (cmpKey cd_tick) cs"
  from assms(1) have s: "s = summarizeCandles ?from ?to xs"
    by (auto simp: getMarketAnalyticsSummary_def Let_def result_simps xs_def cs_def split: if_splits)
  then have window: "as_fromTick s = ?from" "as_toTick s = ?to"
    by (auto simp: summarizeCandles_def Let_def split: prod.splits)
  have xs: "set xs = set cs" "length xs = length cs" by (simp_all add: xs_def)
  have total: "(\<Sum>c\<leftarrow>xs. cd_volumeQty c) = (\<Sum>c\<leftarrow>cs. cd_volumeQty c)"
    unfolding xs_def by (metis mset_map_sortBy sum_mset_sum_list)
  have sane: "\<forall>c\<in>set xs. candleSane c" using assms(2) by (auto simp: xs(1) cs_def)
  show ?thesis
  proof (cases "xs = []")
    case True
    then have "cs = []" using xs by simp
    with True s window show ?thesis by (simp add: summarizeCandles_def cs_def Let_def)
  next
    case False
    then have nonempty: "cs \<noteq> []" using xs by auto
    obtain h l q w where loop: "fold addCandle xs (cd_highCents (hd xs), cd_lowCents (hd xs), 0, 0) = (h, l, q, w)"
      by (metis surj_pair)
    have "candleSane (hd xs)" "candleSane (last xs)" using sane False by auto
    moreover have "0 < cd_lowCents (hd xs)" "cd_lowCents (hd xs) \<le> cd_highCents (hd xs)"
      using \<open>candleSane (hd xs)\<close> by (auto simp: candleSane_def)
    ultimately have b: "q = (\<Sum>c\<leftarrow>cs. cd_volumeQty c)" "0 < l" "0 \<le> q" "l \<le> h" "l * q \<le> w" "w \<le> h * q"
      "\<forall>c\<in>set cs. l \<le> cd_lowCents c \<and> cd_highCents c \<le> h"
      using fold_addCandle [OF sane loop] by (auto simp: total xs(1))
    have "last xs \<in> set cs" using False xs(1) by (metis last_in_set)
    with b(7) \<open>candleSane (last xs)\<close> have p: "l \<le> cd_closeCents (last xs)" "cd_closeCents (last xs) \<le> h"
      by (force simp: candleSane_def)+
    have v: "0 < q \<Longrightarrow> l \<le> (w + q div 2) sdiv q \<and> (w + q div 2) sdiv q \<le> h"
      using rounded_average_bounds b by blast
    from False s loop have s: "as_candleCount s = int (length cs)" "as_totalVolumeQty s = q" "as_highCents s = Some h"
      "as_lowCents s = Some l" "as_lastPriceCents s = Some (cd_closeCents (last xs))"
      "as_vwapCents s = (if q > 0 then Some ((w + q div 2) sdiv q) else None)"
      by (simp_all add: summarizeCandles_def Let_def xs)
    with b p v nonempty window show ?thesis by (auto simp: cs_def [symmetric] Let_def)
  qed
qed

definition someCandle :: "int \<Rightarrow> int \<Rightarrow> int \<Rightarrow> itemTickCandle" where
  "someCandle t price qty = \<lparr>cd_itemId = ''ore'', cd_regionId = ''r1'', cd_tick = t, cd_openCents = price,
     cd_highCents = price + 2, cd_lowCents = price - 2, cd_closeCents = price + 1, cd_volumeQty = qty,
     cd_tradeCount = 1, cd_vwapCents = Some price\<rparr>"

lemma analytics_summary_bounds_witness:
  "\<exists>s v. getMarketAnalyticsSummary ''ore'' ''r1'' None
      (fixtureDb\<lparr>itemTickCandles := [someCandle 6 100 3, someCandle 7 110 4]\<rparr>) = Inr s \<and>
     as_vwapCents s = Some v \<and> 98 \<le> v \<and> v \<le> 112"
proof -
  let ?d = "fixtureDb\<lparr>itemTickCandles := [someCandle 6 100 3, someCandle 7 110 4]\<rparr>"
  let ?s = "\<lparr>as_fromTick = 0, as_toTick = 7, as_candleCount = 2, as_lastPriceCents = Some 111,
    as_changePctBps = Some 1100, as_highCents = Some 112, as_lowCents = Some 98, as_avgVolumeQty = 4,
    as_totalVolumeQty = 7, as_vwapCents = Some 106\<rparr>"
  have run: "getMarketAnalyticsSummary ''ore'' ''r1'' None ?d = Inr ?s" by code_simp
  have "\<forall>c\<in>set (itemTickCandles ?d). candleSane c" by (simp add: someCandle_def candleSane_def)
  from analytics_summary_bounds [OF run this] run show ?thesis
    by (auto simp: Let_def split: if_splits)
qed

text \<open>The breakdown by entry type, entry by entry.\<close>

lemma addToBreakdown_sums:
  assumes "distinct (map bt_entryType bs)"
  shows "distinct (map bt_entryType (addToBreakdown e bs)) \<and>
    (\<Sum>b\<leftarrow>addToBreakdown e bs. bt_deltaCashCents b) = (\<Sum>b\<leftarrow>bs. bt_deltaCashCents b) + le_deltaCashCents e \<and>
    (\<Sum>b\<leftarrow>addToBreakdown e bs. bt_deltaReservedCashCents b) =
      (\<Sum>b\<leftarrow>bs. bt_deltaReservedCashCents b) + le_deltaReservedCashCents e \<and>
    (\<Sum>b\<leftarrow>addToBreakdown e bs. bt_count b) = (\<Sum>b\<leftarrow>bs. bt_count b) + 1"
proof (cases "rowFind bt_entryType (le_entryType e) bs")
  case None
  then have "le_entryType e \<notin> bt_entryType ` set bs" by (simp add: rowFind_None)
  with None assms show ?thesis by (simp add: addToBreakdown_def)
next
  case (Some b)
  let ?f = "\<lambda>b. b\<lparr>bt_deltaCashCents := bt_deltaCashCents b + le_deltaCashCents e,
     bt_deltaReservedCashCents := bt_deltaReservedCashCents b + le_deltaReservedCashCents e,
     bt_count := bt_count b + 1\<rparr>"
  have "map bt_entryType (rowSet bt_entryType (le_entryType e) ?f bs) = map bt_entryType bs"
    by (rule map_rowSet_same) simp
  with Some assms sum_rowSet [OF assms Some] show ?thesis by (simp add: addToBreakdown_def)
qed

lemma breakdown_sums:
  assumes "distinct (map bt_entryType bs)"
  shows "distinct (map bt_entryType (fold addToBreakdown es bs)) \<and>
    (\<Sum>b\<leftarrow>fold addToBreakdown es bs. bt_deltaCashCents b) =
      (\<Sum>b\<leftarrow>bs. bt_deltaCashCents b) + (\<Sum>e\<leftarrow>es. le_deltaCashCents e) \<and>
    (\<Sum>b\<leftarrow>fold addToBreakdown es bs. bt_deltaReservedCashCents b) =
      (\<Sum>b\<leftarrow>bs. bt_deltaReservedCashCents b) + (\<Sum>e\<leftarrow>es. le_deltaReservedCashCents e) \<and>
    (\<Sum>b\<leftarrow>fold addToBreakdown es bs. bt_count b) = (\<Sum>b\<leftarrow>bs. bt_count b) + int (length es)"
  using assms
proof (induction es arbitrary: bs)
  case (Cons e es)
  from addToBreakdown_sums [OF Cons.prems, of e] Cons.IH [of "addToBreakdown e bs"] show ?case by simp
qed simp

lemma fold_plus: "fold (\<lambda>e n. n + f e) es (n :: int) = n + (\<Sum>e\<leftarrow>es. f e)"
  by (induction es arbitrary: n) simp_all

lemma sum_sortBy: "(\<Sum>x\<leftarrow>sortBy cmp xs. f x :: int) = (\<Sum>x\<leftarrow>xs. f x)"
  by (metis mset_map_sortBy sum_mset_sum_list)

text \<open>
  The finance summary accounts for every ledger entry of its window: start plus change is the
  end, each entry type appears once, and the totals by type add up to the change of cash, of
  reserved cash, and to the number of entries.
\<close>

theorem finance_summary_accounts:
  assumes "getFinanceSummary E cid window d = Inr s"
  shows "\<exists>es. es = filter (\<lambda>e. le_companyId e = cid \<and>
        windowStart (worldTick d) (num (orDefault window (IntN 100))) \<le> le_tick e \<and> le_tick e \<le> worldTick d)
        (ledgerEntries d) \<and>
    fs_startingCashCents s + (\<Sum>e\<leftarrow>es. le_deltaCashCents e) = fs_endingCashCents s \<and>
    distinct (map bt_entryType (fs_breakdown s)) \<and>
    (\<Sum>b\<leftarrow>fs_breakdown s. bt_deltaCashCents b) = (\<Sum>e\<leftarrow>es. le_deltaCashCents e) \<and>
    (\<Sum>b\<leftarrow>fs_breakdown s. bt_deltaReservedCashCents b) = (\<Sum>e\<leftarrow>es. le_deltaReservedCashCents e) \<and>
    (\<Sum>b\<leftarrow>fs_breakdown s. bt_count b) = int (length es)"
proof -
  let ?es = "filter (\<lambda>e. le_companyId e = cid \<and>
        windowStart (worldTick d) (num (orDefault window (IntN 100))) \<le> le_tick e \<and> le_tick e \<le> worldTick d)
        (ledgerEntries d)"
  let ?xs = "sortBy (cmpThen (cmpKey le_createdAt) (\<lambda>x y. env_textCompare E (le_id x) (le_id y))) ?es"
  from assms have s: "fs_breakdown s = sortBy (\<lambda>x y. env_localeCompare E (showEntryType (bt_entryType x))
      (showEntryType (bt_entryType y))) (fold addToBreakdown ?xs [])"
    "fs_startingCashCents s = fs_endingCashCents s - (\<Sum>e\<leftarrow>?es. le_deltaCashCents e)"
    by (auto simp: getFinanceSummary_def Let_def fold_plus sum_sortBy split: if_splits option.splits)
  from breakdown_sums [of "[]" ?xs] s show ?thesis by (simp add: sum_sortBy)
qed

text \<open>
  The specialization's cooldown: a change that went through is stamped with its time, and until
  the cooldown has passed every other specialization is refused and nothing changes.
\<close>

theorem specialization_cooldown:
  assumes "setCompanySpecialization E hours input d = (Inr v, d')" and "d' \<noteq> d"
    and "ss_companyId other = ss_companyId input"
    and "currentTime E' d' < currentTime E d + hours * 3600000"
    and "normalizeCompanySpecialization (ss_specialization other) \<noteq>
      normalizeCompanySpecialization (ss_specialization input)"
    and "distinct (map co_id (companies d))"
  shows "\<exists>e. setCompanySpecialization E' hours other d' = (Inl (DomainInvariantError e), d')"
proof -
  let ?cid = "ss_companyId input" and ?s = "normalizeCompanySpecialization (ss_specialization input)"
  let ?f = "\<lambda>c. c\<lparr>co_specialization := ?s, co_specializationChangedAt := Some (currentTime E d)\<rparr>"
  from assms(1,2) obtain c where c: "?cid \<noteq> []" "findCompany ?cid d = Some c" "co_isPlayer c"
    "d' = d\<lparr>companies := rowSet co_id ?cid ?f (companies d)\<rparr>"
    by (auto simp: setCompanySpecialization_def Let_def updateRow_def split: if_splits option.splits sum.splits)
  then have "findCompany ?cid d' = Some (?f c)" by (simp add: rowFind_rowSet)
  with c(1,3) assms(3-5) show ?thesis
    by (auto simp: setCompanySpecialization_def checkSpecializationCooldown_def Let_def)
qed

end
