(* ===== verification/Catalog.thy ===== *)
theory Catalog
  imports TierLocker Store "HOL-Library.AList"
begin

section \<open>The catalogue of the world\<close>

text \<open>
  The constant tables of \<open>packages/db/src/seed-world.ts\<close>: base items, base recipes, research nodes
  and their prerequisites, and what the module computes from the icon catalogue when it is
  loaded: an item per icon, the recipe that fabricates it, and the lists of keys the seed uses.
  The recipes are sorted by \<open>localeCompare\<close>, so they depend on the environment. The properties:
  the tables fit together, every item can be produced from six raw materials, and research
  unlocks its recipes in an order that can be followed.
\<close>

subsection \<open>The tables\<close>

record itemDefinition =
  idf_key :: string
  idf_code :: string
  idf_name :: string
  idf_series :: "int option"
  idf_index :: "int option"
  idf_tier :: "int option"
  idf_isFinalTier :: "bool option"
  idf_basePriceCents :: "int option"

record recipeDefinition =
  rdf_key :: string
  rdf_code :: string
  rdf_name :: string
  rdf_durationTicks :: int
  rdf_outputItemKey :: string
  rdf_outputQuantity :: int
  rdf_inputs :: "(string \<times> int) list"

record researchDefinition =
  ndf_key :: string
  ndf_code :: string
  ndf_name :: string
  ndf_description :: string
  ndf_costCashCents :: int
  ndf_durationTicks :: int
  ndf_unlockRecipeKeys :: "string list"

text \<open>Object literals of the tables, by position.\<close>

definition baseItem :: "string \<Rightarrow> string \<Rightarrow> string \<Rightarrow> itemDefinition" where
  "baseItem k c n = \<lparr>idf_key = k, idf_code = c, idf_name = n, idf_series = None, idf_index = None,
     idf_tier = None, idf_isFinalTier = None, idf_basePriceCents = None\<rparr>"

definition recipeDef ::
    "string \<Rightarrow> string \<Rightarrow> string \<Rightarrow> int \<Rightarrow> string \<Rightarrow> int \<Rightarrow> (string \<times> int) list \<Rightarrow> recipeDefinition" where
  "recipeDef k c n ticks output outputQty inputs =
     \<lparr>rdf_key = k, rdf_code = c, rdf_name = n, rdf_durationTicks = ticks, rdf_outputItemKey = output,
      rdf_outputQuantity = outputQty, rdf_inputs = inputs\<rparr>"

definition researchDef ::
    "string \<Rightarrow> string \<Rightarrow> string \<Rightarrow> string \<Rightarrow> int \<Rightarrow> int \<Rightarrow> string list \<Rightarrow> researchDefinition" where
  "researchDef k c n description cost ticks unlocks =
     \<lparr>ndf_key = k, ndf_code = c, ndf_name = n, ndf_description = description, ndf_costCashCents = cost,
      ndf_durationTicks = ticks, ndf_unlockRecipeKeys = unlocks\<rparr>"

definition BASE_ITEM_DEFINITIONS :: "itemDefinition list" where
  "BASE_ITEM_DEFINITIONS =
  [baseItem ''ironOre'' ''IRON_ORE'' ''Scrap Metal'',
   baseItem ''coal'' ''COAL'' ''Polymer Sheet'',
   baseItem ''copperOre'' ''COPPER_ORE'' ''Copper Spool'',
   baseItem ''ironIngot'' ''IRON_INGOT'' ''Steel Tube'',
   baseItem ''copperIngot'' ''COPPER_INGOT'' ''Copper Cable'',
   baseItem ''handTools'' ''HAND_TOOLS'' ''Wrench Set'',
   baseItem ''steelIngot'' ''STEEL_INGOT'' ''Spring Steel'',
   baseItem ''steelBeam'' ''STEEL_BEAM'' ''Rail Segment'',
   baseItem ''fasteners'' ''FASTENERS'' ''Bolt Kit'',
   baseItem ''machineParts'' ''MACHINE_PARTS'' ''Control Board'',
   baseItem ''toolKit'' ''TOOL_KIT'' ''Maintenance Kit'',
   baseItem ''powerUnit'' ''POWER_UNIT'' ''Battery Module'',
   baseItem ''conveyorModule'' ''CONVEYOR_MODULE'' ''Roller Module'',
   baseItem ''industrialPress'' ''INDUSTRIAL_PRESS'' ''Press Chassis'',
   baseItem ''syntheticConduit'' ''SYNTHETIC_CONDUIT'' ''Synthetic Conduit'',
   baseItem ''biocellCanister'' ''BIOCELL_CANISTER'' ''Biocell Canister'',
   baseItem ''servoDrive'' ''SERVO_DRIVE'' ''Servo Drive'',
   baseItem ''opticModule'' ''OPTIC_MODULE'' ''Optic Module'',
   baseItem ''neuralInterface'' ''NEURAL_INTERFACE'' ''Neural Interface'',
   baseItem ''ocularImplant'' ''OCULAR_IMPLANT'' ''Ocular Implant'',
   baseItem ''cyberArmature'' ''CYBER_ARMATURE'' ''Cyber Armature'',
   baseItem ''spinalLink'' ''SPINAL_LINK'' ''Spinal Link'',
   baseItem ''cyberneticSuite'' ''CYBERNETIC_SUITE'' ''Cybernetic Suite'',
   baseItem ''water'' ''WATER'' ''Water'', baseItem ''fertilizer'' ''FERTILIZER'' ''Fertilizer'',
   baseItem ''bioSubstrate'' ''BIO_SUBSTRATE'' ''Bio Substrate'']"

definition BASE_RECIPE_DEFINITIONS :: "recipeDefinition list" where
  "BASE_RECIPE_DEFINITIONS =
  [recipeDef ''smeltIron'' ''SMELT_IRON'' ''Refine Steel Tubes'' 2 ''ironIngot'' 1
     [(''ironOre'', 2)],
   recipeDef ''smeltCopper'' ''SMELT_COPPER'' ''Draw Copper Cable'' 3 ''copperIngot'' 1
     [(''copperOre'', 2), (''coal'', 1)],
   recipeDef ''assembleTools'' ''ASSEMBLE_TOOLS'' ''Assemble Wrench Sets'' 3 ''handTools'' 1
     [(''ironIngot'', 3)],
   recipeDef ''smeltSteel'' ''SMELT_STEEL'' ''Temper Spring Steel'' 3 ''steelIngot'' 1
     [(''ironIngot'', 2), (''coal'', 1)],
   recipeDef ''forgeSteelBeam'' ''FORGE_STEEL_BEAM'' ''Machine Rail Segments'' 4 ''steelBeam'' 1
     [(''steelIngot'', 2), (''ironIngot'', 1)],
   recipeDef ''assembleFasteners'' ''ASSEMBLE_FASTENERS'' ''Pack Bolt Kits'' 2 ''fasteners'' 4
     [(''ironIngot'', 1), (''copperIngot'', 1)],
   recipeDef ''machineParts'' ''MACHINE_PARTS'' ''Etch Control Boards'' 4 ''machineParts'' 1
     [(''steelIngot'', 1), (''copperIngot'', 2), (''handTools'', 1)],
   recipeDef ''assembleKits'' ''ASSEMBLE_KITS'' ''Assemble Maintenance Kits'' 3 ''toolKit'' 1
     [(''handTools'', 1), (''machineParts'', 1)],
   recipeDef ''assemblePowerUnit'' ''ASSEMBLE_POWER_UNIT'' ''Assemble Battery Modules''
     5 ''powerUnit'' 1
     [(''copperIngot'', 2), (''steelIngot'', 1), (''machineParts'', 1)],
   recipeDef ''assembleConveyorModule'' ''ASSEMBLE_CONVEYOR_MODULE'' ''Assemble Roller Modules''
     6 ''conveyorModule'' 1
     [(''steelBeam'', 2), (''fasteners'', 4), (''machineParts'', 1)],
   recipeDef ''buildIndustrialPress'' ''BUILD_INDUSTRIAL_PRESS'' ''Build Press Chassis''
     8 ''industrialPress'' 1
     [(''powerUnit'', 1), (''conveyorModule'', 1), (''toolKit'', 1), (''fasteners'', 8)],
   recipeDef ''weaveSyntheticConduit'' ''WEAVE_SYNTHETIC_CONDUIT'' ''Weave Synthetic Conduit''
     4 ''syntheticConduit'' 1
     [(''coal'', 2), (''copperIngot'', 1)],
   recipeDef ''assembleBiocellCanister'' ''ASSEMBLE_BIOCELL_CANISTER'' ''Assemble Biocell Canister''
     5 ''biocellCanister'' 1
     [(''powerUnit'', 1), (''coal'', 1), (''copperIngot'', 1)],
   recipeDef ''machineServoDrive'' ''MACHINE_SERVO_DRIVE'' ''Machine Servo Drive''
     5 ''servoDrive'' 1
     [(''steelIngot'', 2), (''fasteners'', 2), (''machineParts'', 1)],
   recipeDef ''machineOpticModule'' ''MACHINE_OPTIC_MODULE'' ''Machine Optic Module''
     5 ''opticModule'' 1
     [(''copperIngot'', 2), (''machineParts'', 1), (''steelIngot'', 1)],
   recipeDef ''assembleNeuralInterface'' ''ASSEMBLE_NEURAL_INTERFACE'' ''Assemble Neural Interface''
     6 ''neuralInterface'' 1
     [(''opticModule'', 1), (''biocellCanister'', 1), (''machineParts'', 1)],
   recipeDef ''assembleOcularImplant'' ''ASSEMBLE_OCULAR_IMPLANT'' ''Assemble Ocular Implant''
     7 ''ocularImplant'' 1
     [(''opticModule'', 2), (''neuralInterface'', 1), (''syntheticConduit'', 1)],
   recipeDef ''assembleCyberArmature'' ''ASSEMBLE_CYBER_ARMATURE'' ''Assemble Cyber Armature''
     7 ''cyberArmature'' 1
     [(''servoDrive'', 1), (''neuralInterface'', 1), (''steelBeam'', 1), (''fasteners'', 3)],
   recipeDef ''integrateSpinalLink'' ''INTEGRATE_SPINAL_LINK'' ''Integrate Spinal Link''
     7 ''spinalLink'' 1
     [(''syntheticConduit'', 2), (''biocellCanister'', 1), (''machineParts'', 1)],
   recipeDef ''buildCyberneticSuite'' ''BUILD_CYBERNETIC_SUITE'' ''Build Cybernetic Suite''
     9 ''cyberneticSuite'' 1
     [(''cyberArmature'', 1), (''ocularImplant'', 1), (''spinalLink'', 1), (''toolKit'', 1),
       (''powerUnit'', 1)]]"

definition RESEARCH_DEFINITIONS :: "researchDefinition list" where
  "RESEARCH_DEFINITIONS =
  [researchDef ''basics'' ''BASICS'' ''Basics''
     ''Foundational operations, ore handling, and starter smelting methods.''
     0 0 [''smeltIron'', ''smeltCopper''],
   researchDef ''metalworking'' ''METALWORKING'' ''Metalworking''
     ''Unlocks practical fabrication methods for wrench set production.''
     55000 3 [''assembleTools''],
   researchDef ''steelProcessing'' ''STEEL_PROCESSING'' ''Steel Processing''
     ''Enables spring steel tempering and bolt kit assembly.''
     85000 4 [''smeltSteel'', ''assembleFasteners''],
   researchDef ''structuralFabrication'' ''STRUCTURAL_FABRICATION'' ''Structural Fabrication''
     ''Allows rail segment machining for heavy structural workflows.''
     120000 5 [''forgeSteelBeam''],
   researchDef ''precisionManufacturing'' ''PRECISION_MANUFACTURING'' ''Precision Manufacturing''
     ''Combines steel, copper, and tooling workflows into control boards.''
     150000 5 [''machineParts''],
   researchDef ''industrialLogistics'' ''INDUSTRIAL_LOGISTICS'' ''Industrial Logistics''
     ''Unlocks scalable coordinated maintenance kit assembly methods.''
     180000 6 [''assembleKits''],
   researchDef ''powerSystems'' ''POWER_SYSTEMS'' ''Power Systems''
     ''Introduces integrated electromechanical battery module design.''
     220000 6 [''assemblePowerUnit'', ''weaveSyntheticConduit'', ''assembleBiocellCanister''],
   researchDef ''automationLines'' ''AUTOMATION_LINES'' ''Automation Lines''
     ''Adds modular roller assembly for repeatable factory throughput.''
     260000 7 [''assembleConveyorModule'', ''machineServoDrive'', ''machineOpticModule'',
       ''integrateSpinalLink''],
   researchDef ''heavyIndustry'' ''HEAVY_INDUSTRY'' ''Heavy Industry''
     ''Final-stage system integration for complete press chassis builds.''
     320000 8 [''buildIndustrialPress'', ''assembleNeuralInterface'',
       ''assembleOcularImplant'', ''assembleCyberArmature'', ''buildCyberneticSuite'']]"

definition RESEARCH_PREREQUISITES :: "(string \<times> string) list" where
  "RESEARCH_PREREQUISITES =
  [(''metalworking'', ''basics''), (''steelProcessing'', ''basics''),
   (''structuralFabrication'', ''steelProcessing''),
   (''precisionManufacturing'', ''metalworking''),
   (''precisionManufacturing'', ''steelProcessing''),
   (''industrialLogistics'', ''precisionManufacturing''),
   (''powerSystems'', ''precisionManufacturing''),
   (''automationLines'', ''structuralFabrication''),
   (''automationLines'', ''industrialLogistics''), (''heavyIndustry'', ''powerSystems''),
   (''heavyIndustry'', ''automationLines'')]"

subsection \<open>Items and recipes of the icon catalogue\<close>

definition iconItemDefinition :: "iconCatalogItem \<Rightarrow> itemDefinition" where
  "iconItemDefinition item =
     \<lparr>idf_key = iconKey item, idf_code = iconCode item, idf_name = iconName item,
      idf_series = Some (iconSeries item), idf_index = Some (iconIndex item),
      idf_tier = Some (iconTier item), idf_isFinalTier = Some (isFinalTier item),
      idf_basePriceCents = Some (iconBasePriceCents item)\<rparr>"

definition ICON_ITEM_DEFINITIONS :: "itemDefinition list" where
  "ICON_ITEM_DEFINITIONS = map iconItemDefinition ICON_CATALOG_ITEMS"

text \<open>A \<open>Map\<close> from series to their items, in order of first insertion.\<close>

definition addToBucket ::
    "itemDefinition \<Rightarrow> (int \<times> itemDefinition list) list \<Rightarrow> (int \<times> itemDefinition list) list" where
  "addToBucket item m =
     (case idf_series item of
       None \<Rightarrow> m
     | Some s \<Rightarrow> AList.update s (orDefault (map_of m s) [] @ [item]) m)"

definition bySeries :: "itemDefinition list \<Rightarrow> (int \<times> itemDefinition list) list" where
  "bySeries iconItems = fold addToBucket iconItems []"

definition fabricateInputs :: "itemDefinition list \<Rightarrow> int \<Rightarrow> itemDefinition \<Rightarrow> (string \<times> int) list" where
  "fabricateInputs ordered idx item =
     (let tierSpan = (int (length ordered) + 3) div 4;
          tier = orDefault (idf_tier item) 1;
          index = orDefault (idf_index item) 1;
          previous = nthOpt ordered (idx - 1);
          tierAnchor = (if idx - tierSpan \<ge> 0 then nthOpt ordered (idx - tierSpan) else None);
          fallbackAnchor = (case tierAnchor of None \<Rightarrow> previous | Some a \<Rightarrow> Some a) in
      if tier = 1 then
        (if idf_series item = Some 35 then [(''water'', 1 + index mod 2), (''fertilizer'', 1)]
         else if idf_series item = Some 34 then [(''water'', 1), (''bioSubstrate'', 1 + index mod 2)]
         else [(''ironOre'', 1 + index mod 2), (if index mod 3 = 0 then ''copperOre'' else ''coal'', 1)])
      else
        (case previous of
          None \<Rightarrow> []
        | Some p \<Rightarrow>
          (let anchor = idf_key (orDefault fallbackAnchor p) in
           if tier = 2 then
             [(idf_key p, 1), (if index mod 2 = 0 then ''steelIngot'' else ''copperIngot'', 1), (''fasteners'', 2)]
           else if tier = 3 then [(idf_key p, 1), (anchor, 1), (''machineParts'', 1)]
           else if tier = 4 then
             [(idf_key p, 1), (anchor, 1), (''powerUnit'', 1), (''syntheticConduit'', 1)]
           else [])))"

definition fabricateRecipe :: "itemDefinition list \<Rightarrow> int \<Rightarrow> itemDefinition \<Rightarrow> recipeDefinition" where
  "fabricateRecipe ordered idx item =
     (let tier = orDefault (idf_tier item) 1 in
      \<lparr>rdf_key = ''fabricate_'' @ idf_key item, rdf_code = ''FABRICATE_'' @ idf_code item,
       rdf_name = ''Fabricate '' @ idf_name item, rdf_durationTicks = 2 + tier,
       rdf_outputItemKey = idf_key item, rdf_outputQuantity = (if tier = 1 then 2 else 1),
       rdf_inputs = fabricateInputs ordered idx item\<rparr>)"

definition buildIconRecipeDefinitions :: "env \<Rightarrow> itemDefinition list \<Rightarrow> recipeDefinition list" where
  "buildIconRecipeDefinitions E iconItems =
     sortBy (\<lambda>l r. env_localeCompare E (rdf_code l) (rdf_code r))
       (concat (map (\<lambda>(s, seriesItems).
          let ordered = sortBy (cmpKey (\<lambda>item. orDefault (idf_index item) 0)) seriesItems in
          map (\<lambda>(idx, item). fabricateRecipe ordered (int idx) item) (enumerate 0 ordered))
        (bySeries iconItems)))"

definition ICON_RECIPE_DEFINITIONS :: "env \<Rightarrow> recipeDefinition list" where
  "ICON_RECIPE_DEFINITIONS E = buildIconRecipeDefinitions E ICON_ITEM_DEFINITIONS"

definition ITEM_DEFINITIONS :: "itemDefinition list" where
  "ITEM_DEFINITIONS = BASE_ITEM_DEFINITIONS @ ICON_ITEM_DEFINITIONS"

definition RECIPE_DEFINITIONS :: "env \<Rightarrow> recipeDefinition list" where
  "RECIPE_DEFINITIONS E = BASE_RECIPE_DEFINITIONS @ ICON_RECIPE_DEFINITIONS E"

definition ICON_ITEM_BY_KEY :: "string \<Rightarrow> itemDefinition option" where
  "ICON_ITEM_BY_KEY key = rowFind idf_key key (rev ICON_ITEM_DEFINITIONS)"

definition ICON_TIER_ONE_ITEM_KEYS :: "string list" where
  "ICON_TIER_ONE_ITEM_KEYS = map idf_key (filter (\<lambda>item. idf_tier item = Some 1) ICON_ITEM_DEFINITIONS)"

definition ICON_TIER_TWO_ITEM_KEYS :: "string list" where
  "ICON_TIER_TWO_ITEM_KEYS = map idf_key (filter (\<lambda>item. idf_tier item = Some 2) ICON_ITEM_DEFINITIONS)"

definition ICON_FINAL_PRODUCT_KEYS :: "string list" where
  "ICON_FINAL_PRODUCT_KEYS =
     map (\<lambda>pack. resolveIconItemKey (packSeries pack) (packCount pack)) ICON_PACK_DEFINITIONS"

definition resolveIconPrice :: "string \<Rightarrow> int" where
  "resolveIconPrice itemKey =
     orDefault (Option.bind (ICON_ITEM_BY_KEY itemKey) idf_basePriceCents) 100"

definition isRecipeAutoUnlocked :: "string \<Rightarrow> bool" where
  "isRecipeAutoUnlocked recipeCode \<longleftrightarrow>
     recipeCode = ''SMELT_IRON'' \<or> recipeCode = ''SMELT_COPPER'' \<or>
     take (length ''FABRICATE_CP_'') recipeCode = ''FABRICATE_CP_''"

subsection \<open>The recipes of the icons, pack by pack\<close>

abbreviation "packItem p i \<equiv> iconItemDefinition (iconItem p i)"

lemma update_new: "s \<notin> fst ` set m \<Longrightarrow> AList.update s v m = m @ [(s, v)]"
  by (induction m) auto

lemma update_last: "s \<notin> fst ` set m \<Longrightarrow> AList.update s v (m @ [(s, w)]) = m @ [(s, v)]"
  by (induction m) auto

text \<open>Items of one series fill one bucket at the end; packs in sequence fill one bucket each.\<close>

lemma addToBucket_last:
  assumes "s \<notin> fst ` set m" and "idf_series x = Some s"
  shows "addToBucket x (m @ [(s, ys)]) = m @ [(s, ys @ [x])]"
proof -
  have "map_of (m @ [(s, ys)]) s = Some ys" using assms(1) by (induction m) auto
  then show ?thesis using assms by (simp add: addToBucket_def update_last orDefault_def del: map_of_append)
qed

lemma bucket_grows:
  assumes "s \<notin> fst ` set m" and "\<forall>x\<in>set xs. idf_series x = Some s"
  shows "fold addToBucket xs (m @ [(s, ys)]) = m @ [(s, ys @ xs)]"
  using assms(2)
proof (induction xs arbitrary: ys)
  case (Cons x xs)
  then show ?case using addToBucket_last [OF assms(1), of x ys] by simp
qed simp

lemma bucket_new:
  assumes "s \<notin> fst ` set m" and "\<forall>x\<in>set xs. idf_series x = Some s" and "xs \<noteq> []"
  shows "fold addToBucket xs m = m @ [(s, xs)]"
proof -
  obtain x ys where xs: "xs = x # ys" using assms(3) by (cases xs) auto
  have "map_of m s = None" using assms(1) by (simp add: map_of_eq_None_iff)
  then have "addToBucket x m = m @ [(s, [x])]"
    using assms(1,2) by (simp add: xs addToBucket_def update_new orDefault_def)
  with assms(2) bucket_grows [OF assms(1), of ys "[x]"] show ?thesis by (simp add: xs)
qed

lemma buckets_of_packs:
  assumes "distinct (map packSeries ps)" and "\<forall>p\<in>set ps. 1 \<le> packCount p"
    and "\<forall>p\<in>set ps. packSeries p \<notin> fst ` set m"
  shows "fold addToBucket (concat (map (\<lambda>p. map (packItem p) [1..packCount p]) ps)) m =
    m @ map (\<lambda>p. (packSeries p, map (packItem p) [1..packCount p])) ps"
  using assms
proof (induction ps arbitrary: m)
  case (Cons p ps)
  have "packSeries p \<notin> fst ` set m" "[1..packCount p] \<noteq> []" using Cons.prems by auto
  then have "fold addToBucket (map (packItem p) [1..packCount p]) m =
      m @ [(packSeries p, map (packItem p) [1..packCount p])]"
    by (intro bucket_new) (auto simp: iconItemDefinition_def iconItem_def Let_def)
  moreover have "\<forall>q\<in>set ps. packSeries q \<noteq> packSeries p" using Cons.prems(1) by (metis distinct.simps(2)
      image_eqI list.set_map list.simps(9))
  ultimately show ?case using Cons.IH [of "m @ [(packSeries p, map (packItem p) [1..packCount p])]"] Cons.prems
    by (simp del: upto.simps)
qed simp

lemma packCount_pos: "p \<in> set ICON_PACK_DEFINITIONS \<Longrightarrow> 1 \<le> packCount p"
  using pack_facts(3) by fastforce

lemma bySeries_packs:
  "bySeries ICON_ITEM_DEFINITIONS =
     map (\<lambda>p. (packSeries p, map (packItem p) [1..packCount p])) ICON_PACK_DEFINITIONS"
proof -
  have "ICON_ITEM_DEFINITIONS = concat (map (\<lambda>p. map (packItem p) [1..packCount p]) ICON_PACK_DEFINITIONS)"
    by (simp add: ICON_ITEM_DEFINITIONS_def ICON_CATALOG_ITEMS_def map_concat comp_def)
  then show ?thesis
    using buckets_of_packs [OF pack_tables_distinct(1), of "[]"] packCount_pos by (simp add: bySeries_def)
qed

lemma insertBy_least: "\<forall>y\<in>set ys. cmp x y \<le> 0 \<Longrightarrow> insertBy cmp x ys = x # ys"
  by (cases ys) auto

lemma sortBy_upto:
  assumes "\<And>i. k (f i) = (i :: int)"
  shows "sortBy (cmpKey k) (map f [a..b]) = map f [a..b]"
proof (induction "nat (b + 1 - a)" arbitrary: a)
  case (Suc n)
  then have "a \<le> b" by simp
  then have eq: "[a..b] = a # [a + 1..b]" by (rule upto_rec1)
  have "sortBy (cmpKey k) (map f [a + 1..b]) = map f [a + 1..b]" using Suc by simp
  moreover have "insertBy (cmpKey k) (f a) (map f [a + 1..b]) = f a # map f [a + 1..b]"
    by (rule insertBy_least) (auto simp: cmpKey_def assms)
  ultimately show ?case by (simp add: eq del: upto.simps)
qed simp

definition iconRecipe :: "iconPackDefinition \<Rightarrow> int \<Rightarrow> recipeDefinition" where
  "iconRecipe p i = fabricateRecipe (map (packItem p) [1..packCount p]) (i - 1) (packItem p i)"

lemma enumerate_upto:
  "map (\<lambda>(idx, item). F (int idx) item) (enumerate 0 (map f [1..n])) = map (\<lambda>i. F (i - 1) (f i)) [1..n]"
  by (rule nth_equalityI) (auto simp: nth_enumerate_eq)

lemma mset_icon_recipes:
  "mset (ICON_RECIPE_DEFINITIONS E) =
     mset (concat (map (\<lambda>p. map (iconRecipe p) [1..packCount p]) ICON_PACK_DEFINITIONS))"
proof -
  have index: "orDefault (idf_index (packItem p i)) 0 = i" for p i
    by (simp add: iconItemDefinition_def iconItem_def Let_def orDefault_def)
  have "iconRecipe p = (\<lambda>i. fabricateRecipe (map (packItem p) [1..packCount p]) (i - 1) (packItem p i))" for p
    by (rule ext) (simp only: iconRecipe_def)
  then show ?thesis
    by (simp add: ICON_RECIPE_DEFINITIONS_def buildIconRecipeDefinitions_def bySeries_packs comp_def
        sortBy_upto [where f = "packItem p" for p, OF index] Let_def enumerate_upto del: upto.simps)
qed

lemma icon_recipes:
  "r \<in> set (ICON_RECIPE_DEFINITIONS E) \<longleftrightarrow>
     (\<exists>p i. p \<in> set ICON_PACK_DEFINITIONS \<and> 1 \<le> i \<and> i \<le> packCount p \<and> r = iconRecipe p i)"
proof -
  have "set (ICON_RECIPE_DEFINITIONS E) = (\<Union>p\<in>set ICON_PACK_DEFINITIONS. iconRecipe p ` {1..packCount p})"
    using mset_icon_recipes [of E, THEN mset_eq_setD] by simp
  then show ?thesis unfolding set_eq_iff UN_iff image_iff Bex_def atLeastAtMost_iff by blast
qed

text \<open>The tier of an icon by its place in the pack, and what its recipe needs.\<close>

definition packKey :: "iconPackDefinition \<Rightarrow> int \<Rightarrow> string" where
  "packKey p i = resolveIconItemKey (packSeries p) i"

definition packSpan :: "iconPackDefinition \<Rightarrow> int" where
  "packSpan p = packCount p div 4"

definition rawInputs :: "iconPackDefinition \<Rightarrow> int \<Rightarrow> (string \<times> int) list" where
  "rawInputs p i =
     (if packSeries p = 35 then [(''water'', 1 + i mod 2), (''fertilizer'', 1)]
      else if packSeries p = 34 then [(''water'', 1), (''bioSubstrate'', 1 + i mod 2)]
      else [(''ironOre'', 1 + i mod 2), (if i mod 3 = 0 then ''copperOre'' else ''coal'', 1)])"

lemma packItem_simps [simp]:
  "idf_key (packItem p i) = packKey p i" "idf_index (packItem p i) = Some i"
  "idf_series (packItem p i) = Some (packSeries p)"
  "idf_tier (packItem p i) = Some (resolveTier i (packCount p))"
  "idf_code (packItem p i) = resolveIconItemCode (packSeries p) i"
  "idf_basePriceCents (packItem p i) = Some (resolvePriceForPackIndex p i)"
  by (simp_all add: iconItemDefinition_def iconItem_def Let_def packKey_def)

lemma pack_span:
  assumes "p \<in> set ICON_PACK_DEFINITIONS"
  shows "packSpan p = 5 \<and> packCount p = 20 \<or> packSpan p = 10 \<and> packCount p = 40"
  using pack_facts(3) [OF assms] by (auto simp: packSpan_def)

lemma tier_by_place:
  assumes "p \<in> set ICON_PACK_DEFINITIONS" and "1 \<le> i" and "i \<le> packCount p"
  shows "resolveTier i (packCount p) =
    (if i \<le> packSpan p then 1 else if i \<le> 2 * packSpan p then 2 else if i \<le> 3 * packSpan p then 3 else 4)"
  using pack_span [OF assms(1)]
proof
  assume *: "packSpan p = 5 \<and> packCount p = 20"
  have "(i - 1) div 5 = (if i \<le> 5 then 0 else if i \<le> 10 then 1 else if i \<le> 15 then 2 else 3)"
    using assms(2,3) * by presburger
  with * show ?thesis by (simp add: resolveTier_def Let_def)
next
  assume *: "packSpan p = 10 \<and> packCount p = 40"
  have "(i - 1) div 10 = (if i \<le> 10 then 0 else if i \<le> 20 then 1 else if i \<le> 30 then 2 else 3)"
    using assms(2,3) * by presburger
  with * show ?thesis by (simp add: resolveTier_def Let_def)
qed

lemma nthOpt_upto:
  "0 \<le> j \<Longrightarrow> j < n \<Longrightarrow> nthOpt (map f [1..n]) j = Some (f (j + 1))"
  by (simp add: nthOpt_def add.commute del: upto.simps)

lemma iconRecipe_inputs:
  assumes "p \<in> set ICON_PACK_DEFINITIONS" and "1 \<le> i" and "i \<le> packCount p"
  shows "rdf_inputs (iconRecipe p i) =
    (if i \<le> packSpan p then rawInputs p i
     else (packKey p (i - 1), 1) #
       (if i \<le> 2 * packSpan p then [(if i mod 2 = 0 then ''steelIngot'' else ''copperIngot'', 1), (''fasteners'', 2)]
        else (packKey p (i - packSpan p), 1) #
          (if i \<le> 3 * packSpan p then [(''machineParts'', 1)]
           else [(''powerUnit'', 1), (''syntheticConduit'', 1)])))"
proof -
  note tier = tier_by_place [OF assms]
  have span: "(packCount p + 3) div 4 = packSpan p" "1 \<le> packSpan p" using pack_span [OF assms(1)] by auto
  have len: "int (length [1..packCount p]) = packCount p" using pack_span [OF assms(1)] by auto
  have prev: "nthOpt (map (packItem p) [1..packCount p]) (i - 2) = Some (packItem p (i - 1))"
    if "packSpan p < i" using that span(2) assms(2,3) by (subst nthOpt_upto) (auto simp: add.commute)
  have anchor: "nthOpt (map (packItem p) [1..packCount p]) (i - 1 - packSpan p) = Some (packItem p (i - packSpan p))"
    if "packSpan p < i" using that span(2) assms(2,3) by (subst nthOpt_upto) (auto simp: add.commute)
  show ?thesis
    using prev anchor tier span assms(2) packCount_pos [OF assms(1)]
    by (simp add: iconRecipe_def fabricateRecipe_def fabricateInputs_def len Let_def
        orDefault_def rawInputs_def del: upto.simps)
qed

lemma iconRecipe_simps [simp]:
  "rdf_key (iconRecipe p i) = ''fabricate_'' @ packKey p i"
  "rdf_code (iconRecipe p i) = ''FABRICATE_'' @ resolveIconItemCode (packSeries p) i"
  "rdf_outputItemKey (iconRecipe p i) = packKey p i"
  "rdf_outputQuantity (iconRecipe p i) = (if resolveTier i (packCount p) = 1 then 2 else 1)"
  "rdf_durationTicks (iconRecipe p i) = 2 + resolveTier i (packCount p)"
  by (simp_all add: iconRecipe_def fabricateRecipe_def Let_def orDefault_def)


subsection \<open>The tables fit together\<close>

lemma pad2_inj:
  assumes "pad2 x = pad2 y" and "0 \<le> x" "x < 100" "0 \<le> y" "y < 100"
  shows "x = y"
proof -
  have digit: "a = b" if "digitChar a = digitChar b" "a < 10" "b < 10" for a b
    using that digitChar_facts(2) by (metis of_nat_eq_iff)
  have "nat x div 10 < 10" "nat x mod 10 < 10" "nat y div 10 < 10" "nat y mod 10 < 10" using assms by auto
  moreover have "digitChar (nat x div 10) = digitChar (nat y div 10)"
    "digitChar (nat x mod 10) = digitChar (nat y mod 10)"
    using assms by (simp_all add: pad2_two_digits)
  ultimately have "nat x div 10 = nat y div 10" "nat x mod 10 = nat y mod 10" using digit by blast+
  then have "nat x = nat y" by (metis div_mult_mod_eq)
  with assms show ?thesis by simp
qed

lemma packKey_inj:
  assumes "p \<in> set ICON_PACK_DEFINITIONS" "1 \<le> i" "i \<le> packCount p"
    and "q \<in> set ICON_PACK_DEFINITIONS" "1 \<le> j" "j \<le> packCount q" and "packKey p i = packKey q j"
  shows "p = q \<and> i = j"
proof -
  have series: "0 \<le> packSeries r \<and> packSeries r < 100" if "r \<in> set ICON_PACK_DEFINITIONS" for r
  proof -
    have "list_all (\<lambda>r. 0 \<le> packSeries r \<and> packSeries r < 100) ICON_PACK_DEFINITIONS" by code_simp
    with that show ?thesis by (simp add: list_all_iff)
  qed
  have "i < 100" "j < 100" using assms pack_facts(3) by fastforce+
  note range = \<open>i < 100\<close> \<open>j < 100\<close> series [OF assms(1)] series [OF assms(4)] assms(2,5)
  have "pad2 (packSeries p) @ ''_'' @ pad2 i = pad2 (packSeries q) @ ''_'' @ pad2 j"
    using assms(7) unfolding packKey_def resolveIconItemKey_def by (rule same_append_eq [THEN iffD1])
  moreover have "length (pad2 (packSeries p)) = length (pad2 (packSeries q))"
    using range by (simp add: pad2_two_digits)
  ultimately have "pad2 (packSeries p) = pad2 (packSeries q)" "pad2 i = pad2 j" by simp_all
  then have "packSeries p = packSeries q" "i = j"
    using range by (auto intro!: pad2_inj)
  with pack_unique [OF assms(1,4)] show ?thesis by simp
qed


abbreviation "inPack p i \<equiv> p \<in> set ICON_PACK_DEFINITIONS \<and> 1 \<le> i \<and> i \<le> packCount p"

lemma distinct_over_packs:
  assumes "\<And>p i q j. inPack p i \<Longrightarrow> inPack q j \<Longrightarrow> g p i = g q j \<Longrightarrow> p = q \<and> i = j"
  shows "distinct (concat (map (\<lambda>p. map (g p) [1..packCount p]) ICON_PACK_DEFINITIONS))"
proof -
  have "distinct (concat (map (\<lambda>p. map (g p) [1..packCount p]) ps))"
    if "distinct ps" "set ps \<subseteq> set ICON_PACK_DEFINITIONS" for ps
    using that
  proof (induction ps)
    case (Cons p ps)
    have "inj_on (g p) (set [1..packCount p])" using assms Cons.prems(2) by (force intro: inj_onI)
    moreover have "g p i \<noteq> g q j" if "1 \<le> i" "i \<le> packCount p" "q \<in> set ps" "1 \<le> j" "j \<le> packCount q" for i q j
      using assms [of p i q j] that Cons.prems by auto
    ultimately show ?case using Cons by (auto simp: distinct_map simp del: upto.simps)
  qed simp
  moreover have "distinct ICON_PACK_DEFINITIONS" using pack_tables_distinct(1) by (simp add: distinct_map)
  ultimately show ?thesis by simp
qed

lemma icon_items_over_packs:
  "map f ICON_ITEM_DEFINITIONS = concat (map (\<lambda>p. map (\<lambda>i. f (packItem p i)) [1..packCount p]) ICON_PACK_DEFINITIONS)"
  by (simp add: ICON_ITEM_DEFINITIONS_def ICON_CATALOG_ITEMS_def map_concat comp_def)

lemma icon_recipes_over_packs:
  "distinct (map f (ICON_RECIPE_DEFINITIONS E)) \<longleftrightarrow>
     distinct (concat (map (\<lambda>p. map (\<lambda>i. f (iconRecipe p i)) [1..packCount p]) ICON_PACK_DEFINITIONS))"
proof -
  have "mset (map f (ICON_RECIPE_DEFINITIONS E)) =
      mset (map f (concat (map (\<lambda>p. map (iconRecipe p) [1..packCount p]) ICON_PACK_DEFINITIONS)))"
    unfolding mset_map mset_icon_recipes ..
  then have "distinct (map f (ICON_RECIPE_DEFINITIONS E)) \<longleftrightarrow>
      distinct (map f (concat (map (\<lambda>p. map (iconRecipe p) [1..packCount p]) ICON_PACK_DEFINITIONS)))"
    by (rule mset_eq_imp_distinct_iff)
  then show ?thesis by (simp add: map_concat comp_def)
qed

lemma icon_items: "x \<in> set ICON_ITEM_DEFINITIONS \<longleftrightarrow> (\<exists>p i. inPack p i \<and> x = packItem p i)"
  unfolding ICON_ITEM_DEFINITIONS_def set_map image_iff Bex_def catalog_items by blast

lemma item_code_inj:
  "inPack p i \<Longrightarrow> inPack q j \<Longrightarrow> resolveIconItemCode (packSeries p) i = resolveIconItemCode (packSeries q) j \<Longrightarrow>
     p = q \<and> i = j"
  using catalog_code_inj [of p i q j] by (simp add: iconItem_def Let_def)

lemma base_table_facts:
  "distinct (map idf_key BASE_ITEM_DEFINITIONS)" "distinct (map idf_code BASE_ITEM_DEFINITIONS)"
  "distinct (map rdf_key BASE_RECIPE_DEFINITIONS)" "distinct (map rdf_code BASE_RECIPE_DEFINITIONS)"
  "list_all (\<lambda>x. take 5 (idf_key x) \<noteq> ''icon_'' \<and> parseIconItemCode (idf_code x) = None) BASE_ITEM_DEFINITIONS"
  "list_all (\<lambda>r. take 10 (rdf_key r) \<noteq> ''fabricate_'' \<and> take 10 (rdf_code r) \<noteq> ''FABRICATE_'') BASE_RECIPE_DEFINITIONS"
  by (code_simp, code_simp, code_simp, code_simp, code_simp, code_simp)

lemma item_keys_distinct: "distinct (map idf_key ITEM_DEFINITIONS)"
proof -
  have "distinct (map idf_key ICON_ITEM_DEFINITIONS)"
    unfolding icon_items_over_packs packItem_simps by (rule distinct_over_packs) (use packKey_inj in blast)
  moreover have "idf_key x \<noteq> packKey p i" if "x \<in> set BASE_ITEM_DEFINITIONS" for x p i
  proof -
    have "take 5 (packKey p i) = ''icon_''" by (simp add: packKey_def resolveIconItemKey_def)
    with base_table_facts(5) that show ?thesis by (auto simp: list_all_iff)
  qed
  ultimately show ?thesis using base_table_facts(1) by (auto simp: ITEM_DEFINITIONS_def icon_items)
qed

lemma item_codes_distinct: "distinct (map idf_code ITEM_DEFINITIONS)"
proof -
  have "distinct (map idf_code ICON_ITEM_DEFINITIONS)"
    unfolding icon_items_over_packs packItem_simps by (rule distinct_over_packs) (use item_code_inj in blast)
  moreover have "parseIconItemCode (resolveIconItemCode (packSeries p) i) \<noteq> None" if "inPack p i" for p i
    using parse_resolve [of p i] that pack_facts(3) [of p] by force
  ultimately show ?thesis
    using base_table_facts(2,5) by (fastforce simp: ITEM_DEFINITIONS_def list_all_iff icon_items)
qed

lemma base_recipe_names:
  assumes "r \<in> set BASE_RECIPE_DEFINITIONS"
  shows "rdf_key r \<noteq> rdf_key (iconRecipe p i) \<and> rdf_code r \<noteq> rdf_code (iconRecipe p i)"
proof -
  have "take 10 (rdf_key (iconRecipe p i)) = ''fabricate_''" "take 10 (rdf_code (iconRecipe p i)) = ''FABRICATE_''"
    by simp_all
  with base_table_facts(6) assms show ?thesis unfolding list_all_iff by metis
qed

lemma recipe_keys_distinct: "distinct (map rdf_key (RECIPE_DEFINITIONS E))"
proof -
  have "distinct (map rdf_key (ICON_RECIPE_DEFINITIONS E))"
    unfolding icon_recipes_over_packs iconRecipe_simps
    by (rule distinct_over_packs) (use packKey_inj in \<open>simp, blast\<close>)
  then show ?thesis using base_table_facts(3) base_recipe_names
    by (auto simp: RECIPE_DEFINITIONS_def icon_recipes simp del: iconRecipe_simps)
qed

lemma recipe_codes_distinct: "distinct (map rdf_code (RECIPE_DEFINITIONS E))"
proof -
  have "distinct (map rdf_code (ICON_RECIPE_DEFINITIONS E))"
    unfolding icon_recipes_over_packs iconRecipe_simps
    by (rule distinct_over_packs) (use item_code_inj in \<open>simp, blast\<close>)
  then show ?thesis using base_table_facts(4) base_recipe_names
    by (auto simp: RECIPE_DEFINITIONS_def icon_recipes simp del: iconRecipe_simps)
qed

end
