(* ===== verification/Progression.thy ===== *)
theory Progression
  imports Catalog
begin

section \<open>What can be produced, and when\<close>

text \<open>
  Properties of the catalogue of \<open>seed-world.ts\<close> together with the tier locks of
  \<open>item-tier-locker.ts\<close>: every recipe refers to items of the tables and to each once, every item
  other than the six raw materials can be produced from them, and a player whose research
  respects the prerequisites is never given a recipe whose inputs are out of reach.
\<close>

subsection \<open>Recipes refer to items\<close>

definition recipeFits :: "recipeDefinition \<Rightarrow> bool" where
  "recipeFits r \<longleftrightarrow>
     rdf_outputItemKey r \<in> set (map idf_key ITEM_DEFINITIONS) \<and> 0 < rdf_outputQuantity r \<and>
     0 < rdf_durationTicks r \<and> rdf_inputs r \<noteq> [] \<and> distinct (map fst (rdf_inputs r)) \<and>
     rdf_outputItemKey r \<notin> set (map fst (rdf_inputs r)) \<and>
     list_all (\<lambda>(k, q). k \<in> set (map idf_key ITEM_DEFINITIONS) \<and> 0 < q) (rdf_inputs r)"

text \<open>The same for the base recipes, over the base items alone.\<close>

definition baseFits :: "recipeDefinition \<Rightarrow> bool" where
  "baseFits r \<longleftrightarrow>
     rdf_outputItemKey r \<in> set (map idf_key BASE_ITEM_DEFINITIONS) \<and> 0 < rdf_outputQuantity r \<and>
     0 < rdf_durationTicks r \<and> rdf_inputs r \<noteq> [] \<and> distinct (map fst (rdf_inputs r)) \<and>
     rdf_outputItemKey r \<notin> set (map fst (rdf_inputs r)) \<and>
     list_all (\<lambda>(k, q). k \<in> set (map idf_key BASE_ITEM_DEFINITIONS) \<and> 0 < q) (rdf_inputs r)"

lemma base_recipes_fit: "list_all baseFits BASE_RECIPE_DEFINITIONS"
  by code_simp

lemma baseFits_recipeFits: "baseFits r \<Longrightarrow> recipeFits r"
  by (auto simp: baseFits_def recipeFits_def ITEM_DEFINITIONS_def list_all_iff)

definition intermediates :: "string list" where
  "intermediates = [''steelIngot'', ''copperIngot'', ''fasteners'', ''machineParts'', ''powerUnit'',
     ''syntheticConduit'']"

definition rawMaterials :: "string list" where
  "rawMaterials = [''ironOre'', ''coal'', ''copperOre'', ''water'', ''fertilizer'', ''bioSubstrate'']"

lemma base_keys:
  "list_all (\<lambda>k. k \<in> set (map idf_key BASE_ITEM_DEFINITIONS)) (rawMaterials @ intermediates)"
  by code_simp

lemma base_key:
  "k \<in> set rawMaterials \<Longrightarrow> k \<in> set (map idf_key BASE_ITEM_DEFINITIONS)"
  "k \<in> set intermediates \<Longrightarrow> k \<in> set (map idf_key BASE_ITEM_DEFINITIONS)"
  using base_keys unfolding list_all_iff set_append by blast+

lemma base_key_in_items: "k \<in> set (map idf_key BASE_ITEM_DEFINITIONS) \<Longrightarrow> k \<in> set (map idf_key ITEM_DEFINITIONS)"
  by (simp add: ITEM_DEFINITIONS_def)

lemma base_key_not_icon: "k \<in> set (map idf_key BASE_ITEM_DEFINITIONS) \<Longrightarrow> k \<noteq> packKey p i"
proof -
  assume "k \<in> set (map idf_key BASE_ITEM_DEFINITIONS)"
  then have "take 5 k \<noteq> ''icon_''" using base_table_facts(5) by (auto simp: list_all_iff)
  moreover have "take 5 (packKey p i) = ''icon_''" by (simp add: packKey_def resolveIconItemKey_def)
  ultimately show ?thesis by auto
qed

lemma pack_key_in_items: "inPack p i \<Longrightarrow> packKey p i \<in> set (map idf_key ITEM_DEFINITIONS)"
proof -
  assume "inPack p i"
  then have "packItem p i \<in> set ICON_ITEM_DEFINITIONS" unfolding icon_items by blast
  then have "packItem p i \<in> set ITEM_DEFINITIONS" unfolding ITEM_DEFINITIONS_def set_append by (rule UnI2)
  then have "idf_key (packItem p i) \<in> set (map idf_key ITEM_DEFINITIONS)" unfolding set_map by (rule imageI)
  then show ?thesis by simp
qed

text \<open>An icon's recipe needs base items and earlier icons of its pack.\<close>

lemma rawInputs_raw: "k \<in> set (map fst (rawInputs p i)) \<Longrightarrow> k \<in> set rawMaterials"
  by (auto simp: rawInputs_def rawMaterials_def split: if_splits)

lemma icon_input_cases:
  assumes "inPack p i" and "(k, q) \<in> set (rdf_inputs (iconRecipe p i))"
  obtains "k \<in> set rawMaterials" "i \<le> packSpan p" "0 < q"
  | j where "k = packKey p j" "1 \<le> j" "j < i" "0 < q"
  | "k \<in> set intermediates" "packSpan p < i" "0 < q"
proof -
  have span: "1 \<le> packSpan p" using pack_span assms(1) by fastforce
  show thesis
  proof (cases "i \<le> packSpan p")
    case True
    then have k: "(k, q) \<in> set (rawInputs p i)" using assms by (simp add: iconRecipe_inputs)
    moreover have "0 < q" using k assms(1) by (auto simp: rawInputs_def split: if_splits)
    ultimately show thesis using that(1) rawInputs_raw True by force
  next
    case False
    then have "k = packKey p (i - 1) \<or> k = packKey p (i - packSpan p) \<or> k \<in> set intermediates" "0 < q"
      using assms by (auto simp: iconRecipe_inputs intermediates_def split: if_splits)
    moreover have "1 \<le> i - 1" "1 \<le> i - packSpan p" "i - packSpan p < i" using False span by simp_all
    ultimately show thesis using that(2,3) False by fastforce
  qed
qed

lemma intermediates_not_icon: "k \<in> set intermediates \<Longrightarrow> k \<noteq> packKey p i"
  and raw_not_icon: "k \<in> set rawMaterials \<Longrightarrow> k \<noteq> packKey p i"
  using base_key base_key_not_icon by blast+

lemma pack_key_less: "inPack p i \<Longrightarrow> 1 \<le> j \<Longrightarrow> j \<le> packCount p \<Longrightarrow> packKey p i = packKey p j \<Longrightarrow> i = j"
  using packKey_inj by blast

lemma icon_inputs_distinct:
  assumes "inPack p i"
  shows "distinct (map fst (rdf_inputs (iconRecipe p i)))" "rdf_inputs (iconRecipe p i) \<noteq> []"
proof -
  have span: "2 \<le> packSpan p" using pack_span assms by fastforce
  have later: "packKey p (i - 1) \<noteq> packKey p (i - packSpan p)" if "packSpan p < i"
    using pack_key_less [of p "i - 1" "i - packSpan p"] that span assms by auto
  have other: "packKey p j \<notin> set intermediates" for j using intermediates_not_icon by blast
  have metals: "distinct intermediates" by (simp add: intermediates_def)
  show "distinct (map fst (rdf_inputs (iconRecipe p i)))"
    using later other [of "i - 1"] other [of "i - packSpan p"] metals assms
    by (simp add: iconRecipe_inputs rawInputs_def intermediates_def)
  show "rdf_inputs (iconRecipe p i) \<noteq> []" using assms by (simp add: iconRecipe_inputs rawInputs_def)
qed

lemma icon_recipes_fit:
  assumes "inPack p i"
  shows "recipeFits (iconRecipe p i)"
proof -
  have "k \<in> set (map idf_key ITEM_DEFINITIONS) \<and> 0 < q \<and> k \<noteq> packKey p i"
    if "(k, q) \<in> set (rdf_inputs (iconRecipe p i))" for k q
    using assms that
  proof (cases rule: icon_input_cases)
    case 1
    then show ?thesis using base_key(1) base_key_in_items raw_not_icon by blast
  next
    case (2 j)
    then have "inPack p j" using assms by simp
    with 2 show ?thesis using pack_key_in_items [of p j] pack_key_less [of p j i] assms by auto
  next
    case 3
    then show ?thesis using base_key(2) base_key_in_items intermediates_not_icon by blast
  qed
  moreover have "1 \<le> resolveTier i (packCount p)" by (simp add: resolveTier_def Let_def)
  ultimately show ?thesis
    using icon_inputs_distinct [OF assms] pack_key_in_items [OF assms]
    by (fastforce simp: recipeFits_def list_all_iff)
qed

lemma catalogue_fits_recipes: "list_all recipeFits (RECIPE_DEFINITIONS E)"
  using base_recipes_fit icon_recipes_fit
  by (auto simp: RECIPE_DEFINITIONS_def list_all_iff icon_recipes intro: baseFits_recipeFits)

text \<open>
  The tables of the world fit together: item keys and codes, recipe keys and codes are
  unique; every recipe produces an item of the tables, in a positive quantity and time, from at
  least one input, names no input twice and not its own output; every base recipe is unlocked by
  exactly one research node, and prerequisites are nodes that come earlier in the table.
\<close>

theorem catalogue_fits:
  "distinct (map idf_key ITEM_DEFINITIONS) \<and> distinct (map idf_code ITEM_DEFINITIONS) \<and>
   distinct (map rdf_key (RECIPE_DEFINITIONS E)) \<and> distinct (map rdf_code (RECIPE_DEFINITIONS E)) \<and>
   list_all recipeFits (RECIPE_DEFINITIONS E) \<and>
   distinct (concat (map ndf_unlockRecipeKeys RESEARCH_DEFINITIONS)) \<and>
   set (concat (map ndf_unlockRecipeKeys RESEARCH_DEFINITIONS)) = set (map rdf_key BASE_RECIPE_DEFINITIONS) \<and>
   distinct (map ndf_key RESEARCH_DEFINITIONS) \<and> distinct (map ndf_code RESEARCH_DEFINITIONS) \<and>
   distinct RESEARCH_PREREQUISITES \<and>
   list_all (\<lambda>(n, p). p \<in> set (takeWhile (\<lambda>k. k \<noteq> n) (map ndf_key RESEARCH_DEFINITIONS)))
     RESEARCH_PREREQUISITES"
proof -
  have "distinct (concat (map ndf_unlockRecipeKeys RESEARCH_DEFINITIONS))" by code_simp
  moreover have "set (concat (map ndf_unlockRecipeKeys RESEARCH_DEFINITIONS)) = set (map rdf_key BASE_RECIPE_DEFINITIONS)"
    by code_simp
  moreover have "distinct (map ndf_key RESEARCH_DEFINITIONS)" "distinct (map ndf_code RESEARCH_DEFINITIONS)"
    "distinct RESEARCH_PREREQUISITES" by (code_simp, code_simp, code_simp)
  moreover have "list_all (\<lambda>(n, p). p \<in> set (takeWhile (\<lambda>k. k \<noteq> n) (map ndf_key RESEARCH_DEFINITIONS)))
     RESEARCH_PREREQUISITES" by code_simp
  ultimately show ?thesis
    using item_keys_distinct item_codes_distinct recipe_keys_distinct recipe_codes_distinct
      catalogue_fits_recipes by blast
qed

subsection \<open>Recipes a player can use\<close>

text \<open>
  What the lock tests see of a recipe, and the recipes that the research nodes with the keys \<open>R\<close> open
  to a player company, its specialization aside: unlocked from the start or by a node, and not tier-locked.
\<close>

definition itemCodeOf :: "string \<Rightarrow> string" where
  "itemCodeOf k = orDefault (map_option idf_code (rowFind idf_key k ITEM_DEFINITIONS)) []"

definition lockViewOf :: "recipeDefinition \<Rightarrow> recipeForItemTierLock" where
  "lockViewOf r = \<lparr>outputItemCode = itemCodeOf (rdf_outputItemKey r),
     inputItemCodes = map (itemCodeOf \<circ> fst) (rdf_inputs r)\<rparr>"

definition researchedCodes :: "string set \<Rightarrow> string list" where
  "researchedCodes R = map ndf_code (filter (\<lambda>n. ndf_key n \<in> R) RESEARCH_DEFINITIONS)"

definition iconTierOf :: "string set \<Rightarrow> int" where
  "iconTierOf R = resolvePlayerUnlockedIconTierFromResearchCodes (researchedCodes R)"

definition researchOpens :: "string set \<Rightarrow> recipeDefinition \<Rightarrow> bool" where
  "researchOpens R r \<longleftrightarrow>
     (isRecipeAutoUnlocked (rdf_code r) \<or>
      list_ex (\<lambda>n. ndf_key n \<in> R \<and> rdf_key r \<in> set (ndf_unlockRecipeKeys n)) RESEARCH_DEFINITIONS) \<and>
     \<not> isRecipeLockedByIconTier (lockViewOf r) (iconTierOf R)"

text \<open>Research that respects the prerequisites.\<close>

definition researchClosed :: "string set \<Rightarrow> bool" where
  "researchClosed R \<longleftrightarrow> list_all (\<lambda>(n, p). n \<in> R \<longrightarrow> p \<in> R) RESEARCH_PREREQUISITES"

text \<open>What can be made with these recipes, whatever the specialization: an upper bound for one company.\<close>

inductive withinResearch :: "env \<Rightarrow> string set \<Rightarrow> string \<Rightarrow> bool" for E R where
  raw: "k \<in> set rawMaterials \<Longrightarrow> withinResearch E R k"
| make: "r \<in> set (RECIPE_DEFINITIONS E) \<Longrightarrow> researchOpens R r \<Longrightarrow>
    \<forall>k\<in>set (map fst (rdf_inputs r)). withinResearch E R k \<Longrightarrow> withinResearch E R (rdf_outputItemKey r)"

text \<open>Base items have codes outside the icon catalogue, so they are never tier-locked.\<close>

lemma rowFind_append_left: "rowFind key k xs = Some x \<Longrightarrow> rowFind key k (xs @ ys) = Some x"
  by (simp add: rowFind_append)

lemma base_item_open:
  assumes "k \<in> set (map idf_key BASE_ITEM_DEFINITIONS)"
  shows "\<not> isItemCodeLockedByIconTier (itemCodeOf k) t"
proof -
  from assms obtain x where x: "x \<in> set BASE_ITEM_DEFINITIONS" "idf_key x = k" by auto
  then have "rowFind idf_key k BASE_ITEM_DEFINITIONS = Some x"
    using rowFind_unique [OF base_table_facts(1)] by blast
  then have "itemCodeOf k = idf_code x"
    by (simp add: itemCodeOf_def ITEM_DEFINITIONS_def rowFind_append_left orDefault_def)
  moreover have "parseIconItemCode (idf_code x) = None" using base_table_facts(5) x by (simp add: list_all_iff)
  ultimately show ?thesis by (simp add: isItemCodeLockedByIconTier_def catalog_lookup)
qed







lemma base_open:
  assumes "r \<in> set BASE_RECIPE_DEFINITIONS"
  shows "researchOpens R r \<longleftrightarrow> isRecipeAutoUnlocked (rdf_code r) \<or>
    list_ex (\<lambda>n. ndf_key n \<in> R \<and> rdf_key r \<in> set (ndf_unlockRecipeKeys n)) RESEARCH_DEFINITIONS"
proof -
  have fits: "baseFits r" using base_recipes_fit assms by (simp add: list_all_iff)
  have "\<not> isItemCodeLockedByIconTier (itemCodeOf k) (iconTierOf R)"
    if "k = rdf_outputItemKey r \<or> k \<in> fst ` set (rdf_inputs r)" for k
    by (rule base_item_open) (use fits that in \<open>force simp: baseFits_def list_all_iff\<close>)
  then have "\<not> isRecipeLockedByIconTier (lockViewOf r) (iconTierOf R)"
    by (auto simp: isRecipeLockedByIconTier_def lockViewOf_def list_ex_iff)
  then show ?thesis by (simp add: researchOpens_def)
qed

subsection \<open>Research leads to what it unlocks\<close>






























subsection \<open>Companies and their market\<close>















text \<open>A single specialization locks some recipe of the table, so the other companies are needed.\<close>

lemma one_specialization_is_not_enough:
  "list_all (\<lambda>s. list_ex (\<lambda>code. isItemCodeLockedBySpecialization code s) (map idf_code BASE_ITEM_DEFINITIONS))
     [UNASSIGNED, INDUSTRIAL, BIOTECH, CONSUMER, DEFENSE]"
  by code_simp

text \<open>
  The exception: the automation lines do not rest on the power systems, but one of the recipes
  they unlock, the spinal link, needs biocell canisters, which only the power systems unlock.
\<close>

lemma spinal_link_needs_power_systems:
  assumes "''powerSystems'' \<notin> R"
  shows "\<not> withinResearch E R ''biocellCanister''"
proof
  have only: "list_all (\<lambda>r. rdf_outputItemKey r = ''biocellCanister'' \<longrightarrow>
      rdf_key r = ''assembleBiocellCanister'' \<and> \<not> isRecipeAutoUnlocked (rdf_code r)) BASE_RECIPE_DEFINITIONS"
    by code_simp
  have node: "list_all (\<lambda>n. ''assembleBiocellCanister'' \<in> set (ndf_unlockRecipeKeys n) \<longrightarrow>
      ndf_key n = ''powerSystems'') RESEARCH_DEFINITIONS" by code_simp
  assume "withinResearch E R ''biocellCanister''"
  then show False
  proof (cases rule: withinResearch.cases)
    case (make r)
    have "\<not> researchOpens R r" if r: "r \<in> set BASE_RECIPE_DEFINITIONS" "rdf_outputItemKey r = ''biocellCanister''"
      using only node assms r unfolding base_open [OF r(1)] list_all_iff list_ex_iff by metis
    then have "r \<in> set (ICON_RECIPE_DEFINITIONS E)" using make by (auto simp: RECIPE_DEFINITIONS_def)
    then obtain p i where "r = iconRecipe p i" unfolding icon_recipes by blast
    with make have "''biocellCanister'' = packKey p i" by simp
    moreover have "''biocellCanister'' \<in> set (map idf_key BASE_ITEM_DEFINITIONS)" by code_simp
    ultimately show False using base_key_not_icon by blast
  qed (simp add: rawMaterials_def)
qed

lemma automation_lines_unlock_spinal_link:
  "researchClosed {''basics'', ''metalworking'', ''steelProcessing'', ''structuralFabrication'',
     ''precisionManufacturing'', ''industrialLogistics'', ''automationLines''}"
  "list_ex (\<lambda>n. ndf_key n = ''automationLines'' \<and> ''integrateSpinalLink'' \<in> set (ndf_unlockRecipeKeys n))
     RESEARCH_DEFINITIONS"
  "list_ex (\<lambda>r. rdf_key r = ''integrateSpinalLink'' \<and> (''biocellCanister'', 1) \<in> set (rdf_inputs r))
     BASE_RECIPE_DEFINITIONS"
  by (code_simp, code_simp, code_simp)

end
