(* ===== verification/WorldSeed.thy ===== *)
theory WorldSeed
  imports Progression MarketOrders ResetSimulation Workforce WorkerConfig
begin

section \<open>Seeding a world\<close>

text \<open>
  \<open>seedWorld\<close> of \<open>packages/db/src/seed-world.ts\<close>: the catalogue, three regions, three bots and an
  optional player company with their stock, recipes, research and opening orders. The function
  runs no transaction of its own: every call of the client commits, so a failure leaves what was
  written before. Each part of the function is a definition, in its order. A look-up of a key that
  is missing reads a property of \<open>undefined\<close>, which throws.
\<close>

subsection \<open>Statements in sequence\<close>

definition andThenS :: "'a result \<times> db \<Rightarrow> ('a \<Rightarrow> db \<Rightarrow> 'b result \<times> db) \<Rightarrow> 'b result \<times> db" where
  "andThenS m f = (case m of (Inl e, d) \<Rightarrow> (Inl e, d) | (Inr x, d) \<Rightarrow> f x d)"

fun eachS :: "('a \<Rightarrow> 's \<Rightarrow> db \<Rightarrow> 's result \<times> db) \<Rightarrow> 'a list \<Rightarrow> 's \<Rightarrow> db \<Rightarrow> 's result \<times> db" where
  "eachS f [] s d = (Inr s, d)"
| "eachS f (x # xs) s d = andThenS (f x s d) (eachS f xs)"

definition undefinedProperty :: error where
  "undefinedProperty = PlainError
     (''Cannot read properties of undefined (reading '' @ [CHR 0x27] @ ''id'' @ [CHR 0x27] @ '')'')"

definition known :: "'a option \<Rightarrow> 'a result" where
  "known m = (case m of None \<Rightarrow> Inl undefinedProperty | Some x \<Rightarrow> Inr x)"

fun mapE :: "('a \<Rightarrow> 'b result) \<Rightarrow> 'a list \<Rightarrow> 'b list result" where
  "mapE f [] = Inr []"
| "mapE f (x # xs) = andThen (f x) (\<lambda>y. andThen (mapE f xs) (\<lambda>ys. Inr (y # ys)))"

text \<open>\<open>create\<close> in a table with a unique column, \<open>createMany\<close> by key.\<close>

definition createCoded ::
    "('r \<Rightarrow> string) \<Rightarrow> ('r \<Rightarrow> string) \<Rightarrow> (db \<Rightarrow> 'r list) \<Rightarrow> (('r list \<Rightarrow> 'r list) \<Rightarrow> db \<Rightarrow> db) \<Rightarrow> 'r \<Rightarrow> db \<Rightarrow>
     ('r \<times> db) result" where
  "createCoded code key tbl upd r d =
     (case rowFind code (code r) (tbl d) of
       Some _ \<Rightarrow> Inl uniqueViolation
     | None \<Rightarrow> createRow key tbl upd r d)"

definition createMany ::
    "('r \<Rightarrow> 'k) \<Rightarrow> (db \<Rightarrow> 'r list) \<Rightarrow> (('r list \<Rightarrow> 'r list) \<Rightarrow> db \<Rightarrow> db) \<Rightarrow> 'r list \<Rightarrow> db \<Rightarrow> (unit \<times> db) result" where
  "createMany key tbl upd rows d =
     (if distinct (map key rows) \<and> list_all (\<lambda>r. rowFind key (key r) (tbl d) = None) rows
      then Inr ((), upd (\<lambda>rs. rs @ rows) d) else Inl uniqueViolation)"

subsection \<open>Options\<close>

record seedWorldOptions =
  so_reset :: bool
  so_includePlayerCompany :: "bool option"

definition parseOptionalBooleanEnv :: "string option \<Rightarrow> bool option" where
  "parseOptionalBooleanEnv v =
     (case v of
       None \<Rightarrow> None
     | Some raw \<Rightarrow>
       if raw = [] then None
       else (let normalized = toLowerCase (trim raw) in
         if normalized \<in> {''1'', ''true'', ''yes'', ''on''} then Some True
         else if normalized \<in> {''0'', ''false'', ''no'', ''off''} then Some False else None))"

definition shouldIncludeSeededPlayerCompany :: "environ \<Rightarrow> seedWorldOptions \<Rightarrow> bool" where
  "shouldIncludeSeededPlayerCompany v options =
     (case so_includePlayerCompany options of
       Some b \<Rightarrow> b
     | None \<Rightarrow>
       (case parseOptionalBooleanEnv (v ''CORPSIM_SEED_PLAYER_COMPANY'') of
         Some b \<Rightarrow> b
       | None \<Rightarrow> v ''NODE_ENV'' \<noteq> Some ''production''))"

subsection \<open>Items, regions and companies\<close>

definition seedItem ::
    "env \<Rightarrow> itemDefinition \<Rightarrow> (string \<Rightarrow> item option) \<Rightarrow> db \<Rightarrow> (string \<Rightarrow> item option) result \<times> db" where
  "seedItem E definition' itemsByKey d =
     andThenS (transaction (\<lambda>d. createCoded it_code it_id items items_update
         \<lparr>it_id = newId E d, it_code = idf_code definition', it_name = idf_name definition'\<rparr> d) d)
       (\<lambda>item d. (Inr (itemsByKey(idf_key definition' \<mapsto> item)), d))"

definition seedItems :: "env \<Rightarrow> db \<Rightarrow> (string \<Rightarrow> item option) result \<times> db" where
  "seedItems E d = eachS (seedItem E) ITEM_DEFINITIONS Map.empty d"

definition SEEDED_PLAYER_ID :: string where "SEEDED_PLAYER_ID = ''player_seed''"

definition seedPlayer :: "env \<Rightarrow> db \<Rightarrow> player result \<times> db" where
  "seedPlayer E d = transaction (\<lambda>d. createCoded pl_handle pl_id players players_update
     \<lparr>pl_id = SEEDED_PLAYER_ID, pl_handle = ''PLAYER'', pl_tutorialCompletedAt = None,
      pl_createdAt = currentTime E d\<rparr> d) d"

definition upsertRegion :: "string \<Rightarrow> string \<Rightarrow> string \<Rightarrow> db \<Rightarrow> region result \<times> db" where
  "upsertRegion code name rid d = transaction (\<lambda>d.
     case rowFind rg_code code (regions d) of
       Some _ \<Rightarrow> updateRow rg_code regions regions_update code (\<lambda>r. r\<lparr>rg_name := name\<rparr>) d
     | None \<Rightarrow> createRow rg_id regions regions_update \<lparr>rg_id = rid, rg_code = code, rg_name = name\<rparr> d) d"

definition seedRegions :: "db \<Rightarrow> region result \<times> db" where
  "seedRegions d =
     andThenS (upsertRegion ''CORE'' ''Core'' ''region_core'' d) (\<lambda>coreRegion d.
     andThenS (upsertRegion ''INDUSTRIAL'' ''Industrial'' ''region_industrial'' d) (\<lambda>_ d.
     andThenS (upsertRegion ''FRONTIER'' ''Frontier'' ''region_frontier'' d) (\<lambda>_ d.
     (Inr coreRegion, d))))"

text \<open>The columns a seeded company does not name have the defaults of the schema.\<close>

definition seededCompany ::
    "string \<Rightarrow> string \<Rightarrow> string \<Rightarrow> bool \<Rightarrow> string option \<Rightarrow> string \<Rightarrow> int \<Rightarrow> int \<Rightarrow> company" where
  "seededCompany cid code name isPlayer owner rid cash now =
     \<lparr>co_id = cid, co_code = code, co_name = name, co_isPlayer = isPlayer,
      co_specialization = UNASSIGNED, co_specializationChangedAt = None,
      co_ownerPlayerId = owner, co_regionId = rid, co_cashCents = cash, co_reservedCashCents = 0,
      co_workforceCapacity = 0, co_workforceAllocationOpsPct = 40, co_workforceAllocationRngPct = 20,
      co_workforceAllocationLogPct = 20, co_workforceAllocationCorpPct = 20, co_orgEfficiencyBps = 7000,
      co_createdAt = now\<rparr>"

definition createCompany ::
    "env \<Rightarrow> string \<Rightarrow> string \<Rightarrow> bool \<Rightarrow> string option \<Rightarrow> string \<Rightarrow> int \<Rightarrow> db \<Rightarrow> (company \<times> db) result" where
  "createCompany E code name isPlayer owner rid cash d =
     createCoded co_code co_id companies companies_update
       (seededCompany (newId E d) code name isPlayer owner rid cash (currentTime E d)) d"

definition seedPlayerCompany :: "env \<Rightarrow> player option \<Rightarrow> region \<Rightarrow> db \<Rightarrow> company option result \<times> db" where
  "seedPlayerCompany E player coreRegion d =
     (case player of
       None \<Rightarrow> (Inr None, d)
     | Some p \<Rightarrow>
       andThenS (transaction (createCompany E ''PLAYER_CO'' ''Player Company'' True (Some (pl_id p))
           (rg_id coreRegion) 1200000) d) (\<lambda>c d. (Inr (Some c), d)))"

definition seedBots :: "env \<Rightarrow> region \<Rightarrow> db \<Rightarrow> (company \<times> company \<times> company) result \<times> db" where
  "seedBots E coreRegion d =
     andThenS (transaction (createCompany E ''BOT_MINER'' ''Atlas Mining Co'' False None
       (rg_id coreRegion) 2500000) d) (\<lambda>miner d.
     andThenS (transaction (createCompany E ''BOT_SMELTER'' ''Northwind Smelting'' False None
       (rg_id coreRegion) 2500000) d) (\<lambda>smelter d.
     andThenS (transaction (createCompany E ''BOT_TRADER'' ''Summit Trading'' False None
       (rg_id coreRegion) 2500000) d) (\<lambda>trader d.
     (Inr (miner, smelter, trader), d))))"

subsection \<open>Stock\<close>

text \<open>Rows of company id, item key and quantity; no row names a reserved quantity.\<close>

definition playerStock :: "string \<Rightarrow> (string \<times> string \<times> int) list" where
  "playerStock cid =
     [(cid, ''ironOre'', 200), (cid, ''coal'', 120), (cid, ''copperOre'', 150),
      (cid, ''water'', 150), (cid, ''fertilizer'', 120), (cid, ''bioSubstrate'', 130),
      (cid, ''ironIngot'', 10), (cid, ''copperIngot'', 5)]"

definition baseBotStock :: "string \<Rightarrow> string \<Rightarrow> string \<Rightarrow> (string \<times> string \<times> int) list" where
  "baseBotStock miner smelter trader =
     [(miner, ''ironOre'', 700), (miner, ''coal'', 650), (miner, ''copperOre'', 520),
      (miner, ''water'', 850), (miner, ''fertilizer'', 620), (miner, ''bioSubstrate'', 580),
      (smelter, ''ironIngot'', 320), (smelter, ''copperIngot'', 220),
      (smelter, ''steelIngot'', 180), (smelter, ''fasteners'', 300), (smelter, ''steelBeam'', 70),
      (smelter, ''syntheticConduit'', 190), (smelter, ''biocellCanister'', 120),
      (smelter, ''servoDrive'', 90), (smelter, ''opticModule'', 80), (trader, ''handTools'', 140),
      (trader, ''machineParts'', 70), (trader, ''toolKit'', 36), (trader, ''powerUnit'', 16),
      (trader, ''conveyorModule'', 10), (trader, ''industrialPress'', 2),
      (trader, ''neuralInterface'', 45), (trader, ''ocularImplant'', 24),
      (trader, ''cyberArmature'', 18), (trader, ''spinalLink'', 22),
      (trader, ''cyberneticSuite'', 3)]"

definition botStock :: "string \<Rightarrow> string \<Rightarrow> string \<Rightarrow> (string \<times> string \<times> int) list" where
  "botStock miner smelter trader =
     baseBotStock miner smelter trader @
     map (\<lambda>key. (smelter, key, 80)) ICON_TIER_ONE_ITEM_KEYS @
     map (\<lambda>key. (trader, key, 20)) ICON_TIER_TWO_ITEM_KEYS @
     map (\<lambda>key. (trader, key, 3)) ICON_FINAL_PRODUCT_KEYS"

definition inventoryRow ::
    "(string \<Rightarrow> item option) \<Rightarrow> string \<Rightarrow> string \<times> string \<times> int \<Rightarrow> inventory result" where
  "inventoryRow itemsByKey rid = (\<lambda>(companyId, itemKey, qty).
     andThen (known (itemsByKey itemKey)) (\<lambda>item.
     Inr \<lparr>inv_companyId = companyId, inv_itemId = it_id item, inv_regionId = rid,
       inv_quantity = qty, inv_reservedQuantity = 0\<rparr>))"

definition seedInventory ::
    "(string \<Rightarrow> item option) \<Rightarrow> string \<Rightarrow> (string \<times> string \<times> int) list \<Rightarrow> db \<Rightarrow> unit result \<times> db" where
  "seedInventory itemsByKey rid rows d = transaction (\<lambda>d.
     andThen (mapE (inventoryRow itemsByKey rid) rows) (\<lambda>rows.
     createMany invKey inventories inventories_update rows d)) d"

definition seedFactory :: "env \<Rightarrow> company option \<Rightarrow> string \<Rightarrow> db \<Rightarrow> unit result \<times> db" where
  "seedFactory E playerCompany rid d =
     (case playerCompany of
       None \<Rightarrow> (Inr (), d)
     | Some c \<Rightarrow>
       andThenS (transaction (\<lambda>d. createRow bd_id buildings buildings_update
         \<lparr>bd_id = newId E d, bd_companyId = co_id c, bd_regionId = rid, bd_buildingType = FACTORY,
          bd_status = BuildingACTIVE, bd_name = None, bd_acquisitionCostCents = 0,
          bd_weeklyOperatingCostCents = 0, bd_capacitySlots = 5, bd_tickAcquired = 0,
          bd_tickConstructionCompletes = None, bd_lastOperatingCostTick = Some 0,
          bd_createdAt = currentTime E d\<rparr> d) d) (\<lambda>_ d. (Inr (), d)))"

subsection \<open>Recipes and research\<close>

definition recipeInputRow :: "(string \<Rightarrow> item option) \<Rightarrow> string \<Rightarrow> string \<times> int \<Rightarrow> recipeInput result" where
  "recipeInputRow itemsByKey recipeId = (\<lambda>(itemKey, qty).
     andThen (known (itemsByKey itemKey)) (\<lambda>item.
     Inr \<lparr>ri_recipeId = recipeId, ri_itemId = it_id item, ri_quantity = qty\<rparr>))"

text \<open>A recipe and its inputs are one nested create; \<open>recipesByKey\<close> keeps the order of insertion.\<close>

definition createRecipe ::
    "env \<Rightarrow> (string \<Rightarrow> item option) \<Rightarrow> recipeDefinition \<Rightarrow> db \<Rightarrow> (recipe \<times> db) result" where
  "createRecipe E itemsByKey definition' d =
     andThen (known (itemsByKey (rdf_outputItemKey definition'))) (\<lambda>output.
     andThen (mapE (recipeInputRow itemsByKey (newId E d)) (rdf_inputs definition')) (\<lambda>inputs.
     andThen (createCoded rc_code rc_id recipes recipes_update
       \<lparr>rc_id = newId E d, rc_code = rdf_code definition', rc_name = rdf_name definition',
        rc_durationTicks = rdf_durationTicks definition', rc_outputItemId = it_id output,
        rc_outputQuantity = rdf_outputQuantity definition'\<rparr> d) (\<lambda>(recipe, d).
     andThen (createMany (\<lambda>i. (ri_recipeId i, ri_itemId i)) recipeInputs recipeInputs_update inputs d) (\<lambda>(_, d).
     Inr (recipe, d)))))"

definition seedRecipe ::
    "env \<Rightarrow> (string \<Rightarrow> item option) \<Rightarrow> recipeDefinition \<Rightarrow> (string \<times> recipe) list \<Rightarrow> db \<Rightarrow>
     (string \<times> recipe) list result \<times> db" where
  "seedRecipe E itemsByKey definition' recipesByKey d =
     andThenS (transaction (createRecipe E itemsByKey definition') d)
       (\<lambda>recipe d. (Inr (AList.update (rdf_key definition') recipe recipesByKey), d))"

definition seedRecipes :: "env \<Rightarrow> (string \<Rightarrow> item option) \<Rightarrow> db \<Rightarrow> (string \<times> recipe) list result \<times> db" where
  "seedRecipes E itemsByKey d = eachS (seedRecipe E itemsByKey) (RECIPE_DEFINITIONS E) [] d"

definition seedCompanyRecipes :: "recipe list \<Rightarrow> company \<Rightarrow> unit \<Rightarrow> db \<Rightarrow> unit result \<times> db" where
  "seedCompanyRecipes allRecipes company _ d = transaction
     (createMany crKey companyRecipes companyRecipes_update
       (map (\<lambda>recipe. \<lparr>cr_companyId = co_id company, cr_recipeId = rc_id recipe,
          cr_isUnlocked = isRecipeAutoUnlocked (rc_code recipe)\<rparr>) allRecipes)) d"

definition createResearchNode ::
    "env \<Rightarrow> (string \<times> recipe) list \<Rightarrow> researchDefinition \<Rightarrow> db \<Rightarrow> (researchNode \<times> db) result" where
  "createResearchNode E recipesByKey definition' d =
     andThen (mapE (\<lambda>recipeKey. known (map_of recipesByKey recipeKey)) (ndf_unlockRecipeKeys definition')) (\<lambda>unlocked.
     andThen (createCoded rn_code rn_id researchNodes researchNodes_update
       \<lparr>rn_id = newId E d, rn_code = ndf_code definition', rn_name = ndf_name definition',
        rn_description = ndf_description definition', rn_costCashCents = ndf_costCashCents definition',
        rn_durationTicks = ndf_durationTicks definition'\<rparr> d) (\<lambda>(node, d).
     andThen (createMany (\<lambda>u. (nu_nodeId u, nu_recipeId u)) nodeUnlockRecipes nodeUnlockRecipes_update
       (map (\<lambda>recipe. \<lparr>nu_nodeId = rn_id node, nu_recipeId = rc_id recipe\<rparr>) unlocked) d) (\<lambda>(_, d).
     Inr (node, d))))"

definition seedResearchNode ::
    "env \<Rightarrow> (string \<times> recipe) list \<Rightarrow> researchDefinition \<Rightarrow> (string \<Rightarrow> researchNode option) \<Rightarrow> db \<Rightarrow>
     (string \<Rightarrow> researchNode option) result \<times> db" where
  "seedResearchNode E recipesByKey definition' nodesByKey d =
     andThenS (transaction (createResearchNode E recipesByKey definition') d)
       (\<lambda>node d. (Inr (nodesByKey(ndf_key definition' \<mapsto> node)), d))"

definition prerequisiteRow ::
    "(string \<Rightarrow> researchNode option) \<Rightarrow> string \<times> string \<Rightarrow> researchPrerequisite result" where
  "prerequisiteRow nodesByKey = (\<lambda>(nodeKey, prerequisiteKey).
     andThen (known (nodesByKey nodeKey)) (\<lambda>node.
     andThen (known (nodesByKey prerequisiteKey)) (\<lambda>prerequisite.
     Inr \<lparr>rp_nodeId = rn_id node, rp_prerequisiteNodeId = rn_id prerequisite\<rparr>)))"

definition seedPrerequisites :: "(string \<Rightarrow> researchNode option) \<Rightarrow> db \<Rightarrow> unit result \<times> db" where
  "seedPrerequisites nodesByKey d = transaction (\<lambda>d.
     andThen (mapE (prerequisiteRow nodesByKey) RESEARCH_PREREQUISITES) (\<lambda>rows.
     createMany (\<lambda>p. (rp_nodeId p, rp_prerequisiteNodeId p)) researchPrerequisites
       researchPrerequisites_update rows d)) d"

definition seedBasics ::
    "env \<Rightarrow> company option \<Rightarrow> (string \<Rightarrow> researchNode option) \<Rightarrow> db \<Rightarrow> unit result \<times> db" where
  "seedBasics E playerCompany nodesByKey d =
     (case playerCompany of
       None \<Rightarrow> (Inr (), d)
     | Some c \<Rightarrow>
       andThenS (transaction (\<lambda>d.
         andThen (known (nodesByKey ''basics'')) (\<lambda>node.
         createRow cxKey companyResearches companyResearches_update
           \<lparr>cx_id = newId E d, cx_companyId = co_id c, cx_nodeId = rn_id node, cx_status = NodeCOMPLETED,
            cx_tickStarted = Some 0, cx_tickCompletes = Some 0\<rparr> d)) d) (\<lambda>_ d. (Inr (), d)))"

subsection \<open>Opening orders and the clock\<close>

type_synonym seedOrderRow = "string \<times> string \<times> orderSide \<times> int \<times> int"

definition baseSeedOrders :: "string \<Rightarrow> string \<Rightarrow> string \<Rightarrow> seedOrderRow list" where
  "baseSeedOrders miner smelter trader =
     [(miner, ''ironOre'', SELL, 180, 80), (miner, ''coal'', SELL, 180, 55),
      (miner, ''copperOre'', SELL, 120, 95), (miner, ''water'', SELL, 220, 15),
      (miner, ''fertilizer'', SELL, 160, 35), (miner, ''bioSubstrate'', SELL, 150, 40),
      (smelter, ''ironIngot'', SELL, 90, 205), (smelter, ''copperIngot'', SELL, 70, 245),
      (smelter, ''steelIngot'', SELL, 60, 430), (smelter, ''fasteners'', SELL, 160, 150),
      (smelter, ''syntheticConduit'', SELL, 110, 520),
      (smelter, ''biocellCanister'', SELL, 80, 780), (smelter, ''servoDrive'', SELL, 44, 1450),
      (smelter, ''opticModule'', SELL, 40, 1820), (trader, ''handTools'', SELL, 40, 360),
      (trader, ''neuralInterface'', SELL, 24, 3600), (trader, ''ocularImplant'', SELL, 12, 8200),
      (trader, ''cyberArmature'', SELL, 10, 9400), (trader, ''spinalLink'', SELL, 12, 7600),
      (trader, ''machineParts'', BUY, 40, 1250), (trader, ''toolKit'', BUY, 24, 2100),
      (trader, ''powerUnit'', BUY, 12, 2550), (trader, ''conveyorModule'', BUY, 10, 4250),
      (trader, ''industrialPress'', BUY, 4, 11500), (trader, ''cyberneticSuite'', BUY, 3, 24000)]"

definition marketSeedOrders :: "string \<Rightarrow> string \<Rightarrow> string \<Rightarrow> seedOrderRow list" where
  "marketSeedOrders miner smelter trader =
     baseSeedOrders miner smelter trader @
     map (\<lambda>key. (smelter, key, SELL, 35, resolveIconPrice key)) ICON_TIER_ONE_ITEM_KEYS @
     map (\<lambda>key. (trader, key, SELL, 12, resolveIconPrice key)) ICON_TIER_TWO_ITEM_KEYS @
     map (\<lambda>key. (trader, key, BUY, 3, (resolveIconPrice key * 95) sdiv 100)) ICON_FINAL_PRODUCT_KEYS"

definition seedOrder ::
    "env \<Rightarrow> (string \<Rightarrow> item option) \<Rightarrow> string \<times> string \<times> orderSide \<times> int \<times> int \<Rightarrow> unit \<Rightarrow> db \<Rightarrow>
     unit result \<times> db" where
  "seedOrder E itemsByKey = (\<lambda>(companyId, itemKey, side, qty, price) _ d.
     case known (itemsByKey itemKey) of
       Inl e \<Rightarrow> (Inl e, d)
     | Inr item \<Rightarrow>
       andThenS (placeMarketOrder E
         \<lparr>po_companyId = companyId, po_itemId = it_id item, po_regionId = None, po_side = side,
          po_quantity = IntN qty, po_unitPriceCents = price, po_tick = Some (IntN 0)\<rparr> d)
         (\<lambda>_ d. (Inr (), d)))"

definition seedClock :: "db \<Rightarrow> unit result \<times> db" where
  "seedClock d = (Inr (), d\<lparr>worldTickRow :=
     Some \<lparr>ws_currentTick = 0, ws_lockVersion = 0, ws_lastAdvancedAt = None\<rparr>\<rparr>)"

subsection \<open>The whole seed\<close>

record seedWorldResult =
  sr_companyIds :: "(string \<times> string) list"
  sr_itemIds :: "(string \<times> string) list"

text \<open>The tables that depend on the companies: stock, the factory, recipes, research.\<close>

definition seedTables ::
    "env \<Rightarrow> (string \<Rightarrow> item option) \<Rightarrow> string \<Rightarrow> company option \<Rightarrow> company \<Rightarrow> company \<Rightarrow> company \<Rightarrow> db \<Rightarrow>
     unit result \<times> db" where
  "seedTables E itemsByKey rid playerCompany miner smelter trader d =
     (let stock = (case playerCompany of None \<Rightarrow> [] | Some c \<Rightarrow> playerStock (co_id c)) @
            botStock (co_id miner) (co_id smelter) (co_id trader);
          companies' = (case playerCompany of None \<Rightarrow> [] | Some c \<Rightarrow> [c]) @ [miner, smelter, trader] in
      andThenS (seedInventory itemsByKey rid stock d) (\<lambda>_ d.
      andThenS (seedFactory E playerCompany rid d) (\<lambda>_ d.
      andThenS (seedRecipes E itemsByKey d) (\<lambda>recipesByKey d.
      andThenS (eachS (seedCompanyRecipes (map snd recipesByKey)) companies' () d) (\<lambda>_ d.
      andThenS (eachS (seedResearchNode E recipesByKey) RESEARCH_DEFINITIONS Map.empty d) (\<lambda>nodesByKey d.
      andThenS (seedPrerequisites nodesByKey d) (\<lambda>_ d.
      seedBasics E playerCompany nodesByKey d)))))))"

definition seedFresh :: "env \<Rightarrow> bool \<Rightarrow> db \<Rightarrow> seedWorldResult result \<times> db" where
  "seedFresh E includePlayerCompany d =
     andThenS (seedItems E d) (\<lambda>itemsByKey d.
     andThenS (if includePlayerCompany then andThenS (seedPlayer E d) (\<lambda>p d. (Inr (Some p), d))
               else (Inr None, d)) (\<lambda>player d.
     andThenS (seedRegions d) (\<lambda>coreRegion d.
     andThenS (seedPlayerCompany E player coreRegion d) (\<lambda>playerCompany d.
     andThenS (seedBots E coreRegion d) (\<lambda>(miner, smelter, trader) d.
     andThenS (seedTables E itemsByKey (rg_id coreRegion) playerCompany miner smelter trader d) (\<lambda>_ d.
     andThenS (eachS (seedOrder E itemsByKey) (marketSeedOrders (co_id miner) (co_id smelter) (co_id trader)) () d) (\<lambda>_ d.
     andThenS (seedClock d) (\<lambda>_ d.
     (case mapE (\<lambda>definition'. andThen (known (itemsByKey (idf_key definition'))) (\<lambda>item.
          Inr (idf_key definition', it_id item))) ITEM_DEFINITIONS of
       Inl e \<Rightarrow> (Inl e, d)
     | Inr itemIds \<Rightarrow>
       (Inr \<lparr>sr_companyIds = (case playerCompany of None \<Rightarrow> [] | Some c \<Rightarrow> [(''player'', co_id c)]) @
           [(''botMiner'', co_id miner), (''botSmelter'', co_id smelter), (''botTrader'', co_id trader)],
         sr_itemIds = itemIds\<rparr>, d))))))))))"

definition seedWorld :: "env \<Rightarrow> environ \<Rightarrow> seedWorldOptions \<Rightarrow> db \<Rightarrow> seedWorldResult result \<times> db" where
  "seedWorld E v options d =
     (let includePlayerCompany = shouldIncludeSeededPlayerCompany v options in
      andThenS (if so_reset options then resetSimulationData d else (Inr (), d)) (\<lambda>_ d.
      seedFresh E includePlayerCompany d))"

subsection \<open>Loops of statements\<close>

lemma andThenS_simps [simp]:
  "andThenS (Inl e, d) f = (Inl e, d)" "andThenS (Inr x, d) f = f x d"
  by (simp_all add: andThenS_def)

text \<open>An invariant of the rows that are left and the state carries a loop to its end.\<close>

lemma eachS_invariant:
  assumes "I xs s d"
    and "\<And>x xs s d. I (x # xs) s d \<Longrightarrow> \<exists>s' d'. f x s d = (Inr s', d') \<and> I xs s' d'"
  shows "\<exists>s' d'. eachS f xs s d = (Inr s', d') \<and> I [] s' d'"
  using assms(1)
proof (induction xs arbitrary: s d)
  case (Cons x xs)
  from assms(2) [OF Cons.prems] obtain s' d' where step: "f x s d = (Inr s', d')" "I xs s' d'" by blast
  with Cons.IH [OF step(2)] show ?case by simp
qed simp

lemma mapE_known: "(\<And>x. x \<in> set xs \<Longrightarrow> f x = Inr (g x)) \<Longrightarrow> mapE f xs = Inr (map g xs)"
  by (induction xs) simp_all

lemma transaction_Inr: "body d = Inr (x, d') \<Longrightarrow> transaction body d = (Inr x, d')"
  by (simp add: transaction_def)

lemma createCoded_new:
  assumes "code r \<notin> code ` set (tbl d)" and "key r \<notin> key ` set (tbl d)"
  shows "createCoded code key tbl upd r d = Inr (r, (upd (\<lambda>rs. rs @ [r]) d)\<lparr>db_seq := Suc (db_seq d)\<rparr>)"
  using assms by (simp add: createCoded_def createRow_def rowFind_None [THEN iffD2])

lemma createMany_new:
  assumes "distinct (map key rows)" and "key ` set rows \<inter> key ` set (tbl d) = {}"
  shows "createMany key tbl upd rows d = Inr ((), upd (\<lambda>rs. rs @ rows) d)"
  using assms by (auto simp: createMany_def list_all_iff rowFind_None)

text \<open>Ids given so far; ids of rows to come are new when the generator never repeats itself.\<close>

definition issued :: "env \<Rightarrow> nat \<Rightarrow> string set" where
  "issued E n = env_cuid E ` {..<n}"

lemma issued_new: "inj (env_cuid E) \<Longrightarrow> n \<le> m \<Longrightarrow> env_cuid E m \<notin> issued E n"
  by (auto simp: issued_def dest: injD)

lemma issued_mono: "n \<le> m \<Longrightarrow> issued E n \<subseteq> issued E m"
  by (auto simp: issued_def)

lemma issued_last: "env_cuid E n \<in> issued E (Suc n)"
  by (simp add: issued_def)

subsection \<open>Rows found by the key of their definition\<close>

text \<open>
  The rows created from a list of definitions: \<open>m\<close> finds, for the key of each definition, a row with
  its code; the rows have different ids, all issued before.
\<close>

definition rowsFor ::
    "('r \<Rightarrow> string) \<Rightarrow> ('r \<Rightarrow> string) \<Rightarrow> ('x \<Rightarrow> string) \<Rightarrow> ('x \<Rightarrow> string) \<Rightarrow> env \<Rightarrow> nat \<Rightarrow> 'x list \<Rightarrow>
     (string \<Rightarrow> 'r option) \<Rightarrow> 'r list \<Rightarrow> bool" where
  "rowsFor rid rcode key code E n defs m rows \<longleftrightarrow>
     map rcode rows = map code defs \<and> distinct (map rid rows) \<and> rid ` set rows \<subseteq> issued E n \<and>
     (\<forall>x\<in>set defs. \<exists>r\<in>set rows. m (key x) = Some r \<and> rcode r = code x)"

lemma rowsForD:
  assumes "rowsFor rid rcode key code E n defs m rows"
  shows "map rcode rows = map code defs" "distinct (map rid rows)" "rid ` set rows \<subseteq> issued E n"
    "\<And>x. x \<in> set defs \<Longrightarrow> \<exists>r\<in>set rows. m (key x) = Some r \<and> rcode r = code x"
  using assms unfolding rowsFor_def by blast+

lemma rowsFor_new: "rowsFor rid rcode key code E n defs m rows \<Longrightarrow> inj (env_cuid E) \<Longrightarrow> env_cuid E n \<notin> rid ` set rows"
  using rowsForD(3) issued_new [OF _ order_refl] by blast

lemma rowsFor_step:
  assumes "rowsFor rid rcode key code E k past m rows" and "inj (env_cuid E)" and "key x \<notin> key ` set past"
    and "rid r = env_cuid E k" and "rcode r = code x"
  shows "rowsFor rid rcode key code E (Suc k) (past @ [x]) (m(key x \<mapsto> r)) (rows @ [r])"
proof -
  note old = rowsForD [OF assms(1)]
  have "\<exists>r'\<in>set (rows @ [r]). (m(key x \<mapsto> r)) (key y) = Some r' \<and> rcode r' = code y"
    if "y \<in> set (past @ [x])" for y
  proof (cases "y \<in> set past")
    case True
    then have "key y \<noteq> key x" using assms(3) by (metis imageI)
    then show ?thesis using old(4) [OF True] by simp
  next
    case False
    then show ?thesis using that assms(5) by simp
  qed
  moreover have "rid ` set (rows @ [r]) \<subseteq> issued E (Suc k)"
    using old(3) issued_mono [of k "Suc k" E] issued_last [of E k] assms(4) by simp
  moreover have "distinct (map rid (rows @ [r]))" using old(2) rowsFor_new [OF assms(1,2)] assms(4) by simp
  ultimately show ?thesis unfolding rowsFor_def using old(1) assms(5) by simp
qed

definition idOf :: "('r \<Rightarrow> string) \<Rightarrow> (string \<Rightarrow> 'r option) \<Rightarrow> string \<Rightarrow> string" where
  "idOf rid m k = rid (the (m k))"

lemma rowsFor_known:
  assumes "rowsFor rid rcode key code E n defs m rows" and "k \<in> set (map key defs)"
  shows "\<exists>r\<in>set rows. m k = Some r \<and> known (m k) = Inr r \<and> rid r = idOf rid m k"
proof -
  from assms(2) obtain x where "x \<in> set defs" "k = key x" by auto
  then obtain r where "r \<in> set rows" "m k = Some r" using rowsForD(4) [OF assms(1)] by blast
  then show ?thesis by (auto simp: known_def idOf_def)
qed

lemma rowsFor_inj:
  assumes "rowsFor rid rcode key code E n defs m rows" and "distinct (map code defs)"
  shows "inj_on (idOf rid m) (set (map key defs))"
proof (rule inj_onI)
  fix k l assume k: "k \<in> set (map key defs)" and l: "l \<in> set (map key defs)" and ids: "idOf rid m k = idOf rid m l"
  from k l obtain x y where xy: "x \<in> set defs" "k = key x" "y \<in> set defs" "l = key y" by auto
  note D = rowsForD [OF assms(1)]
  from D(4) [OF xy(1)] xy(2) obtain r where r: "r \<in> set rows" "m k = Some r" "rcode r = code x" by blast
  from D(4) [OF xy(3)] xy(4) obtain s where s: "s \<in> set rows" "m l = Some s" "rcode s = code y" by blast
  have "inj_on rid (set rows)" using D(2) by (simp add: distinct_map)
  moreover have "rid r = rid s" using ids r s by (simp add: idOf_def)
  ultimately have "r = s" using r(1) s(1) by (rule inj_onD)
  then have "code x = code y" using r s by simp
  moreover have "inj_on code (set defs)" using assms(2) by (simp add: distinct_map)
  ultimately have "x = y" using xy by (auto dest: inj_onD)
  with xy show "k = l" by simp
qed

subsection \<open>Items\<close>

abbreviation "itemsFor \<equiv> rowsFor it_id it_code idf_key idf_code"
abbreviation "itemIdOf \<equiv> idOf it_id"
abbreviation "itemKeys \<equiv> set (map idf_key ITEM_DEFINITIONS)"

lemma seedItems_returns:
  assumes "inj (env_cuid E)" and "items d = []"
  shows "\<exists>m its k. seedItems E d = (Inr m, d\<lparr>items := its, db_seq := k\<rparr>) \<and> db_seq d \<le> k \<and>
    itemsFor E k ITEM_DEFINITIONS m its"
proof -
  let ?I = "\<lambda>rest m e. \<exists>past its k. ITEM_DEFINITIONS = past @ rest \<and> e = d\<lparr>items := its, db_seq := k\<rparr> \<and>
    db_seq d \<le> k \<and> itemsFor E k past m its"
  have "?I ITEM_DEFINITIONS Map.empty d"
    by (rule exI [of _ "[]"], rule exI [of _ "[]"], rule exI [of _ "db_seq d"])
      (use assms(2) in \<open>simp add: rowsFor_def\<close>)
  moreover have "\<exists>m' e'. seedItem E x m e = (Inr m', e') \<and> ?I xs m' e'" if "?I (x # xs) m e" for x xs m e
  proof -
    from that obtain past its k where past: "ITEM_DEFINITIONS = past @ x # xs"
      and e: "e = d\<lparr>items := its, db_seq := k\<rparr>" "db_seq d \<le> k" and its: "itemsFor E k past m its" by blast
    let ?r = "\<lparr>it_id = env_cuid E k, it_code = idf_code x, it_name = idf_name x\<rparr>"
    have codes: "idf_code x \<notin> it_code ` set its" and keys: "idf_key x \<notin> idf_key ` set past"
      using item_codes_distinct item_keys_distinct rowsForD(1) [OF its] unfolding past
      by (auto simp flip: set_map simp del: set_map)
    have new: "env_cuid E k \<notin> it_id ` set its" using its assms(1) by (rule rowsFor_new)
    have "seedItem E x m e = (Inr (m(idf_key x \<mapsto> ?r)), d\<lparr>items := its @ [?r], db_seq := Suc k\<rparr>)"
      using codes new by (simp add: seedItem_def e newId_def transaction_def createCoded_new)
    moreover have "itemsFor E (Suc k) (past @ [x]) (m(idf_key x \<mapsto> ?r)) (its @ [?r])"
      by (rule rowsFor_step [OF its assms(1) keys]) simp_all
    moreover have "ITEM_DEFINITIONS = (past @ [x]) @ xs" "db_seq d \<le> Suc k" using past e(2) by simp_all
    ultimately show ?thesis by blast
  qed
  ultimately have "\<exists>m e. eachS (seedItem E) ITEM_DEFINITIONS Map.empty d = (Inr m, e) \<and> ?I [] m e"
    by (rule eachS_invariant)
  then show ?thesis by (auto simp: seedItems_def)
qed

lemmas itemsFor_known = rowsFor_known [where rid = it_id and rcode = it_code and key = idf_key and code = idf_code]
lemmas itemsFor_inj = rowsFor_inj [where rid = it_id and rcode = it_code and key = idf_key and code = idf_code,
    OF _ item_codes_distinct]

subsection \<open>Recipes\<close>

definition recipesFor ::
    "env \<Rightarrow> nat \<Rightarrow> recipeDefinition list \<Rightarrow> (string \<times> recipe) list \<Rightarrow> recipe list \<Rightarrow> recipeInput list \<Rightarrow> bool" where
  "recipesFor E n defs al rcs ris \<longleftrightarrow>
     map fst al = map rdf_key defs \<and> map snd al = rcs \<and> map rc_code rcs = map rdf_code defs \<and>
     distinct (map rc_id rcs) \<and> rc_id ` set rcs \<subseteq> issued E n \<and> (\<forall>r\<in>set rcs. 0 \<le> rc_outputQuantity r) \<and>
     distinct (map (\<lambda>i. (ri_recipeId i, ri_itemId i)) ris) \<and> ri_recipeId ` set ris \<subseteq> rc_id ` set rcs"

lemma recipesForD:
  assumes "recipesFor E n defs al rcs ris"
  shows "map fst al = map rdf_key defs" "map snd al = rcs" "map rc_code rcs = map rdf_code defs"
    "distinct (map rc_id rcs)" "rc_id ` set rcs \<subseteq> issued E n" "\<forall>r\<in>set rcs. 0 \<le> rc_outputQuantity r"
    "distinct (map (\<lambda>i. (ri_recipeId i, ri_itemId i)) ris)" "ri_recipeId ` set ris \<subseteq> rc_id ` set rcs"
  using assms unfolding recipesFor_def by argo+

definition seededInputs :: "(string \<Rightarrow> item option) \<Rightarrow> string \<Rightarrow> recipeDefinition \<Rightarrow> recipeInput list" where
  "seededInputs m rid x = map (\<lambda>(key, q). \<lparr>ri_recipeId = rid, ri_itemId = itemIdOf m key, ri_quantity = q\<rparr>) (rdf_inputs x)"

lemma seeded_inputs:
  assumes "itemsFor E n ITEM_DEFINITIONS m its" and "recipeFits x"
  shows "mapE (recipeInputRow m rid) (rdf_inputs x) = Inr (seededInputs m rid x)"
    and "distinct (map (\<lambda>i. (ri_recipeId i, ri_itemId i)) (seededInputs m rid x))"
    and "ri_recipeId ` set (seededInputs m rid x) \<subseteq> {rid}"
proof -
  have keys: "key \<in> itemKeys" if "(key, q) \<in> set (rdf_inputs x)" for key q
    using assms(2) that unfolding recipeFits_def list_all_iff by blast
  show "mapE (recipeInputRow m rid) (rdf_inputs x) = Inr (seededInputs m rid x)"
    unfolding seededInputs_def
  proof (rule mapE_known)
    fix p assume "p \<in> set (rdf_inputs x)"
    moreover obtain key q where "p = (key, q)" by (cases p)
    ultimately have p: "p = (key, q)" "key \<in> itemKeys" using keys by blast+
    from itemsFor_known [OF assms(1) p(2)] p(1)
    show "recipeInputRow m rid p =
        Inr (case p of (key, q) \<Rightarrow> \<lparr>ri_recipeId = rid, ri_itemId = itemIdOf m key, ri_quantity = q\<rparr>)"
      by (auto simp: recipeInputRow_def)
  qed
  have "set (map fst (rdf_inputs x)) \<subseteq> itemKeys" using keys by force
  then have "inj_on (itemIdOf m) (set (map fst (rdf_inputs x)))"
    by (rule inj_on_subset [OF itemsFor_inj [OF assms(1)]])
  moreover have "distinct (map fst (rdf_inputs x))" using assms(2) unfolding recipeFits_def by blast
  ultimately have "distinct (map (itemIdOf m) (map fst (rdf_inputs x)))"
    unfolding distinct_map [of "itemIdOf m"] by blast
  then have "distinct (map ri_itemId (seededInputs m rid x))"
    by (simp add: seededInputs_def comp_def case_prod_beta)
  then show "distinct (map (\<lambda>i. (ri_recipeId i, ri_itemId i)) (seededInputs m rid x))"
    by (auto simp: distinct_map inj_on_def)
  show "ri_recipeId ` set (seededInputs m rid x) \<subseteq> {rid}" by (auto simp: seededInputs_def)
qed

lemma disjoint_new: "A \<subseteq> B \<Longrightarrow> C \<subseteq> {x} \<Longrightarrow> x \<notin> B \<Longrightarrow> A \<inter> C = {}"
  by blast

lemma pair_images_disjoint:
  "f ` A \<inter> f ` B = {} \<Longrightarrow> (\<lambda>x. (f x, g x)) ` A \<inter> (\<lambda>x. (f x, g x)) ` B = {}"
  by auto

lemma recipesFor_step:
  assumes "recipesFor E k past al rcs ris" and "inj (env_cuid E)" and "rdf_key x \<notin> rdf_key ` set past"
    and "rc_id r = env_cuid E k" and "rc_code r = rdf_code x" and "0 \<le> rc_outputQuantity r"
    and "distinct (map (\<lambda>i. (ri_recipeId i, ri_itemId i)) inputs)" and "ri_recipeId ` set inputs \<subseteq> {rc_id r}"
  shows "recipesFor E (Suc k) (past @ [x]) (AList.update (rdf_key x) r al) (rcs @ [r]) (ris @ inputs)"
proof -
  note old = recipesForD [OF assms(1)]
  have new: "rc_id r \<notin> rc_id ` set rcs"
    using old(5) issued_new [OF assms(2) order_refl, of k] unfolding assms(4) by blast
  have "rdf_key x \<notin> fst ` set al" using old(1) assms(3) by (metis list.set_map)
  then have al: "AList.update (rdf_key x) r al = al @ [(rdf_key x, r)]" by (rule update_new)
  have "ri_recipeId ` set ris \<inter> ri_recipeId ` set inputs = {}" by (rule disjoint_new [OF old(8) assms(8) new])
  then have "set (map (\<lambda>i. (ri_recipeId i, ri_itemId i)) ris) \<inter> set (map (\<lambda>i. (ri_recipeId i, ri_itemId i)) inputs) = {}"
    unfolding set_map by (rule pair_images_disjoint)
  then have "distinct (map (\<lambda>i. (ri_recipeId i, ri_itemId i)) (ris @ inputs))"
    using old(7) assms(7) unfolding map_append distinct_append by blast
  moreover have "rc_id ` set (rcs @ [r]) \<subseteq> issued E (Suc k)"
    using old(5) assms(4) issued_mono [of k "Suc k" E] issued_last [of E k] by simp
  moreover have "ri_recipeId ` set (ris @ inputs) \<subseteq> rc_id ` set (rcs @ [r])"
    using old(8) assms(8) by (simp add: image_Un) blast
  ultimately show ?thesis using old(1-4,6) assms(5,6) new unfolding recipesFor_def al by simp
qed

lemma seedRecipes_returns:
  assumes "inj (env_cuid E)" and "itemsFor E n ITEM_DEFINITIONS m its" and "recipes d = []" and "recipeInputs d = []"
  shows "\<exists>al rcs ris k. seedRecipes E m d = (Inr al, d\<lparr>recipes := rcs, recipeInputs := ris, db_seq := k\<rparr>) \<and>
    db_seq d \<le> k \<and> recipesFor E k (RECIPE_DEFINITIONS E) al rcs ris"
proof -
  let ?I = "\<lambda>rest al e. \<exists>past rcs ris k. RECIPE_DEFINITIONS E = past @ rest \<and>
    e = d\<lparr>recipes := rcs, recipeInputs := ris, db_seq := k\<rparr> \<and> db_seq d \<le> k \<and> recipesFor E k past al rcs ris"
  have "recipesFor E (db_seq d) [] [] [] []" by (simp add: recipesFor_def)
  moreover have "d = d\<lparr>recipes := [], recipeInputs := [], db_seq := db_seq d\<rparr>" using assms(3,4) by simp
  ultimately have "?I (RECIPE_DEFINITIONS E) [] d" by (metis append_Nil order_refl)
  moreover have "\<exists>al' e'. seedRecipe E m x al e = (Inr al', e') \<and> ?I xs al' e'" if "?I (x # xs) al e" for x xs al e
  proof -
    from that obtain past rcs ris k where past: "RECIPE_DEFINITIONS E = past @ x # xs"
      and e: "e = d\<lparr>recipes := rcs, recipeInputs := ris, db_seq := k\<rparr>" "db_seq d \<le> k"
      and I: "recipesFor E k past al rcs ris" by blast
    have fits: "recipeFits x" using catalogue_fits_recipes [of E] unfolding past by simp
    then have "rdf_outputItemKey x \<in> itemKeys" by (simp add: recipeFits_def)
    from itemsFor_known [OF assms(2) this] obtain out where out: "known (m (rdf_outputItemKey x)) = Inr out" by blast
    note inputs = seeded_inputs [OF assms(2) fits, of "env_cuid E k"]
    let ?r = "\<lparr>rc_id = env_cuid E k, rc_code = rdf_code x, rc_name = rdf_name x, rc_durationTicks = rdf_durationTicks x,
      rc_outputItemId = it_id out, rc_outputQuantity = rdf_outputQuantity x\<rparr>"
    have codes: "rdf_code x \<notin> rc_code ` set rcs" and keys: "rdf_key x \<notin> rdf_key ` set past"
      using recipe_codes_distinct [of E] recipe_keys_distinct [of E] recipesForD(3) [OF I] unfolding past
      by (auto simp flip: set_map simp del: set_map)
    have new: "env_cuid E k \<notin> rc_id ` set rcs"
      using recipesForD(5) [OF I] issued_new [OF assms(1) order_refl, of k] by blast
    then have "ri_recipeId ` set (seededInputs m (env_cuid E k) x) \<inter> ri_recipeId ` set ris = {}"
      using disjoint_new [OF recipesForD(8) [OF I] inputs(3)] by (simp add: Int_commute)
    then have "(\<lambda>i. (ri_recipeId i, ri_itemId i)) ` set (seededInputs m (env_cuid E k) x) \<inter>
        (\<lambda>i. (ri_recipeId i, ri_itemId i)) ` set ris = {}"
      by (rule pair_images_disjoint)
    with codes new have "seedRecipe E m x al e = (Inr (AList.update (rdf_key x) ?r al),
        d\<lparr>recipes := rcs @ [?r], recipeInputs := ris @ seededInputs m (env_cuid E k) x, db_seq := Suc k\<rparr>)"
      using inputs(1,2)
      by (simp add: seedRecipe_def createRecipe_def e newId_def transaction_def out createCoded_new createMany_new)
    moreover have "recipesFor E (Suc k) (past @ [x]) (AList.update (rdf_key x) ?r al) (rcs @ [?r])
        (ris @ seededInputs m (env_cuid E k) x)"
      by (rule recipesFor_step [OF I assms(1) keys]) (use fits inputs in \<open>simp_all add: recipeFits_def\<close>)
    moreover have "RECIPE_DEFINITIONS E = (past @ [x]) @ xs" "db_seq d \<le> Suc k" using past e(2) by simp_all
    ultimately show ?thesis by blast
  qed
  ultimately have "\<exists>al e. eachS (seedRecipe E m) (RECIPE_DEFINITIONS E) [] d = (Inr al, e) \<and> ?I [] al e"
    by (rule eachS_invariant)
  then show ?thesis by (auto simp: seedRecipes_def)
qed

subsection \<open>Recipe links and research\<close>

lemma seedCompanyRecipes_returns:
  assumes "distinct (map rc_id rcs)" and "distinct (map co_id cs)" and "companyRecipes d = []"
  shows "\<exists>crs. eachS (seedCompanyRecipes rcs) cs () d = (Inr (), d\<lparr>companyRecipes := crs\<rparr>)"
proof -
  let ?I = "\<lambda>(rest :: company list) (u :: unit) e. \<exists>crs. e = d\<lparr>companyRecipes := crs\<rparr> \<and> distinct (map co_id rest) \<and>
    cr_companyId ` set crs \<inter> co_id ` set rest = {}"
  have "d = d\<lparr>companyRecipes := []\<rparr>" using assms(3) by simp
  then have start: "?I cs () d" using assms(2) by (metis Int_empty_left image_empty list.set(1))
  have step: "\<exists>u' e'. seedCompanyRecipes rcs c u e = (Inr u', e') \<and> ?I xs u' e'" if "?I (c # xs) u e" for c xs u e
  proof -
    from that obtain crs where e: "e = d\<lparr>companyRecipes := crs\<rparr>" and xs: "distinct (map co_id xs)" "co_id c \<notin> co_id ` set xs"
      and apart: "co_id c \<notin> cr_companyId ` set crs" "cr_companyId ` set crs \<inter> co_id ` set xs = {}" by auto
    define new where "new = map (\<lambda>recipe. \<lparr>cr_companyId = co_id c, cr_recipeId = rc_id recipe,
          cr_isUnlocked = isRecipeAutoUnlocked (rc_code recipe)\<rparr>) rcs"
    have "distinct (map crKey new)"
      using assms(1) by (auto simp: new_def crKey_def comp_def distinct_map inj_on_def)
    moreover have "crKey ` set new \<inter> crKey ` set crs = {}" using apart(1) by (auto simp: new_def crKey_def)
    ultimately have "seedCompanyRecipes rcs c u e = (Inr (), d\<lparr>companyRecipes := crs @ new\<rparr>)"
      by (simp add: seedCompanyRecipes_def e transaction_def createMany_new flip: new_def)
    moreover have "cr_companyId ` set (crs @ new) \<inter> co_id ` set xs = {}"
      using apart(2) xs(2) by (auto simp: new_def)
    ultimately show ?thesis using xs(1) by blast
  qed
  have "\<exists>u e. eachS (seedCompanyRecipes rcs) cs () d = (Inr u, e) \<and> ?I [] u e"
  proof (rule eachS_invariant [where I = ?I])
    show "?I cs () d" by (rule start)
  qed (rule step)
  then show ?thesis by auto
qed

lemma recipe_ids_inj:
  assumes "recipesFor E n (RECIPE_DEFINITIONS E) al rcs ris"
  shows "inj_on (\<lambda>k. rc_id (the (map_of al k))) (set (map fst al))"
    and "\<And>k. k \<in> set (map rdf_key BASE_RECIPE_DEFINITIONS) \<Longrightarrow> \<exists>r. map_of al k = Some r"
    and "set (map rdf_key BASE_RECIPE_DEFINITIONS) \<subseteq> set (map fst al)"
proof -
  note D = recipesForD [OF assms]
  have keys: "distinct (map fst al)" unfolding D(1) by (rule recipe_keys_distinct)
  have "map (rc_id \<circ> snd) al = map rc_id rcs" using D(2) by auto
  then have ids: "distinct (map (rc_id \<circ> snd) al)" using D(4) by simp
  show "inj_on (\<lambda>k. rc_id (the (map_of al k))) (set (map fst al))"
  proof (rule inj_onI)
    fix k l assume "k \<in> set (map fst al)" "l \<in> set (map fst al)" and eq: "rc_id (the (map_of al k)) = rc_id (the (map_of al l))"
    then obtain r s where kr: "(k, r) \<in> set al" "(l, s) \<in> set al" by auto
    then have "map_of al k = Some r" "map_of al l = Some s" using keys by simp_all
    with eq have "(rc_id \<circ> snd) (k, r) = (rc_id \<circ> snd) (l, s)" by simp
    then have "(k, r) = (l, s)" using ids kr by (metis distinct_map inj_onD)
    then show "k = l" by simp
  qed
  show sub: "set (map rdf_key BASE_RECIPE_DEFINITIONS) \<subseteq> set (map fst al)"
    unfolding D(1) RECIPE_DEFINITIONS_def by simp
  show "\<And>k. k \<in> set (map rdf_key BASE_RECIPE_DEFINITIONS) \<Longrightarrow> \<exists>r. map_of al k = Some r"
    using sub by (metis in_mono list.set_map map_of_eq_None_iff not_None_eq)
qed

abbreviation "nodesFor \<equiv> rowsFor rn_id rn_code ndf_key ndf_code"

lemma research_table_facts:
  "distinct (map ndf_key RESEARCH_DEFINITIONS)" "distinct (map ndf_code RESEARCH_DEFINITIONS)"
  "list_all (\<lambda>x. distinct (ndf_unlockRecipeKeys x) \<and>
     list_all (\<lambda>k. k \<in> set (map rdf_key BASE_RECIPE_DEFINITIONS)) (ndf_unlockRecipeKeys x)) RESEARCH_DEFINITIONS"
  "distinct RESEARCH_PREREQUISITES"
  "list_all (\<lambda>(n, p). n \<in> set (map ndf_key RESEARCH_DEFINITIONS) \<and> p \<in> set (map ndf_key RESEARCH_DEFINITIONS))
     RESEARCH_PREREQUISITES"
  "''basics'' \<in> set (map ndf_key RESEARCH_DEFINITIONS)"
  by (code_simp, code_simp, code_simp, code_simp, code_simp, code_simp)

lemma seedResearchNodes_return:
  assumes "inj (env_cuid E)" and "recipesFor E n (RECIPE_DEFINITIONS E) al rcs ris"
    and "researchNodes d = []" and "nodeUnlockRecipes d = []"
  shows "\<exists>m nds nus k. eachS (seedResearchNode E al) RESEARCH_DEFINITIONS Map.empty d =
      (Inr m, d\<lparr>researchNodes := nds, nodeUnlockRecipes := nus, db_seq := k\<rparr>) \<and>
    db_seq d \<le> k \<and> nodesFor E k RESEARCH_DEFINITIONS m nds"
proof -
  let ?I = "\<lambda>rest m e. \<exists>past nds nus k. RESEARCH_DEFINITIONS = past @ rest \<and>
    e = d\<lparr>researchNodes := nds, nodeUnlockRecipes := nus, db_seq := k\<rparr> \<and> db_seq d \<le> k \<and>
    nodesFor E k past m nds \<and> nu_nodeId ` set nus \<subseteq> rn_id ` set nds"
  have "nodesFor E (db_seq d) [] Map.empty []" by (simp add: rowsFor_def)
  moreover have "d = d\<lparr>researchNodes := [], nodeUnlockRecipes := [], db_seq := db_seq d\<rparr>" using assms(3,4) by simp
  moreover have "nu_nodeId ` set [] \<subseteq> rn_id ` set []" by simp
  ultimately have "?I RESEARCH_DEFINITIONS Map.empty d" by (metis append_Nil order_refl)
  moreover have "\<exists>m' e'. seedResearchNode E al x m e = (Inr m', e') \<and> ?I xs m' e'" if "?I (x # xs) m e" for x xs m e
  proof -
    from that obtain past nds nus k where past: "RESEARCH_DEFINITIONS = past @ x # xs"
      and e: "e = d\<lparr>researchNodes := nds, nodeUnlockRecipes := nus, db_seq := k\<rparr>" "db_seq d \<le> k"
      and I: "nodesFor E k past m nds" and nus: "nu_nodeId ` set nus \<subseteq> rn_id ` set nds" by blast
    let ?r = "\<lparr>rn_id = env_cuid E k, rn_code = ndf_code x, rn_name = ndf_name x, rn_description = ndf_description x,
      rn_costCashCents = ndf_costCashCents x, rn_durationTicks = ndf_durationTicks x\<rparr>"
    let ?keys = "ndf_unlockRecipeKeys x"
    have keys: "distinct ?keys" "set ?keys \<subseteq> set (map rdf_key BASE_RECIPE_DEFINITIONS)"
      using research_table_facts(3) unfolding past by (auto simp: list_all_iff)
    have unlocked: "mapE (\<lambda>k. known (map_of al k)) ?keys = Inr (map (\<lambda>k. the (map_of al k)) ?keys)"
    proof (rule mapE_known)
      fix key assume "key \<in> set ?keys"
      then have "key \<in> set (map rdf_key BASE_RECIPE_DEFINITIONS)" using keys(2) by blast
      from recipe_ids_inj(2) [OF assms(2) this] show "known (map_of al key) = Inr (the (map_of al key))"
        by (auto simp: known_def)
    qed
    define new where "new = map (\<lambda>recipe. \<lparr>nu_nodeId = env_cuid E k, nu_recipeId = rc_id recipe\<rparr>)
      (map (\<lambda>k. the (map_of al k)) ?keys)"
    have "inj_on (\<lambda>k. rc_id (the (map_of al k))) (set ?keys)"
      by (rule inj_on_subset [OF recipe_ids_inj(1) [OF assms(2)]]) (use keys(2) recipe_ids_inj(3) [OF assms(2)] in blast)
    then have "distinct (map (\<lambda>u. (nu_nodeId u, nu_recipeId u)) new)"
      using keys(1) by (auto simp: new_def comp_def distinct_map inj_on_def)
    moreover have id: "env_cuid E k \<notin> rn_id ` set nds" using I assms(1) by (rule rowsFor_new)
    have "nu_nodeId ` set new \<subseteq> {env_cuid E k}" by (auto simp: new_def)
    from disjoint_new [OF nus this id]
    have "(\<lambda>u. (nu_nodeId u, nu_recipeId u)) ` set new \<inter> (\<lambda>u. (nu_nodeId u, nu_recipeId u)) ` set nus = {}"
      by (intro pair_images_disjoint) (simp add: Int_commute)
    moreover have codes: "ndf_code x \<notin> rn_code ` set nds" and fresh: "ndf_key x \<notin> ndf_key ` set past"
      using research_table_facts(1,2) rowsForD(1) [OF I] unfolding past
      by (auto simp flip: set_map simp del: set_map)
    ultimately have "seedResearchNode E al x m e = (Inr (m(ndf_key x \<mapsto> ?r)),
        d\<lparr>researchNodes := nds @ [?r], nodeUnlockRecipes := nus @ new, db_seq := Suc k\<rparr>)"
      using id by (simp add: seedResearchNode_def createResearchNode_def e newId_def transaction_def unlocked
          createCoded_new createMany_new comp_def new_def)
    moreover have "nodesFor E (Suc k) (past @ [x]) (m(ndf_key x \<mapsto> ?r)) (nds @ [?r])"
      by (rule rowsFor_step [OF I assms(1) fresh]) simp_all
    moreover have "nu_nodeId ` set (nus @ new) \<subseteq> rn_id ` set (nds @ [?r])"
      using nus \<open>nu_nodeId ` set new \<subseteq> {env_cuid E k}\<close> by auto
    moreover have "RESEARCH_DEFINITIONS = (past @ [x]) @ xs" "db_seq d \<le> Suc k" using past e(2) by simp_all
    ultimately show ?thesis by blast
  qed
  ultimately have "\<exists>m e. eachS (seedResearchNode E al) RESEARCH_DEFINITIONS Map.empty d = (Inr m, e) \<and> ?I [] m e"
    by (rule eachS_invariant)
  then show ?thesis by auto
qed

lemma seedPrerequisites_returns:
  assumes "nodesFor E k RESEARCH_DEFINITIONS m nds" and "researchPrerequisites d = []"
  shows "\<exists>ps. seedPrerequisites m d = (Inr (), d\<lparr>researchPrerequisites := ps\<rparr>)"
proof -
  let ?row = "\<lambda>x. \<lparr>rp_nodeId = idOf rn_id m (fst x), rp_prerequisiteNodeId = idOf rn_id m (snd x)\<rparr>"
  let ?keys = "set (map ndf_key RESEARCH_DEFINITIONS)"
  have keys: "fst x \<in> ?keys" "snd x \<in> ?keys" if "x \<in> set RESEARCH_PREREQUISITES" for x
  proof -
    have "case x of (n, p) \<Rightarrow> n \<in> ?keys \<and> p \<in> ?keys"
      using research_table_facts(5) that unfolding list_all_iff by blast
    then show "fst x \<in> ?keys" "snd x \<in> ?keys" by (simp_all add: case_prod_beta)
  qed
  have "prerequisiteRow m x = Inr (?row x)" if "x \<in> set RESEARCH_PREREQUISITES" for x
  proof -
    obtain n p where x: "x = (n, p)" by (cases x)
    from rowsFor_known [OF assms(1) keys(1) [OF that]] rowsFor_known [OF assms(1) keys(2) [OF that]] x
    show ?thesis by (auto simp: prerequisiteRow_def)
  qed
  then have rows: "mapE (prerequisiteRow m) RESEARCH_PREREQUISITES = Inr (map ?row RESEARCH_PREREQUISITES)"
    by (rule mapE_known)
  note inj = rowsFor_inj [OF assms(1) research_table_facts(2)]
  have "inj_on (\<lambda>x. (idOf rn_id m (fst x), idOf rn_id m (snd x))) (set RESEARCH_PREREQUISITES)"
  proof (rule inj_onI)
    fix x y assume x: "x \<in> set RESEARCH_PREREQUISITES" and y: "y \<in> set RESEARCH_PREREQUISITES"
      and "(idOf rn_id m (fst x), idOf rn_id m (snd x)) = (idOf rn_id m (fst y), idOf rn_id m (snd y))"
    then have "fst x = fst y" "snd x = snd y" using inj_onD [OF inj] keys [OF x] keys [OF y] by simp_all
    then show "x = y" by (rule prod_eqI)
  qed
  then have "distinct (map (\<lambda>x. (rp_nodeId x, rp_prerequisiteNodeId x)) (map ?row RESEARCH_PREREQUISITES))"
    using research_table_facts(4) by (simp add: distinct_map comp_def)
  with assms(2) have "seedPrerequisites m d =
      (Inr (), d\<lparr>researchPrerequisites := map ?row RESEARCH_PREREQUISITES\<rparr>)"
    by (simp add: seedPrerequisites_def transaction_def rows createMany_new)
  then show ?thesis by blast
qed

lemma seedBasics_returns:
  assumes "nodesFor E k RESEARCH_DEFINITIONS m nds" and "companyResearches d = []"
  shows "\<exists>cxs n. seedBasics E c m d = (Inr (), d\<lparr>companyResearches := cxs, db_seq := n\<rparr>) \<and> db_seq d \<le> n"
proof (cases c)
  case None
  then have "seedBasics E c m d = (Inr (), d\<lparr>companyResearches := [], db_seq := db_seq d\<rparr>)"
    using assms(2) by (simp add: seedBasics_def)
  then show ?thesis by (intro exI conjI, assumption, simp)
next
  case (Some co)
  from rowsFor_known [OF assms(1) research_table_facts(6)] obtain node where "known (m ''basics'') = Inr node" by blast
  with Some assms(2) have "seedBasics E c m d = (Inr (), d\<lparr>companyResearches := [\<lparr>cx_id = newId E d,
      cx_companyId = co_id co, cx_nodeId = rn_id node, cx_status = NodeCOMPLETED, cx_tickStarted = Some 0,
      cx_tickCompletes = Some 0\<rparr>], db_seq := Suc (db_seq d)\<rparr>)"
    by (simp add: seedBasics_def transaction_def createRow_def)
  moreover have "db_seq d \<le> Suc (db_seq d)" by simp
  ultimately show ?thesis by (intro exI conjI)
qed

subsection \<open>Opening orders that companies can cover are placed\<close>

definition buyTotal :: "string \<Rightarrow> seedOrderRow list \<Rightarrow> int" where
  "buyTotal cid rows = (\<Sum>(c, k, side, q, p)\<leftarrow>rows. if c = cid \<and> side = BUY then q * p else 0)"

definition sellPairs :: "seedOrderRow list \<Rightarrow> (string \<times> string) list" where
  "sellPairs rows = map (\<lambda>(c, k, _). (c, k)) (filter (\<lambda>(c, k, side, _). side = SELL) rows)"

text \<open>
  The orders of a list are covered: positive quantities and prices, known items, bots of the
  region, stock for every sale, each sold once by a company, and free cash for all purchases.
\<close>

definition rowCovered :: "(string \<Rightarrow> item option) \<Rightarrow> string \<Rightarrow> db \<Rightarrow> seedOrderRow \<Rightarrow> bool" where
  "rowCovered m rid d = (\<lambda>(c, k, side, q, p).
     0 < q \<and> 0 < p \<and> k \<in> itemKeys \<and> c \<noteq> [] \<and>
     (\<exists>co. findCompany c d = Some co \<and> \<not> co_isPlayer co \<and> co_regionId co = rid) \<and>
     (side = SELL \<longrightarrow> (\<exists>r. findInventory c (itemIdOf m k) rid d = Some r \<and>
        q \<le> inv_quantity r - inv_reservedQuantity r)))"

definition covered :: "(string \<Rightarrow> item option) \<Rightarrow> string \<Rightarrow> seedOrderRow list \<Rightarrow> db \<Rightarrow> bool" where
  "covered m rid rows d \<longleftrightarrow>
     list_all (rowCovered m rid d) rows \<and> distinct (sellPairs rows) \<and>
     (\<forall>co\<in>set (companies d). buyTotal (co_id co) rows \<le> co_cashCents co - co_reservedCashCents co)"

text \<open>What placing orders leaves alone.\<close>

definition companyFace :: "company \<Rightarrow> string \<times> bool \<times> string \<times> int \<times> workforceCompanyState" where
  "companyFace c = (co_id c, co_isPlayer c, co_regionId c, co_cashCents c, workforceState c)"

definition seedOrderInput :: "(string \<Rightarrow> item option) \<Rightarrow> seedOrderRow \<Rightarrow> placeMarketOrderInput" where
  "seedOrderInput m = (\<lambda>(c, k, side, q, p).
     \<lparr>po_companyId = c, po_itemId = itemIdOf m k, po_regionId = None, po_side = side,
      po_quantity = IntN q, po_unitPriceCents = p, po_tick = Some (IntN 0)\<rparr>)"

lemma findCompany_face:
  assumes "map companyFace (companies d') = map companyFace (companies d)"
    and "findCompany c d = Some co"
  shows "\<exists>co'. findCompany c d' = Some co' \<and> companyFace co' = companyFace co"
  using assms
proof (induction "companies d'" "companies d" arbitrary: d d' rule: list_induct2')
  case (4 x xs y ys)
  from 4(2,3,4) have eq: "companyFace x = companyFace y" "map companyFace xs = map companyFace ys"
    by (metis list.simps(9) list.inject)+
  then have id: "co_id x = co_id y" by (simp add: companyFace_def)
  show ?case
  proof (cases "co_id y = c")
    case True
    with 4(2,3,5) eq(1) id show ?thesis by (metis option.inject rowFind_simps(2))
  next
    case False
    have "\<exists>co'. findCompany c (d'\<lparr>companies := xs\<rparr>) = Some co' \<and> companyFace co' = companyFace co"
      using 4(1) [of "d'\<lparr>companies := xs\<rparr>" "d\<lparr>companies := ys\<rparr>"] 4(2,3,5) eq(2) False id by (simp flip: 4(3))
    with False id show ?thesis by (simp flip: 4(2))
  qed
qed auto

text \<open>One sale, one purchase.\<close>

lemma place_sale:
  assumes "findCompany c d = Some co" "\<not> co_isPlayer co" "c \<noteq> []" "iid \<noteq> []" "0 < q" "0 < p"
    and "findItem iid d = Some it" and "findInventory c iid (co_regionId co) d = Some r" and "inventoryOk r"
    and "q \<le> inv_quantity r - inv_reservedQuantity r" and "newId E d \<notin> ord_id ` set (marketOrders d)"
  shows "\<exists>x. placeMarketOrder E \<lparr>po_companyId = c, po_itemId = iid, po_regionId = None, po_side = SELL,
      po_quantity = IntN q, po_unitPriceCents = p, po_tick = Some (IntN 0)\<rparr> d =
    (Inr x, d\<lparr>inventories := rowSet invKey (c, iid, co_regionId co)
        (\<lambda>r'. r'\<lparr>inv_reservedQuantity := inv_reservedQuantity r + q\<rparr>) (inventories d),
      marketOrders := marketOrders d @ [x], db_seq := Suc (db_seq d)\<rparr>) \<and> ord_id x = newId E d"
proof -
  have k: "invKey r = (c, iid, co_regionId co)" using assms(8) by (rule rowFind_key)
  have ok: "reservationOk (inv_quantity r) (inv_reservedQuantity r)" using assms(9) by (simp add: inventoryOk_def)
  have none: "rowFind ord_id (newId E d) (marketOrders d) = None" using assms(11) by (simp add: rowFind_None)
  have reserve: "reserveInventoryForSellOrder
      \<lparr>quantity = IntN (inv_quantity r), reservedQuantity = IntN (inv_reservedQuantity r)\<rparr> (IntN q) =
      Inr \<lparr>quantity = IntN (inv_quantity r), reservedQuantity = IntN (inv_reservedQuantity r + q)\<rparr>"
    using assms(5,10) ok by (simp add: reserveInventory_iff)
  show ?thesis
    using assms(1-8) none k
    by (cases d) (simp add: placeMarketOrder_def validateOrderInput_def badTick_def transaction_def placeMarketOrderWithTx_def
        checkItemAccess_def placeSellOrder_def reserve updateRow_def createRow_def newOrder_def newId_def Let_def)
qed

lemma place_purchase:
  assumes "findCompany c d = Some co" "\<not> co_isPlayer co" "c \<noteq> []" "iid \<noteq> []" "0 < q" "0 < p"
    and "findItem iid d = Some it" and "companyOk co" and "q * p \<le> co_cashCents co - co_reservedCashCents co"
    and "newId E d \<notin> ord_id ` set (marketOrders d)"
    and "env_cuid E (Suc (db_seq d)) \<notin> le_id ` set (ledgerEntries d)"
  shows "\<exists>x le. placeMarketOrder E \<lparr>po_companyId = c, po_itemId = iid, po_regionId = None, po_side = BUY,
      po_quantity = IntN q, po_unitPriceCents = p, po_tick = Some (IntN 0)\<rparr> d =
    (Inr x, d\<lparr>companies := rowSet co_id c
        (\<lambda>c'. c'\<lparr>co_reservedCashCents := co_reservedCashCents co + q * p\<rparr>) (companies d),
      marketOrders := marketOrders d @ [x], ledgerEntries := ledgerEntries d @ [le],
      db_seq := Suc (Suc (db_seq d))\<rparr>) \<and> ord_id x = newId E d \<and> le_id le = env_cuid E (Suc (db_seq d))"
proof -
  have k: "co_id co = c" using assms(1) by (rule rowFind_key)
  have ok: "reservationOk (co_cashCents co) (co_reservedCashCents co)" using assms(8) by (simp add: companyOk_def)
  have none: "rowFind ord_id (newId E d) (marketOrders d) = None"
    "rowFind le_id (env_cuid E (Suc (db_seq d))) (ledgerEntries d) = None" using assms(10,11) by (simp_all add: rowFind_None)
  have reserve: "reserveCashForBuyOrder
      \<lparr>cashCents = co_cashCents co, reservedCashCents = co_reservedCashCents co\<rparr> (IntN q) p =
      Inr \<lparr>cashCents = co_cashCents co, reservedCashCents = co_reservedCashCents co + q * p\<rparr>"
    using assms(5,6,9) ok by (simp add: reserveCash_iff)
  show ?thesis
    using assms(1-7) none k
    by (cases d) (simp add: placeMarketOrder_def validateOrderInput_def badTick_def transaction_def placeMarketOrderWithTx_def
        checkItemAccess_def placeBuyOrder_def reserve updateRow_def createRow_def createLedgerEntry_def newOrder_def
        newId_def currentTime_def Let_def)
qed

lemma marketOk_placed:
  assumes "placeMarketOrder E i d = (Inr x, d')" and "marketOk d"
  shows "marketOk d'"
  using assms marketOk_place [of E i d]
  by (auto simp: placeMarketOrder_def transaction_def split: sum.splits)

lemma covered_sale:
  assumes "covered m rid ((c, k, SELL, q, p) # rows) d" and "inj_on (itemIdOf m) itemKeys"
    and "findInventory c (itemIdOf m k) rid d = Some r"
    and "inventories d' = rowSet invKey (c, itemIdOf m k, rid) f (inventories d)" and "companies d' = companies d"
    and "\<And>r. invKey (f r) = invKey r"
  shows "covered m rid rows d'"
proof -
  from assms(1) have rows: "list_all (rowCovered m rid d) rows" "(c, k) \<notin> set (sellPairs rows)" "distinct (sellPairs rows)"
    and k: "k \<in> itemKeys" by (auto simp: covered_def sellPairs_def rowCovered_def)
  have "rowCovered m rid d' x" if x: "x \<in> set rows" for x
  proof -
    obtain c' k' side q' p' where eq: "x = (c', k', side, q', p')" by (cases x)
    have old: "rowCovered m rid d x" using rows(1) x by (simp add: list_all_iff)
    have "(c', itemIdOf m k', rid) \<noteq> (c, itemIdOf m k, rid)" if "side = SELL"
    proof
      assume "(c', itemIdOf m k', rid) = (c, itemIdOf m k, rid)"
      moreover have "k' \<in> itemKeys" using old by (simp add: eq rowCovered_def)
      ultimately have "(c', k') = (c, k)" using inj_onD [OF assms(2), of k' k] k by simp
      moreover have "(c', k') \<in> set (sellPairs rows)" using x that by (force simp: eq sellPairs_def)
      ultimately show False using rows(2) by simp
    qed
    with old show ?thesis by (auto simp: eq rowCovered_def assms(4,5) rowFind_rowSet assms(6))
  qed
  moreover have "buyTotal cid ((c, k, SELL, q, p) # rows) = buyTotal cid rows" for cid by (simp add: buyTotal_def)
  ultimately show ?thesis using assms(1,5) rows(3) by (simp add: covered_def list_all_iff)
qed

lemma covered_purchase:
  assumes "covered m rid ((c, k, BUY, q, p) # rows) d" and "distinct (map co_id (companies d))"
    and "findCompany c d = Some co" and "companies d' = rowSet co_id c f (companies d)"
    and "inventories d' = inventories d" and "\<And>co. companyFace (f co) = companyFace co"
    and "\<And>co. co_reservedCashCents (f co) = res + q * p" and "co_reservedCashCents co = res"
  shows "covered m rid rows d'"
proof -
  from assms(1) have rows: "list_all (rowCovered m rid d) rows" "distinct (sellPairs rows)"
    by (auto simp: covered_def sellPairs_def)
  have face: "map companyFace (companies d') = map companyFace (companies d)"
    unfolding assms(4) by (rule map_rowSet_same) (rule assms(6))
  have id: "co_id (f co) = co_id co" "co_cashCents (f co) = co_cashCents co" for co
    using assms(6) [of co] by (simp_all add: companyFace_def)
  have "rowCovered m rid d' x" if x: "x \<in> set rows" for x
  proof -
    obtain c' k' side q' p' where eq: "x = (c', k', side, q', p')" by (cases x)
    have "rowCovered m rid d x" using rows(1) x by (simp add: list_all_iff)
    then show ?thesis using findCompany_face [OF face]
      by (fastforce simp: eq rowCovered_def assms(5) companyFace_def)
  qed
  moreover have "buyTotal (co_id x) rows \<le> co_cashCents x - co_reservedCashCents x" if x: "x \<in> set (companies d')" for x
  proof -
    from x obtain y where y: "y \<in> set (companies d)" "x = (if co_id y = c then f y else y)"
      by (auto simp: assms(4) rowSet_def)
    have old: "buyTotal (co_id y) ((c, k, BUY, q, p) # rows) \<le> co_cashCents y - co_reservedCashCents y"
      using assms(1) y(1) by (simp add: covered_def)
    show ?thesis
    proof (cases "co_id y = c")
      case True
      then have "y = co" using rowFind_unique [OF assms(2) y(1)] assms(3) by simp
      with True old y(2) show ?thesis by (simp add: buyTotal_def id assms(7,8))
    qed (use old y(2) in \<open>simp add: buyTotal_def\<close>)
  qed
  ultimately show ?thesis using rows(2) by (simp add: covered_def list_all_iff)
qed

text \<open>The loop over the orders: it always returns, and only reserves.\<close>

definition ordersPlaced :: "env \<Rightarrow> db \<Rightarrow> seedOrderRow list \<Rightarrow> (string \<Rightarrow> item option) \<Rightarrow> string \<Rightarrow> db \<Rightarrow> bool" where
  "ordersPlaced E d rest m rid e \<longleftrightarrow>
     e = d\<lparr>companies := companies e, inventories := inventories e, marketOrders := marketOrders e,
       ledgerEntries := ledgerEntries e, db_seq := db_seq e\<rparr> \<and>
     marketOk e \<and> covered m rid rest e \<and> map companyFace (companies e) = map companyFace (companies d) \<and>
     ord_id ` set (marketOrders e) \<subseteq> issued E (db_seq e) \<and> le_id ` set (ledgerEntries e) \<subseteq> issued E (db_seq e)"

lemma ordersPlacedD:
  assumes "ordersPlaced E d rest m rid e"
  shows "e = d\<lparr>companies := companies e, inventories := inventories e, marketOrders := marketOrders e,
       ledgerEntries := ledgerEntries e, db_seq := db_seq e\<rparr>" "marketOk e" "covered m rid rest e"
    "map companyFace (companies e) = map companyFace (companies d)"
    "ord_id ` set (marketOrders e) \<subseteq> issued E (db_seq e)" "le_id ` set (ledgerEntries e) \<subseteq> issued E (db_seq e)"
    "items e = items d"
proof -
  show *: "e = d\<lparr>companies := companies e, inventories := inventories e, marketOrders := marketOrders e,
       ledgerEntries := ledgerEntries e, db_seq := db_seq e\<rparr>" "marketOk e" "covered m rid rest e"
    "map companyFace (companies e) = map companyFace (companies d)"
    "ord_id ` set (marketOrders e) \<subseteq> issued E (db_seq e)" "le_id ` set (ledgerEntries e) \<subseteq> issued E (db_seq e)"
    using assms unfolding ordersPlaced_def by blast+
  show "items e = items d" by (subst *(1)) simp
qed

lemma issued_Suc: "A \<subseteq> issued E n \<Longrightarrow> insert (env_cuid E n) A \<subseteq> issued E (Suc n)"
  using issued_mono [of n "Suc n" E] issued_last [of E n] by auto

lemma place_step:
  assumes "inj (env_cuid E)" and "\<forall>n. env_cuid E n \<noteq> []" and "itemsFor E n ITEM_DEFINITIONS m (items d)"
    and "ordersPlaced E d (x # rest) m rid e"
  shows "\<exists>o' e'. placeMarketOrder E (seedOrderInput m x) e = (Inr o', e') \<and> ordersPlaced E d rest m rid e' \<and>
    length (marketOrders e') = Suc (length (marketOrders e))"
proof -
  note I = ordersPlacedD [OF assms(4)]
  obtain c k side q p where x: "x = (c, k, side, q, p)" by (cases x)
  from I(3) have row: "0 < q" "0 < p" "k \<in> itemKeys" "c \<noteq> []"
    "\<exists>co. findCompany c e = Some co \<and> \<not> co_isPlayer co \<and> co_regionId co = rid"
    "side = SELL \<longrightarrow> (\<exists>r. findInventory c (itemIdOf m k) rid e = Some r \<and> q \<le> inv_quantity r - inv_reservedQuantity r)"
    by (auto simp: x covered_def rowCovered_def)
  then obtain co where co: "findCompany c e = Some co" "\<not> co_isPlayer co" "co_regionId co = rid" by blast
  from itemsFor_known [OF assms(3) row(3)] obtain it where it: "it \<in> set (items d)" "it_id it = itemIdOf m k" by blast
  then have find: "findItem (itemIdOf m k) e = Some it"
    using rowFind_unique [OF rowsForD(2) [OF assms(3)] it(1)] I(7) by simp
  have nonempty: "itemIdOf m k \<noteq> []"
    using rowsForD(3) [OF assms(3)] it assms(2) unfolding issued_def by (metis (no_types, lifting) imageE image_subset_iff)
  have freshOrder: "newId E e \<notin> ord_id ` set (marketOrders e)"
    using I(5) issued_new [OF assms(1) order_refl] unfolding newId_def by blast
  show ?thesis
  proof (cases side)
    case SELL
    then obtain r where r: "findInventory c (itemIdOf m k) rid e = Some r" "q \<le> inv_quantity r - inv_reservedQuantity r"
      using row(6) by blast
    then have ok: "inventoryOk r" using rowsOk_find [OF economyOk_inventories [OF marketOkD(1) [OF I(2)]]] by blast
    let ?f = "\<lambda>r'. r'\<lparr>inv_reservedQuantity := inv_reservedQuantity r + q\<rparr>"
    from place_sale [OF co(1,2) row(4) nonempty row(1,2) find r(1) [folded co(3)] ok r(2) freshOrder]
    obtain y where y: "placeMarketOrder E (seedOrderInput m x) e =
        (Inr y, e\<lparr>inventories := rowSet invKey (c, itemIdOf m k, rid) ?f (inventories e),
          marketOrders := marketOrders e @ [y], db_seq := Suc (db_seq e)\<rparr>)" "ord_id y = newId E e"
      by (auto simp: seedOrderInput_def x SELL co(3))
    let ?e = "e\<lparr>inventories := rowSet invKey (c, itemIdOf m k, rid) ?f (inventories e),
          marketOrders := marketOrders e @ [y], db_seq := Suc (db_seq e)\<rparr>"
    have "covered m rid rest ?e"
      by (rule covered_sale [OF I(3) [unfolded x SELL] itemsFor_inj [OF assms(3)] r(1), where f = ?f])
        (simp_all add: invKey_def)
    moreover have "marketOk ?e" by (rule marketOk_placed [OF y(1) I(2)])
    moreover have "le_id ` set (ledgerEntries ?e) \<subseteq> issued E (db_seq ?e)" using issued_Suc [OF I(6)] by simp
    moreover have "ord_id ` set (marketOrders ?e) \<subseteq> issued E (db_seq ?e)"
      using issued_Suc [OF I(5)] y(2) by (simp add: newId_def)
    moreover have "?e = d\<lparr>companies := companies ?e, inventories := inventories ?e, marketOrders := marketOrders ?e,
       ledgerEntries := ledgerEntries ?e, db_seq := db_seq ?e\<rparr>" by (subst (1) I(1)) simp
    ultimately have "ordersPlaced E d rest m rid ?e" unfolding ordersPlaced_def using I(4) by simp
    moreover have "length (marketOrders ?e) = Suc (length (marketOrders e))" by simp
    ultimately show ?thesis using y(1) by blast
  next
    case BUY
    have ok: "companyOk co" using rowsOk_find [OF economyOk_companies [OF marketOkD(1) [OF I(2)]] co(1)] .
    have "0 \<le> buyTotal c rest"
    proof -
      have "\<forall>(c', k', s', q', p')\<in>set rest. 0 < q' \<and> 0 < p'"
        using I(3) by (auto simp: covered_def list_all_iff rowCovered_def)
      then show ?thesis unfolding buyTotal_def by (intro sum_list_nonneg) auto
    qed
    moreover have "buyTotal (co_id co) (x # rest) \<le> co_cashCents co - co_reservedCashCents co"
      using I(3) rowFind_in [OF co(1)] unfolding covered_def by blast
    ultimately have afford: "q * p \<le> co_cashCents co - co_reservedCashCents co"
      using rowFind_key [OF co(1)] by (simp add: x BUY buyTotal_def)
    have freshEntry: "env_cuid E (Suc (db_seq e)) \<notin> le_id ` set (ledgerEntries e)"
      using I(6) issued_new [OF assms(1), of "db_seq e" "Suc (db_seq e)"] by (meson le_SucI order_refl subsetD)
    let ?f = "\<lambda>c'. c'\<lparr>co_reservedCashCents := co_reservedCashCents co + q * p\<rparr>"
    from place_purchase [OF co(1,2) row(4) nonempty row(1,2) find ok afford freshOrder freshEntry]
    obtain y le where y: "placeMarketOrder E (seedOrderInput m x) e =
        (Inr y, e\<lparr>companies := rowSet co_id c ?f (companies e), marketOrders := marketOrders e @ [y],
          ledgerEntries := ledgerEntries e @ [le], db_seq := Suc (Suc (db_seq e))\<rparr>)"
      "ord_id y = newId E e" "le_id le = env_cuid E (Suc (db_seq e))"
      by (auto simp: seedOrderInput_def x BUY)
    let ?e = "e\<lparr>companies := rowSet co_id c ?f (companies e), marketOrders := marketOrders e @ [y],
          ledgerEntries := ledgerEntries e @ [le], db_seq := Suc (Suc (db_seq e))\<rparr>"
    have face: "companyFace (?f c') = companyFace c'" for c' by (simp add: companyFace_def workforceState_def)
    have "distinct (map co_id (companies e))" by (rule rowsOk_distinct [OF economyOk_companies [OF marketOkD(1) [OF I(2)]]])
    from covered_purchase [OF I(3) [unfolded x BUY] this co(1), of ?e ?f "co_reservedCashCents co"]
    have "covered m rid rest ?e" using face by simp
    moreover have "marketOk ?e" by (rule marketOk_placed [OF y(1) I(2)])
    moreover have "map companyFace (companies ?e) = map companyFace (companies d)"
      using map_rowSet_same [of companyFace ?f co_id c "companies e", OF face] I(4) by simp
    moreover have "le_id ` set (ledgerEntries ?e) \<subseteq> issued E (db_seq ?e)"
      using issued_Suc [OF order_trans [OF I(6) issued_mono [of "db_seq e" "Suc (db_seq e)"]]] y(3) by simp
    moreover have "ord_id ` set (marketOrders ?e) \<subseteq> issued E (db_seq ?e)"
      using order_trans [OF issued_Suc [OF I(5)] issued_mono [of "Suc (db_seq e)" "Suc (Suc (db_seq e))"]] y(2)
      by (simp add: newId_def)
    moreover have "?e = d\<lparr>companies := companies ?e, inventories := inventories ?e, marketOrders := marketOrders ?e,
       ledgerEntries := ledgerEntries ?e, db_seq := db_seq ?e\<rparr>" by (subst (1) I(1)) simp
    ultimately have "ordersPlaced E d rest m rid ?e" unfolding ordersPlaced_def by blast
    moreover have "length (marketOrders ?e) = Suc (length (marketOrders e))" by simp
    ultimately show ?thesis using y(1) by blast
  qed
qed

lemma seedOrders_return:
  assumes "inj (env_cuid E)" and "\<forall>n. env_cuid E n \<noteq> []" and "itemsFor E n ITEM_DEFINITIONS m (items d)"
    and "ordersPlaced E d rows m rid d"
  shows "\<exists>e. eachS (seedOrder E m) rows () d = (Inr (), e) \<and> ordersPlaced E d [] m rid e \<and>
    length (marketOrders e) = length (marketOrders d) + length rows"
proof -
  let ?I = "\<lambda>rest (u :: unit) e. ordersPlaced E d rest m rid e \<and>
    length (marketOrders e) + length rest = length (marketOrders d) + length rows"
  have step: "\<exists>u' e'. seedOrder E m x u e = (Inr u', e') \<and> ?I rest u' e'"
    if I: "?I (x # rest) u e" for x rest u e
  proof -
    obtain c k side q p where x: "x = (c, k, side, q, p)" by (cases x)
    from I have placed: "ordersPlaced E d (x # rest) m rid e" by blast
    have "k \<in> itemKeys" using ordersPlacedD(3) [OF placed] by (simp add: x covered_def rowCovered_def)
    from itemsFor_known [OF assms(3) this] obtain it where it: "known (m k) = Inr it" "it_id it = itemIdOf m k" by blast
    from place_step [OF assms(1-3) placed] obtain y e' where y: "placeMarketOrder E (seedOrderInput m x) e = (Inr y, e')"
      "ordersPlaced E d rest m rid e'" "length (marketOrders e') = Suc (length (marketOrders e))" by blast
    from y(1) it have "seedOrder E m x u e = (Inr (), e')" by (simp add: seedOrder_def seedOrderInput_def x)
    moreover have "?I rest () e'" using y(2,3) I by simp
    ultimately show ?thesis by blast
  qed
  have "?I rows () d" using assms(4) by simp
  then have "\<exists>u e. eachS (seedOrder E m) rows () d = (Inr u, e) \<and> ?I [] u e"
    using step by (rule eachS_invariant)
  then show ?thesis by simp
qed

subsection \<open>The stock and the orders of the seed\<close>

lemma icon_key_lists:
  "k \<in> set ICON_TIER_ONE_ITEM_KEYS \<Longrightarrow> \<exists>p i. inPack p i \<and> resolveTier i (packCount p) = 1 \<and> k = packKey p i"
  "k \<in> set ICON_TIER_TWO_ITEM_KEYS \<Longrightarrow> \<exists>p i. inPack p i \<and> resolveTier i (packCount p) = 2 \<and> k = packKey p i"
  "k \<in> set ICON_FINAL_PRODUCT_KEYS \<Longrightarrow> \<exists>p i. inPack p i \<and> resolveTier i (packCount p) = 4 \<and> k = packKey p i"
  "distinct ICON_TIER_ONE_ITEM_KEYS" "distinct ICON_TIER_TWO_ITEM_KEYS" "distinct ICON_FINAL_PRODUCT_KEYS"
proof -
  have tiers: "\<exists>p i. inPack p i \<and> resolveTier i (packCount p) = t \<and> k = packKey p i"
    if "k \<in> set (map idf_key (filter (\<lambda>item. idf_tier item = Some t) ICON_ITEM_DEFINITIONS))" for t
  proof -
    from that obtain x where x: "x \<in> set ICON_ITEM_DEFINITIONS" "idf_tier x = Some t" "k = idf_key x" by auto
    with icon_items [THEN iffD1, OF x(1)] obtain p i where "inPack p i" "x = packItem p i" by blast
    with x show ?thesis by auto
  qed
  show "k \<in> set ICON_TIER_ONE_ITEM_KEYS \<Longrightarrow> \<exists>p i. inPack p i \<and> resolveTier i (packCount p) = 1 \<and> k = packKey p i"
    "k \<in> set ICON_TIER_TWO_ITEM_KEYS \<Longrightarrow> \<exists>p i. inPack p i \<and> resolveTier i (packCount p) = 2 \<and> k = packKey p i"
    unfolding ICON_TIER_ONE_ITEM_KEYS_def ICON_TIER_TWO_ITEM_KEYS_def by (rule tiers, assumption)+
  have "distinct (map idf_key ICON_ITEM_DEFINITIONS)" using item_keys_distinct by (simp add: ITEM_DEFINITIONS_def)
  then show "distinct ICON_TIER_ONE_ITEM_KEYS" "distinct ICON_TIER_TWO_ITEM_KEYS"
    unfolding ICON_TIER_ONE_ITEM_KEYS_def ICON_TIER_TWO_ITEM_KEYS_def by (rule distinct_map_filter)+
  have final: "inPack p (packCount p) \<and> resolveTier (packCount p) (packCount p) = 4" if "p \<in> set ICON_PACK_DEFINITIONS" for p
    using pack_span [OF that] tier_by_place [OF that, of "packCount p"] that by auto
  show "k \<in> set ICON_FINAL_PRODUCT_KEYS \<Longrightarrow> \<exists>p i. inPack p i \<and> resolveTier i (packCount p) = 4 \<and> k = packKey p i"
  proof -
    assume "k \<in> set ICON_FINAL_PRODUCT_KEYS"
    then obtain p where "p \<in> set ICON_PACK_DEFINITIONS" "k = packKey p (packCount p)"
      unfolding ICON_FINAL_PRODUCT_KEYS_def packKey_def by auto
    then show ?thesis using final by blast
  qed
  have "inj_on (\<lambda>p. packKey p (packCount p)) (set ICON_PACK_DEFINITIONS)"
    using packKey_inj final by (intro inj_onI) blast
  moreover have "distinct ICON_PACK_DEFINITIONS" using pack_tables_distinct(1) by (simp add: distinct_map)
  ultimately show "distinct ICON_FINAL_PRODUCT_KEYS"
    unfolding ICON_FINAL_PRODUCT_KEYS_def by (simp add: distinct_map packKey_def)
qed

lemma icon_lists_apart:
  "set ICON_TIER_TWO_ITEM_KEYS \<inter> set ICON_FINAL_PRODUCT_KEYS = {}"
proof (rule ccontr)
  assume "\<not> ?thesis"
  then obtain k where "k \<in> set ICON_TIER_TWO_ITEM_KEYS" "k \<in> set ICON_FINAL_PRODUCT_KEYS" by blast
  then obtain p i q j where "inPack p i" "resolveTier i (packCount p) = 2" "k = packKey p i"
    "inPack q j" "resolveTier j (packCount q) = 4" "k = packKey q j"
    using icon_key_lists(2,3) by blast
  then show False using packKey_inj [of p i q j] by auto
qed

lemma icon_price:
  assumes "inPack p i"
  shows "resolveIconPrice (packKey p i) = resolvePriceForPackIndex p i"
proof -
  have "packItem p i \<in> set (rev ICON_ITEM_DEFINITIONS)" unfolding set_rev icon_items using assms by blast
  moreover have "distinct (map idf_key (rev ICON_ITEM_DEFINITIONS))"
    using item_keys_distinct by (simp add: ITEM_DEFINITIONS_def rev_map [symmetric])
  ultimately have "ICON_ITEM_BY_KEY (packKey p i) = Some (packItem p i)"
    unfolding ICON_ITEM_BY_KEY_def using rowFind_unique by fastforce
  then show ?thesis by (simp add: resolveIconPrice_def orDefault_def)
qed

lemma icon_list_keys:
  assumes "k \<in> set ICON_TIER_ONE_ITEM_KEYS \<or> k \<in> set ICON_TIER_TWO_ITEM_KEYS \<or> k \<in> set ICON_FINAL_PRODUCT_KEYS"
  shows "k \<in> itemKeys" "k \<notin> set (map idf_key BASE_ITEM_DEFINITIONS)" "380 \<le> resolveIconPrice k"
proof -
  from assms obtain p i where pi: "inPack p i" "k = packKey p i" using icon_key_lists(1-3) by blast
  show "k \<in> itemKeys" unfolding pi(2) by (rule pack_key_in_items [OF pi(1)])
  show "k \<notin> set (map idf_key BASE_ITEM_DEFINITIONS)" using base_key_not_icon pi(2) by blast
  have "resolveIconPrice k = resolvePriceForPackIndex p i" unfolding pi(2) by (rule icon_price [OF pi(1)])
  moreover have "380 \<le> resolvePriceForPackIndex p i"
  proof -
    have "0 \<le> resolveTier i (packCount p) - 1" by (simp add: resolveTier_def Let_def)
    then have "0 \<le> (2 * packBasePriceCents p * 55 * (resolveTier i (packCount p) - 1) + 100) div 200"
      using pack_facts(4) [of p] pi(1) by (intro pos_imp_zdiv_nonneg_iff [THEN iffD2]) (auto intro!: add_nonneg_nonneg mult_nonneg_nonneg)
    then show ?thesis using pack_facts(4) [of p] pi(1) by (simp add: resolvePriceForPackIndex_def Let_def)
  qed
  ultimately show "380 \<le> resolveIconPrice k" by simp
qed

lemma final_purchases_affordable:
  "(\<Sum>k\<leftarrow>ICON_FINAL_PRODUCT_KEYS. 3 * ((resolveIconPrice k * 95) sdiv 100)) \<le> 2208500"
proof -
  have price: "resolveIconPrice (packKey p (packCount p)) = resolvePriceForPackIndex p (packCount p)"
    if "p \<in> set ICON_PACK_DEFINITIONS" for p
    by (rule icon_price) (use that packCount_pos in simp)
  have "(\<Sum>k\<leftarrow>ICON_FINAL_PRODUCT_KEYS. 3 * ((resolveIconPrice k * 95) sdiv 100)) =
      (\<Sum>p\<leftarrow>ICON_PACK_DEFINITIONS. 3 * ((resolvePriceForPackIndex p (packCount p) * 95) sdiv 100))"
    unfolding ICON_FINAL_PRODUCT_KEYS_def by (simp add: comp_def price [unfolded packKey_def] cong: map_cong)
  also have "\<dots> \<le> 2208500" by code_simp
  finally show ?thesis .
qed

text \<open>What the stock is made of: known items, no pair of company and item twice.\<close>

definition stockPairs :: "(string \<times> string \<times> int) list \<Rightarrow> (string \<times> string) list" where
  "stockPairs rows = map (\<lambda>(c, k, q). (c, k)) rows"

lemma stockPairs_simps [simp]:
  "stockPairs [] = []" "stockPairs ((c, k, q) # rows) = (c, k) # stockPairs rows"
  "stockPairs (xs @ ys) = stockPairs xs @ stockPairs ys"
  "stockPairs (map (\<lambda>k. (c, k, q)) ks) = map (Pair c) ks"
  by (simp_all add: stockPairs_def comp_def)

lemma base_stock_facts:
  "list_all (\<lambda>(c, k, q). k \<in> set (map idf_key BASE_ITEM_DEFINITIONS) \<and> 0 \<le> q) (playerStock cid)"
  "list_all (\<lambda>(c, k, q). k \<in> set (map idf_key BASE_ITEM_DEFINITIONS) \<and> 0 \<le> q) (baseBotStock a b t)"
  by (code_simp, code_simp)

lemma base_stock_pairs:
  assumes "a \<noteq> b" "a \<noteq> t" "b \<noteq> t"
  shows "distinct (stockPairs (baseBotStock a b t))"
    and "cid \<notin> {a, b, t} \<Longrightarrow> distinct (stockPairs (playerStock cid @ baseBotStock a b t))"
  using assms by (simp_all add: baseBotStock_def playerStock_def)

lemma bot_stock:
  assumes "a \<noteq> b" "a \<noteq> t" "b \<noteq> t" and "ps = [] \<or> ps = playerStock cid \<and> cid \<notin> {a, b, t}"
  shows "distinct (stockPairs (ps @ botStock a b t))"
    and "\<And>c k q. (c, k, q) \<in> set (ps @ botStock a b t) \<Longrightarrow> k \<in> itemKeys \<and> 0 \<le> q"
proof -
  have base: "list_all (\<lambda>(c, k, q). k \<in> set (map idf_key BASE_ITEM_DEFINITIONS) \<and> 0 \<le> q) (ps @ baseBotStock a b t)"
    using assms(4) base_stock_facts by auto
  have pairs: "distinct (stockPairs (ps @ baseBotStock a b t))"
    using assms(4) base_stock_pairs [OF assms(1-3)] by auto
  have apart: "(c, k) \<notin> set (stockPairs (ps @ baseBotStock a b t))"
    if "k \<in> set ICON_TIER_ONE_ITEM_KEYS \<or> k \<in> set ICON_TIER_TWO_ITEM_KEYS \<or> k \<in> set ICON_FINAL_PRODUCT_KEYS" for c k
    using icon_list_keys(2) [OF that] base unfolding stockPairs_def list_all_iff by fastforce
  have "distinct (stockPairs (ps @ baseBotStock a b t) @ map (Pair b) ICON_TIER_ONE_ITEM_KEYS @
      map (Pair t) ICON_TIER_TWO_ITEM_KEYS @ map (Pair t) ICON_FINAL_PRODUCT_KEYS)"
    using pairs apart icon_key_lists(4-6) icon_lists_apart assms(3)
    by (auto simp: distinct_map inj_on_def simp del: stockPairs_simps(3))
  then show "distinct (stockPairs (ps @ botStock a b t))" by (simp add: botStock_def)
  show "k \<in> itemKeys \<and> 0 \<le> q" if row: "(c, k, q) \<in> set (ps @ botStock a b t)" for c k q
  proof (cases "(c, k, q) \<in> set (ps @ baseBotStock a b t)")
    case True
    with base have "case (c, k, q) of (c, k, q) \<Rightarrow> k \<in> set (map idf_key BASE_ITEM_DEFINITIONS) \<and> 0 \<le> q"
      unfolding list_all_iff by blast
    then show ?thesis using base_key_in_items by simp
  next
    case False
    then have "k \<in> set ICON_TIER_ONE_ITEM_KEYS \<or> k \<in> set ICON_TIER_TWO_ITEM_KEYS \<or> k \<in> set ICON_FINAL_PRODUCT_KEYS" "0 \<le> q"
      using row by (auto simp: botStock_def)
    then show ?thesis using icon_list_keys(1) by blast
  qed
qed

definition stockRow :: "(string \<Rightarrow> item option) \<Rightarrow> string \<Rightarrow> string \<times> string \<times> int \<Rightarrow> inventory" where
  "stockRow m rid = (\<lambda>(c, k, q). \<lparr>inv_companyId = c, inv_itemId = itemIdOf m k, inv_regionId = rid,
     inv_quantity = q, inv_reservedQuantity = 0\<rparr>)"

lemma stock_keys_distinct:
  assumes "itemsFor E n ITEM_DEFINITIONS m its" and "distinct (stockPairs rows)"
    and "\<And>c k q. (c, k, q) \<in> set rows \<Longrightarrow> k \<in> itemKeys \<and> 0 \<le> q"
  shows "distinct (map invKey (map (stockRow m rid) rows))"
proof -
  have eq: "map invKey (map (stockRow m rid) rows) = map (\<lambda>(c, k). (c, itemIdOf m k, rid)) (stockPairs rows)"
    by (auto simp: stockPairs_def stockRow_def invKey_def)
  have "inj_on (\<lambda>(c, k). (c, itemIdOf m k, rid)) (set (stockPairs rows))"
  proof (rule inj_onI)
    fix x y assume x: "x \<in> set (stockPairs rows)" and y: "y \<in> set (stockPairs rows)"
      and eq: "(case x of (c, k) \<Rightarrow> (c, itemIdOf m k, rid)) = (case y of (c, k) \<Rightarrow> (c, itemIdOf m k, rid))"
    obtain c k c' k' where xy: "x = (c, k)" "y = (c', k')" by (cases x, cases y)
    have "k \<in> itemKeys" "k' \<in> itemKeys" using x y assms(3) unfolding xy stockPairs_def by auto
    with eq xy show "x = y" using inj_onD [OF itemsFor_inj [OF assms(1)]] by simp
  qed
  with assms(2) show ?thesis unfolding eq by (simp add: distinct_map)
qed

lemma seedInventory_returns:
  assumes "itemsFor E n ITEM_DEFINITIONS m its" and "distinct (stockPairs rows)" and "inventories d = []"
    and "\<And>c k q. (c, k, q) \<in> set rows \<Longrightarrow> k \<in> itemKeys \<and> 0 \<le> q"
  shows "seedInventory m rid rows d = (Inr (), d\<lparr>inventories := map (stockRow m rid) rows\<rparr>)"
proof -
  have "inventoryRow m rid x = Inr (stockRow m rid x)" if "x \<in> set rows" for x
  proof -
    obtain c k q where x: "x = (c, k, q)" by (cases x)
    with that assms(4) have "k \<in> itemKeys" by blast
    from itemsFor_known [OF assms(1) this] show ?thesis by (auto simp: inventoryRow_def stockRow_def x)
  qed
  then have "mapE (inventoryRow m rid) rows = Inr (map (stockRow m rid) rows)" by (rule mapE_known)
  then show ?thesis
    using stock_keys_distinct [OF assms(1,2,4)] assms(3)
    by (simp add: seedInventory_def transaction_def createMany_new)
qed

lemma stock_found:
  assumes "itemsFor E n ITEM_DEFINITIONS m its" and "distinct (stockPairs rows)"
    and "\<And>c k q. (c, k, q) \<in> set rows \<Longrightarrow> k \<in> itemKeys \<and> 0 \<le> q"
    and "inventories d = map (stockRow m rid) rows" and "(c, k, q) \<in> set rows"
  shows "\<exists>r. findInventory c (itemIdOf m k) rid d = Some r \<and> inv_quantity r = q \<and> inv_reservedQuantity r = 0"
proof -
  have "stockRow m rid (c, k, q) \<in> set (map (stockRow m rid) rows)" using assms(5) by (auto intro: rev_image_eqI)
  from rowFind_unique [OF stock_keys_distinct [OF assms(1-3)] this] show ?thesis
    by (simp add: assms(4) stockRow_def invKey_def)
qed

text \<open>The seed's orders are covered by its stock and cash.\<close>

definition rowBacked :: "string \<Rightarrow> string \<Rightarrow> string \<Rightarrow> (string \<times> string \<times> int) list \<Rightarrow> seedOrderRow \<Rightarrow> bool" where
  "rowBacked a b t stock = (\<lambda>(c, k, side, q, p).
     0 < q \<and> 0 < p \<and> (c = a \<or> c = b \<or> c = t) \<and>
     (side = SELL \<longrightarrow> list_ex (\<lambda>(c', k', s). c' = c \<and> k' = k \<and> q \<le> s) stock))"

lemma base_orders:
  "list_all (rowBacked a b t (baseBotStock a b t)) (baseSeedOrders a b t)"
  "list_all (\<lambda>(c, k, side, q, p). k \<in> set (map idf_key BASE_ITEM_DEFINITIONS)) (baseSeedOrders a b t)"
  by (simp add: baseSeedOrders_def baseBotStock_def rowBacked_def, code_simp)

lemma base_order_pairs: "a \<noteq> b \<Longrightarrow> a \<noteq> t \<Longrightarrow> b \<noteq> t \<Longrightarrow> distinct (sellPairs (baseSeedOrders a b t))"
  by (simp add: baseSeedOrders_def sellPairs_def)

lemma base_order_total:
  "a \<noteq> t \<Longrightarrow> b \<noteq> t \<Longrightarrow> buyTotal cid (baseSeedOrders a b t) = (if cid = t then 291500 else 0)"
  by (auto simp: baseSeedOrders_def buyTotal_def)

lemma marketSeedOrders_cases:
  assumes "x \<in> set (marketSeedOrders a b t)"
  obtains "x \<in> set (baseSeedOrders a b t)"
  | k where "k \<in> set ICON_TIER_ONE_ITEM_KEYS" "x = (b, k, SELL, 35, resolveIconPrice k)"
  | k where "k \<in> set ICON_TIER_TWO_ITEM_KEYS" "x = (t, k, SELL, 12, resolveIconPrice k)"
  | k where "k \<in> set ICON_FINAL_PRODUCT_KEYS" "x = (t, k, BUY, 3, (resolveIconPrice k * 95) sdiv 100)"
  using assms by (auto simp: marketSeedOrders_def)

lemma rowBacked_sale:
  "(c, k, s) \<in> set stock \<Longrightarrow> q \<le> s \<Longrightarrow> 0 < q \<Longrightarrow> 0 < p \<Longrightarrow> c = a \<or> c = b \<or> c = t \<Longrightarrow>
     rowBacked a b t stock (c, k, SELL, q, p)"
  by (auto simp: rowBacked_def list_ex_iff)

lemma rowBacked_more: "rowBacked a b t stock x \<Longrightarrow> rowBacked a b t (stock @ rest) x"
  by (auto simp: rowBacked_def)

lemma seed_order_row:
  assumes "x \<in> set (marketSeedOrders a b t)"
  shows "rowBacked a b t (botStock a b t) x \<and> fst (snd x) \<in> itemKeys"
  using assms
proof (cases rule: marketSeedOrders_cases)
  case 1
  with base_orders(1) have "rowBacked a b t (botStock a b t) x"
    unfolding list_all_iff botStock_def by (blast intro: rowBacked_more)
  moreover from base_orders(2) [unfolded list_all_iff] 1
  have "case x of (c, k, side, q, p) \<Rightarrow> k \<in> set (map idf_key BASE_ITEM_DEFINITIONS)" by (rule bspec)
  then have "fst (snd x) \<in> set (map idf_key BASE_ITEM_DEFINITIONS)" by (simp only: case_prod_beta)
  ultimately show ?thesis using base_key_in_items by blast
next
  case (2 k)
  moreover have "(b, k, 80) \<in> set (botStock a b t)" using 2 by (simp add: botStock_def)
  moreover have "380 \<le> resolveIconPrice k" "k \<in> itemKeys" using 2 icon_list_keys by blast+
  ultimately show ?thesis by (auto intro: rowBacked_sale)
next
  case (3 k)
  moreover have "(t, k, 20) \<in> set (botStock a b t)" using 3 by (simp add: botStock_def)
  moreover have "380 \<le> resolveIconPrice k" "k \<in> itemKeys" using 3 icon_list_keys by blast+
  ultimately show ?thesis by (auto intro: rowBacked_sale)
next
  case (4 k)
  then have k: "380 \<le> resolveIconPrice k" "k \<in> itemKeys" using icon_list_keys by blast+
  then have "0 < (resolveIconPrice k * 95) sdiv 100" by (simp add: sdiv_nonneg)
  with 4 k show ?thesis by (simp add: rowBacked_def)
qed

lemma sellPairs_simps:
  "sellPairs (xs @ ys) = sellPairs xs @ sellPairs ys"
  "sellPairs (map (\<lambda>k. (c, k, SELL, q, f k)) ks) = map (Pair c) ks"
  "sellPairs (map (\<lambda>k. (c, k, BUY, q, f k)) ks) = []"
  by (simp_all add: sellPairs_def comp_def filter_map)

lemma buyTotal_simps:
  "buyTotal cid (xs @ ys) = buyTotal cid xs + buyTotal cid ys"
  "buyTotal cid (map (\<lambda>k. (c, k, SELL, q, f k)) ks) = 0"
  "buyTotal cid (map (\<lambda>k. (c, k, BUY, q, f k)) ks) = (if c = cid then (\<Sum>k\<leftarrow>ks. q * f k) else 0)"
  by (simp_all add: buyTotal_def comp_def)

lemma seed_sales_distinct:
  assumes "a \<noteq> b" "a \<noteq> t" "b \<noteq> t"
  shows "distinct (sellPairs (marketSeedOrders a b t))"
proof -
  have base: "k \<in> set (map idf_key BASE_ITEM_DEFINITIONS)" if "(c, k) \<in> set (sellPairs (baseSeedOrders a b t))" for c k
    using base_orders(2) [of a b t] that unfolding sellPairs_def list_all_iff by fastforce
  have "(c, k) \<notin> set (sellPairs (baseSeedOrders a b t))"
    if "k \<in> set ICON_TIER_ONE_ITEM_KEYS \<or> k \<in> set ICON_TIER_TWO_ITEM_KEYS" for c k
    using icon_list_keys(2) [of k] that base by blast
  then show ?thesis
    using base_order_pairs [OF assms] icon_key_lists(4,5) assms(3)
    by (auto simp: marketSeedOrders_def sellPairs_simps distinct_map inj_on_def)
qed

lemma seed_purchases:
  assumes "a \<noteq> t" "b \<noteq> t"
  shows "buyTotal cid (marketSeedOrders a b t) \<le> (if cid = t then 2500000 else 0)"
  using base_order_total [OF assms] final_purchases_affordable
  by (auto simp: marketSeedOrders_def buyTotal_simps)

text \<open>The companies of a seed: an optional player company and the bots, solvent and unencumbered.\<close>

definition seededParty :: "env \<Rightarrow> nat \<Rightarrow> string \<Rightarrow> company option \<Rightarrow> company \<Rightarrow> company \<Rightarrow> company \<Rightarrow> company list \<Rightarrow> bool" where
  "seededParty E n rid pc a b t cs \<longleftrightarrow>
     cs = (case pc of None \<Rightarrow> [] | Some c \<Rightarrow> [c]) @ [a, b, t] \<and> distinct (map co_id cs) \<and>
     co_id ` set cs \<subseteq> issued E n \<and>
     (\<forall>c\<in>set cs. co_regionId c = rid \<and> co_reservedCashCents c = 0 \<and> workforceStateOk (workforceState c)) \<and>
     \<not> co_isPlayer a \<and> \<not> co_isPlayer b \<and> \<not> co_isPlayer t \<and>
     co_cashCents a = 2500000 \<and> co_cashCents b = 2500000 \<and> co_cashCents t = 2500000 \<and>
     (\<forall>c. pc = Some c \<longrightarrow> co_cashCents c = 1200000)"

lemma seed_covered:
  assumes "itemsFor E k ITEM_DEFINITIONS m its" and "\<forall>n. env_cuid E n \<noteq> []" and "companies d = cs"
    and "seededParty E n rid pc a b t cs" and "ps = (case pc of None \<Rightarrow> [] | Some c \<Rightarrow> playerStock (co_id c))"
    and "inventories d = map (stockRow m rid) (ps @ botStock (co_id a) (co_id b) (co_id t))"
  shows "covered m rid (marketSeedOrders (co_id a) (co_id b) (co_id t)) d"
proof -
  let ?a = "co_id a" and ?b = "co_id b" and ?t = "co_id t"
  note P = assms(4) [unfolded seededParty_def]
  have ids: "?a \<noteq> ?b" "?a \<noteq> ?t" "?b \<noteq> ?t" using P by auto
  have "ps = [] \<or> (\<exists>cid. ps = playerStock cid \<and> cid \<notin> {?a, ?b, ?t})" using P assms(5) by (cases pc) auto
  then obtain cid where ps: "ps = [] \<or> ps = playerStock cid \<and> cid \<notin> {?a, ?b, ?t}" by blast
  note stock = bot_stock [OF ids ps]
  have bot: "\<exists>co. findCompany c d = Some co \<and> \<not> co_isPlayer co \<and> co_regionId co = rid" "c \<noteq> []"
    if c: "c = ?a \<or> c = ?b \<or> c = ?t" for c
  proof -
    have "distinct (map co_id (companies d))" "a \<in> set (companies d)" "b \<in> set (companies d)" "t \<in> set (companies d)"
      using P assms(3) by auto
    then show "\<exists>co. findCompany c d = Some co \<and> \<not> co_isPlayer co \<and> co_regionId co = rid"
      using c P assms(3) rowFind_unique by metis
    have "c \<in> issued E n" using c P by auto
    then show "c \<noteq> []" using assms(2) unfolding issued_def by (metis imageE)
  qed
  have "rowCovered m rid d x" if x: "x \<in> set (marketSeedOrders ?a ?b ?t)" for x
  proof -
    obtain c k side q p where eq: "x = (c, k, side, q, p)" by (cases x)
    from seed_order_row [OF x] have row: "0 < q" "0 < p" "c = ?a \<or> c = ?b \<or> c = ?t" "k \<in> itemKeys"
      "side = SELL \<longrightarrow> (\<exists>s. (c, k, s) \<in> set (botStock ?a ?b ?t) \<and> q \<le> s)"
      by (auto simp: eq rowBacked_def list_ex_iff)
    have "\<exists>r. findInventory c (itemIdOf m k) rid d = Some r \<and> q \<le> inv_quantity r - inv_reservedQuantity r" if "side = SELL"
    proof -
      from row(5) that obtain s where s: "(c, k, s) \<in> set (ps @ botStock ?a ?b ?t)" "q \<le> s" by auto
      have "\<exists>r. findInventory c (itemIdOf m k) rid d = Some r \<and> inv_quantity r = s \<and> inv_reservedQuantity r = 0"
        by (rule stock_found [OF assms(1) stock(1) _ assms(6) s(1)]) (rule stock(2))
      with s(2) show ?thesis by auto
    qed
    with row bot [OF row(3)] show ?thesis by (simp add: eq rowCovered_def)
  qed
  moreover have "buyTotal (co_id co) (marketSeedOrders ?a ?b ?t) \<le> co_cashCents co - co_reservedCashCents co"
    if co: "co \<in> set (companies d)" for co
  proof -
    have "0 \<le> co_cashCents co" using P co assms(3) by (auto split: option.splits)
    moreover have "co = t" if "co_id co = ?t" using that P co assms(3) by (auto split: option.splits)
    ultimately show ?thesis using seed_purchases [OF ids(2,3), of "co_id co"] P co assms(3)
      by (auto split: if_splits)
  qed
  ultimately show ?thesis using seed_sales_distinct [OF ids] by (simp add: covered_def list_all_iff)
qed

lemma seed_stock_ok:
  assumes "itemsFor E k ITEM_DEFINITIONS m its" and "distinct (stockPairs rows)"
    and "\<And>c k q. (c, k, q) \<in> set rows \<Longrightarrow> k \<in> itemKeys \<and> 0 \<le> q"
  shows "rowsOk invKey inventoryOk (map (stockRow m rid) rows)"
  using stock_keys_distinct [OF assms] assms(3)
  by (auto simp: rowsOk_def stockRow_def inventoryOk_iff simp del: list.map_comp)

subsection \<open>Players, regions and companies\<close>

lemma seedRegions_returns:
  assumes "regions d = []"
  shows "\<exists>core rgs n. seedRegions d = (Inr core, d\<lparr>regions := rgs, db_seq := n\<rparr>) \<and> db_seq d \<le> n"
  using assms
  by (cases d) (simp add: seedRegions_def upsertRegion_def transaction_def createRow_def)

lemma seedPlayer_returns:
  assumes "players d = []"
  shows "\<exists>pl pls n. (if incl then andThenS (seedPlayer E d) (\<lambda>p d. (Inr (Some p), d)) else (Inr None, d)) =
      (Inr pl, d\<lparr>players := pls, db_seq := n\<rparr>) \<and> db_seq d \<le> n \<and> (pl = None \<longleftrightarrow> \<not> incl)"
  using assms
  by (cases d) (auto simp: seedPlayer_def transaction_def createCoded_def createRow_def)

lemma seedParty_returns:
  assumes "inj (env_cuid E)" and "companies d = []"
  shows "\<exists>pc a b t cs n d1. seedPlayerCompany E pl core d = (Inr pc, d1) \<and>
    seedBots E core d1 = (Inr (a, b, t), d\<lparr>companies := cs, db_seq := n\<rparr>) \<and> db_seq d \<le> n \<and>
    (pc = None \<longleftrightarrow> pl = None) \<and> seededParty E n (rg_id core) pc a b t cs"
proof -
  have apart: "env_cuid E i = env_cuid E j \<longleftrightarrow> i = j" for i j using assms(1) by (rule inj_eq)
  show ?thesis
    using assms(2)
    by (cases d; cases pl)
      (simp_all add: seedPlayerCompany_def seedBots_def createCompany_def createCoded_def createRow_def transaction_def
        seededCompany_def newId_def currentTime_def apart seededParty_def issued_def workforceStateOk_def workforceState_def)
qed

subsection \<open>The whole seed returns\<close>

lemma seedFactory_returns:
  assumes "buildings d = []"
  shows "\<exists>bs n. seedFactory E pc rid d = (Inr (), d\<lparr>buildings := bs, db_seq := n\<rparr>) \<and> db_seq d \<le> n \<and>
    (\<forall>b\<in>set bs. bd_weeklyOperatingCostCents b = 0)"
  using assms
  by (cases d; cases pc) (simp_all add: seedFactory_def transaction_def createRow_def)

text \<open>Empty tables, as \<open>freshDb\<close> has them.\<close>

definition unseeded :: "db \<Rightarrow> bool" where
  "unseeded d \<longleftrightarrow> inventories d = [] \<and> buildings d = [] \<and> recipes d = [] \<and> recipeInputs d = [] \<and>
     companyRecipes d = [] \<and> researchNodes d = [] \<and> nodeUnlockRecipes d = [] \<and> researchPrerequisites d = [] \<and>
     companyResearches d = [] \<and> marketOrders d = [] \<and> ledgerEntries d = []"

lemma seedTables_returns:
  assumes "inj (env_cuid E)" and "itemsFor E k ITEM_DEFINITIONS m its" and "unseeded d"
    and "seededParty E n rid pc a b t cs"
  shows "\<exists>ivs bs rcs ris crs nds nus ps cxs j.
    seedTables E m rid pc a b t d = (Inr (), d\<lparr>inventories := ivs, buildings := bs, recipes := rcs, recipeInputs := ris,
      companyRecipes := crs, researchNodes := nds, nodeUnlockRecipes := nus, researchPrerequisites := ps,
      companyResearches := cxs, db_seq := j\<rparr>) \<and> db_seq d \<le> j \<and>
    ivs = map (stockRow m rid) ((case pc of None \<Rightarrow> [] | Some c \<Rightarrow> playerStock (co_id c)) @
      botStock (co_id a) (co_id b) (co_id t)) \<and> rowsOk invKey inventoryOk ivs \<and>
    (\<forall>b\<in>set bs. bd_weeklyOperatingCostCents b = 0) \<and> (\<forall>r\<in>set rcs. 0 \<le> rc_outputQuantity r) \<and>
    distinct (map (\<lambda>i. (ri_recipeId i, ri_itemId i)) ris)"
proof -
  let ?a = "co_id a" and ?b = "co_id b" and ?t = "co_id t"
  define stock where "stock = (case pc of None \<Rightarrow> [] | Some c \<Rightarrow> playerStock (co_id c))"
  let ?rows = "stock @ botStock ?a ?b ?t"
  note P = assms(4) [unfolded seededParty_def] and U = assms(3) [unfolded unseeded_def]
  have cs: "(case pc of None \<Rightarrow> [] | Some c \<Rightarrow> [c]) @ [a, b, t] = cs" "distinct (map co_id cs)" using P by argo+
  have ids: "?a \<noteq> ?b" "?a \<noteq> ?t" "?b \<noteq> ?t" using P by auto
  have "stock = [] \<or> (\<exists>cid. stock = playerStock cid \<and> cid \<notin> {?a, ?b, ?t})"
    using P by (cases pc) (auto simp: stock_def)
  then obtain cid where own: "stock = [] \<or> stock = playerStock cid \<and> cid \<notin> {?a, ?b, ?t}" by blast
  have known: "k \<in> itemKeys \<and> 0 \<le> q" if "(c, k, q) \<in> set ?rows" for c k q using bot_stock(2) [OF ids own that] .
  define d1 where "d1 = d\<lparr>inventories := map (stockRow m rid) ?rows\<rparr>"
  have s1: "seedInventory m rid ?rows d = (Inr (), d1)"
    unfolding d1_def by (rule seedInventory_returns [OF assms(2) bot_stock(1) [OF ids own]]) (use U known in auto)
  have "buildings d1 = []" using U by (simp add: d1_def)
  from seedFactory_returns [OF this, of E pc rid] obtain bs n2 where
    s2: "seedFactory E pc rid d1 = (Inr (), d1\<lparr>buildings := bs, db_seq := n2\<rparr>)" "db_seq d1 \<le> n2"
      "\<forall>b\<in>set bs. bd_weeklyOperatingCostCents b = 0" by blast
  define d2 where "d2 = d1\<lparr>buildings := bs, db_seq := n2\<rparr>"
  have "recipes d2 = []" "recipeInputs d2 = []" using U by (simp_all add: d2_def d1_def)
  from seedRecipes_returns [OF assms(1,2) this] obtain al rcs ris n3 where
    s3: "seedRecipes E m d2 = (Inr al, d2\<lparr>recipes := rcs, recipeInputs := ris, db_seq := n3\<rparr>)" "db_seq d2 \<le> n3"
      "recipesFor E n3 (RECIPE_DEFINITIONS E) al rcs ris" by blast
  define d3 where "d3 = d2\<lparr>recipes := rcs, recipeInputs := ris, db_seq := n3\<rparr>"
  have "companyRecipes d3 = []" using U by (simp add: d3_def d2_def d1_def)
  from seedCompanyRecipes_returns [OF recipesForD(4) [OF s3(3)] cs(2) this] obtain crs where
    s4: "eachS (seedCompanyRecipes rcs) cs () d3 = (Inr (), d3\<lparr>companyRecipes := crs\<rparr>)" by blast
  define d4 where "d4 = d3\<lparr>companyRecipes := crs\<rparr>"
  have "researchNodes d4 = []" "nodeUnlockRecipes d4 = []" using U by (simp_all add: d4_def d3_def d2_def d1_def)
  from seedResearchNodes_return [OF assms(1) s3(3) this] obtain nodes nds nus n5 where
    s5: "eachS (seedResearchNode E al) RESEARCH_DEFINITIONS Map.empty d4 =
      (Inr nodes, d4\<lparr>researchNodes := nds, nodeUnlockRecipes := nus, db_seq := n5\<rparr>)" "db_seq d4 \<le> n5"
      "nodesFor E n5 RESEARCH_DEFINITIONS nodes nds" by blast
  define d5 where "d5 = d4\<lparr>researchNodes := nds, nodeUnlockRecipes := nus, db_seq := n5\<rparr>"
  have "researchPrerequisites d5 = []" using U by (simp add: d5_def d4_def d3_def d2_def d1_def)
  from seedPrerequisites_returns [OF s5(3) this] obtain ps where
    s6: "seedPrerequisites nodes d5 = (Inr (), d5\<lparr>researchPrerequisites := ps\<rparr>)" by blast
  define d6 where "d6 = d5\<lparr>researchPrerequisites := ps\<rparr>"
  have "companyResearches d6 = []" using U by (simp add: d6_def d5_def d4_def d3_def d2_def d1_def)
  from seedBasics_returns [OF s5(3) this, of pc] obtain cxs n7 where
    s7: "seedBasics E pc nodes d6 = (Inr (), d6\<lparr>companyResearches := cxs, db_seq := n7\<rparr>)" "db_seq d6 \<le> n7" by blast
  have "seedTables E m rid pc a b t d = (Inr (), d6\<lparr>companyResearches := cxs, db_seq := n7\<rparr>)"
    unfolding seedTables_def Let_def
    using s1 s2(1) s3(1) s4 s5(1) s6 s7(1) cs(1) recipesForD(2) [OF s3(3)]
    by (simp flip: stock_def d2_def d3_def d4_def d5_def d6_def)
  also have "d6\<lparr>companyResearches := cxs, db_seq := n7\<rparr> = d\<lparr>inventories := map (stockRow m rid) ?rows, buildings := bs,
      recipes := rcs, recipeInputs := ris, companyRecipes := crs, researchNodes := nds, nodeUnlockRecipes := nus,
      researchPrerequisites := ps, companyResearches := cxs, db_seq := n7\<rparr>"
    by (simp add: d6_def d5_def d4_def d3_def d2_def d1_def)
  finally have run: "seedTables E m rid pc a b t d = (Inr (), d\<lparr>inventories := map (stockRow m rid) ?rows, buildings := bs,
      recipes := rcs, recipeInputs := ris, companyRecipes := crs, researchNodes := nds, nodeUnlockRecipes := nus,
      researchPrerequisites := ps, companyResearches := cxs, db_seq := n7\<rparr>)" .
  have seq: "db_seq d \<le> n7" using s2(2) s3(2) s5(2) s7(2) by (simp add: d6_def d5_def d4_def d3_def d2_def d1_def)
  have ok: "rowsOk invKey inventoryOk (map (stockRow m rid) ?rows)"
    by (rule seed_stock_ok [OF assms(2) bot_stock(1) [OF ids own]]) (use known in auto)
  show ?thesis
    unfolding stock_def [symmetric]
    by (intro exI conjI) (rule run seq refl ok s2(3) recipesForD(6,7) [OF s3(3)])+
qed

lemma seedFresh_returns:
  assumes "inj (env_cuid E)" and "\<forall>n. env_cuid E n \<noteq> []" and "d = freshDb n"
  shows "\<exists>r e a b t. seedFresh E incl d = (Inr r, e) \<and> tickOk e \<and> staffed e \<and>
    totalCash e = 7500000 + (if incl then 1200000 else 0) \<and>
    worldTickRow e = Some \<lparr>ws_currentTick = 0, ws_lockVersion = 0, ws_lastAdvancedAt = None\<rparr> \<and>
    length (marketOrders e) = length (marketSeedOrders a b t)"
proof -
  have blank: "items d = []" "players d = []" "regions d = []" "companies d = []" "unseeded d"
    by (simp_all add: assms(3) freshDb_def emptyDb_def unseeded_def)
  from seedItems_returns [OF assms(1) blank(1)] obtain m its k1 where
    s1: "seedItems E d = (Inr m, d\<lparr>items := its, db_seq := k1\<rparr>)" "itemsFor E k1 ITEM_DEFINITIONS m its" by blast
  define d1 where "d1 = d\<lparr>items := its, db_seq := k1\<rparr>"
  have "players d1 = []" using blank by (simp add: d1_def)
  from seedPlayer_returns [OF this, of incl E] obtain pl pls k2 where
    s2: "(if incl then andThenS (seedPlayer E d1) (\<lambda>p d. (Inr (Some p), d)) else (Inr None, d1)) =
      (Inr pl, d1\<lparr>players := pls, db_seq := k2\<rparr>)" "pl = None \<longleftrightarrow> \<not> incl" by blast
  define d2 where "d2 = d1\<lparr>players := pls, db_seq := k2\<rparr>"
  have "regions d2 = []" using blank by (simp add: d2_def d1_def)
  from seedRegions_returns [OF this] obtain core rgs k3 where
    s3: "seedRegions d2 = (Inr core, d2\<lparr>regions := rgs, db_seq := k3\<rparr>)" by blast
  define d3 where "d3 = d2\<lparr>regions := rgs, db_seq := k3\<rparr>"
  have "companies d3 = []" using blank by (simp add: d3_def d2_def d1_def)
  from seedParty_returns [OF assms(1) this, of pl core] obtain pc a b t cs k4 d4 where
    s4: "seedPlayerCompany E pl core d3 = (Inr pc, d4)"
      "seedBots E core d4 = (Inr (a, b, t), d3\<lparr>companies := cs, db_seq := k4\<rparr>)" "pc = None \<longleftrightarrow> pl = None"
      "seededParty E k4 (rg_id core) pc a b t cs" by blast
  define d5 where "d5 = d3\<lparr>companies := cs, db_seq := k4\<rparr>"
  have "unseeded d5" using blank(5) by (simp add: unseeded_def d5_def d3_def d2_def d1_def)
  note tables = seedTables_returns [OF assms(1) s1(2) this s4(4)]
  obtain ivs bs rcs ris crs nds nus ps cxs j where
    s5: "seedTables E m (rg_id core) pc a b t d5 = (Inr (), d5\<lparr>inventories := ivs, buildings := bs, recipes := rcs,
      recipeInputs := ris, companyRecipes := crs, researchNodes := nds, nodeUnlockRecipes := nus,
      researchPrerequisites := ps, companyResearches := cxs, db_seq := j\<rparr>)"
    and ivs: "ivs = map (stockRow m (rg_id core)) ((case pc of None \<Rightarrow> [] | Some c \<Rightarrow> playerStock (co_id c)) @
      botStock (co_id a) (co_id b) (co_id t))"
    and ok: "rowsOk invKey inventoryOk ivs" "\<forall>b\<in>set bs. bd_weeklyOperatingCostCents b = 0"
      "\<forall>r\<in>set rcs. 0 \<le> rc_outputQuantity r" "distinct (map (\<lambda>i. (ri_recipeId i, ri_itemId i)) ris)"
    using tables by (elim exE conjE) blast
  define d6 where "d6 = d5\<lparr>inventories := ivs, buildings := bs, recipes := rcs,
      recipeInputs := ris, companyRecipes := crs, researchNodes := nds, nodeUnlockRecipes := nus,
      researchPrerequisites := ps, companyResearches := cxs, db_seq := j\<rparr>"
  have d6: "companies d6 = cs" "items d6 = its" "inventories d6 = ivs" "marketOrders d6 = []" "ledgerEntries d6 = []"
    "buildings d6 = bs" "recipes d6 = rcs" "recipeInputs d6 = ris"
    using blank(5) by (simp_all add: unseeded_def d6_def d5_def d3_def d2_def d1_def)
  let ?orders = "marketSeedOrders (co_id a) (co_id b) (co_id t)"
  have covered: "covered m (rg_id core) ?orders d6"
    by (rule seed_covered [OF s1(2) assms(2) d6(1) s4(4) refl]) (use d6(3) ivs in simp)
  note P = s4(4) [unfolded seededParty_def]
  have "rowsOk co_id companyOk cs" using P by (auto simp: rowsOk_def companyOk_iff split: option.splits)
  then have market: "marketOk d6" using P ok(1) by (simp add: marketOk_def economyOk_def cashBacked_def orderReserve_def
      rowsOk_def [of ord_id] d6)
  have "ordersPlaced E d6 ?orders m (rg_id core) d6" using market covered by (simp add: ordersPlaced_def d6(4,5))
  from seedOrders_return [OF assms(1,2) s1(2) [folded d6(2)] this] obtain d7 where
    s7: "eachS (seedOrder E m) ?orders () d6 = (Inr (), d7)" "ordersPlaced E d6 [] m (rg_id core) d7"
      "length (marketOrders d7) = length ?orders" by (auto simp: d6(4))
  note I = ordersPlacedD [OF s7(2)]
  define e where "e = d7\<lparr>worldTickRow := Some \<lparr>ws_currentTick = 0, ws_lockVersion = 0, ws_lastAdvancedAt = None\<rparr>\<rparr>"
  have "mapE (\<lambda>definition'. andThen (known (m (idf_key definition'))) (\<lambda>item. Inr (idf_key definition', it_id item)))
      ITEM_DEFINITIONS = Inr (map (\<lambda>x. (idf_key x, itemIdOf m (idf_key x))) ITEM_DEFINITIONS)"
    by (rule mapE_known) (use itemsFor_known [OF s1(2)] in fastforce)
  then obtain r where run: "seedFresh E incl d = (Inr r, e)"
    using s1(1) s2(1) s3 s4(1,2) s5 s7(1)
    by (simp add: seedFresh_def seedClock_def flip: d1_def d2_def d3_def d5_def d6_def e_def)
  have e: "companies e = companies d7" "recipes e = rcs" "recipeInputs e = ris" "buildings e = bs"
    "inventories e = inventories d7" "marketOrders e = marketOrders d7"
    using d6(6-8) by (simp_all add: e_def) (subst I(1), simp)+
  have faces: "map companyFace (companies e) = map companyFace cs" using I(4) e(1) d6(1) by simp
  have "marketOk e" using I(2) e(1,5,6) by (rule marketOk_same)
  then have tick: "tickOk e" using ok(2-4) by (simp add: tickOk_def recipesOk_def outputsOk_def e(2-4))
  have "workforceState ` set (companies e) = (\<lambda>f. snd (snd (snd (snd f)))) ` set (map companyFace (companies e))"
    by (simp add: image_comp comp_def companyFace_def)
  also have "\<dots> = workforceState ` set cs" unfolding faces by (simp add: image_comp comp_def companyFace_def)
  finally have "staffed e" using P unfolding staffed_def by (metis (no_types, lifting) imageE imageI)
  moreover have "totalCash e = sum_list (map co_cashCents cs)"
  proof -
    have "totalCash e = sum_list (map (\<lambda>f. fst (snd (snd (snd f)))) (map companyFace (companies e)))"
      by (simp add: totalCash_def comp_def companyFace_def)
    then show ?thesis unfolding faces by (simp add: comp_def companyFace_def)
  qed
  then have "totalCash e = 7500000 + (if incl then 1200000 else 0)"
    using P s2(2) s4(3) by (cases pc) auto
  ultimately show ?thesis using run tick s7(3) e(6) by (auto simp: e_def intro!: exI [of _ r] exI [of _ e])
qed

text \<open>
  C14. A seed always succeeds, on a freshly reset database or with a reset of its own: every key the
  tables name is found, no unique column is hit twice, every opening order is covered by the stock
  and the cash of its bot. The world it leaves stands at tick 0 with every opening order in the
  book, satisfies the invariants of the tick, has valid workforces, and holds exactly the cash of
  three bots and, with the player company, its 12,000.
\<close>

theorem seed_world_ready:
  assumes "inj (env_cuid E)" and "\<forall>n. env_cuid E n \<noteq> []"
    and "if so_reset options then strayBuildings d = [] else d = freshDb n"
  shows "\<exists>r e a b t. seedWorld E v options d = (Inr r, e) \<and> tickOk e \<and> staffed e \<and>
    totalCash e = 7500000 + (if shouldIncludeSeededPlayerCompany v options then 1200000 else 0) \<and>
    worldTickRow e = Some \<lparr>ws_currentTick = 0, ws_lockVersion = 0, ws_lastAdvancedAt = None\<rparr> \<and>
    length (marketOrders e) = length (marketSeedOrders a b t)"
proof -
  have "\<exists>k. (if so_reset options then resetSimulationData d else (Inr (), d)) = (Inr (), freshDb k)"
  proof (cases "so_reset options")
    case True
    then have "strayBuildings d = []" using assms(3) by simp
    then have "resetSimulationData d = (Inr (), freshDb (db_seq d))"
      by (simp add: reset_eq) (simp add: freshDb_def emptyDb_def)
    with True show ?thesis by auto
  qed (use assms(3) in auto)
  then obtain k where "(if so_reset options then resetSimulationData d else (Inr (), d)) = (Inr (), freshDb k)" ..
  then show ?thesis
    using seedFresh_returns [OF assms(1,2) refl, where n = k and incl = "shouldIncludeSeededPlayerCompany v options"]
    by (simp add: seedWorld_def Let_def)
qed

definition seedEnv :: env where
  "seedEnv = fixtureEnv\<lparr>env_cuid := \<lambda>n. replicate (Suc n) (CHR ''i'')\<rparr>"

lemma seedEnv_ids: "inj (env_cuid seedEnv)" "\<forall>n. env_cuid seedEnv n \<noteq> []"
  by (auto simp: seedEnv_def inj_def dest: arg_cong [where f = length])

text \<open>The hypotheses hold for ids of growing length and the database a reset leaves.\<close>

lemma seed_world_ready_witness:
  "\<exists>r e a b t. seedWorld seedEnv Map.empty \<lparr>so_reset = True, so_includePlayerCompany = Some True\<rparr> (freshDb 0) = (Inr r, e) \<and>
     tickOk e \<and> staffed e \<and> totalCash e = 8700000 \<and>
     worldTickRow e = Some \<lparr>ws_currentTick = 0, ws_lockVersion = 0, ws_lastAdvancedAt = None\<rparr> \<and>
     length (marketOrders e) = length (marketSeedOrders a b t)"
proof -
  have "strayBuildings (freshDb 0) = []" by (simp add: strayBuildings_def freshDb_def emptyDb_def)
  then show ?thesis
    using seed_world_ready [OF seedEnv_ids, of "\<lparr>so_reset = True, so_includePlayerCompany = Some True\<rparr>" "freshDb 0" 0 Map.empty]
    by (simp add: shouldIncludeSeededPlayerCompany_def)
qed

end
