(* ===== verification/CatalogSync.thy ===== *)
theory CatalogSync
  imports WorldSeed
begin

section \<open>Synchronising the static catalogue\<close>

text \<open>
  \<open>syncStaticCatalog\<close> of \<open>packages/db/src/seed-world.ts\<close>: one transaction that brings items, recipes,
  research nodes, prerequisites and the companies' recipe links of a running world in line with
  the tables of the code. Each loop of the function is a definition, in its order; the rows found
  by the key of their definition are kept beside the database.
\<close>

subsection \<open>Operations\<close>

text \<open>\<open>upsert\<close> where a unique code decides: an update finds the row by its code, a create has a new id.\<close>

definition upsertCoded ::
    "('r \<Rightarrow> string) \<Rightarrow> ('r \<Rightarrow> string) \<Rightarrow> (db \<Rightarrow> 'r list) \<Rightarrow> (('r list \<Rightarrow> 'r list) \<Rightarrow> db \<Rightarrow> db) \<Rightarrow> ('r \<Rightarrow> 'r) \<Rightarrow> 'r \<Rightarrow>
     db \<Rightarrow> ('r \<times> db) result" where
  "upsertCoded code key tbl upd f new d =
     (case rowFind code (code new) (tbl d) of
       Some _ \<Rightarrow> updateRow code tbl upd (code new) f d
     | None \<Rightarrow> createRow key tbl upd new d)"

text \<open>\<open>createMany\<close> with \<open>skipDuplicates\<close>: a row whose key is taken is left out; the count tells how many were written.\<close>

definition addMissing :: "('r \<Rightarrow> 'k) \<Rightarrow> 'r list \<Rightarrow> 'r list \<Rightarrow> 'r list" where
  "addMissing key rows = fold (\<lambda>r rs. if rowFind key (key r) rs = None then rs @ [r] else rs) rows"

definition chunkArray :: "'a list \<Rightarrow> nat \<Rightarrow> 'a list list" where
  "chunkArray rows chunkSize =
     (if rows = [] then []
      else map (\<lambda>i. take chunkSize (drop (i * chunkSize) rows)) [0..<(length rows + chunkSize - 1) div chunkSize])"

text \<open>Items, then recipes with their inputs.\<close>

definition syncItem ::
    "env \<Rightarrow> itemDefinition \<Rightarrow> (string \<Rightarrow> item option) \<times> db \<Rightarrow> ((string \<Rightarrow> item option) \<times> db) result" where
  "syncItem E definition' = (\<lambda>(itemsByKey, d).
     andThen (upsertCoded it_code it_id items items_update (\<lambda>r. r\<lparr>it_name := idf_name definition'\<rparr>)
       \<lparr>it_id = newId E d, it_code = idf_code definition', it_name = idf_name definition'\<rparr> d) (\<lambda>(item, d).
     Inr (itemsByKey(idf_key definition' \<mapsto> item), d)))"

definition syncRecipeInput ::
    "(string \<Rightarrow> item option) \<Rightarrow> recipeDefinition \<Rightarrow> string \<Rightarrow> string \<times> int \<Rightarrow> string list \<times> db \<Rightarrow>
     (string list \<times> db) result" where
  "syncRecipeInput itemsByKey definition' recipeId = (\<lambda>(itemKey, qty) (expectedInputItemIds, d).
     case itemsByKey itemKey of
       None \<Rightarrow> Inl (PlainError (''seed recipe '' @ rdf_code definition' @ '' references unknown input item key '' @ itemKey))
     | Some inputItem \<Rightarrow>
       andThen (upsertRow (\<lambda>i. (ri_recipeId i, ri_itemId i)) recipeInputs recipeInputs_update
         (\<lambda>r. r\<lparr>ri_quantity := qty\<rparr>)
         \<lparr>ri_recipeId = recipeId, ri_itemId = it_id inputItem, ri_quantity = qty\<rparr> d) (\<lambda>(_, d).
       Inr (expectedInputItemIds @ [it_id inputItem], d)))"

definition syncRecipe ::
    "env \<Rightarrow> (string \<Rightarrow> item option) \<Rightarrow> recipeDefinition \<Rightarrow> (string \<times> recipe) list \<times> db \<Rightarrow>
     ((string \<times> recipe) list \<times> db) result" where
  "syncRecipe E itemsByKey definition' = (\<lambda>(recipesByKey, d).
     case itemsByKey (rdf_outputItemKey definition') of
       None \<Rightarrow> Inl (PlainError (''seed recipe '' @ rdf_code definition' @ '' references unknown output item key '' @
         rdf_outputItemKey definition'))
     | Some outputItem \<Rightarrow>
       andThen (upsertCoded rc_code rc_id recipes recipes_update
         (\<lambda>r. r\<lparr>rc_name := rdf_name definition', rc_durationTicks := rdf_durationTicks definition',
            rc_outputItemId := it_id outputItem, rc_outputQuantity := rdf_outputQuantity definition'\<rparr>)
         \<lparr>rc_id = newId E d, rc_code = rdf_code definition', rc_name = rdf_name definition',
          rc_durationTicks = rdf_durationTicks definition', rc_outputItemId = it_id outputItem,
          rc_outputQuantity = rdf_outputQuantity definition'\<rparr> d) (\<lambda>(recipe, d).
       andThen (forEach (syncRecipeInput itemsByKey definition' (rc_id recipe)) (rdf_inputs definition') ([], d))
         (\<lambda>(expectedInputItemIds, d).
       Inr (AList.update (rdf_key definition') recipe recipesByKey,
         d\<lparr>recipeInputs := filter (\<lambda>i. \<not> (ri_recipeId i = rc_id recipe \<and> ri_itemId i \<notin> set expectedInputItemIds))
           (recipeInputs d)\<rparr>))))"

text \<open>Research nodes with what they unlock; the prerequisites are replaced.\<close>

definition syncUnlock ::
    "(string \<times> recipe) list \<Rightarrow> researchDefinition \<Rightarrow> string \<Rightarrow> string \<Rightarrow> string list \<times> db \<Rightarrow>
     (string list \<times> db) result" where
  "syncUnlock recipesByKey definition' nodeId = (\<lambda>recipeKey (expectedUnlockRecipeIds, d).
     case map_of recipesByKey recipeKey of
       None \<Rightarrow> Inl (PlainError (''research node '' @ ndf_code definition' @ '' references unknown recipe key '' @ recipeKey))
     | Some recipe \<Rightarrow>
       andThen (upsertRow (\<lambda>u. (nu_nodeId u, nu_recipeId u)) nodeUnlockRecipes nodeUnlockRecipes_update
         id \<lparr>nu_nodeId = nodeId, nu_recipeId = rc_id recipe\<rparr> d) (\<lambda>(_, d).
       Inr (expectedUnlockRecipeIds @ [rc_id recipe], d)))"

definition syncResearchNode ::
    "env \<Rightarrow> (string \<times> recipe) list \<Rightarrow> researchDefinition \<Rightarrow> (string \<Rightarrow> researchNode option) \<times> db \<Rightarrow>
     ((string \<Rightarrow> researchNode option) \<times> db) result" where
  "syncResearchNode E recipesByKey definition' = (\<lambda>(nodesByKey, d).
     andThen (upsertCoded rn_code rn_id researchNodes researchNodes_update
       (\<lambda>r. r\<lparr>rn_name := ndf_name definition', rn_description := ndf_description definition',
          rn_costCashCents := ndf_costCashCents definition', rn_durationTicks := ndf_durationTicks definition'\<rparr>)
       \<lparr>rn_id = newId E d, rn_code = ndf_code definition', rn_name = ndf_name definition',
        rn_description = ndf_description definition', rn_costCashCents = ndf_costCashCents definition',
        rn_durationTicks = ndf_durationTicks definition'\<rparr> d) (\<lambda>(node, d).
     andThen (forEach (syncUnlock recipesByKey definition' (rn_id node)) (ndf_unlockRecipeKeys definition') ([], d))
       (\<lambda>(expectedUnlockRecipeIds, d).
     Inr (nodesByKey(ndf_key definition' \<mapsto> node),
       d\<lparr>nodeUnlockRecipes := filter (\<lambda>u. \<not> (nu_nodeId u = rn_id node \<and> nu_recipeId u \<notin> set expectedUnlockRecipeIds))
         (nodeUnlockRecipes d)\<rparr>))))"

definition syncPrerequisiteRow ::
    "(string \<Rightarrow> researchNode option) \<Rightarrow> string \<times> string \<Rightarrow> researchPrerequisite result" where
  "syncPrerequisiteRow nodesByKey = (\<lambda>(nodeKey, prerequisiteKey).
     case (nodesByKey nodeKey, nodesByKey prerequisiteKey) of
       (None, _) \<Rightarrow> Inl (PlainError (''research prerequisite references unknown node key '' @ nodeKey))
     | (_, None) \<Rightarrow> Inl (PlainError (''research prerequisite references unknown prerequisite key '' @ prerequisiteKey))
     | (Some node, Some prerequisiteNode) \<Rightarrow>
       Inr \<lparr>rp_nodeId = rn_id node, rp_prerequisiteNodeId = rn_id prerequisiteNode\<rparr>)"

definition syncPrerequisites :: "(string \<Rightarrow> researchNode option) \<Rightarrow> db \<Rightarrow> db result" where
  "syncPrerequisites nodesByKey d =
     andThen (mapE (syncPrerequisiteRow nodesByKey) RESEARCH_PREREQUISITES) (\<lambda>rows.
     andThen (createMany (\<lambda>p. (rp_nodeId p, rp_prerequisiteNodeId p)) researchPrerequisites
       researchPrerequisites_update rows (d\<lparr>researchPrerequisites := []\<rparr>)) (\<lambda>(_, d).
     Inr d))"

text \<open>The links of every company, in batches of 1000, and the recipes every company has unlocked.\<close>

definition syncCompanyLinks :: "recipe list \<Rightarrow> string set \<Rightarrow> company \<Rightarrow> int \<times> db \<Rightarrow> int \<times> db" where
  "syncCompanyLinks allRecipes autoUnlocked company =
     fold (\<lambda>batch (created, d).
         (created + int (length (addMissing crKey batch (companyRecipes d))) - int (length (companyRecipes d)),
          d\<lparr>companyRecipes := addMissing crKey batch (companyRecipes d)\<rparr>))
       (chunkArray (map (\<lambda>recipe. \<lparr>cr_companyId = co_id company, cr_recipeId = rc_id recipe,
          cr_isUnlocked = (rc_id recipe \<in> autoUnlocked)\<rparr>) allRecipes) 1000)"

definition syncLinks :: "(string \<times> recipe) list \<Rightarrow> db \<Rightarrow> int \<times> db" where
  "syncLinks recipesByKey d =
     (let allRecipes = map snd recipesByKey;
          autoUnlocked = rc_id ` set (filter (\<lambda>recipe. isRecipeAutoUnlocked (rc_code recipe)) allRecipes) in
      if allRecipes = [] then (0, d)
      else (let (created, d) = fold (syncCompanyLinks allRecipes autoUnlocked) (companies d) (0, d) in
        (created,
         if autoUnlocked = {} then d
         else d\<lparr>companyRecipes := mapWhere (\<lambda>r. cr_recipeId r \<in> autoUnlocked \<and> \<not> cr_isUnlocked r)
           (\<lambda>r. r\<lparr>cr_isUnlocked := True\<rparr>) (companyRecipes d)\<rparr>)))"

record syncStaticCatalogResult =
  sy_itemsSynced :: int
  sy_recipesSynced :: int
  sy_researchNodesSynced :: int
  sy_prerequisitesSynced :: int
  sy_companyRecipeLinksCreated :: int

definition syncStaticCatalogWithTx :: "env \<Rightarrow> db \<Rightarrow> (syncStaticCatalogResult \<times> db) result" where
  "syncStaticCatalogWithTx E d =
     andThen (forEach (syncItem E) ITEM_DEFINITIONS (Map.empty, d)) (\<lambda>(itemsByKey, d).
     andThen (forEach (syncRecipe E itemsByKey) (RECIPE_DEFINITIONS E) ([], d)) (\<lambda>(recipesByKey, d).
     andThen (forEach (syncResearchNode E recipesByKey) RESEARCH_DEFINITIONS (Map.empty, d)) (\<lambda>(nodesByKey, d).
     andThen (syncPrerequisites nodesByKey d) (\<lambda>d.
     (let (created, d) = syncLinks recipesByKey d in
      Inr (\<lparr>sy_itemsSynced = int (length ITEM_DEFINITIONS), sy_recipesSynced = int (length (RECIPE_DEFINITIONS E)),
        sy_researchNodesSynced = int (length RESEARCH_DEFINITIONS),
        sy_prerequisitesSynced = int (length RESEARCH_PREREQUISITES), sy_companyRecipeLinksCreated = created\<rparr>, d))))))"

definition syncStaticCatalog :: "env \<Rightarrow> db \<Rightarrow> syncStaticCatalogResult result \<times> db" where
  "syncStaticCatalog E d = transaction (syncStaticCatalogWithTx E) d"

subsection \<open>Batches and links\<close>

lemma concat_chunks: "concat (map (\<lambda>i. take n (drop (i * n) xs)) [0..<k]) = take (k * n) xs"
proof (induction k)
  case (Suc k)
  have "take (Suc k * n) xs = take (k * n) xs @ take n (drop (k * n) xs)"
    by (metis add.commute mult_Suc take_add)
  with Suc show ?case by simp
qed simp

lemma concat_chunkArray: "0 < n \<Longrightarrow> concat (chunkArray xs n) = xs"
proof -
  assume n: "0 < n"
  have "length xs \<le> (length xs + n - 1) div n * n"
    using n div_mult_mod_eq [of "length xs + n - 1" n] mod_less_divisor [OF n, of "length xs + n - 1"] by linarith
  then show ?thesis by (simp add: chunkArray_def concat_chunks)
qed

lemma addMissing_append: "addMissing key (xs @ ys) rs = addMissing key ys (addMissing key xs rs)"
  by (simp add: addMissing_def)

lemma addMissing_mono: "set rs \<subseteq> set (addMissing key xs rs)"
  by (induction xs arbitrary: rs) (fastforce simp: addMissing_def)+

lemma addMissing_complete: "r \<in> set xs \<Longrightarrow> key r \<in> key ` set (addMissing key xs rs)"
proof (induction xs arbitrary: rs)
  case (Cons x xs)
  show ?case
  proof (cases "r = x")
    case True
    let ?rs = "if rowFind key (key x) rs = None then rs @ [x] else rs"
    have "key x \<in> key ` set ?rs" by (auto simp: rowFind_None)
    moreover have "set ?rs \<subseteq> set (addMissing key (x # xs) rs)"
      using addMissing_mono [of ?rs key xs] by (simp add: addMissing_def)
    ultimately show ?thesis using True by blast
  next
    case False
    then show ?thesis using Cons by (simp add: addMissing_def)
  qed
qed simp

lemma addMissing_distinct: "distinct (map key rs) \<Longrightarrow> distinct (map key (addMissing key xs rs))"
  by (induction xs arbitrary: rs) (auto simp: addMissing_def rowFind_None)

definition linkRows :: "recipe list \<Rightarrow> string set \<Rightarrow> company \<Rightarrow> companyRecipe list" where
  "linkRows rs auto' c = map (\<lambda>recipe. \<lparr>cr_companyId = co_id c, cr_recipeId = rc_id recipe,
     cr_isUnlocked = (rc_id recipe \<in> auto')\<rparr>) rs"

lemma batches_eq:
  "snd (fold (\<lambda>batch (created, d). (created + int (length (addMissing crKey batch (companyRecipes d))) -
         int (length (companyRecipes d)), d\<lparr>companyRecipes := addMissing crKey batch (companyRecipes d)\<rparr>)) bs (n, d)) =
   d\<lparr>companyRecipes := addMissing crKey (concat bs) (companyRecipes d)\<rparr>"
proof (induction bs arbitrary: n d)
  case Nil
  show ?case by (simp add: addMissing_def)
qed (simp add: addMissing_append)

lemma syncCompanyLinks_eq:
  "snd (syncCompanyLinks rs auto' c (n, d)) = d\<lparr>companyRecipes := addMissing crKey (linkRows rs auto' c) (companyRecipes d)\<rparr>"
  by (simp add: syncCompanyLinks_def batches_eq concat_chunkArray linkRows_def)

lemma companies_links_eq:
  "snd (fold (syncCompanyLinks rs auto') cs (n, d)) =
     d\<lparr>companyRecipes := addMissing crKey (concat (map (linkRows rs auto') cs)) (companyRecipes d)\<rparr>"
proof (induction cs arbitrary: n d)
  case Nil
  show ?case by (simp add: addMissing_def)
next
  case (Cons c cs)
  obtain k e where e: "syncCompanyLinks rs auto' c (n, d) = (k, e)" by (cases "syncCompanyLinks rs auto' c (n, d)")
  with syncCompanyLinks_eq [of rs auto' c n d]
  have "e = d\<lparr>companyRecipes := addMissing crKey (linkRows rs auto' c) (companyRecipes d)\<rparr>" by simp
  with e show ?case by (simp add: Cons addMissing_append)
qed

text \<open>After the links are synchronised every company has one for every recipe, unlocked where the
  catalogue unlocks; no link is lost and none is locked again.\<close>

lemma syncLinks_links:
  assumes "syncLinks al d = (n, d')"
  shows "\<exists>ls. d' = d\<lparr>companyRecipes := ls\<rparr> \<and>
    (\<forall>l\<in>set (companyRecipes d). \<exists>l'\<in>set ls. crKey l' = crKey l \<and> (cr_isUnlocked l \<longrightarrow> cr_isUnlocked l')) \<and>
    (\<forall>c\<in>set (companies d). \<forall>r\<in>snd ` set al. \<exists>l\<in>set ls. crKey l = (co_id c, rc_id r) \<and>
       (isRecipeAutoUnlocked (rc_code r) \<longrightarrow> cr_isUnlocked l))"
proof (cases "al = []")
  case True
  then have "d' = d\<lparr>companyRecipes := companyRecipes d\<rparr>" using assms by (simp add: syncLinks_def)
  then show ?thesis using True by (intro exI [of _ "companyRecipes d"]) auto
next
  case False
  define auto' where "auto' = rc_id ` set (filter (\<lambda>recipe. isRecipeAutoUnlocked (rc_code recipe)) (map snd al))"
  define rows where "rows = concat (map (linkRows (map snd al) auto') (companies d))"
  define ms where "ms = addMissing crKey rows (companyRecipes d)"
  define ls where "ls = (if auto' = {} then ms
    else mapWhere (\<lambda>r. cr_recipeId r \<in> auto' \<and> \<not> cr_isUnlocked r) (\<lambda>r. r\<lparr>cr_isUnlocked := True\<rparr>) ms)"
  obtain k e where e: "fold (syncCompanyLinks (map snd al) auto') (companies d) (0, d) = (k, e)" by fastforce
  with companies_links_eq [of "map snd al" auto' "companies d" 0 d]
  have ms: "e = d\<lparr>companyRecipes := ms\<rparr>" by (simp add: ms_def rows_def)
  have "syncLinks al d = (k, if auto' = {} then e
    else e\<lparr>companyRecipes := mapWhere (\<lambda>r. cr_recipeId r \<in> auto' \<and> \<not> cr_isUnlocked r)
      (\<lambda>r. r\<lparr>cr_isUnlocked := True\<rparr>) (companyRecipes e)\<rparr>)"
    using False by (simp only: syncLinks_def Let_def auto'_def [symmetric] e map_is_Nil_conv if_False prod.case)
  then have "d' = d\<lparr>companyRecipes := ls\<rparr>" using assms by (simp add: ls_def ms)
  moreover have up: "\<exists>l'\<in>set ls. crKey l' = crKey l \<and> (cr_isUnlocked l \<or> cr_recipeId l \<in> auto' \<longrightarrow> cr_isUnlocked l')"
    if l: "l \<in> set ms" for l
  proof (cases "auto' = {}")
    case True
    with l show ?thesis by (auto simp: ls_def)
  next
    case F: False
    let ?g = "\<lambda>r. if cr_recipeId r \<in> auto' \<and> \<not> cr_isUnlocked r then r\<lparr>cr_isUnlocked := True\<rparr> else r"
    have "?g l \<in> set ls" using l F by (simp add: ls_def mapWhere_def)
    then show ?thesis by (rule bexI [rotated]) (simp add: crKey_def)
  qed
  moreover have "\<forall>l\<in>set (companyRecipes d). \<exists>l'\<in>set ls. crKey l' = crKey l \<and> (cr_isUnlocked l \<longrightarrow> cr_isUnlocked l')"
    using up addMissing_mono [of "companyRecipes d" crKey rows] unfolding ms_def by blast
  moreover have "\<exists>l\<in>set ls. crKey l = (co_id c, rc_id r) \<and> (isRecipeAutoUnlocked (rc_code r) \<longrightarrow> cr_isUnlocked l)"
    if c: "c \<in> set (companies d)" and r: "r \<in> snd ` set al" for c r
  proof -
    let ?row = "\<lparr>cr_companyId = co_id c, cr_recipeId = rc_id r, cr_isUnlocked = (rc_id r \<in> auto')\<rparr>"
    have "?row \<in> set rows" using c r by (auto simp: rows_def linkRows_def)
    from addMissing_complete [OF this, of crKey "companyRecipes d"]
    obtain l where l: "l \<in> set ms" "crKey l = (co_id c, rc_id r)" by (auto simp: ms_def crKey_def)
    moreover have "rc_id r \<in> auto'" if "isRecipeAutoUnlocked (rc_code r)" using r that by (auto simp: auto'_def)
    ultimately show ?thesis using up [OF l(1)] by (auto simp: crKey_def)
  qed
  ultimately show ?thesis by blast
qed

subsection \<open>Only the catalogue is written\<close>

definition catalogueOnly :: "db \<Rightarrow> db \<Rightarrow> bool" where
  "catalogueOnly d e \<longleftrightarrow> e = d\<lparr>items := items e, recipes := recipes e, recipeInputs := recipeInputs e,
     researchNodes := researchNodes e, nodeUnlockRecipes := nodeUnlockRecipes e,
     researchPrerequisites := researchPrerequisites e, db_seq := db_seq e\<rparr>"

lemma catalogueOnly_intros [intro]:
  "catalogueOnly d e \<Longrightarrow> catalogueOnly d (items_update f e)"
  "catalogueOnly d e \<Longrightarrow> catalogueOnly d (recipes_update f1 e)"
  "catalogueOnly d e \<Longrightarrow> catalogueOnly d (recipeInputs_update f2 e)"
  "catalogueOnly d e \<Longrightarrow> catalogueOnly d (researchNodes_update f3 e)"
  "catalogueOnly d e \<Longrightarrow> catalogueOnly d (nodeUnlockRecipes_update f4 e)"
  "catalogueOnly d e \<Longrightarrow> catalogueOnly d (researchPrerequisites_update f5 e)"
  "catalogueOnly d e \<Longrightarrow> catalogueOnly d (db_seq_update f7 e)"
  by (cases d; cases e; simp add: catalogueOnly_def)+

lemma catalogueOnlyD:
  assumes "catalogueOnly d e"
  shows "companies e = companies d" "inventories e = inventories d" "marketOrders e = marketOrders d"
    "buildings e = buildings d" "companyRecipes e = companyRecipes d"
  by (subst assms [unfolded catalogueOnly_def], simp)+

lemma upsertCoded_form:
  assumes "upsertCoded code key tbl upd f new e = Inr (r, e')"
  shows "\<exists>g. e' = upd g e \<or> (\<exists>n. e' = (upd g e)\<lparr>db_seq := n\<rparr>)"
  using assms by (auto simp: upsertCoded_def updateRow_Inr createRow_Inr split: option.splits)

lemma upsertRow_form:
  assumes "upsertRow key tbl upd f new e = Inr (r, e')"
  shows "\<exists>g. e' = upd g e \<or> (\<exists>n. e' = (upd g e)\<lparr>db_seq := n\<rparr>)"
  using assms by (auto simp: upsertRow_def updateRow_Inr createRow_Inr split: option.splits)

text \<open>What the loops keep: the other tables, one input per recipe and item, outputs of no negative amount.\<close>

definition syncing :: "db \<Rightarrow> db \<Rightarrow> bool" where
  "syncing d e \<longleftrightarrow> catalogueOnly d e \<and> recipesOk e \<and> outputsOk e"

lemma syncing_same:
  "syncing d e \<Longrightarrow> catalogueOnly d e' \<Longrightarrow> recipes e' = recipes e \<Longrightarrow> recipeInputs e' = recipeInputs e \<Longrightarrow> syncing d e'"
  by (simp add: syncing_def recipesOk_def outputsOk_def)

lemma syncItem_keeps:
  assumes "syncItem E x (m, e) = Inr (m', e')" and "syncing d e"
  shows "syncing d e'"
proof -
  from assms(1) obtain r where "upsertCoded it_code it_id items items_update (\<lambda>r. r\<lparr>it_name := idf_name x\<rparr>)
      \<lparr>it_id = newId E e, it_code = idf_code x, it_name = idf_name x\<rparr> e = Inr (r, e')"
    by (auto simp: syncItem_def andThen_Inr_iff)
  from upsertCoded_form [OF this] obtain g n where
    "e' = items_update g e \<or> e' = (items_update g e)\<lparr>db_seq := n\<rparr>" by blast
  then show ?thesis using assms(2) by (auto simp: syncing_def recipesOk_def outputsOk_def)
qed

lemma syncRecipeInput_keeps:
  assumes "syncRecipeInput m x rid y (ids, e) = Inr (ids', e')" and "syncing d e"
  shows "syncing d e' \<and> recipes e' = recipes e"
proof -
  let ?key = "\<lambda>i. (ri_recipeId i, ri_itemId i)"
  from assms(1) obtain it q r where up: "upsertRow ?key recipeInputs recipeInputs_update (\<lambda>r. r\<lparr>ri_quantity := q\<rparr>)
      \<lparr>ri_recipeId = rid, ri_itemId = it_id (it :: item), ri_quantity = q\<rparr> e = Inr (r, e')"
    by (cases y) (auto simp: syncRecipeInput_def andThen_Inr_iff branch_Inr split: option.splits)
  from upsertRow_form [OF up] have "catalogueOnly d e'" "recipes e' = recipes e"
    using assms(2) by (auto simp: syncing_def)
  moreover have "distinct (map ?key (recipeInputs e'))"
  proof (cases "rowFind ?key (rid, it_id it) (recipeInputs e)")
    case None
    then have "recipeInputs e' = recipeInputs e @ [\<lparr>ri_recipeId = rid, ri_itemId = it_id it, ri_quantity = q\<rparr>]"
      using up by (simp add: upsertRow_def createRow_Inr)
    then show ?thesis using assms(2) None by (auto simp: syncing_def recipesOk_def rowFind_None)
  next
    case (Some y)
    then have "recipeInputs e' = rowSet ?key (rid, it_id it) (\<lambda>r. r\<lparr>ri_quantity := q\<rparr>) (recipeInputs e)"
      using up by (auto simp: upsertRow_def updateRow_Inr)
    moreover have "map ?key \<dots> = map ?key (recipeInputs e)" by (rule map_rowSet_same) simp
    ultimately show ?thesis using assms(2) by (simp add: syncing_def recipesOk_def)
  qed
  ultimately show ?thesis using assms(2) by (simp add: syncing_def recipesOk_def outputsOk_def)
qed

lemma upsertRecipe_rows:
  assumes "upsertCoded rc_code rc_id recipes recipes_update f new e = Inr (r, e')" and "\<And>x. rc_code (f x) = rc_code x"
  shows "r \<in> set (recipes e')" "rc_code r = rc_code new" "recipeInputs e' = recipeInputs e"
    "\<forall>x\<in>set (recipes e). rc_code x \<noteq> rc_code new \<longrightarrow> x \<in> set (recipes e')"
    "\<forall>x\<in>set (recipes e'). x \<in> set (recipes e) \<or> (\<exists>y. x = f y) \<or> x = new"
proof -
  have "r \<in> set (recipes e') \<and> rc_code r = rc_code new \<and> recipeInputs e' = recipeInputs e \<and>
    (\<forall>x\<in>set (recipes e). rc_code x \<noteq> rc_code new \<longrightarrow> x \<in> set (recipes e')) \<and>
    (\<forall>x\<in>set (recipes e'). x \<in> set (recipes e) \<or> (\<exists>y. x = f y) \<or> x = new)"
  proof (cases "rowFind rc_code (rc_code new) (recipes e)")
    case None
    then show ?thesis using assms(1) by (auto simp: upsertCoded_def createRow_Inr)
  next
    case (Some y)
    then have "recipes e' = rowSet rc_code (rc_code new) f (recipes e)" "r = f y" "recipeInputs e' = recipeInputs e"
      using assms(1) by (auto simp: upsertCoded_def updateRow_Inr)
    with rowFind_Some [OF Some] show ?thesis using assms(2) by (auto simp: rowSet_def)
  qed
  then show "r \<in> set (recipes e')" "rc_code r = rc_code new" "recipeInputs e' = recipeInputs e"
    "\<forall>x\<in>set (recipes e). rc_code x \<noteq> rc_code new \<longrightarrow> x \<in> set (recipes e')"
    "\<forall>x\<in>set (recipes e'). x \<in> set (recipes e) \<or> (\<exists>y. x = f y) \<or> x = new" by blast+
qed

text \<open>A loop whose invariant names the elements it has passed.\<close>

lemma forEach_passed:
  assumes "forEach f xs s = Inr s'" and "P [] s"
    and "\<And>past x rest s s'. xs = past @ x # rest \<Longrightarrow> P past s \<Longrightarrow> f x s = Inr s' \<Longrightarrow> P (past @ [x]) s'"
  shows "P xs s'"
  using assms
proof (induction xs arbitrary: s P)
  case (Cons x xs)
  from Cons.prems(1) obtain t where t: "f x s = Inr t" "forEach f xs t = Inr s'" by (auto simp: result_simps)
  have "P [x] t" using Cons.prems(3) [of "[]" x xs s t] Cons.prems(2) t(1) by simp
  moreover have "P (x # (past @ [y])) v" if "xs = past @ y # rest" "P (x # past) u" "f y u = Inr v" for past y rest u v
    using Cons.prems(3) [of "x # past" y rest u v] that by simp
  ultimately show ?case using Cons.IH [OF t(2), of "\<lambda>past. P (x # past)"] by blast
qed simp

text \<open>The recipes the loop has passed are rows of the table, with the codes of their definitions.\<close>

definition recipesPassed :: "db \<Rightarrow> recipeDefinition list \<Rightarrow> (string \<times> recipe) list \<Rightarrow> db \<Rightarrow> bool" where
  "recipesPassed d past al e \<longleftrightarrow> syncing d e \<and> map fst al = map rdf_key past \<and>
     map (\<lambda>x. rc_code (snd x)) al = map rdf_code past \<and> snd ` set al \<subseteq> set (recipes e)"

lemma syncRecipe_step:
  assumes "syncRecipe E m x (al, e) = Inr (al', e')" and "recipesPassed d past al e"
    and "rdf_key x \<notin> rdf_key ` set past" "rdf_code x \<notin> rdf_code ` set past" "0 \<le> rdf_outputQuantity x"
  shows "recipesPassed d (past @ [x]) al' e'"
proof -
  from assms(1) obtain it r e1 ids e2 where
    up: "upsertCoded rc_code rc_id recipes recipes_update
       (\<lambda>r. r\<lparr>rc_name := rdf_name x, rc_durationTicks := rdf_durationTicks x, rc_outputItemId := it_id (it :: item),
          rc_outputQuantity := rdf_outputQuantity x\<rparr>)
       \<lparr>rc_id = newId E e, rc_code = rdf_code x, rc_name = rdf_name x, rc_durationTicks = rdf_durationTicks x,
        rc_outputItemId = it_id it, rc_outputQuantity = rdf_outputQuantity x\<rparr> e = Inr (r, e1)"
    and loop: "forEach (syncRecipeInput m x (rc_id r)) (rdf_inputs x) ([], e1) = Inr (ids, e2)"
    and al': "al' = AList.update (rdf_key x) r al"
    and e': "e' = e2\<lparr>recipeInputs := filter (\<lambda>i. \<not> (ri_recipeId i = rc_id r \<and> ri_itemId i \<notin> set ids)) (recipeInputs e2)\<rparr>"
    by (auto simp: syncRecipe_def andThen_Inr_iff split: option.splits)
  from assms(2) have past: "syncing d e" "map fst al = map rdf_key past"
    "map (\<lambda>x. rc_code (snd x)) al = map rdf_code past" "snd ` set al \<subseteq> set (recipes e)"
    by (auto simp: recipesPassed_def)
  note rows = upsertRecipe_rows [OF up, simplified]
  have "catalogueOnly d e1" using upsertCoded_form [OF up] past(1) by (auto simp: syncing_def)
  moreover have "outputsOk e1" using rows(5) past(1) assms(5) by (fastforce simp: syncing_def outputsOk_def)
  ultimately have "syncing d e1" using past(1) rows(3) by (simp add: syncing_def recipesOk_def)
  then have "syncing d (snd (ids, e2)) \<and> recipes (snd (ids, e2)) = recipes e1"
    using forEach_invariant [OF loop, of "\<lambda>s. syncing d (snd s) \<and> recipes (snd s) = recipes e1"] syncRecipeInput_keeps
    by (metis prod.collapse snd_conv)
  then have e2: "syncing d e2" "recipes e2 = recipes e1" by simp_all
  then have "syncing d e'"
    unfolding e' by (auto simp: syncing_def recipesOk_def outputsOk_def distinct_map_filter)
  moreover have "rdf_key x \<notin> fst ` set al" using past(2) assms(3) by (metis list.set_map)
  then have new: "al' = al @ [(rdf_key x, r)]" unfolding al' by (rule update_new)
  moreover have "snd ` set al \<subseteq> set (recipes e1)"
  proof
    fix y assume y: "y \<in> snd ` set al"
    then have "rc_code y \<in> set (map (\<lambda>x. rc_code (snd x)) al)" by auto
    then have "rc_code y \<noteq> rdf_code x" unfolding past(3) using assms(4) by auto
    then show "y \<in> set (recipes e1)" using rows(4) y past(4) by blast
  qed
  ultimately show ?thesis using past(2,3) rows(1,2) e2(2) by (simp add: recipesPassed_def e')
qed

text \<open>Research leaves the recipes alone.\<close>

definition recipesKept :: "db \<Rightarrow> db \<Rightarrow> db \<Rightarrow> bool" where
  "recipesKept d e e' \<longleftrightarrow> catalogueOnly d e' \<and> recipes e' = recipes e \<and> recipeInputs e' = recipeInputs e"

lemma syncUnlock_keeps:
  assumes "syncUnlock al x nid k (ids, e') = Inr (ids', e'')" and "recipesKept d e e'"
  shows "recipesKept d e e''"
proof -
  from assms(1) obtain new r where "upsertRow (\<lambda>u. (nu_nodeId u, nu_recipeId u)) nodeUnlockRecipes
      nodeUnlockRecipes_update id new e' = Inr (r, e'')"
    by (auto simp: syncUnlock_def andThen_Inr_iff split: option.splits)
  from upsertRow_form [OF this] assms(2) show ?thesis by (auto simp: recipesKept_def)
qed

lemma syncResearchNode_keeps:
  assumes "syncResearchNode E al x (m, e') = Inr (m', e'')" and "recipesKept d e e'"
  shows "recipesKept d e e''"
proof -
  from assms(1) obtain f new r e1 ids e2 where
    up: "upsertCoded rn_code rn_id researchNodes researchNodes_update f new e' = Inr (r, e1)"
    and loop: "forEach (syncUnlock al x (rn_id r)) (ndf_unlockRecipeKeys x) ([], e1) = Inr (ids, e2)"
    and e'': "e'' = e2\<lparr>nodeUnlockRecipes :=
      filter (\<lambda>u. \<not> (nu_nodeId u = rn_id r \<and> nu_recipeId u \<notin> set ids)) (nodeUnlockRecipes e2)\<rparr>"
    by (auto simp: syncResearchNode_def andThen_Inr_iff)
  have "recipesKept d e e1" using upsertCoded_form [OF up] assms(2) by (auto simp: recipesKept_def)
  then have "recipesKept d e (snd (ids, e2))"
    using forEach_invariant [OF loop, of "\<lambda>s. recipesKept d e (snd s)"] syncUnlock_keeps by (metis prod.collapse snd_conv)
  then show ?thesis unfolding e'' by (auto simp: recipesKept_def)
qed

lemma syncPrerequisites_keeps:
  "syncPrerequisites m e' = Inr e'' \<Longrightarrow> recipesKept d e e' \<Longrightarrow> recipesKept d e e''"
  by (auto simp: syncPrerequisites_def andThen_Inr_iff createMany_def recipesKept_def split: if_splits)

definition linksComplete :: "recipeDefinition list \<Rightarrow> db \<Rightarrow> bool" where
  "linksComplete defs d \<longleftrightarrow> (\<forall>c\<in>set (companies d). \<forall>x\<in>set defs. \<exists>r\<in>set (recipes d). rc_code r = rdf_code x \<and>
     (\<exists>l\<in>set (companyRecipes d). crKey l = (co_id c, rc_id r) \<and> (isRecipeAutoUnlocked (rdf_code x) \<longrightarrow> cr_isUnlocked l)))"

definition unlockedKept :: "db \<Rightarrow> db \<Rightarrow> bool" where
  "unlockedKept d e \<longleftrightarrow> (\<forall>l\<in>set (companyRecipes d). \<exists>l'\<in>set (companyRecipes e).
     crKey l' = crKey l \<and> (cr_isUnlocked l \<longrightarrow> cr_isUnlocked l'))"

lemma sync_stages:
  assumes "syncStaticCatalogWithTx E d = Inr (r, d')"
  obtains items' e1 al e2 nodes e3 e4 n where
    "forEach (syncItem E) ITEM_DEFINITIONS (Map.empty, d) = Inr (items', e1)"
    "forEach (syncRecipe E items') (RECIPE_DEFINITIONS E) ([], e1) = Inr (al, e2)"
    "forEach (syncResearchNode E al) RESEARCH_DEFINITIONS (Map.empty, e2) = Inr (nodes, e3)"
    "syncPrerequisites nodes e3 = Inr e4" "syncLinks al e4 = (n, d')"
  using assms by (auto simp: syncStaticCatalogWithTx_def andThen_Inr_iff Let_def split: prod.splits) (metis surj_pair)

lemma sync_effect:
  assumes "syncStaticCatalogWithTx E d = Inr (r, d')" and "tickOk d" and "staffed d"
  shows "catalogueOnly (d\<lparr>companyRecipes := companyRecipes d'\<rparr>) d'" "tickOk d'" "staffed d'"
    "unlockedKept d d'" "linksComplete (RECIPE_DEFINITIONS E) d'"
proof -
  from sync_stages [OF assms(1)] obtain items' e1 al e2 nodes e3 e4 n where
    s: "forEach (syncItem E) ITEM_DEFINITIONS (Map.empty, d) = Inr (items', e1)"
    "forEach (syncRecipe E items') (RECIPE_DEFINITIONS E) ([], e1) = Inr (al, e2)"
    "forEach (syncResearchNode E al) RESEARCH_DEFINITIONS (Map.empty, e2) = Inr (nodes, e3)"
    "syncPrerequisites nodes e3 = Inr e4" "syncLinks al e4 = (n, d')" by blast
  have "syncing d d" using assms(2) by (simp add: syncing_def catalogueOnly_def tickOk_def)
  then have e1: "syncing d e1"
    using forEach_invariant [OF s(1), of "\<lambda>s. syncing d (snd s)"] syncItem_keeps by (metis prod.collapse snd_conv)
  have e2: "recipesPassed d (RECIPE_DEFINITIONS E) (fst (al, e2)) (snd (al, e2))"
  proof (rule forEach_passed [OF s(2), where P = "\<lambda>past s. recipesPassed d past (fst s) (snd s)"])
    show "recipesPassed d [] (fst ([], e1)) (snd ([], e1))" using e1 by (simp add: recipesPassed_def)
    fix past x rest t t'
    assume split: "RECIPE_DEFINITIONS E = past @ x # rest" and P: "recipesPassed d past (fst t) (snd t)"
      and run: "syncRecipe E items' x t = Inr t'"
    have "rdf_key x \<notin> rdf_key ` set past" "rdf_code x \<notin> rdf_code ` set past"
      using recipe_keys_distinct [of E] recipe_codes_distinct [of E] unfolding split by auto
    moreover have "recipeFits x" using catalogue_fits_recipes [of E] unfolding split by simp
    then have "0 \<le> rdf_outputQuantity x" by (simp add: recipeFits_def)
    ultimately show "recipesPassed d (past @ [x]) (fst t') (snd t')"
      using syncRecipe_step [of E items' x "fst t" "snd t" "fst t'" "snd t'"] run P by simp
  qed
  then have al: "syncing d e2" "map (\<lambda>x. rc_code (snd x)) al = map rdf_code (RECIPE_DEFINITIONS E)"
    "snd ` set al \<subseteq> set (recipes e2)" by (simp_all add: recipesPassed_def)
  have "recipesKept d e2 e2" using al(1) by (simp add: recipesKept_def syncing_def)
  then have "recipesKept d e2 e3"
    using forEach_invariant [OF s(3), of "\<lambda>s. recipesKept d e2 (snd s)"] syncResearchNode_keeps
    by (metis prod.collapse snd_conv)
  from syncPrerequisites_keeps [OF s(4) this]
  have e4: "catalogueOnly d e4" "recipes e4 = recipes e2" "recipeInputs e4 = recipeInputs e2" by (simp_all add: recipesKept_def)
  note same = catalogueOnlyD [OF e4(1)]
  from syncLinks_links [OF s(5)] obtain ls where d': "d' = e4\<lparr>companyRecipes := ls\<rparr>"
    and kept: "\<forall>l\<in>set (companyRecipes e4). \<exists>l'\<in>set ls. crKey l' = crKey l \<and> (cr_isUnlocked l \<longrightarrow> cr_isUnlocked l')"
    and links: "\<forall>c\<in>set (companies e4). \<forall>r\<in>snd ` set al. \<exists>l\<in>set ls. crKey l = (co_id c, rc_id r) \<and>
       (isRecipeAutoUnlocked (rc_code r) \<longrightarrow> cr_isUnlocked l)" by blast
  show "catalogueOnly (d\<lparr>companyRecipes := companyRecipes d'\<rparr>) d'"
    using e4(1) by (cases d; cases e4) (simp add: catalogueOnly_def d')
  have "marketOk d" using assms(2) by (simp add: tickOk_def)
  then have "marketOk d'" by (rule marketOk_same) (simp_all add: d' same)
  then show "tickOk d'"
    using assms(2) al(1) e4(2,3) by (simp add: tickOk_def d' same syncing_def recipesOk_def outputsOk_def)
  show "staffed d'" using assms(3) by (simp add: staffed_def d' same)
  show "unlockedKept d d'" using kept by (simp add: unlockedKept_def d' same)
  have "\<exists>r\<in>snd ` set al. rc_code r = rdf_code x" if "x \<in> set (RECIPE_DEFINITIONS E)" for x
  proof -
    have "rdf_code x \<in> set (map (\<lambda>x. rc_code (snd x)) al)" unfolding al(2) using that by simp
    then show ?thesis by force
  qed
  then have def: "\<exists>r\<in>snd ` set al. rc_code r = rdf_code x" if "x \<in> set (RECIPE_DEFINITIONS E)" for x using that by blast
  have "\<exists>r\<in>set (recipes d'). rc_code r = rdf_code x \<and> (\<exists>l\<in>set (companyRecipes d'). crKey l = (co_id c, rc_id r) \<and>
      (isRecipeAutoUnlocked (rdf_code x) \<longrightarrow> cr_isUnlocked l))"
    if c: "c \<in> set (companies d')" and x: "x \<in> set (RECIPE_DEFINITIONS E)" for c x
  proof -
    from def [OF x] obtain r where r: "r \<in> snd ` set al" "rc_code r = rdf_code x" by blast
    have "c \<in> set (companies e4)" "r \<in> set (recipes d')" using c r(1) al(3) by (auto simp: d' e4(2))
    with links r obtain l where "l \<in> set ls" "crKey l = (co_id c, rc_id r)"
      "isRecipeAutoUnlocked (rdf_code x) \<longrightarrow> cr_isUnlocked l" by metis
    moreover have "companyRecipes d' = ls" by (simp add: d')
    ultimately show ?thesis using r(2) \<open>r \<in> set (recipes d')\<close> by metis
  qed
  then show "linksComplete (RECIPE_DEFINITIONS E) d'" unfolding linksComplete_def by blast
qed

subsection \<open>Property\<close>

text \<open>
  C15. Synchronising the catalogue on a running world either changes nothing or writes the catalogue
  tables alone: cash, stock, orders and buildings are as before and the invariants of the tick hold.
  Afterwards every company has a link to every recipe of the catalogue, unlocked where the
  catalogue unlocks it, and no recipe a company had unlocked is locked again.
\<close>

theorem catalog_sync_keeps_world:
  assumes "tickOk d" and "staffed d"
  shows "case syncStaticCatalog E d of
      (Inl err, d') \<Rightarrow> d' = d
    | (Inr res, d') \<Rightarrow> catalogueOnly (d\<lparr>companyRecipes := companyRecipes d'\<rparr>) d' \<and> tickOk d' \<and> staffed d' \<and>
        unlockedKept d d' \<and> linksComplete (RECIPE_DEFINITIONS E) d'"
  using sync_effect [of E d _ _, OF _ assms]
  by (auto simp: syncStaticCatalog_def transaction_def split: sum.splits)

text \<open>The world a seed leaves satisfies the hypotheses.\<close>

lemma catalog_sync_keeps_world_witness:
  "\<exists>d. tickOk d \<and> staffed d \<and> totalCash d = 8700000 \<and>
   (case syncStaticCatalog seedEnv d of
      (Inl err, d') \<Rightarrow> d' = d
    | (Inr res, d') \<Rightarrow> catalogueOnly (d\<lparr>companyRecipes := companyRecipes d'\<rparr>) d' \<and> tickOk d' \<and> staffed d' \<and>
        unlockedKept d d' \<and> linksComplete (RECIPE_DEFINITIONS seedEnv) d')"
proof -
  from seedFresh_returns [OF seedEnv_ids refl, of True 0] obtain d where
    "tickOk d" "staffed d" "totalCash d = 8700000" by auto
  then show ?thesis by (intro exI [of _ d] conjI catalog_sync_keeps_world)
qed

end
