(* ===== verification/PlayerActions.thy ===== *)
theory PlayerActions
  imports Players MarketOrders Production Research Shipments Contracts Workforce Buildings ReadModels WorkerConfig
begin

section \<open>Requests of players\<close>

text \<open>
  The services of \<open>apps/api/src\<close> a controller calls with the id of the signed-in player: each
  resolves the player, checks that the company, order, job, shipment or building belongs to him
  and calls a service of the simulation. The wire format of the answers (amounts as text, dates
  as ISO strings, display names) is not modelled; an answer is the row it is made from.
\<close>

subsection \<open>Guards\<close>

definition asPlayer ::
    "string \<Rightarrow> (string \<Rightarrow> db \<Rightarrow> unit result) \<Rightarrow> (string \<Rightarrow> db \<Rightarrow> 'a result \<times> db) \<Rightarrow> db \<Rightarrow> 'a result \<times> db" where
  "asPlayer playerId check run d =
     (case andThen (resolvePlayerById playerId d) (\<lambda>player. andThen (check (pl_id player) d) (\<lambda>_. Inr player)) of
       Inl e \<Rightarrow> (Inl e, d)
     | Inr player \<Rightarrow> run (pl_id player) d)"

definition asOwner :: "string \<Rightarrow> string \<Rightarrow> (db \<Rightarrow> 'a result \<times> db) \<Rightarrow> db \<Rightarrow> 'a result \<times> db" where
  "asOwner playerId companyId run = asPlayer playerId (\<lambda>p. assertCompanyOwnedByPlayer p companyId) (\<lambda>_. run)"

text \<open>A query changes nothing.\<close>

definition query :: "(db \<Rightarrow> 'a result) \<Rightarrow> db \<Rightarrow> 'a result \<times> db" where
  "query f d = (f d, d)"

definition given :: "string option \<Rightarrow> bool" where
  "given x \<longleftrightarrow> x \<noteq> None \<and> x \<noteq> Some []"

subsection \<open>Market\<close>

record placeOrderRequest =
  rq_companyId :: string
  rq_itemId :: string
  rq_regionId :: "string option"
  rq_side :: orderSide
  rq_quantity :: jsnum
  rq_priceCents :: jsnum

definition MarketService_listOrders :: "string \<Rightarrow> marketOrderFilters \<Rightarrow> db \<Rightarrow> marketOrder list result \<times> db" where
  "MarketService_listOrders playerId filters =
     (if given (mf_companyId filters)
      then asOwner playerId (orDefault (mf_companyId filters) []) (query (listMarketOrders filters))
      else query (listMarketOrders filters))"

definition MarketService_placeOrder :: "env \<Rightarrow> string \<Rightarrow> placeOrderRequest \<Rightarrow> db \<Rightarrow> marketOrder result \<times> db" where
  "MarketService_placeOrder E playerId input = asOwner playerId (rq_companyId input) (\<lambda>d.
     if \<not> isInteger (rq_priceCents input)
     then (Inl (PlainError ''The number cannot be converted to a BigInt because it is not an integer''), d)
     else placeMarketOrder E
       \<lparr>po_companyId = rq_companyId input, po_itemId = rq_itemId input, po_regionId = rq_regionId input,
        po_side = rq_side input, po_quantity = rq_quantity input, po_unitPriceCents = num (rq_priceCents input),
        po_tick = None\<rparr> d)"

definition MarketService_cancelOrder :: "env \<Rightarrow> string \<Rightarrow> string \<Rightarrow> db \<Rightarrow> marketOrder result \<times> db" where
  "MarketService_cancelOrder E playerId orderId = asPlayer playerId (\<lambda>p. assertOrderOwnedByPlayer p orderId)
     (\<lambda>_. cancelMarketOrder E \<lparr>xo_orderId = orderId, xo_tick = None\<rparr>)"

definition MarketService_cancelOrderAsModerator :: "env \<Rightarrow> string \<Rightarrow> db \<Rightarrow> marketOrder result \<times> db" where
  "MarketService_cancelOrderAsModerator E orderId = cancelMarketOrder E \<lparr>xo_orderId = orderId, xo_tick = None\<rparr>"

subsection \<open>Production\<close>

datatype productionJobStatusFilter = FilterRUNNING | FilterCOMPLETED | FilterCANCELLED

fun mapJobStatusToApi :: "productionJobStatus \<Rightarrow> productionJobStatusFilter" where
  "mapJobStatusToApi JobIN_PROGRESS = FilterRUNNING"
| "mapJobStatusToApi JobCOMPLETED = FilterCOMPLETED"
| "mapJobStatusToApi JobCANCELLED = FilterCANCELLED"
| "mapJobStatusToApi JobQUEUED = FilterRUNNING"

definition mapApiStatusToJobStatus :: "productionJobStatusFilter option \<Rightarrow> productionJobStatus option" where
  "mapApiStatusToJobStatus status =
     (case status of
       Some FilterRUNNING \<Rightarrow> Some JobIN_PROGRESS
     | Some FilterCOMPLETED \<Rightarrow> Some JobCOMPLETED
     | Some FilterCANCELLED \<Rightarrow> Some JobCANCELLED
     | None \<Rightarrow> None)"

definition ProductionService_listRecipes :: "env \<Rightarrow> string \<Rightarrow> string option \<Rightarrow> db \<Rightarrow> recipe list result \<times> db" where
  "ProductionService_listRecipes E playerId companyId =
     (let list = query (\<lambda>d. Inr (listRecipes E companyId d)) in
      if given companyId then asOwner playerId (orDefault companyId []) list else list)"

definition ProductionService_listJobs ::
    "string \<Rightarrow> string option \<Rightarrow> productionJobStatusFilter option \<Rightarrow> jsnum option \<Rightarrow> db \<Rightarrow>
     productionJob list result \<times> db" where
  "ProductionService_listJobs playerId companyId status limit = asPlayer playerId
     (\<lambda>p. if given companyId then assertCompanyOwnedByPlayer p (orDefault companyId []) else (\<lambda>_. Inr ()))
     (\<lambda>_. query (listProductionJobs
       \<lparr>jf_companyId = companyId, jf_status = mapApiStatusToJobStatus status, jf_limit = limit\<rparr>))"

definition ProductionService_createJob ::
    "env \<Rightarrow> string \<Rightarrow> string \<Rightarrow> string \<Rightarrow> jsnum \<Rightarrow> db \<Rightarrow> productionJob result \<times> db" where
  "ProductionService_createJob E playerId companyId recipeId quant = asOwner playerId companyId
     (createProductionJob E
       \<lparr>sj_companyId = companyId, sj_recipeId = recipeId, sj_quantity = quant, sj_tick = None\<rparr>)"

definition ProductionService_cancelJob :: "env \<Rightarrow> string \<Rightarrow> string \<Rightarrow> db \<Rightarrow> productionJob result \<times> db" where
  "ProductionService_cancelJob E playerId jobId = asPlayer playerId (\<lambda>p. assertProductionJobOwnedByPlayer p jobId)
     (\<lambda>_. cancelProductionJob E \<lparr>xj_jobId = jobId, xj_tick = None\<rparr>)"

subsection \<open>Contracts\<close>

definition ContractsService_listContracts ::
    "string \<Rightarrow> contractStatus option \<Rightarrow> string option \<Rightarrow> jsnum option \<Rightarrow> db \<Rightarrow> contract list result \<times> db" where
  "ContractsService_listContracts playerId status itemId limit = asPlayer playerId (\<lambda>_ _. Inr ())
     (\<lambda>p. query (listContractsForPlayer
       \<lparr>lc_playerId = p, lc_status = status, lc_itemId = itemId, lc_limit = limit\<rparr>))"

definition ContractsService_acceptContract ::
    "string \<Rightarrow> string \<Rightarrow> string \<Rightarrow> db \<Rightarrow> contract result \<times> db" where
  "ContractsService_acceptContract playerId contractId sellerCompanyId = asOwner playerId sellerCompanyId
     (acceptContract \<lparr>ac_contractId = contractId, ac_sellerCompanyId = sellerCompanyId, ac_tick = None\<rparr>)"

definition ContractsService_fulfillContract ::
    "env \<Rightarrow> string \<Rightarrow> string \<Rightarrow> string \<Rightarrow> jsnum \<Rightarrow> db \<Rightarrow> (contract \<times> contractFulfillment) result \<times> db" where
  "ContractsService_fulfillContract E playerId contractId sellerCompanyId quant = asOwner playerId sellerCompanyId
     (fulfillContract E
       \<lparr>fc_contractId = contractId, fc_sellerCompanyId = sellerCompanyId, fc_quantity = quant, fc_tick = None\<rparr>)"

subsection \<open>Shipments\<close>

definition parseNonNegativeBigIntEnv :: "environ \<Rightarrow> string \<Rightarrow> int \<Rightarrow> int result" where
  "parseNonNegativeBigIntEnv v name fallback =
     (case rawEnv v name of
       None \<Rightarrow> Inr fallback
     | Some raw \<Rightarrow>
       (case stringToBigInt raw of
         None \<Rightarrow> Inl (PlainError (''Cannot convert '' @ raw @ '' to a BigInt''))
       | Some parsed \<Rightarrow>
         if parsed < 0 then Inl (PlainError (name @ '' must be a non-negative integer'')) else Inr parsed))"

definition resolveShipmentConfig :: "environ \<Rightarrow> shipmentOverrides result" where
  "resolveShipmentConfig v =
     andThen (parseNonNegativeBigIntEnv v ''SHIPMENT_BASE_FEE_CENTS'' 250) (\<lambda>base.
     andThen (parseNonNegativeBigIntEnv v ''SHIPMENT_FEE_PER_UNIT_CENTS'' 15) (\<lambda>perUnit.
     Inr \<lparr>over_baseFeeCents = Some base, over_feePerUnitCents = Some perUnit\<rparr>))"

definition ShipmentsService_list ::
    "string \<Rightarrow> string option \<Rightarrow> shipmentStatus option \<Rightarrow> jsnum option \<Rightarrow> db \<Rightarrow> shipment list result \<times> db" where
  "ShipmentsService_list playerId companyId status limit = asPlayer playerId
     (\<lambda>p. if given companyId then assertCompanyOwnedByPlayer p (orDefault companyId []) else (\<lambda>_. Inr ()))
     (\<lambda>p. query (listShipments
       \<lparr>ls_playerId = Some p, ls_companyId = companyId, ls_status = status, ls_limit = limit\<rparr>))"

definition ShipmentsService_create ::
    "env \<Rightarrow> environ \<Rightarrow> string \<Rightarrow> string \<Rightarrow> string \<Rightarrow> string \<Rightarrow> jsnum \<Rightarrow> db \<Rightarrow> shipment result \<times> db" where
  "ShipmentsService_create E v playerId companyId toRegionId itemId quant = asOwner playerId companyId (\<lambda>d.
     case resolveShipmentConfig v of
       Inl e \<Rightarrow> (Inl e, d)
     | Inr config \<Rightarrow> createShipment E
         \<lparr>cs_companyId = companyId, cs_toRegionId = toRegionId, cs_itemId = itemId, cs_quantity = quant, cs_tick = None\<rparr>
         config d)"

definition ShipmentsService_cancel :: "string \<Rightarrow> string \<Rightarrow> db \<Rightarrow> shipment result \<times> db" where
  "ShipmentsService_cancel playerId shipmentId = asPlayer playerId (\<lambda>p. assertShipmentOwnedByPlayer p shipmentId)
     (\<lambda>_. cancelShipment \<lparr>xs_shipmentId = shipmentId, xs_tick = None\<rparr>)"

subsection \<open>Research\<close>

text \<open>Without a company the first company of the player stands in.\<close>

definition resolveOwnedCompanyId :: "string \<Rightarrow> string option \<Rightarrow> db \<Rightarrow> string result" where
  "resolveOwnedCompanyId playerId companyId d =
     (if given companyId
      then andThen (assertCompanyOwnedByPlayer playerId (orDefault companyId []) d) (\<lambda>_. Inr (orDefault companyId []))
      else
        (case listCompaniesOwnedByPlayer playerId d of
          [] \<Rightarrow> Inl (DomainInvariantError ''current player has no owned company'')
        | (first, _) # _ \<Rightarrow> Inr (co_id first)))"

definition withOwnedCompany ::
    "string \<Rightarrow> string option \<Rightarrow> (string \<Rightarrow> db \<Rightarrow> 'a result \<times> db) \<Rightarrow> db \<Rightarrow> 'a result \<times> db" where
  "withOwnedCompany playerId companyId run d =
     (case andThen (resolvePlayerById playerId d) (\<lambda>player. resolveOwnedCompanyId (pl_id player) companyId d) of
       Inl e \<Rightarrow> (Inl e, d)
     | Inr cid \<Rightarrow> run cid d)"

definition resolveAdminCatalogCompanyId :: "string option \<Rightarrow> db \<Rightarrow> string result" where
  "resolveAdminCatalogCompanyId companyId d =
     (if given companyId then Inr (orDefault companyId [])
      else
        (case sortBy (cmpKey co_createdAt) (filter (\<lambda>c. co_isPlayer c \<and> co_ownerPlayerId c \<noteq> None) (companies d)) of
          [] \<Rightarrow> Inl (DomainInvariantError ''no player-owned companies available for research catalog'')
        | first # _ \<Rightarrow> Inr (co_id first)))"

definition ResearchService_listResearch ::
    "env \<Rightarrow> string \<Rightarrow> string option \<Rightarrow> db \<Rightarrow> (string \<times> researchNodeView list) result \<times> db" where
  "ResearchService_listResearch E playerId companyId = withOwnedCompany playerId companyId
     (\<lambda>cid. query (\<lambda>d. andThen (listResearchForCompany E cid d) (\<lambda>nodes. Inr (cid, nodes))))"

definition ResearchService_listResearchForAdminCatalog ::
    "env \<Rightarrow> string option \<Rightarrow> db \<Rightarrow> (string \<times> researchNodeView list) result \<times> db" where
  "ResearchService_listResearchForAdminCatalog E companyId = query (\<lambda>d.
     andThen (resolveAdminCatalogCompanyId companyId d) (\<lambda>cid.
     andThen (listResearchForCompany E cid d) (\<lambda>nodes. Inr (cid, nodes))))"

definition ResearchService_startNode ::
    "env \<Rightarrow> string \<Rightarrow> string \<Rightarrow> string option \<Rightarrow> db \<Rightarrow> researchJob result \<times> db" where
  "ResearchService_startNode E playerId nodeId companyId = withOwnedCompany playerId companyId
     (\<lambda>cid. startResearch E \<lparr>re_companyId = cid, re_nodeId = nodeId, re_tick = None\<rparr>)"

definition ResearchService_cancelNode ::
    "env \<Rightarrow> string \<Rightarrow> string \<Rightarrow> string option \<Rightarrow> db \<Rightarrow> researchJob result \<times> db" where
  "ResearchService_cancelNode E playerId nodeId companyId = withOwnedCompany playerId companyId
     (\<lambda>cid. cancelResearch E \<lparr>re_companyId = cid, re_nodeId = nodeId, re_tick = None\<rparr>)"

subsection \<open>Workforce, companies and finance\<close>

definition WorkforceService_getCompanyWorkforce ::
    "string \<Rightarrow> string \<Rightarrow> db \<Rightarrow> companyWorkforceSnapshot result \<times> db" where
  "WorkforceService_getCompanyWorkforce playerId companyId =
     asOwner playerId companyId (query (getCompanyWorkforce companyId))"

definition WorkforceService_setAllocation ::
    "string \<Rightarrow> string \<Rightarrow> workforceAllocation \<Rightarrow> db \<Rightarrow> companyWorkforceSnapshot result \<times> db" where
  "WorkforceService_setAllocation playerId companyId input =
     asOwner playerId companyId (setCompanyWorkforceAllocation companyId input)"

definition WorkforceService_requestCapacityChange ::
    "env \<Rightarrow> string \<Rightarrow> string \<Rightarrow> jsnum \<Rightarrow> db \<Rightarrow> capacityChangeResult result \<times> db" where
  "WorkforceService_requestCapacityChange E playerId companyId deltaCapacity =
     asOwner playerId companyId (requestCompanyWorkforceCapacityChange E companyId deltaCapacity id)"

text \<open>The list of all companies shows the cash of the player's own only.\<close>

definition CompaniesService_listCompanies :: "string \<Rightarrow> db \<Rightarrow> (companySummary \<times> int option) list" where
  "CompaniesService_listCompanies playerId d =
     map (\<lambda>c. (c, if cv_ownerPlayerId c = Some playerId then Some (cv_cashCents c) else None)) (listCompanies d)"

definition CompaniesService_listMyCompanies :: "string \<Rightarrow> db \<Rightarrow> (company \<times> region option) list result \<times> db" where
  "CompaniesService_listMyCompanies playerId = asPlayer playerId (\<lambda>_ _. Inr ())
     (\<lambda>p. query (\<lambda>d. Inr (listCompaniesOwnedByPlayer p d)))"

definition CompaniesService_getCompany :: "string \<Rightarrow> string \<Rightarrow> db \<Rightarrow> companyDetails result \<times> db" where
  "CompaniesService_getCompany playerId companyId = asOwner playerId companyId (query (getCompanyById companyId))"

definition CompaniesService_getInventory ::
    "env \<Rightarrow> string \<Rightarrow> string \<Rightarrow> string option \<Rightarrow> db \<Rightarrow> inventory list result \<times> db" where
  "CompaniesService_getInventory E playerId companyId regionId =
     asOwner playerId companyId (query (listCompanyInventory E companyId regionId))"

definition CompaniesService_setSpecialization ::
    "env \<Rightarrow> int \<Rightarrow> string \<Rightarrow> string \<Rightarrow> string option \<Rightarrow> db \<Rightarrow> companyDetails result \<times> db" where
  "CompaniesService_setSpecialization E cooldownHours playerId companyId specialization =
     asOwner playerId companyId (setCompanySpecialization E cooldownHours
       \<lparr>ss_companyId = companyId, ss_specialization = specialization\<rparr>)"

definition FinanceService_listLedger :: "env \<Rightarrow> string \<Rightarrow> companyLedgerFilters \<Rightarrow> db \<Rightarrow> ledgerPage result \<times> db" where
  "FinanceService_listLedger E playerId filters =
     asOwner playerId (lf_companyId filters) (query (getCompanyLedger E filters))"

definition FinanceService_getSummary ::
    "env \<Rightarrow> string \<Rightarrow> string \<Rightarrow> jsnum option \<Rightarrow> db \<Rightarrow> financeSummary result \<times> db" where
  "FinanceService_getSummary E playerId companyId windowTicks =
     asOwner playerId companyId (query (getFinanceSummary E companyId windowTicks))"

subsection \<open>Buildings\<close>

record buildingTypeDefinition =
  bt_category :: string
  bt_name :: string
  bt_description :: string
  bt_acquisitionCostCents :: string
  bt_weeklyOperatingCostCents :: string
  bt_capacitySlots :: int
  bt_storageCapacity :: "int option"

fun BUILDING_DEFINITIONS :: "buildingType \<Rightarrow> buildingTypeDefinition" where
  "BUILDING_DEFINITIONS WORKSHOP =
     \<lparr>bt_category = ''PRODUCTION'', bt_name = ''Workshop'',
      bt_description = ''Small-scale production facility for beginners'',
      bt_acquisitionCostCents = ''2500000'', bt_weeklyOperatingCostCents = ''150000'',
      bt_capacitySlots = 1, bt_storageCapacity = None\<rparr>"
| "BUILDING_DEFINITIONS MINE =
     \<lparr>bt_category = ''PRODUCTION'', bt_name = ''Mine'',
      bt_description = ''Extract raw materials from the earth'',
      bt_acquisitionCostCents = ''10000000'', bt_weeklyOperatingCostCents = ''500000'',
      bt_capacitySlots = 2, bt_storageCapacity = None\<rparr>"
| "BUILDING_DEFINITIONS FARM =
     \<lparr>bt_category = ''PRODUCTION'', bt_name = ''Farm'',
      bt_description = ''Grow and harvest agricultural products'',
      bt_acquisitionCostCents = ''8000000'', bt_weeklyOperatingCostCents = ''400000'',
      bt_capacitySlots = 2, bt_storageCapacity = None\<rparr>"
| "BUILDING_DEFINITIONS FACTORY =
     \<lparr>bt_category = ''PRODUCTION'', bt_name = ''Factory'',
      bt_description = ''Process materials into finished goods'',
      bt_acquisitionCostCents = ''25000000'', bt_weeklyOperatingCostCents = ''1200000'',
      bt_capacitySlots = 3, bt_storageCapacity = None\<rparr>"
| "BUILDING_DEFINITIONS MEGA_FACTORY =
     \<lparr>bt_category = ''PRODUCTION'', bt_name = ''Mega Factory'',
      bt_description = ''High-capacity industrial production facility'',
      bt_acquisitionCostCents = ''100000000'', bt_weeklyOperatingCostCents = ''5000000'',
      bt_capacitySlots = 10, bt_storageCapacity = None\<rparr>"
| "BUILDING_DEFINITIONS WAREHOUSE =
     \<lparr>bt_category = ''STORAGE'', bt_name = ''Warehouse'',
      bt_description = ''Store inventory beyond base capacity'',
      bt_acquisitionCostCents = ''15000000'', bt_weeklyOperatingCostCents = ''800000'',
      bt_capacitySlots = 1, bt_storageCapacity = Some WAREHOUSE_CAPACITY_PER_SLOT\<rparr>"
| "BUILDING_DEFINITIONS HEADQUARTERS =
     \<lparr>bt_category = ''CORPORATE'', bt_name = ''Headquarters'',
      bt_description = ''Corporate management and strategic operations'',
      bt_acquisitionCostCents = ''50000000'', bt_weeklyOperatingCostCents = ''2500000'',
      bt_capacitySlots = 1, bt_storageCapacity = None\<rparr>"
| "BUILDING_DEFINITIONS RND_CENTER =
     \<lparr>bt_category = ''CORPORATE'', bt_name = ''R&D Center'',
      bt_description = ''Research and development facility'',
      bt_acquisitionCostCents = ''30000000'', bt_weeklyOperatingCostCents = ''1500000'',
      bt_capacitySlots = 1, bt_storageCapacity = None\<rparr>"

text \<open>\<open>BigInt(text)\<close>, which throws on text that is no number.\<close>

definition BigInt :: "string \<Rightarrow> int result" where
  "BigInt raw =
     (case stringToBigInt raw of
       None \<Rightarrow> Inl (PlainError (''Cannot convert '' @ raw @ '' to a BigInt''))
     | Some n \<Rightarrow> Inr n)"

text \<open>The order of the enum's values in the database: a migration appends \<open>WORKSHOP\<close> to the first seven.\<close>

definition buildingTypeRank :: "buildingType \<Rightarrow> int" where
  "buildingTypeRank t = (case t of MINE \<Rightarrow> 0 | FARM \<Rightarrow> 1 | FACTORY \<Rightarrow> 2 | MEGA_FACTORY \<Rightarrow> 3 | WAREHOUSE \<Rightarrow> 4
     | HEADQUARTERS \<Rightarrow> 5 | RND_CENTER \<Rightarrow> 6 | WORKSHOP \<Rightarrow> 7)"

definition BuildingsService_listBuildings ::
    "env \<Rightarrow> string \<Rightarrow> string \<Rightarrow> string option \<Rightarrow> buildingStatus option \<Rightarrow> db \<Rightarrow> building list result \<times> db" where
  "BuildingsService_listBuildings E playerId companyId regionId status = asOwner playerId companyId (query (\<lambda>d.
     Inr (sortBy (cmpThen (\<lambda>x y. env_textCompare E (bd_regionId x) (bd_regionId y))
            (cmpThen (cmpKey (\<lambda>b. buildingTypeRank (bd_buildingType b))) (cmpKey bd_createdAt)))
       (filter (\<lambda>b. bd_companyId b = companyId \<and> (given regionId \<longrightarrow> Some (bd_regionId b) = regionId) \<and>
          (case status of None \<Rightarrow> True | Some st \<Rightarrow> bd_status b = st)) (buildings d)))))"

definition BuildingsService_acquireBuilding ::
    "env \<Rightarrow> string \<Rightarrow> string \<Rightarrow> string \<Rightarrow> buildingType \<Rightarrow> string option \<Rightarrow> db \<Rightarrow> building result \<times> db" where
  "BuildingsService_acquireBuilding E playerId companyId regionId buildingType name = asOwner playerId companyId (\<lambda>d.
     (let definition' = BUILDING_DEFINITIONS buildingType; currentTick = worldTick d in
      transaction (\<lambda>d.
        andThen (BigInt (bt_acquisitionCostCents definition')) (\<lambda>acquisition.
        andThen (BigInt (bt_weeklyOperatingCostCents definition')) (\<lambda>weekly.
        acquireBuildingWithTx E
          \<lparr>ab_companyId = companyId, ab_regionId = regionId, ab_buildingType = buildingType,
           ab_acquisitionCostCents = acquisition, ab_weeklyOperatingCostCents = weekly,
           ab_capacitySlots = Some (bt_capacitySlots definition'), ab_tick = currentTick, ab_name = name\<rparr> d))) d))"

text \<open>The building is looked up before the player is.\<close>

definition BuildingsService_reactivateBuilding :: "string \<Rightarrow> string \<Rightarrow> db \<Rightarrow> building result \<times> db" where
  "BuildingsService_reactivateBuilding playerId buildingId d =
     (case rowFind bd_id buildingId (buildings d) of
       None \<Rightarrow> (Inl recordNotFound, d)
     | Some b \<Rightarrow> asOwner playerId (bd_companyId b)
         (\<lambda>d. transaction (reactivateBuildingWithTx buildingId (worldTick d)) d) d)"

record regionalStorageInfo =
  si_currentUsage :: int
  si_maxCapacity :: int
  si_warehouseCount :: int

definition storageCapacityOf :: "string \<Rightarrow> string \<Rightarrow> db \<Rightarrow> int result" where
  "storageCapacityOf companyId regionId d =
     calculateRegionalStorageCapacity (IntN (warehouses companyId regionId d)) (IntN WAREHOUSE_CAPACITY_PER_SLOT)
       (IntN BASE_STORAGE_CAPACITY_PER_REGION)"

definition BuildingsService_getRegionalStorageInfo ::
    "string \<Rightarrow> string \<Rightarrow> string \<Rightarrow> db \<Rightarrow> regionalStorageInfo result \<times> db" where
  "BuildingsService_getRegionalStorageInfo playerId companyId regionId = asOwner playerId companyId (query (\<lambda>d.
     andThen (storageCapacityOf companyId regionId d) (\<lambda>maxCapacity.
     Inr \<lparr>si_currentUsage = regionStock companyId regionId d, si_maxCapacity = maxCapacity,
          si_warehouseCount = warehouses companyId regionId d\<rparr>)))"

definition BuildingsService_getProductionCapacityInfo ::
    "string \<Rightarrow> string \<Rightarrow> db \<Rightarrow> (int \<times> int \<times> int) result \<times> db" where
  "BuildingsService_getProductionCapacityInfo playerId companyId = asOwner playerId companyId (query (\<lambda>d.
     (let (totalCapacity, usedCapacity) = getProductionCapacityForCompany companyId d in
      Inr (totalCapacity, usedCapacity, totalCapacity - usedCapacity))))"

text \<open>\<open>Object.entries\<close> gives the entries in the order they are written.\<close>

definition BuildingsService_getBuildingTypeDefinitions :: "(buildingType \<times> buildingTypeDefinition) list" where
  "BuildingsService_getBuildingTypeDefinitions =
     map (\<lambda>t. (t, BUILDING_DEFINITIONS t)) [WORKSHOP, MINE, FARM, FACTORY, MEGA_FACTORY, WAREHOUSE, HEADQUARTERS, RND_CENTER]"

subsection \<open>Checks ahead of a request\<close>

text \<open>
  The issues a request would meet; their texts, which only repeat the numbers, are left out. The
  comparisons with 0.8 and 0.95 of the capacity are exact in the code, too: a capacity is a
  multiple of 500, so both products are whole numbers.
\<close>

datatype issueCode =
  NO_ACTIVE_BUILDING | BUILDING_CAPACITY_FULL | INSUFFICIENT_STORAGE | STORAGE_CRITICAL | STORAGE_WARNING |
  VALIDATION_ERROR

datatype issueSeverity = SeverityERROR | SeverityWARNING

definition preflightValid :: "(issueCode \<times> issueSeverity) list \<Rightarrow> bool" where
  "preflightValid found \<longleftrightarrow> \<not> list_ex (\<lambda>(_, severity). severity = SeverityERROR) found"

text \<open>\<open>catch\<close>: an error thrown while checking is an issue itself.\<close>

definition caught ::
    "(issueCode \<times> issueSeverity) list \<Rightarrow> (issueCode \<times> issueSeverity) list result \<Rightarrow> (issueCode \<times> issueSeverity) list" where
  "caught found more' = found @ (case more' of Inl _ \<Rightarrow> [(VALIDATION_ERROR, SeverityERROR)] | Inr rest \<Rightarrow> rest)"

definition productionIssues :: "string \<Rightarrow> string \<Rightarrow> int \<Rightarrow> db \<Rightarrow> (issueCode \<times> issueSeverity) list" where
  "productionIssues companyId recipeId quant d =
     (let activeBuildingCount = countWhere (isActiveProductionBuilding companyId) (buildings d);
          (totalCapacity, usedCapacity) = getProductionCapacityForCompany companyId d in
      caught
        ((if activeBuildingCount = 0 then [(NO_ACTIVE_BUILDING, SeverityERROR)] else []) @
         (if usedCapacity \<ge> totalCapacity then [(BUILDING_CAPACITY_FULL, SeverityERROR)] else []))
        (case (rowFind rc_id recipeId (recipes d), findCompany companyId d) of
          (Some recipe, Some company) \<Rightarrow>
            andThen (storageCapacityOf companyId (co_regionId company) d) (\<lambda>capacity.
            (let after' = regionStock companyId (co_regionId company) d + rc_outputQuantity recipe * quant in
             Inr (if after' > capacity then [(INSUFFICIENT_STORAGE, SeverityERROR)]
                  else if 5 * after' > 4 * capacity then [(STORAGE_WARNING, SeverityWARNING)] else [])))
        | _ \<Rightarrow> Inr []))"

definition BuildingsService_preflightProductionJob ::
    "string \<Rightarrow> string \<Rightarrow> string \<Rightarrow> int \<Rightarrow> db \<Rightarrow> (bool \<times> (issueCode \<times> issueSeverity) list) result \<times> db" where
  "BuildingsService_preflightProductionJob playerId companyId recipeId quant = asOwner playerId companyId (query (\<lambda>d.
     (let found = productionIssues companyId recipeId quant d in Inr (preflightValid found, found))))"

definition buyOrderIssues :: "string \<Rightarrow> string \<Rightarrow> int \<Rightarrow> db \<Rightarrow> (issueCode \<times> issueSeverity) list" where
  "buyOrderIssues companyId regionId quant d =
     caught [] (andThen (storageCapacityOf companyId regionId d) (\<lambda>capacity.
       (let after' = regionStock companyId regionId d + quant in
        Inr (if after' > capacity then [(INSUFFICIENT_STORAGE, SeverityERROR)]
             else if 20 * after' > 19 * capacity then [(STORAGE_CRITICAL, SeverityWARNING)]
             else if 5 * after' > 4 * capacity then [(STORAGE_WARNING, SeverityWARNING)] else []))))"

definition BuildingsService_preflightBuyOrder ::
    "string \<Rightarrow> string \<Rightarrow> string \<Rightarrow> int \<Rightarrow> db \<Rightarrow> (bool \<times> (issueCode \<times> issueSeverity) list) result \<times> db" where
  "BuildingsService_preflightBuyOrder playerId companyId regionId quant = asOwner playerId companyId (query (\<lambda>d.
     (let found = buyOrderIssues companyId regionId quant d in Inr (preflightValid found, found))))"

subsection \<open>Requests\<close>

text \<open>What a signed-in player can ask for that changes the world.\<close>

datatype playerRequest =
    PlaceOrder placeOrderRequest
  | CancelOrder string
  | CreateJob string string jsnum
  | CancelJob string
  | AcceptContract string string
  | FulfillContract string string jsnum
  | CreateShipment string string string jsnum
  | CancelShipment string
  | StartNode string "string option"
  | CancelNode string "string option"
  | SetAllocation string workforceAllocation
  | RequestCapacityChange string jsnum
  | SetSpecialization string "string option"
  | AcquireBuilding string string buildingType "string option"
  | ReactivateBuilding string

definition answered :: "'a result \<times> db \<Rightarrow> unit result \<times> db" where
  "answered m = (case m of (Inl e, d) \<Rightarrow> (Inl e, d) | (Inr _, d) \<Rightarrow> (Inr (), d))"

fun serve :: "env \<Rightarrow> environ \<Rightarrow> int \<Rightarrow> string \<Rightarrow> playerRequest \<Rightarrow> db \<Rightarrow> unit result \<times> db" where
  "serve E v hours p (PlaceOrder input) d = answered (MarketService_placeOrder E p input d)"
| "serve E v hours p (CancelOrder oid) d = answered (MarketService_cancelOrder E p oid d)"
| "serve E v hours p (CreateJob cid rid n) d = answered (ProductionService_createJob E p cid rid n d)"
| "serve E v hours p (CancelJob jid) d = answered (ProductionService_cancelJob E p jid d)"
| "serve E v hours p (AcceptContract k cid) d = answered (ContractsService_acceptContract p k cid d)"
| "serve E v hours p (FulfillContract k cid n) d = answered (ContractsService_fulfillContract E p k cid n d)"
| "serve E v hours p (CreateShipment cid rid iid n) d = answered (ShipmentsService_create E v p cid rid iid n d)"
| "serve E v hours p (CancelShipment sid) d = answered (ShipmentsService_cancel p sid d)"
| "serve E v hours p (StartNode nid cid) d = answered (ResearchService_startNode E p nid cid d)"
| "serve E v hours p (CancelNode nid cid) d = answered (ResearchService_cancelNode E p nid cid d)"
| "serve E v hours p (SetAllocation cid a) d = answered (WorkforceService_setAllocation p cid a d)"
| "serve E v hours p (RequestCapacityChange cid n) d = answered (WorkforceService_requestCapacityChange E p cid n d)"
| "serve E v hours p (SetSpecialization cid sp) d = answered (CompaniesService_setSpecialization E hours p cid sp d)"
| "serve E v hours p (AcquireBuilding cid rid t name) d = answered (BuildingsService_acquireBuilding E p cid rid t name d)"
| "serve E v hours p (ReactivateBuilding bid) d = answered (BuildingsService_reactivateBuilding p bid d)"


subsection \<open>What the checks promise\<close>

lemma storageCapacityOf_eq [simp]:
  "storageCapacityOf cid rid d = Inr (BASE_STORAGE_CAPACITY_PER_REGION + warehouses cid rid d * WAREHOUSE_CAPACITY_PER_SLOT)"
  by (simp add: storageCapacityOf_def calculateRegionalStorageCapacity_def warehouses_def countWhere_def
      WAREHOUSE_CAPACITY_PER_SLOT_def BASE_STORAGE_CAPACITY_PER_REGION_def)

lemma validateStorageCapacity_fits:
  "cid \<noteq> [] \<Longrightarrow> rid \<noteq> [] \<Longrightarrow> 0 \<le> n \<Longrightarrow>
   validateStorageCapacity cid rid (IntN n) d = Inr () \<longleftrightarrow>
   regionStock cid rid d + n \<le> BASE_STORAGE_CAPACITY_PER_REGION + warehouses cid rid d * WAREHOUSE_CAPACITY_PER_SLOT"
  by (auto simp: validateStorageCapacity_def Let_def calculateRegionalStorageCapacity_def warehouses_def countWhere_def
      WAREHOUSE_CAPACITY_PER_SLOT_def BASE_STORAGE_CAPACITY_PER_REGION_def)

lemma preflightValid_simps [simp]:
  "preflightValid []" "preflightValid (x # xs) \<longleftrightarrow> snd x \<noteq> SeverityERROR \<and> preflightValid xs"
  "preflightValid (xs @ ys) \<longleftrightarrow> preflightValid xs \<and> preflightValid ys"
  by (auto simp: preflightValid_def split: prod.splits)

lemma requirements_nonneg:
  assumes "recipeRequirements E rid runs d = Inr reqs"
  shows "0 \<le> (\<Sum>(i, q)\<leftarrow>reqs. q)"
  using requirements_facts(1) [OF assms] by (intro sum_list_nonneg) auto

text \<open>
  C13. The checks ahead of a request are cautious. A purchase is reported valid exactly when
  \<open>validateStorageCapacity\<close>, the check a trade makes for its buyer, accepts the goods in the region. A
  production job of a known recipe and company is reported valid exactly when
  \<open>validateProductionBuildingAvailable\<close>, the check of a start, accepts the company, a slot is free and
  the stock of the company's region with the whole output added fits its storage. The completion of the
  job looks at the output less the inputs, and only if that is positive; so it accepts every job
  reported valid, and refuses one exactly when a positive net change does not fit.
\<close>

theorem preflight_cautious:
  assumes "cid \<noteq> []" "reg \<noteq> []" "0 \<le> n"
    and "rowFind rc_id rid (recipes d) = Some r" "0 \<le> rc_outputQuantity r"
    and "findCompany cid d = Some c" "co_regionId c \<noteq> []"
    and "recipeRequirements E rid (IntN n) d = Inr reqs"
  shows "(preflightValid (buyOrderIssues cid reg n d) \<longleftrightarrow> validateStorageCapacity cid reg (IntN n) d = Inr ()) \<and>
    (preflightValid (productionIssues cid rid n d) \<longleftrightarrow>
       validateProductionBuildingAvailable cid d = Inr () \<and>
       snd (getProductionCapacityForCompany cid d) < fst (getProductionCapacityForCompany cid d) \<and>
       regionStock cid (co_regionId c) d + rc_outputQuantity r * n \<le>
         BASE_STORAGE_CAPACITY_PER_REGION + warehouses cid (co_regionId c) d * WAREHOUSE_CAPACITY_PER_SLOT) \<and>
    (preflightValid (productionIssues cid rid n d) \<longrightarrow>
       checkJobStorage cid (co_regionId c) (rc_outputQuantity r * n) reqs d = Inr ()) \<and>
    (checkJobStorage cid (co_regionId c) (rc_outputQuantity r * n) reqs d = Inr () \<longleftrightarrow>
       (let net = rc_outputQuantity r * n - (\<Sum>(i, q)\<leftarrow>reqs. q) in
        net \<le> 0 \<or> regionStock cid (co_regionId c) d + net \<le>
          BASE_STORAGE_CAPACITY_PER_REGION + warehouses cid (co_regionId c) d * WAREHOUSE_CAPACITY_PER_SLOT))"
    (is "?buy \<and> (?valid \<longleftrightarrow> ?checks) \<and> (?valid \<longrightarrow> ?completes) \<and> (?completes \<longleftrightarrow> ?fits)")
proof -
  have ?buy using assms(1-3) by (simp add: buyOrderIssues_def caught_def Let_def validateStorageCapacity_fits)
  moreover have "?valid \<longleftrightarrow> ?checks"
    using assms(1,3-7) by (simp add: productionIssues_def caught_def Let_def
        validateProductionBuildingAvailable_def not_le split: prod.splits)
  moreover have "?completes \<longleftrightarrow> ?fits"
    using assms(1,7) by (auto simp: checkJobStorage_def Let_def validateStorageCapacity_fits)
  ultimately show ?thesis using requirements_nonneg [OF assms(8)] by (auto simp: Let_def)
qed

text \<open>The region of company \<open>a\<close> holds 85 units and can hold 1000: room for 915 more, not for 916.\<close>

lemma preflight_cautious_witness:
  "preflightValid (buyOrderIssues ''a'' ''r1'' 915 fixtureDb) \<and>
   \<not> preflightValid (buyOrderIssues ''a'' ''r1'' 916 fixtureDb) \<and>
   preflightValid (productionIssues ''a'' ''smelt'' 915 fixtureDb) \<and>
   \<not> preflightValid (productionIssues ''a'' ''smelt'' 916 fixtureDb)"
proof -
  obtain r where r: "rowFind rc_id ''smelt'' (recipes fixtureDb) = Some r"
    "r = \<lparr>rc_id = ''smelt'', rc_code = ''SMELT_IRON'', rc_name = ''Smelt Iron'',
       rc_durationTicks = 3, rc_outputItemId = ''ingot'', rc_outputQuantity = 1\<rparr>"
    by (simp add: fixtureDb_def)
  have c: "findCompany ''a'' fixtureDb = Some (mkCompany ''a'' True ''r1'' 100000 600)" by code_simp
  have reg: "co_regionId (mkCompany ''a'' True ''r1'' 100000 600) = ''r1''" by code_simp
  have store: "returns (validateStorageCapacity ''a'' ''r1'' (IntN 915) fixtureDb)"
    "\<not> returns (validateStorageCapacity ''a'' ''r1'' (IntN 916) fixtureDb)" by code_simp+
  have plant: "validateProductionBuildingAvailable ''a'' fixtureDb = Inr ()"
    "getProductionCapacityForCompany ''a'' fixtureDb = (2, 0)" "regionStock ''a'' ''r1'' fixtureDb = 85"
    "BASE_STORAGE_CAPACITY_PER_REGION + warehouses ''a'' ''r1'' fixtureDb * WAREHOUSE_CAPACITY_PER_SLOT = 1000"
    by code_simp+
  have needs: "recipeRequirements fixtureEnv ''smelt'' (IntN 915) fixtureDb = Inr [(''coal'', 915), (''ore'', 1830)]"
    "recipeRequirements fixtureEnv ''smelt'' (IntN 916) fixtureDb = Inr [(''coal'', 916), (''ore'', 1832)]"
    by code_simp+
  show ?thesis
    using preflight_cautious [where cid = "''a''" and reg = "''r1''" and n = 915, OF _ _ _ r(1) _ c _ needs(1)]
      preflight_cautious [where cid = "''a''" and reg = "''r1''" and n = 916, OF _ _ _ r(1) _ c _ needs(2)]
      store plant reg r(2)
    by (simp add: returns_iff)
qed

text \<open>
  It is stricter than the engine: with 995 units in store, a job that turns thirty of them into ten is
  reported as an error for want of storage; it starts and completes all the same.
\<close>

definition nearlyFullStore :: db where
  "nearlyFullStore = fixtureDb\<lparr>inventories :=
     [mkInventory ''a'' ''ore'' ''r1'' 950 0, mkInventory ''a'' ''coal'' ''r1'' 45 0]\<rparr>"

lemma preflight_too_strict:
  "productionIssues ''a'' ''smelt'' 10 nearlyFullStore = [(INSUFFICIENT_STORAGE, SeverityERROR)] \<and>
   (case serve fixtureEnv Map.empty 0 ''p1'' (CreateJob ''a'' ''smelt'' (IntN 10)) nearlyFullStore of
      (Inl _, _) \<Rightarrow> False
    | (Inr _, d) \<Rightarrow> (case completeDueProductionJobs fixtureEnv (IntN 20) d of
        Inl _ \<Rightarrow> False | Inr d' \<Rightarrow> map pj_status (productionJobs d') = [JobCOMPLETED]))"
  by code_simp

text \<open>
  The slots are only counted here: with both slots of its plant taken, a company is told that its
  capacity is full, and a third start is accepted all the same.
\<close>

definition twoJobsRunning :: db where
  "twoJobsRunning =
     snd (serve fixtureEnv Map.empty 0 ''p1'' (CreateJob ''a'' ''smelt'' (IntN 1))
       (snd (serve fixtureEnv Map.empty 0 ''p1'' (CreateJob ''a'' ''smelt'' (IntN 1)) fixtureDb)))"

lemma capacity_not_enforced:
  "getProductionCapacityForCompany ''a'' twoJobsRunning = (2, 2) \<and>
   productionIssues ''a'' ''smelt'' 1 twoJobsRunning = [(BUILDING_CAPACITY_FULL, SeverityERROR)] \<and>
   fst (serve fixtureEnv Map.empty 0 ''p1'' (CreateJob ''a'' ''smelt'' (IntN 1)) twoJobsRunning) = Inr ()"
  by code_simp

end
