(* ===== verification/PlayerIsolation.thy ===== *)
theory PlayerIsolation
  imports PlayerActions
begin

section \<open>Requests reach no one else's property\<close>

text \<open>
  A request of a player changes rows of his own companies only, apart from the buyer of a contract
  he delivers: the cash, stock, orders, jobs, shipments, buildings, research, ledger and hirings of
  every other company are the same rows after it. The view of the others is what is left of these
  tables without the rows of a set of companies.
\<close>

subsection \<open>The others' rows\<close>

definition othersView ::
    "string set \<Rightarrow> db \<Rightarrow> company list \<times> inventory list \<times> marketOrder list \<times> productionJob list \<times> shipment list \<times>
     building list \<times> researchJob list \<times> companyResearch list \<times> ledgerEntry list \<times> workforceCapacityDelta list" where
  "othersView A d =
     (filter (\<lambda>c. co_id c \<notin> A) (companies d), filter (\<lambda>r. inv_companyId r \<notin> A) (inventories d),
      filter (\<lambda>x. ord_companyId x \<notin> A) (marketOrders d), filter (\<lambda>j. pj_companyId j \<notin> A) (productionJobs d),
      filter (\<lambda>s. sh_companyId s \<notin> A) (shipments d), filter (\<lambda>b. bd_companyId b \<notin> A) (buildings d),
      filter (\<lambda>j. rj_companyId j \<notin> A) (researchJobs d), filter (\<lambda>x. cx_companyId x \<notin> A) (companyResearches d),
      filter (\<lambda>e. le_companyId e \<notin> A) (ledgerEntries d), filter (\<lambda>x. wd_companyId x \<notin> A) (workforceCapacityDeltas d))"

lemma filter_rowSet:
  "(\<And>r. r \<in> set rs \<Longrightarrow> key r = k \<Longrightarrow> \<not> P r \<and> \<not> P (f r)) \<Longrightarrow> filter P (rowSet key k f rs) = filter P rs"
  by (induction rs) auto

lemma filter_mapWhere:
  "(\<And>r. r \<in> set rs \<Longrightarrow> Q r \<Longrightarrow> \<not> P r \<and> \<not> P (f r)) \<Longrightarrow> filter P (mapWhere Q f rs) = filter P rs"
  by (induction rs) (auto simp: mapWhere_def)

lemma filter_map_same:
  "(\<And>r. r \<in> set rs \<Longrightarrow> P (f r) = P r \<and> (P r \<longrightarrow> f r = r)) \<Longrightarrow> filter P (map f rs) = filter P rs"
  by (induction rs) auto

text \<open>An update of a company, of a stock row, of a row of a company in \<open>A\<close>.\<close>

lemma view_company:
  "cid \<in> A \<Longrightarrow> (\<And>c. co_id (f c) = co_id c) \<Longrightarrow>
     filter (\<lambda>c. co_id c \<notin> A) (rowSet co_id cid f cs) = filter (\<lambda>c. co_id c \<notin> A) cs"
  by (rule filter_rowSet) simp

lemma view_stock:
  "fst k \<in> A \<Longrightarrow> (\<And>r. inv_companyId (f r) = inv_companyId r) \<Longrightarrow>
     filter (\<lambda>r. inv_companyId r \<notin> A) (rowSet invKey k f rs) = filter (\<lambda>r. inv_companyId r \<notin> A) rs"
  by (rule filter_rowSet) (auto simp: invKey_def)

lemma view_research:
  "fst k \<in> A \<Longrightarrow> (\<And>r. cx_companyId (f r) = cx_companyId r) \<Longrightarrow>
     filter (\<lambda>r. cx_companyId r \<notin> A) (rowSet cxKey k f rs) = filter (\<lambda>r. cx_companyId r \<notin> A) rs"
  by (rule filter_rowSet) (auto simp: cxKey_def)

lemma view_row:
  "(\<And>r. owner (f r) = owner r) \<Longrightarrow> \<forall>r\<in>set rs. key r = k \<longrightarrow> owner r \<in> A \<Longrightarrow>
     filter (\<lambda>r. owner r \<notin> A) (rowSet key k f rs) = filter (\<lambda>r. owner r \<notin> A) rs"
  by (rule filter_rowSet) simp

lemmas view_simps = othersView_def view_company view_stock view_research updateRow_Inr createRow_Inr
  createLedgerEntry_Inr andThen_Inr_iff branch_Inr updateExactlyOne_def

lemma upsertInventory_view:
  "upsertInventory cid iid rid f q res d = Inr (r, d') \<Longrightarrow> cid \<in> A \<Longrightarrow> (\<And>r. inv_companyId (f r) = inv_companyId r) \<Longrightarrow>
     othersView A d' = othersView A d"
  by (auto simp: upsertInventory_def view_simps invKey_def split: option.splits)

lemma adjustStock_view: "adjustStock cid rid q r reqs d = Inr d' \<Longrightarrow> cid \<in> A \<Longrightarrow> othersView A d' = othersView A d"
proof -
  assume *: "adjustStock cid rid q r reqs d = Inr d'" "cid \<in> A"
  have none: "need cid rid reqs (invKey x) = 0" if "inv_companyId x \<notin> A" for x
    using that *(2) by (induction reqs) (auto simp: need_def invKey_def)
  have "filter (\<lambda>r. inv_companyId r \<notin> A) (map (shiftRow q r (need cid rid reqs)) (inventories d)) =
      filter (\<lambda>r. inv_companyId r \<notin> A) (inventories d)"
    by (rule filter_map_same) (simp add: shiftRow_def none)
  then show ?thesis using adjustStock_state [OF *(1)] by (simp add: othersView_def)
qed

subsection \<open>Handlers\<close>

lemma place_view:
  assumes "placeMarketOrderWithTx E input d = Inr (x, d')" and "po_companyId input \<in> A"
  shows "othersView A d' = othersView A d"
  using assms(1)
proof (cases rule: placeMarketOrder_cases)
  case (1 c tick)
  from rowFind_key [OF 1(1)] have "co_id c \<in> A" using assms(2) by simp
  then show ?thesis using 1(4) assms(2)
    by (auto simp: placeBuyOrder_def newOrder_def Let_def view_simps split: if_splits)
next
  case (2 c tick)
  then show ?thesis using assms(2)
    by (auto simp: placeSellOrder_def newOrder_def Let_def view_simps split: if_splits option.splits dest!: rowFind_key)
qed

lemma cancel_view:
  assumes "cancelMarketOrderWithTx E input d = Inr (x, d')" and "\<forall>y\<in>set (marketOrders d). ord_id y = xo_orderId input \<longrightarrow> ord_companyId y \<in> A"
  shows "othersView A d' = othersView A d"
  using assms(1)
proof (cases rule: cancelMarketOrder_cases)
  case (2 y d1 d2 tick)
  from rowFind_Some [OF 2(1)] have y: "ord_companyId y \<in> A" "ord_id y = xo_orderId input" using assms(2) by auto
  have "othersView A d1 = othersView A d \<and> marketOrders d1 = marketOrders d" using 2(3) y(1)
    by (auto simp: releaseBuyReserve_def Let_def view_simps split: if_splits option.splits dest!: rowFind_key)
  moreover have "othersView A d2 = othersView A d1 \<and> marketOrders d2 = marketOrders d1" using 2(4) y(1)
    by (auto simp: releaseSellReserve_def Let_def view_simps split: if_splits option.splits dest!: rowFind_key)
  moreover have "othersView A d' = othersView A d2" if "marketOrders d2 = marketOrders d" using 2(5) y assms(2) that
    by (auto simp: view_simps view_row [where owner = ord_companyId])
  ultimately show ?thesis by simp
qed simp

lemma createJob_view:
  "createProductionJobWithTx E input d = (Inr job, d') \<Longrightarrow> sj_companyId input \<in> A \<Longrightarrow> othersView A d' = othersView A d"
  by (erule createProductionJobWithTx_Inr) (auto simp: createRow_Inr dest!: adjustStock_view [where A = A] simp: othersView_def)

lemma cancelJob_view:
  assumes "cancelProductionJobWithTx E input d = Inr (job, d')"
    and "\<forall>j\<in>set (productionJobs d). pj_id j = xj_jobId input \<longrightarrow> pj_companyId j \<in> A"
  shows "othersView A d' = othersView A d"
proof -
  from assms(1) obtain j where j: "rowFind pj_id (xj_jobId input) (productionJobs d) = Some j"
    by (auto simp: cancelProductionJobWithTx_def Let_def andThen_Inr_iff split: option.splits)
  from rowFind_Some [OF j] assms(2) have own: "pj_companyId j \<in> A" "pj_id j = xj_jobId input" by auto
  show ?thesis
  proof (cases "pj_status j = JobIN_PROGRESS")
    case False
    then have "d' = d" using assms(1) j by (auto simp: cancelProductionJobWithTx_def Let_def andThen_Inr_iff)
    then show ?thesis by simp
  next
    case True
    with assms(1) j obtain reqs rid d1 f where d1: "adjustStock (pj_companyId j) rid 0 (- 1) reqs d = Inr d1"
      and up: "updateRow pj_id productionJobs productionJobs_update (pj_id j) f d1 = Inr (job, d')"
      and f: "\<And>r. pj_companyId (f r) = pj_companyId r"
      by (auto simp: cancelProductionJobWithTx_def Let_def andThen_Inr_iff closeJob_Inr)
    have "othersView A d1 = othersView A d" using adjustStock_view [OF d1 own(1)] .
    moreover have "productionJobs d1 = productionJobs d" using adjustStock_state [OF d1] by simp
    then have "othersView A d' = othersView A d1" using up own(2) f assms(2)
      by (auto simp: view_simps view_row [where owner = pj_companyId])
    ultimately show ?thesis by simp
  qed
qed

lemma shipment_view:
  assumes "createShipmentWithTx E input overrides d = Inr (s, d')" and "cs_companyId input \<in> A"
  shows "othersView A d' = othersView A d"
  using assms(1)
proof (cases rule: createShipmentWithTx_Inr)
  case (1 c toR fromR config tick t fee r)
  from rowFind_key [OF 1(1)] have c: "co_id c \<in> A" using assms(2) by simp
  from rowFind_key [OF 1(12)] have r: "fst (invKey r) \<in> A" using c by simp
  have stock: "filter (\<lambda>x. inv_companyId x \<notin> A) (mapWhere (\<lambda>x. invKey x = invKey r \<and> P x) f rs) =
      filter (\<lambda>x. inv_companyId x \<notin> A) rs" if "\<And>x. inv_companyId (f x) = inv_companyId x" for P f rs
    by (rule filter_mapWhere) (use that r in \<open>auto simp: invKey_def\<close>)
  have cash: "filter (\<lambda>x. co_id x \<notin> A) (mapWhere (\<lambda>x. co_id x = co_id c \<and> P x) f rs) =
      filter (\<lambda>x. co_id x \<notin> A) rs" if "\<And>x. co_id (f x) = co_id x" for P f rs
    by (rule filter_mapWhere) (use that c in auto)
  show ?thesis using 1(15) c
    by (auto simp: dispatchShipment_def Let_def view_simps stock cash split: if_splits)
qed

lemma cancelShipment_view:
  assumes "cancelShipmentWithTx input d = Inr (s, d')"
    and "\<forall>x\<in>set (shipments d). sh_id x = xs_shipmentId input \<longrightarrow> sh_companyId x \<in> A"
  shows "othersView A d' = othersView A d"
proof -
  from assms(1) obtain x where x: "rowFind sh_id (xs_shipmentId input) (shipments d) = Some x"
    by (auto simp: cancelShipmentWithTx_def andThen_Inr_iff split: option.splits if_splits)
  from rowFind_Some [OF x] assms(2) have own: "sh_companyId x \<in> A" "sh_id x = xs_shipmentId input" by auto
  have jobs: "filter (\<lambda>x. sh_companyId x \<notin> A) (mapWhere (\<lambda>y. sh_id y = sh_id x \<and> P y) f (shipments d)) =
      filter (\<lambda>x. sh_companyId x \<notin> A) (shipments d)" if "\<And>x. sh_companyId (f x) = sh_companyId x" for P f
    by (rule filter_mapWhere) (use that own assms(2) in auto)
  show ?thesis
  proof (cases "sh_status x = ShipmentIN_TRANSIT")
    case False
    then have "d' = d" using assms(1) x by (auto simp: cancelShipmentWithTx_def andThen_Inr_iff split: if_splits)
    then show ?thesis by simp
  next
    case True
    with assms(1) x obtain d1 t r where d1: "d1 = shipments_update (mapWhere
        (\<lambda>y. sh_id y = sh_id x \<and> sh_status y = ShipmentIN_TRANSIT)
        (\<lambda>s. s\<lparr>sh_status := ShipmentCANCELLED, sh_tickClosed := Some t\<rparr>)) d"
      and up: "upsertInventory (sh_companyId x) (sh_itemId x) (sh_fromRegionId x)
        (\<lambda>r. r\<lparr>inv_quantity := inv_quantity r + sh_quantity x\<rparr>) (sh_quantity x) 0 d1 = Inr (r, d')"
      by (auto simp: cancelShipmentWithTx_def andThen_Inr_iff updateExactlyOne_def split: if_splits option.splits)
    have "othersView A d' = othersView A d1" by (rule upsertInventory_view [OF up own(1)]) simp
    then show ?thesis using jobs by (simp add: d1 othersView_def)
  qed
qed

lemma accept_view: "acceptContractWithTx input d = Inr (c', d') \<Longrightarrow> othersView A d' = othersView A d"
  by (auto simp: acceptContractWithTx_def view_simps Let_def split: option.splits if_splits)

lemma fulfill_view:
  assumes "fulfillContractWithTx E input d = Inr ((c', f), d')" and "fc_sellerCompanyId input \<in> A"
    and "findContract (fc_contractId input) d = Some k" and "ct_buyerCompanyId k \<in> A"
  shows "othersView A d' = othersView A d"
  using assms(1)
proof (cases rule: fulfillContractWithTx_Inr)
  case (1 tick c buyer seller r d1 d2 d3 d4)
  have c: "c = k" using 1(1) assms(3) by simp
  then have b: "ct_buyerCompanyId c \<in> A" using assms(4) by simp
  have r: "inv_companyId r \<in> A" using rowFind_key [OF 1(7)] assms(2) by (auto simp: invKey_def)
  have stock: "filter (\<lambda>x. inv_companyId x \<notin> A) (mapWhere (\<lambda>x. inv_companyId x = inv_companyId r \<and> P x) g rs) =
      filter (\<lambda>x. inv_companyId x \<notin> A) rs" if "\<And>x. inv_companyId (g x) = inv_companyId x" for P g rs
    by (rule filter_mapWhere) (use that r in auto)
  have cash: "filter (\<lambda>x. co_id x \<notin> A) (mapWhere (\<lambda>x. co_id x = ct_buyerCompanyId c \<and> P x) g rs) =
      filter (\<lambda>x. co_id x \<notin> A) rs" if "\<And>x. co_id (g x) = co_id x" for P g rs
    by (rule filter_mapWhere) (use that assms(4) c in auto)
  have "othersView A d1 = othersView A d"
  proof -
    obtain y d0 where d0: "d0 = inventories_update (mapWhere
        (\<lambda>x. inv_companyId x = inv_companyId r \<and> inv_itemId x = inv_itemId r \<and> inv_quantity x = inv_quantity r \<and>
           inv_reservedQuantity x = inv_reservedQuantity r)
        (\<lambda>r. r\<lparr>inv_quantity := inv_quantity r - num (fc_quantity input)\<rparr>)) d"
      and up: "upsertInventory (ct_buyerCompanyId c) (ct_itemId c) (co_regionId buyer)
        (\<lambda>r. r\<lparr>inv_quantity := inv_quantity r + num (fc_quantity input)\<rparr>) (num (fc_quantity input)) 0 d0 = Inr (y, d1)"
      using 1(10) by (auto simp: moveContractGoods_def Let_def andThen_Inr_iff updateExactlyOne_def split: if_splits)
    have "othersView A d1 = othersView A d0" by (rule upsertInventory_view [OF up]) (use assms(4) c in simp_all)
    then show ?thesis by (simp add: d0 othersView_def stock)
  qed
  moreover have "othersView A d2 = othersView A d1"
    using 1(11) assms(2) by (auto simp: moveContractCash_def Let_def view_simps cash split: if_splits)
  moreover have "othersView A d3 = othersView A d2" using 1(12) by (auto simp: view_simps)
  moreover have "othersView A d4 = othersView A d3"
    using 1(15) by (auto simp: advanceContract_def Let_def view_simps split: if_splits)
  moreover have "othersView A d' = othersView A d4"
    using 1(16) assms(2) b by (auto simp: recordContractLedger_def Let_def view_simps split: option.splits if_splits
      dest!: rowFind_key)
  ultimately show ?thesis by simp
qed

lemma upsertResearch_view:
  "upsertCompanyResearch f new d = Inr (r, d') \<Longrightarrow> cx_companyId new \<in> A \<Longrightarrow>
     (\<And>r. cx_companyId (f r) = cx_companyId r) \<Longrightarrow> othersView A d' = othersView A d"
  by (auto simp: upsertRow_def view_simps cxKey_def split: option.splits)

lemma startResearch_view:
  assumes "startResearchWithTx E input d = Inr (job, d')" and "re_companyId input \<in> A"
  shows "othersView A d' = othersView A d"
  using assms(1)
proof (cases rule: startResearchWithTx_Inr)
  case (1 c node t d1 d2 d3)
  have "othersView A d1 = othersView A d" using 1(4) rowFind_key [OF 1(1)] assms(2) by (simp add: view_simps)
  moreover have "othersView A d2 = othersView A d1" using 1(5,6) assms(2) by (auto simp: view_simps)
  moreover have "othersView A d3 = othersView A d2" using 1(9) assms(2) by (elim exE) (erule upsertResearch_view, simp_all)
  moreover have "othersView A d' = othersView A d3" using 1(10) assms(2) by (auto simp: view_simps)
  ultimately show ?thesis by simp
qed

lemma cancelResearch_view:
  assumes "cancelResearchWithTx E input d = Inr (job, d')" and "re_companyId input \<in> A"
    and "distinct (map rj_id (researchJobs d))"
  shows "othersView A d' = othersView A d"
proof -
  from assms(1) obtain j r r' t st d1 where j: "List.find (isRunningJob (re_companyId input) (re_nodeId input)) (researchJobs d) = Some j"
    and up: "updateResearchJob (rj_id j) (\<lambda>j. j\<lparr>rj_status := ResearchCANCELLED, rj_tickClosed := Some t\<rparr>) d = Inr (r, d1)"
    and node: "upsertCompanyResearch (\<lambda>r. r\<lparr>cx_status := st\<rparr>)
          \<lparr>cx_id = newId E d1, cx_companyId = re_companyId input, cx_nodeId = re_nodeId input,
           cx_status = st, cx_tickStarted = None, cx_tickCompletes = None\<rparr> d1 = Inr (r', d')"
    by (auto simp: cancelResearchWithTx_def andThen_Inr_iff Let_def split: option.splits)
  from j have "j \<in> set (researchJobs d)" "rj_companyId j = re_companyId input"
    by (auto simp: find_Some_iff isRunningJob_def)
  then have "\<forall>x\<in>set (researchJobs d). rj_id x = rj_id j \<longrightarrow> rj_companyId x \<in> A"
    using assms(2,3) by (metis eq_key_imp_eq_value rowFind_unique option.inject)
  then have "othersView A d1 = othersView A d" using up by (auto simp: view_simps view_row [where owner = rj_companyId])
  moreover have "othersView A d' = othersView A d1" using upsertResearch_view [OF node] assms(2) by simp
  ultimately show ?thesis by simp
qed

lemma capacity_view:
  "changeCapacityWithTx E config cid n d = Inr (r, d') \<Longrightarrow> cid \<in> A \<Longrightarrow> othersView A d' = othersView A d"
  by (auto simp: changeCapacityWithTx_def reduceCapacity_def hireCapacity_def Let_def view_simps
      split: option.splits if_splits dest!: rowFind_key)

lemma acquire_view:
  "acquireBuildingWithTx E input d = Inr (b, d') \<Longrightarrow> ab_companyId input \<in> A \<Longrightarrow> othersView A d' = othersView A d"
  by (auto simp: acquireBuildingWithTx_def newBuilding_def Let_def view_simps split: option.splits if_splits)

lemma reactivate_view:
  assumes "reactivateBuildingWithTx bid tick d = Inr (b, d')"
    and "\<forall>b\<in>set (buildings d). bd_id b = bid \<longrightarrow> bd_companyId b \<in> A"
  shows "othersView A d' = othersView A d"
  using assms by (auto simp: reactivateBuildingWithTx_def view_simps view_row [where owner = bd_companyId]
      split: option.splits if_splits)

subsection \<open>Requests\<close>

definition ownedBy :: "string \<Rightarrow> db \<Rightarrow> string set" where
  "ownedBy p d = co_id ` set (filter (\<lambda>c. co_ownerPlayerId c = Some (trim p)) (companies d))"

text \<open>The one other company a request concerns: the buyer of the contract that is delivered.\<close>

fun partner :: "playerRequest \<Rightarrow> db \<Rightarrow> string set" where
  "partner (FulfillContract k cid n) d = (case findContract k d of None \<Rightarrow> {} | Some c \<Rightarrow> {ct_buyerCompanyId c})"
| "partner _ d = {}"

text \<open>The primary keys of the tables.\<close>

definition keysOk :: "db \<Rightarrow> bool" where
  "keysOk d \<longleftrightarrow> distinct (map ord_id (marketOrders d)) \<and> distinct (map pj_id (productionJobs d)) \<and>
     distinct (map sh_id (shipments d)) \<and> distinct (map bd_id (buildings d)) \<and> distinct (map rj_id (researchJobs d))"

lemma same_key: "distinct (map key rs) \<Longrightarrow> r \<in> set rs \<Longrightarrow> \<forall>x\<in>set rs. key x = key r \<longrightarrow> x = r"
  using rowFind_unique [of key rs] by (metis option.inject)

lemma companyOwned_ownedBy: "companyOwnedBy (trim p) cid d \<Longrightarrow> cid \<in> ownedBy p d"
  by (auto simp: companyOwnedBy_def ownedBy_def list_ex_iff)

lemma resolvePlayerById_Inr: "resolvePlayerById p d = Inr pl \<Longrightarrow> pl_id pl = trim p"
  by (auto simp: resolvePlayerById_def Let_def split: if_splits option.splits dest: rowFind_key)

lemma asPlayer_cases:
  assumes "asPlayer p check run d = (r, d')"
  obtains e where "r = Inl e" "d' = d" | "check (trim p) d = Inr ()" "run (trim p) d = (r, d')"
  using assms by (auto simp: asPlayer_def andThen_Inr_iff split: sum.splits dest!: resolvePlayerById_Inr)

lemma asOwner_cases:
  assumes "asOwner p cid run d = (r, d')"
  obtains e where "r = Inl e" "d' = d" | "cid \<in> ownedBy p d" "run d = (r, d')"
  using assms unfolding asOwner_def
  by (elim asPlayer_cases) (auto intro: companyOwned_ownedBy)

lemma withOwnedCompany_cases:
  assumes "withOwnedCompany p cid run d = (r, d')"
  obtains e where "r = Inl e" "d' = d"
  | k where "k \<in> ownedBy p d" "resolveOwnedCompanyId (trim p) cid d = Inr k" "run k d = (r, d')"
proof -
  have "k \<in> ownedBy p d" if "resolveOwnedCompanyId (trim p) cid d = Inr k" for k
  proof (cases "given cid")
    case True
    with that show ?thesis by (auto simp: resolveOwnedCompanyId_def andThen_Inr_iff intro: companyOwned_ownedBy)
  next
    case False
    with that obtain c x xs where "listCompaniesOwnedByPlayer (trim p) d = (c, x) # xs" "co_id c = k"
      by (auto simp: resolveOwnedCompanyId_def split: list.splits)
    then have "(c, x) \<in> set (listCompaniesOwnedByPlayer (trim p) d)" "co_id c = k" by simp_all
    then show ?thesis by (auto simp: listCompaniesOwnedByPlayer_def ownedBy_def)
  qed
  with assms that show thesis
    by (auto simp: withOwnedCompany_def andThen_Inr_iff split: sum.splits dest!: resolvePlayerById_Inr)
qed

text \<open>An answer of a handler is an error without effect, or leaves a state that satisfies \<open>P\<close>.\<close>

definition outcome :: "(db \<Rightarrow> bool) \<Rightarrow> db \<Rightarrow> 'a result \<times> db \<Rightarrow> bool" where
  "outcome P d m \<longleftrightarrow> (case m of (Inl e, d') \<Rightarrow> d' = d | (Inr x, d') \<Rightarrow> P d')"

lemma outcome_transaction:
  "(\<And>x d'. body d = Inr (x, d') \<Longrightarrow> P d') \<Longrightarrow> outcome P d (transaction body d)"
  by (auto simp: outcome_def transaction_def split: sum.splits)

lemma outcome_refused [simp]: "outcome P d (Inl e, d)"
  by (simp add: outcome_def)

lemma outcome_answered: "outcome P d (answered m) \<longleftrightarrow> outcome P d m"
  by (auto simp: outcome_def answered_def split: prod.splits sum.splits)

lemma outcome_asPlayer:
  assumes "check (trim p) d = Inr () \<Longrightarrow> outcome P d (run (trim p) d)"
  shows "outcome P d (asPlayer p check run d)"
proof -
  obtain r d' where m: "asPlayer p check run d = (r, d')" by (cases "asPlayer p check run d")
  from m show ?thesis by (cases rule: asPlayer_cases) (use assms m in auto)
qed

lemma outcome_asOwner:
  assumes "cid \<in> ownedBy p d \<Longrightarrow> outcome P d (run d)"
  shows "outcome P d (asOwner p cid run d)"
proof -
  obtain r d' where m: "asOwner p cid run d = (r, d')" by (cases "asOwner p cid run d")
  from m show ?thesis by (cases rule: asOwner_cases) (use assms m in auto)
qed

lemma outcome_withOwnedCompany:
  assumes "\<And>k. k \<in> ownedBy p d \<Longrightarrow> resolveOwnedCompanyId (trim p) cid d = Inr k \<Longrightarrow> outcome P d (run k d)"
  shows "outcome P d (withOwnedCompany p cid run d)"
proof -
  obtain r d' where m: "withOwnedCompany p cid run d = (r, d')" by (cases "withOwnedCompany p cid run d")
  from m show ?thesis
  proof (cases rule: withOwnedCompany_cases)
    case (2 k)
    from assms [OF 2(1,2)] 2(3) m show ?thesis by simp
  qed (use m in simp)
qed

text \<open>It is confined to the companies in \<open>A\<close> when the view of the others is what it was.\<close>

abbreviation confined :: "string set \<Rightarrow> db \<Rightarrow> 'a result \<times> db \<Rightarrow> bool" where
  "confined A d \<equiv> outcome (\<lambda>d'. othersView A d' = othersView A d) d"

text \<open>Each handler behind its guard.\<close>

lemma confined_place:
  "po_companyId input \<in> A \<Longrightarrow> confined A d (placeMarketOrder E input d)"
  by (auto simp: placeMarketOrder_def intro: outcome_transaction place_view split: sum.splits)

lemma confined_cancel:
  "\<forall>y\<in>set (marketOrders d). ord_id y = xo_orderId input \<longrightarrow> ord_companyId y \<in> A \<Longrightarrow>
     confined A d (cancelMarketOrder E input d)"
  by (auto simp: cancelMarketOrder_def intro: outcome_transaction cancel_view split: sum.splits)

lemma confined_createJob:
  "sj_companyId input \<in> A \<Longrightarrow> confined A d (createProductionJob E input d)"
  by (auto simp: createProductionJob_def intro!: outcome_transaction split: sum.splits prod.splits dest: createJob_view)

lemma confined_cancelJob:
  "\<forall>j\<in>set (productionJobs d). pj_id j = xj_jobId input \<longrightarrow> pj_companyId j \<in> A \<Longrightarrow>
     confined A d (cancelProductionJob E input d)"
  by (auto simp: cancelProductionJob_def intro: outcome_transaction cancelJob_view split: sum.splits)

lemma confined_shipment: "cs_companyId input \<in> A \<Longrightarrow> confined A d (createShipment E input overrides d)"
  by (auto simp: createShipment_def intro: outcome_transaction shipment_view)

lemma confined_capacity: "cid \<in> A \<Longrightarrow> confined A d (requestCompanyWorkforceCapacityChange E cid n overrides d)"
  by (auto simp: requestCompanyWorkforceCapacityChange_def intro: outcome_transaction capacity_view split: sum.splits)

lemma confined_accept: "confined A d (acceptContract input d)"
  by (auto simp: acceptContract_def intro: outcome_transaction accept_view)

lemma confined_fulfill:
  assumes "fc_sellerCompanyId input \<in> A"
    and "\<And>k. findContract (fc_contractId input) d = Some k \<Longrightarrow> ct_buyerCompanyId k \<in> A"
  shows "confined A d (fulfillContract E input d)"
proof -
  have "othersView A d' = othersView A d" if "fulfillContractWithTx E input d = Inr (x, d')" for x d'
  proof -
    obtain c f where x: "x = (c, f)" by (cases x)
    from that obtain k where "findContract (fc_contractId input) d = Some k"
      unfolding x by (rule fulfillContractWithTx_Inr) blast
    with fulfill_view [OF that [unfolded x] assms(1)] assms(2) show ?thesis by blast
  qed
  then show ?thesis by (auto simp: fulfillContract_def intro: outcome_transaction)
qed

lemma confined_start:
  "re_companyId input \<in> A \<Longrightarrow> confined A d (startResearch E input d)"
  by (auto simp: startResearch_def intro: outcome_transaction startResearch_view split: sum.splits)

lemma confined_cancelResearch:
  "re_companyId input \<in> A \<Longrightarrow> distinct (map rj_id (researchJobs d)) \<Longrightarrow> confined A d (cancelResearch E input d)"
  by (auto simp: cancelResearch_def intro: outcome_transaction cancelResearch_view split: sum.splits)

lemma confined_allocation: "cid \<in> A \<Longrightarrow> confined A d (setCompanyWorkforceAllocation cid a d)"
  by (auto simp: setCompanyWorkforceAllocation_def view_simps intro!: outcome_transaction
      split: sum.splits option.splits)

text \<open>The company that has been updated is found when it is read back.\<close>

lemma outcome_specialization:
  assumes "P d" and "\<And>s t c' d'. updateCompany (ss_companyId input)
      (\<lambda>c. c\<lparr>co_specialization := s, co_specializationChangedAt := t\<rparr>) d = Inr (c', d') \<Longrightarrow> P d'"
  shows "outcome P d (setCompanySpecialization E hours input d)"
proof (cases "findCompany (ss_companyId input) d")
  case None
  then show ?thesis by (simp add: setCompanySpecialization_def Let_def)
next
  case (Some c)
  let ?f = "\<lambda>c. c\<lparr>co_specialization := normalizeCompanySpecialization (ss_specialization input),
              co_specializationChangedAt := Some (currentTime E d)\<rparr>"
  let ?e = "companies_update (rowSet co_id (ss_companyId input) ?f) d"
  obtain v where v: "getCompanyById (ss_companyId input) d = Inr v" using Some by (simp add: getCompanyById_def)
  obtain w where w: "getCompanyById (ss_companyId input) ?e = Inr w"
    using Some by (simp add: getCompanyById_def rowFind_rowSet)
  have up: "updateCompany (ss_companyId input) ?f d = Inr (?f c, ?e)" using Some by (simp add: updateRow_def)
  show ?thesis using assms(1) assms(2) [OF up] Some v w up
    by (auto simp: setCompanySpecialization_def Let_def outcome_def split: sum.splits)
qed

lemma confined_specialization:
  "ss_companyId input \<in> A \<Longrightarrow> confined A d (setCompanySpecialization E hours input d)"
  by (rule outcome_specialization) (auto simp: view_simps)

text \<open>
  C12. Whatever a player asks for, the request is refused without any effect, or it changes rows of
  the player's own companies only, and of the buyer of the contract he delivers: every other
  company's cash, stock, orders, jobs, shipments, buildings, research, ledger and hirings are the
  same rows as before. In particular no one can act for a company, an order, a job, a shipment or a
  building he does not own.
\<close>

theorem request_confined:
  assumes "keysOk d"
  shows "case serve E v hours p req d of
      (Inl e, d') \<Rightarrow> d' = d
    | (Inr _, d') \<Rightarrow> othersView (ownedBy p d \<union> partner req d) d' = othersView (ownedBy p d \<union> partner req d) d"
proof -
  let ?A = "ownedBy p d \<union> partner req d"
  note K = assms [unfolded keysOk_def]
  have own: "\<forall>x\<in>set rs. key x = k \<longrightarrow> owner x \<in> ownedBy p d"
    if "distinct (map key rs)" "list_ex (\<lambda>x. key x = k \<and> companyOwnedBy (trim p) (owner x) d) rs"
    for key :: "'r \<Rightarrow> string" and owner and rs k
    using that same_key [OF that(1)] companyOwned_ownedBy [of p _ d] unfolding list_ex_iff by metis
  have "confined ?A d (serve E v hours p req d)"
  proof (cases req)
    case (PlaceOrder input)
    then show ?thesis
      by (auto simp: MarketService_placeOrder_def outcome_answered intro!: outcome_asOwner confined_place)
  next
    case (CancelOrder k)
    then show ?thesis using own [of ord_id "marketOrders d" k ord_companyId] K
      by (auto simp: MarketService_cancelOrder_def outcome_answered assertOrderOwnedByPlayer_def
          intro!: outcome_asPlayer confined_cancel split: if_splits)
  next
    case (CreateJob cid rid n)
    then show ?thesis
      by (auto simp: ProductionService_createJob_def outcome_answered intro!: outcome_asOwner confined_createJob)
  next
    case (CancelJob k)
    then show ?thesis using own [of pj_id "productionJobs d" k pj_companyId] K
      by (auto simp: ProductionService_cancelJob_def outcome_answered assertProductionJobOwnedByPlayer_def
          intro!: outcome_asPlayer confined_cancelJob split: if_splits)
  next
    case (AcceptContract k cid)
    then show ?thesis
      by (auto simp: ContractsService_acceptContract_def outcome_answered intro!: outcome_asOwner confined_accept)
  next
    case (FulfillContract k cid n)
    then show ?thesis
      by (auto simp: ContractsService_fulfillContract_def outcome_answered intro!: outcome_asOwner confined_fulfill)
  next
    case (CreateShipment cid rid iid n)
    then show ?thesis
      by (auto simp: ShipmentsService_create_def outcome_answered intro!: outcome_asOwner confined_shipment
          split: sum.splits)
  next
    case (CancelShipment k)
    then show ?thesis using own [of sh_id "shipments d" k sh_companyId] K
      by (auto simp: ShipmentsService_cancel_def cancelShipment_def outcome_answered assertShipmentOwnedByPlayer_def
          intro!: outcome_asPlayer outcome_transaction cancelShipment_view split: if_splits)
  next
    case (StartNode nid cid)
    then show ?thesis
      by (auto simp: ResearchService_startNode_def outcome_answered intro!: outcome_withOwnedCompany confined_start)
  next
    case (CancelNode nid cid)
    then show ?thesis using K
      by (auto simp: ResearchService_cancelNode_def outcome_answered
          intro!: outcome_withOwnedCompany confined_cancelResearch)
  next
    case (SetAllocation cid a)
    then show ?thesis
      by (auto simp: WorkforceService_setAllocation_def outcome_answered intro!: outcome_asOwner confined_allocation)
  next
    case (RequestCapacityChange cid n)
    then show ?thesis
      by (auto simp: WorkforceService_requestCapacityChange_def outcome_answered
          intro!: outcome_asOwner confined_capacity)
  next
    case (SetSpecialization cid s)
    then show ?thesis
      by (auto simp: CompaniesService_setSpecialization_def outcome_answered
          intro!: outcome_asOwner confined_specialization)
  next
    case (AcquireBuilding cid rid t name)
    then show ?thesis
      by (auto simp: BuildingsService_acquireBuilding_def outcome_answered Let_def andThen_Inr_iff
          intro!: outcome_asOwner outcome_transaction) (erule acquire_view, simp)
  next
    case (ReactivateBuilding k)
    show ?thesis
    proof (cases "rowFind bd_id k (buildings d)")
      case None
      then show ?thesis by (simp add: ReactivateBuilding BuildingsService_reactivateBuilding_def outcome_answered)
    next
      case (Some b)
      have "\<forall>x\<in>set (buildings d). bd_id x = k \<longrightarrow> bd_companyId x \<in> ?A" if "bd_companyId b \<in> ownedBy p d"
        using that rowFind_Some [OF Some] same_key [of bd_id "buildings d" b] K by auto
      then show ?thesis
        by (auto simp: ReactivateBuilding Some BuildingsService_reactivateBuilding_def outcome_answered
            intro!: outcome_asOwner outcome_transaction intro: reactivate_view)
    qed
  qed
  then show ?thesis by (simp add: outcome_def)
qed

text \<open>The owner of company \<open>a\<close> sells ore; the same request for the bot's company is refused.\<close>

definition sellOre :: "string \<Rightarrow> playerRequest" where
  "sellOre cid = PlaceOrder \<lparr>rq_companyId = cid, rq_itemId = ''ore'', rq_regionId = None, rq_side = SELL,
     rq_quantity = IntN 3, rq_priceCents = IntN 80\<rparr>"

lemma request_confined_witness:
  "keysOk fixtureDb \<and> fst (serve fixtureEnv Map.empty 0 ''p1'' (sellOre ''a'') fixtureDb) = Inr () \<and>
   snd (serve fixtureEnv Map.empty 0 ''p1'' (sellOre ''a'') fixtureDb) \<noteq> fixtureDb \<and>
   othersView {''a''} (snd (serve fixtureEnv Map.empty 0 ''p1'' (sellOre ''a'') fixtureDb)) = othersView {''a''} fixtureDb \<and>
   serve fixtureEnv Map.empty 0 ''p1'' (sellOre ''b'') fixtureDb =
     (Inl (ForbiddenError ''company access is forbidden for current player''), fixtureDb)"
proof -
  have keys: "keysOk fixtureDb" by code_simp
  have sold: "fst (serve fixtureEnv Map.empty 0 ''p1'' (sellOre ''a'') fixtureDb) = Inr ()" by code_simp
  have new: "length (marketOrders (snd (serve fixtureEnv Map.empty 0 ''p1'' (sellOre ''a'') fixtureDb))) \<noteq>
    length (marketOrders fixtureDb)" by code_simp
  have refused: "fst (serve fixtureEnv Map.empty 0 ''p1'' (sellOre ''b'') fixtureDb) =
    Inl (ForbiddenError ''company access is forbidden for current player'')" by code_simp
  have "ownedBy ''p1'' fixtureDb \<union> partner (sellOre ''a'') fixtureDb = {''a''}" by code_simp
  with request_confined [OF keys, where E = fixtureEnv and v = Map.empty and hours = 0 and p = "''p1''" and req = "sellOre ''a''"]
    request_confined [OF keys, where E = fixtureEnv and v = Map.empty and hours = 0 and p = "''p1''" and req = "sellOre ''b''"] keys sold new refused
  show ?thesis by (auto split: prod.splits sum.splits)
qed

end
