(* ===== verification/WorldHistory.thy ===== *)
theory WorldHistory
  imports PlayerIsolation WorkerRuntime CatalogSync
begin

section \<open>The life of a world\<close>

text \<open>
  What each request of a player guarantees to the other clients of the database, the operator's service
  of \<open>apps/api/src/world/world.service.ts\<close>, and the histories of a world: requests, ticks, lease statements,
  synchronisations of the catalogue and resets in any order keep it sound.
\<close>

subsection \<open>What a request leaves in order\<close>

text \<open>
  What every transaction leaves to the next: the invariant of the economy, workforces in range if they
  were, and the clock, the execution records, the control flags and the leases as they are.
\<close>

definition kept :: "db \<Rightarrow> db \<Rightarrow> bool" where
  "kept d d' \<longleftrightarrow> tickOk d' \<and> (staffed d \<longrightarrow> staffed d') \<and> worldTickRow d' = worldTickRow d \<and>
     simulationTickExecutions d' = simulationTickExecutions d \<and> controlRow d' = controlRow d \<and>
     simulationLeases d' = simulationLeases d"

lemma kept_refl: "tickOk d \<Longrightarrow> kept d d"
  by (simp add: kept_def)

text \<open>The tables the invariants read beside the accounts, and the workforce columns of the companies.\<close>

definition frame where
  "frame d = (masters d, map workforceState (companies d))"

lemma staffed_states: "staffed d \<longleftrightarrow> (\<forall>w\<in>set (map workforceState (companies d)). workforceStateOk w)"
  by (simp add: staffed_def)

lemma kept_frame:
  assumes "tickOk d" "marketOk d'" "frame d' = frame d"
  shows "kept d d'"
proof -
  have "staffed d' = staffed d" using assms(3) unfolding staffed_states by (simp only: frame_def prod.inject)
  with assms tickOk_masters [of d d'] show ?thesis by (simp add: kept_def frame_def masters_def)
qed

lemma map_mapWhere_same: "(\<And>r. g (f r) = g r) \<Longrightarrow> map g (mapWhere P f rs) = map g rs"
  by (induction rs) (auto simp: mapWhere_def)

lemmas frame_simps = frame_def masters_def map_rowSet_same map_mapWhere_same workforceState_def updateRow_Inr
  createRow_Inr createLedgerEntry_Inr andThen_Inr_iff branch_Inr updateExactlyOne_def

lemma upsertInventory_frame': "upsertInventory cid iid rid f q res d = Inr (r, d') \<Longrightarrow> frame d' = frame d"
  by (auto simp: upsertInventory_def frame_simps split: option.splits)

lemma adjustStock_frame: "adjustStock cid rid q r reqs d = Inr d' \<Longrightarrow> frame d' = frame d"
  by (drule adjustStock_state) (simp add: frame_def masters_def)

lemma place_frame:
  assumes "placeMarketOrderWithTx E input d = Inr (x, d')"
  shows "frame d' = frame d"
  using assms
proof (cases rule: placeMarketOrder_cases)
  case (1 c tick)
  then show ?thesis by (auto simp: placeBuyOrder_def newOrder_def Let_def frame_simps split: if_splits)
next
  case (2 c tick)
  then show ?thesis
    by (auto simp: placeSellOrder_def newOrder_def Let_def frame_simps split: if_splits option.splits)
qed

lemma cancel_frame:
  assumes "cancelMarketOrderWithTx E input d = Inr (x, d')"
  shows "frame d' = frame d"
  using assms
proof (cases rule: cancelMarketOrder_cases)
  case (2 y d1 d2 tick)
  have "frame d1 = frame d" using 2(3)
    by (auto simp: releaseBuyReserve_def Let_def frame_simps split: if_splits option.splits)
  moreover have "frame d2 = frame d1" using 2(4)
    by (auto simp: releaseSellReserve_def Let_def frame_simps split: if_splits option.splits)
  moreover have "frame d' = frame d2" using 2(5) by (auto simp: frame_simps)
  ultimately show ?thesis by simp
qed simp

lemma createJob_frame: "createProductionJobWithTx E input d = (Inr job, d') \<Longrightarrow> frame d' = frame d"
  by (erule createProductionJobWithTx_Inr) (auto simp: createRow_Inr frame_def masters_def dest!: adjustStock_frame)

text \<open>Cancelling a job releases what \<open>releaseReservedInventoryForProduction\<close> has found reserved.\<close>

lemma cancelJob_keeps:
  assumes "cancelProductionJobWithTx E input d = Inr (job, d')" and "marketOk d" and "recipesOk d"
  shows "marketOk d'" and "frame d' = frame d"
proof -
  from assms(1) obtain j where j: "rowFind pj_id (xj_jobId input) (productionJobs d) = Some j"
    by (auto simp: cancelProductionJobWithTx_def Let_def andThen_Inr_iff split: option.splits)
  have "marketOk d' \<and> frame d' = frame d"
  proof (cases "pj_status j = JobIN_PROGRESS")
    case False
    then have "d' = d" using assms(1) j by (auto simp: cancelProductionJobWithTx_def Let_def andThen_Inr_iff)
    then show ?thesis using assms(2) by simp
  next
    case True
    with assms(1) j obtain rid reqs msg d1 f where c: "recipeRequirements E (pj_recipeId j) (IntN (pj_runs j)) d = Inr reqs"
      and check: "checkRequirements releaseReservedInventoryForProduction msg (pj_companyId j) rid d reqs = Inr ()"
      and d1: "adjustStock (pj_companyId j) rid 0 (- 1) reqs d = Inr d1"
      and up: "updateRow pj_id productionJobs productionJobs_update (pj_id j) f d1 = Inr (job, d')"
      by (auto simp: cancelProductionJobWithTx_def Let_def andThen_Inr_iff closeJob_Inr)
    have "marketOk d1"
    proof (rule adjustStock_market [OF d1 assms(2)])
      show "distinct (map fst reqs)" using requirements_facts(2) [OF c assms(3)] .
      fix i q r
      assume "(i, q) \<in> set reqs" "findInventory (pj_companyId j) i rid d = Some r"
      with check marketOk_inventory [OF assms(2)] show
        "0 \<le> inv_reservedQuantity r + - 1 * q \<and> inv_reservedQuantity r + - 1 * q \<le> inv_quantity r + 0 * q"
        by (fastforce simp: checkRequirements_Inr release_Inr)
    qed
    then have "marketOk d'" using up by (auto simp: updateRow_Inr intro: marketOk_same)
    moreover have "frame d' = frame d1" using up by (auto simp: frame_simps)
    ultimately show ?thesis using adjustStock_frame [OF d1] by simp
  qed
  then show "marketOk d'" "frame d' = frame d" by simp_all
qed

text \<open>A shipment takes free stock and free cash.\<close>

lemma shipment_keeps:
  assumes "createShipmentWithTx E input overrides d = Inr (s, d')" and "marketOk d"
  shows "marketOk d'" and "frame d' = frame d"
proof -
  from assms(1) have "marketOk d' \<and> frame d' = frame d"
  proof (cases rule: createShipmentWithTx_Inr)
    case (1 c toR fromR config tick t fee r)
    let ?k = "(co_id c, cs_itemId input, co_regionId c)"
    from dispatchShipment_Inr [OF 1(15) assms(2) 1(1,12)] obtain d1 d2 d3 c' r' where
      d1: "updateInventory ?k (\<lambda>r. r\<lparr>inv_quantity := inv_quantity r - num (cs_quantity input)\<rparr>) d = Inr (r', d1)" and
      d2: "updateCompany (cs_companyId input) (\<lambda>x. x\<lparr>co_cashCents := co_cashCents c - fee\<rparr>) d1 = Inr (c', d2)" and
      d3: "createShipmentRow s d2 = Inr (s, d3)" and
      same: "companies d' = companies d3" "inventories d' = inventories d3" "marketOrders d' = marketOrders d3"
      by blast
    have m1: "marketOk d1"
      by (rule marketOk_updateInventory [OF d1 assms(2)])
        (use d1 1(4,12,13) marketOk_inventory [OF assms(2) 1(12)] in \<open>auto simp: invKey_def inventoryOk_iff updateRow_Inr\<close>)
    have m2: "marketOk d2"
      by (rule marketOk_updateCompany [OF d2 m1])
        (use d1 d2 1(1,14) marketOk_company [OF assms(2) 1(1)] in \<open>auto simp: companyOk_iff updateRow_Inr\<close>)
    have "marketOk d'" by (rule marketOk_same [OF m2]) (use d3 same in \<open>simp_all add: createRow_Inr\<close>)
    moreover have "frame d' = frame d"
      using 1(15) by (auto simp: dispatchShipment_def Let_def frame_simps split: if_splits)
    ultimately show ?thesis by simp
  qed
  then show "marketOk d'" "frame d' = frame d" by simp_all
qed

lemma cancelShipment_keeps:
  assumes "cancelShipmentWithTx input d = Inr (s, d')" and "marketOk d" and "\<forall>x\<in>set (shipments d). 0 \<le> sh_quantity x"
  shows "marketOk d'" and "frame d' = frame d"
proof -
  from assms(1) obtain x where x: "rowFind sh_id (xs_shipmentId input) (shipments d) = Some x"
    by (auto simp: cancelShipmentWithTx_def andThen_Inr_iff split: option.splits if_splits)
  have "marketOk d' \<and> frame d' = frame d"
  proof (cases "sh_status x = ShipmentIN_TRANSIT")
    case False
    then have "d' = d" using assms(1) x by (auto simp: cancelShipmentWithTx_def andThen_Inr_iff split: if_splits)
    then show ?thesis using assms(2) by simp
  next
    case True
    with assms(1) x obtain d1 f r where d1: "d1 = shipments_update f d"
      and up: "upsertInventory (sh_companyId x) (sh_itemId x) (sh_fromRegionId x)
        (\<lambda>r. r\<lparr>inv_quantity := inv_quantity r + sh_quantity x\<rparr>) (sh_quantity x) 0 d1 = Inr (r, d')"
      by (auto simp: cancelShipmentWithTx_def andThen_Inr_iff updateExactlyOne_def split: if_splits option.splits)
    have "marketOk d1" by (rule marketOk_same [OF assms(2)]) (simp_all add: d1)
    from marketOk_addStock [OF up this] have "marketOk d'" using assms(3) rowFind_Some [OF x] by simp
    moreover have "frame d1 = frame d" by (simp add: d1 frame_def masters_def)
    ultimately show ?thesis using upsertInventory_frame' [OF up] by simp
  qed
  then show "marketOk d'" "frame d' = frame d" by simp_all
qed

text \<open>Contracts and research.\<close>

lemma accept_keeps:
  assumes "acceptContractWithTx input d = Inr (c', d')"
  shows "marketOk d \<Longrightarrow> marketOk d'" and "frame d' = frame d"
proof -
  have "companies d' = companies d" "inventories d' = inventories d" "marketOrders d' = marketOrders d"
    using assms by (auto simp: acceptContractWithTx_def updateExactlyOne_def andThen_Inr_iff Let_def split: option.splits if_splits)
  then show "marketOk d \<Longrightarrow> marketOk d'" using marketOk_same by blast
  show "frame d' = frame d"
    using assms by (auto simp: acceptContractWithTx_def frame_simps Let_def split: option.splits if_splits)
qed

lemma fulfill_frame:
  assumes "fulfillContractWithTx E input d = Inr ((c', f), d')"
  shows "frame d' = frame d"
  using assms
proof (cases rule: fulfillContractWithTx_Inr)
  case (1 tick c buyer seller r d1 d2 d3 d4)
  have "frame d1 = frame d" using 1(10)
    by (auto simp: moveContractGoods_def Let_def frame_simps split: if_splits dest!: upsertInventory_frame')
  moreover have "frame d2 = frame d1" using 1(11) by (auto simp: moveContractCash_def Let_def frame_simps split: if_splits)
  moreover have "frame d3 = frame d2" using 1(12) by (auto simp: frame_simps)
  moreover have "frame d4 = frame d3" using 1(15) by (auto simp: advanceContract_def Let_def frame_simps split: if_splits)
  moreover have "frame d' = frame d4"
    using 1(16) by (auto simp: recordContractLedger_def Let_def frame_simps split: option.splits if_splits)
  ultimately show ?thesis by simp
qed

lemma upsertCompanyResearch_same:
  assumes "upsertCompanyResearch f new d = Inr (r, d')"
  shows "companies d' = companies d" "inventories d' = inventories d" "marketOrders d' = marketOrders d"
    "masters d' = masters d"
  using assms by (auto simp: upsertRow_def updateRow_Inr createRow_Inr masters_def split: option.splits)

lemma startResearch_keeps:
  assumes "startResearchWithTx E input d = Inr (job, d')" and "marketOk d"
    and "\<And>c node. findCompany (re_companyId input) d = Some c \<Longrightarrow>
      rowFind rn_id (re_nodeId input) (researchNodes d) = Some node \<Longrightarrow>
      rn_costCashCents node \<le> co_cashCents c - co_reservedCashCents c"
  shows "marketOk d'" and "frame d' = frame d"
proof -
  from assms(1) have "marketOk d' \<and> frame d' = frame d"
  proof (cases rule: startResearchWithTx_Inr)
    case (1 c node t d1 d2 d3)
    have up: "updateCompany (co_id c) (\<lambda>x. x\<lparr>co_cashCents := co_cashCents c - rn_costCashCents node\<rparr>) d =
        Inr (c\<lparr>co_cashCents := co_cashCents c - rn_costCashCents node\<rparr>, d1)"
      using 1(1,4) rowFind_key [OF 1(1)] by (simp add: updateRow_def)
    have m1: "marketOk d1"
      by (rule marketOk_updateCompany [OF up assms(2)])
        (use 1(1) assms(3) [OF 1(1,2)] marketOk_company [OF assms(2) 1(1)] in \<open>auto simp: companyOk_iff\<close>)
    have rows: "companies d' = companies d1" "inventories d' = inventories d1" "marketOrders d' = marketOrders d1"
    proof -
      have "companies d3 = companies d2" "inventories d3 = inventories d2" "marketOrders d3 = marketOrders d2"
        using 1(9) upsertCompanyResearch_same by blast+
      then show "companies d' = companies d1" "inventories d' = inventories d1" "marketOrders d' = marketOrders d1"
        using 1(5,10) by (auto simp: createRow_Inr createLedgerEntry_Inr)
    qed
    have "marketOk d'" by (rule marketOk_same [OF m1 rows])
    moreover have "frame d1 = frame d" by (simp add: 1(4) frame_simps)
    moreover have "masters d' = masters d1"
    proof -
      have "masters d2 = masters d1" using 1(5) by (auto simp: createRow_Inr masters_def)
      moreover have "masters d3 = masters d2" using 1(9) upsertCompanyResearch_same by blast
      moreover have "masters d' = masters d3" using 1(10) by (auto simp: createLedgerEntry_Inr masters_def)
      ultimately show ?thesis by simp
    qed
    ultimately show ?thesis using rows(1) by (simp add: frame_def)
  qed
  then show "marketOk d'" "frame d' = frame d" by simp_all
qed

lemma cancelResearch_keeps:
  assumes "cancelResearchWithTx E input d = Inr (job, d')"
  shows "marketOk d \<Longrightarrow> marketOk d'" and "frame d' = frame d"
proof -
  from assms obtain j r r' t st d1 where "List.find (isRunningJob (re_companyId input) (re_nodeId input)) (researchJobs d) = Some j"
    and up: "updateResearchJob (rj_id j) (\<lambda>j. j\<lparr>rj_status := ResearchCANCELLED, rj_tickClosed := Some t\<rparr>) d = Inr (r, d1)"
    and node: "upsertCompanyResearch (\<lambda>r. r\<lparr>cx_status := st\<rparr>)
          \<lparr>cx_id = newId E d1, cx_companyId = re_companyId input, cx_nodeId = re_nodeId input,
           cx_status = st, cx_tickStarted = None, cx_tickCompletes = None\<rparr> d1 = Inr (r', d')"
    by (auto simp: cancelResearchWithTx_def andThen_Inr_iff Let_def split: option.splits)
  have "companies d1 = companies d" "inventories d1 = inventories d" "marketOrders d1 = marketOrders d" "masters d1 = masters d"
    using up by (auto simp: updateRow_Inr masters_def)
  then have rows: "companies d' = companies d" "inventories d' = inventories d" "marketOrders d' = marketOrders d" "masters d' = masters d"
    using upsertCompanyResearch_same [OF node] by simp_all
  show "marketOk d \<Longrightarrow> marketOk d'" using marketOk_same rows by blast
  show "frame d' = frame d" using rows by (simp add: frame_def)
qed

text \<open>Workforce, specialization and buildings.\<close>

lemma reactivate_keeps:
  assumes "reactivateBuildingWithTx bid tick d = Inr (b, d')"
  shows "marketOk d \<Longrightarrow> marketOk d'" and "frame d' = frame d"
proof -
  have rows: "companies d' = companies d" "inventories d' = inventories d" "marketOrders d' = marketOrders d"
    using assms by (auto simp: reactivateBuildingWithTx_def updateRow_Inr split: option.splits if_splits)
  show "marketOk d \<Longrightarrow> marketOk d'" using marketOk_same rows by blast
  show "frame d' = frame d"
    using assms by (auto simp: reactivateBuildingWithTx_def frame_simps split: option.splits if_splits)
qed

lemma acquire_kept:
  assumes "acquireBuildingWithTx E input d = Inr (b, d')" and "tickOk d" and "0 \<le> ab_weeklyOperatingCostCents input"
  shows "kept d d'"
proof -
  from assms(2) have ok: "marketOk d" "recipesOk d" "outputsOk d"
    "\<forall>b\<in>set (buildings d). 0 \<le> bd_weeklyOperatingCostCents b" by (simp_all add: tickOk_def)
  from acquire_building_paid [OF assms(1) ok(1)] have paid: "marketOk d'" "buildings d' = buildings d @ [b]" by simp_all
  have b: "bd_weeklyOperatingCostCents b = ab_weeklyOperatingCostCents input"
    and same: "recipes d' = recipes d" "recipeInputs d' = recipeInputs d"
      "map workforceState (companies d') = map workforceState (companies d)"
    and clock: "worldTickRow d' = worldTickRow d" "simulationTickExecutions d' = simulationTickExecutions d"
      "controlRow d' = controlRow d" "simulationLeases d' = simulationLeases d"
    using assms(1) by (auto simp: acquireBuildingWithTx_def newBuilding_def Let_def frame_simps split: option.splits if_splits)
  have "recipesOk d'" "outputsOk d'" using ok(2,3) same by (simp_all add: recipesOk_def outputsOk_def)
  moreover have "staffed d' = staffed d" unfolding staffed_states same ..
  ultimately show ?thesis using paid b ok(4) assms(3) clock by (simp add: kept_def tickOk_def)
qed

lemma staffed_update:
  "staffed d \<Longrightarrow> companies d' = rowSet co_id cid f (companies d) \<Longrightarrow>
     (\<And>c. c \<in> set (companies d) \<Longrightarrow> workforceStateOk (workforceState c) \<Longrightarrow> co_id c = cid \<Longrightarrow> workforceStateOk (workforceState (f c))) \<Longrightarrow> staffed d'"
  by (auto simp: staffed_def rowSet_def)

lemma allocation_kept:
  assumes "updateCompany cid
      (\<lambda>c. c\<lparr>co_workforceAllocationOpsPct := num (operationsPct input), co_workforceAllocationRngPct := num (researchPct input),
            co_workforceAllocationLogPct := num (logisticsPct input), co_workforceAllocationCorpPct := num (corporatePct input)\<rparr>) d =
      Inr (c', d')"
    and "assertValidWorkforceAllocation input = Inr ()" and "tickOk d"
  shows "kept d d'"
proof -
  have ok: "tickOk d" "marketOk d" using assms(3) by (simp_all add: tickOk_def)
  have "marketOk d'"
    by (rule marketOk_updateCompany [OF assms(1) ok(2)])
      (use assms(1) marketOk_company [OF ok(2)] in \<open>auto simp: companyOk_iff updateRow_Inr\<close>)
  moreover have "masters d' = masters d" using assms(1) by (auto simp: masters_def updateRow_Inr)
  moreover have "staffed d'" if "staffed d"
  proof (rule staffed_update [OF that])
    show "companies d' = rowSet co_id cid
        (\<lambda>c. c\<lparr>co_workforceAllocationOpsPct := num (operationsPct input), co_workforceAllocationRngPct := num (researchPct input),
            co_workforceAllocationLogPct := num (logisticsPct input), co_workforceAllocationCorpPct := num (corporatePct input)\<rparr>)
        (companies d)"
      using assms(1) by (auto simp: updateRow_Inr)
  qed (use assms(2) in \<open>auto simp: workforceStateOk_def workforceState_def assertValidWorkforceAllocation_def
      andThen_Inr_iff ensure_iffs Let_def split: if_splits\<close>)
  ultimately show ?thesis using tickOk_masters [OF ok(1)] by (simp add: kept_def masters_def)
qed

lemma specialization_keeps:
  assumes "updateCompany cid (\<lambda>c. c\<lparr>co_specialization := s, co_specializationChangedAt := t\<rparr>) d = Inr (c', d')" and "marketOk d"
  shows "marketOk d'" and "frame d' = frame d"
proof -
  show "marketOk d'"
    by (rule marketOk_updateCompany [OF assms])
      (use assms(1) marketOk_company [OF assms(2)] in \<open>auto simp: companyOk_iff updateRow_Inr\<close>)
  show "frame d' = frame d" using assms(1) by (auto simp: frame_simps)
qed

lemma capacity_kept:
  assumes "requestCompanyWorkforceCapacityChange E cid n overrides d = (Inr r, d')" and "tickOk d"
  shows "kept d d'"
proof -
  have ok: "tickOk d" "marketOk d" using assms(2) by (simp_all add: tickOk_def)
  from assms(1) obtain k where n: "n = IntN k"
    by (cases n) (auto simp: requestCompanyWorkforceCapacityChange_def split: if_splits)
  have market: "marketOk d'" using capacity_change_effect [OF assms(1) [unfolded n] ok(2)] by simp
  from assms(1) n obtain config where tx: "changeCapacityWithTx E config cid k d = Inr (r, d')"
    by (auto simp: requestCompanyWorkforceCapacityChange_def transaction_def split: if_splits sum.splits)
  from tx obtain c where c: "findCompany cid d = Some c"
    and body: "(if k < 0 then reduceCapacity config c k (worldTick d) d
        else hireCapacity E config c k (worldTick d) d) = Inr (r, d')"
    by (auto simp: changeCapacityWithTx_def andThen_Inr_iff Let_def split: option.splits)
  have "masters d' = masters d \<and> (staffed d \<longrightarrow> staffed d')"
  proof (cases "k < 0")
    case True
    let ?f = "\<lambda>x. x\<lparr>co_workforceCapacity := co_workforceCapacity c - \<bar>k\<bar>,
      co_orgEfficiencyBps := clampEfficiencyBps (co_orgEfficiencyBps c - num (layoffEfficiencyPenaltyBps config))\<rparr>"
    from body True have rows: "companies d' = rowSet co_id (co_id c) ?f (companies d)" "\<bar>k\<bar> \<le> co_workforceCapacity c"
      and "masters d' = masters d"
      by (auto simp: reduceCapacity_def Let_def andThen_Inr_iff updateRow_Inr masters_def split: if_splits)
    moreover have "staffed d'" if "staffed d"
      by (rule staffed_update [OF that rows(1)])
        (use rows(2) clampEfficiency_bounds in \<open>auto simp: workforceStateOk_def workforceState_def\<close>)
    ultimately show ?thesis by simp
  next
    case False
    with body have "frame d' = frame d"
      by (auto simp: hireCapacity_def Let_def frame_simps split: if_splits)
    with kept_frame [OF assms(2) market] show ?thesis by (simp add: frame_def kept_def)
  qed
  with market tickOk_masters [OF ok(1)] show ?thesis by (simp add: kept_def masters_def)
qed

subsection \<open>Requests\<close>

text \<open>
  The two requests that spend cash without looking at what is reserved (\<open>startResearch\<close>,
  \<open>fulfillContract\<close>) are affordable when the cash that is not reserved pays for them; a cancelled
  shipment gives its goods back, which must not be a negative amount.
\<close>

definition freeCash :: "company \<Rightarrow> int" where
  "freeCash c = co_cashCents c - co_reservedCashCents c"

fun affordable :: "string \<Rightarrow> playerRequest \<Rightarrow> db \<Rightarrow> bool" where
  "affordable p (StartNode nid cid) d =
     (case (resolveOwnedCompanyId (trim p) cid d, rowFind rn_id nid (researchNodes d)) of
       (Inr k, Some node) \<Rightarrow> (case findCompany k d of Some c \<Rightarrow> rn_costCashCents node \<le> freeCash c | None \<Rightarrow> True)
     | _ \<Rightarrow> True)"
| "affordable p (FulfillContract k cid n) d =
     (distinct (map ct_id (contracts d)) \<and>
      (case findContract k d of
        None \<Rightarrow> True
      | Some c \<Rightarrow> 0 \<le> ct_priceCents c \<and>
          (case findCompany (ct_buyerCompanyId c) d of
            None \<Rightarrow> True
          | Some buyer \<Rightarrow> ct_buyerCompanyId c = cid \<or> ct_priceCents c * num n \<le> freeCash buyer)))"
| "affordable p (CancelShipment sid) d = list_all (\<lambda>s. 0 \<le> sh_quantity s) (shipments d)"
| "affordable p _ d = True"

lemma outcome_kept:
  assumes "tickOk d" and "\<And>x d'. body d = Inr (x, d') \<Longrightarrow> marketOk d' \<and> frame d' = frame d"
  shows "outcome (kept d) d (transaction body d)"
  by (rule outcome_transaction) (use assms kept_frame in blast)

lemma tickOk_parts: "tickOk d \<Longrightarrow> marketOk d \<and> recipesOk d"
  by (simp add: tickOk_def)

lemma fulfill_kept:
  assumes "tickOk d" and "affordable p (FulfillContract k cid n) d"
  shows "outcome (kept d) d (fulfillContract E \<lparr>fc_contractId = k, fc_sellerCompanyId = cid, fc_quantity = n, fc_tick = None\<rparr> d)"
proof -
  let ?input = "\<lparr>fc_contractId = k, fc_sellerCompanyId = cid, fc_quantity = n, fc_tick = None\<rparr>"
  have "marketOk d' \<and> frame d' = frame d"
    if run: "fulfillContractWithTx E ?input d = Inr (x, d')" and n: "0 < num n" for x d'
  proof -
    obtain c' f where x: "x = (c', f)" by (cases x)
    from run obtain c where c: "findContract k d = Some c" unfolding x by (rule fulfillContractWithTx_Inr) simp
    have price: "0 \<le> ct_priceCents c" "distinct (map ct_id (contracts d))" using assms(2) c by simp_all
    from fulfillContract_effect [OF run [unfolded x] conjunct1 [OF tickOk_parts [OF assms(1)]]] n c price
    obtain buyer where "findCompany (ct_buyerCompanyId c) d = Some buyer"
      "marketOk d' \<longleftrightarrow> ct_buyerCompanyId c = cid \<or> ct_priceCents c * num n \<le> co_cashCents buyer - co_reservedCashCents buyer"
      by auto
    then have "marketOk d'" using assms(2) c by (simp add: freeCash_def)
    then show ?thesis using fulfill_frame [OF run [unfolded x]] by simp
  qed
  then show ?thesis by (auto simp: fulfillContract_def intro!: outcome_kept [OF assms(1)])
qed

lemma start_kept:
  assumes "tickOk d" and "affordable p (StartNode nid cid) d" and "resolveOwnedCompanyId (trim p) cid d = Inr k"
  shows "outcome (kept d) d (startResearch E \<lparr>re_companyId = k, re_nodeId = nid, re_tick = None\<rparr> d)"
proof -
  have cash: "rn_costCashCents node \<le> co_cashCents c - co_reservedCashCents c"
    if "findCompany k d = Some c" "rowFind rn_id nid (researchNodes d) = Some node" for c node
    using assms(2,3) that by (simp add: freeCash_def)
  have "marketOk d' \<and> frame d' = frame d"
    if "startResearchWithTx E \<lparr>re_companyId = k, re_nodeId = nid, re_tick = None\<rparr> d = Inr (x, d')" for x d'
    using startResearch_keeps [OF that conjunct1 [OF tickOk_parts [OF assms(1)]]] cash by simp
  then show ?thesis by (auto simp: startResearch_def intro!: outcome_kept [OF assms(1)] split: sum.splits)
qed

lemma specialization_kept: "tickOk d \<Longrightarrow> outcome (kept d) d (setCompanySpecialization E hours input d)"
  by (rule outcome_specialization) (auto dest: specialization_keeps tickOk_parts intro: kept_frame)

lemma createJob_kept:
  assumes "tickOk d"
  shows "outcome (kept d) d (createProductionJob E input d)"
proof -
  have "marketOk d' \<and> frame d' = frame d" if "createProductionJobWithTx E input d = (Inr job, d')" for job d'
    using createProductionJobWithTx_market [of d E input] tickOk_parts [OF assms] createJob_frame [OF that] that by simp
  then show ?thesis
    by (auto simp: createProductionJob_def intro!: outcome_kept [OF assms] split: sum.splits prod.splits)
qed

lemma place_kept:
  assumes "tickOk d"
  shows "outcome (kept d) d (placeMarketOrder E input d)"
proof -
  note m = conjunct1 [OF tickOk_parts [OF assms]]
  show ?thesis
    by (auto simp: placeMarketOrder_def intro!: outcome_kept [OF assms] intro: marketOk_place [OF _ m] place_frame split: sum.splits)
qed

lemma cancel_kept:
  assumes "tickOk d"
  shows "outcome (kept d) d (cancelMarketOrder E input d)"
proof -
  note m = conjunct1 [OF tickOk_parts [OF assms]]
  show ?thesis
    by (auto simp: cancelMarketOrder_def intro!: outcome_kept [OF assms] intro: marketOk_cancel [OF _ m] cancel_frame split: sum.splits)
qed

lemma cancelJob_kept:
  assumes "tickOk d"
  shows "outcome (kept d) d (cancelProductionJob E input d)"
proof -
  note m = conjunct1 [OF tickOk_parts [OF assms]]
  show ?thesis
    by (auto simp: cancelProductionJob_def intro!: outcome_kept [OF assms] intro: cancelJob_keeps(1) [OF _ m conjunct2 [OF tickOk_parts [OF assms]]]
        cancelJob_keeps(2) [OF _ m conjunct2 [OF tickOk_parts [OF assms]]] split: sum.splits)
qed

lemma accept_kept:
  assumes "tickOk d"
  shows "outcome (kept d) d (acceptContract input d)"
proof -
  note m = conjunct1 [OF tickOk_parts [OF assms]]
  show ?thesis
    by (auto simp: acceptContract_def intro!: outcome_kept [OF assms] intro: accept_keeps(1) [OF _ m] accept_keeps(2))
qed

lemma shipment_kept:
  assumes "tickOk d"
  shows "outcome (kept d) d (createShipment E input overrides d)"
proof -
  note m = conjunct1 [OF tickOk_parts [OF assms]]
  show ?thesis
    by (auto simp: createShipment_def intro!: outcome_kept [OF assms] intro: shipment_keeps [OF _ m])
qed

lemma cancelResearch_kept:
  assumes "tickOk d"
  shows "outcome (kept d) d (cancelResearch E input d)"
proof -
  note m = conjunct1 [OF tickOk_parts [OF assms]]
  show ?thesis
    by (auto simp: cancelResearch_def intro!: outcome_kept [OF assms] intro: cancelResearch_keeps(1) [OF _ m] cancelResearch_keeps(2) split: sum.splits)
qed

lemma reactivate_kept:
  assumes "tickOk d"
  shows "outcome (kept d) d (transaction (reactivateBuildingWithTx bid tick) d)"
proof -
  note m = conjunct1 [OF tickOk_parts [OF assms]]
  show ?thesis
    by (auto intro!: outcome_kept [OF assms] intro: reactivate_keeps(1) [OF _ m] reactivate_keeps(2))
qed

lemma cancelShipment_kept:
  assumes "tickOk d" and "affordable p (CancelShipment k) d"
  shows "outcome (kept d) d (cancelShipment input d)"
proof -
  have q: "\<forall>x\<in>set (shipments d). 0 \<le> sh_quantity x" using assms(2) by (simp add: list_all_iff)
  note k = cancelShipment_keeps [OF _ conjunct1 [OF tickOk_parts [OF assms(1)]] q]
  show ?thesis by (auto simp: cancelShipment_def intro!: outcome_kept [OF assms(1)] intro: k)
qed

lemma allocation_outcome: "tickOk d \<Longrightarrow> outcome (kept d) d (setCompanyWorkforceAllocation cid input d)"
  by (auto simp: setCompanyWorkforceAllocation_def andThen_Inr_iff intro!: outcome_transaction
      split: sum.splits option.splits intro: allocation_kept)

lemma capacity_outcome: "tickOk d \<Longrightarrow> outcome (kept d) d (requestCompanyWorkforceCapacityChange E cid n overrides d)"
  using capacity_kept [of E cid n overrides d]
  by (auto simp: outcome_def requestCompanyWorkforceCapacityChange_def transaction_def split: prod.splits sum.splits)

lemma building_costs_fixed: "BigInt (bt_weeklyOperatingCostCents (BUILDING_DEFINITIONS t)) = Inr n \<Longrightarrow> 0 \<le> n"
proof -
  have "list_all (\<lambda>t. case BigInt (bt_weeklyOperatingCostCents (BUILDING_DEFINITIONS t)) of Inl _ \<Rightarrow> False | Inr n \<Rightarrow> 0 \<le> n)
    [WORKSHOP, MINE, FARM, FACTORY, MEGA_FACTORY, WAREHOUSE, HEADQUARTERS, RND_CENTER]" by code_simp
  moreover assume "BigInt (bt_weeklyOperatingCostCents (BUILDING_DEFINITIONS t)) = Inr n"
  ultimately show "0 \<le> n" by (cases t) simp_all
qed

lemma serve_kept:
  assumes "tickOk d" and "affordable p req d"
  shows "outcome (kept d) d (serve E v hours p req d)"
proof (cases req)
  case (PlaceOrder input)
  then show ?thesis using assms(1)
    by (auto simp: MarketService_placeOrder_def outcome_answered intro!: outcome_asOwner place_kept)
next
  case (CancelOrder k)
  then show ?thesis using assms(1)
    by (auto simp: MarketService_cancelOrder_def outcome_answered intro!: outcome_asPlayer cancel_kept)
next
  case (CreateJob cid rid n)
  then show ?thesis using assms(1)
    by (auto simp: ProductionService_createJob_def outcome_answered intro!: outcome_asOwner createJob_kept)
next
  case (CancelJob k)
  then show ?thesis using assms(1)
    by (auto simp: ProductionService_cancelJob_def outcome_answered intro!: outcome_asPlayer cancelJob_kept)
next
  case (AcceptContract k cid)
  then show ?thesis using assms(1)
    by (auto simp: ContractsService_acceptContract_def outcome_answered intro!: outcome_asOwner accept_kept)
next
  case (FulfillContract k cid n)
  then show ?thesis using assms
    by (auto simp: ContractsService_fulfillContract_def outcome_answered simp del: affordable.simps
        intro!: outcome_asOwner fulfill_kept [where p = p])
next
  case (CreateShipment cid rid iid n)
  then show ?thesis using assms(1)
    by (auto simp: ShipmentsService_create_def outcome_answered
        intro!: outcome_asOwner shipment_kept split: sum.splits)
next
  case (CancelShipment k)
  then show ?thesis using assms
    by (auto simp: ShipmentsService_cancel_def outcome_answered simp del: affordable.simps
        intro!: outcome_asPlayer cancelShipment_kept)
next
  case (StartNode nid cid)
  then show ?thesis using assms
    by (auto simp: ResearchService_startNode_def outcome_answered simp del: affordable.simps
        intro!: outcome_withOwnedCompany start_kept)
next
  case (CancelNode nid cid)
  then show ?thesis using assms(1)
    by (auto simp: ResearchService_cancelNode_def outcome_answered
        intro!: outcome_withOwnedCompany cancelResearch_kept)
next
  case (SetAllocation cid a)
  then show ?thesis using assms(1)
    by (auto simp: WorkforceService_setAllocation_def outcome_answered intro!: outcome_asOwner allocation_outcome)
next
  case (RequestCapacityChange cid n)
  then show ?thesis using assms(1)
    by (auto simp: WorkforceService_requestCapacityChange_def outcome_answered intro!: outcome_asOwner capacity_outcome)
next
  case (SetSpecialization cid s)
  then show ?thesis using assms(1)
    by (auto simp: CompaniesService_setSpecialization_def outcome_answered
        intro!: outcome_asOwner specialization_kept)
next
  case (AcquireBuilding cid rid t name)
  have "kept d d'" if "BigInt (bt_weeklyOperatingCostCents (BUILDING_DEFINITIONS t)) = Inr w"
    "acquireBuildingWithTx E \<lparr>ab_companyId = cid, ab_regionId = rid, ab_buildingType = t,
       ab_acquisitionCostCents = a, ab_weeklyOperatingCostCents = w,
       ab_capacitySlots = Some (bt_capacitySlots (BUILDING_DEFINITIONS t)), ab_tick = worldTick d, ab_name = name\<rparr> d = Inr (x, d')"
    for a w x d' using acquire_kept [OF that(2) assms(1)] building_costs_fixed [OF that(1)] by simp
  then show ?thesis
    by (auto simp: AcquireBuilding BuildingsService_acquireBuilding_def outcome_answered Let_def andThen_Inr_iff
        intro!: outcome_asOwner outcome_transaction)
next
  case (ReactivateBuilding k)
  then show ?thesis using assms(1)
    by (auto simp: BuildingsService_reactivateBuilding_def outcome_answered
        intro!: outcome_asOwner reactivate_kept split: option.splits)
qed

subsection \<open>The other clients of the database\<close>

text \<open>What a client other than the worker commits: a player's request or a moderator's cancellation.\<close>

inductive clientStep :: "env \<Rightarrow> db \<Rightarrow> db \<Rightarrow> bool" for E where
  request: "affordable p req d \<Longrightarrow> serve E v hours p req d = (r, d') \<Longrightarrow> clientStep E d d'"
| moderator: "MarketService_cancelOrderAsModerator E oid d = (r, d') \<Longrightarrow> clientStep E d d'"

lemma outcome_keptD: "outcome (kept d) d (r, d') \<Longrightarrow> tickOk d \<Longrightarrow> kept d d'"
  by (cases r) (auto simp: outcome_def kept_refl)

lemma client_kept:
  assumes "clientStep E d d'" and "tickOk d"
  shows "kept d d'"
  using assms(1)
proof cases
  case (request p req v hours r)
  with serve_kept [OF assms(2) request(1), of E v hours] show ?thesis by (simp add: outcome_keptD assms(2))
next
  case (moderator oid r)
  with cancel_kept [OF assms(2), of E] show ?thesis
    by (metis MarketService_cancelOrderAsModerator_def assms(2) outcome_keptD)
qed

lemma kept_trans: "kept a b \<Longrightarrow> kept b c \<Longrightarrow> kept a c"
  by (simp add: kept_def)

lemma clients_kept: "(clientStep E)\<^sup>*\<^sup>* d d' \<Longrightarrow> tickOk d \<Longrightarrow> kept d d'"
  by (induction rule: rtranclp_induct) (auto simp: kept_refl intro: kept_trans client_kept dest: kept_def [THEN iffD1])

text \<open>
  The hypothesis of the worker's properties on the other clients holds when all they commit between the
  worker's statements are such steps.
\<close>

lemma clients_behave:
  assumes "\<And>i a d. (clientStep E)\<^sup>*\<^sup>* d (we_others W i a d)"
  shows "othersBehave W"
  using clients_kept [OF assms] by (simp add: othersBehave_def kept_def)

subsection \<open>The operator\<close>

text \<open>\<open>apps/api/src/world/world.service.ts\<close>.\<close>

definition WorldService_getTickState :: "db \<Rightarrow> worldTickState" where
  "WorldService_getTickState d =
     (case worldTickRow d of
       None \<Rightarrow> \<lparr>ws_currentTick = 0, ws_lockVersion = 0, ws_lastAdvancedAt = None\<rparr>
     | Some w \<Rightarrow> w)"

definition WorldService_getHealth :: "env \<Rightarrow> db \<Rightarrow> simulationHealth" where
  "WorldService_getHealth E d = getSimulationHealth E (Some (IntN 20)) d"

definition defaultTickOptions :: "jsnum option \<Rightarrow> advanceOptions" where
  "defaultTickOptions expectedLockVersion =
     \<lparr>ao_expectedLockVersion = expectedLockVersion, ao_runBots = False,
      ao_botConfig = \<lparr>ob_enabled = None, ob_botCount = None, ob_itemCodes = None, ob_spreadBps = None,
        ob_maxNotionalPerTickCents = None, ob_targetQuantityPerSide = None, ob_producerMaxJobsPerTick = None,
        ob_producerCadenceTicks = None, ob_producerMinProfitBps = None\<rparr>,
      ao_demandConfig = \<lparr>od_enabled = None, od_itemCodes = None, od_baseQuantityPerCompany = None,
        od_variabilityQuantity = None\<rparr>,
      ao_contractConfig = \<lparr>oc_contractsPerTick = None, oc_ttlTicks = None, oc_itemCodes = None, oc_priceBandBps = None\<rparr>,
      ao_workforceConfig = id, ao_executionKey = None\<rparr>"

definition WorldService_advance ::
    "env \<Rightarrow> jsnum \<Rightarrow> jsnum option \<Rightarrow> db \<Rightarrow> worldTickState result \<times> db" where
  "WorldService_advance E ticks expectedLockVersion d =
     andThenS (advanceSimulationTicks E ticks (defaultTickOptions expectedLockVersion) d) (\<lambda>_ d.
     (Inr (WorldService_getTickState d), d))"

definition WorldService_reset :: "env \<Rightarrow> environ \<Rightarrow> bool \<Rightarrow> db \<Rightarrow> worldTickState result \<times> db" where
  "WorldService_reset E v reseed d =
     andThenS (resetSimulationData d) (\<lambda>_ d.
     andThenS (if reseed
         then andThenS (seedWorld E v \<lparr>so_reset = False, so_includePlayerCompany = None\<rparr> d) (\<lambda>_ d. (Inr (), d))
         else (Inr (), d)) (\<lambda>_ d.
     (Inr (WorldService_getTickState d), d)))"

definition WorldService_resetSimulationControlState :: "db \<Rightarrow> simulationControlState \<times> db" where
  "WorldService_resetSimulationControlState d =
     (let control = \<lparr>sc_botsPaused = False, sc_processingStopped = False,
            sc_lastInvariantViolationTick = None, sc_lastInvariantViolationAt = None\<rparr> in
      (control, d\<lparr>controlRow := Some control\<rparr>))"

subsection \<open>Histories\<close>

text \<open>
  What is committed to the database of a world: by clients and operators, by the worker (ticks, leases, the
  clean-up, the control row), by the synchronisation of the catalogue. Ticks of a worker under a lease are
  interleaved with the others as the database serialises them. A reset is taken on a database whose buildings
  belong to companies, as the foreign key has it; its seeding is a transaction for each statement, but nothing
  comes between them.
\<close>

inductive worldStep :: "env \<Rightarrow> db \<Rightarrow> db \<Rightarrow> bool" for E where
  client: "clientStep E d d' \<Longrightarrow> worldStep E d d'"
| signIn: "resolvePlayerByHandle E handle d = Inr (p, d') \<Longrightarrow> worldStep E d d'"
| tick: "advanceSimulationTick E options d = (r, d') \<Longrightarrow> worldStep E d d'"
| acquire: "acquireSimulationLease now lease allowReentry d = Inr (b, d') \<Longrightarrow> worldStep E d d'"
| release: "worldStep E d (releaseSimulationLease name owner d)"
| cleanup: "worldStep E d (cleanupTickExecutionRows (config :: workerRuntimeConfig) t d)"
| control: "worldStep E d (snd (ensureSimulationControlState d))"
| policy: "worldStep E d (snd (applyViolationPolicy E config t d))"
| sync: "syncStaticCatalog E d = (r, d') \<Longrightarrow> worldStep E d d'"
| advance: "WorldService_advance E n v d = (r, d') \<Longrightarrow> worldStep E d d'"
| reset: "strayBuildings d = [] \<Longrightarrow> WorldService_reset E v reseed d = (r, d') \<Longrightarrow> worldStep E d d'"
| resetControl: "WorldService_resetSimulationControlState d = (r, d') \<Longrightarrow> worldStep E d d'"

definition sound :: "db \<Rightarrow> bool" where
  "sound d \<longleftrightarrow> tickOk d \<and> staffed d"

lemma sound_same:
  "sound d \<Longrightarrow> companies d' = companies d \<Longrightarrow> inventories d' = inventories d \<Longrightarrow> marketOrders d' = marketOrders d \<Longrightarrow>
   recipes d' = recipes d \<Longrightarrow> recipeInputs d' = recipeInputs d \<Longrightarrow> buildings d' = buildings d \<Longrightarrow> sound d'"
  using tickOk_same [of d d'] by (simp add: sound_def staffed_def)

lemma tick_sound:
  assumes "advanceSimulationTick E options d = (r, d')" and "sound d"
  shows "sound d'"
  using tick_effect [OF assms(1)] assms(2) by (cases r) (auto simp: sound_def tickEffect_def)

lemma advance_sound: "advanceLoop E options n d = (r, d') \<Longrightarrow> sound d \<Longrightarrow> sound d'"
proof (induction n arbitrary: d options)
  case (Suc n)
  obtain r1 d1 where one: "advanceSimulationTick E options d = (r1, d1)" by fastforce
  show ?case
  proof (cases r1)
    case (Inl e)
    with one Suc.prems tick_sound [OF one] show ?thesis by simp
  next
    case (Inr x)
    with one Suc.prems(1) have "advanceLoop E (options\<lparr>ao_expectedLockVersion := None\<rparr>) n d1 = (r, d')" by simp
    from Suc.IH [OF this tick_sound [OF one Suc.prems(2)]] show ?thesis .
  qed
qed simp

lemma fresh_sound: "sound (freshDb n)"
  by (simp add: sound_def freshDb_def emptyDb_def tickOk_def marketOk_def economyOk_def rowsOk_def cashBacked_def
      recipesOk_def outputsOk_def staffed_def)

lemma reset_sound:
  assumes "WorldService_reset E v reseed d = (r, d')" and "strayBuildings d = []"
    and "inj (env_cuid E)" and "\<forall>n. env_cuid E n \<noteq> []"
  shows "sound d'"
proof -
  have "resetSimulationData d = (Inr (), freshDb (db_seq d))"
    using assms(2) by (simp add: reset_eq) (simp add: freshDb_def emptyDb_def)
  with assms(1) have run: "andThenS (if reseed
         then andThenS (seedWorld E v \<lparr>so_reset = False, so_includePlayerCompany = None\<rparr> (freshDb (db_seq d))) (\<lambda>_ d. (Inr (), d))
         else (Inr (), freshDb (db_seq d))) (\<lambda>_ d. (Inr (WorldService_getTickState d), d)) = (r, d')"
    by (simp add: WorldService_reset_def)
  show ?thesis
  proof (cases reseed)
    case True
    from seedFresh_returns [OF assms(3,4) refl, of "shouldIncludeSeededPlayerCompany v
        \<lparr>so_reset = False, so_includePlayerCompany = None\<rparr>" "db_seq d"]
    obtain res e where "seedWorld E v \<lparr>so_reset = False, so_includePlayerCompany = None\<rparr> (freshDb (db_seq d)) = (Inr res, e)"
      "tickOk e" "staffed e" by (auto simp: seedWorld_def Let_def)
    with run True show ?thesis by (simp add: sound_def)
  next
    case False
    with run have "d' = freshDb (db_seq d)" by simp
    then show ?thesis by (simp add: fresh_sound)
  qed
qed

lemma step_sound:
  assumes "worldStep E d d'" and "sound d" and "inj (env_cuid E)" and "\<forall>n. env_cuid E n \<noteq> []"
  shows "sound d'"
  using assms(1)
proof cases
  case client
  with client_kept assms(2) show ?thesis by (auto simp: sound_def kept_def)
next
  case (signIn handle p)
  then show ?thesis
    by (intro sound_same [OF assms(2)])
      (auto simp: resolvePlayerByHandle_def andThen_Inr_iff upsertRow_def createRow_Inr updateRow_Inr split: option.splits)
next
  case (tick options r)
  from tick_sound [OF this assms(2)] show ?thesis .
next
  case (acquire now lease allowReentry b)
  from leaseOnlyD [OF acquire_only [OF this]] assms(2) show ?thesis by (simp add: sound_def)
next
  case (release name owner)
  with leaseOnlyD [OF release_only] assms(2) show ?thesis by (simp add: sound_def)
next
  case (cleanup config t)
  then show ?thesis by (intro sound_same [OF assms(2)]) (simp_all add: cleanupTickExecutionRows_def Let_def)
next
  case control
  then show ?thesis
    by (intro sound_same [OF assms(2)]) (simp_all add: ensureSimulationControlState_def Let_def split: option.splits)
next
  case (policy config t)
  then show ?thesis
    by (intro sound_same [OF assms(2)])
      (simp_all add: applyViolationPolicy_def pauseBotsAfterInvariantViolation_def
        stopSimulationAfterInvariantViolation_def split: invariantPolicy.splits)
next
  case (sync r)
  then show ?thesis using sync_effect(2,3) assms(2)
    by (auto simp: syncStaticCatalog_def transaction_def sound_def split: sum.splits)
next
  case (advance n v r)
  then show ?thesis using advance_sound assms(2)
    by (auto simp: WorldService_advance_def advanceSimulationTicks_def andThenS_def split: if_splits sum.splits prod.splits)
next
  case (reset v reseed r)
  from reset_sound [OF this(2,1) assms(3,4)] show ?thesis .
next
  case (resetControl r)
  then show ?thesis
    by (intro sound_same [OF assms(2)]) (auto simp: WorldService_resetSimulationControlState_def Let_def)
qed

text \<open>
  C40. A world stays sound. Whatever is committed to its database, in whatever order and however often --
  requests of players and moderators, ticks of any number of workers with any options, lease statements,
  synchronisations of the catalogue, resets with or without a new seed -- the invariant of the economy and
  the range of the workforces survive, and the health check of the service finds no violation. The requests
  are the affordable ones, see \<open>affordable\<close>: starting research and delivering a contract must be paid from
  cash that is not reserved, which their handlers do not check.
\<close>

theorem world_stays_sound:
  assumes "(worldStep E)\<^sup>*\<^sup>* d d'" and "tickOk d" and "staffed d"
    and "inj (env_cuid E)" and "\<forall>n. env_cuid E n \<noteq> []"
  shows "tickOk d' \<and> staffed d' \<and> \<not> hasViolations (hs_invariants (WorldService_getHealth E d'))"
proof -
  from assms(1) have "sound d'"
    by (induction rule: rtranclp_induct) (use assms(2,3) step_sound [OF _ _ assms(4,5)] in \<open>auto simp: sound_def\<close>)
  then have ok: "tickOk d'" "staffed d'" by (simp_all add: sound_def)
  have "companyOk c \<and> workforceColumnsOk c" if "c \<in> set (companies d')" for c
    using ok that columns_iff by (auto simp: tickOk_def marketOk_def economyOk_def rowsOk_def staffed_def)
  moreover have "inventoryOk r" if "r \<in> set (inventories d')" for r
    using ok that by (auto simp: tickOk_def marketOk_def economyOk_def rowsOk_def)
  ultimately show ?thesis
    using ok by (simp add: WorldService_getHealth_def getSimulationHealth_def scan_clean_iff)
qed

text \<open>From a new database: a reset with a seed, a sign-in, a tick, a request and another tick.\<close>

lemma world_stays_sound_witness:
  "let d1 = snd (WorldService_reset seedEnv Map.empty True (freshDb 0));
       d2 = snd (advanceSimulationTick seedEnv (defaultTickOptions None) d1);
       d3 = snd (serve seedEnv Map.empty 4 ''p1'' (CancelOrder ''i'') d2);
       d4 = snd (WorldService_advance seedEnv (IntN 2) None d3) in
   tickOk d4 \<and> staffed d4 \<and> \<not> hasViolations (hs_invariants (WorldService_getHealth seedEnv d4))"
proof -
  define d1 where "d1 = snd (WorldService_reset seedEnv Map.empty True (freshDb 0))"
  define d2 where "d2 = snd (advanceSimulationTick seedEnv (defaultTickOptions None) d1)"
  define d3 where "d3 = snd (serve seedEnv Map.empty 4 ''p1'' (CancelOrder ''i'') d2)"
  define d4 where "d4 = snd (WorldService_advance seedEnv (IntN 2) None d3)"
  have "strayBuildings (freshDb 0) = []" by (simp add: strayBuildings_def freshDb_def emptyDb_def)
  from worldStep.reset [where E = seedEnv and v = Map.empty and reseed = True, OF this prod.collapse [symmetric]]
  have s1: "worldStep seedEnv (freshDb 0) d1" by (simp only: d1_def)
  from worldStep.tick [where E = seedEnv and options = "defaultTickOptions None" and d = d1, OF prod.collapse [symmetric]]
  have s2: "worldStep seedEnv d1 d2" by (simp only: d2_def)
  have "affordable ''p1'' (CancelOrder ''i'') d2" by simp
  from clientStep.request [where E = seedEnv and v = Map.empty and hours = 4, OF this prod.collapse [symmetric]]
  have s3: "worldStep seedEnv d2 d3" unfolding d3_def by (rule worldStep.client)
  from worldStep.advance [where E = seedEnv and n = "IntN 2" and v = None and d = d3, OF prod.collapse [symmetric]]
  have s4: "worldStep seedEnv d3 d4" by (simp only: d4_def)
  from s1 s2 s3 s4 have run: "(worldStep seedEnv)\<^sup>*\<^sup>* (freshDb 0) d4"
    by (meson rtranclp.rtrancl_into_rtrancl rtranclp.rtrancl_refl)
  have "tickOk (freshDb 0)" "staffed (freshDb 0)" using fresh_sound [of 0] by (simp_all add: sound_def)
  from world_stays_sound [OF run this seedEnv_ids] show ?thesis
    unfolding Let_def d4_def d3_def d2_def d1_def .
qed

end
