(* ===== verification/Spec2Isabelle.thy ===== *)
theory Spec2Isabelle
  imports Prelude DomainErrors Reservations IconCatalog Specialization TierLocker Schema Store
    Economy Fixture MarketOrders Buildings MarketMatching MarketCandles Workforce Production Research
    Shipments Contracts DemandSink LiquidityBot BotRunner TickEngine Invariants Lease WorkerConfig WorkerLoop
    WorkerRuntime Players ResetSimulation ReadModels Catalog Progression WorldSeed CatalogSync
    PlayerActions PlayerIsolation WorldHistory
begin

text \<open>
  CorpSim is an economic simulation played in ticks. Companies, owned by players or run by bots,
  hold cash and stock in regions, trade on one order book per region and item, produce by recipes
  in buildings, research recipes, ship goods and serve contracts. The services of
  \<open>packages/sim/src/services\<close> handle the players' requests, each in its own database transaction;
  the tick engine runs ten stages in one transaction per tick; a worker process
  (\<open>apps/worker\<close>) drives the ticks under a lease. This development models these services, the
  domain and shared modules they use, the bots and the worker, and proves what makes them correct.

  \<^bold>\<open>State.\<close> \<open>Schema\<close> has one record per table of \<open>schema.prisma\<close> the simulation reads or writes and
  the record \<open>db\<close> of all tables, each a list of rows in insertion order. A handler is a function
  from \<open>db\<close> to an error or a value and the new \<open>db\<close>; \<open>transaction\<close> (theory \<open>Store\<close>) keeps the old
  state when the body throws. The errors are the classes of \<open>domain/errors.ts\<close>, what the database
  client raises, and plain \<open>Error\<close>. Numbers that a caller supplies are \<open>jsnum\<close>, an integer or
  something that is not one, so that every \<open>Number.isInteger\<close> check is a branch; bigint division
  is \<open>sdiv\<close>. Generated ids, the clock, the collation of text and \<open>localeCompare\<close> are the parameter
  \<open>env\<close>; times depend on how many rows have been created.

  \<^bold>\<open>Theories.\<close>
  \<^item> \<open>Prelude\<close>: results, loops that may throw, JavaScript numbers and strings, stable sorting, rows
    found and updated by key; the collections \<open>result_simps\<close> and \<open>row_simps\<close>.
  \<^item> \<open>DomainErrors\<close>, \<open>Reservations\<close>: \<open>sim/src/domain\<close>. \<open>IconCatalog\<close>, \<open>Specialization\<close>:
    \<open>shared/src/icon-pack-catalog.ts\<close> and \<open>company-specialization.ts\<close>. \<open>TierLocker\<close>:
    \<open>item-tier-locker.ts\<close>.
  \<^item> \<open>Schema\<close>, \<open>Store\<close>, \<open>Economy\<close>, \<open>Fixture\<close>: tables; the operations of the database client; the
    invariants \<open>marketOk\<close>, \<open>tickOk\<close> and \<open>staffed\<close> that the handlers keep; the concrete world of the witnesses.
  \<^item> \<open>MarketOrders\<close>, \<open>MarketMatching\<close>, \<open>MarketCandles\<close>, \<open>Buildings\<close>, \<open>Workforce\<close>, \<open>Production\<close>,
    \<open>Research\<close>, \<open>Shipments\<close>, \<open>Contracts\<close>, \<open>DemandSink\<close>, \<open>Invariants\<close>, \<open>TickEngine\<close>: the service
    of the same name. \<open>LiquidityBot\<close>, \<open>BotRunner\<close>: \<open>sim/src/bots\<close>.
  \<^item> \<open>Players\<close>, \<open>ResetSimulation\<close>: \<open>players.ts\<close> and \<open>regions.ts\<close>, \<open>reset-simulation.ts\<close>.
    \<open>ReadModels\<close>: \<open>read-models.ts\<close>, with the change of a company's specialization.
  \<^item> \<open>Lease\<close>, \<open>WorkerConfig\<close>, \<open>WorkerLoop\<close>, \<open>WorkerRuntime\<close>: \<open>apps/worker/src\<close>, that is
    \<open>simulation-lease.ts\<close>, \<open>config.ts\<close>, \<open>worker-loop.ts\<close>, and \<open>simulation-control.ts\<close> with
    \<open>queue-runtime.ts\<close>. A job of the queue is one call of \<open>processTickJob\<close>, which runs one iteration
    of the loop and, when a check is due, the scan of \<open>Invariants\<close>.
  \<^item> \<open>Catalog\<close>, \<open>Progression\<close>, \<open>WorldSeed\<close>, \<open>CatalogSync\<close>: \<open>packages/db/src/seed-world.ts\<close>, that is the
    tables of items, recipes and research with the recipes generated from the icon packs; what a
    company can come to make, or buy from the companies of its region, under the locks of tier and
    specialization; \<open>seedWorld\<close>, which runs statement by statement, and
    \<open>syncStaticCatalog\<close>, one transaction.
  \<^item> \<open>PlayerActions\<close>, \<open>PlayerIsolation\<close>: the services of \<open>apps/api/src\<close> behind the controllers (market,
    production, contracts, shipments, research, workforce, companies, finance, buildings), which check
    whose company a request is about and call the services above; \<open>serve\<close> answers one request, and
    what it cannot touch is \<open>othersView\<close>.
  \<^item> \<open>WorldHistory\<close>: the service behind the world controller (\<open>world.service.ts\<close>), what every request
    guarantees (\<open>kept\<close>), and the histories of a world (\<open>worldStep\<close>): requests, ticks, lease statements,
    synchronisations and resets in any order.

  \<^bold>\<open>Interfaces.\<close> \<open>dbTable\<close> is what a table promises (rows after an update, a creation, an upsert),
  interpreted on the tables. \<open>reservation\<close> is a balance with a reserved part, interpreted on cash
  and on stock. \<open>comparator\<close> is what stable sorting needs of a comparison, interpreted on the sort
  keys of the code. \<open>tick_stage\<close> is the contract of a stage of the tick: it keeps \<open>tickOk\<close>, does not
  mint money and leaves the clock and the execution records alone. Each of the ten stages is an
  interpretation in its own theory, two stages in sequence are a stage, so \<open>TickEngine\<close> gets the
  pipeline's contract from those of its parts. \<open>quiet_stage\<close>
  extends it by leaving the companies alone. \<open>exclusive_slot\<close> is what a store of leases must
  promise for two workers that interleave statement by statement, interpreted on the table of
  leases.

  \<^bold>\<open>Lemmas.\<close> For each handler: an inversion lemma that says what a success went through, the
  preservation of the invariants (one rule per write of the database, theory \<open>Economy\<close>), and the
  properties: conservation of cash and goods (matching, settlement, contracts, shipments,
  production), exact effects of accepted requests, round trips (place and cancel, start and cancel,
  ship and cancel, item codes), life cycles as step relations (research, contracts, leases),
  refusals that change nothing, stages that never fail, a seed that always succeeds and leaves a
  sound world, a catalogue without dead ends, the isolation of players from each other, bounds of the bots' plans and of the
  configuration, agreement of views with what the handlers accept, a world that stays sound through any history. A committed
  tick is pinned down stage by stage (\<open>tickStages\<close>), each stage by the property of its theory.

  \<^bold>\<open>Bounds and termination.\<close> No fuel is used: loops over rows are recursion over lists, matching
  terminates by the number of orders left, several ticks by their count, retries by theirs.
  Integers are unbounded: \<open>bigint\<close> columns are exact in the code; the overflow of 32-bit columns in
  the database and the loss of precision of numbers beyond 2^53 are not modelled. The 32-bit hashes
  of the demand sink and the bots wrap as in the code. Strings are lists of 8-bit characters.

  \<^bold>\<open>Reading the model.\<close> A query without an order gives the rows in table order. Rows joined by the
  query are looked up by their id. \<open>updatedAt\<close> columns are left out. Transactions are taken as
  serializable, so handlers run one after the other, except where a module commits statement by
  statement. That is the worker: its lease is taken by two statements, which the step relation of \<open>Lease\<close>
  interleaves between any number of workers, and its batch of ticks is a transaction each, between
  which the parameter \<open>workerEnv\<close> lets other clients commit. What the worker relies on is the hypothesis
  \<open>othersBehave\<close>: what they commit keeps the invariants of the economy, the clock, the execution records
  and the control row. The requests guarantee it (lemma \<open>clients_behave\<close>) as long as they are \<open>affordable\<close>:
  a start of research and a delivery of a contract that spend reserved cash, which their handlers let
  pass, break it. (Beside these, \<open>affordable\<close> asks only that no shipment has a negative quantity and no
  contract a negative price, and that contracts have distinct ids, as the code and the schema make them.)

  \<^bold>\<open>Not modelled.\<close> Of the HTTP layer (\<open>apps/api\<close>) the controllers, the validation of DTOs, the
  wire format, authentication, moderation, support and onboarding; they and the web client (\<open>apps/web\<close>) hold no simulation state of their own; the command-line scripts only call modelled functions; the generated database client and the
  tables for accounts and moderation are not source of this repository's logic. Of the worker
  the wiring of BullMQ and Redis, timers, logging and the start of the process are left out.

  \<^bold>\<open>What modelling showed.\<close> \<open>startResearch\<close> and \<open>fulfillContract\<close> spend cash that is reserved for
  buy orders (lemmas \<open>research_spends_reserved_cash\<close>, \<open>fulfillContract_spends_reserved_cash\<close>);
  \<open>fulfillContract\<close> updates the seller's stock without naming the region
  (\<open>fulfillContract_twin_stock_conflict\<close>); a failed start of a bot's job can leave inputs reserved;
  the scan's \<open>truncated\<close> flag is computed after the limit (\<open>scan_truncation_missed\<close>); workforce
  columns out of range make every tick throw, so the policy for violations is never reached
  (\<open>invalid_workforce_blocks_the_tick\<close>); a reset deletes the catalogue its comment says it keeps;
  the check ahead of a production job reports a full plant as an error that no start enforces
  (\<open>capacity_not_enforced\<close>) and adds the whole output of a job where its completion adds the net change
  (\<open>preflight_too_strict\<close>); several module comments promise more than the code does.
\<close>

end
